(* ===== verification/SLF_Prelude.thy ===== *)
theory SLF_Prelude
  imports Main "HOL-Library.Word" "HOL-Library.Multiset"
begin

text \<open>
  Shared vocabulary of the development: machine-integer type synonyms, the collections of
  simplification rules the component theories fill, and models of the parts of the C++
  standard library the sources use. These are \<open>std::map\<close> (a strictly sorted association
  list), \<open>std::sort\<close> (insertion sort by a comparator), \<open>std::unique\<close>,
  \<open>std::lower_bound\<close> (the halving loop) and \<open>std::to_string\<close> of an unsigned value.
\<close>

unbundle bit_operations_syntax

named_theorems codec_simps \<open>equations of the byte writers and readers\<close>
named_theorems status_simps \<open>equations of status and outcome predicates\<close>

type_synonym u8 = "8 word"
type_synonym u16 = "16 word"
type_synonym u32 = "32 word"
type_synonym u64 = "64 word"
type_synonym bytes = "u8 list"

section \<open>Ordered maps\<close>

text \<open>
  \<open>std::map<K, V>\<close> iterates in ascending key order. It is an association list whose keys
  are strictly ascending; lookup is \<^const>\<open>map_of\<close>. \<open>omap_emplace\<close> is \<open>emplace\<close>
  (an existing key wins), \<open>omap_put\<close> is assignment through \<open>operator[]\<close>.
\<close>

type_synonym ('k, 'v) omap = "('k \<times> 'v) list"

fun omap_emplace :: "'k::linorder \<Rightarrow> 'v \<Rightarrow> ('k, 'v) omap \<Rightarrow> ('k, 'v) omap" where
  "omap_emplace k v [] = [(k, v)]"
| "omap_emplace k v ((a, b) # m) =
     (if k < a then (k, v) # (a, b) # m
      else if k = a then (a, b) # m
      else (a, b) # omap_emplace k v m)"

fun omap_put :: "'k::linorder \<Rightarrow> 'v \<Rightarrow> ('k, 'v) omap \<Rightarrow> ('k, 'v) omap" where
  "omap_put k v [] = [(k, v)]"
| "omap_put k v ((a, b) # m) =
     (if k < a then (k, v) # (a, b) # m
      else if k = a then (k, v) # m
      else (a, b) # omap_put k v m)"

definition omap_count :: "('k, 'v) omap \<Rightarrow> 'k \<Rightarrow> bool" where
  "omap_count m k = (map_of m k \<noteq> None)"

definition omap_wf :: "('k::linorder, 'v) omap \<Rightarrow> bool" where
  "omap_wf m = sorted_wrt (<) (map fst m)"

text \<open>The contract the clients of \<open>std::map\<close> rely on.\<close>

locale ordered_map =
  fixes wf :: "'m \<Rightarrow> bool"
    and lookup :: "'m \<Rightarrow> 'k::linorder \<Rightarrow> 'v option"
    and insert :: "'k \<Rightarrow> 'v \<Rightarrow> 'm \<Rightarrow> 'm"
    and entries :: "'m \<Rightarrow> ('k \<times> 'v) list"
  assumes wf_insert: "wf m \<Longrightarrow> lookup m k = None \<Longrightarrow> wf (insert k v m)"
    and lookup_insert: "wf m \<Longrightarrow> lookup m k = None \<Longrightarrow> lookup (insert k v m) = (lookup m)(k \<mapsto> v)"
    and entries_sorted: "wf m \<Longrightarrow> sorted_wrt (<) (map fst (entries m))"
    and entries_lookup: "wf m \<Longrightarrow> (k, v) \<in> set (entries m) \<longleftrightarrow> lookup m k = Some v"
begin

lemma insert_entries:
  "wf m \<Longrightarrow> lookup m k = None \<Longrightarrow> set (entries (insert k v m)) = Set.insert (k, v) (set (entries m))"
proof -
  assume wf: "wf m" and fresh: "lookup m k = None"
  have "p \<in> set (entries (insert k v m)) \<longleftrightarrow> p \<in> Set.insert (k, v) (set (entries m))" for p
    using entries_lookup [OF wf_insert [OF wf fresh, of v], of "fst p" "snd p"]
      entries_lookup [OF wf, of "fst p" "snd p"] fresh
    by (cases p) (auto simp: lookup_insert [OF wf fresh] split: if_splits)
  then show ?thesis by blast
qed

lemma insert_keeps:
  "wf m \<Longrightarrow> lookup m k = None \<Longrightarrow> lookup m j = Some w \<Longrightarrow> lookup (insert k v m) j = Some w"
  by (auto simp: lookup_insert)

lemma entries_distinct: "wf m \<Longrightarrow> distinct (map fst (entries m))"
  using entries_sorted strict_sorted_iff by blast

end

lemma omap_emplace_keys: "set (map fst (omap_emplace k v m)) = insert k (set (map fst m))"
  by (induction k v m rule: omap_emplace.induct) auto

lemma omap_wf_emplace [simp]: "omap_wf m \<Longrightarrow> omap_wf (omap_emplace k v m)"
proof (induction k v m rule: omap_emplace.induct)
  case (2 k v a b m)
  have keys: "fst ` set (omap_emplace k v m) = insert k (fst ` set m)"
    using omap_emplace_keys [of k v m] by simp
  show ?case
  proof (cases "k \<le> a")
    case True
    with 2 show ?thesis by (auto simp: omap_wf_def)
  next
    case False
    with 2 have "omap_wf (omap_emplace k v m)" by (simp add: omap_wf_def)
    with False "2.prems" show ?thesis by (auto simp: omap_wf_def keys)
  qed
qed (simp add: omap_wf_def)

lemma map_of_emplace:
  "omap_wf m \<Longrightarrow> map_of m k = None \<Longrightarrow> map_of (omap_emplace k v m) = (map_of m)(k \<mapsto> v)"
  by (induction k v m rule: omap_emplace.induct) (auto simp: omap_wf_def fun_eq_iff)

lemma omap_wf_distinct: "omap_wf m \<Longrightarrow> distinct (map fst m)"
  unfolding omap_wf_def using strict_sorted_iff by blast

lemma omap_wf_Nil [simp]: "omap_wf []"
  by (simp add: omap_wf_def)

interpretation emplace: ordered_map omap_wf map_of omap_emplace "\<lambda>m. m"
  by unfold_locales
    (simp_all add: map_of_emplace omap_wf_def [symmetric] omap_wf_distinct)

section \<open>Sorting and searching\<close>

text \<open>
  \<open>std::sort\<close> with a comparator \<open>lt\<close>. The standard leaves the order of equivalent
  elements open; this model keeps them in their original order, and theorems about sorted
  vectors use only that the result is a sorted permutation.
\<close>

fun insort_by :: "('a \<Rightarrow> 'a \<Rightarrow> bool) \<Rightarrow> 'a \<Rightarrow> 'a list \<Rightarrow> 'a list" where
  "insort_by lt x [] = [x]"
| "insort_by lt x (y # ys) = (if lt y x then y # insort_by lt x ys else x # y # ys)"

definition std_sort :: "('a \<Rightarrow> 'a \<Rightarrow> bool) \<Rightarrow> 'a list \<Rightarrow> 'a list" where
  "std_sort lt xs = foldr (insort_by lt) xs []"

definition std_unique :: "'a list \<Rightarrow> 'a list" where
  "std_unique xs = remdups_adj xs"

lemma mset_insort_by [simp]: "mset (insort_by lt x xs) = add_mset x (mset xs)"
  by (induction xs) auto

lemma set_insort_by [simp]: "set (insort_by lt x xs) = insert x (set xs)"
  by (induction xs) auto

lemma mset_std_sort [simp]: "mset (std_sort lt xs) = mset xs"
  by (induction xs) (simp_all add: std_sort_def)

lemma set_std_sort [simp]: "set (std_sort lt xs) = set xs"
  using mset_std_sort [of lt xs] by (metis set_mset_mset)

lemma length_std_sort [simp]: "length (std_sort lt xs) = length xs"
  using mset_std_sort [of lt xs] by (metis size_mset)

lemma std_sort_Nil [simp]: "std_sort lt [] = []"
  by (simp add: std_sort_def)

lemma std_sort_Cons: "std_sort lt (x # xs) = insort_by lt x (std_sort lt xs)"
  by (simp add: std_sort_def)

text \<open>A strict weak order, the requirement \<open>std::sort\<close> puts on its comparator.\<close>

definition weak_order :: "('a \<Rightarrow> 'a \<Rightarrow> bool) \<Rightarrow> bool" where
  "weak_order lt \<longleftrightarrow> (\<forall>x y. lt x y \<longrightarrow> \<not> lt y x) \<and> (\<forall>x y z. \<not> lt x y \<longrightarrow> \<not> lt y z \<longrightarrow> \<not> lt x z)"

lemma sorted_insort_by:
  assumes "weak_order lt" and "sorted_wrt (\<lambda>a b. \<not> lt b a) xs"
  shows "sorted_wrt (\<lambda>a b. \<not> lt b a) (insort_by lt x xs)"
  using assms(2)
proof (induction xs)
  case (Cons y ys)
  show ?case
  proof (cases "lt y x")
    case True
    then have "\<not> lt x y" using assms(1) unfolding weak_order_def by blast
    moreover have "sorted_wrt (\<lambda>a b. \<not> lt b a) (insort_by lt x ys)"
      using Cons.IH Cons.prems by simp
    moreover have "\<forall>z\<in>set ys. \<not> lt z y" using Cons.prems by simp
    ultimately show ?thesis using True by simp
  next
    case False
    have "\<not> lt z x" if "z \<in> set ys" for z
      using that False Cons.prems assms(1) unfolding weak_order_def by (metis sorted_wrt.simps(2))
    with False Cons.prems show ?thesis by simp
  qed
qed simp

lemma sorted_std_sort: "weak_order lt \<Longrightarrow> sorted_wrt (\<lambda>a b. \<not> lt b a) (std_sort lt xs)"
  by (induction xs) (simp_all add: std_sort_Cons sorted_insort_by)

lemma insort_by_less: "insort_by (<) x ys = insort_key (\<lambda>y. y) (x::'a::linorder) ys"
  by (induction ys) auto

lemma std_sort_less: "std_sort (<) xs = sort (xs :: 'a::linorder list)"
  by (induction xs) (simp_all add: std_sort_Cons insort_by_less)

text \<open>
  \<open>std::lower_bound\<close> over a vector: the halving loop of the library, with
  \<open>p x\<close> standing for \<open>comp(x, value)\<close>.
\<close>

function lower_bound_loop :: "('a \<Rightarrow> bool) \<Rightarrow> 'a list \<Rightarrow> nat \<Rightarrow> nat \<Rightarrow> nat" where
  "lower_bound_loop p xs first len =
     (if len = 0 then first
      else if p (xs ! (first + len div 2))
           then lower_bound_loop p xs (first + len div 2 + 1) (len - len div 2 - 1)
           else lower_bound_loop p xs first (len div 2))"
  by pat_completeness auto
termination
  by (relation "measure (\<lambda>(p, xs, first, len). len)") auto

declare lower_bound_loop.simps [simp del]

definition lower_bound :: "('a \<Rightarrow> bool) \<Rightarrow> 'a list \<Rightarrow> nat" where
  "lower_bound p xs = lower_bound_loop p xs 0 (length xs)"

lemma lower_bound_loop_unique:
  assumes "first + len \<le> length xs"
    and "first \<le> t" and "t \<le> first + len"
    and "\<And>i. first \<le> i \<Longrightarrow> i < first + len \<Longrightarrow> p (xs ! i) \<longleftrightarrow> i < t"
  shows "lower_bound_loop p xs first len = t"
  using assms
proof (induction p xs first len rule: lower_bound_loop.induct)
  case (1 p xs first len)
  show ?case
  proof (cases "len = 0")
    case True
    with "1.prems" show ?thesis by (simp add: lower_bound_loop.simps [of p xs first 0])
  next
    case False
    then have mid: "first + len div 2 < first + len" by simp
    with "1.prems"(4) have side: "p (xs ! (first + len div 2)) \<longleftrightarrow> first + len div 2 < t" by simp
    show ?thesis
    proof (cases "p (xs ! (first + len div 2))")
      case True
      with False "1.prems" side mid "1.IH"(1) show ?thesis
        by (simp add: lower_bound_loop.simps [of p xs first len])
    next
      case no: False
      with False "1.prems" side mid "1.IH"(2) show ?thesis
        by (simp add: lower_bound_loop.simps [of p xs first len])
    qed
  qed
qed

lemma lower_bound_partitioned:
  assumes part: "\<And>i j. i < j \<Longrightarrow> j < length xs \<Longrightarrow> p (xs ! j) \<Longrightarrow> p (xs ! i)"
  shows "lower_bound p xs = length (takeWhile p xs)"
proof -
  let ?t = "length (takeWhile p xs)"
  have iff: "p (xs ! i) \<longleftrightarrow> i < ?t" if "i < length xs" for i
  proof
    assume "p (xs ! i)"
    show "i < ?t"
    proof (rule ccontr)
      assume "\<not> i < ?t"
      then have "?t \<le> i" by simp
      with that have "?t < length xs" by simp
      then have "\<not> p (xs ! ?t)" by (rule nth_length_takeWhile)
      with part [of ?t i] that \<open>p (xs ! i)\<close> \<open>?t \<le> i\<close> show False
        by (cases "?t = i") auto
    qed
  next
    assume "i < ?t"
    then show "p (xs ! i)"
      by (metis nth_mem set_takeWhileD takeWhile_nth)
  qed
  show ?thesis unfolding lower_bound_def
    by (rule lower_bound_loop_unique) (simp_all add: length_takeWhile_le iff)
qed

section \<open>Decimal rendering\<close>

text \<open>\<open>std::to_string\<close> of an unsigned value.\<close>

definition digit_char :: "nat \<Rightarrow> char" where
  "digit_char d = char_of (48 + d)"

fun dec_string :: "nat \<Rightarrow> string" where
  "dec_string n = (if n < 10 then [digit_char n] else dec_string (n div 10) @ [digit_char (n mod 10)])"

declare dec_string.simps [simp del]

definition u_string :: "'a::len word \<Rightarrow> string" where
  "u_string w = dec_string (unat w)"

lemma dec_string_nonempty [simp]: "dec_string n \<noteq> []"
  by (subst dec_string.simps) simp

end
