(* ===== verification/SLF_Status.thy ===== *)
theory SLF_Status
  imports SLF_Prelude
begin

text \<open>
  Typed outcomes (\<open>include/slf/status.hpp\<close>, \<open>src/status.cpp\<close>): the status codes, the
  \<open>Status\<close> value (code and detail), and \<open>Outcome<T>\<close> as a sum type whose left side is
  the failing status.
\<close>

datatype status_code =
    SC_Ok | SC_Unknown | SC_Invalid | SC_NotFound | SC_DuplicateIdentity | SC_DanglingEdge
  | SC_IllegalAdjacency | SC_ContradictoryRole | SC_CrossGeneration | SC_Stale | SC_Conflicting
  | SC_Incomplete | SC_Indeterminate | SC_Unsupported | SC_Refused | SC_Fenced | SC_Cancelled
  | SC_Exhausted | SC_Overflow | SC_IntegrityError | SC_Corrupt | SC_Truncated
  | SC_IncompatibleVersion | SC_IoError | SC_Busy | SC_Closed | SC_AlreadyExists | SC_NotStarted
  | SC_DeadlineExpired | SC_Internal

text \<open>The enumerators in declaration order; the numeric value of a code is its position.\<close>

definition all_status_codes :: "status_code list" where
  "all_status_codes =
    [SC_Ok, SC_Unknown, SC_Invalid, SC_NotFound, SC_DuplicateIdentity, SC_DanglingEdge,
     SC_IllegalAdjacency, SC_ContradictoryRole, SC_CrossGeneration, SC_Stale, SC_Conflicting,
     SC_Incomplete, SC_Indeterminate, SC_Unsupported, SC_Refused, SC_Fenced, SC_Cancelled,
     SC_Exhausted, SC_Overflow, SC_IntegrityError, SC_Corrupt, SC_Truncated,
     SC_IncompatibleVersion, SC_IoError, SC_Busy, SC_Closed, SC_AlreadyExists, SC_NotStarted,
     SC_DeadlineExpired, SC_Internal]"

fun status_code_string :: "status_code \<Rightarrow> string" where
  "status_code_string SC_Ok = ''ok''"
| "status_code_string SC_Unknown = ''unknown''"
| "status_code_string SC_Invalid = ''invalid''"
| "status_code_string SC_NotFound = ''not_found''"
| "status_code_string SC_DuplicateIdentity = ''duplicate_identity''"
| "status_code_string SC_DanglingEdge = ''dangling_edge''"
| "status_code_string SC_IllegalAdjacency = ''illegal_adjacency''"
| "status_code_string SC_ContradictoryRole = ''contradictory_role''"
| "status_code_string SC_CrossGeneration = ''cross_generation''"
| "status_code_string SC_Stale = ''stale''"
| "status_code_string SC_Conflicting = ''conflicting''"
| "status_code_string SC_Incomplete = ''incomplete''"
| "status_code_string SC_Indeterminate = ''indeterminate''"
| "status_code_string SC_Unsupported = ''unsupported''"
| "status_code_string SC_Refused = ''refused''"
| "status_code_string SC_Fenced = ''fenced''"
| "status_code_string SC_Cancelled = ''cancelled''"
| "status_code_string SC_Exhausted = ''exhausted''"
| "status_code_string SC_Overflow = ''overflow''"
| "status_code_string SC_IntegrityError = ''integrity_error''"
| "status_code_string SC_Corrupt = ''corrupt''"
| "status_code_string SC_Truncated = ''truncated''"
| "status_code_string SC_IncompatibleVersion = ''incompatible_version''"
| "status_code_string SC_IoError = ''io_error''"
| "status_code_string SC_Busy = ''busy''"
| "status_code_string SC_Closed = ''closed''"
| "status_code_string SC_AlreadyExists = ''already_exists''"
| "status_code_string SC_NotStarted = ''not_started''"
| "status_code_string SC_DeadlineExpired = ''deadline_expired''"
| "status_code_string SC_Internal = ''internal''"

definition is_ok :: "status_code \<Rightarrow> bool" where
  "is_ok code = (code = SC_Ok)"

definition is_indeterminate :: "status_code \<Rightarrow> bool" where
  "is_indeterminate code =
     (code = SC_Unknown \<or> code = SC_Indeterminate \<or> code = SC_Incomplete \<or> code = SC_Unsupported)"

definition is_stale_family :: "status_code \<Rightarrow> bool" where
  "is_stale_family code = (code = SC_Stale \<or> code = SC_Fenced)"

datatype status = Status (st_code: status_code) (st_detail: string)

definition status_success :: status where
  "status_success = Status SC_Ok []"

definition status_ok :: "status \<Rightarrow> bool" where
  "status_ok s = (st_code s = SC_Ok)"

definition status_string :: "status \<Rightarrow> string" where
  "status_string s =
     status_code_string (st_code s) @ (if st_detail s \<noteq> [] then '': '' @ st_detail s else [])"

type_synonym 'a outcome = "status + 'a"

fun outcome_ok :: "'a outcome \<Rightarrow> bool" where
  "outcome_ok (Inl _) = False"
| "outcome_ok (Inr _) = True"

fun outcome_status :: "'a outcome \<Rightarrow> status" where
  "outcome_status (Inl s) = s"
| "outcome_status (Inr _) = status_success"

definition outcome_code :: "'a outcome \<Rightarrow> status_code" where
  "outcome_code r = st_code (outcome_status r)"

fun outcome_value_or :: "'a outcome \<Rightarrow> 'a \<Rightarrow> 'a" where
  "outcome_value_or (Inr v) _ = v"
| "outcome_value_or (Inl _) fallback = fallback"

lemma status_ok_simps [simp, status_simps]:
  "status_ok status_success" "status_ok (Status c d) = (c = SC_Ok)"
  "st_code status_success = SC_Ok"
  by (simp_all add: status_ok_def status_success_def)

lemma outcome_ok_iff: "outcome_ok r \<longleftrightarrow> (\<exists>v. r = Inr v)"
  by (cases r) auto

lemma outcome_code_simps [simp, status_simps]:
  "outcome_code (Inl s) = st_code s" "outcome_code (Inr v) = SC_Ok"
  by (simp_all add: outcome_code_def)

lemma all_status_codes_complete: "c \<in> set all_status_codes"
  by (cases c) (simp_all add: all_status_codes_def)

lemma status_strings_distinct: "distinct (map status_code_string all_status_codes)"
  by (simp add: all_status_codes_def)

lemma status_code_string_inj: "status_code_string c = status_code_string d \<Longrightarrow> c = d"
  using status_strings_distinct all_status_codes_complete [of c] all_status_codes_complete [of d]
  by (auto simp only: distinct_map dest: inj_onD)

end
