(* ===== verification/SLF_Checked.thy ===== *)
theory SLF_Checked
  imports SLF_Prelude
begin

text \<open>
  Checked arithmetic (\<open>include/slf/checked.hpp\<close>). A helper that writes its result through
  an out-parameter and returns \<open>false\<close> on overflow becomes an option-valued function:
  \<open>None\<close> is the \<open>false\<close> return, on which the out-parameter is left alone.
\<close>

definition u64_max :: u64 where
  "u64_max = 18446744073709551615"

definition checked_add :: "u64 \<Rightarrow> u64 \<Rightarrow> u64 option" where
  "checked_add a b = (if a > u64_max - b then None else Some (a + b))"

definition checked_sub :: "u64 \<Rightarrow> u64 \<Rightarrow> u64 option" where
  "checked_sub a b = (if b > a then None else Some (a - b))"

definition checked_mul :: "u64 \<Rightarrow> u64 \<Rightarrow> u64 option" where
  "checked_mul a b =
     (if a = 0 \<or> b = 0 then Some 0
      else if a > u64_max div b then None
      else Some (a * b))"

definition checked_div :: "u64 \<Rightarrow> u64 \<Rightarrow> u64 option" where
  "checked_div a b = (if b = 0 then None else Some (a div b))"

definition checked_widen :: "64 word \<Rightarrow> u64 option" where
  "checked_widen value = (if sint value < 0 then None else Some value)"

definition checked_narrow_u32 :: "u64 \<Rightarrow> u32 option" where
  "checked_narrow_u32 value = (if value > 4294967295 then None else Some (ucast value))"

definition checked_narrow_u16 :: "u64 \<Rightarrow> u16 option" where
  "checked_narrow_u16 value = (if value > 65535 then None else Some (ucast value))"

definition checked_narrow_u8 :: "u64 \<Rightarrow> u8 option" where
  "checked_narrow_u8 value = (if value > 255 then None else Some (ucast value))"

fun checked_sum_loop :: "u64 \<Rightarrow> u64 list \<Rightarrow> u64 option" where
  "checked_sum_loop acc [] = Some acc"
| "checked_sum_loop acc (term # rest) =
     (case checked_add acc term of
        None \<Rightarrow> None
      | Some acc' \<Rightarrow> checked_sum_loop acc' rest)"

definition checked_sum :: "u64 list \<Rightarrow> u64 option" where
  "checked_sum xs = checked_sum_loop 0 xs"

function gcd_u64 :: "u64 \<Rightarrow> u64 \<Rightarrow> u64" where
  "gcd_u64 a b = (if b \<noteq> 0 then gcd_u64 b (a mod b) else a)"
  by pat_completeness auto
termination
proof (relation "measure (\<lambda>(a, b). unat b)")
  fix a b :: u64
  assume "b \<noteq> 0"
  then have "unat a mod unat b < unat b"
    by (simp add: unat_gt_0)
  then show "((b, a mod b), a, b) \<in> measure (\<lambda>(a, b). unat b)"
    by (simp add: unat_mod)
qed simp

declare gcd_u64.simps [simp del]

definition saturating_mul :: "u64 \<Rightarrow> u64 \<Rightarrow> u64" where
  "saturating_mul a b = (case checked_mul a b of None \<Rightarrow> u64_max | Some out \<Rightarrow> out)"

definition saturating_add :: "u64 \<Rightarrow> u64 \<Rightarrow> u64" where
  "saturating_add a b = (case checked_add a b of None \<Rightarrow> u64_max | Some out \<Rightarrow> out)"

section \<open>The helpers compute exactly, or report overflow\<close>

lemma unat_u64_max [simp]: "unat u64_max = 2 ^ 64 - 1"
  by (simp add: u64_max_def)

lemma u64_bound: "unat (a :: u64) < 2 ^ 64"
  using unsigned_less [of a, where ?'a = nat] by simp

lemma u64_le_max: "(b :: u64) \<le> u64_max"
  using u64_bound [of b] by (simp add: word_le_nat_alt)

lemma checked_add_guard: "a > u64_max - b \<longleftrightarrow> 2 ^ 64 \<le> unat a + unat b"
proof -
  have "unat (u64_max - b) = 2 ^ 64 - 1 - unat b"
    using u64_le_max [of b] by (simp add: unat_sub)
  then show ?thesis
    using u64_bound [of b] by (simp add: word_less_nat_alt) arith
qed

lemma checked_add_exact:
  "checked_add a b = (if unat a + unat b < 2 ^ 64 then Some (a + b) else None)"
  unfolding checked_add_def checked_add_guard by auto

lemma unat_checked_add: "checked_add a b = Some c \<Longrightarrow> unat c = unat a + unat b"
  by (auto simp: checked_add_exact unat_word_ariths split: if_splits)

lemma checked_sub_exact:
  "checked_sub a b = (if unat b \<le> unat a then Some (a - b) else None)"
  by (auto simp: checked_sub_def word_le_nat_alt word_less_nat_alt)

lemma unat_checked_sub: "checked_sub a b = Some c \<Longrightarrow> unat c = unat a - unat b"
  by (auto simp: checked_sub_def unat_sub split: if_splits)

lemma checked_mul_guard:
  assumes "b \<noteq> 0"
  shows "a > u64_max div b \<longleftrightarrow> 2 ^ 64 \<le> unat a * unat b"
proof -
  have pos: "0 < unat b" using assms by (simp add: unat_gt_0)
  have "a > u64_max div b \<longleftrightarrow> (2 ^ 64 - 1) div unat b < unat a"
    by (simp add: word_less_nat_alt unat_div)
  also have "\<dots> \<longleftrightarrow> 2 ^ 64 - 1 < unat a * unat b"
    using pos by (rule div_less_iff_less_mult)
  also have "\<dots> \<longleftrightarrow> 2 ^ 64 \<le> unat a * unat b" by (simp add: Suc_le_eq [symmetric] del: Suc_le_eq)
  finally show ?thesis .
qed

lemma checked_mul_exact:
  "checked_mul a b = (if unat a * unat b < 2 ^ 64 then Some (a * b) else None)"
proof (cases "a = 0 \<or> b = 0")
  case True
  then show ?thesis by (auto simp: checked_mul_def)
next
  case False
  then show ?thesis by (auto simp: checked_mul_def checked_mul_guard)
qed

lemma unat_checked_mul: "checked_mul a b = Some c \<Longrightarrow> unat c = unat a * unat b"
  by (auto simp: checked_mul_exact unat_word_ariths split: if_splits)

lemma checked_sum_loop_exact:
  "checked_sum_loop acc xs =
     (if unat acc + sum_list (map unat xs) < 2 ^ 64 then Some (acc + sum_list xs) else None)"
proof (induction acc xs rule: checked_sum_loop.induct)
  case (1 acc)
  then show ?case using u64_bound [of acc] by simp
next
  case (2 acc t rest)
  show ?case
  proof (cases "checked_add acc t")
    case None
    then show ?thesis by (auto simp: checked_add_exact split: if_splits)
  next
    case (Some s)
    with 2 [OF Some] show ?thesis
      by (auto simp: unat_checked_add [OF Some] checked_add_exact add.assoc split: if_splits)
  qed
qed

text \<open>Euclid's loop computes the greatest common divisor.\<close>

lemma unat_gcd_u64: "unat (gcd_u64 a b) = gcd (unat a) (unat b)"
proof (induction a b rule: gcd_u64.induct)
  case (1 a b)
  show ?case
  proof (cases "b = 0")
    case True
    then show ?thesis by (simp add: gcd_u64.simps [of a 0])
  next
    case False
    with "1.IH" have "unat (gcd_u64 b (a mod b)) = gcd (unat b) (unat a mod unat b)"
      by (simp add: unat_mod)
    with False show ?thesis
      by (simp add: gcd_u64.simps [of a b] gcd_red_nat [of "unat a" "unat b"])
  qed
qed

lemma saturating_add_exact: "unat (saturating_add a b) = min (2 ^ 64 - 1) (unat a + unat b)"
  by (auto simp: saturating_add_def checked_add_exact unat_word_ariths split: option.splits)

lemma checked_narrow_u32_exact:
  "checked_narrow_u32 v = (if unat v < 2 ^ 32 then Some (of_nat (unat v)) else None)"
  by (auto simp: checked_narrow_u32_def word_less_nat_alt)

section \<open>Properties\<close>

text \<open>
  C32. The checked helpers never wrap: each returns the exact integer result when it fits in 64 bits
  and fails otherwise, also when a whole range is summed.
\<close>

theorem checked_arithmetic_exact:
  "checked_add a b = (if unat a + unat b < 2 ^ 64 then Some (a + b) else None)
     \<and> checked_sub a b = (if unat b \<le> unat a then Some (a - b) else None)
     \<and> checked_mul a b = (if unat a * unat b < 2 ^ 64 then Some (a * b) else None)
     \<and> checked_sum xs = (if sum_list (map unat xs) < 2 ^ 64 then Some (sum_list xs) else None)"
  using checked_sum_loop_exact [of 0 xs]
  by (simp add: checked_add_exact checked_sub_exact checked_mul_exact checked_sum_def)

end
