(* ===== verification/SLF_Identity.thy ===== *)
theory SLF_Identity
  imports SLF_Status SLF_Checked
begin

text \<open>
  Identities (\<open>include/slf/identity.hpp\<close>, \<open>src/identity.cpp\<close>). A \<open>StrongId<Tag, Rep>\<close>
  only adds compile-time typing to its representation, so each identity is a type synonym
  of the word type it stores. Tiers, node keys and controller incarnations keep their
  orders as \<open>linorder\<close> instances; the theory also holds the text renderings and strict
  parsers and the UTF-8 check.
\<close>

type_synonym fabric_id = u64
type_synonym leaf_id = u32
type_synonym spine_id = u32
type_synonym port_id = u32
type_synonym link_id = u32
type_synonym failure_domain_id = u32
type_synonym topology_generation = u64
type_synonym epoch = u64
type_synonym role_incarnation = u64
type_synonym lease_id = u64
type_synonym request_id = u64
type_synonym sequence_number = u64

datatype tier = Leaf | Spine

datatype node_key = NodeKey (nk_tier: tier) (nk_index: u32)

datatype controller_incarnation = Incarnation (inc_hi: u64) (inc_lo: u64)

abbreviation leaf_key :: "leaf_id \<Rightarrow> node_key" where
  "leaf_key i \<equiv> NodeKey Leaf i"

abbreviation spine_key :: "spine_id \<Rightarrow> node_key" where
  "spine_key i \<equiv> NodeKey Spine i"

definition incarnation_is_zero :: "controller_incarnation \<Rightarrow> bool" where
  "incarnation_is_zero i = (inc_hi i = 0 \<and> inc_lo i = 0)"

instantiation tier :: linorder
begin

definition less_eq_tier :: "tier \<Rightarrow> tier \<Rightarrow> bool" where
  "less_eq_tier a b = (a = Leaf \<or> b = Spine)"

definition less_tier :: "tier \<Rightarrow> tier \<Rightarrow> bool" where
  "less_tier a b = (a = Leaf \<and> b = Spine)"

instance
proof
  fix x y z :: tier
  show "x < y \<longleftrightarrow> x \<le> y \<and> \<not> y \<le> x" by (cases x; cases y) (simp_all add: less_eq_tier_def less_tier_def)
  show "x \<le> x" by (cases x) (simp_all add: less_eq_tier_def)
  show "x \<le> y \<Longrightarrow> y \<le> z \<Longrightarrow> x \<le> z" by (cases x; cases y; cases z) (simp_all add: less_eq_tier_def)
  show "x \<le> y \<Longrightarrow> y \<le> x \<Longrightarrow> x = y" by (cases x; cases y) (simp_all add: less_eq_tier_def)
  show "x \<le> y \<or> y \<le> x" by (cases x; cases y) (simp_all add: less_eq_tier_def)
qed

end

instantiation node_key :: linorder
begin

definition less_node_key :: "node_key \<Rightarrow> node_key \<Rightarrow> bool" where
  "less_node_key a b =
     (if nk_tier a \<noteq> nk_tier b then nk_tier a < nk_tier b else nk_index a < nk_index b)"

definition less_eq_node_key :: "node_key \<Rightarrow> node_key \<Rightarrow> bool" where
  "less_eq_node_key a b = (\<not> b < a)"

instance
  by standard (auto simp: less_eq_node_key_def less_node_key_def node_key.expand split: if_splits)

end

instantiation controller_incarnation :: linorder
begin

definition less_controller_incarnation :: "controller_incarnation \<Rightarrow> controller_incarnation \<Rightarrow> bool" where
  "less_controller_incarnation a b =
     (if inc_hi a \<noteq> inc_hi b then inc_hi a < inc_hi b else inc_lo a < inc_lo b)"

definition less_eq_controller_incarnation :: "controller_incarnation \<Rightarrow> controller_incarnation \<Rightarrow> bool" where
  "less_eq_controller_incarnation a b = (\<not> b < a)"

instance
  by standard
    (auto simp: less_eq_controller_incarnation_def less_controller_incarnation_def
      controller_incarnation.expand split: if_splits)

end

section \<open>Hexadecimal renderings\<close>

abbreviation char_code :: "char \<Rightarrow> nat" where
  "char_code c \<equiv> of_char c"

definition kHexDigits :: string where
  "kHexDigits = ''0123456789abcdef''"

definition hex_value :: "char \<Rightarrow> int" where
  "hex_value c =
     (if 48 \<le> char_code c \<and> char_code c \<le> 57 then int (char_code c) - 48
      else if 97 \<le> char_code c \<and> char_code c \<le> 102 then int (char_code c) - 97 + 10
      else if 65 \<le> char_code c \<and> char_code c \<le> 70 then int (char_code c) - 65 + 10
      else -1)"

definition hex_u64 :: "u64 \<Rightarrow> string" where
  "hex_u64 value = map (\<lambda>i. kHexDigits ! unat (drop_bit (4 * i) value AND 15)) (rev [0..<16])"

fun tier_string :: "tier \<Rightarrow> string" where
  "tier_string Leaf = ''leaf''"
| "tier_string Spine = ''spine''"

definition parse_tier :: "string \<Rightarrow> tier option" where
  "parse_tier text =
     (if text = ''leaf'' then Some Leaf
      else if text = ''spine'' then Some Spine
      else None)"

definition incarnation_string :: "controller_incarnation \<Rightarrow> string" where
  "incarnation_string i = hex_u64 (inc_hi i) @ hex_u64 (inc_lo i)"

fun hex_accumulate :: "u64 \<Rightarrow> string \<Rightarrow> u64 option" where
  "hex_accumulate acc [] = Some acc"
| "hex_accumulate acc (c # cs) =
     (let v = hex_value c in
      if v < 0 then None else hex_accumulate (push_bit 4 acc OR of_int v) cs)"

definition parse_incarnation :: "string \<Rightarrow> controller_incarnation option" where
  "parse_incarnation text0 =
     (let text = (if length text0 \<ge> 2 \<and> text0 ! 0 = CHR ''0''
                     \<and> (text0 ! 1 = CHR ''x'' \<or> text0 ! 1 = CHR ''X'')
                  then drop 2 text0 else text0)
      in if length text \<noteq> 32 then None
         else case hex_accumulate 0 (take 16 text) of
                None \<Rightarrow> None
              | Some hi \<Rightarrow>
                  (case hex_accumulate 0 (drop 16 text) of
                     None \<Rightarrow> None
                   | Some lo \<Rightarrow> Some (Incarnation hi lo)))"

text \<open>
  \<open>mint_incarnation\<close> reads the process-local counter \<open>seq\<close>, the process id, the wall clock
  and the monotonic clock; these four readings are the arguments.
\<close>

definition mint_hi :: "u64 \<Rightarrow> u64 \<Rightarrow> u64" where
  "mint_hi pid now =
     (let hi = pid * 0x9E3779B97F4A7C15
      in hi XOR (now + 0x165667B19E3779F9 + push_bit 6 hi + drop_bit 2 hi))"

definition mint_lo :: "u64 \<Rightarrow> u64 \<Rightarrow> u64" where
  "mint_lo mono_ms seq =
     (let lo = mono_ms * 0xC2B2AE3D27D4EB4F
      in lo XOR (seq * 0x27D4EB2F165667C5 + push_bit 7 lo + drop_bit 3 lo))"

definition mint_incarnation :: "u64 \<Rightarrow> u64 \<Rightarrow> u64 \<Rightarrow> u64 \<Rightarrow> controller_incarnation" where
  "mint_incarnation pid now mono_ms seq =
     (let hi = mint_hi pid now; lo = mint_lo mono_ms seq
      in Incarnation hi (if hi = 0 \<and> lo = 0 then 1 else lo))"

section \<open>Decimal renderings and strict parsers\<close>

definition fabric_id_string :: "fabric_id \<Rightarrow> string" where
  "fabric_id_string i = ''fabric:'' @ u_string i"

definition leaf_id_string :: "leaf_id \<Rightarrow> string" where
  "leaf_id_string i = ''leaf:'' @ u_string i"

definition spine_id_string :: "spine_id \<Rightarrow> string" where
  "spine_id_string i = ''spine:'' @ u_string i"

definition port_id_string :: "port_id \<Rightarrow> string" where
  "port_id_string i = ''port:'' @ u_string i"

definition link_id_string :: "link_id \<Rightarrow> string" where
  "link_id_string i = ''link:'' @ u_string i"

definition domain_id_string :: "failure_domain_id \<Rightarrow> string" where
  "domain_id_string i = ''domain:'' @ u_string i"

definition node_key_string :: "node_key \<Rightarrow> string" where
  "node_key_string k =
     (if nk_tier k = Leaf then leaf_id_string (nk_index k) else spine_id_string (nk_index k))"

fun parse_u64_loop :: "u64 \<Rightarrow> string \<Rightarrow> u64 option" where
  "parse_u64_loop value [] = Some value"
| "parse_u64_loop value (c # cs) =
     (if char_code c < 48 \<or> char_code c > 57 then None
      else let digit = of_nat (char_code c - 48) in
           if value > (u64_max - digit) div 10 then None
           else parse_u64_loop (value * 10 + digit) cs)"

definition parse_u64 :: "string \<Rightarrow> u64 option" where
  "parse_u64 text =
     (if text = [] \<or> length text > 20 then None else parse_u64_loop 0 text)"

definition parse_u32 :: "string \<Rightarrow> u32 option" where
  "parse_u32 text =
     (case parse_u64 text of
        None \<Rightarrow> None
      | Some value \<Rightarrow> if value > 4294967295 then None else Some (ucast value))"

definition parse_node_key :: "string \<Rightarrow> node_key option" where
  "parse_node_key text =
     (if CHR '':'' \<notin> set text then None
      else let tier_text = takeWhile (\<lambda>c. c \<noteq> CHR '':'') text;
               index_text = drop (length tier_text + 1) text
           in case parse_tier tier_text of
                None \<Rightarrow> None
              | Some t \<Rightarrow>
                  (case parse_u32 index_text of
                     None \<Rightarrow> None
                   | Some i \<Rightarrow> Some (NodeKey t i)))"

definition parse_leaf_id :: "string \<Rightarrow> leaf_id option" where
  "parse_leaf_id text =
     (case parse_node_key text of
        None \<Rightarrow> None
      | Some key \<Rightarrow> if nk_tier key \<noteq> Leaf then None else Some (nk_index key))"

definition parse_spine_id :: "string \<Rightarrow> spine_id option" where
  "parse_spine_id text =
     (case parse_node_key text of
        None \<Rightarrow> None
      | Some key \<Rightarrow> if nk_tier key \<noteq> Spine then None else Some (nk_index key))"

section \<open>UTF-8\<close>

text \<open>
  The scan of \<open>is_valid_utf8\<close>: \<open>bs\<close> is the unread suffix of the text. \<open>utf8_lead\<close>
  classifies a lead byte at or above \<open>0x80\<close> into the number of continuation bytes and the
  initial code-point bits; \<open>utf8_cont\<close> is the continuation loop.
\<close>

definition utf8_lead :: "u8 \<Rightarrow> (nat \<times> u32) option" where
  "utf8_lead byte =
     (if byte AND 0xE0 = 0xC0 then Some (1, ucast (byte AND 0x1F))
      else if byte AND 0xF0 = 0xE0 then Some (2, ucast (byte AND 0x0F))
      else if byte AND 0xF8 = 0xF0 then Some (3, ucast (byte AND 0x07))
      else None)"

fun utf8_cont :: "u32 \<Rightarrow> bytes \<Rightarrow> u32 option" where
  "utf8_cont code_point [] = Some code_point"
| "utf8_cont code_point (cont # rest) =
     (if cont AND 0xC0 \<noteq> 0x80 then None
      else utf8_cont (push_bit 6 code_point OR ucast (cont AND 0x3F)) rest)"

definition utf8_code_point_ok :: "nat \<Rightarrow> u32 \<Rightarrow> bool" where
  "utf8_code_point_ok extra code_point =
     (\<not> (extra = 1 \<and> code_point < 0x80) \<and> \<not> (extra = 2 \<and> code_point < 0x800)
      \<and> \<not> (extra = 3 \<and> code_point < 0x10000) \<and> \<not> code_point > 0x10FFFF
      \<and> \<not> (0xD800 \<le> code_point \<and> code_point \<le> 0xDFFF))"

function utf8_scan :: "bytes \<Rightarrow> bool" where
  "utf8_scan [] = True"
| "utf8_scan (byte # rest) =
     (if byte < 0x80 then utf8_scan rest
      else case utf8_lead byte of
             None \<Rightarrow> False
           | Some (extra, lead) \<Rightarrow>
               if length rest < extra then False
               else case utf8_cont lead (take extra rest) of
                      None \<Rightarrow> False
                    | Some code_point \<Rightarrow>
                        if utf8_code_point_ok extra code_point then utf8_scan (drop extra rest)
                        else False)"
  by pat_completeness auto
termination
  by (relation "measure length") auto

definition text_bytes :: "string \<Rightarrow> bytes" where
  "text_bytes text = map (\<lambda>c. of_nat (char_code c)) text"

definition bytes_text :: "bytes \<Rightarrow> string" where
  "bytes_text bs = map (\<lambda>b. char_of (unat b)) bs"

definition is_valid_utf8 :: "string \<Rightarrow> bool" where
  "is_valid_utf8 text = utf8_scan (text_bytes text)"

lemma length_text_bytes [simp]: "length (text_bytes s) = length s"
  by (simp add: text_bytes_def)

lemma bytes_text_of_text_bytes [simp]: "bytes_text (text_bytes s) = s"
proof -
  have "unat (of_nat (char_code c) :: u8) = char_code c" for c
    by (simp add: unat_of_nat of_char_mod_256)
  then show ?thesis by (simp add: bytes_text_def text_bytes_def map_idI)
qed

section \<open>Round trips and exactness of the parsers\<close>

text \<open>A statement about the sixteen digit values holds when it evaluates to true on the list of them.\<close>

lemma all_nibbles: "list_all P [0..<16] \<Longrightarrow> n < 16 \<Longrightarrow> P n"
  by (simp add: list_all_iff)

lemma hex_value_digit: "n < 16 \<Longrightarrow> hex_value (kHexDigits ! n) = int n"
  by (rule all_nibbles [where P = "\<lambda>n. hex_value (kHexDigits ! n) = int n"], code_simp)

lemma hex_digit_not_x: "n < 16 \<Longrightarrow> kHexDigits ! n \<noteq> CHR ''x'' \<and> kHexDigits ! n \<noteq> CHR ''X''"
  by (rule all_nibbles [where P = "\<lambda>n. kHexDigits ! n \<noteq> CHR ''x'' \<and> kHexDigits ! n \<noteq> CHR ''X''"], code_simp)

lemma nibble_bound: "unat (w AND 15 :: u64) < 16"
proof -
  have "w AND 15 \<le> (15::u64)" by (rule word_and_le1)
  then show ?thesis by (simp add: word_le_nat_alt)
qed

lemma nibble_step: "push_bit 4 (drop_bit (4 * Suc n) w) OR (drop_bit (4 * n) w AND 15) = drop_bit (4 * n) (w :: u64)"
proof (rule bit_word_eqI)
  fix i
  have "bit (15 :: u64) i \<longleftrightarrow> i < 4"
    using bit_mask_iff [where ?'a = "64 word", of 4 i] by (auto simp: mask_eq_exp_minus_1)
  then show "bit (push_bit 4 (drop_bit (4 * Suc n) w) OR (drop_bit (4 * n) w AND 15)) i
      = bit (drop_bit (4 * n) w) i" if "i < LENGTH(64)"
    using that by (cases "i < 4") (auto simp: bit_simps add.commute)
qed

lemma hex_accumulate_digits:
  "hex_accumulate (drop_bit (4 * n) w) (map (\<lambda>i. kHexDigits ! unat (drop_bit (4 * i) w AND 15)) (rev [0..<n]))
     = Some w"
proof (induction n)
  case (Suc n)
  have "(of_int (int (unat (drop_bit (4 * n) w AND 15))) :: u64) = drop_bit (4 * n) w AND 15"
    by simp
  with Suc nibble_step [of n w] nibble_bound [of "drop_bit (4 * n) w"] show ?case
    by (simp add: hex_value_digit Let_def)
qed simp

lemma hex_accumulate_hex_u64: "hex_accumulate 0 (hex_u64 w) = Some w"
proof -
  have "drop_bit 64 w = (0 :: u64)" by (rule bit_word_eqI) (simp add: bit_simps)
  with hex_accumulate_digits [of 16 w] show ?thesis by (simp add: hex_u64_def)
qed

lemma length_hex_u64 [simp]: "length (hex_u64 w) = 16"
  by (simp add: hex_u64_def)

lemma hex_u64_nth_not_x: "i < 16 \<Longrightarrow> hex_u64 w ! i \<noteq> CHR ''x'' \<and> hex_u64 w ! i \<noteq> CHR ''X''"
  by (simp add: hex_u64_def hex_digit_not_x nibble_bound)

lemma parse_incarnation_string: "parse_incarnation (incarnation_string i) = Some i"
proof -
  have "incarnation_string i ! 1 \<noteq> CHR ''x'' \<and> incarnation_string i ! 1 \<noteq> CHR ''X''"
    using hex_u64_nth_not_x [of 1 "inc_hi i"] by (simp add: incarnation_string_def nth_append)
  then show ?thesis
    by (simp add: parse_incarnation_def incarnation_string_def hex_accumulate_hex_u64)
qed

text \<open>The decimal v of a cs0, and when \<open>parse_u64\<close> accepts it.\<close>

definition is_digit :: "char \<Rightarrow> bool" where
  "is_digit c = (48 \<le> char_code c \<and> char_code c \<le> 57)"

definition dec_value :: "nat \<Rightarrow> string \<Rightarrow> nat" where
  "dec_value acc cs0 = foldl (\<lambda>n c. 10 * n + (char_code c - 48)) acc cs0"

lemma dec_value_ge: "acc \<le> dec_value acc cs0"
proof (induction cs0 arbitrary: acc)
  case (Cons c cs)
  have "acc \<le> 10 * acc + (char_code c - 48)" by simp
  also have "\<dots> \<le> dec_value (10 * acc + (char_code c - 48)) cs" by (rule Cons)
  finally show ?case by (simp add: dec_value_def)
qed (simp add: dec_value_def)

lemma parse_digit_guard:
  assumes "d < 10"
  shows "v > (u64_max - of_nat d) div 10 \<longleftrightarrow> 2 ^ 64 \<le> unat v * 10 + d"
proof -
  have d: "unat (of_nat d :: u64) = d" using assms by (simp add: unat_of_nat)
  have "unat (u64_max - of_nat d) = 2 ^ 64 - 1 - d"
    using u64_le_max [of "of_nat d"] by (simp add: unat_sub d)
  then have "v > (u64_max - of_nat d) div 10 \<longleftrightarrow> (2 ^ 64 - 1 - d) div 10 < unat v"
    by (simp add: word_less_nat_alt unat_div)
  then show ?thesis using assms by (simp add: div_less_iff_less_mult) arith
qed

lemma parse_u64_loop_exact:
  "parse_u64_loop v cs0 =
     (if (\<forall>c\<in>set cs0. is_digit c) \<and> dec_value (unat v) cs0 < 2 ^ 64
      then Some (of_nat (dec_value (unat v) cs0)) else None)"
proof (induction v cs0 rule: parse_u64_loop.induct)
  case (1 v)
  then show ?case using u64_bound [of v] by (simp add: dec_value_def)
next
  case (2 v c cs)
  show ?case
  proof (cases "is_digit c")
    case False
    then show ?thesis by (auto simp: is_digit_def)
  next
    case True
    then obtain d where d: "char_code c = d + 48" "d < 10"
      using that [of "char_code c - 48"] unfolding is_digit_def by linarith
    have step: "dec_value n (c # cs) = dec_value (10 * n + d) cs" for n
      by (simp add: dec_value_def d)
    show ?thesis
    proof (cases "2 ^ 64 \<le> unat v * 10 + d")
      case big: True
      with dec_value_ge [of "10 * unat v + d" cs]
      have "\<not> dec_value (unat v) (c # cs) < 2 ^ 64" by (simp add: step)
      with big d show ?thesis by (simp add: parse_digit_guard)
    next
      case small: False
      then have "unat (v * 10 + of_nat d) = 10 * unat v + d"
        using d by (simp add: unat_word_ariths unat_of_nat)
      with "2.IH" small d True show ?thesis
        by (simp add: parse_digit_guard step)
    qed
  qed
qed

lemma dec_string_digits: "c \<in> set (dec_string n) \<Longrightarrow> is_digit c"
proof (induction n rule: dec_string.induct)
  case (1 n)
  then show ?case
    by (subst (asm) dec_string.simps) (auto simp: is_digit_def digit_char_def split: if_splits)
qed

lemma dec_value_append: "dec_value acc (xs @ ys) = dec_value (dec_value acc xs) ys"
  by (simp add: dec_value_def)

lemma dec_value_dec_string: "dec_value 0 (dec_string n) = n"
proof (induction n rule: dec_string.induct)
  case (1 n)
  then show ?case
    by (subst dec_string.simps) (auto simp: dec_value_append, auto simp: dec_value_def digit_char_def)
qed

lemma length_dec_string: "0 < k \<Longrightarrow> n < 10 ^ k \<Longrightarrow> length (dec_string n) \<le> k"
proof (induction n arbitrary: k rule: dec_string.induct)
  case (1 n)
  show ?case
  proof (cases "n < 10")
    case True
    with 1 show ?thesis by (subst dec_string.simps) simp
  next
    case False
    with 1 obtain j where j: "k = Suc j" "0 < j" by (cases k) (auto, cases "k - 1", auto)
    with False 1 have "length (dec_string (n div 10)) \<le> j"
      by (simp add: less_mult_imp_div_less mult.commute)
    with False j show ?thesis by (subst dec_string.simps) simp
  qed
qed

lemma parse_u64_u_string: "parse_u64 (u_string (w :: u64)) = Some w"
proof -
  have "unat w < 10 ^ 20" using u64_bound [of w] by simp
  then have "length (u_string w) \<le> 20" by (simp add: u_string_def length_dec_string)
  then show ?thesis using u64_bound [of w]
    by (auto simp: parse_u64_def u_string_def parse_u64_loop_exact dec_value_dec_string
        dest: dec_string_digits)
qed

lemma parse_u32_u_string: "parse_u32 (u_string (w :: u32)) = Some w"
proof -
  have b: "unat w < 2 ^ 32" using unsigned_less [of w, where ?'a = nat] by simp
  then have up: "unat (ucast w :: u64) = unat w"
    by (simp add: unsigned_ucast_eq take_bit_nat_eq_self_iff)
  then have "u_string w = u_string (ucast w :: u64)" by (simp add: u_string_def)
  moreover have "\<not> (ucast w :: u64) > 4294967295" using b up by (simp add: word_less_nat_alt)
  moreover have "(ucast (ucast w :: u64) :: u32) = w"
    by (rule bit_word_eqI) (simp add: bit_simps)
  ultimately show ?thesis by (simp add: parse_u32_def parse_u64_u_string)
qed

lemma parse_node_key_string: "parse_node_key (node_key_string k) = Some k"
  by (cases k; cases "nk_tier k")
    (simp_all add: parse_node_key_def node_key_string_def leaf_id_string_def spine_id_string_def
      parse_tier_def parse_u32_u_string)

section \<open>Minting\<close>

lemma mint_not_zero: "\<not> incarnation_is_zero (mint_incarnation pid now mono_ms seq)"
  by (simp add: incarnation_is_zero_def mint_incarnation_def Let_def)

lemma mint_hi_inj_now: "mint_hi pid now = mint_hi pid now' \<longleftrightarrow> now = now'"
proof -
  have cancel: "a XOR (a XOR b) = b" for a b :: u64
    by (simp add: xor.assoc [symmetric])
  have "a XOR b = a XOR c \<longleftrightarrow> b = c" for a b c :: u64
    by (metis cancel)
  then show ?thesis by (simp add: mint_hi_def Let_def)
qed

lemma mint_hi_any_pid: "\<exists>now'. mint_hi pid' now' = mint_hi pid now"
proof -
  let ?h = "pid' * 0x9E3779B97F4A7C15 :: u64"
  have "mint_hi pid' ((mint_hi pid now XOR ?h) - (0x165667B19E3779F9 + push_bit 6 ?h + drop_bit 2 ?h))
      = mint_hi pid now"
    unfolding mint_hi_def [of pid'] Let_def
    by (simp add: add.assoc [symmetric] diff_diff_eq [symmetric] xor.commute xor.left_commute)
  then show ?thesis by blast
qed

section \<open>Properties\<close>

text \<open>
  C33. The textual forms of integers, node keys and controller incarnations are read back by the
  strict parsers as the value they were printed from.
\<close>

theorem identity_text_roundtrip:
  "parse_u64 (u_string v) = Some v \<and> parse_node_key (node_key_string k) = Some k
     \<and> parse_incarnation (incarnation_string i) = Some i"
  by (simp add: parse_u64_u_string parse_node_key_string parse_incarnation_string)

text \<open>
  A minted incarnation is never the zero one, but distinct process ids do not keep two
  incarnations apart: for every process id there is a wall-clock reading at which it mints the
  incarnation another process minted.
\<close>

theorem mint_collides_across_pids:
  "\<not> incarnation_is_zero (mint_incarnation pid now mono_ms seq)
     \<and> (\<exists>now'. mint_incarnation pid' now' mono_ms seq = mint_incarnation pid now mono_ms seq)"
proof -
  obtain now' where "mint_hi pid' now' = mint_hi pid now" using mint_hi_any_pid by blast
  then have "mint_incarnation pid' now' mono_ms seq = mint_incarnation pid now mono_ms seq"
    by (simp add: mint_incarnation_def)
  with mint_not_zero show ?thesis by blast
qed

end
