(* ===== verification/SLF_Bytes.thy ===== *)
theory SLF_Bytes
  imports SLF_Identity
begin

text \<open>
  Bounded little-endian writer and reader (\<open>include/slf/bytes.hpp\<close>, \<open>src/bytes.cpp\<close>).
  A member function of \<open>ByteWriter\<close> or \<open>ByteReader\<close> takes the object as its last argument
  and returns its result with the updated object. Sizes and offsets (\<open>std::size_t\<close>) are
  natural numbers. The locale \<open>codec\<close> states what a writer and the matching reader promise
  each other; every primitive is an interpretation of it.
\<close>

record byte_writer =
  bw_buffer :: bytes
  bw_max_bytes :: nat

definition kDefaultMaxBytes :: nat where
  "kDefaultMaxBytes = 64 * 1024 * 1024"

definition new_writer :: "nat \<Rightarrow> byte_writer" where
  "new_writer max_bytes = \<lparr>bw_buffer = [], bw_max_bytes = max_bytes\<rparr>"

definition bw_require :: "nat \<Rightarrow> byte_writer \<Rightarrow> status" where
  "bw_require additional w =
     (if additional > bw_max_bytes w \<or> length (bw_buffer w) > bw_max_bytes w - additional
      then Status SC_Exhausted ''byte writer bound exceeded''
      else status_success)"

definition le_bytes :: "nat \<Rightarrow> 'a::len word \<Rightarrow> bytes" where
  "le_bytes n value = map (\<lambda>i. ucast (drop_bit (8 * i) value AND 0xFF)) [0..<n]"

definition bw_append :: "bytes \<Rightarrow> byte_writer \<Rightarrow> byte_writer" where
  "bw_append bs w = w\<lparr>bw_buffer := bw_buffer w @ bs\<rparr>"

definition bw_u8 :: "u8 \<Rightarrow> byte_writer \<Rightarrow> status \<times> byte_writer" where
  "bw_u8 value w =
     (let s = bw_require 1 w in
      if \<not> status_ok s then (s, w) else (status_success, bw_append [value] w))"

definition bw_u16 :: "u16 \<Rightarrow> byte_writer \<Rightarrow> status \<times> byte_writer" where
  "bw_u16 value w =
     (let s = bw_require 2 w in
      if \<not> status_ok s then (s, w)
      else (status_success, bw_append [ucast (value AND 0xFF), ucast (drop_bit 8 value AND 0xFF)] w))"

definition bw_u32 :: "u32 \<Rightarrow> byte_writer \<Rightarrow> status \<times> byte_writer" where
  "bw_u32 value w =
     (let s = bw_require 4 w in
      if \<not> status_ok s then (s, w) else (status_success, bw_append (le_bytes 4 value) w))"

definition bw_u64 :: "u64 \<Rightarrow> byte_writer \<Rightarrow> status \<times> byte_writer" where
  "bw_u64 value w =
     (let s = bw_require 8 w in
      if \<not> status_ok s then (s, w) else (status_success, bw_append (le_bytes 8 value) w))"

definition bw_bytes :: "bytes \<Rightarrow> byte_writer \<Rightarrow> status \<times> byte_writer" where
  "bw_bytes data w =
     (let s = bw_require (length data) w in
      if \<not> status_ok s then (s, w) else (status_success, bw_append data w))"

definition bw_block :: "bytes \<Rightarrow> byte_writer \<Rightarrow> status \<times> byte_writer" where
  "bw_block data w =
     (if length data > 4294967295 then (Status SC_Overflow ''block length does not fit in u32'', w)
      else case bw_u32 (of_nat (length data)) w of
             (s, w') \<Rightarrow> if \<not> status_ok s then (s, w') else bw_bytes data w')"

definition bw_string :: "string \<Rightarrow> byte_writer \<Rightarrow> status \<times> byte_writer" where
  "bw_string text w =
     (if length text > 4294967295 then (Status SC_Overflow ''string length does not fit in u32'', w)
      else if \<not> is_valid_utf8 text then (Status SC_Invalid ''string is not valid UTF-8'', w)
      else case bw_u32 (of_nat (length text)) w of
             (s, w') \<Rightarrow> if \<not> status_ok s then (s, w') else bw_bytes (text_bytes text) w')"

record byte_reader =
  br_data :: bytes
  br_offset :: nat
  br_max_string_bytes :: nat

definition kDefaultMaxString :: nat where
  "kDefaultMaxString = 1024 * 1024"

definition new_reader :: "bytes \<Rightarrow> nat \<Rightarrow> byte_reader" where
  "new_reader data max_string_bytes =
     \<lparr>br_data = data, br_offset = 0, br_max_string_bytes = max_string_bytes\<rparr>"

definition br_remaining :: "byte_reader \<Rightarrow> nat" where
  "br_remaining r = length (br_data r) - br_offset r"

definition br_exhausted :: "byte_reader \<Rightarrow> bool" where
  "br_exhausted r = (br_offset r = length (br_data r))"

definition br_advance :: "nat \<Rightarrow> byte_reader \<Rightarrow> byte_reader" where
  "br_advance n r = r\<lparr>br_offset := br_offset r + n\<rparr>"

text \<open>\<open>value |= data[offset + i] << (8 * i)\<close> for \<open>i\<close> from 0 below \<open>n\<close>.\<close>

definition le_load :: "nat \<Rightarrow> bytes \<Rightarrow> nat \<Rightarrow> 'a::len word" where
  "le_load n data offset =
     foldl (\<lambda>value i. value OR push_bit (8 * i) (ucast (data ! (offset + i)))) 0 [0..<n]"

definition br_u8 :: "byte_reader \<Rightarrow> u8 outcome \<times> byte_reader" where
  "br_u8 r =
     (if br_remaining r < 1 then (Inl (Status SC_Truncated ''byte reader exhausted reading u8''), r)
      else (Inr (br_data r ! br_offset r), br_advance 1 r))"

definition br_u16 :: "byte_reader \<Rightarrow> u16 outcome \<times> byte_reader" where
  "br_u16 r =
     (if br_remaining r < 2 then (Inl (Status SC_Truncated ''byte reader exhausted reading u16''), r)
      else (Inr (le_load 2 (br_data r) (br_offset r)), br_advance 2 r))"

definition br_u32 :: "byte_reader \<Rightarrow> u32 outcome \<times> byte_reader" where
  "br_u32 r =
     (if br_remaining r < 4 then (Inl (Status SC_Truncated ''byte reader exhausted reading u32''), r)
      else (Inr (le_load 4 (br_data r) (br_offset r)), br_advance 4 r))"

definition br_u64 :: "byte_reader \<Rightarrow> u64 outcome \<times> byte_reader" where
  "br_u64 r =
     (if br_remaining r < 8 then (Inl (Status SC_Truncated ''byte reader exhausted reading u64''), r)
      else (Inr (le_load 8 (br_data r) (br_offset r)), br_advance 8 r))"

definition br_bytes :: "nat \<Rightarrow> byte_reader \<Rightarrow> bytes outcome \<times> byte_reader" where
  "br_bytes n r =
     (if n > br_remaining r
      then (Inl (Status SC_Truncated ''byte reader exhausted reading byte block''), r)
      else (Inr (take n (drop (br_offset r) (br_data r))), br_advance n r))"

definition br_block :: "nat \<Rightarrow> byte_reader \<Rightarrow> bytes outcome \<times> byte_reader" where
  "br_block max_bytes r =
     (case br_u32 r of
        (Inl s, r') \<Rightarrow> (Inl s, r')
      | (Inr n, r') \<Rightarrow>
          if unat n > max_bytes
          then (Inl (Status SC_Exhausted ''declared block length exceeds the configured bound''), r')
          else br_bytes (unat n) r')"

definition br_string :: "byte_reader \<Rightarrow> string outcome \<times> byte_reader" where
  "br_string r =
     (case br_u32 r of
        (Inl s, r') \<Rightarrow> (Inl s, r')
      | (Inr n, r') \<Rightarrow>
          if unat n > br_max_string_bytes r'
          then (Inl (Status SC_Exhausted ''declared string length exceeds the configured bound''), r')
          else case br_bytes (unat n) r' of
                 (Inl s, r'') \<Rightarrow> (Inl s, r'')
               | (Inr raw, r'') \<Rightarrow>
                   if \<not> is_valid_utf8 (bytes_text raw)
                   then (Inl (Status SC_Invalid ''string is not valid UTF-8''), r'')
                   else (Inr (bytes_text raw), r''))"

definition br_expect_end :: "byte_reader \<Rightarrow> status" where
  "br_expect_end r =
     (if \<not> br_exhausted r then Status SC_Invalid ''trailing bytes after the expected structure''
      else status_success)"

definition append_u16 :: "bytes \<Rightarrow> u16 \<Rightarrow> bytes" where
  "append_u16 out value = out @ [ucast (value AND 0xFF), ucast (drop_bit 8 value AND 0xFF)]"

definition append_u32 :: "bytes \<Rightarrow> u32 \<Rightarrow> bytes" where
  "append_u32 out value = out @ le_bytes 4 value"

definition append_u64 :: "bytes \<Rightarrow> u64 \<Rightarrow> bytes" where
  "append_u64 out value = out @ le_bytes 8 value"

section \<open>Little-endian words\<close>

lemma length_le_bytes [simp, codec_simps]: "length (le_bytes n v) = n"
  by (simp add: le_bytes_def)

lemma le_bytes_2: "[ucast (v AND 0xFF), ucast (drop_bit 8 v AND 0xFF)] = le_bytes 2 (v :: u16)"
  by (simp add: le_bytes_def upt_conv_Cons)

lemma byte_mask: "(255 :: 'a::len word) = mask 8"
  by (simp add: mask_eq_exp_minus_1)

lemma bit_le_load:
  "bit (foldl (\<lambda>v i. v OR push_bit (8 * i) (ucast (f i))) 0 [0..<n] :: 'a::len word) k
     \<longleftrightarrow> k < LENGTH('a) \<and> k < 8 * n \<and> bit (f (k div 8) :: u8) (k mod 8)"
proof (induction n)
  case (Suc n)
  let ?acc = "foldl (\<lambda>v i. v OR push_bit (8 * i) (ucast (f i))) 0 [0..<n] :: 'a word"
  have step: "bit (foldl (\<lambda>v i. v OR push_bit (8 * i) (ucast (f i))) 0 [0..<Suc n] :: 'a word) k
      \<longleftrightarrow> bit ?acc k \<or> (8 * n \<le> k \<and> k < LENGTH('a) \<and> bit (f n) (k - 8 * n))"
    by (auto simp: bit_simps)
  consider "k < 8 * n" | "8 * n \<le> k" "k < 8 * n + 8" | "8 * n + 8 \<le> k" by linarith
  then show ?case
  proof cases
    case 2
    then have n: "n = k div 8" using div_nat_eqI [of 8 n k] by simp
    then have "k - 8 * n = k mod 8" by (simp add: minus_mult_div_eq_mod)
    with n 2 show ?thesis unfolding step Suc by auto
  next
    case 3
    then have "\<not> bit (f n) (k - 8 * n)" using bit_imp_le_length [of "f n" "k - 8 * n"] by auto
    with 3 show ?thesis unfolding step Suc by simp
  qed (unfold step Suc, simp)
qed simp

lemma le_load_le_bytes:
  assumes "length pre = off" and "8 * n = LENGTH('a)"
  shows "le_load n (pre @ le_bytes n v @ rest) off = (v :: 'a::len word)"
proof (rule bit_word_eqI)
  fix k assume k: "k < LENGTH('a)"
  have nth: "(pre @ le_bytes n v @ rest) ! (off + i) = ucast (drop_bit (8 * i) v AND mask 8)" if "i < n" for i
    using that assms by (simp add: nth_append le_bytes_def byte_mask)
  from k assms(2) have "k div 8 < n" by (simp add: less_mult_imp_div_less mult.commute)
  moreover have "k mod 8 < LENGTH('a)" using k by (rule le_less_trans [OF mod_less_eq_dividend])
  ultimately show "bit (le_load n (pre @ le_bytes n v @ rest) off :: 'a word) k = bit v k"
    unfolding le_load_def bit_le_load using k assms(2)
    by (simp add: nth bit_simps mult_div_mod_eq)
qed

section \<open>Writers append exactly their encoding, or refuse\<close>

definition bw_fits :: "nat \<Rightarrow> byte_writer \<Rightarrow> bool" where
  "bw_fits n w = (length (bw_buffer w) + n \<le> bw_max_bytes w)"

lemma bw_require_ok: "status_ok (bw_require n w) \<longleftrightarrow> bw_fits n w"
  by (auto simp: bw_require_def bw_fits_def)

lemma bw_require_cases:
  "bw_require n w = (if bw_fits n w then status_success else Status SC_Exhausted ''byte writer bound exceeded'')"
  by (auto simp: bw_require_def bw_fits_def)

lemma bw_append_simps [simp, codec_simps]:
  "bw_buffer (bw_append bs w) = bw_buffer w @ bs" "bw_max_bytes (bw_append bs w) = bw_max_bytes w"
  "bw_append ys (bw_append xs w) = bw_append (xs @ ys) w"
  by (simp_all add: bw_append_def)

text \<open>What a writer operation with encoding \<open>enc\<close> promises.\<close>

locale byte_emitter =
  fixes put :: "'a \<Rightarrow> byte_writer \<Rightarrow> status \<times> byte_writer"
    and enc :: "'a \<Rightarrow> bytes"
    and valid :: "'a \<Rightarrow> bool"
  assumes put_fits: "valid x \<Longrightarrow> bw_fits (length (enc x)) w \<Longrightarrow> put x w = (status_success, bw_append (enc x) w)"
    and put_bound: "length (bw_buffer w) \<le> bw_max_bytes w \<Longrightarrow>
          length (bw_buffer (snd (put x w))) \<le> bw_max_bytes (snd (put x w))"
    and put_max: "bw_max_bytes (snd (put x w)) = bw_max_bytes w"
    and put_prefix: "take (length (bw_buffer w)) (bw_buffer (snd (put x w))) = bw_buffer w"
begin

lemma put_buffer:
  "valid x \<Longrightarrow> bw_fits (length (enc x)) w \<Longrightarrow> bw_buffer (snd (put x w)) = bw_buffer w @ enc x"
  by (simp add: put_fits)

end

interpretation emit_u8: byte_emitter bw_u8 "\<lambda>v. [v]" "\<lambda>_. True"
  by unfold_locales (auto simp: bw_u8_def Let_def bw_require_cases bw_fits_def)

interpretation emit_u16: byte_emitter bw_u16 "le_bytes 2" "\<lambda>_. True"
  by unfold_locales (auto simp: bw_u16_def Let_def bw_require_cases bw_fits_def le_bytes_2)

interpretation emit_u32: byte_emitter bw_u32 "le_bytes 4" "\<lambda>_. True"
  by unfold_locales (auto simp: bw_u32_def Let_def bw_require_cases bw_fits_def)

interpretation emit_u64: byte_emitter bw_u64 "le_bytes 8" "\<lambda>_. True"
  by unfold_locales (auto simp: bw_u64_def Let_def bw_require_cases bw_fits_def)

interpretation emit_bytes: byte_emitter bw_bytes "\<lambda>v. v" "\<lambda>_. True"
  by unfold_locales (auto simp: bw_bytes_def Let_def bw_require_cases bw_fits_def)

definition block_enc :: "bytes \<Rightarrow> bytes" where
  "block_enc data = le_bytes 4 (of_nat (length data) :: u32) @ data"

definition string_enc :: "string \<Rightarrow> bytes" where
  "string_enc t = block_enc (text_bytes t)"

interpretation emit_block: byte_emitter bw_block block_enc "\<lambda>d. length d < 2 ^ 32"
  by unfold_locales
    (auto simp: bw_block_def bw_u32_def bw_bytes_def Let_def bw_require_cases bw_fits_def block_enc_def)

interpretation emit_string: byte_emitter bw_string string_enc "\<lambda>t. length t < 2 ^ 32 \<and> is_valid_utf8 t"
  by unfold_locales
    (auto simp: bw_string_def bw_u32_def bw_bytes_def Let_def bw_require_cases bw_fits_def
      string_enc_def block_enc_def)

section \<open>Readers invert writers\<close>

definition br_wf :: "byte_reader \<Rightarrow> bool" where
  "br_wf r = (br_offset r \<le> length (br_data r))"

text \<open>\<open>br_at r bs\<close>: the unread bytes of \<open>r\<close> are \<open>bs\<close>.\<close>

definition br_at :: "byte_reader \<Rightarrow> bytes \<Rightarrow> bool" where
  "br_at r bs = (\<exists>pre. br_data r = pre @ bs \<and> br_offset r = length pre)"

lemma br_at_new [simp]: "br_at (new_reader bs m) bs"
  by (simp add: br_at_def new_reader_def)

lemma br_at_advance: "br_at r (xs @ ys) \<Longrightarrow> length xs = n \<Longrightarrow> br_at (br_advance n r) ys"
  unfolding br_at_def br_advance_def by (auto intro: exI [of _ "_ @ xs"])

lemma br_at_remaining: "br_at r bs \<Longrightarrow> br_remaining r = length bs"
  by (auto simp: br_at_def br_remaining_def)

lemma br_at_exhausted: "br_at r bs \<Longrightarrow> br_exhausted r \<longleftrightarrow> bs = []"
  by (auto simp: br_at_def br_exhausted_def)

lemma br_advance_simps [simp, codec_simps]:
  "br_data (br_advance n r) = br_data r"
  "br_offset (br_advance n r) = br_offset r + n"
  "br_max_string_bytes (br_advance n r) = br_max_string_bytes r"
  "br_advance n (br_advance m r) = br_advance (m + n) r"
  by (simp_all add: br_advance_def)

locale codec =
  fixes enc :: "'a \<Rightarrow> bytes"
    and dec :: "byte_reader \<Rightarrow> 'a outcome \<times> byte_reader"
    and valid :: "nat \<Rightarrow> 'a \<Rightarrow> bool"
  assumes dec_enc: "valid (br_max_string_bytes r) x \<Longrightarrow> br_at r (enc x @ rest) \<Longrightarrow>
      dec r = (Inr x, br_advance (length (enc x)) r)"
    and dec_wf: "br_wf r \<Longrightarrow> br_wf (snd (dec r))"
    and dec_data: "br_data (snd (dec r)) = br_data r"
    and dec_progress: "br_offset r \<le> br_offset (snd (dec r))"
begin

lemma dec_enc_at:
  assumes "valid (br_max_string_bytes r) x" and "br_at r (enc x @ rest)"
  shows "dec r = (Inr x, snd (dec r))" and "br_at (snd (dec r)) rest"
    and "br_max_string_bytes (snd (dec r)) = br_max_string_bytes r"
  using dec_enc [OF assms] br_at_advance [OF assms(2)] by simp_all

lemma dec_enc_whole: "valid m x \<Longrightarrow> fst (dec (new_reader (enc x) m)) = Inr x"
  using dec_enc [of "new_reader (enc x) m" x "[]"] by (simp add: new_reader_def br_at_def)

lemma enc_inj: "valid m x \<Longrightarrow> valid m y \<Longrightarrow> enc x = enc y \<Longrightarrow> x = y"
  by (metis dec_enc_whole sum.inject(2))

end

lemma le_load_at:
  assumes "br_at r (le_bytes n v @ rest)" and "8 * n = LENGTH('a)"
  shows "le_load n (br_data r) (br_offset r) = (v :: 'a::len word)"
  using assms le_load_le_bytes unfolding br_at_def by metis

interpretation u8_codec: codec "\<lambda>v. [v]" br_u8 "\<lambda>_ _. True"
  by unfold_locales
    (auto simp: br_u8_def br_at_def br_wf_def br_remaining_def)

interpretation u16_codec: codec "le_bytes 2" br_u16 "\<lambda>_ _. True"
  by unfold_locales
    (simp add: br_u16_def br_at_remaining le_load_at,
      auto simp: br_u16_def br_wf_def br_remaining_def)

interpretation u32_codec: codec "le_bytes 4" br_u32 "\<lambda>_ _. True"
  by unfold_locales
    (simp add: br_u32_def br_at_remaining le_load_at,
      auto simp: br_u32_def br_wf_def br_remaining_def)

interpretation u64_codec: codec "le_bytes 8" br_u64 "\<lambda>_ _. True"
  by unfold_locales
    (simp add: br_u64_def br_at_remaining le_load_at,
      auto simp: br_u64_def br_wf_def br_remaining_def)

lemma br_bytes_at:
  assumes "br_at r (xs @ rest)" and "length xs = n"
  shows "br_bytes n r = (Inr xs, br_advance n r)"
  using assms by (auto simp: br_bytes_def br_at_remaining, auto simp: br_at_def)

lemma br_bytes_frame:
  "br_data (snd (br_bytes n r)) = br_data r" "br_offset r \<le> br_offset (snd (br_bytes n r))"
  "br_wf r \<Longrightarrow> br_wf (snd (br_bytes n r))"
  by (auto simp: br_bytes_def br_wf_def br_remaining_def)

interpretation bytes32_codec: codec "\<lambda>v. v" "br_bytes 32" "\<lambda>_ v. length v = 32"
  by unfold_locales (auto simp: br_bytes_at br_bytes_frame)

lemma br_block_at:
  assumes "length xs < 2 ^ 32" and "length xs \<le> m" and "br_at r (block_enc xs @ rest)"
  shows "br_block m r = (Inr xs, br_advance (length (block_enc xs)) r)"
proof -
  let ?n = "of_nat (length xs) :: u32"
  have at: "br_at r (le_bytes 4 ?n @ xs @ rest)" using assms(3) by (simp add: block_enc_def)
  have n: "unat ?n = length xs" using assms(1) by (simp add: unat_of_nat)
  have "br_u32 r = (Inr ?n, br_advance 4 r)" using u32_codec.dec_enc [OF _ at] by simp
  moreover have "br_bytes (length xs) (br_advance 4 r) = (Inr xs, br_advance (length xs) (br_advance 4 r))"
    using br_at_advance [OF at] by (intro br_bytes_at) simp_all
  ultimately show ?thesis using assms(2) n by (simp add: br_block_def block_enc_def)
qed

lemma br_block_frame:
  "br_data (snd (br_block m r)) = br_data r" "br_offset r \<le> br_offset (snd (br_block m r))"
  "br_wf r \<Longrightarrow> br_wf (snd (br_block m r))"
  by (auto simp: br_block_def br_u32_def br_bytes_def br_wf_def br_remaining_def)

interpretation block_codec: codec block_enc "br_block 67108864" "\<lambda>_ v. length v \<le> 67108864"
  by unfold_locales (auto simp: br_block_at br_block_frame)

lemma br_string_at:
  assumes "length t < 2 ^ 32" and "length t \<le> br_max_string_bytes r" and "is_valid_utf8 t"
    and "br_at r (string_enc t @ rest)"
  shows "br_string r = (Inr t, br_advance (length (string_enc t)) r)"
proof -
  let ?n = "of_nat (length t) :: u32"
  have at: "br_at r (le_bytes 4 ?n @ text_bytes t @ rest)"
    using assms(4) by (simp add: string_enc_def block_enc_def)
  have n: "unat ?n = length t" using assms(1) by (simp add: unat_of_nat)
  have "br_u32 r = (Inr ?n, br_advance 4 r)" using u32_codec.dec_enc [OF _ at] by simp
  moreover have "br_bytes (length t) (br_advance 4 r)
      = (Inr (text_bytes t), br_advance (length t) (br_advance 4 r))"
    using br_at_advance [OF at] by (intro br_bytes_at) simp_all
  ultimately show ?thesis using assms(2,3) n by (simp add: br_string_def string_enc_def block_enc_def)
qed

lemma br_string_frame:
  "br_data (snd (br_string r)) = br_data r" "br_offset r \<le> br_offset (snd (br_string r))"
  "br_wf r \<Longrightarrow> br_wf (snd (br_string r))"
  by (auto simp: br_string_def br_u32_def br_bytes_def br_wf_def br_remaining_def)

definition string_ok :: "nat \<Rightarrow> string \<Rightarrow> bool" where
  "string_ok m t = (length t < 2 ^ 32 \<and> length t \<le> m \<and> is_valid_utf8 t)"

interpretation string_codec: codec string_enc br_string string_ok
  by unfold_locales (auto simp: br_string_at br_string_frame string_ok_def)

text \<open>The hypotheses of the codec laws for the primitives, ready for chaining reads.\<close>

lemmas primitive_dec =
  u8_codec.dec_enc [OF TrueI] u16_codec.dec_enc [OF TrueI] u32_codec.dec_enc [OF TrueI]
  u64_codec.dec_enc [OF TrueI] bytes32_codec.dec_enc string_codec.dec_enc

lemmas primitive_frame =
  u8_codec.dec_data u16_codec.dec_data u32_codec.dec_data u64_codec.dec_data
  bytes32_codec.dec_data block_codec.dec_data string_codec.dec_data

section \<open>Properties\<close>

text \<open>
  C34. A string the writer accepted is read back, from the position it was written at, by any reader
  whose string bound admits its length; what was in the buffer before is untouched.
\<close>

theorem string_write_read:
  assumes "bw_string t w = (st, w')" and "status_ok st" and "length t \<le> m"
  shows "take (length (bw_buffer w)) (bw_buffer w') = bw_buffer w
     \<and> fst (br_string \<lparr>br_data = bw_buffer w', br_offset = length (bw_buffer w), br_max_string_bytes = m\<rparr>) = Inr t"
proof -
  have ok: "length t < 2 ^ 32" "is_valid_utf8 t"
    using assms(1,2) by (auto simp: bw_string_def split: if_splits)
  have "bw_buffer w' = bw_buffer w @ string_enc t"
    using assms(1,2) ok
    by (auto simp: bw_string_def bw_u32_def bw_bytes_def Let_def bw_require_cases string_enc_def block_enc_def
        split: if_splits)
  moreover from this have "br_at \<lparr>br_data = bw_buffer w', br_offset = length (bw_buffer w),
      br_max_string_bytes = m\<rparr> (string_enc t @ [])"
    by (simp add: br_at_def)
  ultimately show ?thesis using string_codec.dec_enc [of _ t "[]"] ok assms(3) by (simp add: string_ok_def)
qed

theorem string_write_read_witness:
  "fst (br_string \<lparr>br_data = bw_buffer (snd (bw_string ''leaf-1'' (new_writer 16))), br_offset = 0,
     br_max_string_bytes = 8\<rparr>) = Inr ''leaf-1''"
proof -
  have "is_valid_utf8 ''leaf-1''" by code_simp
  then have "bw_string ''leaf-1'' (new_writer 16) = (status_success, bw_append (string_enc ''leaf-1'') (new_writer 16))"
    by (intro emit_string.put_fits)
      (simp_all add: bw_fits_def new_writer_def string_enc_def block_enc_def le_bytes_def)
  then have "status_ok (fst (bw_string ''leaf-1'' (new_writer 16)))" by simp
  with string_write_read [of "''leaf-1''" "new_writer 16" "fst (bw_string ''leaf-1'' (new_writer 16))"
      "snd (bw_string ''leaf-1'' (new_writer 16))" 8]
  show ?thesis by (simp add: new_writer_def)
qed

text \<open>
  No read moves a reader past the end of its data, whatever lengths the data declares: the
  offset only grows and stays within the data.
\<close>

theorem reads_stay_in_bounds:
  assumes "br_offset r \<le> length (br_data r)"
    and "r' \<in> {snd (br_u8 r), snd (br_u16 r), snd (br_u32 r), snd (br_u64 r), snd (br_bytes n r),
               snd (br_block n r), snd (br_string r)}"
  shows "br_data r' = br_data r \<and> br_offset r \<le> br_offset r' \<and> br_offset r' \<le> length (br_data r')"
  using assms by (auto simp: br_u8_def br_u16_def br_u32_def br_u64_def br_block_def br_string_def br_bytes_def
      br_remaining_def)

theorem reads_stay_in_bounds_witness:
  "br_offset (snd (br_string (new_reader [255, 255, 255, 255] 8))) \<le> 4"
proof -
  let ?r = "new_reader [255, 255, 255, 255] 8"
  have "br_data (snd (br_string ?r)) = br_data ?r \<and> br_offset ?r \<le> br_offset (snd (br_string ?r))
      \<and> br_offset (snd (br_string ?r)) \<le> length (br_data (snd (br_string ?r)))"
    by (rule reads_stay_in_bounds [of _ _ 0]) (simp_all add: new_reader_def)
  then have "br_offset (snd (br_string ?r)) \<le> length (br_data ?r)" by (metis (no_types))
  moreover have "length (br_data ?r) = 4" by (simp add: new_reader_def)
  ultimately show ?thesis by linarith
qed

end
