(* ===== verification/SLF_Digest.thy ===== *)
theory SLF_Digest
  imports SLF_Bytes
begin

text \<open>
  SHA-256 and digests (\<open>include/slf/digest.hpp\<close>, \<open>src/digest.cpp\<close>). The streaming object
  keeps the eight state words, the 64-byte buffer, the number of buffered bytes and the
  64-bit byte counter, as the class does. The second half relates the streaming
  implementation (whole-block fast path, partial buffering, padding loop) to the one-shot
  definition of the hash over the padded message.
\<close>

definition kRoundConstants :: "u32 list" where
  "kRoundConstants =
    [0x428A2F98, 0x71374491, 0xB5C0FBCF, 0xE9B5DBA5, 0x3956C25B, 0x59F111F1, 0x923F82A4,
     0xAB1C5ED5, 0xD807AA98, 0x12835B01, 0x243185BE, 0x550C7DC3, 0x72BE5D74, 0x80DEB1FE,
     0x9BDC06A7, 0xC19BF174, 0xE49B69C1, 0xEFBE4786, 0x0FC19DC6, 0x240CA1CC, 0x2DE92C6F,
     0x4A7484AA, 0x5CB0A9DC, 0x76F988DA, 0x983E5152, 0xA831C66D, 0xB00327C8, 0xBF597FC7,
     0xC6E00BF3, 0xD5A79147, 0x06CA6351, 0x14292967, 0x27B70A85, 0x2E1B2138, 0x4D2C6DFC,
     0x53380D13, 0x650A7354, 0x766A0ABB, 0x81C2C92E, 0x92722C85, 0xA2BFE8A1, 0xA81A664B,
     0xC24B8B70, 0xC76C51A3, 0xD192E819, 0xD6990624, 0xF40E3585, 0x106AA070, 0x19A4C116,
     0x1E376C08, 0x2748774C, 0x34B0BCB5, 0x391C0CB3, 0x4ED8AA4A, 0x5B9CCA4F, 0x682E6FF3,
     0x748F82EE, 0x78A5636F, 0x84C87814, 0x8CC70208, 0x90BEFFFA, 0xA4506CEB, 0xBEF9A3F7,
     0xC67178F2]"

definition kInitialState :: "u32 list" where
  "kInitialState =
    [0x6A09E667, 0xBB67AE85, 0x3C6EF372, 0xA54FF53A, 0x510E527F, 0x9B05688C, 0x1F83D9AB, 0x5BE0CD19]"

definition rotr :: "u32 \<Rightarrow> nat \<Rightarrow> u32" where
  "rotr value bits = drop_bit bits value OR push_bit (32 - bits) value"

record sha256 =
  sha_state :: "u32 list"
  sha_buffer :: "u8 list"
  sha_buffered :: nat
  sha_total_bytes :: u64

definition sha256_reset :: sha256 where
  "sha256_reset =
     \<lparr>sha_state = kInitialState, sha_buffer = replicate 64 0, sha_buffered = 0, sha_total_bytes = 0\<rparr>"

definition load_be32 :: "bytes \<Rightarrow> nat \<Rightarrow> u32" where
  "load_be32 block i =
     push_bit 24 (ucast (block ! (i * 4))) OR push_bit 16 (ucast (block ! (i * 4 + 1)))
       OR push_bit 8 (ucast (block ! (i * 4 + 2))) OR ucast (block ! (i * 4 + 3))"

definition schedule_step :: "u32 list \<Rightarrow> nat \<Rightarrow> u32 list" where
  "schedule_step w i =
     (let s0 = rotr (w ! (i - 15)) 7 XOR rotr (w ! (i - 15)) 18 XOR drop_bit 3 (w ! (i - 15));
          s1 = rotr (w ! (i - 2)) 17 XOR rotr (w ! (i - 2)) 19 XOR drop_bit 10 (w ! (i - 2))
      in w @ [w ! (i - 16) + s0 + w ! (i - 7) + s1])"

definition message_schedule :: "bytes \<Rightarrow> u32 list" where
  "message_schedule block = foldl schedule_step (map (load_be32 block) [0..<16]) [16..<64]"

type_synonym sha_vars = "u32 \<times> u32 \<times> u32 \<times> u32 \<times> u32 \<times> u32 \<times> u32 \<times> u32"

definition sha_round :: "u32 list \<Rightarrow> sha_vars \<Rightarrow> nat \<Rightarrow> sha_vars" where
  "sha_round w vars i =
     (case vars of (a, b, c, d, e, f, g, h) \<Rightarrow>
        let s1 = rotr e 6 XOR rotr e 11 XOR rotr e 25;
            ch = (e AND f) XOR ((NOT e) AND g);
            temp1 = h + s1 + ch + kRoundConstants ! i + w ! i;
            s0 = rotr a 2 XOR rotr a 13 XOR rotr a 22;
            maj = (a AND b) XOR (a AND c) XOR (b AND c);
            temp2 = s0 + maj
        in (temp1 + temp2, a, b, c, d + temp1, e, f, g))"

definition sha_compress :: "u32 list \<Rightarrow> bytes \<Rightarrow> u32 list" where
  "sha_compress st block =
     (let w = message_schedule block in
      case foldl (sha_round w)
             (st ! 0, st ! 1, st ! 2, st ! 3, st ! 4, st ! 5, st ! 6, st ! 7) [0..<64] of
        (a, b, c, d, e, f, g, h) \<Rightarrow>
          [st ! 0 + a, st ! 1 + b, st ! 2 + c, st ! 3 + d,
           st ! 4 + e, st ! 5 + f, st ! 6 + g, st ! 7 + h])"

definition sha_transform :: "bytes \<Rightarrow> sha256 \<Rightarrow> sha256" where
  "sha_transform block s = s\<lparr>sha_state := sha_compress (sha_state s) block\<rparr>"

definition sha_update_byte :: "u8 \<Rightarrow> sha256 \<Rightarrow> sha256" where
  "sha_update_byte byte s =
     (let s1 = s\<lparr>sha_buffer := (sha_buffer s)[sha_buffered s := byte],
                 sha_buffered := sha_buffered s + 1,
                 sha_total_bytes := sha_total_bytes s + 1\<rparr>
      in if sha_buffered s1 = 64 then (sha_transform (sha_buffer s1) s1)\<lparr>sha_buffered := 0\<rparr> else s1)"

text \<open>
  The loop of \<open>update(std::string_view)\<close> over the unread bytes. The class keeps
  \<open>buffered_ < 64\<close> between calls (\<open>sha_repr\<close> below), so the loop always takes at least one
  byte; the extra guard \<open>64 \<le> sha_buffered s\<close> only makes the recursion total.
\<close>

definition sha_take :: "sha256 \<Rightarrow> bytes \<Rightarrow> nat" where
  "sha_take s data = (if 64 - sha_buffered s < length data then 64 - sha_buffered s else length data)"

definition sha_fill :: "bytes \<Rightarrow> sha256 \<Rightarrow> sha256" where
  "sha_fill chunk s =
     (let s1 = s\<lparr>sha_buffer := take (sha_buffered s) (sha_buffer s) @ chunk
                                @ drop (sha_buffered s + length chunk) (sha_buffer s),
                 sha_buffered := sha_buffered s + length chunk,
                 sha_total_bytes := sha_total_bytes s + of_nat (length chunk)\<rparr>
      in if sha_buffered s1 = 64 then (sha_transform (sha_buffer s1) s1)\<lparr>sha_buffered := 0\<rparr> else s1)"

function sha_update :: "bytes \<Rightarrow> sha256 \<Rightarrow> sha256" where
  "sha_update data s =
     (if data = [] \<or> 64 \<le> sha_buffered s then s
      else if sha_buffered s = 0 \<and> length data \<ge> 64
      then sha_update (drop 64 data)
             ((sha_transform (take 64 data) s)\<lparr>sha_total_bytes := sha_total_bytes s + 64\<rparr>)
      else sha_update (drop (sha_take s data) data) (sha_fill (take (sha_take s data) data) s))"
  by pat_completeness auto
termination
  by (relation "measure (\<lambda>(data, s). length data)") (auto simp: sha_take_def)

declare sha_update.simps [simp del]

text \<open>The zero-padding loop of \<open>finish\<close>, with the same totality guard.\<close>

lemma sha_update_byte_buffered:
  "sha_buffered (sha_update_byte b s) = (if sha_buffered s = 63 then 0 else sha_buffered s + 1)"
  by (simp add: sha_update_byte_def Let_def sha_transform_def)

function sha_pad_zeros :: "sha256 \<Rightarrow> sha256" where
  "sha_pad_zeros s =
     (if sha_buffered s = 56 \<or> 64 \<le> sha_buffered s then s else sha_pad_zeros (sha_update_byte 0 s))"
  by pat_completeness auto
termination
proof (relation "measure (\<lambda>s. if sha_buffered s \<le> 56 then 56 - sha_buffered s else 121 - sha_buffered s)")
  fix s :: sha256
  assume "\<not> (sha_buffered s = 56 \<or> 64 \<le> sha_buffered s)"
  then show "(sha_update_byte 0 s, s)
      \<in> measure (\<lambda>s. if sha_buffered s \<le> 56 then 56 - sha_buffered s else 121 - sha_buffered s)"
    by (auto simp: sha_update_byte_buffered)
qed simp

declare sha_pad_zeros.simps [simp del]

definition be64_bytes :: "u64 \<Rightarrow> bytes" where
  "be64_bytes v = map (\<lambda>i. ucast (drop_bit (56 - 8 * i) v AND 0xFF)) [0..<8]"

definition be32_bytes :: "u32 \<Rightarrow> bytes" where
  "be32_bytes v =
     [ucast (drop_bit 24 v AND 0xFF), ucast (drop_bit 16 v AND 0xFF), ucast (drop_bit 8 v AND 0xFF),
      ucast (v AND 0xFF)]"

type_synonym digest = "u8 list"

definition sha_finish :: "sha256 \<Rightarrow> digest" where
  "sha_finish s =
     (let bit_length = sha_total_bytes s * 8;
          s1 = sha_update_byte 0x80 s;
          s2 = sha_pad_zeros s1;
          s3 = foldl (\<lambda>t b. sha_update_byte b t) s2 (be64_bytes bit_length)
      in concat (map be32_bytes (sha_state s3)))"

definition digest_of :: "bytes \<Rightarrow> digest" where
  "digest_of data = sha_finish (sha_update data sha256_reset)"

definition zero_digest :: digest where
  "zero_digest = replicate 32 0"

definition digest_is_zero :: "digest \<Rightarrow> bool" where
  "digest_is_zero d = (\<forall>b\<in>set d. b = 0)"

definition hex_digit :: "nat \<Rightarrow> char" where
  "hex_digit value = (if value < 10 then char_of (48 + value) else char_of (97 + (value - 10)))"

definition byte_hex :: "u8 \<Rightarrow> string" where
  "byte_hex b = [hex_digit (unat (drop_bit 4 b AND 0xF)), hex_digit (unat (b AND 0xF))]"

definition digest_hex :: "digest \<Rightarrow> string" where
  "digest_hex d = concat (map byte_hex d)"

definition digest_short_hex :: "digest \<Rightarrow> nat \<Rightarrow> string" where
  "digest_short_hex d n = concat (map byte_hex (take (if n > 32 then 32 else n) d))"

fun digest_less :: "digest \<Rightarrow> digest \<Rightarrow> bool" where
  "digest_less (a # as) (b # bs) = (if a \<noteq> b then a < b else digest_less as bs)"
| "digest_less _ _ = False"

fun parse_hex_pairs :: "string \<Rightarrow> bytes option" where
  "parse_hex_pairs (hi_char # lo_char # rest) =
     (let hi = hex_value hi_char; lo = hex_value lo_char in
      if hi < 0 \<or> lo < 0 then None
      else case parse_hex_pairs rest of
             None \<Rightarrow> None
           | Some bs \<Rightarrow> Some ((push_bit 4 (of_int hi) OR of_int lo) # bs))"
| "parse_hex_pairs _ = Some []"

definition parse_digest_hex :: "string \<Rightarrow> digest option" where
  "parse_digest_hex text = (if length text \<noteq> 64 then None else parse_hex_pairs text)"

section \<open>Digest builder\<close>

definition add_u8 :: "u8 \<Rightarrow> sha256 \<Rightarrow> sha256" where
  "add_u8 value s = sha_update_byte value s"

definition add_u16 :: "u16 \<Rightarrow> sha256 \<Rightarrow> sha256" where
  "add_u16 value s =
     sha_update_byte (ucast (drop_bit 8 value AND 0xFF)) (sha_update_byte (ucast (value AND 0xFF)) s)"

definition add_u32 :: "u32 \<Rightarrow> sha256 \<Rightarrow> sha256" where
  "add_u32 value s =
     foldl (\<lambda>t i. sha_update_byte (ucast (drop_bit (8 * i) value AND 0xFF)) t) s [0..<4]"

definition add_u64 :: "u64 \<Rightarrow> sha256 \<Rightarrow> sha256" where
  "add_u64 value s =
     foldl (\<lambda>t i. sha_update_byte (ucast (drop_bit (8 * i) value AND 0xFF)) t) s [0..<8]"

definition add_bytes :: "bytes \<Rightarrow> sha256 \<Rightarrow> sha256" where
  "add_bytes data s = sha_update data (add_u32 (of_nat (length data)) s)"

definition add_string :: "string \<Rightarrow> sha256 \<Rightarrow> sha256" where
  "add_string text s = sha_update (text_bytes text) (add_u32 (of_nat (length text)) s)"

section \<open>The streaming hash equals the one-shot hash\<close>

text \<open>
  The reference: pad the message with \<open>0x80\<close>, zeros and the big-endian bit length to a
  multiple of 64 bytes, then fold the compression function over the 64-byte blocks.
\<close>

function sha_absorb :: "u32 list \<Rightarrow> bytes \<Rightarrow> u32 list" where
  "sha_absorb st m = (if length m < 64 then st else sha_absorb (sha_compress st (take 64 m)) (drop 64 m))"
  by pat_completeness auto
termination
  by (relation "measure (\<lambda>(st, m). length m)") auto

declare sha_absorb.simps [simp del]

definition sha_padding :: "nat \<Rightarrow> bytes" where
  "sha_padding n = 0x80 # replicate ((119 - n mod 64) mod 64) 0 @ be64_bytes (of_nat n * 8)"

definition sha256_reference :: "bytes \<Rightarrow> digest" where
  "sha256_reference m = concat (map be32_bytes (sha_absorb kInitialState (m @ sha_padding (length m))))"

lemma sha_absorb_append:
  "64 dvd length p \<Longrightarrow> sha_absorb st (p @ x) = sha_absorb (sha_absorb st p) x"
proof (induction st p rule: sha_absorb.induct)
  case (1 st p)
  show ?case
  proof (cases "length p < 64")
    case True
    with "1.prems" have "p = []" by (auto dest: dvd_imp_le)
    then show ?thesis by (simp add: sha_absorb.simps [of st "[]"])
  next
    case False
    with 1 show ?thesis
      by (simp add: sha_absorb.simps [of st "p @ x"] sha_absorb.simps [of st p])
  qed
qed

lemma sha_absorb_block: "length b = 64 \<Longrightarrow> sha_absorb st b = sha_compress st b"
  by (simp add: sha_absorb.simps [of st b] sha_absorb.simps [of _ "[]"])

text \<open>\<open>sha_repr m s\<close>: the object \<open>s\<close> has absorbed exactly the bytes \<open>m\<close>.\<close>

definition sha_repr :: "bytes \<Rightarrow> sha256 \<Rightarrow> bool" where
  "sha_repr m s \<longleftrightarrow>
     (\<exists>p t. m = p @ t \<and> 64 dvd length p \<and> length t < 64
        \<and> sha_state s = sha_absorb kInitialState p
        \<and> take (length t) (sha_buffer s) = t \<and> length (sha_buffer s) = 64
        \<and> sha_buffered s = length t \<and> sha_total_bytes s = of_nat (length m))"

lemma sha_reprI:
  assumes "m = p @ t" "64 dvd length p" "length t < 64" "sha_state s = sha_absorb kInitialState p"
    "take (length t) (sha_buffer s) = t" "length (sha_buffer s) = 64" "sha_buffered s = length t"
    "sha_total_bytes s = of_nat (length m)"
  shows "sha_repr m s"
  using assms unfolding sha_repr_def by blast

lemma sha_repr_reset: "sha_repr [] sha256_reset"
  by (simp add: sha_repr_def sha256_reset_def sha_absorb.simps [of _ "[]"])

lemma sha_repr_fill:
  assumes "sha_repr m s" and "c \<noteq> []" and "sha_buffered s + length c \<le> 64"
  shows "sha_repr (m @ c) (sha_fill c s)"
proof -
  from assms(1) obtain p t where pt: "m = p @ t" "64 dvd length p" "length t < 64"
    "sha_state s = sha_absorb kInitialState p" "take (length t) (sha_buffer s) = t"
    "length (sha_buffer s) = 64" "sha_buffered s = length t" "sha_total_bytes s = of_nat (length m)"
    unfolding sha_repr_def by blast
  show ?thesis
  proof (cases "length t + length c = 64")
    case True
    have "sha_state (sha_fill c s) = sha_compress (sha_absorb kInitialState p) (t @ c)"
      "sha_buffer (sha_fill c s) = t @ c" "sha_buffered (sha_fill c s) = 0"
      "sha_total_bytes (sha_fill c s) = of_nat (length m) + of_nat (length c)"
      using pt True by (simp_all add: sha_fill_def Let_def sha_transform_def)
    moreover have "sha_absorb kInitialState (p @ t @ c) = sha_compress (sha_absorb kInitialState p) (t @ c)"
      using pt(2) True by (simp add: sha_absorb_append sha_absorb_block)
    moreover have "64 dvd length (p @ t @ c)" using pt(2) True by simp
    moreover have "of_nat (length t) + of_nat (length c) = (64 :: u64)"
      using arg_cong [OF True, of "of_nat :: nat \<Rightarrow> u64"] by simp
    ultimately show ?thesis using pt(1)
      by (intro sha_reprI [of _ "p @ t @ c" "[]"]) (simp_all add: True add.assoc)
  next
    case False
    with assms(3) pt(7) have lt: "length t + length c < 64" by simp
    then have "sha_state (sha_fill c s) = sha_absorb kInitialState p"
      "sha_buffer (sha_fill c s) = t @ c @ drop (length t + length c) (sha_buffer s)"
      "sha_buffered (sha_fill c s) = length (t @ c)"
      "sha_total_bytes (sha_fill c s) = of_nat (length m) + of_nat (length c)"
      using pt by (simp_all add: sha_fill_def Let_def)
    then show ?thesis using pt(1,2,6) lt
      by (intro sha_reprI [of _ p "t @ c"]) simp_all
  qed
qed

lemma sha_update_byte_fill:
  "length (sha_buffer s) = 64 \<Longrightarrow> sha_buffered s < 64 \<Longrightarrow> sha_update_byte b s = sha_fill [b] s"
  by (simp add: sha_update_byte_def sha_fill_def Let_def upd_conv_take_nth_drop)

lemma sha_repr_bounds: "sha_repr m s \<Longrightarrow> length (sha_buffer s) = 64 \<and> sha_buffered s < 64"
  by (auto simp: sha_repr_def)

lemma sha_repr_byte: "sha_repr m s \<Longrightarrow> sha_repr (m @ [b]) (sha_update_byte b s)"
  using sha_repr_fill [of m s "[b]"] sha_repr_bounds [of m s] by (simp add: sha_update_byte_fill)

lemma sha_repr_buffered: "sha_repr m s \<Longrightarrow> sha_buffered s = length m mod 64"
  by (auto simp: sha_repr_def elim!: dvdE)

lemma sha_repr_update: "sha_repr m s \<Longrightarrow> sha_repr (m @ data) (sha_update data s)"
proof (induction data s arbitrary: m rule: sha_update.induct)
  case (1 data s)
  have inb: "sha_buffered s < 64" using "1.prems" sha_repr_bounds by blast
  consider "data = []" | "data \<noteq> []" "sha_buffered s = 0 \<and> length data \<ge> 64"
    | "data \<noteq> []" "\<not> (sha_buffered s = 0 \<and> length data \<ge> 64)" by blast
  then show ?case
  proof cases
    case 1
    with "1.prems" show ?thesis by (simp add: sha_update.simps [of "[]"])
  next
    case 2
    let ?s = "(sha_transform (take 64 data) s)\<lparr>sha_total_bytes := sha_total_bytes s + 64\<rparr>"
    from "1.prems" 2 have "64 dvd length m" "sha_state s = sha_absorb kInitialState m"
      "sha_total_bytes s = of_nat (length m)" "length (sha_buffer s) = 64"
      by (auto simp: sha_repr_def)
    with 2 have "sha_repr (m @ take 64 data) ?s"
      by (intro sha_reprI [of _ "m @ take 64 data" "[]"])
        (simp_all add: sha_transform_def sha_absorb_append sha_absorb_block)
    then have "sha_repr ((m @ take 64 data) @ drop 64 data) (sha_update (drop 64 data) ?s)"
      using 2 inb by (intro "1.IH"(1)) simp_all
    with 2 inb show ?thesis by (simp add: sha_update.simps [of data s])
  next
    case 3
    let ?n = "sha_take s data"
    have "sha_repr (m @ take ?n data) (sha_fill (take ?n data) s)"
      using "1.prems" 3 inb by (intro sha_repr_fill) (auto simp: sha_take_def)
    then have "sha_repr ((m @ take ?n data) @ drop ?n data)
        (sha_update (drop ?n data) (sha_fill (take ?n data) s))"
      using 3 inb by (intro "1.IH"(2)) simp_all
    with 3 inb show ?thesis by (auto simp: sha_update.simps [of data s])
  qed
qed

lemma sha_repr_bytes: "sha_repr m s \<Longrightarrow> sha_repr (m @ bs) (foldl (\<lambda>t b. sha_update_byte b t) s bs)"
proof (induction bs arbitrary: m s)
  case (Cons b bs)
  from Cons.IH [OF sha_repr_byte [OF Cons.prems]] show ?case by simp
qed simp

lemma pad_zero_count:
  "r < 64 \<Longrightarrow> (120 - r) mod 64 = (if r \<le> 56 then 56 - r else 120 - (r::nat))"
  by (simp add: le_mod_geq)

lemma pad_zero_step:
  assumes "n mod 64 \<noteq> 56"
  shows "(120 - n mod 64) mod 64 = Suc ((120 - Suc n mod 64) mod (64::nat))"
proof -
  have b: "n mod 64 < 64" by simp
  show ?thesis
  proof (cases "n mod 64 = 63")
    case True
    then show ?thesis by (simp add: mod_Suc)
  next
    case False
    then have "Suc n mod 64 = Suc (n mod 64)" by (simp add: mod_Suc)
    with False b assms pad_zero_count [of "n mod 64"] pad_zero_count [of "Suc (n mod 64)"]
    show ?thesis using Suc_diff_le [of "n mod 64" 55] by (cases "n mod 64 \<le> 55") auto
  qed
qed

lemma sha_repr_pad_zeros:
  "sha_repr m s \<Longrightarrow> sha_repr (m @ replicate ((120 - length m mod 64) mod 64) 0) (sha_pad_zeros s)"
proof (induction s arbitrary: m rule: sha_pad_zeros.induct)
  case (1 s)
  have b: "sha_buffered s = length m mod 64" using "1.prems" by (rule sha_repr_buffered)
  show ?case
  proof (cases "sha_buffered s = 56")
    case True
    with b "1.prems" show ?thesis by (simp add: sha_pad_zeros.simps [of s])
  next
    case False
    with b have ne: "\<not> (sha_buffered s = 56 \<or> 64 \<le> sha_buffered s)" by simp
    have "(120 - length m mod 64) mod 64 = Suc ((120 - length (m @ [0::u8]) mod 64) mod 64)"
      using pad_zero_step [of "length m"] False b by simp
    with "1.IH" [OF ne sha_repr_byte [OF "1.prems", of 0]] ne show ?thesis
      by (simp add: sha_pad_zeros.simps [of s])
  qed
qed

lemma pad_count_after_marker: "(120 - length (m @ [0x80::u8]) mod 64) mod 64 = (119 - length m mod 64) mod 64"
  by (simp add: mod_Suc)

lemma padded_length: "(n + 1 + (119 - n mod 64) mod 64 + 8) mod 64 = (0::nat)"
proof -
  obtain q r where n: "n = 64 * q + r" and r: "r < 64"
    by (metis mod_less_divisor mult_div_mod_eq zero_less_numeral)
  have "(119 - r) mod 64 = (if r \<le> 55 then 55 - r else 119 - r)" using r by (simp add: le_mod_geq)
  then have "n + 1 + (119 - r) mod 64 + 8 = 64 * (q + (if r \<le> 55 then 1 else 2))"
    using n r by auto
  moreover have "n mod 64 = r" using n r by simp
  ultimately show ?thesis by (metis mod_mult_self1_is_0)
qed

lemma length_be64_bytes [simp]: "length (be64_bytes v) = 8"
  by (simp add: be64_bytes_def)

lemma sha_finish_reference:
  assumes "sha_repr m s"
  shows "sha_finish s = sha256_reference m"
proof -
  let ?k = "(119 - length m mod 64) mod 64"
  let ?full = "m @ sha_padding (length m)"
  have k: "(120 - length (m @ [0x80::u8]) mod 64) mod 64 = ?k"
    by (rule pad_count_after_marker)
  define s3 where "s3 = foldl (\<lambda>t b. sha_update_byte b t) (sha_pad_zeros (sha_update_byte 0x80 s))
     (be64_bytes (sha_total_bytes s * 8))"
  have total: "sha_total_bytes s = of_nat (length m)" using assms by (auto simp: sha_repr_def)
  from sha_repr_pad_zeros [OF sha_repr_byte [OF assms, of "0x80"]]
  have "sha_repr (m @ 0x80 # replicate ?k 0) (sha_pad_zeros (sha_update_byte 0x80 s))"
    unfolding k by simp
  then have full: "sha_repr ?full s3"
    unfolding s3_def total sha_padding_def
    using sha_repr_bytes [of "m @ 0x80 # replicate ?k 0" _ "be64_bytes (of_nat (length m) * 8)"] by simp
  have "length ?full mod 64 = (length m + 1 + ?k + 8) mod 64" by (simp add: sha_padding_def ac_simps)
  also have "\<dots> = 0" by (rule padded_length)
  finally have "64 dvd length ?full" by (simp add: dvd_eq_mod_eq_0)
  from full obtain p t where "?full = p @ t" "64 dvd length p" "length t < 64"
    "sha_state s3 = sha_absorb kInitialState p"
    unfolding sha_repr_def by blast
  moreover from this \<open>64 dvd length ?full\<close> have "t = []"
    by (metis dvd_add_right_iff length_append length_greater_0_conv nat_dvd_not_less)
  ultimately have "sha_state s3 = sha_absorb kInitialState ?full" by simp
  then show ?thesis by (simp add: sha_finish_def Let_def s3_def sha256_reference_def)
qed

lemma digest_of_reference: "digest_of m = sha256_reference m"
  unfolding digest_of_def
  using sha_finish_reference [OF sha_repr_update [OF sha_repr_reset, of m]] by simp
lemma length_sha_absorb: "length st = 8 \<Longrightarrow> length (sha_absorb st m) = 8"
proof (induction st m rule: sha_absorb.induct)
  case (1 st m)
  have "length (sha_compress st b) = 8" for b
    by (simp add: sha_compress_def Let_def split: prod.split)
  with 1 show ?case by (simp add: sha_absorb.simps [of st m])
qed

lemma length_digest_of [simp]: "length (digest_of m) = 32"
proof -
  have "length (concat (map be32_bytes ws)) = 4 * length ws" for ws
    by (induction ws) (simp_all add: be32_bytes_def)
  moreover have "length (sha_absorb kInitialState x) = 8" for x
    by (rule length_sha_absorb) (simp add: kInitialState_def)
  ultimately show ?thesis by (simp add: digest_of_reference sha256_reference_def)
qed

text \<open>What every \<open>add_*\<close> member of the digest builder promises.\<close>

locale absorber =
  fixes step :: "'a \<Rightarrow> sha256 \<Rightarrow> sha256"
    and enc :: "'a \<Rightarrow> bytes"
  assumes absorb: "sha_repr m s \<Longrightarrow> sha_repr (m @ enc x) (step x s)"
begin

lemma absorb_finish: "sha_repr m s \<Longrightarrow> sha_finish (step x s) = digest_of (m @ enc x)"
  by (simp add: sha_finish_reference [OF absorb] digest_of_reference)

lemma absorb_list:
  "sha_repr m s \<Longrightarrow> sha_repr (m @ concat (map enc xs)) (foldl (\<lambda>t x. step x t) s xs)"
proof (induction xs arbitrary: m s)
  case (Cons x xs)
  from Cons.IH [OF absorb [OF Cons.prems]] show ?case by simp
qed simp

end

lemma foldl_update_le_bytes:
  "foldl (\<lambda>t i. sha_update_byte (ucast (drop_bit (8 * i) v AND 0xFF)) t) s [0..<n]
     = foldl (\<lambda>t b. sha_update_byte b t) s (le_bytes n v)"
  by (simp add: le_bytes_def foldl_map)

interpretation absorb_u8: absorber add_u8 "\<lambda>v. [v]"
  by unfold_locales (simp add: add_u8_def sha_repr_byte)

interpretation absorb_u16: absorber add_u16 "le_bytes 2"
proof
  fix m s and x :: u16
  assume "sha_repr m s"
  from sha_repr_bytes [OF this, of "le_bytes 2 x"] show "sha_repr (m @ le_bytes 2 x) (add_u16 x s)"
    by (simp add: add_u16_def le_bytes_2 [symmetric])
qed

interpretation absorb_u32: absorber add_u32 "le_bytes 4"
  by unfold_locales (simp add: add_u32_def foldl_update_le_bytes sha_repr_bytes)

interpretation absorb_u64: absorber add_u64 "le_bytes 8"
  by unfold_locales (simp add: add_u64_def foldl_update_le_bytes sha_repr_bytes)

interpretation absorb_bytes: absorber add_bytes block_enc
proof
  fix m s and x :: bytes
  assume "sha_repr m s"
  from sha_repr_update [OF absorb_u32.absorb [OF this]] show "sha_repr (m @ block_enc x) (add_bytes x s)"
    by (simp add: add_bytes_def block_enc_def)
qed

interpretation absorb_string: absorber add_string string_enc
proof
  fix m s and x :: string
  assume "sha_repr m s"
  from sha_repr_update [OF absorb_u32.absorb [OF this]] show "sha_repr (m @ string_enc x) (add_string x s)"
    by (simp add: add_string_def string_enc_def block_enc_def)
qed

lemmas builder_absorb =
  absorb_u8.absorb absorb_u16.absorb absorb_u32.absorb absorb_u64.absorb
  absorb_bytes.absorb absorb_string.absorb

section \<open>Hexadecimal digests\<close>

lemma hex_value_hex_digit: "n < 16 \<Longrightarrow> hex_value (hex_digit n) = int n"
  by (auto simp: hex_value_def hex_digit_def)

lemma nibble8_bound: "unat (b AND 15 :: u8) < 16"
proof -
  have "b AND 15 \<le> (15::u8)" by (rule word_and_le1)
  then show ?thesis by (simp add: word_le_nat_alt)
qed

lemma nibble_mask: "(15 :: u8) = mask 4"
  by (simp add: mask_eq_exp_minus_1)

lemma nibbles_join: "push_bit 4 (drop_bit 4 b AND 15) OR (b AND 15) = (b :: u8)"
  unfolding nibble_mask by (rule bit_word_eqI) (auto simp: bit_simps)

lemma parse_hex_pairs_hex: "parse_hex_pairs (concat (map byte_hex bs)) = Some bs"
proof (induction bs)
  case (Cons b bs)
  have "(of_int (int (unat (x :: u8))) :: u8) = x" for x by simp
  with Cons nibbles_join [of b] show ?case
    by (simp add: byte_hex_def hex_value_hex_digit nibble8_bound Let_def)
qed simp

lemma parse_digest_hex_inverse: "length d = 32 \<Longrightarrow> parse_digest_hex (digest_hex d) = Some d"
proof -
  have "length (concat (map byte_hex bs)) = 2 * length bs" for bs
    by (induction bs) (simp_all add: byte_hex_def)
  then show "length d = 32 \<Longrightarrow> ?thesis"
    by (simp add: parse_digest_hex_def digest_hex_def parse_hex_pairs_hex)
qed

section \<open>Properties\<close>

text \<open>
  C35. The streaming hash, with its whole-block fast path and partial buffering, computes the
  one-shot hash of the padded message, in whatever pieces the message is supplied.
\<close>

theorem streaming_hash_exact:
  "digest_of m = sha256_reference m
     \<and> sha_finish (foldl (\<lambda>s piece. sha_update piece s) sha256_reset pieces) = sha256_reference (concat pieces)"
proof -
  have "sha_repr (m @ concat ps) (foldl (\<lambda>s piece. sha_update piece s) s ps)" if "sha_repr m s" for m s ps
    using that
  proof (induction ps arbitrary: m s)
    case (Cons p ps)
    then show ?case using Cons.IH [OF sha_repr_update [OF Cons.prems, of p]] by simp
  qed simp
  from sha_finish_reference [OF this [OF sha_repr_reset]] show ?thesis by (simp add: digest_of_reference)
qed

end
