(* ===== verification/SLF_Model.thy ===== *)
theory SLF_Model
  imports SLF_Digest
begin

text \<open>
  The fabric data model (\<open>include/slf/model.hpp\<close>, \<open>src/model.cpp\<close>): enumerations with their
  renderings and parsers, the configuration and evidence records, validation reports, and the
  \<open>Fabric\<close> snapshot with its lookups. Enumerators carry a two-letter prefix, record fields the
  prefix of their struct. The locale \<open>record_table\<close> states what a binary search over a table
  sorted by identity promises; the five record vectors of a fabric interpret it.
\<close>

section \<open>Enumerations\<close>

datatype leaf_role = LR_Access | LR_Tor | LR_BorderLeaf | LR_ServiceLeaf

datatype spine_role = SR_FabricSpine | SR_SuperSpine

datatype node_state = NS_Active | NS_Maintenance | NS_Draining | NS_Failed | NS_Retired

datatype port_admin = PA_Enabled | PA_Disabled

datatype link_admin = LA_Enabled | LA_Disabled

datatype link_class = LC_LeafSpine | LC_SameTierPeer

datatype fabric_state = FS_Unformed | FS_Forming | FS_Operational | FS_Draining | FS_Retired

datatype evidence_policy = EP_ConfigOnly | EP_RequireFresh

datatype evidence_freshness = EF_Fresh | EF_Historical | EF_Absent

datatype link_observation = LO_Up | LO_Down | LO_Unknown

datatype fabric_health = FH_Operational | FH_Degraded | FH_Draining | FH_Unformed | FH_Retired | FH_Indeterminate

datatype issue_severity = IS_Info | IS_Warning | IS_Error

fun leaf_role_string :: "leaf_role \<Rightarrow> string" where
  "leaf_role_string LR_Access = ''access''"
| "leaf_role_string LR_Tor = ''tor''"
| "leaf_role_string LR_BorderLeaf = ''border''"
| "leaf_role_string LR_ServiceLeaf = ''service''"

fun spine_role_string :: "spine_role \<Rightarrow> string" where
  "spine_role_string SR_FabricSpine = ''fabric''"
| "spine_role_string SR_SuperSpine = ''super''"

fun node_state_string :: "node_state \<Rightarrow> string" where
  "node_state_string NS_Active = ''active''"
| "node_state_string NS_Maintenance = ''maintenance''"
| "node_state_string NS_Draining = ''draining''"
| "node_state_string NS_Failed = ''failed''"
| "node_state_string NS_Retired = ''retired''"

fun port_admin_string :: "port_admin \<Rightarrow> string" where
  "port_admin_string PA_Enabled = ''enabled''"
| "port_admin_string PA_Disabled = ''disabled''"

fun link_admin_string :: "link_admin \<Rightarrow> string" where
  "link_admin_string LA_Enabled = ''enabled''"
| "link_admin_string LA_Disabled = ''disabled''"

fun link_class_string :: "link_class \<Rightarrow> string" where
  "link_class_string LC_LeafSpine = ''leaf_spine''"
| "link_class_string LC_SameTierPeer = ''same_tier_peer''"

fun fabric_state_string :: "fabric_state \<Rightarrow> string" where
  "fabric_state_string FS_Unformed = ''unformed''"
| "fabric_state_string FS_Forming = ''forming''"
| "fabric_state_string FS_Operational = ''operational''"
| "fabric_state_string FS_Draining = ''draining''"
| "fabric_state_string FS_Retired = ''retired''"

fun evidence_policy_string :: "evidence_policy \<Rightarrow> string" where
  "evidence_policy_string EP_ConfigOnly = ''config_only''"
| "evidence_policy_string EP_RequireFresh = ''require_fresh''"

fun evidence_freshness_string :: "evidence_freshness \<Rightarrow> string" where
  "evidence_freshness_string EF_Fresh = ''fresh''"
| "evidence_freshness_string EF_Historical = ''historical''"
| "evidence_freshness_string EF_Absent = ''absent''"

fun link_observation_string :: "link_observation \<Rightarrow> string" where
  "link_observation_string LO_Up = ''up''"
| "link_observation_string LO_Down = ''down''"
| "link_observation_string LO_Unknown = ''unknown''"

fun fabric_health_string :: "fabric_health \<Rightarrow> string" where
  "fabric_health_string FH_Operational = ''operational''"
| "fabric_health_string FH_Degraded = ''degraded''"
| "fabric_health_string FH_Draining = ''draining''"
| "fabric_health_string FH_Unformed = ''unformed''"
| "fabric_health_string FH_Retired = ''retired''"
| "fabric_health_string FH_Indeterminate = ''indeterminate''"

fun issue_severity_string :: "issue_severity \<Rightarrow> string" where
  "issue_severity_string IS_Info = ''info''"
| "issue_severity_string IS_Warning = ''warning''"
| "issue_severity_string IS_Error = ''error''"

definition parse_leaf_role :: "string \<Rightarrow> leaf_role option" where
  "parse_leaf_role t =
     (if t = ''access'' then Some LR_Access
      else if t = ''tor'' then Some LR_Tor
      else if t = ''border'' then Some LR_BorderLeaf
      else if t = ''service'' then Some LR_ServiceLeaf
      else None)"

definition parse_spine_role :: "string \<Rightarrow> spine_role option" where
  "parse_spine_role t =
     (if t = ''fabric'' then Some SR_FabricSpine
      else if t = ''super'' then Some SR_SuperSpine
      else None)"

definition parse_node_state :: "string \<Rightarrow> node_state option" where
  "parse_node_state t =
     (if t = ''active'' then Some NS_Active
      else if t = ''maintenance'' then Some NS_Maintenance
      else if t = ''draining'' then Some NS_Draining
      else if t = ''failed'' then Some NS_Failed
      else if t = ''retired'' then Some NS_Retired
      else None)"

definition parse_port_admin :: "string \<Rightarrow> port_admin option" where
  "parse_port_admin t =
     (if t = ''enabled'' \<or> t = ''up'' then Some PA_Enabled
      else if t = ''disabled'' \<or> t = ''down'' then Some PA_Disabled
      else None)"

definition parse_link_admin :: "string \<Rightarrow> link_admin option" where
  "parse_link_admin t =
     (if t = ''enabled'' \<or> t = ''up'' then Some LA_Enabled
      else if t = ''disabled'' \<or> t = ''down'' then Some LA_Disabled
      else None)"

definition parse_fabric_state :: "string \<Rightarrow> fabric_state option" where
  "parse_fabric_state t =
     (if t = ''unformed'' then Some FS_Unformed
      else if t = ''forming'' then Some FS_Forming
      else if t = ''operational'' then Some FS_Operational
      else if t = ''draining'' then Some FS_Draining
      else if t = ''retired'' then Some FS_Retired
      else None)"

definition parse_evidence_policy :: "string \<Rightarrow> evidence_policy option" where
  "parse_evidence_policy t =
     (if t = ''config_only'' then Some EP_ConfigOnly
      else if t = ''require_fresh'' then Some EP_RequireFresh
      else None)"

definition parse_link_observation :: "string \<Rightarrow> link_observation option" where
  "parse_link_observation t =
     (if t = ''up'' then Some LO_Up
      else if t = ''down'' then Some LO_Down
      else if t = ''unknown'' then Some LO_Unknown
      else None)"

text \<open>
  \<open>static_cast<std::uint8_t>\<close> of an enumerator, and the cast back. The readers compare the byte
  with the last enumerator before casting; beyond it the inverse is never used.
\<close>

fun leaf_role_u8 :: "leaf_role \<Rightarrow> u8" where
  "leaf_role_u8 LR_Access = 0"
| "leaf_role_u8 LR_Tor = 1"
| "leaf_role_u8 LR_BorderLeaf = 2"
| "leaf_role_u8 LR_ServiceLeaf = 3"

fun spine_role_u8 :: "spine_role \<Rightarrow> u8" where
  "spine_role_u8 SR_FabricSpine = 0"
| "spine_role_u8 SR_SuperSpine = 1"

fun node_state_u8 :: "node_state \<Rightarrow> u8" where
  "node_state_u8 NS_Active = 0"
| "node_state_u8 NS_Maintenance = 1"
| "node_state_u8 NS_Draining = 2"
| "node_state_u8 NS_Failed = 3"
| "node_state_u8 NS_Retired = 4"

fun port_admin_u8 :: "port_admin \<Rightarrow> u8" where
  "port_admin_u8 PA_Enabled = 0"
| "port_admin_u8 PA_Disabled = 1"

fun link_admin_u8 :: "link_admin \<Rightarrow> u8" where
  "link_admin_u8 LA_Enabled = 0"
| "link_admin_u8 LA_Disabled = 1"

fun link_class_u8 :: "link_class \<Rightarrow> u8" where
  "link_class_u8 LC_LeafSpine = 0"
| "link_class_u8 LC_SameTierPeer = 1"

fun fabric_state_u8 :: "fabric_state \<Rightarrow> u8" where
  "fabric_state_u8 FS_Unformed = 0"
| "fabric_state_u8 FS_Forming = 1"
| "fabric_state_u8 FS_Operational = 2"
| "fabric_state_u8 FS_Draining = 3"
| "fabric_state_u8 FS_Retired = 4"

fun evidence_policy_u8 :: "evidence_policy \<Rightarrow> u8" where
  "evidence_policy_u8 EP_ConfigOnly = 0"
| "evidence_policy_u8 EP_RequireFresh = 1"

fun link_observation_u8 :: "link_observation \<Rightarrow> u8" where
  "link_observation_u8 LO_Up = 0"
| "link_observation_u8 LO_Down = 1"
| "link_observation_u8 LO_Unknown = 2"

fun issue_severity_u8 :: "issue_severity \<Rightarrow> u8" where
  "issue_severity_u8 IS_Info = 0"
| "issue_severity_u8 IS_Warning = 1"
| "issue_severity_u8 IS_Error = 2"

definition leaf_role_of_u8 :: "u8 \<Rightarrow> leaf_role" where
  "leaf_role_of_u8 v = (if v = 0 then LR_Access else if v = 1 then LR_Tor else if v = 2 then LR_BorderLeaf else LR_ServiceLeaf)"

definition spine_role_of_u8 :: "u8 \<Rightarrow> spine_role" where
  "spine_role_of_u8 v = (if v = 0 then SR_FabricSpine else SR_SuperSpine)"

definition node_state_of_u8 :: "u8 \<Rightarrow> node_state" where
  "node_state_of_u8 v = (if v = 0 then NS_Active else if v = 1 then NS_Maintenance else if v = 2 then NS_Draining else if v = 3 then NS_Failed else NS_Retired)"

definition port_admin_of_u8 :: "u8 \<Rightarrow> port_admin" where
  "port_admin_of_u8 v = (if v = 0 then PA_Enabled else PA_Disabled)"

definition link_admin_of_u8 :: "u8 \<Rightarrow> link_admin" where
  "link_admin_of_u8 v = (if v = 0 then LA_Enabled else LA_Disabled)"

definition link_class_of_u8 :: "u8 \<Rightarrow> link_class" where
  "link_class_of_u8 v = (if v = 0 then LC_LeafSpine else LC_SameTierPeer)"

definition fabric_state_of_u8 :: "u8 \<Rightarrow> fabric_state" where
  "fabric_state_of_u8 v = (if v = 0 then FS_Unformed else if v = 1 then FS_Forming else if v = 2 then FS_Operational else if v = 3 then FS_Draining else FS_Retired)"

definition evidence_policy_of_u8 :: "u8 \<Rightarrow> evidence_policy" where
  "evidence_policy_of_u8 v = (if v = 0 then EP_ConfigOnly else EP_RequireFresh)"

definition link_observation_of_u8 :: "u8 \<Rightarrow> link_observation" where
  "link_observation_of_u8 v = (if v = 0 then LO_Up else if v = 1 then LO_Down else LO_Unknown)"

fun tier_u8 :: "tier \<Rightarrow> u8" where
  "tier_u8 Leaf = 0"
| "tier_u8 Spine = 1"

definition tier_of_u8 :: "u8 \<Rightarrow> tier" where
  "tier_of_u8 v = (if v = 0 then Leaf else Spine)"

definition status_code_u16 :: "status_code \<Rightarrow> u16" where
  "status_code_u16 c = of_nat (length (takeWhile (\<lambda>d. d \<noteq> c) all_status_codes))"

definition leaf_role_belongs_to_tier :: "tier \<Rightarrow> leaf_role \<Rightarrow> bool" where
  "leaf_role_belongs_to_tier t role = (t = Leaf)"

definition spine_role_belongs_to_tier :: "tier \<Rightarrow> spine_role \<Rightarrow> bool" where
  "spine_role_belongs_to_tier t role = (t = Spine)"

definition is_peer_capable :: "leaf_role \<Rightarrow> bool" where
  "is_peer_capable role = (role = LR_BorderLeaf \<or> role = LR_ServiceLeaf)"

definition state_is_serving :: "node_state \<Rightarrow> bool" where
  "state_is_serving state = (state = NS_Active)"

section \<open>Records\<close>

record failure_domain_record =
  fd_id :: failure_domain_id
  fd_name :: string
  fd_generation :: topology_generation

record leaf_record =
  lf_id :: leaf_id
  lf_name :: string
  lf_role :: leaf_role
  lf_role_incarnation :: role_incarnation
  lf_domain :: failure_domain_id
  lf_state :: node_state
  lf_access_capacity_mbps :: u64
  lf_access_link_count :: u32
  lf_generation :: topology_generation

record spine_record =
  sp_id :: spine_id
  sp_name :: string
  sp_role :: spine_role
  sp_role_incarnation :: role_incarnation
  sp_domain :: failure_domain_id
  sp_state :: node_state
  sp_fabric_capacity_mbps :: u64
  sp_generation :: topology_generation

record port_record =
  pt_id :: port_id
  pt_owner :: node_key
  pt_speed_mbps :: u64
  pt_admin :: port_admin
  pt_generation :: topology_generation

record link_record =
  lk_id :: link_id
  lk_a :: node_key
  lk_port_a :: port_id
  lk_b :: node_key
  lk_port_b :: port_id
  lk_cls :: link_class
  lk_admin :: link_admin
  lk_declared_speed_mbps :: u64
  lk_generation :: topology_generation

definition link_touches :: "link_record \<Rightarrow> node_key \<Rightarrow> bool" where
  "link_touches l key = (lk_a l = key \<or> lk_b l = key)"

definition link_other :: "link_record \<Rightarrow> node_key \<Rightarrow> node_key" where
  "link_other l key = (if lk_a l = key then lk_b l else lk_a l)"

record link_evidence =
  ev_link :: link_id
  ev_observed :: link_observation
  ev_generation :: topology_generation
  ev_observer :: controller_incarnation
  ev_epoch :: epoch
  ev_observed_seq :: sequence_number
  ev_observed_at_unix_ms :: u64

record fabric_options =
  opt_allow_same_tier_adjacency :: bool
  opt_require_domain_diversity :: bool
  opt_min_eligible_spines :: u32
  opt_evidence_policy :: evidence_policy

definition default_fabric_options :: fabric_options where
  "default_fabric_options = \<lparr>opt_allow_same_tier_adjacency = False,
     opt_require_domain_diversity = False, opt_min_eligible_spines = 1,
     opt_evidence_policy = EP_ConfigOnly\<rparr>"

record builder_limits =
  lim_max_leaves :: u32
  lim_max_spines :: u32
  lim_max_ports :: u32
  lim_max_links :: u32
  lim_max_failure_domains :: u32
  lim_max_evidence_records :: u32
  lim_max_history_records :: u32
  lim_max_name_bytes :: u32
  lim_max_capacity_mbps :: u64

definition default_builder_limits :: builder_limits where
  "default_builder_limits = \<lparr>lim_max_leaves = 4096, lim_max_spines = 1024, lim_max_ports = 65536,
     lim_max_links = 131072, lim_max_failure_domains = 4096, lim_max_evidence_records = 131072,
     lim_max_history_records = 4096, lim_max_name_bytes = 256,
     lim_max_capacity_mbps = 1000000000000\<rparr>"

record validation_issue =
  is_severity :: issue_severity
  is_code :: status_code
  is_where :: string
  is_detail :: string

record validation_report =
  rep_issues :: "validation_issue list"
  rep_leaf_count :: u32
  rep_spine_count :: u32
  rep_port_count :: u32
  rep_link_count :: u32
  rep_domain_count :: u32
  rep_history_count :: u32
  rep_evidence_count :: u32
  rep_error_count :: u32
  rep_warning_count :: u32

definition empty_report :: validation_report where
  "empty_report = \<lparr>rep_issues = [], rep_leaf_count = 0, rep_spine_count = 0, rep_port_count = 0,
     rep_link_count = 0, rep_domain_count = 0, rep_history_count = 0, rep_evidence_count = 0,
     rep_error_count = 0, rep_warning_count = 0\<rparr>"

definition structural_ok :: "validation_report \<Rightarrow> bool" where
  "structural_ok rep = (rep_error_count rep = 0)"

fun issues_have_code :: "status_code \<Rightarrow> validation_issue list \<Rightarrow> bool" where
  "issues_have_code code [] = False"
| "issues_have_code code (i # rest) = (if is_code i = code then True else issues_have_code code rest)"

definition report_has_code :: "validation_report \<Rightarrow> status_code \<Rightarrow> bool" where
  "report_has_code rep code = issues_have_code code (rep_issues rep)"

definition report_summary :: "validation_report \<Rightarrow> string" where
  "report_summary rep =
     (if structural_ok rep then ''structurally valid'' else ''structurally invalid'') @ '': ''
     @ u_string (rep_leaf_count rep) @ '' leaves, '' @ u_string (rep_spine_count rep) @ '' spines, ''
     @ u_string (rep_link_count rep) @ '' links, '' @ u_string (rep_port_count rep) @ '' ports, ''
     @ u_string (rep_domain_count rep) @ '' failure domains, ''
     @ u_string (rep_history_count rep) @ '' historical links, ''
     @ u_string (rep_evidence_count rep) @ '' evidence records; ''
     @ u_string (rep_error_count rep) @ '' error(s), ''
     @ u_string (rep_warning_count rep) @ '' warning(s)''"

definition report_line :: "validation_issue \<Rightarrow> string" where
  "report_line i =
     ''  ['' @ issue_severity_string (is_severity i) @ ''] '' @ is_where i @ '': ''
     @ status_code_string (is_code i)
     @ (if is_detail i \<noteq> [] then '' ('' @ is_detail i @ '')'' else []) @ [CHR 0x0A]"

definition report_string :: "validation_report \<Rightarrow> string" where
  "report_string rep = report_summary rep @ [CHR 0x0A] @ concat (map report_line (rep_issues rep))"

definition issue_absorb :: "validation_issue \<Rightarrow> sha256 \<Rightarrow> sha256" where
  "issue_absorb i s =
     add_string (is_detail i) (add_string (is_where i)
       (add_u16 (status_code_u16 (is_code i)) (add_u8 (issue_severity_u8 (is_severity i)) s)))"

definition report_digest :: "validation_report \<Rightarrow> digest" where
  "report_digest rep =
     sha_finish (fold issue_absorb (rep_issues rep)
       (add_u32 (of_nat (length (rep_issues rep))) (add_string ''slf.report.v1'' sha256_reset)))"

section \<open>Fabric\<close>

record fabric =
  fab_id :: fabric_id
  fab_name :: string
  fab_site :: string
  fab_generation :: topology_generation
  fab_epoch :: epoch
  fab_state :: fabric_state
  fab_options :: fabric_options
  fab_domains :: "failure_domain_record list"
  fab_leaves :: "leaf_record list"
  fab_spines :: "spine_record list"
  fab_ports :: "port_record list"
  fab_links :: "link_record list"
  fab_history_links :: "link_record list"
  fab_evidence :: "link_evidence list"
  fab_topology_digest :: digest
  fab_evidence_digest :: digest

definition fabric_empty :: "fabric \<Rightarrow> bool" where
  "fabric_empty f = (fab_leaves f = [] \<and> fab_spines f = [])"

fun count_if :: "('a \<Rightarrow> bool) \<Rightarrow> 'a list \<Rightarrow> u32 \<Rightarrow> u32" where
  "count_if p [] n = n"
| "count_if p (x # xs) n = count_if p xs (if p x then n + 1 else n)"

definition active_leaf_count :: "fabric \<Rightarrow> u32" where
  "active_leaf_count f = count_if (\<lambda>l. state_is_serving (lf_state l)) (fab_leaves f) 0"

definition active_spine_count :: "fabric \<Rightarrow> u32" where
  "active_spine_count f = count_if (\<lambda>s. state_is_serving (sp_state s)) (fab_spines f) 0"

text \<open>
  The five lookups are one pattern: \<open>std::lower_bound\<close> on the identity, then a check that the
  element found carries the identity asked for.
\<close>

definition table_find :: "('r \<Rightarrow> 'k::linorder) \<Rightarrow> 'r list \<Rightarrow> 'k \<Rightarrow> 'r option" where
  "table_find idf xs key =
     (let i = lower_bound (\<lambda>x. idf x < key) xs in
      if i < length xs \<and> idf (xs ! i) = key then Some (xs ! i) else None)"

definition find_leaf :: "fabric \<Rightarrow> leaf_id \<Rightarrow> leaf_record option" where
  "find_leaf f key = table_find lf_id (fab_leaves f) key"

definition find_spine :: "fabric \<Rightarrow> spine_id \<Rightarrow> spine_record option" where
  "find_spine f key = table_find sp_id (fab_spines f) key"

definition find_port :: "fabric \<Rightarrow> port_id \<Rightarrow> port_record option" where
  "find_port f key = table_find pt_id (fab_ports f) key"

definition find_link :: "fabric \<Rightarrow> link_id \<Rightarrow> link_record option" where
  "find_link f key = table_find lk_id (fab_links f) key"

definition find_domain :: "fabric \<Rightarrow> failure_domain_id \<Rightarrow> failure_domain_record option" where
  "find_domain f key = table_find fd_id (fab_domains f) key"

definition fabric_node_state :: "fabric \<Rightarrow> node_key \<Rightarrow> node_state option" where
  "fabric_node_state f key =
     (if nk_tier key = Leaf
      then (case find_leaf f (nk_index key) of None \<Rightarrow> None | Some leaf \<Rightarrow> Some (lf_state leaf))
      else (case find_spine f (nk_index key) of None \<Rightarrow> None | Some spine \<Rightarrow> Some (sp_state spine)))"

definition node_role_incarnation :: "fabric \<Rightarrow> node_key \<Rightarrow> role_incarnation option" where
  "node_role_incarnation f key =
     (if nk_tier key = Leaf
      then (case find_leaf f (nk_index key) of None \<Rightarrow> None | Some leaf \<Rightarrow> Some (lf_role_incarnation leaf))
      else (case find_spine f (nk_index key) of None \<Rightarrow> None | Some spine \<Rightarrow> Some (sp_role_incarnation spine)))"

definition node_domain :: "fabric \<Rightarrow> node_key \<Rightarrow> failure_domain_id option" where
  "node_domain f key =
     (if nk_tier key = Leaf
      then (case find_leaf f (nk_index key) of None \<Rightarrow> None | Some leaf \<Rightarrow> Some (lf_domain leaf))
      else (case find_spine f (nk_index key) of None \<Rightarrow> None | Some spine \<Rightarrow> Some (sp_domain spine)))"

definition node_name :: "fabric \<Rightarrow> node_key \<Rightarrow> string option" where
  "node_name f key =
     (if nk_tier key = Leaf
      then (case find_leaf f (nk_index key) of None \<Rightarrow> None | Some leaf \<Rightarrow> Some (lf_name leaf))
      else (case find_spine f (nk_index key) of None \<Rightarrow> None | Some spine \<Rightarrow> Some (sp_name spine)))"

definition node_nominal_capacity_mbps :: "fabric \<Rightarrow> node_key \<Rightarrow> u64 option" where
  "node_nominal_capacity_mbps f key =
     (if nk_tier key = Leaf
      then (case find_leaf f (nk_index key) of None \<Rightarrow> None | Some leaf \<Rightarrow> Some (lf_access_capacity_mbps leaf))
      else (case find_spine f (nk_index key) of None \<Rightarrow> None | Some spine \<Rightarrow> Some (sp_fabric_capacity_mbps spine)))"

definition effective_link_speed_mbps :: "fabric \<Rightarrow> link_record \<Rightarrow> u64 option" where
  "effective_link_speed_mbps f l =
     (case (find_port f (lk_port_a l), find_port f (lk_port_b l)) of
        (Some pa, Some pb) \<Rightarrow>
          if lk_declared_speed_mbps l \<noteq> 0 then Some (lk_declared_speed_mbps l)
          else Some (if pt_speed_mbps pa < pt_speed_mbps pb then pt_speed_mbps pa else pt_speed_mbps pb)
      | _ \<Rightarrow> None)"

fun best_evidence :: "link_id \<Rightarrow> link_evidence option \<Rightarrow> link_evidence list \<Rightarrow> link_evidence option" where
  "best_evidence l best [] = best"
| "best_evidence l best (rec # rest) =
     (if ev_link rec \<noteq> l then best_evidence l best rest
      else case best of
             None \<Rightarrow> best_evidence l (Some rec) rest
           | Some b \<Rightarrow>
               if ev_observed_seq b < ev_observed_seq rec then best_evidence l (Some rec) rest
               else if ev_observed_seq b = ev_observed_seq rec \<and> ev_generation b < ev_generation rec
               then best_evidence l (Some rec) rest
               else best_evidence l best rest)"

fun evidence_conflict :: "link_id \<Rightarrow> link_evidence \<Rightarrow> link_evidence list \<Rightarrow> bool" where
  "evidence_conflict l best [] = False"
| "evidence_conflict l best (rec # rest) =
     (if ev_link rec \<noteq> l then evidence_conflict l best rest
      else if ev_observed_seq rec = ev_observed_seq best \<and> ev_generation rec = ev_generation best
              \<and> rec \<noteq> best
      then True
      else evidence_conflict l best rest)"

definition evidence_for :: "fabric \<Rightarrow> link_id \<Rightarrow> link_evidence outcome" where
  "evidence_for f l =
     (case best_evidence l None (fab_evidence f) of
        None \<Rightarrow> Inl (Status SC_NotFound ''no evidence recorded for the link'')
      | Some best \<Rightarrow>
          if evidence_conflict l best (fab_evidence f)
          then Inl (Status SC_Conflicting
                 ''two evidence records share the same observation sequence and generation'')
          else Inr best)"

definition fabric_evidence_freshness ::
  "fabric \<Rightarrow> link_evidence \<Rightarrow> controller_incarnation \<Rightarrow> epoch \<Rightarrow> evidence_freshness" where
  "fabric_evidence_freshness f rec controller observed_epoch =
     (if ev_observer rec \<noteq> controller \<or> ev_generation rec \<noteq> fab_generation f
         \<or> ev_epoch rec \<noteq> observed_epoch
      then EF_Historical else EF_Fresh)"

section \<open>Renderings and parsers of the enumerations\<close>

lemma enum_parse_print:
  "parse_leaf_role (leaf_role_string r1) = Some r1"
  "parse_spine_role (spine_role_string r2) = Some r2"
  "parse_node_state (node_state_string r3) = Some r3"
  "parse_port_admin (port_admin_string r4) = Some r4"
  "parse_link_admin (link_admin_string r5) = Some r5"
  "parse_fabric_state (fabric_state_string r6) = Some r6"
  "parse_evidence_policy (evidence_policy_string r7) = Some r7"
  "parse_link_observation (link_observation_string r8) = Some r8"
  by goal_cases
    ((cases r1; simp add: parse_leaf_role_def),
     (cases r2; simp add: parse_spine_role_def),
     (cases r3; simp add: parse_node_state_def),
     (cases r4; simp add: parse_port_admin_def),
     (cases r5; simp add: parse_link_admin_def),
     (cases r6; simp add: parse_fabric_state_def),
     (cases r7; simp add: parse_evidence_policy_def),
     (cases r8; simp add: parse_link_observation_def))

lemma enum_u8_inverse [simp]:
  "leaf_role_of_u8 (leaf_role_u8 r1) = r1" "spine_role_of_u8 (spine_role_u8 r2) = r2"
  "node_state_of_u8 (node_state_u8 r3) = r3" "port_admin_of_u8 (port_admin_u8 r4) = r4"
  "link_admin_of_u8 (link_admin_u8 r5) = r5" "link_class_of_u8 (link_class_u8 r6) = r6"
  "fabric_state_of_u8 (fabric_state_u8 r7) = r7" "evidence_policy_of_u8 (evidence_policy_u8 r8) = r8"
  "link_observation_of_u8 (link_observation_u8 r9) = r9" "tier_of_u8 (tier_u8 t) = t"
  by goal_cases
    ((cases r1; simp add: leaf_role_of_u8_def),
     (cases r2; simp add: spine_role_of_u8_def),
     (cases r3; simp add: node_state_of_u8_def),
     (cases r4; simp add: port_admin_of_u8_def),
     (cases r5; simp add: link_admin_of_u8_def),
     (cases r6; simp add: link_class_of_u8_def),
     (cases r7; simp add: fabric_state_of_u8_def),
     (cases r8; simp add: evidence_policy_of_u8_def),
     (cases r9; simp add: link_observation_of_u8_def),
     (cases t; simp add: tier_of_u8_def))

lemma enum_u8_bounds [simp]:
  "leaf_role_u8 r1 \<le> 3" "spine_role_u8 r2 \<le> 1" "node_state_u8 r3 \<le> 4" "port_admin_u8 r4 \<le> 1"
  "link_admin_u8 r5 \<le> 1" "link_class_u8 r6 \<le> 1" "fabric_state_u8 r7 \<le> 4"
  "evidence_policy_u8 r8 \<le> 1" "link_observation_u8 r9 \<le> 2" "tier_u8 t \<le> 1"
  by goal_cases
    ((cases r1; simp),
     (cases r2; simp),
     (cases r3; simp),
     (cases r4; simp),
     (cases r5; simp),
     (cases r6; simp),
     (cases r7; simp),
     (cases r8; simp),
     (cases r9; simp),
     (cases t; simp))

section \<open>Lookups\<close>

text \<open>
  A table sorted strictly by identity. What the clients of the lookups use: a record found has
  the identity asked for and is in the table, and every record of the table is found.
\<close>

locale record_table =
  fixes idf :: "'r \<Rightarrow> 'k::linorder"
    and find :: "'r list \<Rightarrow> 'k \<Rightarrow> 'r option"
  assumes find_iff: "sorted_wrt (<) (map idf xs) \<Longrightarrow> find xs k = Some x \<longleftrightarrow> x \<in> set xs \<and> idf x = k"
begin

lemma find_member: "sorted_wrt (<) (map idf xs) \<Longrightarrow> x \<in> set xs \<Longrightarrow> find xs (idf x) = Some x"
  by (simp add: find_iff)

lemma find_none: "sorted_wrt (<) (map idf xs) \<Longrightarrow> find xs k = None \<longleftrightarrow> k \<notin> idf ` set xs"
  using find_iff [of xs k] by (metis image_iff not_None_eq)

lemma find_unique:
  "sorted_wrt (<) (map idf xs) \<Longrightarrow> x \<in> set xs \<Longrightarrow> y \<in> set xs \<Longrightarrow> idf x = idf y \<Longrightarrow> x = y"
  using find_member by (metis option.inject)

lemma find_map_of:
  "sorted_wrt (<) (map idf xs) \<Longrightarrow> find xs k = map_of (map (\<lambda>x. (idf x, x)) xs) k"
proof -
  assume s: "sorted_wrt (<) (map idf xs)"
  then have d: "distinct (map fst (map (\<lambda>x. (idf x, x)) xs))"
    by (simp add: comp_def strict_sorted_iff)
  show ?thesis
  proof (cases "find xs k")
    case None
    with s have "k \<notin> fst ` set (map (\<lambda>x. (idf x, x)) xs)" by (simp add: find_none image_image)
    with None show ?thesis by (metis map_of_eq_None_iff)
  next
    case (Some x)
    with s have "x \<in> set xs" "idf x = k" by (auto simp: find_iff)
    with d have "map_of (map (\<lambda>x. (idf x, x)) xs) k = Some x"
      by (intro map_of_is_SomeI) auto
    with Some show ?thesis by simp
  qed
qed

end

lemma table_find_iff:
  fixes idf :: "'r \<Rightarrow> 'k::linorder"
  assumes "sorted_wrt (<) (map idf xs)"
  shows "table_find idf xs k = Some x \<longleftrightarrow> x \<in> set xs \<and> idf x = k"
proof -
  let ?p = "\<lambda>x. idf x < k"
  let ?t = "length (takeWhile ?p xs)"
  have ord: "idf (xs ! i) < idf (xs ! j)" if "i < j" "j < length xs" for i j
    using assms that by (simp add: sorted_wrt_iff_nth_less)
  then have lb: "lower_bound ?p xs = ?t"
    by (intro lower_bound_partitioned) (metis order_less_trans)
  have "xs ! ?t = x \<and> ?t < length xs" if "x \<in> set xs" "idf x = k"
  proof -
    from that obtain i where i: "i < length xs" "xs ! i = x" by (metis in_set_conv_nth)
    have "takeWhile ?p xs = take i xs"
    proof (rule takeWhile_eq_take_P_nth)
      show "idf (xs ! j) < k" if "j < i" "j < length xs" for j
        using ord [OF that(1) i(1)] i that \<open>idf x = k\<close> by simp
    qed (use i that in simp)
    with i show ?thesis by simp
  qed
  then show ?thesis unfolding table_find_def Let_def lb by (auto split: if_splits)
qed

interpretation leaf_table: record_table lf_id "table_find lf_id"
  by unfold_locales (rule table_find_iff)

interpretation spine_table: record_table sp_id "table_find sp_id"
  by unfold_locales (rule table_find_iff)

interpretation port_table: record_table pt_id "table_find pt_id"
  by unfold_locales (rule table_find_iff)

interpretation link_table: record_table lk_id "table_find lk_id"
  by unfold_locales (rule table_find_iff)

interpretation domain_table: record_table fd_id "table_find fd_id"
  by unfold_locales (rule table_find_iff)

definition tables_sorted :: "fabric \<Rightarrow> bool" where
  "tables_sorted f \<longleftrightarrow>
     sorted_wrt (<) (map fd_id (fab_domains f)) \<and> sorted_wrt (<) (map lf_id (fab_leaves f))
     \<and> sorted_wrt (<) (map sp_id (fab_spines f)) \<and> sorted_wrt (<) (map pt_id (fab_ports f))
     \<and> sorted_wrt (<) (map lk_id (fab_links f)) \<and> sorted_wrt (<) (map lk_id (fab_history_links f))"

section \<open>Evidence selection\<close>

text \<open>The order in which \<open>evidence_for\<close> prefers records: later sequence, then later generation.\<close>

definition evidence_rank :: "link_evidence \<Rightarrow> u64 \<times> u64" where
  "evidence_rank r = (ev_observed_seq r, ev_generation r)"

definition rank_le :: "u64 \<times> u64 \<Rightarrow> u64 \<times> u64 \<Rightarrow> bool" where
  "rank_le p q \<longleftrightarrow> fst p < fst q \<or> (fst p = fst q \<and> snd p \<le> snd q)"

lemma rank_le_refl [simp]: "rank_le p p"
  by (simp add: rank_le_def)

lemma rank_le_trans: "rank_le p q \<Longrightarrow> rank_le q r \<Longrightarrow> rank_le p r"
  by (auto simp: rank_le_def)

lemma rank_le_antisym: "rank_le p q \<Longrightarrow> rank_le q p \<Longrightarrow> p = q"
  by (auto simp: rank_le_def prod_eq_iff)

lemma best_evidence_some:
  "best_evidence l (Some b) rs = Some r \<Longrightarrow>
     (r = b \<or> (r \<in> set rs \<and> ev_link r = l)) \<and> rank_le (evidence_rank b) (evidence_rank r)
     \<and> (\<forall>q\<in>set rs. ev_link q = l \<longrightarrow> rank_le (evidence_rank q) (evidence_rank r))"
proof (induction rs arbitrary: b)
  case (Cons q rs)
  let ?better = "ev_observed_seq b < ev_observed_seq q
    \<or> (ev_observed_seq b = ev_observed_seq q \<and> ev_generation b < ev_generation q)"
  show ?case
  proof (cases "ev_link q = l \<and> ?better")
    case True
    then have "best_evidence l (Some q) rs = Some r" using Cons.prems by (auto split: if_splits)
    from Cons.IH [OF this] True show ?thesis
      using rank_le_trans [of "evidence_rank b" "evidence_rank q" "evidence_rank r"]
      by (auto simp: rank_le_def evidence_rank_def)
  next
    case False
    then have "best_evidence l (Some b) rs = Some r" using Cons.prems by (auto split: if_splits)
    moreover have "ev_link q = l \<Longrightarrow> rank_le (evidence_rank q) (evidence_rank b)"
      using False by (auto simp: rank_le_def evidence_rank_def not_less)
    ultimately show ?thesis using Cons.IH rank_le_trans by fastforce
  qed
qed simp

lemma best_evidence_total: "\<exists>r. best_evidence l (Some b) rs = Some r"
  by (induction rs arbitrary: b) auto

lemma best_evidence_none: "best_evidence l None rs = None \<longleftrightarrow> (\<forall>r\<in>set rs. ev_link r \<noteq> l)"
proof (induction rs)
  case (Cons q rs)
  then show ?case using best_evidence_total [of l q rs] by auto
qed simp

lemma best_evidence_best:
  "best_evidence l None rs = Some r \<Longrightarrow>
     r \<in> set rs \<and> ev_link r = l \<and> (\<forall>q\<in>set rs. ev_link q = l \<longrightarrow> rank_le (evidence_rank q) (evidence_rank r))"
proof (induction rs)
  case (Cons q rs)
  then show ?case using best_evidence_some [of l q rs r] by (auto split: if_splits)
qed simp

lemma evidence_conflict_iff:
  "evidence_conflict l b rs \<longleftrightarrow>
     (\<exists>q\<in>set rs. ev_link q = l \<and> evidence_rank q = evidence_rank b \<and> q \<noteq> b)"
  by (induction rs) (auto simp: evidence_rank_def)

text \<open>\<open>evidence_for\<close> decides exactly when one record outranks every other record of the link.\<close>

lemma evidence_for_unique_best:
  "evidence_for f l = Inr r \<longleftrightarrow>
     r \<in> set (fab_evidence f) \<and> ev_link r = l
     \<and> (\<forall>q\<in>set (fab_evidence f). ev_link q = l \<longrightarrow> q \<noteq> r \<longrightarrow>
           rank_le (evidence_rank q) (evidence_rank r) \<and> evidence_rank q \<noteq> evidence_rank r)"
  (is "_ \<longleftrightarrow> ?unique")
proof
  assume "evidence_for f l = Inr r"
  then have b: "best_evidence l None (fab_evidence f) = Some r"
    and "\<not> evidence_conflict l r (fab_evidence f)"
    by (auto simp: evidence_for_def split: option.splits if_splits)
  with best_evidence_best [OF b] show ?unique by (auto simp: evidence_conflict_iff)
next
  assume u: ?unique
  then obtain b where b: "best_evidence l None (fab_evidence f) = Some b"
    using best_evidence_none [of l "fab_evidence f"] by fastforce
  have "b = r" using best_evidence_best [OF b] u rank_le_antisym by blast
  moreover have "\<not> evidence_conflict l r (fab_evidence f)"
    using u by (auto simp: evidence_conflict_iff)
  ultimately show "evidence_for f l = Inr r" using b by (simp add: evidence_for_def)
qed

lemma fresh_iff:
  "fabric_evidence_freshness f r c e = EF_Fresh \<longleftrightarrow>
     ev_observer r = c \<and> ev_generation r = fab_generation f \<and> ev_epoch r = e"
  by (simp add: fabric_evidence_freshness_def)

lemma count_if_exact: "count_if p xs n = n + of_nat (length (filter p xs))"
  by (induction xs arbitrary: n) simp_all

section \<open>Properties\<close>

definition outranks :: "link_evidence \<Rightarrow> link_evidence \<Rightarrow> bool" where
  "outranks r q \<longleftrightarrow> rank_le (evidence_rank q) (evidence_rank r) \<and> evidence_rank q \<noteq> evidence_rank r"

text \<open>
  \<open>evidence_for\<close> decides a link from evidence only when one record is strictly newer, by
  observation sequence and then generation, than every other record of the link; ties and absence
  are errors.
\<close>

theorem evidence_for_decides:
  "outcome_ok (evidence_for f l) \<longleftrightarrow>
     (\<exists>r. r \<in> set (fab_evidence f) \<and> ev_link r = l
       \<and> filter (\<lambda>q. ev_link q = l \<and> q \<noteq> r \<and> \<not> outranks r q) (fab_evidence f) = [])"
  unfolding outcome_ok_iff evidence_for_unique_best filter_empty_conv outranks_def by blast

end
