(* ===== verification/SLF_Encode.thy ===== *)
theory SLF_Encode
  imports SLF_Model
begin

text \<open>
  Canonical encoding of a fabric (\<open>src/model.cpp\<close>, canonical encoding, digests, serialization
  and description). The encoders are sequences of writer calls whose statuses are dropped, as in
  the source. Each record has a reference encoding; the readers of \<open>deserialize_fabric\<close> invert
  it, as interpretations of the locale \<open>codec\<close>.
\<close>

definition kTopologyDomain :: string where
  "kTopologyDomain = ''slf.topology.v1''"

definition kEvidenceDomain :: string where
  "kEvidenceDomain = ''slf.evidence.v1''"

definition kPersistenceFormatVersion :: u32 where
  "kPersistenceFormatVersion = 1"

definition bool_text :: "bool \<Rightarrow> string" where
  "bool_text b = (if b then ''true'' else ''false'')"

type_synonym put = "byte_writer \<Rightarrow> status \<times> byte_writer"

definition puts :: "put list \<Rightarrow> byte_writer \<Rightarrow> byte_writer" where
  "puts ps w = fold (\<lambda>p w. snd (p w)) ps w"

definition bool_u8 :: "bool \<Rightarrow> u8" where
  "bool_u8 b = (if b then 1 else 0)"

definition header_puts :: "fabric \<Rightarrow> put list" where
  "header_puts f =
     [bw_string kTopologyDomain, bw_u64 (fab_id f), bw_string (fab_name f), bw_string (fab_site f),
      bw_u64 (fab_generation f), bw_u64 (fab_epoch f), bw_u8 (fabric_state_u8 (fab_state f)),
      bw_u8 (bool_u8 (opt_allow_same_tier_adjacency (fab_options f))),
      bw_u8 (bool_u8 (opt_require_domain_diversity (fab_options f))),
      bw_u32 (opt_min_eligible_spines (fab_options f)),
      bw_u8 (evidence_policy_u8 (opt_evidence_policy (fab_options f)))]"

definition domain_puts :: "failure_domain_record \<Rightarrow> put list" where
  "domain_puts d = [bw_u32 (fd_id d), bw_string (fd_name d), bw_u64 (fd_generation d)]"

definition leaf_puts :: "leaf_record \<Rightarrow> put list" where
  "leaf_puts l =
     [bw_u32 (lf_id l), bw_string (lf_name l), bw_u8 (leaf_role_u8 (lf_role l)),
      bw_u64 (lf_role_incarnation l), bw_u32 (lf_domain l), bw_u8 (node_state_u8 (lf_state l)),
      bw_u64 (lf_access_capacity_mbps l), bw_u32 (lf_access_link_count l), bw_u64 (lf_generation l)]"

definition spine_puts :: "spine_record \<Rightarrow> put list" where
  "spine_puts s =
     [bw_u32 (sp_id s), bw_string (sp_name s), bw_u8 (spine_role_u8 (sp_role s)),
      bw_u64 (sp_role_incarnation s), bw_u32 (sp_domain s), bw_u8 (node_state_u8 (sp_state s)),
      bw_u64 (sp_fabric_capacity_mbps s), bw_u64 (sp_generation s)]"

definition port_puts :: "port_record \<Rightarrow> put list" where
  "port_puts p =
     [bw_u32 (pt_id p), bw_u8 (tier_u8 (nk_tier (pt_owner p))), bw_u32 (nk_index (pt_owner p)),
      bw_u64 (pt_speed_mbps p), bw_u8 (port_admin_u8 (pt_admin p)), bw_u64 (pt_generation p)]"

definition link_puts :: "link_record \<Rightarrow> put list" where
  "link_puts l =
     [bw_u32 (lk_id l), bw_u8 (tier_u8 (nk_tier (lk_a l))), bw_u32 (nk_index (lk_a l)),
      bw_u32 (lk_port_a l), bw_u8 (tier_u8 (nk_tier (lk_b l))), bw_u32 (nk_index (lk_b l)),
      bw_u32 (lk_port_b l), bw_u8 (link_class_u8 (lk_cls l)), bw_u8 (link_admin_u8 (lk_admin l)),
      bw_u64 (lk_declared_speed_mbps l), bw_u64 (lk_generation l)]"

definition evidence_puts :: "link_evidence \<Rightarrow> put list" where
  "evidence_puts e =
     [bw_u32 (ev_link e), bw_u8 (link_observation_u8 (ev_observed e)), bw_u64 (ev_generation e),
      bw_u64 (inc_hi (ev_observer e)), bw_u64 (inc_lo (ev_observer e)), bw_u64 (ev_epoch e),
      bw_u64 (ev_observed_seq e), bw_u64 (ev_observed_at_unix_ms e)]"

text \<open>A record vector is its size as \<open>u32\<close> followed by its records.\<close>

definition table_puts :: "('r \<Rightarrow> put list) \<Rightarrow> 'r list \<Rightarrow> put list" where
  "table_puts each xs = bw_u32 (of_nat (length xs)) # concat (map each xs)"

definition topology_puts :: "fabric \<Rightarrow> put list" where
  "topology_puts f =
     header_puts f @ table_puts domain_puts (fab_domains f) @ table_puts leaf_puts (fab_leaves f)
     @ table_puts spine_puts (fab_spines f) @ table_puts port_puts (fab_ports f)
     @ table_puts link_puts (fab_links f) @ table_puts link_puts (fab_history_links f)"

definition canonical_topology_bytes :: "fabric \<Rightarrow> bytes" where
  "canonical_topology_bytes f = bw_buffer (puts (topology_puts f) (new_writer kDefaultMaxBytes))"

definition evidence_block_puts :: "fabric \<Rightarrow> put list" where
  "evidence_block_puts f =
     [bw_string kEvidenceDomain, bw_u64 (fab_generation f)] @ table_puts evidence_puts (fab_evidence f)"

definition canonical_evidence_bytes :: "fabric \<Rightarrow> bytes" where
  "canonical_evidence_bytes f = bw_buffer (puts (evidence_block_puts f) (new_writer kDefaultMaxBytes))"

definition compute_digests :: "fabric \<Rightarrow> digest \<times> digest" where
  "compute_digests f =
     (digest_of (canonical_topology_bytes f),
      if fab_evidence f = [] then zero_digest else digest_of (canonical_evidence_bytes f))"

definition serialize_fabric :: "fabric \<Rightarrow> bytes" where
  "serialize_fabric f =
     bw_buffer (puts [bw_u32 kPersistenceFormatVersion, bw_block (canonical_topology_bytes f),
                      bw_block (canonical_evidence_bytes f)] (new_writer kDefaultMaxBytes))"

section \<open>Description\<close>

definition describe_domain :: "failure_domain_record \<Rightarrow> string" where
  "describe_domain d =
     ''    '' @ domain_id_string (fd_id d) @ '' name='' @ [CHR 0x22] @ fd_name d @ [CHR 0x22]
     @ '' generation='' @ u_string (fd_generation d) @ [CHR 0x0A]"

definition describe_leaf :: "leaf_record \<Rightarrow> string" where
  "describe_leaf l =
     ''    '' @ leaf_id_string (lf_id l) @ '' name='' @ [CHR 0x22] @ lf_name l @ [CHR 0x22]
     @ '' role='' @ leaf_role_string (lf_role l) @ '' state='' @ node_state_string (lf_state l)
     @ '' domain='' @ u_string (lf_domain l) @ '' role_incarnation='' @ u_string (lf_role_incarnation l)
     @ '' access_mbps='' @ u_string (lf_access_capacity_mbps l) @ [CHR 0x0A]"

definition describe_spine :: "spine_record \<Rightarrow> string" where
  "describe_spine s =
     ''    '' @ spine_id_string (sp_id s) @ '' name='' @ [CHR 0x22] @ sp_name s @ [CHR 0x22]
     @ '' role='' @ spine_role_string (sp_role s) @ '' state='' @ node_state_string (sp_state s)
     @ '' domain='' @ u_string (sp_domain s) @ '' role_incarnation='' @ u_string (sp_role_incarnation s)
     @ '' fabric_mbps='' @ u_string (sp_fabric_capacity_mbps s) @ [CHR 0x0A]"

definition describe_link :: "fabric \<Rightarrow> link_record \<Rightarrow> string" where
  "describe_link f l =
     ''    '' @ link_id_string (lk_id l) @ '' '' @ node_key_string (lk_a l) @ '':'' @ u_string (lk_port_a l)
     @ '' <-> '' @ node_key_string (lk_b l) @ '':'' @ u_string (lk_port_b l)
     @ '' class='' @ link_class_string (lk_cls l) @ '' admin='' @ link_admin_string (lk_admin l)
     @ '' speed_mbps=''
     @ (case effective_link_speed_mbps f l of Some speed \<Rightarrow> u_string speed | None \<Rightarrow> ''unresolved'')
     @ [CHR 0x0A]"

definition describe_fabric :: "fabric \<Rightarrow> string" where
  "describe_fabric f =
     ''fabric '' @ fabric_id_string (fab_id f) @ '' '' @ [CHR 0x22] @ fab_name f @ [CHR 0x22]
     @ (if fab_site f \<noteq> [] then '' site='' @ [CHR 0x22] @ fab_site f @ [CHR 0x22] else [])
     @ [CHR 0x0A]
     @ ''  generation='' @ u_string (fab_generation f) @ '' epoch='' @ u_string (fab_epoch f)
     @ '' state='' @ fabric_state_string (fab_state f) @ [CHR 0x0A]
     @ ''  options: allow_same_tier_adjacency='' @ bool_text (opt_allow_same_tier_adjacency (fab_options f))
     @ '' require_domain_diversity='' @ bool_text (opt_require_domain_diversity (fab_options f))
     @ '' min_eligible_spines='' @ u_string (opt_min_eligible_spines (fab_options f))
     @ '' evidence_policy='' @ evidence_policy_string (opt_evidence_policy (fab_options f)) @ [CHR 0x0A]
     @ ''  topology_digest='' @ digest_short_hex (fab_topology_digest f) 16
     @ '' evidence_digest=''
     @ (if fab_evidence f = [] then ''none'' else digest_short_hex (fab_evidence_digest f) 16) @ [CHR 0x0A]
     @ ''  failure domains ('' @ dec_string (length (fab_domains f)) @ ''):'' @ [CHR 0x0A]
     @ concat (map describe_domain (fab_domains f))
     @ ''  leaves ('' @ dec_string (length (fab_leaves f)) @ ''):'' @ [CHR 0x0A]
     @ concat (map describe_leaf (fab_leaves f))
     @ ''  spines ('' @ dec_string (length (fab_spines f)) @ ''):'' @ [CHR 0x0A]
     @ concat (map describe_spine (fab_spines f))
     @ ''  ports ('' @ dec_string (length (fab_ports f)) @ '') links ('' @ dec_string (length (fab_links f))
     @ '') historical links ('' @ dec_string (length (fab_history_links f)) @ '') evidence (''
     @ dec_string (length (fab_evidence f)) @ '')'' @ [CHR 0x0A]
     @ concat (map (describe_link f) (fab_links f))"

section \<open>Record readers\<close>

text \<open>
  The loop bodies of \<open>deserialize_fabric\<close>, up to the call that adds the record. All fields are
  read before any outcome is tested, as in the source.
\<close>

definition read_domain :: "byte_reader \<Rightarrow> failure_domain_record outcome \<times> byte_reader" where
  "read_domain r0 =
     (let (ident, r1) = br_u32 r0; (name, r2) = br_string r1; (gen, r3) = br_u64 r2 in
      (if \<not> outcome_ok ident \<or> \<not> outcome_ok name \<or> \<not> outcome_ok gen
       then Inl (Status SC_Truncated ''failure domain record is incomplete'')
       else Inr \<lparr>fd_id = projr ident, fd_name = projr name, fd_generation = projr gen\<rparr>, r3))"

definition read_leaf :: "byte_reader \<Rightarrow> leaf_record outcome \<times> byte_reader" where
  "read_leaf r0 =
     (let (ident, r1) = br_u32 r0; (name, r2) = br_string r1; (role, r3) = br_u8 r2;
          (inc, r4) = br_u64 r3; (dom, r5) = br_u32 r4; (state, r6) = br_u8 r5;
          (cap, r7) = br_u64 r6; (access, r8) = br_u32 r7; (gen, r9) = br_u64 r8 in
      (if \<not> outcome_ok ident \<or> \<not> outcome_ok name \<or> \<not> outcome_ok role \<or> \<not> outcome_ok inc
          \<or> \<not> outcome_ok dom \<or> \<not> outcome_ok state \<or> \<not> outcome_ok cap \<or> \<not> outcome_ok access
          \<or> \<not> outcome_ok gen
       then Inl (Status SC_Truncated ''leaf record is incomplete'')
       else if projr role > leaf_role_u8 LR_ServiceLeaf \<or> projr state > node_state_u8 NS_Retired
       then Inl (Status SC_Invalid ''leaf record carries an unknown enumeration value'')
       else Inr \<lparr>lf_id = projr ident, lf_name = projr name, lf_role = leaf_role_of_u8 (projr role),
              lf_role_incarnation = projr inc, lf_domain = projr dom,
              lf_state = node_state_of_u8 (projr state), lf_access_capacity_mbps = projr cap,
              lf_access_link_count = projr access, lf_generation = projr gen\<rparr>, r9))"

definition read_spine :: "byte_reader \<Rightarrow> spine_record outcome \<times> byte_reader" where
  "read_spine r0 =
     (let (ident, r1) = br_u32 r0; (name, r2) = br_string r1; (role, r3) = br_u8 r2;
          (inc, r4) = br_u64 r3; (dom, r5) = br_u32 r4; (state, r6) = br_u8 r5;
          (cap, r7) = br_u64 r6; (gen, r8) = br_u64 r7 in
      (if \<not> outcome_ok ident \<or> \<not> outcome_ok name \<or> \<not> outcome_ok role \<or> \<not> outcome_ok inc
          \<or> \<not> outcome_ok dom \<or> \<not> outcome_ok state \<or> \<not> outcome_ok cap \<or> \<not> outcome_ok gen
       then Inl (Status SC_Truncated ''spine record is incomplete'')
       else if projr role > spine_role_u8 SR_SuperSpine \<or> projr state > node_state_u8 NS_Retired
       then Inl (Status SC_Invalid ''spine record carries an unknown enumeration value'')
       else Inr \<lparr>sp_id = projr ident, sp_name = projr name, sp_role = spine_role_of_u8 (projr role),
              sp_role_incarnation = projr inc, sp_domain = projr dom,
              sp_state = node_state_of_u8 (projr state), sp_fabric_capacity_mbps = projr cap,
              sp_generation = projr gen\<rparr>, r8))"

definition read_port :: "byte_reader \<Rightarrow> port_record outcome \<times> byte_reader" where
  "read_port r0 =
     (let (ident, r1) = br_u32 r0; (tr, r2) = br_u8 r1; (idx, r3) = br_u32 r2;
          (speed, r4) = br_u64 r3; (adm, r5) = br_u8 r4; (gen, r6) = br_u64 r5 in
      (if \<not> outcome_ok ident \<or> \<not> outcome_ok tr \<or> \<not> outcome_ok idx \<or> \<not> outcome_ok speed
          \<or> \<not> outcome_ok adm \<or> \<not> outcome_ok gen
       then Inl (Status SC_Truncated ''port record is incomplete'')
       else if projr tr > tier_u8 Spine \<or> projr adm > port_admin_u8 PA_Disabled
       then Inl (Status SC_Invalid ''port record carries an unknown enumeration value'')
       else Inr \<lparr>pt_id = projr ident, pt_owner = NodeKey (tier_of_u8 (projr tr)) (projr idx),
              pt_speed_mbps = projr speed, pt_admin = port_admin_of_u8 (projr adm),
              pt_generation = projr gen\<rparr>, r6))"

definition read_link :: "byte_reader \<Rightarrow> link_record outcome \<times> byte_reader" where
  "read_link r0 =
     (let (ident, r1) = br_u32 r0; (a_tier, r2) = br_u8 r1; (a_index, r3) = br_u32 r2;
          (port_a, r4) = br_u32 r3; (b_tier, r5) = br_u8 r4; (b_index, r6) = br_u32 r5;
          (port_b, r7) = br_u32 r6; (cls, r8) = br_u8 r7; (adm, r9) = br_u8 r8;
          (declared, r10) = br_u64 r9; (gen, r11) = br_u64 r10 in
      (if \<not> outcome_ok ident \<or> \<not> outcome_ok a_tier \<or> \<not> outcome_ok a_index \<or> \<not> outcome_ok port_a
          \<or> \<not> outcome_ok b_tier \<or> \<not> outcome_ok b_index \<or> \<not> outcome_ok port_b \<or> \<not> outcome_ok cls
          \<or> \<not> outcome_ok adm \<or> \<not> outcome_ok declared \<or> \<not> outcome_ok gen
       then Inl (Status SC_Truncated ''link record is incomplete'')
       else if projr a_tier > tier_u8 Spine \<or> projr b_tier > tier_u8 Spine
               \<or> projr cls > link_class_u8 LC_SameTierPeer \<or> projr adm > link_admin_u8 LA_Disabled
       then Inl (Status SC_Invalid ''link record carries an unknown enumeration value'')
       else Inr \<lparr>lk_id = projr ident, lk_a = NodeKey (tier_of_u8 (projr a_tier)) (projr a_index),
              lk_port_a = projr port_a, lk_b = NodeKey (tier_of_u8 (projr b_tier)) (projr b_index),
              lk_port_b = projr port_b, lk_cls = link_class_of_u8 (projr cls),
              lk_admin = link_admin_of_u8 (projr adm), lk_declared_speed_mbps = projr declared,
              lk_generation = projr gen\<rparr>, r11))"

definition read_evidence :: "byte_reader \<Rightarrow> link_evidence outcome \<times> byte_reader" where
  "read_evidence r0 =
     (let (lnk, r1) = br_u32 r0; (obs, r2) = br_u8 r1; (gen, r3) = br_u64 r2;
          (hi, r4) = br_u64 r3; (lo, r5) = br_u64 r4; (ep, r6) = br_u64 r5;
          (sq, r7) = br_u64 r6; (at_ms, r8) = br_u64 r7 in
      (if \<not> outcome_ok lnk \<or> \<not> outcome_ok obs \<or> \<not> outcome_ok gen \<or> \<not> outcome_ok hi
          \<or> \<not> outcome_ok lo \<or> \<not> outcome_ok ep \<or> \<not> outcome_ok sq \<or> \<not> outcome_ok at_ms
       then Inl (Status SC_Truncated ''evidence record is incomplete'')
       else if projr obs > link_observation_u8 LO_Unknown
       then Inl (Status SC_Invalid ''evidence record carries an unknown observation value'')
       else Inr \<lparr>ev_link = projr lnk, ev_observed = link_observation_of_u8 (projr obs),
              ev_generation = projr gen, ev_observer = Incarnation (projr hi) (projr lo),
              ev_epoch = projr ep, ev_observed_seq = projr sq, ev_observed_at_unix_ms = projr at_ms\<rparr>, r8))"

section \<open>Writers: the bytes a sequence of calls appends\<close>

text \<open>\<open>emits p bs\<close>: wherever the bound leaves room, the call succeeds and appends \<open>bs\<close>.\<close>

definition emits :: "put \<Rightarrow> bytes \<Rightarrow> bool" where
  "emits p bs \<longleftrightarrow> (\<forall>w. bw_fits (length bs) w \<longrightarrow> p w = (status_success, bw_append bs w))"

definition text_ok :: "string \<Rightarrow> bool" where
  "text_ok t = (length t < 2 ^ 32 \<and> is_valid_utf8 t)"

named_theorems emits_intros \<open>what the writer calls emit\<close>

lemma emits_primitives [emits_intros]:
  "emits (bw_u8 v8) [v8]" "emits (bw_u32 v32) (le_bytes 4 v32)" "emits (bw_u64 v64) (le_bytes 8 v64)"
  "text_ok t \<Longrightarrow> emits (bw_string t) (string_enc t)"
  "length d < 2 ^ 32 \<Longrightarrow> emits (bw_block d) (block_enc d)"
  using emit_u8.put_fits [OF TrueI] emit_u32.put_fits [OF TrueI] emit_u64.put_fits [OF TrueI]
    emit_string.put_fits emit_block.put_fits
  by (simp_all add: emits_def text_ok_def)

lemma puts_emits:
  "list_all2 emits ps bss \<Longrightarrow> bw_fits (length (concat bss)) w \<Longrightarrow> puts ps w = bw_append (concat bss) w"
proof (induction ps bss arbitrary: w rule: list_all2_induct)
  case Nil
  then show ?case by (simp add: puts_def bw_append_def)
next
  case (Cons p ps bs bss)
  then have "p w = (status_success, bw_append bs w)" by (auto simp: emits_def bw_fits_def)
  moreover have "puts ps (bw_append bs w) = bw_append (concat bss) (bw_append bs w)"
    using Cons.prems by (intro Cons.IH) (simp add: bw_fits_def)
  ultimately show ?case by (simp add: puts_def)
qed

lemma buffer_puts:
  assumes "list_all2 emits ps bss" and "length (concat bss) \<le> m"
  shows "bw_buffer (puts ps (new_writer m)) = concat bss"
  using puts_emits [OF assms(1), of "new_writer m"] assms(2) by (simp add: bw_fits_def new_writer_def)

text \<open>Reference encodings, one list of field encodings per record.\<close>

definition header_fields :: "fabric \<Rightarrow> bytes list" where
  "header_fields f =
     [string_enc kTopologyDomain, le_bytes 8 (fab_id f), string_enc (fab_name f), string_enc (fab_site f),
      le_bytes 8 (fab_generation f), le_bytes 8 (fab_epoch f), [fabric_state_u8 (fab_state f)],
      [bool_u8 (opt_allow_same_tier_adjacency (fab_options f))],
      [bool_u8 (opt_require_domain_diversity (fab_options f))],
      le_bytes 4 (opt_min_eligible_spines (fab_options f)),
      [evidence_policy_u8 (opt_evidence_policy (fab_options f))]]"

definition domain_fields :: "failure_domain_record \<Rightarrow> bytes list" where
  "domain_fields d = [le_bytes 4 (fd_id d), string_enc (fd_name d), le_bytes 8 (fd_generation d)]"

definition leaf_fields :: "leaf_record \<Rightarrow> bytes list" where
  "leaf_fields l =
     [le_bytes 4 (lf_id l), string_enc (lf_name l), [leaf_role_u8 (lf_role l)],
      le_bytes 8 (lf_role_incarnation l), le_bytes 4 (lf_domain l), [node_state_u8 (lf_state l)],
      le_bytes 8 (lf_access_capacity_mbps l), le_bytes 4 (lf_access_link_count l),
      le_bytes 8 (lf_generation l)]"

definition spine_fields :: "spine_record \<Rightarrow> bytes list" where
  "spine_fields s =
     [le_bytes 4 (sp_id s), string_enc (sp_name s), [spine_role_u8 (sp_role s)],
      le_bytes 8 (sp_role_incarnation s), le_bytes 4 (sp_domain s), [node_state_u8 (sp_state s)],
      le_bytes 8 (sp_fabric_capacity_mbps s), le_bytes 8 (sp_generation s)]"

definition port_fields :: "port_record \<Rightarrow> bytes list" where
  "port_fields p =
     [le_bytes 4 (pt_id p), [tier_u8 (nk_tier (pt_owner p))], le_bytes 4 (nk_index (pt_owner p)),
      le_bytes 8 (pt_speed_mbps p), [port_admin_u8 (pt_admin p)], le_bytes 8 (pt_generation p)]"

definition link_fields :: "link_record \<Rightarrow> bytes list" where
  "link_fields l =
     [le_bytes 4 (lk_id l), [tier_u8 (nk_tier (lk_a l))], le_bytes 4 (nk_index (lk_a l)),
      le_bytes 4 (lk_port_a l), [tier_u8 (nk_tier (lk_b l))], le_bytes 4 (nk_index (lk_b l)),
      le_bytes 4 (lk_port_b l), [link_class_u8 (lk_cls l)], [link_admin_u8 (lk_admin l)],
      le_bytes 8 (lk_declared_speed_mbps l), le_bytes 8 (lk_generation l)]"

definition evidence_fields :: "link_evidence \<Rightarrow> bytes list" where
  "evidence_fields e =
     [le_bytes 4 (ev_link e), [link_observation_u8 (ev_observed e)], le_bytes 8 (ev_generation e),
      le_bytes 8 (inc_hi (ev_observer e)), le_bytes 8 (inc_lo (ev_observer e)), le_bytes 8 (ev_epoch e),
      le_bytes 8 (ev_observed_seq e), le_bytes 8 (ev_observed_at_unix_ms e)]"

definition table_fields :: "('r \<Rightarrow> bytes list) \<Rightarrow> 'r list \<Rightarrow> bytes list" where
  "table_fields each xs = le_bytes 4 (of_nat (length xs) :: u32) # concat (map each xs)"

definition topology_fields :: "fabric \<Rightarrow> bytes list" where
  "topology_fields f =
     header_fields f @ table_fields domain_fields (fab_domains f) @ table_fields leaf_fields (fab_leaves f)
     @ table_fields spine_fields (fab_spines f) @ table_fields port_fields (fab_ports f)
     @ table_fields link_fields (fab_links f) @ table_fields link_fields (fab_history_links f)"

definition evidence_block_fields :: "fabric \<Rightarrow> bytes list" where
  "evidence_block_fields f =
     [string_enc kEvidenceDomain, le_bytes 8 (fab_generation f)] @ table_fields evidence_fields (fab_evidence f)"

definition fabric_texts_ok :: "fabric \<Rightarrow> bool" where
  "fabric_texts_ok f \<longleftrightarrow>
     text_ok (fab_name f) \<and> text_ok (fab_site f) \<and> (\<forall>d\<in>set (fab_domains f). text_ok (fd_name d))
     \<and> (\<forall>l\<in>set (fab_leaves f). text_ok (lf_name l)) \<and> (\<forall>s\<in>set (fab_spines f). text_ok (sp_name s))"

lemma emits_records [emits_intros]:
  "text_ok (fd_name d) \<Longrightarrow> list_all2 emits (domain_puts d) (domain_fields d)"
  "text_ok (lf_name l) \<Longrightarrow> list_all2 emits (leaf_puts l) (leaf_fields l)"
  "text_ok (sp_name s) \<Longrightarrow> list_all2 emits (spine_puts s) (spine_fields s)"
  "list_all2 emits (port_puts p) (port_fields p)"
  "list_all2 emits (link_puts k) (link_fields k)"
  "list_all2 emits (evidence_puts e) (evidence_fields e)"
  by (simp_all add: emits_intros domain_puts_def domain_fields_def leaf_puts_def leaf_fields_def
      spine_puts_def spine_fields_def port_puts_def port_fields_def link_puts_def link_fields_def
      evidence_puts_def evidence_fields_def)

lemma emits_concat:
  "(\<And>x. x \<in> set xs \<Longrightarrow> list_all2 emits (f x) (g x)) \<Longrightarrow>
     list_all2 emits (concat (map f xs)) (concat (map g xs))"
  by (induction xs) (auto intro!: list_all2_appendI)

lemma emits_table:
  "(\<And>x. x \<in> set xs \<Longrightarrow> list_all2 emits (f x) (g x)) \<Longrightarrow>
     list_all2 emits (table_puts f xs) (table_fields g xs)"
  by (simp add: table_puts_def table_fields_def emits_intros emits_concat)

lemma ascii_valid_utf8: "list_all (\<lambda>c. char_code c < 128) t \<Longrightarrow> is_valid_utf8 t"
proof (induction t)
  case (Cons c t)
  then have "(of_nat (char_code c) :: u8) < 0x80"
    by (simp add: word_less_nat_alt unat_of_nat of_char_mod_256)
  with Cons show ?case by (simp add: is_valid_utf8_def text_bytes_def)
qed (simp add: is_valid_utf8_def text_bytes_def)

lemma kTopologyDomain_ok [simp]: "text_ok kTopologyDomain" "text_ok kEvidenceDomain"
  by (simp_all add: text_ok_def kTopologyDomain_def kEvidenceDomain_def ascii_valid_utf8)

lemma emits_topology: "fabric_texts_ok f \<Longrightarrow> list_all2 emits (topology_puts f) (topology_fields f)"
proof -
  assume ok: "fabric_texts_ok f"
  have "list_all2 emits (header_puts f) (header_fields f)"
    using ok by (simp add: header_puts_def header_fields_def emits_intros fabric_texts_ok_def)
  with ok show ?thesis unfolding topology_puts_def topology_fields_def
    by (intro list_all2_appendI emits_table emits_records) (auto simp: fabric_texts_ok_def)
qed

lemma emits_evidence_block: "list_all2 emits (evidence_block_puts f) (evidence_block_fields f)"
  unfolding evidence_block_puts_def evidence_block_fields_def
  by (intro list_all2_appendI emits_table emits_records) (simp add: emits_intros)

definition topology_enc :: "fabric \<Rightarrow> bytes" where
  "topology_enc f = concat (topology_fields f)"

definition evidence_enc :: "fabric \<Rightarrow> bytes" where
  "evidence_enc f = concat (evidence_block_fields f)"

text \<open>The fabric fits the 64 MiB bound of the writers, with the frame \<open>serialize_fabric\<close> adds.\<close>

definition fabric_fits :: "fabric \<Rightarrow> bool" where
  "fabric_fits f = (12 + length (topology_enc f) + length (evidence_enc f) \<le> kDefaultMaxBytes)"

lemma canonical_topology_exact:
  "fabric_texts_ok f \<Longrightarrow> fabric_fits f \<Longrightarrow> canonical_topology_bytes f = topology_enc f"
  unfolding canonical_topology_bytes_def topology_enc_def
  by (rule buffer_puts) (auto simp: emits_topology fabric_fits_def topology_enc_def)

lemma canonical_evidence_exact: "fabric_fits f \<Longrightarrow> canonical_evidence_bytes f = evidence_enc f"
  unfolding canonical_evidence_bytes_def evidence_enc_def
  by (rule buffer_puts) (auto simp: emits_evidence_block fabric_fits_def evidence_enc_def)

lemma serialize_exact:
  assumes "fabric_texts_ok f" and "fabric_fits f"
  shows "serialize_fabric f =
    le_bytes 4 kPersistenceFormatVersion @ block_enc (topology_enc f) @ block_enc (evidence_enc f)"
proof -
  let ?bss = "[le_bytes 4 kPersistenceFormatVersion, block_enc (topology_enc f), block_enc (evidence_enc f)]"
  have small: "length (topology_enc f) < 2 ^ 32" "length (evidence_enc f) < 2 ^ 32"
    using assms(2) by (auto simp: fabric_fits_def kDefaultMaxBytes_def)
  have "list_all2 emits [bw_u32 kPersistenceFormatVersion, bw_block (topology_enc f),
      bw_block (evidence_enc f)] ?bss"
    using small by (simp add: emits_intros)
  moreover have "length (concat ?bss) \<le> kDefaultMaxBytes"
    using assms(2) by (simp add: fabric_fits_def block_enc_def)
  ultimately have "bw_buffer (puts [bw_u32 kPersistenceFormatVersion, bw_block (topology_enc f),
      bw_block (evidence_enc f)] (new_writer kDefaultMaxBytes)) = concat ?bss"
    by (rule buffer_puts)
  then show ?thesis
    by (simp add: serialize_fabric_def canonical_topology_exact [OF assms]
        canonical_evidence_exact [OF assms(2)])
qed

section \<open>Readers invert the reference encodings\<close>

text \<open>A reader with the bytes \<open>pre\<close> behind it and \<open>bs\<close> ahead.\<close>

definition rd :: "nat \<Rightarrow> bytes \<Rightarrow> bytes \<Rightarrow> byte_reader" where
  "rd m pre bs = \<lparr>br_data = pre @ bs, br_offset = length pre, br_max_string_bytes = m\<rparr>"

lemma br_at_rd: "br_at r bs \<longleftrightarrow> (\<exists>pre. r = rd (br_max_string_bytes r) pre bs)"
  by (cases r) (auto simp: br_at_def rd_def)

lemma rd_at [simp]: "br_at (rd m pre bs) bs" "br_max_string_bytes (rd m pre bs) = m"
  by (auto simp: br_at_def rd_def)

lemma rd_advance [simp]: "length xs = n \<Longrightarrow> br_advance n (rd m pre (xs @ ys)) = rd m (pre @ xs) ys"
  by (simp add: rd_def br_advance_def)

lemma new_reader_rd: "new_reader bs m = rd m [] bs"
  by (simp add: new_reader_def rd_def)

lemma rd_primitives [codec_simps]:
  "br_u8 (rd m pre (v8 # rest)) = (Inr v8, rd m (pre @ [v8]) rest)"
  "br_u32 (rd m pre (le_bytes 4 v32 @ rest)) = (Inr v32, rd m (pre @ le_bytes 4 v32) rest)"
  "br_u64 (rd m pre (le_bytes 8 v64 @ rest)) = (Inr v64, rd m (pre @ le_bytes 8 v64) rest)"
  "string_ok m t \<Longrightarrow> br_string (rd m pre (string_enc t @ rest)) = (Inr t, rd m (pre @ string_enc t) rest)"
  using u8_codec.dec_enc [OF TrueI, of "rd m pre ([v8] @ rest)" v8 rest]
    rd_advance [of "[v8]" 1 m pre rest]
    u32_codec.dec_enc [OF TrueI, of "rd m pre (le_bytes 4 v32 @ rest)" v32 rest]
    u64_codec.dec_enc [OF TrueI, of "rd m pre (le_bytes 8 v64 @ rest)" v64 rest]
    string_codec.dec_enc [of "rd m pre (string_enc t @ rest)" t rest]
  by simp_all

lemma rd_u64_end [codec_simps]:
  "br_u64 (rd m pre (le_bytes 8 v)) = (Inr v, rd m (pre @ le_bytes 8 v) [])"
  using rd_primitives(3) [of m pre v "[]"] by simp

text \<open>A read never moves backwards, leaves the data alone and stays inside it.\<close>

definition br_step :: "byte_reader \<Rightarrow> byte_reader \<Rightarrow> bool" where
  "br_step r r' \<longleftrightarrow> br_data r' = br_data r \<and> br_offset r \<le> br_offset r' \<and> (br_wf r \<longrightarrow> br_wf r')"

lemma br_step_refl: "br_step r r"
  by (simp add: br_step_def)

lemma br_step_primitive [intro]:
  "br_step r q \<Longrightarrow> br_step r (snd (br_u8 q))" "br_step r q \<Longrightarrow> br_step r (snd (br_u32 q))"
  "br_step r q \<Longrightarrow> br_step r (snd (br_u64 q))" "br_step r q \<Longrightarrow> br_step r (snd (br_string q))"
  using u8_codec.dec_progress [of q] u32_codec.dec_progress [of q] u64_codec.dec_progress [of q]
    string_codec.dec_progress [of q]
  by (auto simp: br_step_def primitive_frame u8_codec.dec_wf u32_codec.dec_wf u64_codec.dec_wf
      string_codec.dec_wf)

lemma codec_step:
  assumes "\<And>r x rest. valid (br_max_string_bytes r) x \<Longrightarrow> br_at r (enc x @ rest) \<Longrightarrow>
      dec r = (Inr x, br_advance (length (enc x)) r)"
    and "\<And>r. br_step r (snd (dec r))"
  shows "codec enc dec valid"
  using assms(2) by unfold_locales (auto simp: assms(1) br_step_def)

lemma codec_rd:
  assumes "\<And>m pre x rest. valid m x \<Longrightarrow> dec (rd m pre (enc x @ rest)) = (Inr x, rd m (pre @ enc x) rest)"
    and "\<And>r. br_step r (snd (dec r))"
  shows "codec enc dec valid"
proof (rule codec_step)
  fix r x rest assume v: "valid (br_max_string_bytes r) x" and "br_at r (enc x @ rest)"
  then obtain pre where r: "r = rd (br_max_string_bytes r) pre (enc x @ rest)" by (auto simp: br_at_rd)
  show "dec r = (Inr x, br_advance (length (enc x)) r)"
    using assms(1) [OF v, of pre rest] r by (metis rd_advance)
qed (rule assms(2))

lemmas step_intros = br_step_primitive br_step_refl

lemmas enum_u8_range = enum_u8_bounds [THEN leD]

interpretation domain_codec: codec "\<lambda>d. concat (domain_fields d)" read_domain "\<lambda>m d. string_ok m (fd_name d)"
  by (rule codec_rd)
    (simp add: read_domain_def domain_fields_def codec_simps enum_u8_range,
      simp add: read_domain_def split_def Let_def step_intros)

interpretation leaf_codec: codec "\<lambda>l. concat (leaf_fields l)" read_leaf "\<lambda>m l. string_ok m (lf_name l)"
  by (rule codec_rd)
    (simp add: read_leaf_def leaf_fields_def codec_simps enum_u8_range,
      simp add: read_leaf_def split_def Let_def step_intros)

interpretation spine_codec: codec "\<lambda>s. concat (spine_fields s)" read_spine "\<lambda>m s. string_ok m (sp_name s)"
  by (rule codec_rd)
    (simp add: read_spine_def spine_fields_def codec_simps enum_u8_range,
      simp add: read_spine_def split_def Let_def step_intros)

interpretation port_codec: codec "\<lambda>p. concat (port_fields p)" read_port "\<lambda>_ _. True"
  by (rule codec_rd)
    (simp add: read_port_def port_fields_def codec_simps enum_u8_range,
      simp add: read_port_def split_def Let_def step_intros)

interpretation link_codec: codec "\<lambda>l. concat (link_fields l)" read_link "\<lambda>_ _. True"
  by (rule codec_rd)
    (simp add: read_link_def link_fields_def codec_simps enum_u8_range,
      simp add: read_link_def split_def Let_def step_intros)

interpretation evidence_codec: codec "\<lambda>e. concat (evidence_fields e)" read_evidence "\<lambda>_ _. True"
  by (rule codec_rd)
    (simp add: read_evidence_def evidence_fields_def codec_simps enum_u8_range,
      simp add: read_evidence_def split_def Let_def step_intros)

end
