(* ===== verification/SLF_Builder.thy ===== *)
theory SLF_Builder
  imports SLF_Encode
begin

text \<open>
  The fabric builder (\<open>include/slf/builder.hpp\<close>, \<open>src/builder.cpp\<close>): records are refused one by
  one when the refusal is local, and the whole graph is validated by \<open>freeze\<close>. A member function
  takes the builder as its last argument and returns its status with the updated builder. The
  \<open>std::map\<close> members are ordered association lists; \<open>at\<close> is \<^const>\<open>the\<close> of the lookup, and the
  guards before each use make the key present.
\<close>

datatype name_verdict = NV_Acceptable | NV_Invalid | NV_TooLong

definition check_name :: "string \<Rightarrow> u32 \<Rightarrow> name_verdict" where
  "check_name name max_bytes =
     (if length name > unat max_bytes then NV_TooLong
      else if name = [] \<or> \<not> is_valid_utf8 name then NV_Invalid
      else NV_Acceptable)"

definition node_label :: "node_key \<Rightarrow> string" where
  "node_label key = node_key_string key"

record fabric_builder =
  fb_id :: fabric_id
  fb_name :: string
  fb_site :: string
  fb_fabric_state :: fabric_state
  fb_generation :: topology_generation
  fb_epoch :: epoch
  fb_options :: fabric_options
  fb_limits :: builder_limits
  fb_domains :: "(failure_domain_id, failure_domain_record) omap"
  fb_leaves :: "(leaf_id, leaf_record) omap"
  fb_spines :: "(spine_id, spine_record) omap"
  fb_ports :: "(port_id, port_record) omap"
  fb_links :: "(link_id, link_record) omap"
  fb_history_links :: "(link_id, link_record) omap"
  fb_evidence :: "link_evidence list"
  fb_report :: validation_report
  fb_frozen :: bool

section \<open>Notes\<close>

definition report_note ::
  "issue_severity \<Rightarrow> status_code \<Rightarrow> string \<Rightarrow> string \<Rightarrow> validation_report \<Rightarrow> validation_report" where
  "report_note severity code whr detail rep =
     rep\<lparr>rep_error_count := (if severity = IS_Error then rep_error_count rep + 1 else rep_error_count rep),
         rep_warning_count := (if severity = IS_Warning then rep_warning_count rep + 1
                               else rep_warning_count rep),
         rep_issues := rep_issues rep
           @ [\<lparr>is_severity = severity, is_code = code, is_where = whr, is_detail = detail\<rparr>]\<rparr>"

definition note_issue ::
  "issue_severity \<Rightarrow> status_code \<Rightarrow> string \<Rightarrow> string \<Rightarrow> fabric_builder \<Rightarrow> status \<times> fabric_builder" where
  "note_issue severity code whr detail b =
     (if severity = IS_Error then Status code (whr @ '': '' @ detail) else status_success,
      b\<lparr>fb_report := report_note severity code whr detail (fb_report b)\<rparr>)"

section \<open>Construction\<close>

definition new_builder ::
  "fabric_id \<Rightarrow> string \<Rightarrow> topology_generation \<Rightarrow> epoch \<Rightarrow> fabric_options \<Rightarrow> builder_limits \<Rightarrow> fabric_builder" where
  "new_builder ident name gen ep options limits =
     (let b0 = \<lparr>fb_id = ident, fb_name = name, fb_site = [], fb_fabric_state = FS_Operational,
                fb_generation = gen, fb_epoch = ep, fb_options = options, fb_limits = limits,
                fb_domains = [], fb_leaves = [], fb_spines = [], fb_ports = [], fb_links = [],
                fb_history_links = [], fb_evidence = [], fb_report = empty_report, fb_frozen = False\<rparr>;
          b1 = (case check_name name (lim_max_name_bytes limits) of
                  NV_TooLong \<Rightarrow> snd (note_issue IS_Error SC_Exhausted ''fabric''
                    ''fabric name exceeds the configured length bound'' b0)
                | NV_Invalid \<Rightarrow> snd (note_issue IS_Error SC_Invalid ''fabric''
                    ''fabric name is missing or is not valid UTF-8'' b0)
                | NV_Acceptable \<Rightarrow> b0);
          b2 = (if gen = 0
                then snd (note_issue IS_Warning SC_Invalid ''fabric'' ''topology generation is zero'' b1)
                else b1)
      in if opt_min_eligible_spines options = 0
         then snd (note_issue IS_Error SC_Invalid ''fabric'' ''min_eligible_spines must be at least 1'' b2)
         else b2)"

definition closed_status :: status where
  "closed_status = Status SC_Closed ''fabric builder is already frozen''"

definition set_site :: "string \<Rightarrow> fabric_builder \<Rightarrow> status \<times> fabric_builder" where
  "set_site site b =
     (if fb_frozen b then (closed_status, b)
      else case (if site = [] then NV_Acceptable else check_name site (lim_max_name_bytes (fb_limits b))) of
             NV_TooLong \<Rightarrow> note_issue IS_Error SC_Exhausted ''fabric''
               ''site name exceeds the configured length bound'' b
           | NV_Invalid \<Rightarrow> note_issue IS_Error SC_Invalid ''fabric'' ''site name is not valid UTF-8'' b
           | NV_Acceptable \<Rightarrow> (status_success, b\<lparr>fb_site := site\<rparr>))"

definition set_state :: "fabric_state \<Rightarrow> fabric_builder \<Rightarrow> status \<times> fabric_builder" where
  "set_state state b =
     (if fb_frozen b then (closed_status, b) else (status_success, b\<lparr>fb_fabric_state := state\<rparr>))"

section \<open>Adding records\<close>

definition validate_node_common ::
  "node_key \<Rightarrow> string \<Rightarrow> topology_generation \<Rightarrow> failure_domain_id \<Rightarrow> u64 \<Rightarrow> fabric_builder
     \<Rightarrow> status \<times> fabric_builder" where
  "validate_node_common key name gen domain capacity b =
     (if gen \<noteq> fb_generation b
      then note_issue IS_Error SC_CrossGeneration (node_label key)
             (''record generation '' @ u_string gen @ '' does not match fabric generation ''
              @ u_string (fb_generation b)) b
      else case check_name name (lim_max_name_bytes (fb_limits b)) of
             NV_TooLong \<Rightarrow> note_issue IS_Error SC_Exhausted (node_label key)
               ''name exceeds the configured length bound'' b
           | NV_Invalid \<Rightarrow> note_issue IS_Error SC_Invalid (node_label key)
               ''name is missing or is not valid UTF-8'' b
           | NV_Acceptable \<Rightarrow>
               if capacity > lim_max_capacity_mbps (fb_limits b)
               then note_issue IS_Error SC_Overflow (node_label key)
                      ''declared capacity exceeds the configured maximum'' b
               else if domain = 0
               then note_issue IS_Warning SC_Incomplete (node_label key)
                      ''node has no failure domain (domain 0)'' b
               else (status_success, b))"

definition add_failure_domain :: "failure_domain_record \<Rightarrow> fabric_builder \<Rightarrow> status \<times> fabric_builder" where
  "add_failure_domain d b =
     (if fb_frozen b then (closed_status, b)
      else if length (fb_domains b) \<ge> unat (lim_max_failure_domains (fb_limits b))
      then note_issue IS_Error SC_Exhausted ''domain'' ''failure domain count exceeds the configured bound'' b
      else if omap_count (fb_domains b) (fd_id d)
      then note_issue IS_Error SC_DuplicateIdentity (domain_id_string (fd_id d))
             ''failure domain identity is already defined'' b
      else if fd_generation d \<noteq> fb_generation b
      then note_issue IS_Error SC_CrossGeneration (domain_id_string (fd_id d))
             ''failure domain generation does not match the fabric generation'' b
      else case check_name (fd_name d) (lim_max_name_bytes (fb_limits b)) of
             NV_TooLong \<Rightarrow> note_issue IS_Error SC_Exhausted (domain_id_string (fd_id d))
               ''failure domain name exceeds the configured length bound'' b
           | NV_Invalid \<Rightarrow> note_issue IS_Error SC_Invalid (domain_id_string (fd_id d))
               ''failure domain name is missing or is not valid UTF-8'' b
           | NV_Acceptable \<Rightarrow>
               (status_success, b\<lparr>fb_domains := omap_emplace (fd_id d) d (fb_domains b)\<rparr>))"

definition warn_if :: "bool \<Rightarrow> status_code \<Rightarrow> string \<Rightarrow> string \<Rightarrow> fabric_builder \<Rightarrow> fabric_builder" where
  "warn_if c code whr detail b = (if c then snd (note_issue IS_Warning code whr detail b) else b)"

fun find_entry :: "('v \<Rightarrow> bool) \<Rightarrow> ('k, 'v) omap \<Rightarrow> 'k option" where
  "find_entry p [] = None"
| "find_entry p ((k, v) # rest) = (if p v then Some k else find_entry p rest)"

definition add_leaf :: "leaf_record \<Rightarrow> fabric_builder \<Rightarrow> status \<times> fabric_builder" where
  "add_leaf l b =
     (if fb_frozen b then (closed_status, b)
      else if length (fb_leaves b) \<ge> unat (lim_max_leaves (fb_limits b))
      then note_issue IS_Error SC_Exhausted ''leaf'' ''leaf count exceeds the configured bound'' b
      else if lf_id l = 0
      then note_issue IS_Error SC_Invalid (leaf_id_string (lf_id l)) ''leaf identity zero is reserved'' b
      else if omap_count (fb_leaves b) (lf_id l)
      then note_issue IS_Error SC_DuplicateIdentity (leaf_id_string (lf_id l))
             ''leaf identity is already defined'' b
      else let b1 = (case find_entry (\<lambda>other. lf_name other = lf_name l) (fb_leaves b) of
                       None \<Rightarrow> b
                     | Some other_id \<Rightarrow> snd (note_issue IS_Warning SC_Conflicting (leaf_id_string (lf_id l))
                         (''leaf name duplicates '' @ leaf_id_string other_id) b))
           in case validate_node_common (leaf_key (lf_id l)) (lf_name l) (lf_generation l) (lf_domain l)
                     (lf_access_capacity_mbps l) b1 of
                (common, b2) \<Rightarrow>
                  if \<not> status_ok common then (common, b2)
                  else let b3 = warn_if (lf_access_capacity_mbps l = 0) SC_Incomplete
                                  (leaf_id_string (lf_id l)) ''leaf declares zero access capacity'' b2
                       in (status_success, b3\<lparr>fb_leaves := omap_emplace (lf_id l) l (fb_leaves b3)\<rparr>))"

definition add_spine :: "spine_record \<Rightarrow> fabric_builder \<Rightarrow> status \<times> fabric_builder" where
  "add_spine s b =
     (if fb_frozen b then (closed_status, b)
      else if length (fb_spines b) \<ge> unat (lim_max_spines (fb_limits b))
      then note_issue IS_Error SC_Exhausted ''spine'' ''spine count exceeds the configured bound'' b
      else if sp_id s = 0
      then note_issue IS_Error SC_Invalid (spine_id_string (sp_id s)) ''spine identity zero is reserved'' b
      else if omap_count (fb_spines b) (sp_id s)
      then note_issue IS_Error SC_DuplicateIdentity (spine_id_string (sp_id s))
             ''spine identity is already defined'' b
      else let b1 = (case find_entry (\<lambda>other. sp_name other = sp_name s) (fb_spines b) of
                       None \<Rightarrow> b
                     | Some other_id \<Rightarrow> snd (note_issue IS_Warning SC_Conflicting (spine_id_string (sp_id s))
                         (''spine name duplicates '' @ spine_id_string other_id) b))
           in case validate_node_common (spine_key (sp_id s)) (sp_name s) (sp_generation s) (sp_domain s)
                     (sp_fabric_capacity_mbps s) b1 of
                (common, b2) \<Rightarrow>
                  if \<not> status_ok common then (common, b2)
                  else let b3 = warn_if (sp_fabric_capacity_mbps s = 0) SC_Incomplete
                                  (spine_id_string (sp_id s)) ''spine declares zero fabric capacity'' b2
                       in (status_success, b3\<lparr>fb_spines := omap_emplace (sp_id s) s (fb_spines b3)\<rparr>))"

definition endpoint_exists :: "fabric_builder \<Rightarrow> node_key \<Rightarrow> bool" where
  "endpoint_exists b key =
     (if nk_tier key = Leaf then omap_count (fb_leaves b) (nk_index key)
      else omap_count (fb_spines b) (nk_index key))"

definition add_port :: "port_record \<Rightarrow> fabric_builder \<Rightarrow> status \<times> fabric_builder" where
  "add_port p b =
     (let whr = port_id_string (pt_id p) in
      if fb_frozen b then (closed_status, b)
      else if length (fb_ports b) \<ge> unat (lim_max_ports (fb_limits b))
      then note_issue IS_Error SC_Exhausted whr ''port count exceeds the configured bound'' b
      else if pt_id p = 0
      then note_issue IS_Error SC_Invalid whr ''port identity zero is reserved'' b
      else if omap_count (fb_ports b) (pt_id p)
      then note_issue IS_Error SC_DuplicateIdentity whr ''port identity is already defined'' b
      else if pt_generation p \<noteq> fb_generation b
      then note_issue IS_Error SC_CrossGeneration whr
             ''port generation does not match the fabric generation'' b
      else if \<not> endpoint_exists b (pt_owner p)
      then note_issue IS_Error SC_DanglingEdge whr
             (''port owner '' @ node_label (pt_owner p) @ '' does not exist'') b
      else if pt_speed_mbps p > lim_max_capacity_mbps (fb_limits b)
      then note_issue IS_Error SC_Overflow whr ''port speed exceeds the configured maximum'' b
      else if pt_speed_mbps p = 0 \<and> pt_admin p = PA_Enabled
      then note_issue IS_Error SC_Invalid whr ''an enabled port must declare a non-zero speed'' b
      else (status_success, b\<lparr>fb_ports := omap_emplace (pt_id p) p (fb_ports b)\<rparr>))"

definition port_belongs :: "fabric_builder \<Rightarrow> port_id \<Rightarrow> node_key \<Rightarrow> bool" where
  "port_belongs b port owner =
     (case map_of (fb_ports b) port of None \<Rightarrow> False | Some p \<Rightarrow> pt_owner p = owner)"

definition slower_port_speed :: "fabric_builder \<Rightarrow> link_record \<Rightarrow> u64" where
  "slower_port_speed b l =
     (let speed_a = pt_speed_mbps (the (map_of (fb_ports b) (lk_port_a l)));
          speed_b = pt_speed_mbps (the (map_of (fb_ports b) (lk_port_b l)))
      in if speed_a < speed_b then speed_a else speed_b)"

definition link_equivalent :: "link_record \<Rightarrow> link_record \<Rightarrow> bool" where
  "link_equivalent l other =
     ((lk_port_a other = lk_port_a l \<and> lk_port_b other = lk_port_b l)
      \<or> (lk_port_a other = lk_port_b l \<and> lk_port_b other = lk_port_a l))"

definition add_link :: "link_record \<Rightarrow> fabric_builder \<Rightarrow> status \<times> fabric_builder" where
  "add_link l b =
     (let whr = link_id_string (lk_id l); same_tier = (nk_tier (lk_a l) = nk_tier (lk_b l)) in
      if fb_frozen b then (closed_status, b)
      else if length (fb_links b) \<ge> unat (lim_max_links (fb_limits b))
      then note_issue IS_Error SC_Exhausted whr ''link count exceeds the configured bound'' b
      else if lk_id l = 0
      then note_issue IS_Error SC_Invalid whr ''link identity zero is reserved'' b
      else if omap_count (fb_links b) (lk_id l)
      then note_issue IS_Error SC_DuplicateIdentity whr ''link identity is already defined'' b
      else if lk_generation l \<noteq> fb_generation b
      then note_issue IS_Error SC_CrossGeneration whr
             ''link generation does not match the fabric generation'' b
      else if lk_a l = lk_b l
      then note_issue IS_Error SC_IllegalAdjacency whr ''a link cannot connect a node to itself'' b
      else if same_tier \<and> \<not> opt_allow_same_tier_adjacency (fb_options b)
      then note_issue IS_Error SC_IllegalAdjacency whr
             ''same-tier adjacency is disabled by fabric policy'' b
      else if \<not> same_tier \<and> lk_cls l = LC_SameTierPeer
      then note_issue IS_Error SC_ContradictoryRole whr
             ''a leaf-to-spine link cannot be classified as a same-tier peer link'' b
      else if same_tier \<and> lk_cls l = LC_LeafSpine
      then note_issue IS_Error SC_ContradictoryRole whr
             ''a same-tier link cannot be classified as a leaf-to-spine link'' b
      else if \<not> endpoint_exists b (lk_a l)
      then note_issue IS_Error SC_DanglingEdge whr
             (''endpoint '' @ node_label (lk_a l) @ '' does not exist'') b
      else if \<not> endpoint_exists b (lk_b l)
      then note_issue IS_Error SC_DanglingEdge whr
             (''endpoint '' @ node_label (lk_b l) @ '' does not exist'') b
      else if \<not> port_belongs b (lk_port_a l) (lk_a l)
      then note_issue IS_Error SC_DanglingEdge whr
             (''port '' @ port_id_string (lk_port_a l) @ '' does not belong to '' @ node_label (lk_a l)) b
      else if \<not> port_belongs b (lk_port_b l) (lk_b l)
      then note_issue IS_Error SC_DanglingEdge whr
             (''port '' @ port_id_string (lk_port_b l) @ '' does not belong to '' @ node_label (lk_b l)) b
      else if same_tier \<and> nk_tier (lk_a l) = Leaf
              \<and> (\<not> is_peer_capable (lf_role (the (map_of (fb_leaves b) (nk_index (lk_a l)))))
                 \<or> \<not> is_peer_capable (lf_role (the (map_of (fb_leaves b) (nk_index (lk_b l))))))
      then note_issue IS_Error SC_ContradictoryRole whr
             ''peer link endpoints must both carry a peer-capable leaf role'' b
      else if lk_declared_speed_mbps l \<noteq> 0 \<and> lk_declared_speed_mbps l > slower_port_speed b l
      then note_issue IS_Error SC_Conflicting whr
             ''declared link speed exceeds the slower endpoint port speed'' b
      else if lk_declared_speed_mbps l > lim_max_capacity_mbps (fb_limits b)
      then note_issue IS_Error SC_Overflow whr ''declared link speed exceeds the configured maximum'' b
      else case find_entry (link_equivalent l) (fb_links b) of
             Some other_id \<Rightarrow> note_issue IS_Error SC_AlreadyExists whr
               (''an equivalent link already exists as '' @ link_id_string other_id) b
           | None \<Rightarrow> (status_success, b\<lparr>fb_links := omap_emplace (lk_id l) l (fb_links b)\<rparr>))"

definition add_history_link :: "link_record \<Rightarrow> fabric_builder \<Rightarrow> status \<times> fabric_builder" where
  "add_history_link l b =
     (if fb_frozen b then (closed_status, b)
      else if length (fb_history_links b) \<ge> unat (lim_max_history_records (fb_limits b))
      then note_issue IS_Error SC_Exhausted (link_id_string (lk_id l))
             ''historical link count exceeds the configured bound'' b
      else if lk_id l = 0
      then note_issue IS_Error SC_Invalid (''history:'' @ link_id_string (lk_id l))
             ''historical link identity zero is reserved'' b
      else if omap_count (fb_history_links b) (lk_id l) \<or> omap_count (fb_links b) (lk_id l)
      then note_issue IS_Error SC_DuplicateIdentity (''history:'' @ link_id_string (lk_id l))
             ''historical link identity is already defined'' b
      else if lk_generation l \<ge> fb_generation b
      then note_issue IS_Error SC_CrossGeneration (''history:'' @ link_id_string (lk_id l))
             ''historical links must belong to a generation older than the fabric generation'' b
      else (status_success,
            b\<lparr>fb_history_links := omap_emplace (lk_id l) l (fb_history_links b)\<rparr>))"

definition add_evidence :: "link_evidence \<Rightarrow> fabric_builder \<Rightarrow> status \<times> fabric_builder" where
  "add_evidence e b =
     (let whr = ''evidence:'' @ link_id_string (ev_link e) in
      if fb_frozen b then (closed_status, b)
      else if length (fb_evidence b) \<ge> unat (lim_max_evidence_records (fb_limits b))
      then note_issue IS_Error SC_Exhausted whr ''evidence count exceeds the configured bound'' b
      else if ev_generation e > fb_generation b
      then note_issue IS_Error SC_CrossGeneration whr ''evidence refers to a future topology generation'' b
      else if incarnation_is_zero (ev_observer e)
      then note_issue IS_Error SC_Invalid whr ''evidence must name the observing controller incarnation'' b
      else if ev_observed_seq e = 0
      then note_issue IS_Error SC_Invalid whr ''evidence must carry a non-zero observation sequence'' b
      else if \<not> omap_count (fb_links b) (ev_link e) \<and> \<not> omap_count (fb_history_links b) (ev_link e)
      then note_issue IS_Error SC_DanglingEdge whr
             ''evidence refers to a link that does not exist in this fabric'' b
      else (status_success, b\<lparr>fb_evidence := fb_evidence b @ [e]\<rparr>))"

section \<open>Whole-graph validation and freeze\<close>

definition validate_domains :: "fabric_builder \<Rightarrow> fabric_builder" where
  "validate_domains b =
     (if fb_domains b = [] then b
      else fold (\<lambda>(i, spine) c.
             warn_if (\<not> omap_count (fb_domains c) (sp_domain spine)) SC_NotFound (spine_id_string i)
               (''failure domain '' @ u_string (sp_domain spine) @ '' is not declared'') c) (fb_spines b)
           (fold (\<lambda>(i, leaf) c.
             warn_if (\<not> omap_count (fb_domains c) (lf_domain leaf)) SC_NotFound (leaf_id_string i)
               (''failure domain '' @ u_string (lf_domain leaf) @ '' is not declared'') c) (fb_leaves b) b))"

definition info_if :: "bool \<Rightarrow> status_code \<Rightarrow> string \<Rightarrow> string \<Rightarrow> fabric_builder \<Rightarrow> fabric_builder" where
  "info_if c code whr detail b = (if c then snd (note_issue IS_Info code whr detail b) else b)"

definition validate_ports :: "fabric_builder \<Rightarrow> fabric_builder" where
  "validate_ports b =
     fold (\<lambda>(i, port) c.
       info_if (\<not> list_ex (\<lambda>(_, l). lk_port_a l = pt_id port \<or> lk_port_b l = pt_id port) (fb_links c))
         SC_NotFound (port_id_string i) ''port is not used by any link'' c) (fb_ports b) b"

definition builder_link_speed :: "fabric_builder \<Rightarrow> link_record \<Rightarrow> u64 option" where
  "builder_link_speed b l =
     (case (map_of (fb_ports b) (lk_port_a l), map_of (fb_ports b) (lk_port_b l)) of
        (Some pa, Some pb) \<Rightarrow>
          if lk_declared_speed_mbps l \<noteq> 0 then Some (lk_declared_speed_mbps l)
          else Some (if pt_speed_mbps pa < pt_speed_mbps pb then pt_speed_mbps pa else pt_speed_mbps pb)
      | _ \<Rightarrow> None)"

definition validate_link :: "link_id \<Rightarrow> link_record \<Rightarrow> fabric_builder \<Rightarrow> fabric_builder" where
  "validate_link i l b =
     (if builder_link_speed b l = None \<or> builder_link_speed b l = Some 0
      then snd (note_issue IS_Error SC_Invalid (link_id_string i)
             ''link has no usable speed (a port is missing or declares zero speed)'' b)
      else
        let leaf_end = (if nk_tier (lk_a l) = Leaf then lk_a l else lk_b l);
            spine_end = (if nk_tier (lk_a l) = Leaf then lk_b l else lk_a l);
            b1 = info_if (lk_admin l = LA_Disabled) SC_Refused (link_id_string i)
                   ''link is administratively disabled and is excluded from the structural graph'' b;
            b2 = (if lk_cls l = LC_LeafSpine \<and> \<not> (nk_tier (lk_a l) = Leaf \<or> nk_tier (lk_b l) = Leaf)
                  then snd (note_issue IS_Error SC_ContradictoryRole (link_id_string i)
                         ''leaf-to-spine link has no leaf endpoint'' b1)
                  else b1);
            b3 = info_if (lk_cls l = LC_LeafSpine
                          \<and> sp_state (the (map_of (fb_spines b2) (nk_index spine_end))) = NS_Retired)
                   SC_Stale (link_id_string i) ''link attaches to a retired spine'' b2
        in info_if (lk_cls l = LC_SameTierPeer \<and> nk_tier (lk_a l) = Leaf) SC_Ok (link_id_string i)
             (''peer link '' @ node_label leaf_end @ '' <-> '' @ node_label (lk_b l)) b3)"

definition validate_links :: "fabric_builder \<Rightarrow> fabric_builder" where
  "validate_links b = fold (\<lambda>(i, l) c. validate_link i l c) (fb_links b) b"

type_synonym evidence_scan =
  "(link_id, sequence_number) omap \<times> (link_id, int) omap \<times> fabric_builder"

definition scan_evidence :: "link_evidence \<Rightarrow> evidence_scan \<Rightarrow> evidence_scan" where
  "scan_evidence e = (\<lambda>(highest, duplicates, b).
     if ev_generation e > fb_generation b
     then (highest, duplicates,
           snd (note_issue IS_Error SC_CrossGeneration (''evidence:'' @ link_id_string (ev_link e))
             ''evidence refers to a future topology generation'' b))
     else case map_of highest (ev_link e) of
            None \<Rightarrow> (omap_put (ev_link e) (ev_observed_seq e) highest,
                     omap_put (ev_link e) 1 duplicates, b)
          | Some newest \<Rightarrow>
              if newest < ev_observed_seq e
              then (omap_put (ev_link e) (ev_observed_seq e) highest,
                    omap_put (ev_link e) 1 duplicates, b)
              else if newest = ev_observed_seq e
              then (highest,
                    omap_put (ev_link e)
                      ((case map_of duplicates (ev_link e) of None \<Rightarrow> 0 | Some n \<Rightarrow> n) + 1) duplicates, b)
              else (highest, duplicates, b))"

definition newest_unknown :: "fabric_builder \<Rightarrow> link_id \<Rightarrow> sequence_number \<Rightarrow> bool" where
  "newest_unknown b l sq =
     (case find (\<lambda>e. ev_link e = l \<and> ev_observed_seq e = sq) (fb_evidence b) of
        None \<Rightarrow> False
      | Some e \<Rightarrow> ev_observed e = LO_Unknown)"

definition validate_evidence :: "fabric_builder \<Rightarrow> fabric_builder" where
  "validate_evidence b =
     (case fold scan_evidence (fb_evidence b) ([], [], b) of
        (highest, duplicates, b1) \<Rightarrow>
          let b2 = fold (\<lambda>(l, n) c.
                     warn_if (n > 1) SC_Conflicting (''evidence:'' @ link_id_string l)
                       (''multiple evidence records share the highest observation sequence; the link is ''
                        @ ''reported as conflicting rather than decided'') c) duplicates b1
          in fold (\<lambda>(l, sq) c.
                     warn_if (omap_count (fb_links c) l \<and> newest_unknown c l sq) SC_Indeterminate
                       (''evidence:'' @ link_id_string l)
                       ''the newest observation is unknown; the link cannot be decided from evidence'' c)
               highest b2)"

definition finish_report :: "fabric_builder \<Rightarrow> status \<times> fabric_builder" where
  "finish_report b =
     (let rep = (fb_report b)\<lparr>
            rep_leaf_count := of_nat (length (fb_leaves b)),
            rep_spine_count := of_nat (length (fb_spines b)),
            rep_port_count := of_nat (length (fb_ports b)),
            rep_link_count := of_nat (length (fb_links b)),
            rep_domain_count := of_nat (length (fb_domains b)),
            rep_history_count := of_nat (length (fb_history_links b)),
            rep_evidence_count := of_nat (length (fb_evidence b))\<rparr>;
          b' = b\<lparr>fb_report := rep\<rparr>
      in if rep_error_count rep \<noteq> 0
         then (case find (\<lambda>i. is_severity i = IS_Error) (rep_issues rep) of
                 Some i \<Rightarrow> (Status (is_code i) (is_where i @ '': '' @ is_detail i), b')
               | None \<Rightarrow> (Status SC_Invalid ''fabric has validation errors'', b'))
         else (status_success, b'))"

definition evidence_less :: "link_evidence \<Rightarrow> link_evidence \<Rightarrow> bool" where
  "evidence_less a b =
     (if ev_link a \<noteq> ev_link b then ev_link a < ev_link b
      else if ev_observed_seq a \<noteq> ev_observed_seq b then ev_observed_seq a < ev_observed_seq b
      else if ev_generation a \<noteq> ev_generation b then ev_generation a < ev_generation b
      else ev_observer a < ev_observer b)"

text \<open>The fabric \<open>freeze\<close> fills, before and after its digests are computed.\<close>

definition undigested_fabric :: "fabric_builder \<Rightarrow> fabric" where
  "undigested_fabric b =
     \<lparr>fab_id = fb_id b, fab_name = fb_name b, fab_site = fb_site b, fab_generation = fb_generation b,
      fab_epoch = fb_epoch b, fab_state = fb_fabric_state b, fab_options = fb_options b,
      fab_domains = map snd (fb_domains b), fab_leaves = map snd (fb_leaves b),
      fab_spines = map snd (fb_spines b), fab_ports = map snd (fb_ports b),
      fab_links = map snd (fb_links b), fab_history_links = map snd (fb_history_links b),
      fab_evidence = std_sort evidence_less (fb_evidence b),
      fab_topology_digest = zero_digest, fab_evidence_digest = zero_digest\<rparr>"

definition with_digests :: "fabric \<Rightarrow> fabric" where
  "with_digests f = f\<lparr>fab_topology_digest := fst (compute_digests f),
                      fab_evidence_digest := snd (compute_digests f)\<rparr>"

definition freeze :: "fabric_builder \<Rightarrow> fabric outcome \<times> fabric_builder" where
  "freeze b =
     (if fb_frozen b then (Inl closed_status, b)
      else case finish_report (validate_evidence (validate_links (validate_ports (validate_domains
                  (b\<lparr>fb_frozen := True\<rparr>))))) of
             (s, b') \<Rightarrow>
               if \<not> status_ok s then (Inl s, b')
               else (Inr (with_digests (undigested_fabric b')), b'))"

fun add_all :: "('r \<Rightarrow> fabric_builder \<Rightarrow> status \<times> fabric_builder) \<Rightarrow> 'r list \<Rightarrow> fabric_builder
    \<Rightarrow> status \<times> fabric_builder" where
  "add_all add [] b = (status_success, b)"
| "add_all add (r # rs) b =
     (case add r b of (s, b') \<Rightarrow> if \<not> status_ok s then (s, b') else add_all add rs b')"

definition build_fabric ::
  "fabric_id \<Rightarrow> string \<Rightarrow> topology_generation \<Rightarrow> epoch \<Rightarrow> fabric_options \<Rightarrow> leaf_record list
     \<Rightarrow> spine_record list \<Rightarrow> port_record list \<Rightarrow> link_record list \<Rightarrow> builder_limits
     \<Rightarrow> fabric outcome \<times> validation_report" where
  "build_fabric ident name gen ep options leaves spines ports links limits =
     (case add_all add_leaf leaves (new_builder ident name gen ep options limits) of
        (s1, b1) \<Rightarrow> if \<not> status_ok s1 then (Inl s1, fb_report b1) else
     (case add_all add_spine spines b1 of
        (s2, b2) \<Rightarrow> if \<not> status_ok s2 then (Inl s2, fb_report b2) else
     (case add_all add_port ports b2 of
        (s3, b3) \<Rightarrow> if \<not> status_ok s3 then (Inl s3, fb_report b3) else
     (case add_all add_link links b3 of
        (s4, b4) \<Rightarrow> if \<not> status_ok s4 then (Inl s4, fb_report b4) else
     (case freeze b4 of (result, b5) \<Rightarrow> (result, fb_report b5))))))"

section \<open>Reports\<close>

definition report_errors :: "validation_report \<Rightarrow> validation_issue list" where
  "report_errors rep = filter (\<lambda>i. is_severity i = IS_Error) (rep_issues rep)"

definition report_inv :: "validation_report \<Rightarrow> bool" where
  "report_inv rep \<longleftrightarrow> rep_error_count rep = of_nat (length (report_errors rep))
     \<and> (\<forall>i\<in>set (report_errors rep). is_code i \<noteq> SC_Ok)"

lemma report_inv_empty [simp]: "report_inv empty_report" "report_errors empty_report = []"
  by (simp_all add: report_inv_def report_errors_def empty_report_def)

lemma report_errors_note [simp]:
  "report_errors (report_note sev code whr detail rep) =
     report_errors rep @ (if sev = IS_Error
       then [\<lparr>is_severity = sev, is_code = code, is_where = whr, is_detail = detail\<rparr>] else [])"
  by (simp add: report_errors_def report_note_def)

lemma report_inv_note [simp]:
  "report_inv rep \<Longrightarrow> sev = IS_Error \<longrightarrow> code \<noteq> SC_Ok \<Longrightarrow> report_inv (report_note sev code whr detail rep)"
  unfolding report_inv_def report_errors_note by (auto simp: report_note_def)

lemma report_issues_note [simp]:
  "rep_issues (report_note sev code whr detail rep) =
     rep_issues rep @ [\<lparr>is_severity = sev, is_code = code, is_where = whr, is_detail = detail\<rparr>]"
  by (simp add: report_note_def)

text \<open>Everything of a builder but its report and its frozen flag.\<close>

definition builder_core :: "fabric_builder \<Rightarrow> fabric_builder" where
  "builder_core b = b\<lparr>fb_report := empty_report, fb_frozen := False\<rparr>"

lemma builder_core_note [simp]:
  "builder_core (snd (note_issue sev code whr detail b)) = builder_core b"
  "builder_core (warn_if c code whr detail b) = builder_core b"
  "builder_core (info_if c code whr detail b) = builder_core b"
  by (simp_all add: builder_core_def note_issue_def warn_if_def info_if_def)

lemma builder_core_fields:
  assumes "builder_core b = builder_core c"
  shows "fb_id b = fb_id c" "fb_name b = fb_name c" "fb_site b = fb_site c"
    "fb_fabric_state b = fb_fabric_state c" "fb_generation b = fb_generation c" "fb_epoch b = fb_epoch c"
    "fb_options b = fb_options c" "fb_limits b = fb_limits c" "fb_domains b = fb_domains c"
    "fb_leaves b = fb_leaves c" "fb_spines b = fb_spines c" "fb_ports b = fb_ports c"
    "fb_links b = fb_links c" "fb_history_links b = fb_history_links c" "fb_evidence b = fb_evidence c"
  using assms by (cases b; cases c; simp add: builder_core_def)+

lemma fold_core:
  "(\<And>x c. x \<in> set xs \<Longrightarrow> builder_core (f x c) = builder_core c) \<Longrightarrow>
     builder_core (fold f xs b) = builder_core b"
  by (induction xs arbitrary: b) auto

text \<open>
  The effect of a validation step on the report: issues are only appended, the invariant is kept,
  and when no error is due none is recorded.
\<close>

definition report_grows :: "bool \<Rightarrow> fabric_builder \<Rightarrow> fabric_builder \<Rightarrow> bool" where
  "report_grows clean b c \<longleftrightarrow>
     builder_core c = builder_core b \<and> fb_frozen c = fb_frozen b
     \<and> (\<exists>new. rep_issues (fb_report c) = rep_issues (fb_report b) @ new)
     \<and> (report_inv (fb_report b) \<longrightarrow> report_inv (fb_report c))
     \<and> (clean \<longleftrightarrow> report_errors (fb_report c) = report_errors (fb_report b))"

lemma report_grows_refl [simp]: "report_grows True b b"
  by (simp add: report_grows_def)

lemma report_errors_grow:
  "rep_issues (fb_report c) = rep_issues (fb_report b) @ new \<Longrightarrow>
     \<exists>es. report_errors (fb_report c) = report_errors (fb_report b) @ es"
  by (simp add: report_errors_def)

lemma report_grows_trans:
  assumes "report_grows p a b" and "report_grows q b c"
  shows "report_grows (p \<and> q) a c"
proof -
  obtain n m where n: "rep_issues (fb_report b) = rep_issues (fb_report a) @ n"
    and m: "rep_issues (fb_report c) = rep_issues (fb_report b) @ m"
    using assms by (auto simp: report_grows_def)
  obtain e1 e2 where "report_errors (fb_report b) = report_errors (fb_report a) @ e1"
    "report_errors (fb_report c) = report_errors (fb_report b) @ e2"
    using report_errors_grow [OF n] report_errors_grow [OF m] by blast
  with assms n m show ?thesis by (auto simp: report_grows_def)
qed

lemma report_grows_warn [simp]:
  "report_grows True b (warn_if c code whr detail b)" "report_grows True b (info_if c code whr detail b)"
  by (auto simp: report_grows_def warn_if_def info_if_def note_issue_def builder_core_def)

lemma report_grows_error:
  "code \<noteq> SC_Ok \<Longrightarrow> report_grows False b (snd (note_issue IS_Error code whr detail b))"
  by (auto simp: report_grows_def note_issue_def builder_core_def)

lemma report_grows_error_if:
  "code \<noteq> SC_Ok \<Longrightarrow>
     report_grows (\<not> c) b (if c then snd (note_issue IS_Error code whr detail b) else b)"
  by (cases c) (simp_all add: report_grows_error)

lemma report_grows_fold:
  assumes "\<And>x c. x \<in> set xs \<Longrightarrow> builder_core c = builder_core b \<Longrightarrow> report_grows (P x) c (f x c)"
  shows "report_grows (\<forall>x\<in>set xs. P x) b (fold f xs b)"
  using assms
proof (induction xs arbitrary: b)
  case (Cons x xs)
  have first: "report_grows (P x) b (f x b)" using Cons.prems by simp
  then have "builder_core (f x b) = builder_core b" by (simp add: report_grows_def)
  then have "report_grows (\<forall>x\<in>set xs. P x) (f x b) (fold f xs (f x b))"
    using Cons.prems by (intro Cons.IH) simp
  from report_grows_trans [OF first this] show ?case by simp
qed simp

lemma report_grows_fold_clean:
  "(\<And>x c. report_grows True c (f x c)) \<Longrightarrow> report_grows True b (fold f xs b)"
  using report_grows_fold [of xs b "\<lambda>_. True" f] by simp

section \<open>What the validation steps record\<close>

definition link_usable :: "fabric_builder \<Rightarrow> link_record \<Rightarrow> bool" where
  "link_usable b l \<longleftrightarrow> builder_link_speed b l \<noteq> None \<and> builder_link_speed b l \<noteq> Some 0
     \<and> \<not> (lk_cls l = LC_LeafSpine \<and> nk_tier (lk_a l) = Spine \<and> nk_tier (lk_b l) = Spine)"

lemma link_usable_core: "builder_core c = builder_core b \<Longrightarrow> link_usable c l = link_usable b l"
  using builder_core_fields(12) [of c b] by (simp add: link_usable_def builder_link_speed_def)

lemma report_grows_trans_clean: "report_grows True a b \<Longrightarrow> report_grows True b c \<Longrightarrow> report_grows True a c"
  using report_grows_trans by fastforce

lemma grows_validate_domains: "report_grows True b (validate_domains b)"
proof (cases "fb_domains b = []")
  case False
  then show ?thesis unfolding validate_domains_def if_not_P [OF False] split_def
    by (intro report_grows_trans_clean [OF report_grows_fold_clean report_grows_fold_clean])
      (rule report_grows_warn)+
qed (simp add: validate_domains_def)

lemma grows_validate_ports: "report_grows True b (validate_ports b)"
  unfolding validate_ports_def split_def by (rule report_grows_fold_clean) (rule report_grows_warn)

lemma grows_validate_link: "report_grows (link_usable b l) b (validate_link i l b)"
proof (cases "builder_link_speed b l = None \<or> builder_link_speed b l = Some 0")
  case True
  then show ?thesis by (auto simp: validate_link_def link_usable_def intro: report_grows_error)
next
  case False
  let ?bad = "lk_cls l = LC_LeafSpine \<and> \<not> (nk_tier (lk_a l) = Leaf \<or> nk_tier (lk_b l) = Leaf)"
  have usable: "link_usable b l \<longleftrightarrow> \<not> ?bad"
    using False by (auto simp: link_usable_def) (metis tier.exhaust)+
  have second: "report_grows (\<not> ?bad) c (if ?bad then snd (note_issue IS_Error SC_ContradictoryRole
      (link_id_string i) ''leaf-to-spine link has no leaf endpoint'' c) else c)" for c
    by (rule report_grows_error_if) simp
  have chain: "report_grows True a b \<Longrightarrow> report_grows P b c \<Longrightarrow> report_grows True c d \<Longrightarrow> report_grows True d e
      \<Longrightarrow> report_grows P a e" for P a b c d e
    using report_grows_trans by (metis (full_types))
  show ?thesis unfolding usable validate_link_def Let_def if_not_P [OF False]
    by (rule chain [OF report_grows_warn(2) second report_grows_warn(2) report_grows_warn(2)])
qed

lemma grows_validate_links:
  "report_grows (\<forall>(i, l)\<in>set (fb_links b). link_usable b l) b (validate_links b)"
  unfolding validate_links_def
proof (rule report_grows_fold [of _ _ "\<lambda>(i, l). link_usable b l"])
  fix x c assume core: "builder_core c = builder_core b"
  show "report_grows (case x of (i, l) \<Rightarrow> link_usable b l) c ((case x of (i, l) \<Rightarrow> validate_link i l) c)"
    using grows_validate_link [of c "snd x" "fst x"] link_usable_core [OF core, of "snd x"]
    by (simp add: split_def)
qed

lemma grows_scan_evidence:
  "report_grows (ev_generation e \<le> fb_generation b) b (snd (snd (scan_evidence e (h, d, b))))"
proof (cases "ev_generation e \<le> fb_generation b")
  case True
  then have "snd (snd (scan_evidence e (h, d, b))) = b"
    by (auto simp: scan_evidence_def split: option.split)
  with True show ?thesis by simp
next
  case False
  then have "snd (snd (scan_evidence e (h, d, b))) = snd (note_issue IS_Error SC_CrossGeneration
      (''evidence:'' @ link_id_string (ev_link e)) ''evidence refers to a future topology generation'' b)"
    by (simp add: scan_evidence_def not_le)
  with False show ?thesis by (simp add: report_grows_error)
qed

lemma grows_scan_all:
  "report_grows (\<forall>e\<in>set es. ev_generation e \<le> fb_generation b) b (snd (snd (fold scan_evidence es (h, d, b))))"
proof (induction es arbitrary: h d b)
  case (Cons e es)
  obtain h' d' b' where s: "scan_evidence e (h, d, b) = (h', d', b')" by (cases "scan_evidence e (h, d, b)")
  have first: "report_grows (ev_generation e \<le> fb_generation b) b b'"
    using grows_scan_evidence [of e b h d] s by simp
  then have "fb_generation b' = fb_generation b"
    using builder_core_fields(5) [of b' b] by (simp add: report_grows_def)
  with report_grows_trans [OF first Cons.IH [of b' h' d']] show ?case by (simp add: s)
qed simp

lemma grows_validate_evidence:
  "report_grows (\<forall>e\<in>set (fb_evidence b). ev_generation e \<le> fb_generation b) b (validate_evidence b)"
proof -
  obtain h d c where s: "fold scan_evidence (fb_evidence b) ([], [], b) = (h, d, c)"
    by (cases "fold scan_evidence (fb_evidence b) ([], [], b)")
  then have first: "report_grows (\<forall>e\<in>set (fb_evidence b). ev_generation e \<le> fb_generation b) b c"
    using grows_scan_all [of "fb_evidence b" b "[]" "[]"] by simp
  have chain: "report_grows P b c \<Longrightarrow> report_grows True c d \<Longrightarrow> report_grows P b d" for P d
    using report_grows_trans by fastforce
  show ?thesis unfolding validate_evidence_def s Let_def split_def fst_conv snd_conv
    by (rule chain [OF first], rule report_grows_trans_clean [OF report_grows_fold_clean report_grows_fold_clean])
      (rule report_grows_warn)+
qed

section \<open>When a record is accepted\<close>

definition name_ok :: "fabric_builder \<Rightarrow> string \<Rightarrow> bool" where
  "name_ok b n \<longleftrightarrow> check_name n (lim_max_name_bytes (fb_limits b)) = NV_Acceptable"

definition domain_fits :: "fabric_builder \<Rightarrow> failure_domain_record \<Rightarrow> bool" where
  "domain_fits b d \<longleftrightarrow> fd_generation d = fb_generation b \<and> name_ok b (fd_name d)"

definition leaf_fits :: "fabric_builder \<Rightarrow> leaf_record \<Rightarrow> bool" where
  "leaf_fits b l \<longleftrightarrow> lf_id l \<noteq> 0 \<and> lf_generation l = fb_generation b \<and> name_ok b (lf_name l)
     \<and> lf_access_capacity_mbps l \<le> lim_max_capacity_mbps (fb_limits b)"

definition spine_fits :: "fabric_builder \<Rightarrow> spine_record \<Rightarrow> bool" where
  "spine_fits b s \<longleftrightarrow> sp_id s \<noteq> 0 \<and> sp_generation s = fb_generation b \<and> name_ok b (sp_name s)
     \<and> sp_fabric_capacity_mbps s \<le> lim_max_capacity_mbps (fb_limits b)"

definition port_fits :: "fabric_builder \<Rightarrow> port_record \<Rightarrow> bool" where
  "port_fits b p \<longleftrightarrow> pt_id p \<noteq> 0 \<and> pt_generation p = fb_generation b \<and> endpoint_exists b (pt_owner p)
     \<and> pt_speed_mbps p \<le> lim_max_capacity_mbps (fb_limits b)
     \<and> (pt_admin p = PA_Enabled \<longrightarrow> pt_speed_mbps p \<noteq> 0)"

definition link_fits :: "fabric_builder \<Rightarrow> link_record \<Rightarrow> bool" where
  "link_fits b l \<longleftrightarrow>
     lk_id l \<noteq> 0 \<and> lk_generation l = fb_generation b \<and> lk_a l \<noteq> lk_b l
     \<and> (nk_tier (lk_a l) = nk_tier (lk_b l) \<longrightarrow> opt_allow_same_tier_adjacency (fb_options b))
     \<and> (lk_cls l = LC_SameTierPeer \<longleftrightarrow> nk_tier (lk_a l) = nk_tier (lk_b l))
     \<and> endpoint_exists b (lk_a l) \<and> endpoint_exists b (lk_b l)
     \<and> port_belongs b (lk_port_a l) (lk_a l) \<and> port_belongs b (lk_port_b l) (lk_b l)
     \<and> (nk_tier (lk_a l) = Leaf \<longrightarrow> nk_tier (lk_b l) = Leaf \<longrightarrow>
          is_peer_capable (lf_role (the (map_of (fb_leaves b) (nk_index (lk_a l)))))
          \<and> is_peer_capable (lf_role (the (map_of (fb_leaves b) (nk_index (lk_b l))))))
     \<and> lk_declared_speed_mbps l \<le> slower_port_speed b l
     \<and> lk_declared_speed_mbps l \<le> lim_max_capacity_mbps (fb_limits b)"

definition history_fits :: "fabric_builder \<Rightarrow> link_record \<Rightarrow> bool" where
  "history_fits b l \<longleftrightarrow> lk_id l \<noteq> 0 \<and> lk_generation l < fb_generation b"

definition evidence_fits :: "fabric_builder \<Rightarrow> link_evidence \<Rightarrow> bool" where
  "evidence_fits b e \<longleftrightarrow> ev_generation e \<le> fb_generation b \<and> \<not> incarnation_is_zero (ev_observer e)
     \<and> ev_observed_seq e \<noteq> 0
     \<and> (omap_count (fb_links b) (ev_link e) \<or> omap_count (fb_history_links b) (ev_link e))"

definition domain_accept :: "failure_domain_record \<Rightarrow> fabric_builder \<Rightarrow> bool" where
  "domain_accept d b \<longleftrightarrow> \<not> fb_frozen b \<and> length (fb_domains b) < unat (lim_max_failure_domains (fb_limits b))
     \<and> map_of (fb_domains b) (fd_id d) = None \<and> domain_fits b d"

definition leaf_accept :: "leaf_record \<Rightarrow> fabric_builder \<Rightarrow> bool" where
  "leaf_accept l b \<longleftrightarrow> \<not> fb_frozen b \<and> length (fb_leaves b) < unat (lim_max_leaves (fb_limits b))
     \<and> map_of (fb_leaves b) (lf_id l) = None \<and> leaf_fits b l"

definition spine_accept :: "spine_record \<Rightarrow> fabric_builder \<Rightarrow> bool" where
  "spine_accept s b \<longleftrightarrow> \<not> fb_frozen b \<and> length (fb_spines b) < unat (lim_max_spines (fb_limits b))
     \<and> map_of (fb_spines b) (sp_id s) = None \<and> spine_fits b s"

definition port_accept :: "port_record \<Rightarrow> fabric_builder \<Rightarrow> bool" where
  "port_accept p b \<longleftrightarrow> \<not> fb_frozen b \<and> length (fb_ports b) < unat (lim_max_ports (fb_limits b))
     \<and> map_of (fb_ports b) (pt_id p) = None \<and> port_fits b p"

definition link_accept :: "link_record \<Rightarrow> fabric_builder \<Rightarrow> bool" where
  "link_accept l b \<longleftrightarrow> \<not> fb_frozen b \<and> length (fb_links b) < unat (lim_max_links (fb_limits b))
     \<and> map_of (fb_links b) (lk_id l) = None \<and> link_fits b l
     \<and> (\<forall>(i, other)\<in>set (fb_links b). \<not> link_equivalent l other)"

definition history_accept :: "link_record \<Rightarrow> fabric_builder \<Rightarrow> bool" where
  "history_accept l b \<longleftrightarrow> \<not> fb_frozen b
     \<and> length (fb_history_links b) < unat (lim_max_history_records (fb_limits b))
     \<and> map_of (fb_history_links b) (lk_id l) = None \<and> map_of (fb_links b) (lk_id l) = None
     \<and> history_fits b l"

definition evidence_accept :: "link_evidence \<Rightarrow> fabric_builder \<Rightarrow> bool" where
  "evidence_accept e b \<longleftrightarrow> \<not> fb_frozen b
     \<and> length (fb_evidence b) < unat (lim_max_evidence_records (fb_limits b)) \<and> evidence_fits b e"

definition put_domain :: "failure_domain_record \<Rightarrow> fabric_builder \<Rightarrow> fabric_builder" where
  "put_domain d b = b\<lparr>fb_domains := omap_emplace (fd_id d) d (fb_domains b)\<rparr>"

definition put_leaf :: "leaf_record \<Rightarrow> fabric_builder \<Rightarrow> fabric_builder" where
  "put_leaf l b = b\<lparr>fb_leaves := omap_emplace (lf_id l) l (fb_leaves b)\<rparr>"

definition put_spine :: "spine_record \<Rightarrow> fabric_builder \<Rightarrow> fabric_builder" where
  "put_spine s b = b\<lparr>fb_spines := omap_emplace (sp_id s) s (fb_spines b)\<rparr>"

definition put_port :: "port_record \<Rightarrow> fabric_builder \<Rightarrow> fabric_builder" where
  "put_port p b = b\<lparr>fb_ports := omap_emplace (pt_id p) p (fb_ports b)\<rparr>"

definition put_link :: "link_record \<Rightarrow> fabric_builder \<Rightarrow> fabric_builder" where
  "put_link l b = b\<lparr>fb_links := omap_emplace (lk_id l) l (fb_links b)\<rparr>"

definition put_history :: "link_record \<Rightarrow> fabric_builder \<Rightarrow> fabric_builder" where
  "put_history l b = b\<lparr>fb_history_links := omap_emplace (lk_id l) l (fb_history_links b)\<rparr>"

definition put_evidence :: "link_evidence \<Rightarrow> fabric_builder \<Rightarrow> fabric_builder" where
  "put_evidence e b = b\<lparr>fb_evidence := fb_evidence b @ [e]\<rparr>"

text \<open>
  The contract of the seven \<open>add\<close> operations: a record is either inserted, with warnings at most,
  or refused with the builder's tables untouched and an error in the report.
\<close>

definition builder_header ::
  "fabric_builder \<Rightarrow> string \<times> string \<times> fabric_options \<times> builder_limits \<times> topology_generation" where
  "builder_header b = (fb_name b, fb_site b, fb_options b, fb_limits b, fb_generation b)"

lemma builder_header_core: "builder_header (builder_core b) = builder_header b"
  by (simp add: builder_header_def builder_core_def)

locale record_adder =
  fixes add :: "'r \<Rightarrow> fabric_builder \<Rightarrow> status \<times> fabric_builder"
    and accept :: "'r \<Rightarrow> fabric_builder \<Rightarrow> bool"
    and put :: "'r \<Rightarrow> fabric_builder \<Rightarrow> fabric_builder"
  assumes accepted: "accept r b \<Longrightarrow> fst (add r b) = status_success \<and> report_grows True (put r b) (snd (add r b))"
    and refused: "\<not> accept r b \<Longrightarrow> \<not> status_ok (fst (add r b)) \<and> report_grows (fb_frozen b) b (snd (add r b))"
    and put_report: "fb_report (put r b) = fb_report b"
    and put_core: "builder_core b = builder_core c \<Longrightarrow> builder_core (put r b) = builder_core (put r c)"
    and put_header: "builder_header (put r b) = builder_header b"
begin

lemma add_ok_iff: "status_ok (fst (add r b)) \<longleftrightarrow> accept r b"
  using accepted refused by (metis status_ok_simps(1))

lemma add_core: "builder_core (snd (add r b)) = builder_core (if accept r b then put r b else b)"
  using accepted [of r b] refused [of r b] by (simp add: report_grows_def)

lemma add_report_inv: "report_inv (fb_report b) \<Longrightarrow> report_inv (fb_report (snd (add r b)))"
  using accepted [of r b] refused [of r b] put_report [of r b]
  by (cases "accept r b") (auto simp: report_grows_def)

lemma add_header: "builder_header (snd (add r b)) = builder_header b"
  using add_core [of r b] put_header [of r b] by (metis builder_header_core)

lemma add_errors: "report_errors (fb_report (snd (add r b))) = [] \<Longrightarrow> report_errors (fb_report b) = []"
  using accepted [of r b] refused [of r b] put_report [of r b]
  by (cases "accept r b") (auto simp: report_grows_def report_errors_def)

lemma add_all_report_inv: "report_inv (fb_report b) \<Longrightarrow> report_inv (fb_report (snd (add_all add rs b)))"
  by (induction rs arbitrary: b) (auto simp: add_report_inv split_def)

end

definition refusal :: "fabric_builder \<Rightarrow> status \<times> fabric_builder \<Rightarrow> bool" where
  "refusal b res \<longleftrightarrow> (if fb_frozen b then res = (closed_status, b)
     else \<exists>code whr detail. code \<noteq> SC_Ok \<and> res = note_issue IS_Error code whr detail b)"

lemma refusal_note: "code \<noteq> SC_Ok \<Longrightarrow> \<not> fb_frozen b \<Longrightarrow> refusal b (note_issue IS_Error code whr detail b)"
  by (auto simp: refusal_def)

lemma refusal_grows: "refusal b res \<Longrightarrow> \<not> status_ok (fst res) \<and> report_grows (fb_frozen b) b (snd res)"
  using report_grows_error
  by (auto simp: refusal_def closed_status_def note_issue_def split: if_splits)

lemma find_entry_None: "find_entry p m = None \<longleftrightarrow> (\<forall>(k, v)\<in>set m. \<not> p v)"
  by (induction p m rule: find_entry.induct) auto

lemma domain_refused: "\<not> domain_accept d b \<Longrightarrow> refusal b (add_failure_domain d b)"
  by (cases "fb_frozen b")
    (auto simp: domain_accept_def domain_fits_def name_ok_def add_failure_domain_def refusal_note
      omap_count_def refusal_def [of b "(closed_status, b)"] split: name_verdict.split)

lemma port_refused: "\<not> port_accept p b \<Longrightarrow> refusal b (add_port p b)"
  by (cases "fb_frozen b")
    (auto simp: port_accept_def port_fits_def add_port_def Let_def refusal_note omap_count_def
      refusal_def [of b "(closed_status, b)"])

lemma history_refused: "\<not> history_accept l b \<Longrightarrow> refusal b (add_history_link l b)"
  by (cases "fb_frozen b")
    (auto simp: history_accept_def history_fits_def add_history_link_def refusal_note omap_count_def
      refusal_def [of b "(closed_status, b)"])

lemma evidence_refused: "\<not> evidence_accept e b \<Longrightarrow> refusal b (add_evidence e b)"
  by (cases "fb_frozen b")
    (auto simp: evidence_accept_def evidence_fits_def add_evidence_def Let_def refusal_note omap_count_def
      refusal_def [of b "(closed_status, b)"])

lemma tier_other: "t \<noteq> Leaf \<longleftrightarrow> t = Spine"
  by (cases t) simp_all

lemma class_other: "c \<noteq> LC_SameTierPeer \<longleftrightarrow> c = LC_LeafSpine"
  by (cases c) simp_all

lemma link_accepted: "link_accept l b \<Longrightarrow> add_link l b = (status_success, put_link l b)"
proof -
  assume a: "link_accept l b"
  then have "find_entry (link_equivalent l) (fb_links b) = None"
    by (auto simp: link_accept_def find_entry_None)
  with a show ?thesis
    by (auto simp: link_accept_def link_fits_def add_link_def put_link_def Let_def omap_count_def
        not_le not_less class_other)
qed

lemma refusal_if: "(c \<Longrightarrow> refusal b x) \<Longrightarrow> (\<not> c \<Longrightarrow> refusal b y) \<Longrightarrow> refusal b (if c then x else y)"
  by simp

lemma link_refused: "\<not> link_accept l b \<Longrightarrow> refusal b (add_link l b)"
proof (cases "fb_frozen b")
  case False
  assume a: "\<not> link_accept l b"
  have final: "refusal b (case find_entry (link_equivalent l) (fb_links b) of
      Some other \<Rightarrow> note_issue IS_Error SC_AlreadyExists w (d other) b | None \<Rightarrow> r)"
    if "\<not> (length (fb_links b) < unat (lim_max_links (fb_limits b)) \<and> map_of (fb_links b) (lk_id l) = None
        \<and> link_fits b l) \<Longrightarrow> refusal b r" for w d r
    using a False that find_entry_None [of "link_equivalent l" "fb_links b"]
    by (auto simp: link_accept_def refusal_note split: option.split)
  show ?thesis unfolding add_link_def Let_def if_not_P [OF False]
    by (intro refusal_if final; (rule refusal_note, simp, simp add: False)?)
      (cases "lk_cls l"; auto simp: link_fits_def omap_count_def not_le not_less)
qed (simp add: add_link_def refusal_def)

text \<open>The shared node checks: refused, or accepted with at most a warning.\<close>

lemma node_common_cases:
  assumes "\<not> fb_frozen b"
  shows "if g = fb_generation b \<and> name_ok b n \<and> cap \<le> lim_max_capacity_mbps (fb_limits b)
    then fst (validate_node_common key n g dm cap b) = status_success
      \<and> report_grows True b (snd (validate_node_common key n g dm cap b))
    else refusal b (validate_node_common key n g dm cap b)"
  using assms report_grows_warn(1) [of b True]
  by (auto simp: validate_node_common_def name_ok_def refusal_note warn_if_def not_le note_issue_def [of IS_Warning]
      split: name_verdict.split if_splits)

lemma grows_core: "report_grows c a b \<Longrightarrow> builder_core b = builder_core a" "report_grows c a b \<Longrightarrow> fb_frozen b = fb_frozen a"
  by (simp_all add: report_grows_def)

lemma node_add_cases:
  assumes grow: "report_grows True b b1" and thawed: "\<not> fb_frozen b"
    and v: "validate_node_common key n g dm cap b1 = (s, b2)"
  shows "if g = fb_generation b \<and> name_ok b n \<and> cap \<le> lim_max_capacity_mbps (fb_limits b)
    then s = status_success \<and> report_grows True b (warn_if c code whr detail b2)
    else \<not> status_ok s \<and> report_grows False b b2"
proof -
  note core = builder_core_fields [OF grows_core(1) [OF grow]]
  have fits: "(g = fb_generation b1 \<and> name_ok b1 n \<and> cap \<le> lim_max_capacity_mbps (fb_limits b1))
      = (g = fb_generation b \<and> name_ok b n \<and> cap \<le> lim_max_capacity_mbps (fb_limits b))"
    using core by (simp add: name_ok_def)
  have "\<not> fb_frozen b1" using thawed grows_core(2) [OF grow] by simp
  note cases = node_common_cases [OF this, of g n cap key dm, unfolded fits v fst_conv snd_conv]
  show ?thesis
  proof (cases "g = fb_generation b \<and> name_ok b n \<and> cap \<le> lim_max_capacity_mbps (fb_limits b)")
    case True
    with cases have "s = status_success" "report_grows True b1 b2" by auto
    with True grow show ?thesis by (auto intro: report_grows_trans_clean report_grows_warn)
  next
    case False
    with cases have "refusal b1 (s, b2)" by auto
    then have "\<not> status_ok s" and g: "report_grows False b1 b2"
      using refusal_grows \<open>\<not> fb_frozen b1\<close> by fastforce+
    with False report_grows_trans [OF grow g] show ?thesis by auto
  qed
qed

lemma grows_note_option:
  "report_grows True b (case opt of None \<Rightarrow> b | Some i \<Rightarrow> snd (note_issue IS_Warning code whr (d i) b))"
  using report_grows_warn(1) [of b True] by (auto simp: warn_if_def split: option.split)

lemma grows_update_nodes:
  "report_grows True b c \<Longrightarrow> report_grows True (b\<lparr>fb_leaves := lm\<rparr>) (c\<lparr>fb_leaves := lm\<rparr>)"
  "report_grows True b c \<Longrightarrow> report_grows True (b\<lparr>fb_spines := sm\<rparr>) (c\<lparr>fb_spines := sm\<rparr>)"
  by (cases b; cases c; auto simp: report_grows_def builder_core_def)+

lemma grows_put_nodes:
  "report_grows True b c \<Longrightarrow> report_grows True (put_leaf l b) (put_leaf l c)"
  "report_grows True b c \<Longrightarrow> report_grows True (put_spine sp b) (put_spine sp c)"
  using grows_update_nodes [of b c] builder_core_fields [OF grows_core(1), of True b c]
  by (simp_all add: put_leaf_def put_spine_def)

lemma add_leaf_cases:
  "if leaf_accept r b
   then fst (add_leaf r b) = status_success \<and> report_grows True (put_leaf r b) (snd (add_leaf r b))
   else \<not> status_ok (fst (add_leaf r b)) \<and> report_grows (fb_frozen b) b (snd (add_leaf r b))"
proof (cases "\<not> fb_frozen b \<and> length (fb_leaves b) < unat (lim_max_leaves (fb_limits b)) \<and> lf_id r \<noteq> 0
    \<and> map_of (fb_leaves b) (lf_id r) = None")
  case False
  then have "refusal b (add_leaf r b)"
    by (cases "fb_frozen b")
      (auto simp: add_leaf_def refusal_note omap_count_def refusal_def [of b "(closed_status, b)"])
  with False show ?thesis using refusal_grows by (auto simp: leaf_accept_def leaf_fits_def)
next
  case True
  define b1 where "b1 = (case find_entry (\<lambda>other. lf_name other = lf_name r) (fb_leaves b) of
      None \<Rightarrow> b | Some other_id \<Rightarrow> snd (note_issue IS_Warning SC_Conflicting (leaf_id_string (lf_id r))
        (''leaf name duplicates '' @ leaf_id_string other_id) b))"
  obtain st b2 where v: "validate_node_common (leaf_key (lf_id r)) (lf_name r) (lf_generation r) (lf_domain r)
      (lf_access_capacity_mbps r) b1 = (st, b2)" by (cases rule: prod.exhaust)
  let ?warn = "warn_if (lf_access_capacity_mbps r = 0) SC_Incomplete (leaf_id_string (lf_id r)) ''leaf declares zero access capacity''"
  have "report_grows True b b1" unfolding b1_def by (rule grows_note_option)
  note cases = node_add_cases [OF this _ v]
  have add: "add_leaf r b = (if \<not> status_ok st then (st, b2) else (status_success, put_leaf r (?warn b2)))"
    using True v unfolding add_leaf_def b1_def [symmetric] by (simp add: omap_count_def put_leaf_def Let_def)
  have acc: "leaf_accept r b \<longleftrightarrow> lf_generation r = fb_generation b \<and> name_ok b (lf_name r)
      \<and> lf_access_capacity_mbps r \<le> lim_max_capacity_mbps (fb_limits b)"
    using True by (auto simp: leaf_accept_def leaf_fits_def)
  show ?thesis using cases True grows_put_nodes(1) [of b "?warn b2" r] unfolding acc [symmetric] add
    by (cases "leaf_accept r b") auto
qed

lemma add_spine_cases:
  "if spine_accept r b
   then fst (add_spine r b) = status_success \<and> report_grows True (put_spine r b) (snd (add_spine r b))
   else \<not> status_ok (fst (add_spine r b)) \<and> report_grows (fb_frozen b) b (snd (add_spine r b))"
proof (cases "\<not> fb_frozen b \<and> length (fb_spines b) < unat (lim_max_spines (fb_limits b)) \<and> sp_id r \<noteq> 0
    \<and> map_of (fb_spines b) (sp_id r) = None")
  case False
  then have "refusal b (add_spine r b)"
    by (cases "fb_frozen b")
      (auto simp: add_spine_def refusal_note omap_count_def refusal_def [of b "(closed_status, b)"])
  with False show ?thesis using refusal_grows by (auto simp: spine_accept_def spine_fits_def)
next
  case True
  define b1 where "b1 = (case find_entry (\<lambda>other. sp_name other = sp_name r) (fb_spines b) of
      None \<Rightarrow> b | Some other_id \<Rightarrow> snd (note_issue IS_Warning SC_Conflicting (spine_id_string (sp_id r))
        (''spine name duplicates '' @ spine_id_string other_id) b))"
  obtain st b2 where v: "validate_node_common (spine_key (sp_id r)) (sp_name r) (sp_generation r) (sp_domain r)
      (sp_fabric_capacity_mbps r) b1 = (st, b2)" by (cases rule: prod.exhaust)
  let ?warn = "warn_if (sp_fabric_capacity_mbps r = 0) SC_Incomplete (spine_id_string (sp_id r)) ''spine declares zero fabric capacity''"
  have "report_grows True b b1" unfolding b1_def by (rule grows_note_option)
  note cases = node_add_cases [OF this _ v]
  have add: "add_spine r b = (if \<not> status_ok st then (st, b2) else (status_success, put_spine r (?warn b2)))"
    using True v unfolding add_spine_def b1_def [symmetric] by (simp add: omap_count_def put_spine_def Let_def)
  have acc: "spine_accept r b \<longleftrightarrow> sp_generation r = fb_generation b \<and> name_ok b (sp_name r)
      \<and> sp_fabric_capacity_mbps r \<le> lim_max_capacity_mbps (fb_limits b)"
    using True by (auto simp: spine_accept_def spine_fits_def)
  show ?thesis using cases True grows_put_nodes(2) [of b "?warn b2" r] unfolding acc [symmetric] add
    by (cases "spine_accept r b") auto
qed

lemma put_report_frozen [simp]:
  "fb_report (put_domain d b) = fb_report b" "fb_report (put_leaf l b) = fb_report b"
  "fb_report (put_spine s b) = fb_report b" "fb_report (put_port p b) = fb_report b"
  "fb_report (put_link k b) = fb_report b" "fb_report (put_history k b) = fb_report b"
  "fb_report (put_evidence e b) = fb_report b"
  by (simp_all add: put_domain_def put_leaf_def put_spine_def put_port_def put_link_def put_history_def put_evidence_def)

lemma put_header_frame:
  "builder_header (put_domain d b) = builder_header b" "builder_header (put_leaf l b) = builder_header b"
  "builder_header (put_spine s b) = builder_header b" "builder_header (put_port p b) = builder_header b"
  "builder_header (put_link k b) = builder_header b" "builder_header (put_history k b) = builder_header b"
  "builder_header (put_evidence e b) = builder_header b"
  by (simp_all add: builder_header_def put_domain_def put_leaf_def put_spine_def put_port_def put_link_def put_history_def put_evidence_def)

lemma put_core_cong:
  assumes "builder_core b = builder_core c"
  shows "builder_core (put_domain d b) = builder_core (put_domain d c)"
    "builder_core (put_leaf l b) = builder_core (put_leaf l c)"
    "builder_core (put_spine s b) = builder_core (put_spine s c)"
    "builder_core (put_port p b) = builder_core (put_port p c)"
    "builder_core (put_link k b) = builder_core (put_link k c)"
    "builder_core (put_history k b) = builder_core (put_history k c)"
    "builder_core (put_evidence e b) = builder_core (put_evidence e c)"
  using assms by (cases b; cases c; simp add: builder_core_def put_domain_def put_leaf_def put_spine_def put_port_def put_link_def put_history_def put_evidence_def)+

lemma accepted_exact:
  "domain_accept d b \<Longrightarrow> add_failure_domain d b = (status_success, put_domain d b)"
  "port_accept p b \<Longrightarrow> add_port p b = (status_success, put_port p b)"
  "history_accept k b \<Longrightarrow> add_history_link k b = (status_success, put_history k b)"
  "evidence_accept e b \<Longrightarrow> add_evidence e b = (status_success, put_evidence e b)"
  by (auto simp: domain_accept_def domain_fits_def name_ok_def add_failure_domain_def port_accept_def
      port_fits_def add_port_def history_accept_def history_fits_def add_history_link_def
      evidence_accept_def evidence_fits_def add_evidence_def Let_def omap_count_def put_domain_def put_leaf_def put_spine_def put_port_def put_link_def put_history_def put_evidence_def
      not_le not_less split: if_splits)

interpretation domains: record_adder add_failure_domain domain_accept put_domain
  by unfold_locales
    (simp add: accepted_exact, erule refusal_grows [OF domain_refused], simp, erule put_core_cong, rule put_header_frame)

interpretation leaves: record_adder add_leaf leaf_accept put_leaf
  by unfold_locales
    (metis add_leaf_cases, metis add_leaf_cases, simp, erule put_core_cong, rule put_header_frame)

interpretation spines: record_adder add_spine spine_accept put_spine
  by unfold_locales
    (metis add_spine_cases, metis add_spine_cases, simp, erule put_core_cong, rule put_header_frame)

interpretation ports: record_adder add_port port_accept put_port
  by unfold_locales
    (simp add: accepted_exact, erule refusal_grows [OF port_refused], simp, erule put_core_cong, rule put_header_frame)

interpretation links: record_adder add_link link_accept put_link
  by unfold_locales
    (simp add: link_accepted, erule refusal_grows [OF link_refused], simp, erule put_core_cong, rule put_header_frame)

interpretation history: record_adder add_history_link history_accept put_history
  by unfold_locales
    (simp add: accepted_exact, erule refusal_grows [OF history_refused], simp, erule put_core_cong, rule put_header_frame)

interpretation evidence: record_adder add_evidence evidence_accept put_evidence
  by unfold_locales
    (simp add: accepted_exact, erule refusal_grows [OF evidence_refused], simp, erule put_core_cong, rule put_header_frame)

section \<open>The builder invariant\<close>

text \<open>A table is keyed by identity, within its bound, and holds only records that fit.\<close>

definition table_ok :: "('r \<Rightarrow> 'k::linorder) \<Rightarrow> u32 \<Rightarrow> ('r \<Rightarrow> bool) \<Rightarrow> ('k, 'r) omap \<Rightarrow> bool" where
  "table_ok idf lim fits m \<longleftrightarrow>
     omap_wf m \<and> (\<forall>(k, r)\<in>set m. idf r = k \<and> fits r) \<and> length m \<le> unat lim"

definition links_distinct :: "(link_id, link_record) omap \<Rightarrow> bool" where
  "links_distinct m \<longleftrightarrow> (\<forall>(i, k)\<in>set m. \<forall>(j, k')\<in>set m. i \<noteq> j \<longrightarrow> \<not> link_equivalent k k')"

definition builder_inv :: "fabric_builder \<Rightarrow> bool" where
  "builder_inv b \<longleftrightarrow>
     table_ok fd_id (lim_max_failure_domains (fb_limits b)) (domain_fits b) (fb_domains b)
     \<and> table_ok lf_id (lim_max_leaves (fb_limits b)) (leaf_fits b) (fb_leaves b)
     \<and> table_ok sp_id (lim_max_spines (fb_limits b)) (spine_fits b) (fb_spines b)
     \<and> table_ok pt_id (lim_max_ports (fb_limits b)) (port_fits b) (fb_ports b)
     \<and> table_ok lk_id (lim_max_links (fb_limits b)) (link_fits b) (fb_links b)
     \<and> links_distinct (fb_links b)
     \<and> table_ok lk_id (lim_max_history_records (fb_limits b)) (history_fits b) (fb_history_links b)
     \<and> list_all (evidence_fits b) (fb_evidence b)
     \<and> length (fb_evidence b) \<le> unat (lim_max_evidence_records (fb_limits b))"

lemma length_emplace: "map_of m k = None \<Longrightarrow> length (omap_emplace k v m) = Suc (length m)"
  by (induction k v m rule: omap_emplace.induct) (auto split: if_splits)

lemma table_ok_emplace:
  assumes "table_ok idf lim fits m" and "map_of m (idf r) = None" and "fits r" and "length m < unat lim"
  shows "table_ok idf lim fits (omap_emplace (idf r) r m)"
proof -
  have wf: "omap_wf m" using assms(1) by (simp add: table_ok_def)
  have "set (omap_emplace (idf r) r m) = insert (idf r, r) (set m)"
    by (rule emplace.insert_entries [OF wf assms(2)])
  with assms wf length_emplace [OF assms(2), of r] show ?thesis by (auto simp: table_ok_def)
qed

lemma table_ok_mono: "table_ok idf lim fits m \<Longrightarrow> (\<And>r. fits r \<Longrightarrow> fits' r) \<Longrightarrow> table_ok idf lim fits' m"
  by (auto simp: table_ok_def)

text \<open>A later builder: same coordinates and policy, larger tables.\<close>

definition builder_le :: "fabric_builder \<Rightarrow> fabric_builder \<Rightarrow> bool" where
  "builder_le b c \<longleftrightarrow>
     fb_generation c = fb_generation b \<and> fb_limits c = fb_limits b \<and> fb_options c = fb_options b
     \<and> map_of (fb_leaves b) \<subseteq>\<^sub>m map_of (fb_leaves c) \<and> map_of (fb_spines b) \<subseteq>\<^sub>m map_of (fb_spines c)
     \<and> map_of (fb_ports b) \<subseteq>\<^sub>m map_of (fb_ports c) \<and> map_of (fb_links b) \<subseteq>\<^sub>m map_of (fb_links c)
     \<and> map_of (fb_history_links b) \<subseteq>\<^sub>m map_of (fb_history_links c)"

lemma map_le_lookup: "m \<subseteq>\<^sub>m m' \<Longrightarrow> m k = Some v \<Longrightarrow> m' k = Some v"
  by (metis domI map_le_def)

lemma count_mono: "map_of m \<subseteq>\<^sub>m map_of m' \<Longrightarrow> omap_count m k \<Longrightarrow> omap_count m' k"
  unfolding omap_count_def using map_le_lookup [of "map_of m" "map_of m'" k] by fastforce

lemma endpoint_mono: "builder_le b c \<Longrightarrow> endpoint_exists b key \<Longrightarrow> endpoint_exists c key"
  by (auto simp: endpoint_exists_def builder_le_def intro: count_mono)

lemma port_belongs_lookup:
  "port_belongs b p key \<longleftrightarrow> (\<exists>r. map_of (fb_ports b) p = Some r \<and> pt_owner r = key)"
  by (simp add: port_belongs_def split: option.split)

lemma port_mono:
  assumes "builder_le b c" and "port_belongs b p key"
  shows "port_belongs c p key" and "map_of (fb_ports c) p = map_of (fb_ports b) p"
proof -
  obtain r where r: "map_of (fb_ports b) p = Some r" "pt_owner r = key"
    using assms(2) by (auto simp: port_belongs_lookup)
  then have "map_of (fb_ports c) p = Some r" using assms(1)
    by (auto simp: builder_le_def intro: map_le_lookup)
  with r show "port_belongs c p key" "map_of (fb_ports c) p = map_of (fb_ports b) p"
    by (simp_all add: port_belongs_lookup)
qed

lemma leaf_lookup_mono:
  "builder_le b c \<Longrightarrow> endpoint_exists b key \<Longrightarrow> nk_tier key = Leaf \<Longrightarrow>
     map_of (fb_leaves c) (nk_index key) = map_of (fb_leaves b) (nk_index key)"
  by (auto simp: builder_le_def endpoint_exists_def omap_count_def dest: map_le_lookup)

lemma fits_mono:
  assumes "builder_le b c"
  shows "domain_fits b d \<Longrightarrow> domain_fits c d" "leaf_fits b l \<Longrightarrow> leaf_fits c l"
    "spine_fits b s \<Longrightarrow> spine_fits c s" "port_fits b p \<Longrightarrow> port_fits c p"
    "history_fits b k \<Longrightarrow> history_fits c k" "evidence_fits b e \<Longrightarrow> evidence_fits c e"
  using assms endpoint_mono [OF assms] count_mono [of "fb_links b" "fb_links c"]
    count_mono [of "fb_history_links b" "fb_history_links c"]
  by (auto simp: builder_le_def domain_fits_def leaf_fits_def spine_fits_def port_fits_def
      history_fits_def evidence_fits_def name_ok_def)

lemma link_fits_mono: "builder_le b c \<Longrightarrow> link_fits b k \<Longrightarrow> link_fits c k"
proof -
  assume le: "builder_le b c" and fits: "link_fits b k"
  then have e: "endpoint_exists b (lk_a k)" "endpoint_exists b (lk_b k)"
    and p: "port_belongs b (lk_port_a k) (lk_a k)" "port_belongs b (lk_port_b k) (lk_b k)"
    by (simp_all add: link_fits_def)
  have "slower_port_speed c k = slower_port_speed b k"
    by (simp add: slower_port_speed_def port_mono(2) [OF le p(1)] port_mono(2) [OF le p(2)])
  with fits le e p show ?thesis
    using endpoint_mono [OF le] port_mono(1) [OF le] leaf_lookup_mono [OF le e(1)] leaf_lookup_mono [OF le e(2)]
    by (auto simp: link_fits_def builder_le_def)
qed

lemma map_le_emplace: "omap_wf m \<Longrightarrow> map_of m k = None \<Longrightarrow> map_of m \<subseteq>\<^sub>m map_of (omap_emplace k v m)"
  by (simp add: map_of_emplace map_le_def dom_def)

lemma builder_le_put:
  assumes "builder_inv b"
  shows "domain_accept d b \<Longrightarrow> builder_le b (put_domain d b)" "leaf_accept l b \<Longrightarrow> builder_le b (put_leaf l b)"
    "spine_accept s b \<Longrightarrow> builder_le b (put_spine s b)" "port_accept p b \<Longrightarrow> builder_le b (put_port p b)"
    "link_accept k b \<Longrightarrow> builder_le b (put_link k b)" "history_accept k b \<Longrightarrow> builder_le b (put_history k b)"
    "evidence_accept e b \<Longrightarrow> builder_le b (put_evidence e b)"
  using assms
  by (auto simp: builder_le_def builder_inv_def table_ok_def map_le_emplace put_domain_def put_leaf_def put_spine_def put_port_def put_link_def put_history_def put_evidence_def domain_accept_def leaf_accept_def spine_accept_def port_accept_def link_accept_def history_accept_def evidence_accept_def)

lemma builder_inv_core: "builder_inv (builder_core b) = builder_inv b"
  by (simp add: builder_inv_def builder_core_def domain_fits_def leaf_fits_def spine_fits_def port_fits_def
      link_fits_def history_fits_def evidence_fits_def name_ok_def endpoint_exists_def port_belongs_def
      slower_port_speed_def table_ok_def list_all_iff)

lemma builder_inv_cong: "builder_core b = builder_core c \<Longrightarrow> builder_inv b = builder_inv c"
  by (metis builder_inv_core)

lemma link_equivalent_sym: "link_equivalent k j = link_equivalent j k"
  by (auto simp: link_equivalent_def)

lemma links_distinct_emplace:
  assumes "omap_wf m" and "links_distinct m" and "map_of m i = None"
    and "\<forall>(j, other)\<in>set m. \<not> link_equivalent k other"
  shows "links_distinct (omap_emplace i k m)"
  using assms link_equivalent_sym unfolding links_distinct_def
  by (auto simp: emplace.insert_entries)

lemma builder_inv_tables:
  assumes "builder_inv b" and "builder_le b c"
  shows "table_ok fd_id (lim_max_failure_domains (fb_limits b)) (domain_fits c) (fb_domains b)"
    "table_ok lf_id (lim_max_leaves (fb_limits b)) (leaf_fits c) (fb_leaves b)"
    "table_ok sp_id (lim_max_spines (fb_limits b)) (spine_fits c) (fb_spines b)"
    "table_ok pt_id (lim_max_ports (fb_limits b)) (port_fits c) (fb_ports b)"
    "table_ok lk_id (lim_max_links (fb_limits b)) (link_fits c) (fb_links b)"
    "links_distinct (fb_links b)"
    "table_ok lk_id (lim_max_history_records (fb_limits b)) (history_fits c) (fb_history_links b)"
    "list_all (evidence_fits c) (fb_evidence b)"
    "length (fb_evidence b) \<le> unat (lim_max_evidence_records (fb_limits b))"
  using assms(1) fits_mono [OF assms(2)] link_fits_mono [OF assms(2)]
  by (auto simp: builder_inv_def list_all_iff intro: table_ok_mono)

lemma put_domain_inv: "builder_inv b \<Longrightarrow> domain_accept d b \<Longrightarrow> builder_inv (put_domain d b)"
proof -
  assume inv: "builder_inv b" and acc: "domain_accept d b"
  define c where "c = put_domain d b"
  have le: "builder_le b c" unfolding c_def by (rule builder_le_put(1) [OF inv acc])
  have eqs: "fb_domains c = omap_emplace (fd_id d) d (fb_domains b)" "fb_leaves c = fb_leaves b" "fb_spines c = fb_spines b" "fb_ports c = fb_ports b"
    "fb_links c = fb_links b" "fb_history_links c = fb_history_links b" "fb_evidence c = fb_evidence b" "fb_limits c = fb_limits b"
    by (simp_all add: c_def put_domain_def)
  have "domain_fits c d" using acc by (intro fits_mono(1) [OF le]) (simp add: domain_accept_def)
  with acc builder_inv_tables [OF inv le] show ?thesis unfolding c_def [symmetric]
    by (auto simp: builder_inv_def eqs domain_accept_def intro: table_ok_emplace)
qed

lemma put_leaf_inv: "builder_inv b \<Longrightarrow> leaf_accept l b \<Longrightarrow> builder_inv (put_leaf l b)"
proof -
  assume inv: "builder_inv b" and acc: "leaf_accept l b"
  define c where "c = put_leaf l b"
  have le: "builder_le b c" unfolding c_def by (rule builder_le_put(2) [OF inv acc])
  have eqs: "fb_domains c = fb_domains b" "fb_leaves c = omap_emplace (lf_id l) l (fb_leaves b)" "fb_spines c = fb_spines b" "fb_ports c = fb_ports b"
    "fb_links c = fb_links b" "fb_history_links c = fb_history_links b" "fb_evidence c = fb_evidence b" "fb_limits c = fb_limits b"
    by (simp_all add: c_def put_leaf_def)
  have "leaf_fits c l" using acc by (intro fits_mono(2) [OF le]) (simp add: leaf_accept_def)
  with acc builder_inv_tables [OF inv le] show ?thesis unfolding c_def [symmetric]
    by (auto simp: builder_inv_def eqs leaf_accept_def intro: table_ok_emplace)
qed

lemma put_spine_inv: "builder_inv b \<Longrightarrow> spine_accept s b \<Longrightarrow> builder_inv (put_spine s b)"
proof -
  assume inv: "builder_inv b" and acc: "spine_accept s b"
  define c where "c = put_spine s b"
  have le: "builder_le b c" unfolding c_def by (rule builder_le_put(3) [OF inv acc])
  have eqs: "fb_domains c = fb_domains b" "fb_leaves c = fb_leaves b" "fb_spines c = omap_emplace (sp_id s) s (fb_spines b)" "fb_ports c = fb_ports b"
    "fb_links c = fb_links b" "fb_history_links c = fb_history_links b" "fb_evidence c = fb_evidence b" "fb_limits c = fb_limits b"
    by (simp_all add: c_def put_spine_def)
  have "spine_fits c s" using acc by (intro fits_mono(3) [OF le]) (simp add: spine_accept_def)
  with acc builder_inv_tables [OF inv le] show ?thesis unfolding c_def [symmetric]
    by (auto simp: builder_inv_def eqs spine_accept_def intro: table_ok_emplace)
qed

lemma put_port_inv: "builder_inv b \<Longrightarrow> port_accept p b \<Longrightarrow> builder_inv (put_port p b)"
proof -
  assume inv: "builder_inv b" and acc: "port_accept p b"
  define c where "c = put_port p b"
  have le: "builder_le b c" unfolding c_def by (rule builder_le_put(4) [OF inv acc])
  have eqs: "fb_domains c = fb_domains b" "fb_leaves c = fb_leaves b" "fb_spines c = fb_spines b" "fb_ports c = omap_emplace (pt_id p) p (fb_ports b)"
    "fb_links c = fb_links b" "fb_history_links c = fb_history_links b" "fb_evidence c = fb_evidence b" "fb_limits c = fb_limits b"
    by (simp_all add: c_def put_port_def)
  have "port_fits c p" using acc by (intro fits_mono(4) [OF le]) (simp add: port_accept_def)
  with acc builder_inv_tables [OF inv le] show ?thesis unfolding c_def [symmetric]
    by (auto simp: builder_inv_def eqs port_accept_def intro: table_ok_emplace)
qed

lemma put_link_inv: "builder_inv b \<Longrightarrow> link_accept k b \<Longrightarrow> builder_inv (put_link k b)"
proof -
  assume inv: "builder_inv b" and acc: "link_accept k b"
  define c where "c = put_link k b"
  have le: "builder_le b c" unfolding c_def by (rule builder_le_put(5) [OF inv acc])
  have eqs: "fb_domains c = fb_domains b" "fb_leaves c = fb_leaves b" "fb_spines c = fb_spines b" "fb_ports c = fb_ports b"
    "fb_links c = omap_emplace (lk_id k) k (fb_links b)" "fb_history_links c = fb_history_links b" "fb_evidence c = fb_evidence b" "fb_limits c = fb_limits b"
    by (simp_all add: c_def put_link_def)
  have "link_fits c k" using acc by (intro link_fits_mono [OF le]) (simp add: link_accept_def)
  moreover have "links_distinct (fb_links c)"
    using acc inv unfolding eqs
    by (intro links_distinct_emplace) (auto simp: builder_inv_def table_ok_def link_accept_def)
  ultimately show ?thesis using acc builder_inv_tables [OF inv le] unfolding c_def [symmetric]
    by (auto simp: builder_inv_def eqs link_accept_def intro: table_ok_emplace)
qed

lemma put_history_inv: "builder_inv b \<Longrightarrow> history_accept k b \<Longrightarrow> builder_inv (put_history k b)"
proof -
  assume inv: "builder_inv b" and acc: "history_accept k b"
  define c where "c = put_history k b"
  have le: "builder_le b c" unfolding c_def by (rule builder_le_put(6) [OF inv acc])
  have eqs: "fb_domains c = fb_domains b" "fb_leaves c = fb_leaves b" "fb_spines c = fb_spines b" "fb_ports c = fb_ports b"
    "fb_links c = fb_links b" "fb_history_links c = omap_emplace (lk_id k) k (fb_history_links b)" "fb_evidence c = fb_evidence b" "fb_limits c = fb_limits b"
    by (simp_all add: c_def put_history_def)
  have "history_fits c k" using acc by (intro fits_mono(5) [OF le]) (simp add: history_accept_def)
  with acc builder_inv_tables [OF inv le] show ?thesis unfolding c_def [symmetric]
    by (auto simp: builder_inv_def eqs history_accept_def intro: table_ok_emplace)
qed

lemma put_evidence_inv: "builder_inv b \<Longrightarrow> evidence_accept e b \<Longrightarrow> builder_inv (put_evidence e b)"
proof -
  assume inv: "builder_inv b" and acc: "evidence_accept e b"
  define c where "c = put_evidence e b"
  have le: "builder_le b c" unfolding c_def by (rule builder_le_put(7) [OF inv acc])
  have eqs: "fb_domains c = fb_domains b" "fb_leaves c = fb_leaves b" "fb_spines c = fb_spines b" "fb_ports c = fb_ports b"
    "fb_links c = fb_links b" "fb_history_links c = fb_history_links b" "fb_evidence c = fb_evidence b @ [e]" "fb_limits c = fb_limits b"
    by (simp_all add: c_def put_evidence_def)
  have "evidence_fits c e" using acc by (intro fits_mono(6) [OF le]) (simp add: evidence_accept_def)
  with acc builder_inv_tables [OF inv le] show ?thesis unfolding c_def [symmetric]
    by (auto simp: builder_inv_def eqs evidence_accept_def Suc_le_eq intro: order.strict_implies_order)
qed

locale invariant_adder = record_adder +
  fixes inv :: "fabric_builder \<Rightarrow> bool"
  assumes inv_cong: "builder_core b = builder_core c \<Longrightarrow> inv b = inv c"
    and put_inv: "inv b \<Longrightarrow> accept r b \<Longrightarrow> inv (put r b)"
begin

lemma add_inv: "inv b \<Longrightarrow> inv (snd (add r b))"
  using add_core [of r b] put_inv [of b r] inv_cong by (metis (full_types))

lemma add_client:
  "inv b \<Longrightarrow> report_inv (fb_report b) \<Longrightarrow> inv (snd (add r b)) \<and> report_inv (fb_report (snd (add r b)))"
  by (simp add: add_inv add_report_inv)

lemma add_all_inv: "inv b \<Longrightarrow> inv (snd (add_all add rs b))"
  by (induction rs arbitrary: b) (auto simp: split_def add_inv)

end

interpretation domains_inv: invariant_adder add_failure_domain domain_accept put_domain builder_inv
  by unfold_locales (erule builder_inv_cong, erule (1) put_domain_inv)

interpretation leaves_inv: invariant_adder add_leaf leaf_accept put_leaf builder_inv
  by unfold_locales (erule builder_inv_cong, erule (1) put_leaf_inv)

interpretation spines_inv: invariant_adder add_spine spine_accept put_spine builder_inv
  by unfold_locales (erule builder_inv_cong, erule (1) put_spine_inv)

interpretation ports_inv: invariant_adder add_port port_accept put_port builder_inv
  by unfold_locales (erule builder_inv_cong, erule (1) put_port_inv)

interpretation links_inv: invariant_adder add_link link_accept put_link builder_inv
  by unfold_locales (erule builder_inv_cong, erule (1) put_link_inv)

interpretation history_inv: invariant_adder add_history_link history_accept put_history builder_inv
  by unfold_locales (erule builder_inv_cong, erule (1) put_history_inv)

interpretation evidence_inv: invariant_adder add_evidence evidence_accept put_evidence builder_inv
  by unfold_locales (erule builder_inv_cong, erule (1) put_evidence_inv)

section \<open>Freeze\<close>

definition validated :: "fabric_builder \<Rightarrow> fabric_builder" where
  "validated b = validate_evidence (validate_links (validate_ports (validate_domains (b\<lparr>fb_frozen := True\<rparr>))))"

definition graph_clean :: "fabric_builder \<Rightarrow> bool" where
  "graph_clean b \<longleftrightarrow> (\<forall>(i, l)\<in>set (fb_links b). link_usable b l)
     \<and> (\<forall>e\<in>set (fb_evidence b). ev_generation e \<le> fb_generation b)"

lemma grows_validated: "report_grows (graph_clean b) (b\<lparr>fb_frozen := True\<rparr>) (validated b)"
proof -
  let ?b0 = "b\<lparr>fb_frozen := True\<rparr>"
  let ?b2 = "validate_ports (validate_domains ?b0)"
  have g2: "report_grows True ?b0 ?b2"
    by (rule report_grows_trans_clean [OF grows_validate_domains grows_validate_ports])
  have g3: "report_grows (\<forall>(i, l)\<in>set (fb_links ?b2). link_usable ?b2 l) ?b0 (validate_links ?b2)"
    using report_grows_trans [OF g2 grows_validate_links] by simp
  have core: "builder_core ?b2 = builder_core b" using grows_core(1) [OF g2] by (simp add: builder_core_def)
  have core3: "builder_core (validate_links ?b2) = builder_core b"
    using grows_core(1) [OF g3] by (simp add: builder_core_def)
  show ?thesis
    using report_grows_trans [OF g3 grows_validate_evidence] builder_core_fields [OF core]
      builder_core_fields [OF core3] link_usable_core [OF core]
    by (simp add: validated_def graph_clean_def)
qed

lemma undigested_core: "undigested_fabric (builder_core b) = undigested_fabric b"
  by (simp add: undigested_fabric_def builder_core_def)

lemma finish_report_frame:
  "builder_core (snd (finish_report b)) = builder_core b"
  by (simp add: finish_report_def Let_def builder_core_def split: option.split)

lemma finish_report_ok:
  assumes "report_inv (fb_report b)"
  shows "status_ok (fst (finish_report b)) \<longleftrightarrow> rep_error_count (fb_report b) = 0"
proof -
  have "is_code i \<noteq> SC_Ok" if "find (\<lambda>i. is_severity i = IS_Error) (rep_issues (fb_report b)) = Some i" for i
    using assms that by (auto simp: report_inv_def report_errors_def find_Some_iff)
  then show ?thesis by (auto simp: finish_report_def Let_def split: option.split)
qed

lemma freeze_unfold:
  assumes "\<not> fb_frozen b"
  shows "freeze b = (if status_ok (fst (finish_report (validated b)))
      then (Inr (with_digests (undigested_fabric b)), snd (finish_report (validated b)))
      else (Inl (fst (finish_report (validated b))), snd (finish_report (validated b))))"
proof -
  have "builder_core (validated b) = builder_core (b\<lparr>fb_frozen := True\<rparr>)"
    by (rule grows_core(1) [OF grows_validated])
  then have "builder_core (validated b) = builder_core b" by (simp add: builder_core_def)
  then have "builder_core (snd (finish_report (validated b))) = builder_core b"
    by (simp add: finish_report_frame)
  then have "undigested_fabric (snd (finish_report (validated b))) = undigested_fabric b"
    by (metis undigested_core)
  with assms show ?thesis by (auto simp: freeze_def validated_def [symmetric] split_def)
qed

lemma error_count_zero:
  assumes "report_inv rep" and "length (rep_issues rep) < 2 ^ 32"
  shows "rep_error_count rep = 0 \<longleftrightarrow> report_errors rep = []"
proof -
  have le: "length (report_errors rep) < 2 ^ 32"
    using le_less_trans [OF length_filter_le assms(2)] by (simp add: report_errors_def)
  have "unat (rep_error_count rep) = length (report_errors rep)"
    using assms(1) le by (simp add: report_inv_def unat_of_nat)
  then show ?thesis by (metis length_0_conv unat_eq_zero)
qed

lemma freeze_success_iff:
  assumes "\<not> fb_frozen b" and "report_inv (fb_report b)"
    and "length (rep_issues (fb_report (snd (freeze b)))) < 2 ^ 32"
  shows "(\<exists>f. fst (freeze b) = Inr f) \<longleftrightarrow> report_errors (fb_report b) = [] \<and> graph_clean b"
proof -
  let ?v = "validated b"
  have g: "report_grows (graph_clean b) (b\<lparr>fb_frozen := True\<rparr>) ?v" by (rule grows_validated)
  have inv: "report_inv (fb_report ?v)" using g assms(2) by (simp add: report_grows_def)
  have issues: "rep_issues (fb_report (snd (finish_report ?v))) = rep_issues (fb_report ?v)"
    by (simp add: finish_report_def Let_def split: option.split)
  have "rep_issues (fb_report (snd (freeze b))) = rep_issues (fb_report ?v)"
    using assms(1) issues by (simp add: freeze_unfold)
  with assms(3) have "length (rep_issues (fb_report ?v)) < 2 ^ 32" by simp
  then have ok: "status_ok (fst (finish_report ?v)) \<longleftrightarrow> report_errors (fb_report ?v) = []"
    using finish_report_ok [OF inv] error_count_zero [OF inv] by simp
  obtain new where "rep_issues (fb_report ?v) = rep_issues (fb_report b) @ new"
    using g by (auto simp: report_grows_def)
  then obtain es where "report_errors (fb_report ?v) = report_errors (fb_report b) @ es"
    using report_errors_grow by blast
  moreover have "graph_clean b \<longleftrightarrow> report_errors (fb_report ?v) = report_errors (fb_report b)"
    using g by (simp add: report_grows_def)
  ultimately show ?thesis using ok assms(1) by (auto simp: freeze_unfold)
qed

lemma freeze_result: "fst (freeze b) = Inr f \<Longrightarrow> \<not> fb_frozen b \<and> f = with_digests (undigested_fabric b)"
proof (cases "fb_frozen b")
  case False
  assume "fst (freeze b) = Inr f"
  with False show ?thesis unfolding freeze_unfold [OF False] by (auto split: if_splits)
qed (simp add: freeze_def)

lemma freeze_succeeds:
  assumes "\<not> fb_frozen b" and "report_inv (fb_report b)" and "report_errors (fb_report b) = []" and "graph_clean b"
  shows "fst (freeze b) = Inr (with_digests (undigested_fabric b))"
proof -
  let ?v = "validated b"
  have g: "report_grows True (b\<lparr>fb_frozen := True\<rparr>) ?v" using grows_validated [of b] assms(4) by simp
  then have "report_inv (fb_report ?v)" "report_errors (fb_report ?v) = []"
    using assms(2,3) by (auto simp: report_grows_def)
  then have "status_ok (fst (finish_report ?v))" by (simp add: finish_report_ok) (simp add: report_inv_def)
  with assms(1) show ?thesis by (simp add: freeze_unfold)
qed

section \<open>Reachable builders\<close>

text \<open>Every builder a client can hold: construction followed by calls in any order.\<close>

inductive builder_reachable :: "fabric_builder \<Rightarrow> bool" where
  construct: "builder_reachable (new_builder ident name gen ep options limits)"
| site: "builder_reachable b \<Longrightarrow> builder_reachable (snd (set_site t b))"
| state: "builder_reachable b \<Longrightarrow> builder_reachable (snd (set_state st b))"
| domain: "builder_reachable b \<Longrightarrow> builder_reachable (snd (add_failure_domain d b))"
| leaf: "builder_reachable b \<Longrightarrow> builder_reachable (snd (add_leaf l b))"
| spine: "builder_reachable b \<Longrightarrow> builder_reachable (snd (add_spine s b))"
| port: "builder_reachable b \<Longrightarrow> builder_reachable (snd (add_port p b))"
| link: "builder_reachable b \<Longrightarrow> builder_reachable (snd (add_link k b))"
| history: "builder_reachable b \<Longrightarrow> builder_reachable (snd (add_history_link k b))"
| evidence: "builder_reachable b \<Longrightarrow> builder_reachable (snd (add_evidence e b))"
| frozen: "builder_reachable b \<Longrightarrow> builder_reachable (snd (freeze b))"

definition header_inv :: "fabric_builder \<Rightarrow> bool" where
  "header_inv b \<longleftrightarrow>
     (report_errors (fb_report b) = [] \<longrightarrow> name_ok b (fb_name b) \<and> opt_min_eligible_spines (fb_options b) \<noteq> 0)
     \<and> (fb_site b = [] \<or> name_ok b (fb_site b))"

lemma header_inv_mono:
  assumes "header_inv b" and "builder_header c = builder_header b"
    and "report_errors (fb_report c) = [] \<Longrightarrow> report_errors (fb_report b) = []"
  shows "header_inv c"
  using assms by (auto simp: header_inv_def builder_header_def name_ok_def)

definition client_inv :: "fabric_builder \<Rightarrow> bool" where
  "client_inv b \<longleftrightarrow> builder_inv b \<and> report_inv (fb_report b) \<and> header_inv b"

lemma core_new_builder:
  "builder_core (new_builder ident name gen ep options limits) =
     \<lparr>fb_id = ident, fb_name = name, fb_site = [], fb_fabric_state = FS_Operational,
      fb_generation = gen, fb_epoch = ep, fb_options = options, fb_limits = limits,
      fb_domains = [], fb_leaves = [], fb_spines = [], fb_ports = [], fb_links = [],
      fb_history_links = [], fb_evidence = [], fb_report = empty_report, fb_frozen = False\<rparr>"
  by (auto simp: new_builder_def Let_def split: name_verdict.split) (simp_all add: builder_core_def)

lemma new_builder_thawed: "\<not> fb_frozen (new_builder ident name gen ep options limits)"
  by (auto simp: new_builder_def Let_def note_issue_def split: name_verdict.split)

lemma new_builder_errors:
  "report_errors (fb_report (new_builder ident name gen ep options limits)) = [] \<longleftrightarrow>
     check_name name (lim_max_name_bytes limits) = NV_Acceptable \<and> opt_min_eligible_spines options \<noteq> 0"
  by (auto simp: new_builder_def Let_def note_issue_def split: name_verdict.split)

lemma new_builder_report: "report_inv (fb_report (new_builder ident name gen ep options limits))"
  by (auto simp: new_builder_def Let_def note_issue_def split: name_verdict.split)

lemma client_inv_new: "client_inv (new_builder ident name gen ep options limits)"
proof -
  let ?b = "new_builder ident name gen ep options limits"
  have "builder_inv (builder_core ?b)"
    unfolding core_new_builder by (simp add: builder_inv_def table_ok_def links_distinct_def)
  moreover have "header_inv ?b"
    using builder_core_fields [of ?b "builder_core ?b", unfolded core_new_builder]
    by (simp add: header_inv_def new_builder_errors name_ok_def builder_core_def core_new_builder)
  ultimately show ?thesis by (simp add: client_inv_def builder_inv_core new_builder_report)
qed

lemma client_inv_add:
  assumes "client_inv b"
  shows "client_inv (snd (add_failure_domain d b))" "client_inv (snd (add_leaf l b))"
    "client_inv (snd (add_spine s b))" "client_inv (snd (add_port p b))" "client_inv (snd (add_link k b))"
    "client_inv (snd (add_history_link k b))" "client_inv (snd (add_evidence e b))"
  using assms header_inv_mono [OF _ domains.add_header domains.add_errors, of b d]
    header_inv_mono [OF _ leaves.add_header leaves.add_errors, of b l]
    header_inv_mono [OF _ spines.add_header spines.add_errors, of b s]
    header_inv_mono [OF _ ports.add_header ports.add_errors, of b p]
    header_inv_mono [OF _ links.add_header links.add_errors, of b k]
    header_inv_mono [OF _ history.add_header history.add_errors, of b k]
    header_inv_mono [OF _ evidence.add_header evidence.add_errors, of b e]
  by (simp_all add: client_inv_def domains_inv.add_client leaves_inv.add_client spines_inv.add_client
      ports_inv.add_client links_inv.add_client history_inv.add_client evidence_inv.add_client)

lemma builder_inv_site: "builder_inv (b\<lparr>fb_site := t\<rparr>) = builder_inv b"
  "builder_inv (b\<lparr>fb_fabric_state := st\<rparr>) = builder_inv b"
  by (simp_all add: builder_inv_def domain_fits_def leaf_fits_def spine_fits_def port_fits_def
      link_fits_def history_fits_def evidence_fits_def name_ok_def endpoint_exists_def port_belongs_def
      slower_port_speed_def table_ok_def list_all_iff)

lemma header_inv_fields:
  "header_inv (b\<lparr>fb_fabric_state := st\<rparr>) = header_inv b"
  "t = [] \<or> name_ok b t \<Longrightarrow> header_inv b \<Longrightarrow> header_inv (b\<lparr>fb_site := t\<rparr>)"
  by (auto simp: header_inv_def name_ok_def)

lemma grows_errors:
  "report_grows p b c \<Longrightarrow> report_errors (fb_report c) = [] \<Longrightarrow> report_errors (fb_report b) = []"
  by (auto simp: report_grows_def report_errors_def)

lemma refusal_client: "client_inv b \<Longrightarrow> refusal b res \<Longrightarrow> client_inv (snd res)"
proof -
  assume inv: "client_inv b" and "refusal b res"
  then have g: "report_grows (fb_frozen b) b (snd res)" using refusal_grows by blast
  then have core: "builder_core (snd res) = builder_core b" by (rule grows_core)
  then have "builder_header (snd res) = builder_header b" by (metis builder_header_core)
  from header_inv_mono [OF _ this grows_errors [OF g]] have "header_inv (snd res)"
    using inv by (simp add: client_inv_def)
  with inv g builder_inv_cong [OF core] show ?thesis by (simp add: client_inv_def report_grows_def)
qed

lemma set_site_cases:
  "refusal b (set_site t b)
     \<or> (set_site t b = (status_success, b\<lparr>fb_site := t\<rparr>) \<and> (t = [] \<or> name_ok b t) \<and> \<not> fb_frozen b)"
proof (cases "fb_frozen b")
  case False
  show ?thesis unfolding set_site_def if_not_P [OF False] name_ok_def
    by (cases "t = []"; cases "check_name t (lim_max_name_bytes (fb_limits b))") (simp_all add: refusal_note False)
qed (simp add: set_site_def refusal_def)

lemma client_inv_site: "client_inv b \<Longrightarrow> client_inv (snd (set_site t b))"
  using set_site_cases [of b t] refusal_client [of b "set_site t b"]
  by (auto simp: client_inv_def builder_inv_site header_inv_fields)

lemma client_inv_state: "client_inv b \<Longrightarrow> client_inv (snd (set_state st b))"
  by (simp add: set_state_def client_inv_def builder_inv_site header_inv_fields)

lemma client_inv_freeze: "client_inv b \<Longrightarrow> client_inv (snd (freeze b))"
proof (cases "fb_frozen b")
  case False
  assume inv: "client_inv b"
  let ?v = "validated b" and ?c = "snd (finish_report (validated b))"
  have g: "report_grows (graph_clean b) (b\<lparr>fb_frozen := True\<rparr>) ?v" by (rule grows_validated)
  have core: "builder_core ?c = builder_core b"
    unfolding finish_report_frame grows_core(1) [OF g] by (simp add: builder_core_def)
  have rep: "report_inv (fb_report ?c) = report_inv (fb_report ?v)"
    "report_errors (fb_report ?c) = report_errors (fb_report ?v)"
    by (simp_all add: finish_report_def Let_def report_inv_def report_errors_def split: option.split)
  have "header_inv ?c"
  proof (rule header_inv_mono [of b])
    show "builder_header ?c = builder_header b" using core by (metis builder_header_core)
    show "report_errors (fb_report ?c) = [] \<Longrightarrow> report_errors (fb_report b) = []"
      using g rep by (auto simp: report_grows_def report_errors_def)
  qed (use inv in \<open>simp add: client_inv_def\<close>)
  moreover have "report_inv (fb_report ?c)" using g inv rep by (simp add: report_grows_def client_inv_def)
  ultimately have "client_inv ?c" using inv builder_inv_cong [OF core] by (simp add: client_inv_def)
  then show ?thesis using False by (simp add: freeze_unfold)
qed (simp add: freeze_def)

lemma reachable_client_inv: "builder_reachable b \<Longrightarrow> client_inv b"
  by (induction rule: builder_reachable.induct)
    (simp_all add: client_inv_new client_inv_site client_inv_state client_inv_add client_inv_freeze)

section \<open>The fabric a freeze returns\<close>

text \<open>Structural well-formedness of a fabric, in terms of its own lookups.\<close>

definition node_exists :: "fabric \<Rightarrow> node_key \<Rightarrow> bool" where
  "node_exists f key = (fabric_node_state f key \<noteq> None)"

definition link_wf :: "builder_limits \<Rightarrow> fabric \<Rightarrow> link_record \<Rightarrow> bool" where
  "link_wf lim f l \<longleftrightarrow>
     lk_id l \<noteq> 0 \<and> lk_generation l = fab_generation f \<and> lk_a l \<noteq> lk_b l
     \<and> node_exists f (lk_a l) \<and> node_exists f (lk_b l)
     \<and> (lk_cls l = LC_SameTierPeer \<longleftrightarrow> nk_tier (lk_a l) = nk_tier (lk_b l))
     \<and> (lk_cls l = LC_SameTierPeer \<longrightarrow> opt_allow_same_tier_adjacency (fab_options f))
     \<and> (\<exists>pa pb speed. find_port f (lk_port_a l) = Some pa \<and> pt_owner pa = lk_a l
          \<and> find_port f (lk_port_b l) = Some pb \<and> pt_owner pb = lk_b l
          \<and> effective_link_speed_mbps f l = Some speed \<and> speed \<noteq> 0
          \<and> speed \<le> pt_speed_mbps pa \<and> speed \<le> pt_speed_mbps pb
          \<and> speed \<le> lim_max_capacity_mbps lim)
     \<and> (nk_tier (lk_a l) = Leaf \<and> nk_tier (lk_b l) = Leaf \<longrightarrow>
          (\<exists>la lb. find_leaf f (nk_index (lk_a l)) = Some la \<and> is_peer_capable (lf_role la)
             \<and> find_leaf f (nk_index (lk_b l)) = Some lb \<and> is_peer_capable (lf_role lb)))"

definition fabric_wf :: "builder_limits \<Rightarrow> fabric \<Rightarrow> bool" where
  "fabric_wf lim f \<longleftrightarrow>
     tables_sorted f
     \<and> check_name (fab_name f) (lim_max_name_bytes lim) = NV_Acceptable
     \<and> opt_min_eligible_spines (fab_options f) \<noteq> 0
     \<and> (\<forall>l\<in>set (fab_leaves f). lf_id l \<noteq> 0 \<and> lf_generation l = fab_generation f
          \<and> lf_access_capacity_mbps l \<le> lim_max_capacity_mbps lim)
     \<and> (\<forall>s\<in>set (fab_spines f). sp_id s \<noteq> 0 \<and> sp_generation s = fab_generation f
          \<and> sp_fabric_capacity_mbps s \<le> lim_max_capacity_mbps lim)
     \<and> (\<forall>p\<in>set (fab_ports f). pt_id p \<noteq> 0 \<and> pt_generation p = fab_generation f
          \<and> node_exists f (pt_owner p) \<and> pt_speed_mbps p \<le> lim_max_capacity_mbps lim)
     \<and> (\<forall>l\<in>set (fab_links f). link_wf lim f l)
     \<and> (\<forall>k\<in>set (fab_links f). \<forall>l\<in>set (fab_links f). lk_id k \<noteq> lk_id l \<longrightarrow> \<not> link_equivalent k l)
     \<and> (\<forall>l\<in>set (fab_history_links f). lk_generation l < fab_generation f)
     \<and> (\<forall>e\<in>set (fab_evidence f). ev_generation e \<le> fab_generation f
          \<and> ev_link e \<in> lk_id ` (set (fab_links f) \<union> set (fab_history_links f)))
     \<and> (fab_topology_digest f, fab_evidence_digest f) = compute_digests f"

interpretation any_table: record_table idf "table_find idf" for idf :: "'r \<Rightarrow> 'k::linorder"
  by unfold_locales (rule table_find_iff)

lemma keyed_values:
  assumes "table_ok idf lim fits m"
  shows "map idf (map snd m) = map fst m" and "sorted_wrt (<) (map idf (map snd m))"
    and "table_find idf (map snd m) k = map_of m k"
proof -
  show keys: "map idf (map snd m) = map fst m" using assms by (auto simp: table_ok_def)
  show sorted: "sorted_wrt (<) (map idf (map snd m))"
    unfolding keys using assms by (simp add: table_ok_def omap_wf_def)
  have "map (\<lambda>x. (idf x, x)) (map snd m) = m"
    unfolding map_map by (rule map_idI) (use assms in \<open>auto simp: table_ok_def\<close>)
  then show "table_find idf (map snd m) k = map_of m k"
    using any_table.find_map_of [OF sorted] by simp
qed

definition frozen_fabric :: "fabric_builder \<Rightarrow> fabric" where
  "frozen_fabric b = with_digests (undigested_fabric b)"

lemma frozen_fields [simp]:
  "fab_name (frozen_fabric b) = fb_name b" "fab_generation (frozen_fabric b) = fb_generation b"
  "fab_options (frozen_fabric b) = fb_options b" "fab_domains (frozen_fabric b) = map snd (fb_domains b)"
  "fab_leaves (frozen_fabric b) = map snd (fb_leaves b)" "fab_spines (frozen_fabric b) = map snd (fb_spines b)"
  "fab_ports (frozen_fabric b) = map snd (fb_ports b)" "fab_links (frozen_fabric b) = map snd (fb_links b)"
  "fab_history_links (frozen_fabric b) = map snd (fb_history_links b)"
  "fab_evidence (frozen_fabric b) = std_sort evidence_less (fb_evidence b)"
  "fab_id (frozen_fabric b) = fb_id b" "fab_site (frozen_fabric b) = fb_site b"
  "fab_epoch (frozen_fabric b) = fb_epoch b" "fab_state (frozen_fabric b) = fb_fabric_state b"
  by (simp_all add: frozen_fabric_def with_digests_def undigested_fabric_def)

lemma canonical_digest_free:
  "canonical_topology_bytes (f\<lparr>fab_topology_digest := t, fab_evidence_digest := e\<rparr>) = canonical_topology_bytes f"
  "canonical_evidence_bytes (f\<lparr>fab_topology_digest := t, fab_evidence_digest := e\<rparr>) = canonical_evidence_bytes f"
  by (simp_all add: canonical_topology_bytes_def canonical_evidence_bytes_def topology_puts_def
      evidence_block_puts_def header_puts_def)

lemma frozen_digests:
  "(fab_topology_digest (frozen_fabric b), fab_evidence_digest (frozen_fabric b)) = compute_digests (frozen_fabric b)"
  by (simp add: frozen_fabric_def with_digests_def compute_digests_def canonical_digest_free)

lemma frozen_lookups:
  assumes "builder_inv b"
  shows "find_leaf (frozen_fabric b) i = map_of (fb_leaves b) i"
    "find_spine (frozen_fabric b) i = map_of (fb_spines b) i"
    "find_port (frozen_fabric b) i = map_of (fb_ports b) i"
    "find_link (frozen_fabric b) i = map_of (fb_links b) i"
    "find_domain (frozen_fabric b) i = map_of (fb_domains b) i"
  using assms keyed_values(3)
  by (auto simp: builder_inv_def find_leaf_def find_spine_def find_port_def find_link_def find_domain_def)

lemma frozen_node_exists: "builder_inv b \<Longrightarrow> node_exists (frozen_fabric b) key = endpoint_exists b key"
  by (cases "nk_tier key")
    (auto simp: node_exists_def fabric_node_state_def endpoint_exists_def frozen_lookups omap_count_def
      split: option.split)

lemma frozen_speed: "builder_inv b \<Longrightarrow> effective_link_speed_mbps (frozen_fabric b) l = builder_link_speed b l"
  by (simp add: effective_link_speed_mbps_def builder_link_speed_def frozen_lookups)

lemma frozen_link_wf:
  assumes inv: "builder_inv b" and mem: "(i, l) \<in> set (fb_links b)" and use: "link_usable b l"
  shows "link_wf (fb_limits b) (frozen_fabric b) l"
proof -
  from inv mem have fits: "link_fits b l" by (auto simp: builder_inv_def table_ok_def)
  then obtain pa pb where p: "map_of (fb_ports b) (lk_port_a l) = Some pa" "pt_owner pa = lk_a l"
    "map_of (fb_ports b) (lk_port_b l) = Some pb" "pt_owner pb = lk_b l"
    by (auto simp: link_fits_def port_belongs_lookup)
  have pf: "pt_speed_mbps q \<le> lim_max_capacity_mbps (fb_limits b)" if "map_of (fb_ports b) j = Some q" for j q
    using inv map_of_SomeD [OF that] by (auto simp: builder_inv_def table_ok_def port_fits_def)
  obtain s where s: "builder_link_speed b l = Some s" "s \<noteq> 0" using use by (auto simp: link_usable_def)
  then have "s \<le> pt_speed_mbps pa" "s \<le> pt_speed_mbps pb" "s \<le> lim_max_capacity_mbps (fb_limits b)"
    using fits p pf [OF p(1)] pf [OF p(3)]
    by (auto simp: builder_link_speed_def link_fits_def slower_port_speed_def Let_def split: if_splits)
  moreover have "nk_tier (lk_a l) = Leaf \<and> nk_tier (lk_b l) = Leaf \<longrightarrow>
      (\<exists>la lb. map_of (fb_leaves b) (nk_index (lk_a l)) = Some la \<and> is_peer_capable (lf_role la)
        \<and> map_of (fb_leaves b) (nk_index (lk_b l)) = Some lb \<and> is_peer_capable (lf_role lb))"
    using fits by (auto simp: link_fits_def endpoint_exists_def omap_count_def)
  ultimately show ?thesis
    using fits p s by (auto simp: link_wf_def frozen_lookups [OF inv] frozen_node_exists [OF inv]
        frozen_speed [OF inv] link_fits_def)
qed

lemma frozen_tables_sorted: "builder_inv b \<Longrightarrow> tables_sorted (frozen_fabric b)"
  unfolding builder_inv_def tables_sorted_def frozen_fields
  by (elim conjE, intro conjI; rule keyed_values(2), assumption)

lemma frozen_evidence:
  assumes "builder_inv b" and "e \<in> set (fb_evidence b)"
  shows "ev_generation e \<le> fb_generation b"
    and "ev_link e \<in> lk_id ` (set (map snd (fb_links b)) \<union> set (map snd (fb_history_links b)))"
proof -
  have fits: "evidence_fits b e" using assms by (auto simp: builder_inv_def list_all_iff)
  then show "ev_generation e \<le> fb_generation b" by (simp add: evidence_fits_def)
  have keys: "lk_id ` set (map snd m) = fst ` set m" if "table_ok lk_id lim q m"
    for lim q and m :: "(link_id, link_record) omap"
    using arg_cong [OF keyed_values(1) [OF that], of set] by (simp add: image_image)
  have t: "table_ok lk_id (lim_max_links (fb_limits b)) (link_fits b) (fb_links b)"
    "table_ok lk_id (lim_max_history_records (fb_limits b)) (history_fits b) (fb_history_links b)"
    using assms(1) by (simp_all add: builder_inv_def)
  have "lk_id ` set (map snd (fb_links b)) = fst ` set (fb_links b)"
    "lk_id ` set (map snd (fb_history_links b)) = fst ` set (fb_history_links b)"
    by (rule keys [OF t(1)], rule keys [OF t(2)])
  moreover have "ev_link e \<in> fst ` set (fb_links b) \<or> ev_link e \<in> fst ` set (fb_history_links b)"
    using fits unfolding evidence_fits_def omap_count_def map_of_eq_None_iff by blast
  ultimately show "ev_link e \<in> lk_id ` (set (map snd (fb_links b)) \<union> set (map snd (fb_history_links b)))"
    unfolding image_Un by simp
qed

lemma frozen_nodes:
  assumes "builder_inv b"
  shows "\<forall>l\<in>set (map snd (fb_leaves b)). lf_id l \<noteq> 0 \<and> lf_generation l = fb_generation b
      \<and> lf_access_capacity_mbps l \<le> lim_max_capacity_mbps (fb_limits b)"
    "\<forall>s\<in>set (map snd (fb_spines b)). sp_id s \<noteq> 0 \<and> sp_generation s = fb_generation b
      \<and> sp_fabric_capacity_mbps s \<le> lim_max_capacity_mbps (fb_limits b)"
    "\<forall>p\<in>set (map snd (fb_ports b)). pt_id p \<noteq> 0 \<and> pt_generation p = fb_generation b
      \<and> endpoint_exists b (pt_owner p) \<and> pt_speed_mbps p \<le> lim_max_capacity_mbps (fb_limits b)"
    "\<forall>l\<in>set (map snd (fb_history_links b)). lk_generation l < fb_generation b"
  using assms by (auto simp: builder_inv_def table_ok_def leaf_fits_def spine_fits_def port_fits_def
      history_fits_def)

lemma frozen_fabric_wf:
  assumes inv: "client_inv b" and clean: "graph_clean b" and err: "report_errors (fb_report b) = []"
  shows "fabric_wf (fb_limits b) (frozen_fabric b)"
proof -
  have b: "builder_inv b" using inv by (simp add: client_inv_def)
  have "\<not> link_equivalent k l" if "k \<in> set (map snd (fb_links b))" "l \<in> set (map snd (fb_links b))"
    "lk_id k \<noteq> lk_id l" for k l
  proof -
    have dist: "links_distinct (fb_links b)" and "\<forall>(i, r)\<in>set (fb_links b). lk_id r = i"
      using b by (auto simp: builder_inv_def table_ok_def)
    then have "(lk_id k, k) \<in> set (fb_links b)" "(lk_id l, l) \<in> set (fb_links b)" using that by auto
    with dist that(3) show ?thesis by (auto simp: links_distinct_def)
  qed
  moreover have "link_wf (fb_limits b) (frozen_fabric b) l" if "l \<in> set (map snd (fb_links b))" for l
    using clean that frozen_link_wf [OF b] by (fastforce simp: graph_clean_def)
  moreover have "check_name (fb_name b) (lim_max_name_bytes (fb_limits b)) = NV_Acceptable"
    "opt_min_eligible_spines (fb_options b) \<noteq> 0"
    using inv err by (auto simp: client_inv_def header_inv_def name_ok_def)
  ultimately show ?thesis unfolding fabric_wf_def frozen_digests frozen_fields frozen_node_exists [OF b] set_std_sort
    using frozen_evidence [OF b] frozen_tables_sorted [OF b] frozen_nodes [OF b]
    by simp
qed

lemma freeze_fabric_wf:
  assumes "builder_reachable b" and "freeze b = (Inr f, b')"
    and "length (rep_issues (fb_report b')) < 2 ^ 32"
  shows "fabric_wf (fb_limits b) f"
proof -
  have inv: "client_inv b" by (rule reachable_client_inv [OF assms(1)])
  have thawed: "\<not> fb_frozen b" and f: "f = frozen_fabric b"
    using freeze_result [of b f] assms(2) by (simp_all add: frozen_fabric_def)
  have "report_errors (fb_report b) = [] \<and> graph_clean b"
    using freeze_success_iff [OF thawed] inv assms(2,3) by (auto simp: client_inv_def)
  with frozen_fabric_wf [OF inv] f show ?thesis by simp
qed

end
