(* ===== verification/SLF_Serialize.thy ===== *)
theory SLF_Serialize
  imports SLF_Builder
begin

text \<open>
  Decoding of serialized fabrics (\<open>deserialize_fabric\<close> in \<open>src/model.cpp\<close>). The decoder rebuilds
  the fabric through the builder, so every record is validated again. The main result is that a
  frozen fabric survives serialization unchanged, provided its history and live links have
  disjoint identities, and what happens when they have not.
\<close>

text \<open>The counted loops: read a record, add it, stop at the first failure of either.\<close>

fun read_records ::
  "(byte_reader \<Rightarrow> 'r outcome \<times> byte_reader) \<Rightarrow> ('r \<Rightarrow> fabric_builder \<Rightarrow> status \<times> fabric_builder) \<Rightarrow> nat
     \<Rightarrow> byte_reader \<Rightarrow> fabric_builder \<Rightarrow> status \<times> byte_reader \<times> fabric_builder" where
  "read_records read add 0 r b = (status_success, r, b)"
| "read_records read add (Suc n) r b =
     (case read r of
        (Inl s, r') \<Rightarrow> (s, r', b)
      | (Inr x, r') \<Rightarrow>
          (case add x b of
             (s, b') \<Rightarrow> if \<not> status_ok s then (s, r', b') else read_records read add n r' b'))"

definition read_table ::
  "string \<Rightarrow> string \<Rightarrow> u32 \<Rightarrow> (byte_reader \<Rightarrow> 'r outcome \<times> byte_reader)
     \<Rightarrow> ('r \<Rightarrow> fabric_builder \<Rightarrow> status \<times> fabric_builder) \<Rightarrow> byte_reader \<Rightarrow> fabric_builder
     \<Rightarrow> status \<times> byte_reader \<times> fabric_builder" where
  "read_table missing exceeded bound read add r b =
     (case br_u32 r of
        (Inl _, r') \<Rightarrow> (Status SC_Truncated missing, r', b)
      | (Inr n, r') \<Rightarrow>
          if n > bound then (Status SC_Exhausted exceeded, r', b)
          else read_records read add (unat n) r' b)"

text \<open>The fabric header, up to the builder it constructs.\<close>

definition read_header :: "builder_limits \<Rightarrow> byte_reader \<Rightarrow> fabric_builder outcome \<times> byte_reader" where
  "read_header limits r0 =
     (case br_string r0 of
        (Inl s, r1) \<Rightarrow> (Inl s, r1)
      | (Inr domain_tag, r1) \<Rightarrow>
     (let (fid, r2) = br_u64 r1; (name, r3) = br_string r2; (site, r4) = br_string r3;
          (gen, r5) = br_u64 r4; (ep, r6) = br_u64 r5; (state, r7) = br_u8 r6;
          (allow_peer, r8) = br_u8 r7; (diversity, r9) = br_u8 r8; (min_spines, r10) = br_u32 r9;
          (policy, r11) = br_u8 r10 in
      if \<not> outcome_ok fid \<or> \<not> outcome_ok name \<or> \<not> outcome_ok site \<or> \<not> outcome_ok gen
         \<or> \<not> outcome_ok ep \<or> \<not> outcome_ok state \<or> \<not> outcome_ok allow_peer \<or> \<not> outcome_ok diversity
         \<or> \<not> outcome_ok min_spines \<or> \<not> outcome_ok policy
      then (Inl (Status SC_Truncated ''fabric header is incomplete''), r11)
      else if projr policy > evidence_policy_u8 EP_RequireFresh
      then (Inl (Status SC_Invalid ''unknown evidence policy value''), r11)
      else
        let options = \<lparr>opt_allow_same_tier_adjacency = projr allow_peer \<noteq> 0,
              opt_require_domain_diversity = projr diversity \<noteq> 0,
              opt_min_eligible_spines = projr min_spines,
              opt_evidence_policy = evidence_policy_of_u8 (projr policy)\<rparr>;
            b0 = new_builder (projr fid) (projr name) (projr gen) (projr ep) options limits;
            b1 = snd (set_site (projr site) b0)
        in if projr state > fabric_state_u8 FS_Retired
           then (Inl (Status SC_Invalid ''unknown fabric state value''), r11)
           else (Inr (snd (set_state (fabric_state_of_u8 (projr state)) b1)), r11)))"

definition read_topology :: "builder_limits \<Rightarrow> byte_reader \<Rightarrow> fabric_builder outcome" where
  "read_topology limits r0 =
     (case read_header limits r0 of
        (Inl s, _) \<Rightarrow> Inl s
      | (Inr b0, r1) \<Rightarrow>
     (case read_table ''missing failure domain count'' ''failure domain count exceeds the configured bound''
             (lim_max_failure_domains limits) read_domain add_failure_domain r1 b0 of (s2, r2, b2) \<Rightarrow>
      if \<not> status_ok s2 then Inl s2 else
     (case read_table ''missing leaf count'' ''leaf count exceeds the configured bound''
             (lim_max_leaves limits) read_leaf add_leaf r2 b2 of (s3, r3, b3) \<Rightarrow>
      if \<not> status_ok s3 then Inl s3 else
     (case read_table ''missing spine count'' ''spine count exceeds the configured bound''
             (lim_max_spines limits) read_spine add_spine r3 b3 of (s4, r4, b4) \<Rightarrow>
      if \<not> status_ok s4 then Inl s4 else
     (case read_table ''missing port count'' ''port count exceeds the configured bound''
             (lim_max_ports limits) read_port add_port r4 b4 of (s5, r5, b5) \<Rightarrow>
      if \<not> status_ok s5 then Inl s5 else
     (case read_table ''missing link count'' ''link count exceeds the configured bound''
             (lim_max_links limits) read_link add_link r5 b5 of (s6, r6, b6) \<Rightarrow>
      if \<not> status_ok s6 then Inl s6 else
     (case read_table ''missing link count'' ''link count exceeds the configured bound''
             (lim_max_history_records limits) read_link add_history_link r6 b6 of (s7, r7, b7) \<Rightarrow>
      if \<not> status_ok s7 then Inl s7 else Inr b7)))))))"

definition read_evidence_block :: "builder_limits \<Rightarrow> byte_reader \<Rightarrow> fabric_builder \<Rightarrow> fabric_builder outcome" where
  "read_evidence_block limits r0 b =
     (let (tag, r1) = br_string r0; (gen, r2) = br_u64 r1; (count, r3) = br_u32 r2 in
      if \<not> outcome_ok tag \<or> \<not> outcome_ok gen \<or> \<not> outcome_ok count
      then Inl (Status SC_Truncated ''evidence block header is incomplete'')
      else if projr count > lim_max_evidence_records limits
      then Inl (Status SC_Exhausted ''evidence count exceeds the configured bound'')
      else case read_records read_evidence add_evidence (unat (projr count)) r3 b of
             (s, r4, b') \<Rightarrow>
               if \<not> status_ok s then Inl s
               else let fin = br_expect_end r4 in if \<not> status_ok fin then Inl fin else Inr b')"

definition deserialize_fabric :: "bytes \<Rightarrow> builder_limits \<Rightarrow> fabric outcome" where
  "deserialize_fabric data limits =
     (let r0 = new_reader data kDefaultMaxString in
      case br_u32 r0 of
        (Inl s, _) \<Rightarrow> Inl s
      | (Inr version, r1) \<Rightarrow>
          if version \<noteq> kPersistenceFormatVersion
          then Inl (Status SC_IncompatibleVersion
                 (''fabric payload version '' @ u_string version @ '' is not supported''))
          else case br_block 67108864 r1 of
            (Inl s, _) \<Rightarrow> Inl s
          | (Inr topology_block, r2) \<Rightarrow>
              (case br_block 67108864 r2 of
                 (Inl s, _) \<Rightarrow> Inl s
               | (Inr evidence_block, r3) \<Rightarrow>
                   if \<not> br_exhausted r3
                   then Inl (Status SC_Invalid ''trailing bytes after the fabric payload'')
                   else case read_topology limits
                               (new_reader topology_block (unat (lim_max_name_bytes limits))) of
                          Inl s \<Rightarrow> Inl s
                        | Inr b \<Rightarrow>
                            (case read_evidence_block limits
                                    (new_reader evidence_block (unat (lim_max_name_bytes limits))) b of
                               Inl s \<Rightarrow> Inl s
                             | Inr b' \<Rightarrow> fst (freeze b'))))"

section \<open>Adding a whole table\<close>

definition same_front :: "fabric_builder \<Rightarrow> fabric_builder \<Rightarrow> bool" where
  "same_front b c \<longleftrightarrow> builder_core b = builder_core c \<and> fb_frozen b = fb_frozen c"

lemma same_front_grows: "report_grows p b c \<Longrightarrow> same_front c b"
  by (simp add: same_front_def report_grows_def)

lemma same_front_refl [simp]: "same_front b b"
  by (simp add: same_front_def)

locale table_adder = record_adder +
  assumes accept_front: "same_front b c \<Longrightarrow> accept r b = accept r c"
    and put_front: "same_front b c \<Longrightarrow> same_front (put r b) (put r c)"
begin

lemma add_all_accepted:
  "(\<And>i. i < length rs \<Longrightarrow> accept (rs ! i) (fold put (take i rs) b)) \<Longrightarrow> same_front c b \<Longrightarrow>
     status_ok (fst (add_all add rs c)) \<and> same_front (snd (add_all add rs c)) (fold put rs b)
     \<and> report_errors (fb_report (snd (add_all add rs c))) = report_errors (fb_report c)
     \<and> (report_inv (fb_report c) \<longrightarrow> report_inv (fb_report (snd (add_all add rs c))))"
proof (induction rs arbitrary: b c)
  case (Cons r rs)
  have "accept r c" using Cons.prems(1) [of 0] accept_front [OF Cons.prems(2)] by simp
  then have a: "fst (add r c) = status_success" and g: "report_grows True (put r c) (snd (add r c))"
    using accepted by simp_all
  have "same_front (snd (add r c)) (put r b)"
    using same_front_grows [OF g] put_front [OF Cons.prems(2), of r] by (simp add: same_front_def)
  moreover have "accept (rs ! i) (fold put (take i rs) (put r b))" if "i < length rs" for i
    using Cons.prems(1) [of "Suc i"] that by simp
  ultimately have "status_ok (fst (add_all add rs (snd (add r c))))
     \<and> same_front (snd (add_all add rs (snd (add r c)))) (fold put rs (put r b))
     \<and> report_errors (fb_report (snd (add_all add rs (snd (add r c))))) = report_errors (fb_report (snd (add r c)))
     \<and> (report_inv (fb_report (snd (add r c))) \<longrightarrow> report_inv (fb_report (snd (add_all add rs (snd (add r c))))))"
    by (intro Cons.IH) simp_all
  moreover have "report_errors (fb_report (snd (add r c))) = report_errors (fb_report c)"
    "report_inv (fb_report c) \<longrightarrow> report_inv (fb_report (snd (add r c)))"
    using g put_report [of r c] by (simp_all add: report_grows_def)
  ultimately show ?case using a by (simp add: split_def)
qed simp

end

text \<open>Reading the encoding of a list of records adds exactly those records.\<close>

context codec
begin

lemma read_records_encoded:
  assumes "\<forall>x\<in>set xs. valid m x" and "status_ok (fst (add_all add xs b))"
  shows "read_records dec add (length xs) (rd m pre (concat (map enc xs) @ rest)) b
    = (status_success, rd m (pre @ concat (map enc xs)) rest, snd (add_all add xs b))"
  using assms
proof (induction xs arbitrary: pre b)
  case (Cons x xs)
  have "dec (rd m pre (enc x @ concat (map enc xs) @ rest)) = (Inr x, rd m (pre @ enc x) (concat (map enc xs) @ rest))"
    using dec_enc [of "rd m pre (enc x @ concat (map enc xs) @ rest)" x "concat (map enc xs) @ rest"] Cons.prems(1)
    by simp
  then show ?case using Cons.prems Cons.IH [of "snd (add x b)" "pre @ enc x"]
    by (auto simp: split_def split: if_splits)
qed simp

end

lemma concat_fields: "concat (concat (map f xs)) = concat (map (\<lambda>x. concat (f x)) xs)"
  by (induction xs) simp_all

context codec
begin

lemma read_table_encoded:
  assumes "length xs \<le> unat bound" and "\<forall>x\<in>set xs. valid m x" and "status_ok (fst (add_all add xs b))"
  shows "read_table missing exceeded bound dec add
      (rd m pre (le_bytes 4 (of_nat (length xs) :: u32) @ concat (map enc xs) @ rest)) b
    = (status_success, rd m (pre @ le_bytes 4 (of_nat (length xs) :: u32) @ concat (map enc xs)) rest,
       snd (add_all add xs b))"
proof -
  have "length xs < 2 ^ 32" using le_less_trans [OF assms(1) unsigned_less [of bound]] by simp
  then have n: "unat (of_nat (length xs) :: u32) = length xs" by (simp add: unat_of_nat)
  then have "\<not> (of_nat (length xs) :: u32) > bound" using assms(1) by (simp add: word_less_nat_alt)
  then show ?thesis using n read_records_encoded [OF assms(2,3)] by (simp add: read_table_def codec_simps)
qed

end

lemma same_front_iff: "same_front b c \<longleftrightarrow> b = c\<lparr>fb_report := fb_report b\<rparr>"
  by (cases b; cases c) (auto simp: same_front_def builder_core_def)

lemma accept_report:
  "domain_accept d (b\<lparr>fb_report := r\<rparr>) = domain_accept d b" "leaf_accept l (b\<lparr>fb_report := r\<rparr>) = leaf_accept l b"
  "spine_accept s (b\<lparr>fb_report := r\<rparr>) = spine_accept s b" "port_accept p (b\<lparr>fb_report := r\<rparr>) = port_accept p b"
  "link_accept k (b\<lparr>fb_report := r\<rparr>) = link_accept k b"
  "history_accept k (b\<lparr>fb_report := r\<rparr>) = history_accept k b"
  "evidence_accept e (b\<lparr>fb_report := r\<rparr>) = evidence_accept e b"
  by (simp_all add: domain_accept_def leaf_accept_def spine_accept_def port_accept_def link_accept_def history_accept_def evidence_accept_def domain_fits_def leaf_fits_def spine_fits_def port_fits_def
      link_fits_def history_fits_def evidence_fits_def name_ok_def endpoint_exists_def port_belongs_def
      slower_port_speed_def)

lemma put_same_front:
  "put_domain d (b\<lparr>fb_report := r\<rparr>) = (put_domain d b)\<lparr>fb_report := r\<rparr>"
  "put_leaf l (b\<lparr>fb_report := r\<rparr>) = (put_leaf l b)\<lparr>fb_report := r\<rparr>"
  "put_spine s (b\<lparr>fb_report := r\<rparr>) = (put_spine s b)\<lparr>fb_report := r\<rparr>"
  "put_port p (b\<lparr>fb_report := r\<rparr>) = (put_port p b)\<lparr>fb_report := r\<rparr>"
  "put_link k (b\<lparr>fb_report := r\<rparr>) = (put_link k b)\<lparr>fb_report := r\<rparr>"
  "put_history k (b\<lparr>fb_report := r\<rparr>) = (put_history k b)\<lparr>fb_report := r\<rparr>"
  "put_evidence e (b\<lparr>fb_report := r\<rparr>) = (put_evidence e b)\<lparr>fb_report := r\<rparr>"
  by (simp_all add: put_domain_def put_leaf_def put_spine_def put_port_def put_link_def put_history_def put_evidence_def)

interpretation domain_tables: table_adder add_failure_domain domain_accept put_domain
  by unfold_locales (metis same_front_iff accept_report, metis same_front_iff put_same_front put_report_frozen)

interpretation leaf_tables: table_adder add_leaf leaf_accept put_leaf
  by unfold_locales (metis same_front_iff accept_report, metis same_front_iff put_same_front put_report_frozen)

interpretation spine_tables: table_adder add_spine spine_accept put_spine
  by unfold_locales (metis same_front_iff accept_report, metis same_front_iff put_same_front put_report_frozen)

interpretation port_tables: table_adder add_port port_accept put_port
  by unfold_locales (metis same_front_iff accept_report, metis same_front_iff put_same_front put_report_frozen)

interpretation link_tables: table_adder add_link link_accept put_link
  by unfold_locales (metis same_front_iff accept_report, metis same_front_iff put_same_front put_report_frozen)

interpretation history_tables: table_adder add_history_link history_accept put_history
  by unfold_locales (metis same_front_iff accept_report, metis same_front_iff put_same_front put_report_frozen)

interpretation evidence_tables: table_adder add_evidence evidence_accept put_evidence
  by unfold_locales (metis same_front_iff accept_report, metis same_front_iff put_same_front put_report_frozen)

section \<open>Rebuilding a table from its records\<close>

lemma emplace_last: "omap_wf (m @ [(k, v)]) \<Longrightarrow> omap_emplace k v m = m @ [(k, v)]"
proof (induction k v m rule: omap_emplace.induct)
  case (2 k v a b m)
  then have "a < k" "omap_wf (m @ [(k, v)])" by (simp_all add: omap_wf_def)
  with 2 show ?case by auto
qed simp

lemma omap_wf_prefix: "omap_wf (m @ n) \<Longrightarrow> omap_wf m"
  by (simp add: omap_wf_def sorted_wrt_append)

lemma fold_emplace:
  "omap_wf (p @ m) \<Longrightarrow> \<forall>(k, r)\<in>set m. idf r = k \<Longrightarrow>
     fold (\<lambda>r. omap_emplace (idf r) r) (map snd m) p = p @ m"
proof (induction m arbitrary: p)
  case (Cons x m)
  obtain k r where x: "x = (k, r)" by (cases x)
  have "omap_wf ((p @ [(k, r)]) @ m)" using Cons.prems(1) x by simp
  moreover from this have "omap_wf (p @ [(k, r)])" by (rule omap_wf_prefix)
  ultimately show ?case using Cons.IH [of "p @ [(k, r)]"] Cons.prems(2) x by (simp add: emplace_last)
qed simp

lemma table_ok_take:
  assumes "table_ok idf lim fits m" and "i < length m"
  shows "length (take i m) < unat lim" "map_of (take i m) (idf (map snd m ! i)) = None" "fits (map snd m ! i)"
    "fold (\<lambda>r. omap_emplace (idf r) r) (take i (map snd m)) [] = take i m"
proof -
  have mem: "m ! i \<in> set m" using assms(2) by simp
  then have key: "idf (map snd m ! i) = fst (m ! i)" and "fits (map snd m ! i)"
    using assms by (auto simp: table_ok_def split_def)
  then show "fits (map snd m ! i)" by simp
  show "length (take i m) < unat lim" using assms by (simp add: table_ok_def)
  have d: "distinct (map fst m)" using assms(1) by (simp add: table_ok_def omap_wf_distinct)
  have "fst (m ! i) \<notin> set (take i (map fst m))"
    using d assms(2) by (metis distinct_take id_take_nth_drop length_map not_distinct_conv_prefix nth_map take_Suc_conv_app_nth)
  then show "map_of (take i m) (idf (map snd m ! i)) = None"
    by (simp add: map_of_eq_None_iff key take_map)
  have "omap_wf (take i m)" using assms(1) omap_wf_prefix [of "take i m" "drop i m"] by (simp add: table_ok_def)
  moreover have "\<forall>(k, r)\<in>set (take i m). idf r = k" using assms(1) by (auto simp: table_ok_def dest: in_set_takeD)
  ultimately show "fold (\<lambda>r. omap_emplace (idf r) r) (take i (map snd m)) [] = take i m"
    using fold_emplace [of "[]" "take i m" idf] by (simp add: take_map)
qed

lemma table_ok_fold: "table_ok idf lim fits m \<Longrightarrow> fold (\<lambda>r. omap_emplace (idf r) r) (map snd m) [] = m"
  using fold_emplace [of "[]" m idf] by (auto simp: table_ok_def)

lemma fold_puts:
  "fold put_domain ds b = b\<lparr>fb_domains := fold (\<lambda>r. omap_emplace (fd_id r) r) ds (fb_domains b)\<rparr>"
  "fold put_leaf ls b = b\<lparr>fb_leaves := fold (\<lambda>r. omap_emplace (lf_id r) r) ls (fb_leaves b)\<rparr>"
  "fold put_spine ss b = b\<lparr>fb_spines := fold (\<lambda>r. omap_emplace (sp_id r) r) ss (fb_spines b)\<rparr>"
  "fold put_port ps b = b\<lparr>fb_ports := fold (\<lambda>r. omap_emplace (pt_id r) r) ps (fb_ports b)\<rparr>"
  "fold put_link ks b = b\<lparr>fb_links := fold (\<lambda>r. omap_emplace (lk_id r) r) ks (fb_links b)\<rparr>"
  "fold put_history ks b = b\<lparr>fb_history_links := fold (\<lambda>r. omap_emplace (lk_id r) r) ks (fb_history_links b)\<rparr>"
  "fold put_evidence es b = b\<lparr>fb_evidence := fb_evidence b @ es\<rparr>"
        apply (induction ds arbitrary: b) apply (simp_all add: put_domain_def)
       apply (induction ls arbitrary: b) apply (simp_all add: put_leaf_def)
      apply (induction ss arbitrary: b) apply (simp_all add: put_spine_def)
     apply (induction ps arbitrary: b) apply (simp_all add: put_port_def)
    apply (induction ks arbitrary: b) apply (simp_all add: put_link_def)
   apply (induction ks arbitrary: b) apply (simp_all add: put_history_def)
  apply (induction es arbitrary: b) apply (simp_all add: put_evidence_def)
  done

section \<open>The stages of the decoder\<close>

text \<open>A builder equal to \<open>t\<close> up to its report, which holds no error.\<close>

definition rebuilt :: "fabric_builder \<Rightarrow> fabric_builder \<Rightarrow> bool" where
  "rebuilt c t \<longleftrightarrow> same_front c t \<and> report_errors (fb_report c) = [] \<and> report_inv (fb_report c)"

context table_adder
begin

lemma add_all_rebuilt:
  assumes "rebuilt c t" and "\<And>i. i < length rs \<Longrightarrow> accept (rs ! i) (fold put (take i rs) t)"
  shows "status_ok (fst (add_all add rs c))" and "rebuilt (snd (add_all add rs c)) (fold put rs t)"
  using add_all_accepted [of rs t c] assms by (simp_all add: rebuilt_def)

end

definition bare_builder :: "fabric_builder \<Rightarrow> fabric_builder" where
  "bare_builder b = b\<lparr>fb_domains := [], fb_leaves := [], fb_spines := [], fb_ports := [], fb_links := [],
     fb_history_links := [], fb_evidence := []\<rparr>"

definition history_disjoint :: "fabric_builder \<Rightarrow> bool" where
  "history_disjoint b \<longleftrightarrow> (\<forall>(i, k)\<in>set (fb_history_links b). map_of (fb_links b) i = None)"

lemma links_distinct_nth:
  assumes "builder_inv b" and "i < length (fb_links b)" and "(j, other) \<in> set (take i (fb_links b))"
  shows "\<not> link_equivalent (snd (fb_links b ! i)) other"
proof -
  have t: "table_ok lk_id (lim_max_links (fb_limits b)) (link_fits b) (fb_links b)"
    and d: "links_distinct (fb_links b)" using assms(1) by (simp_all add: builder_inv_def)
  have "fst (fb_links b ! i) = lk_id (snd (fb_links b ! i))"
    using t assms(2) by (auto simp: table_ok_def split_def)
  with table_ok_take(2) [OF t assms(2)] assms(2,3) have "fst (fb_links b ! i) \<noteq> j"
    by (force simp: map_of_eq_None_iff)
  moreover have "(fst (fb_links b ! i), snd (fb_links b ! i)) \<in> set (fb_links b)" "(j, other) \<in> set (fb_links b)"
    using assms(2) in_set_takeD [OF assms(3)] by simp_all
  ultimately show ?thesis using d unfolding links_distinct_def by (cases "fb_links b ! i") auto
qed

lemma history_disjoint_nth:
  assumes "builder_inv b" and "history_disjoint b" and "i < length (fb_history_links b)"
  shows "map_of (fb_links b) (lk_id (snd (fb_history_links b ! i))) = None"
proof -
  have "fb_history_links b ! i \<in> set (fb_history_links b)" using assms(3) by simp
  with assms(1,2) show ?thesis by (auto simp: builder_inv_def table_ok_def history_disjoint_def split_def)
qed

lemma stage_domain:
  assumes inv: "builder_inv b" and thawed: "\<not> fb_frozen b" and c: "rebuilt c (bare_builder b)"
  shows "status_ok (fst (add_all add_failure_domain (map snd (fb_domains b)) c))"
    and "rebuilt (snd (add_all add_failure_domain (map snd (fb_domains b)) c)) ((bare_builder b)\<lparr>fb_domains := fb_domains b\<rparr>)"
proof -
  have t: "table_ok fd_id (lim_max_failure_domains (fb_limits b)) (domain_fits b) (fb_domains b)"
    using inv by (simp add: builder_inv_def)
  have acc: "domain_accept (map snd (fb_domains b) ! i) (fold put_domain (take i (map snd (fb_domains b))) (bare_builder b))"
    if "i < length (map snd (fb_domains b))" for i
    using table_ok_take [OF t, of i] that thawed
    by (auto simp: domain_accept_def fold_puts bare_builder_def domain_fits_def leaf_fits_def spine_fits_def port_fits_def
        link_fits_def history_fits_def evidence_fits_def name_ok_def endpoint_exists_def port_belongs_def
        slower_port_speed_def)
  show "status_ok (fst (add_all add_failure_domain (map snd (fb_domains b)) c))"
    by (rule domain_tables.add_all_rebuilt(1) [OF c acc])
  show "rebuilt (snd (add_all add_failure_domain (map snd (fb_domains b)) c)) ((bare_builder b)\<lparr>fb_domains := fb_domains b\<rparr>)"
    using domain_tables.add_all_rebuilt(2) [OF c acc] table_ok_fold [OF t]
    by (simp add: fold_puts bare_builder_def)
qed

lemma stage_leaf:
  assumes inv: "builder_inv b" and thawed: "\<not> fb_frozen b" and c: "rebuilt c ((bare_builder b)\<lparr>fb_domains := fb_domains b\<rparr>)"
  shows "status_ok (fst (add_all add_leaf (map snd (fb_leaves b)) c))"
    and "rebuilt (snd (add_all add_leaf (map snd (fb_leaves b)) c)) ((bare_builder b)\<lparr>fb_domains := fb_domains b, fb_leaves := fb_leaves b\<rparr>)"
proof -
  have t: "table_ok lf_id (lim_max_leaves (fb_limits b)) (leaf_fits b) (fb_leaves b)"
    using inv by (simp add: builder_inv_def)
  have acc: "leaf_accept (map snd (fb_leaves b) ! i) (fold put_leaf (take i (map snd (fb_leaves b))) ((bare_builder b)\<lparr>fb_domains := fb_domains b\<rparr>))"
    if "i < length (map snd (fb_leaves b))" for i
    using table_ok_take [OF t, of i] that thawed
    by (auto simp: leaf_accept_def fold_puts bare_builder_def domain_fits_def leaf_fits_def spine_fits_def port_fits_def
        link_fits_def history_fits_def evidence_fits_def name_ok_def endpoint_exists_def port_belongs_def
        slower_port_speed_def)
  show "status_ok (fst (add_all add_leaf (map snd (fb_leaves b)) c))"
    by (rule leaf_tables.add_all_rebuilt(1) [OF c acc])
  show "rebuilt (snd (add_all add_leaf (map snd (fb_leaves b)) c)) ((bare_builder b)\<lparr>fb_domains := fb_domains b, fb_leaves := fb_leaves b\<rparr>)"
    using leaf_tables.add_all_rebuilt(2) [OF c acc] table_ok_fold [OF t]
    by (simp add: fold_puts bare_builder_def)
qed

lemma stage_spine:
  assumes inv: "builder_inv b" and thawed: "\<not> fb_frozen b" and c: "rebuilt c ((bare_builder b)\<lparr>fb_domains := fb_domains b, fb_leaves := fb_leaves b\<rparr>)"
  shows "status_ok (fst (add_all add_spine (map snd (fb_spines b)) c))"
    and "rebuilt (snd (add_all add_spine (map snd (fb_spines b)) c)) ((bare_builder b)\<lparr>fb_domains := fb_domains b, fb_leaves := fb_leaves b, fb_spines := fb_spines b\<rparr>)"
proof -
  have t: "table_ok sp_id (lim_max_spines (fb_limits b)) (spine_fits b) (fb_spines b)"
    using inv by (simp add: builder_inv_def)
  have acc: "spine_accept (map snd (fb_spines b) ! i) (fold put_spine (take i (map snd (fb_spines b))) ((bare_builder b)\<lparr>fb_domains := fb_domains b, fb_leaves := fb_leaves b\<rparr>))"
    if "i < length (map snd (fb_spines b))" for i
    using table_ok_take [OF t, of i] that thawed
    by (auto simp: spine_accept_def fold_puts bare_builder_def domain_fits_def leaf_fits_def spine_fits_def port_fits_def
        link_fits_def history_fits_def evidence_fits_def name_ok_def endpoint_exists_def port_belongs_def
        slower_port_speed_def)
  show "status_ok (fst (add_all add_spine (map snd (fb_spines b)) c))"
    by (rule spine_tables.add_all_rebuilt(1) [OF c acc])
  show "rebuilt (snd (add_all add_spine (map snd (fb_spines b)) c)) ((bare_builder b)\<lparr>fb_domains := fb_domains b, fb_leaves := fb_leaves b, fb_spines := fb_spines b\<rparr>)"
    using spine_tables.add_all_rebuilt(2) [OF c acc] table_ok_fold [OF t]
    by (simp add: fold_puts bare_builder_def)
qed

lemma stage_port:
  assumes inv: "builder_inv b" and thawed: "\<not> fb_frozen b" and c: "rebuilt c ((bare_builder b)\<lparr>fb_domains := fb_domains b, fb_leaves := fb_leaves b, fb_spines := fb_spines b\<rparr>)"
  shows "status_ok (fst (add_all add_port (map snd (fb_ports b)) c))"
    and "rebuilt (snd (add_all add_port (map snd (fb_ports b)) c)) ((bare_builder b)\<lparr>fb_domains := fb_domains b, fb_leaves := fb_leaves b, fb_spines := fb_spines b, fb_ports := fb_ports b\<rparr>)"
proof -
  have t: "table_ok pt_id (lim_max_ports (fb_limits b)) (port_fits b) (fb_ports b)"
    using inv by (simp add: builder_inv_def)
  have acc: "port_accept (map snd (fb_ports b) ! i) (fold put_port (take i (map snd (fb_ports b))) ((bare_builder b)\<lparr>fb_domains := fb_domains b, fb_leaves := fb_leaves b, fb_spines := fb_spines b\<rparr>))"
    if "i < length (map snd (fb_ports b))" for i
    using table_ok_take [OF t, of i] that thawed
    by (auto simp: port_accept_def fold_puts bare_builder_def domain_fits_def leaf_fits_def spine_fits_def port_fits_def
        link_fits_def history_fits_def evidence_fits_def name_ok_def endpoint_exists_def port_belongs_def
        slower_port_speed_def)
  show "status_ok (fst (add_all add_port (map snd (fb_ports b)) c))"
    by (rule port_tables.add_all_rebuilt(1) [OF c acc])
  show "rebuilt (snd (add_all add_port (map snd (fb_ports b)) c)) ((bare_builder b)\<lparr>fb_domains := fb_domains b, fb_leaves := fb_leaves b, fb_spines := fb_spines b, fb_ports := fb_ports b\<rparr>)"
    using port_tables.add_all_rebuilt(2) [OF c acc] table_ok_fold [OF t]
    by (simp add: fold_puts bare_builder_def)
qed

lemma stage_link:
  assumes inv: "builder_inv b" and thawed: "\<not> fb_frozen b" and c: "rebuilt c ((bare_builder b)\<lparr>fb_domains := fb_domains b, fb_leaves := fb_leaves b, fb_spines := fb_spines b, fb_ports := fb_ports b\<rparr>)"
  shows "status_ok (fst (add_all add_link (map snd (fb_links b)) c))"
    and "rebuilt (snd (add_all add_link (map snd (fb_links b)) c)) ((bare_builder b)\<lparr>fb_domains := fb_domains b, fb_leaves := fb_leaves b, fb_spines := fb_spines b, fb_ports := fb_ports b, fb_links := fb_links b\<rparr>)"
proof -
  have t: "table_ok lk_id (lim_max_links (fb_limits b)) (link_fits b) (fb_links b)"
    using inv by (simp add: builder_inv_def)
  have acc: "link_accept (map snd (fb_links b) ! i) (fold put_link (take i (map snd (fb_links b))) ((bare_builder b)\<lparr>fb_domains := fb_domains b, fb_leaves := fb_leaves b, fb_spines := fb_spines b, fb_ports := fb_ports b\<rparr>))"
    if "i < length (map snd (fb_links b))" for i
    using table_ok_take [OF t, of i] that thawed links_distinct_nth [OF inv, of i]
    by (auto simp: link_accept_def fold_puts bare_builder_def domain_fits_def leaf_fits_def spine_fits_def port_fits_def
        link_fits_def history_fits_def evidence_fits_def name_ok_def endpoint_exists_def port_belongs_def
        slower_port_speed_def)
  show "status_ok (fst (add_all add_link (map snd (fb_links b)) c))"
    by (rule link_tables.add_all_rebuilt(1) [OF c acc])
  show "rebuilt (snd (add_all add_link (map snd (fb_links b)) c)) ((bare_builder b)\<lparr>fb_domains := fb_domains b, fb_leaves := fb_leaves b, fb_spines := fb_spines b, fb_ports := fb_ports b, fb_links := fb_links b\<rparr>)"
    using link_tables.add_all_rebuilt(2) [OF c acc] table_ok_fold [OF t]
    by (simp add: fold_puts bare_builder_def)
qed

lemma stage_history:
  assumes inv: "builder_inv b" and thawed: "\<not> fb_frozen b" and disj: "history_disjoint b" and c: "rebuilt c ((bare_builder b)\<lparr>fb_domains := fb_domains b, fb_leaves := fb_leaves b, fb_spines := fb_spines b, fb_ports := fb_ports b, fb_links := fb_links b\<rparr>)"
  shows "status_ok (fst (add_all add_history_link (map snd (fb_history_links b)) c))"
    and "rebuilt (snd (add_all add_history_link (map snd (fb_history_links b)) c)) ((bare_builder b)\<lparr>fb_domains := fb_domains b, fb_leaves := fb_leaves b, fb_spines := fb_spines b, fb_ports := fb_ports b, fb_links := fb_links b, fb_history_links := fb_history_links b\<rparr>)"
proof -
  have t: "table_ok lk_id (lim_max_history_records (fb_limits b)) (history_fits b) (fb_history_links b)"
    using inv by (simp add: builder_inv_def)
  have acc: "history_accept (map snd (fb_history_links b) ! i) (fold put_history (take i (map snd (fb_history_links b))) ((bare_builder b)\<lparr>fb_domains := fb_domains b, fb_leaves := fb_leaves b, fb_spines := fb_spines b, fb_ports := fb_ports b, fb_links := fb_links b\<rparr>))"
    if "i < length (map snd (fb_history_links b))" for i
    using table_ok_take [OF t, of i] that thawed history_disjoint_nth [OF inv disj, of i]
    by (auto simp: history_accept_def fold_puts bare_builder_def domain_fits_def leaf_fits_def spine_fits_def port_fits_def
        link_fits_def history_fits_def evidence_fits_def name_ok_def endpoint_exists_def port_belongs_def
        slower_port_speed_def)
  show "status_ok (fst (add_all add_history_link (map snd (fb_history_links b)) c))"
    by (rule history_tables.add_all_rebuilt(1) [OF c acc])
  show "rebuilt (snd (add_all add_history_link (map snd (fb_history_links b)) c)) ((bare_builder b)\<lparr>fb_domains := fb_domains b, fb_leaves := fb_leaves b, fb_spines := fb_spines b, fb_ports := fb_ports b, fb_links := fb_links b, fb_history_links := fb_history_links b\<rparr>)"
    using history_tables.add_all_rebuilt(2) [OF c acc] table_ok_fold [OF t]
    by (simp add: fold_puts bare_builder_def)
qed

lemma stage_evidence:
  assumes inv: "builder_inv b" and thawed: "\<not> fb_frozen b"
    and es: "set es = set (fb_evidence b)" "length es = length (fb_evidence b)"
    and c: "rebuilt c (b\<lparr>fb_evidence := []\<rparr>)"
  shows "status_ok (fst (add_all add_evidence es c))"
    and "rebuilt (snd (add_all add_evidence es c)) (b\<lparr>fb_evidence := es\<rparr>)"
proof -
  have acc: "evidence_accept (es ! i) (fold put_evidence (take i es) (b\<lparr>fb_evidence := []\<rparr>))"
    if "i < length es" for i
  proof -
    have "evidence_fits b (es ! i)" using inv es nth_mem [OF that] by (auto simp: builder_inv_def list_all_iff)
    moreover have "length es \<le> unat (lim_max_evidence_records (fb_limits b))"
      using inv es(2) by (simp add: builder_inv_def)
    ultimately show ?thesis using that thawed by (simp add: evidence_accept_def fold_puts evidence_fits_def)
  qed
  show "status_ok (fst (add_all add_evidence es c))" by (rule evidence_tables.add_all_rebuilt(1) [OF c acc])
  show "rebuilt (snd (add_all add_evidence es c)) (b\<lparr>fb_evidence := es\<rparr>)"
    using evidence_tables.add_all_rebuilt(2) [OF c acc] by (simp add: fold_puts)
qed

section \<open>Round trip\<close>

lemma name_ok_string:
  "name_ok b n \<Longrightarrow> string_ok (unat (lim_max_name_bytes (fb_limits b))) n \<and> text_ok n"
proof -
  assume "name_ok b n"
  then have "length n \<le> unat (lim_max_name_bytes (fb_limits b))" "is_valid_utf8 n"
    by (auto simp: name_ok_def check_name_def split: if_splits)
  moreover from this have "length n < 2 ^ 32"
    using le_less_trans [OF _ unsigned_less [of "lim_max_name_bytes (fb_limits b)"]] by simp
  ultimately show ?thesis by (simp add: string_ok_def text_ok_def)
qed

lemma empty_text_ok: "string_ok m [] \<and> text_ok []"
  by (simp add: string_ok_def text_ok_def is_valid_utf8_def text_bytes_def)

lemma bool_u8_nonzero [simp]: "bool_u8 c \<noteq> 0 \<longleftrightarrow> c"
  by (simp add: bool_u8_def)

text \<open>What the decoder needs of the builder whose fabric was serialized.\<close>

definition encodable :: "fabric_builder \<Rightarrow> bool" where
  "encodable b \<longleftrightarrow> client_inv b \<and> \<not> fb_frozen b \<and> report_errors (fb_report b) = [] \<and> graph_clean b
     \<and> 15 \<le> unat (lim_max_name_bytes (fb_limits b)) \<and> fabric_fits (frozen_fabric b)"

lemma tag_ok:
  "15 \<le> m \<Longrightarrow> string_ok m kTopologyDomain \<and> string_ok m kEvidenceDomain"
  using kTopologyDomain_ok by (simp add: string_ok_def text_ok_def) (simp add: kTopologyDomain_def kEvidenceDomain_def)

lemma options_eta:
  "\<lparr>opt_allow_same_tier_adjacency = opt_allow_same_tier_adjacency v,
    opt_require_domain_diversity = opt_require_domain_diversity v,
    opt_min_eligible_spines = opt_min_eligible_spines v, opt_evidence_policy = opt_evidence_policy v\<rparr>
   = (v :: fabric_options)"
  by (cases v) simp

lemma header_rebuilt:
  fixes b :: fabric_builder
  defines "b0 \<equiv> new_builder (fb_id b) (fb_name b) (fb_generation b) (fb_epoch b) (fb_options b) (fb_limits b)"
  assumes ser: "encodable b"
  shows "\<not> fb_frozen b0" and "set_site (fb_site b) b0 = (status_success, b0\<lparr>fb_site := fb_site b\<rparr>)"
    and "rebuilt (b0\<lparr>fb_site := fb_site b, fb_fabric_state := fb_fabric_state b\<rparr>) (bare_builder b)"
proof -
  have hd: "header_inv b" "\<not> fb_frozen b" and err: "report_errors (fb_report b) = []"
    using ser by (simp_all add: encodable_def client_inv_def)
  have core: "builder_core b0 = builder_core (b\<lparr>fb_site := [], fb_fabric_state := FS_Operational,
      fb_domains := [], fb_leaves := [], fb_spines := [], fb_ports := [], fb_links := [],
      fb_history_links := [], fb_evidence := []\<rparr>)"
    unfolding b0_def core_new_builder by (simp add: builder_core_def)
  show thawed: "\<not> fb_frozen b0" unfolding b0_def by (rule new_builder_thawed)
  have lim0: "fb_limits b0 = fb_limits b" using builder_core_fields(8) [OF core] by simp
  show "set_site (fb_site b) b0 = (status_success, b0\<lparr>fb_site := fb_site b\<rparr>)"
    using hd(1) thawed lim0 by (auto simp: set_site_def header_inv_def name_ok_def)
  let ?c = "b0\<lparr>fb_site := fb_site b, fb_fabric_state := fb_fabric_state b\<rparr>"
  have "same_front ?c (bare_builder b)"
    using core thawed hd(2) by (cases b; cases b0) (auto simp: same_front_def builder_core_def bare_builder_def)
  moreover have "report_errors (fb_report ?c) = []" "report_inv (fb_report ?c)"
    using hd(1) err new_builder_report unfolding b0_def
    by (simp_all add: new_builder_errors header_inv_def name_ok_def)
  ultimately show "rebuilt ?c (bare_builder b)" by (simp add: rebuilt_def)
qed

lemma read_header_encoded:
  assumes ser: "encodable b" and m: "m = unat (lim_max_name_bytes (fb_limits b))"
  shows "\<exists>c. read_header (fb_limits b) (rd m pre (concat (header_fields (frozen_fabric b)) @ rest))
      = (Inr c, rd m (pre @ concat (header_fields (frozen_fabric b))) rest) \<and> rebuilt c (bare_builder b)"
proof -
  let ?lim = "fb_limits b"
  have hd: "header_inv b" "\<not> fb_frozen b" and err: "report_errors (fb_report b) = []"
    using ser by (simp_all add: encodable_def client_inv_def)
  have n: "string_ok m (fb_name b)" "string_ok m (fb_site b)"
    using hd err name_ok_string [of b] empty_text_ok m by (auto simp: header_inv_def)
  have tag: "string_ok m kTopologyDomain" using ser m tag_ok by (simp add: encodable_def)
  let ?b0 = "new_builder (fb_id b) (fb_name b) (fb_generation b) (fb_epoch b) (fb_options b) ?lim"
  let ?c = "snd (set_state (fb_fabric_state b) (snd (set_site (fb_site b) ?b0)))"
  have "rebuilt ?c (bare_builder b)" using header_rebuilt [OF ser] by (simp add: set_state_def)
  moreover have "read_header ?lim (rd m pre (concat (header_fields (frozen_fabric b)) @ rest))
      = (Inr ?c, rd m (pre @ concat (header_fields (frozen_fabric b))) rest)"
    using n tag by (simp add: read_header_def header_fields_def codec_simps enum_u8_range Let_def options_eta)
  ultimately show ?thesis by blast
qed

lemma table_texts:
  assumes "encodable b" and "m = unat (lim_max_name_bytes (fb_limits b))"
  shows "\<forall>d\<in>set (map snd (fb_domains b)). string_ok m (fd_name d) \<and> text_ok (fd_name d)"
    "\<forall>l\<in>set (map snd (fb_leaves b)). string_ok m (lf_name l) \<and> text_ok (lf_name l)"
    "\<forall>s\<in>set (map snd (fb_spines b)). string_ok m (sp_name s) \<and> text_ok (sp_name s)"
proof -
  have inv: "builder_inv b" using assms(1) by (simp add: encodable_def client_inv_def)
  have "\<forall>d\<in>set (map snd (fb_domains b)). name_ok b (fd_name d)"
    "\<forall>l\<in>set (map snd (fb_leaves b)). name_ok b (lf_name l)"
    "\<forall>s\<in>set (map snd (fb_spines b)). name_ok b (sp_name s)"
    using inv by (auto simp: builder_inv_def table_ok_def domain_fits_def leaf_fits_def spine_fits_def)
  then show "\<forall>d\<in>set (map snd (fb_domains b)). string_ok m (fd_name d) \<and> text_ok (fd_name d)"
    "\<forall>l\<in>set (map snd (fb_leaves b)). string_ok m (lf_name l) \<and> text_ok (lf_name l)"
    "\<forall>s\<in>set (map snd (fb_spines b)). string_ok m (sp_name s) \<and> text_ok (sp_name s)"
    using name_ok_string [of b] assms(2) by blast+
qed

lemma encodable_texts: "encodable b \<Longrightarrow> fabric_texts_ok (frozen_fabric b)"
proof -
  assume ser: "encodable b"
  then have "text_ok (fb_name b)" "text_ok (fb_site b)"
    using name_ok_string [of b] empty_text_ok by (auto simp: encodable_def client_inv_def header_inv_def)
  with table_texts [OF ser refl] show ?thesis by (simp add: fabric_texts_ok_def)
qed

lemma table_bounds:
  assumes "builder_inv b"
  shows "length (fb_domains b) \<le> unat (lim_max_failure_domains (fb_limits b))"
    "length (fb_leaves b) \<le> unat (lim_max_leaves (fb_limits b))"
    "length (fb_spines b) \<le> unat (lim_max_spines (fb_limits b))"
    "length (fb_ports b) \<le> unat (lim_max_ports (fb_limits b))"
    "length (fb_links b) \<le> unat (lim_max_links (fb_limits b))"
    "length (fb_history_links b) \<le> unat (lim_max_history_records (fb_limits b))"
    "length (fb_evidence b) \<le> unat (lim_max_evidence_records (fb_limits b))"
  using assms by (simp_all add: builder_inv_def table_ok_def)

lemma table_enc: "concat (table_fields f xs) = le_bytes 4 (of_nat (length xs) :: u32) @ concat (map (\<lambda>x. concat (f x)) xs)"
  by (simp add: table_fields_def concat_fields)

text \<open>The decoder up to the live links; what remains is the history table.\<close>

definition before_history :: "fabric_builder \<Rightarrow> fabric_builder" where
  "before_history b = b\<lparr>fb_history_links := [], fb_evidence := []\<rparr>"

lemma read_topology_links:
  assumes ser: "encodable b" and m: "m = unat (lim_max_name_bytes (fb_limits b))"
  shows "\<exists>p c. read_topology (fb_limits b) (rd m [] (topology_enc (frozen_fabric b)))
      = (case read_table ''missing link count'' ''link count exceeds the configured bound''
             (lim_max_history_records (fb_limits b)) read_link add_history_link
             (rd m p (concat (table_fields link_fields (map snd (fb_history_links b))))) c of (s7, r7, b7) \<Rightarrow>
         if \<not> status_ok s7 then Inl s7 else Inr b7)
    \<and> rebuilt c (before_history b)"
proof -
  let ?f = "frozen_fabric b" and ?lim = "fb_limits b"
  have inv: "builder_inv b" "\<not> fb_frozen b"
    using ser by (simp_all add: encodable_def client_inv_def)
  note bounds = table_bounds [OF inv(1)] and names = table_texts [OF ser m]
  let ?rest0 = "concat (table_fields domain_fields (fab_domains ?f)) @ concat (table_fields leaf_fields (fab_leaves ?f))
     @ concat (table_fields spine_fields (fab_spines ?f)) @ concat (table_fields port_fields (fab_ports ?f))
     @ concat (table_fields link_fields (fab_links ?f)) @ concat (table_fields link_fields (fab_history_links ?f))"
  obtain c0 where c0: "read_header ?lim (rd m [] (concat (header_fields ?f) @ ?rest0))
      = (Inr c0, rd m (concat (header_fields ?f)) ?rest0)" and r0: "rebuilt c0 (bare_builder b)"
    using read_header_encoded [OF ser m, of "[]" ?rest0] by auto
  note s1 = stage_domain [OF inv(1,2) r0]
  note s2 = stage_leaf [OF inv(1,2) s1(2)]
  note s3 = stage_spine [OF inv(1,2) s2(2)]
  note s4 = stage_port [OF inv(1,2) s3(2)]
  note s5 = stage_link [OF inv(1,2) s4(2)]
  have enc: "topology_enc ?f = concat (header_fields ?f) @ ?rest0"
    by (simp add: topology_enc_def topology_fields_def)
  have rebuilt_b: "(bare_builder b)\<lparr>fb_domains := fb_domains b, fb_leaves := fb_leaves b, fb_spines := fb_spines b,
      fb_ports := fb_ports b, fb_links := fb_links b\<rparr> = before_history b"
    by (cases b) (simp add: bare_builder_def before_history_def)
  let ?c1 = "snd (add_all add_failure_domain (map snd (fb_domains b)) c0)"
  let ?c2 = "snd (add_all add_leaf (map snd (fb_leaves b)) ?c1)"
  let ?c3 = "snd (add_all add_spine (map snd (fb_spines b)) ?c2)"
  let ?c4 = "snd (add_all add_port (map snd (fb_ports b)) ?c3)"
  let ?c5 = "snd (add_all add_link (map snd (fb_links b)) ?c4)"
  have t1: "read_table mi ex (lim_max_failure_domains ?lim) read_domain add_failure_domain
      (rd m p (concat (table_fields domain_fields (map snd (fb_domains b))) @ R)) c0
      = (status_success, rd m (p @ concat (table_fields domain_fields (map snd (fb_domains b)))) R, ?c1)" for mi ex p R
    using domain_codec.read_table_encoded [OF _ _ s1(1), where m = m and rest = R] bounds names by (simp add: table_enc)
  have t2: "read_table mi ex (lim_max_leaves ?lim) read_leaf add_leaf
      (rd m p (concat (table_fields leaf_fields (map snd (fb_leaves b))) @ R)) ?c1
      = (status_success, rd m (p @ concat (table_fields leaf_fields (map snd (fb_leaves b)))) R, ?c2)" for mi ex p R
    using leaf_codec.read_table_encoded [OF _ _ s2(1), where m = m and rest = R] bounds names by (simp add: table_enc)
  have t3: "read_table mi ex (lim_max_spines ?lim) read_spine add_spine
      (rd m p (concat (table_fields spine_fields (map snd (fb_spines b))) @ R)) ?c2
      = (status_success, rd m (p @ concat (table_fields spine_fields (map snd (fb_spines b)))) R, ?c3)" for mi ex p R
    using spine_codec.read_table_encoded [OF _ _ s3(1), where m = m and rest = R] bounds names by (simp add: table_enc)
  have t4: "read_table mi ex (lim_max_ports ?lim) read_port add_port
      (rd m p (concat (table_fields port_fields (map snd (fb_ports b))) @ R)) ?c3
      = (status_success, rd m (p @ concat (table_fields port_fields (map snd (fb_ports b)))) R, ?c4)" for mi ex p R
    using port_codec.read_table_encoded [OF _ _ s4(1), where m = m and rest = R] bounds names by (simp add: table_enc)
  have t5: "read_table mi ex (lim_max_links ?lim) read_link add_link
      (rd m p (concat (table_fields link_fields (map snd (fb_links b))) @ R)) ?c4
      = (status_success, rd m (p @ concat (table_fields link_fields (map snd (fb_links b)))) R, ?c5)" for mi ex p R
    using link_codec.read_table_encoded [OF _ _ s5(1), where m = m and rest = R] bounds names by (simp add: table_enc)
  from s5(2) rebuilt_b show ?thesis
    unfolding read_topology_def enc c0 by (auto simp: t1 t2 t3 t4 t5)
qed

lemma read_topology_encoded:
  assumes ser: "encodable b" and disj: "history_disjoint b" and m: "m = unat (lim_max_name_bytes (fb_limits b))"
  shows "\<exists>c. read_topology (fb_limits b) (rd m [] (topology_enc (frozen_fabric b))) = Inr c
    \<and> rebuilt c (b\<lparr>fb_evidence := []\<rparr>)"
proof -
  have inv: "builder_inv b" "\<not> fb_frozen b" using ser by (simp_all add: encodable_def client_inv_def)
  obtain p c where top: "read_topology (fb_limits b) (rd m [] (topology_enc (frozen_fabric b)))
      = (case read_table ''missing link count'' ''link count exceeds the configured bound''
             (lim_max_history_records (fb_limits b)) read_link add_history_link
             (rd m p (concat (table_fields link_fields (map snd (fb_history_links b))))) c of (s7, r7, b7) \<Rightarrow>
         if \<not> status_ok s7 then Inl s7 else Inr b7)" and c: "rebuilt c (before_history b)"
    using read_topology_links [OF ser m] by blast
  have "before_history b = (bare_builder b)\<lparr>fb_domains := fb_domains b, fb_leaves := fb_leaves b,
      fb_spines := fb_spines b, fb_ports := fb_ports b, fb_links := fb_links b\<rparr>"
    by (cases b) (simp add: bare_builder_def before_history_def)
  note st = stage_history [OF inv disj c [unfolded this]]
  have "read_table mi ex (lim_max_history_records (fb_limits b)) read_link add_history_link
      (rd m p (concat (table_fields link_fields (map snd (fb_history_links b))) @ [])) c
      = (status_success, rd m (p @ concat (table_fields link_fields (map snd (fb_history_links b)))) [],
         snd (add_all add_history_link (map snd (fb_history_links b)) c))" for mi ex
    using link_codec.read_table_encoded [OF _ _ st(1), where m = m and rest = "[]"] table_bounds(6) [OF inv(1)]
    by (simp add: table_enc)
  moreover have "(bare_builder b)\<lparr>fb_domains := fb_domains b, fb_leaves := fb_leaves b, fb_spines := fb_spines b,
      fb_ports := fb_ports b, fb_links := fb_links b, fb_history_links := fb_history_links b\<rparr>
      = b\<lparr>fb_evidence := []\<rparr>"
    by (cases b) (simp add: bare_builder_def)
  ultimately show ?thesis using top st(2) by simp
qed

lemma weak_order_evidence: "weak_order evidence_less"
  unfolding weak_order_def evidence_less_def by auto

lemma insort_by_sorted:
  "\<forall>y\<in>set ys. \<not> lt y x \<Longrightarrow> insort_by lt x ys = x # ys"
  by (cases ys) auto

lemma std_sort_sorted: "sorted_wrt (\<lambda>a b. \<not> lt b a) xs \<Longrightarrow> std_sort lt xs = xs"
  by (induction xs) (simp_all add: std_sort_Cons insort_by_sorted)

lemma std_sort_idem: "std_sort evidence_less (std_sort evidence_less es) = std_sort evidence_less es"
  by (rule std_sort_sorted [OF sorted_std_sort [OF weak_order_evidence]])

lemma read_evidence_encoded:
  assumes ser: "encodable b" and m: "m = unat (lim_max_name_bytes (fb_limits b))"
    and c: "rebuilt c (b\<lparr>fb_evidence := []\<rparr>)"
  shows "\<exists>d. read_evidence_block (fb_limits b) (rd m [] (evidence_enc (frozen_fabric b))) c = Inr d
    \<and> rebuilt d (b\<lparr>fb_evidence := std_sort evidence_less (fb_evidence b)\<rparr>)"
proof -
  let ?es = "std_sort evidence_less (fb_evidence b)"
  have inv: "builder_inv b" "\<not> fb_frozen b" using ser by (simp_all add: encodable_def client_inv_def)
  note st = stage_evidence [OF inv set_std_sort length_std_sort c]
  have le: "length ?es \<le> unat (lim_max_evidence_records (fb_limits b))"
    using table_bounds(7) [OF inv(1)] by simp
  have "length ?es < 2 ^ 32"
    using le_less_trans [OF le unsigned_less [of "lim_max_evidence_records (fb_limits b)"]] by simp
  then have n: "unat (of_nat (length ?es) :: u32) = length ?es" by (simp add: unat_of_nat)
  then have small: "\<not> (of_nat (length ?es) :: u32) > lim_max_evidence_records (fb_limits b)"
    using le by (simp add: word_less_nat_alt)
  have tag: "string_ok m kEvidenceDomain" using ser m tag_ok by (simp add: encodable_def)
  let ?body = "concat (map (\<lambda>e. concat (evidence_fields e)) ?es)"
  have rec: "read_records read_evidence add_evidence (length ?es) (rd m p (?body @ [])) c
      = (status_success, rd m (p @ ?body) [], snd (add_all add_evidence ?es c))" for p
    by (rule evidence_codec.read_records_encoded [OF _ st(1)]) simp
  have fin: "br_expect_end (rd m p []) = status_success" for p
    by (simp add: br_expect_end_def br_exhausted_def rd_def)
  have enc: "evidence_enc (frozen_fabric b) = string_enc kEvidenceDomain @ le_bytes 8 (fb_generation b)
      @ le_bytes 4 (of_nat (length ?es) :: u32) @ ?body @ []"
    by (simp add: evidence_enc_def evidence_block_fields_def table_fields_def concat_fields)
  show ?thesis using st(2) tag small n rec fin unfolding enc read_evidence_block_def
    by (simp add: codec_simps Let_def)
qed

lemma rd_block:
  "length xs \<le> 67108864 \<Longrightarrow> br_block 67108864 (rd m pre (block_enc xs @ rest)) = (Inr xs, rd m (pre @ block_enc xs) rest)"
  using block_codec.dec_enc [where r = "rd m pre (block_enc xs @ rest)" and x = xs and rest = rest] by simp

lemma deserialize_frame:
  assumes "encodable b"
  shows "deserialize_fabric (serialize_fabric (frozen_fabric b)) lim =
    (case read_topology lim (rd (unat (lim_max_name_bytes lim)) [] (topology_enc (frozen_fabric b))) of
       Inl s \<Rightarrow> Inl s
     | Inr c \<Rightarrow>
         (case read_evidence_block lim (rd (unat (lim_max_name_bytes lim)) [] (evidence_enc (frozen_fabric b))) c of
            Inl s \<Rightarrow> Inl s | Inr d \<Rightarrow> fst (freeze d)))"
proof -
  let ?f = "frozen_fabric b"
  have fits: "fabric_fits ?f" using assms by (simp add: encodable_def)
  then have len: "length (topology_enc ?f) \<le> 67108864" "length (evidence_enc ?f) \<le> 67108864"
    by (simp_all add: fabric_fits_def kDefaultMaxBytes_def)
  have fin: "br_exhausted (rd m p [])" for m p by (simp add: br_exhausted_def rd_def)
  have ser: "serialize_fabric ?f = le_bytes 4 kPersistenceFormatVersion @ block_enc (topology_enc ?f)
      @ block_enc (evidence_enc ?f) @ []"
    using serialize_exact [OF encodable_texts [OF assms] fits] by simp
  show ?thesis unfolding ser deserialize_fabric_def Let_def new_reader_rd
    using len rd_block [OF len(2), of _ _ "[]"] fin by (simp add: codec_simps rd_block)
qed

lemma freeze_rebuilt:
  assumes "rebuilt d (b\<lparr>fb_evidence := std_sort evidence_less (fb_evidence b)\<rparr>)" and "\<not> fb_frozen b"
    and "graph_clean b"
  shows "fst (freeze d) = Inr (frozen_fabric b)"
proof -
  let ?t = "b\<lparr>fb_evidence := std_sort evidence_less (fb_evidence b)\<rparr>"
  have d: "d = ?t\<lparr>fb_report := fb_report d\<rparr>" "report_errors (fb_report d) = []" "report_inv (fb_report d)"
    using assms(1) by (simp_all add: rebuilt_def same_front_iff [symmetric])
  have "\<not> fb_frozen d" using assms(2) by (subst d(1)) simp
  moreover have "graph_clean d" using assms(3)
    by (subst d(1)) (simp add: graph_clean_def link_usable_def builder_link_speed_def)
  ultimately have "fst (freeze d) = Inr (with_digests (undigested_fabric d))"
    using d(2,3) by (intro freeze_succeeds)
  moreover have "undigested_fabric d = undigested_fabric b"
    by (subst d(1)) (simp add: undigested_fabric_def std_sort_idem)
  ultimately show ?thesis by (simp add: frozen_fabric_def)
qed

lemma deserialize_serialize:
  assumes "encodable b" and "history_disjoint b"
  shows "deserialize_fabric (serialize_fabric (frozen_fabric b)) (fb_limits b) = Inr (frozen_fabric b)"
proof -
  obtain c where c: "read_topology (fb_limits b) (rd (unat (lim_max_name_bytes (fb_limits b))) []
      (topology_enc (frozen_fabric b))) = Inr c" "rebuilt c (b\<lparr>fb_evidence := []\<rparr>)"
    using read_topology_encoded [OF assms refl] by blast
  obtain d where d: "read_evidence_block (fb_limits b) (rd (unat (lim_max_name_bytes (fb_limits b))) []
      (evidence_enc (frozen_fabric b))) c = Inr d"
    "rebuilt d (b\<lparr>fb_evidence := std_sort evidence_less (fb_evidence b)\<rparr>)"
    using read_evidence_encoded [OF assms(1) refl c(2)] by blast
  have "\<not> fb_frozen b" "graph_clean b" using assms(1) by (simp_all add: encodable_def)
  from freeze_rebuilt [OF d(2) this] show ?thesis
    unfolding deserialize_frame [OF assms(1)] by (simp add: c(1) d(1))
qed

section \<open>A history link that shares a live identity\<close>

text \<open>
  \<open>add_link\<close> does not look at the history table, so a builder can hold one identity in both. The
  decoder adds live links first and \<open>add_history_link\<close> then refuses the shared identity, so the
  bytes such a fabric serializes to are never accepted again.
\<close>

context codec
begin

lemma read_records_status:
  assumes "\<forall>x\<in>set xs. valid m x"
  shows "fst (read_records dec add (length xs) (rd m pre (concat (map enc xs) @ rest)) b) = fst (add_all add xs b)"
  using assms
proof (induction xs arbitrary: pre b)
  case (Cons x xs)
  have "dec (rd m pre (enc x @ concat (map enc xs) @ rest)) = (Inr x, rd m (pre @ enc x) (concat (map enc xs) @ rest))"
    using dec_enc [of "rd m pre (enc x @ concat (map enc xs) @ rest)" x "concat (map enc xs) @ rest"] Cons.prems
    by simp
  then show ?case using Cons.prems Cons.IH [of "pre @ enc x" "snd (add x b)"]
    by (auto simp: split_def)
qed simp

end

lemma add_history_links_fixed: "fb_links (snd (add_history_link k b)) = fb_links b"
  using builder_core_fields(13) [OF history.add_core [of k b]] by (simp add: put_history_def)

lemma history_overlap_refused:
  assumes "k \<in> set ks" and "map_of (fb_links c) (lk_id k) \<noteq> None"
  shows "\<not> status_ok (fst (add_all add_history_link ks c))"
  using assms
proof (induction ks arbitrary: c)
  case (Cons x ks)
  show ?case
  proof (cases "x = k")
    case True
    then have "\<not> history_accept x c" using Cons.prems(2) by (simp add: history_accept_def)
    then have "\<not> status_ok (fst (add_history_link x c))" using history.add_ok_iff by blast
    then show ?thesis by (simp add: split_def)
  next
    case False
    then have "\<not> status_ok (fst (add_all add_history_link ks (snd (add_history_link x c))))"
      using Cons.prems by (intro Cons.IH) (simp_all add: add_history_links_fixed)
    then show ?thesis by (simp add: split_def)
  qed
qed simp

lemma overlap_undecodable:
  assumes enc: "encodable b" and "(i, k) \<in> set (fb_history_links b)" and "map_of (fb_links b) i \<noteq> None"
  shows "\<not> outcome_ok (deserialize_fabric (serialize_fabric (frozen_fabric b)) (fb_limits b))"
proof -
  let ?m = "unat (lim_max_name_bytes (fb_limits b))" and ?ks = "map snd (fb_history_links b)"
  have inv: "builder_inv b" using enc by (simp add: encodable_def client_inv_def)
  obtain p c where top: "read_topology (fb_limits b) (rd ?m [] (topology_enc (frozen_fabric b)))
      = (case read_table ''missing link count'' ''link count exceeds the configured bound''
             (lim_max_history_records (fb_limits b)) read_link add_history_link
             (rd ?m p (concat (table_fields link_fields ?ks))) c of (s7, r7, b7) \<Rightarrow>
         if \<not> status_ok s7 then Inl s7 else Inr b7)" and c: "rebuilt c (before_history b)"
    using read_topology_links [OF enc refl] by blast
  have "fb_links c = fb_links b"
    using c builder_core_fields(13) [of c "before_history b"]
    by (simp add: rebuilt_def same_front_def before_history_def)
  moreover have "lk_id k = i" using inv assms(2) by (auto simp: builder_inv_def table_ok_def)
  moreover have "k \<in> set ?ks" using assms(2) by force
  ultimately have bad: "\<not> status_ok (fst (add_all add_history_link ?ks c))"
    using assms(3) by (intro history_overlap_refused) auto
  have "length ?ks < 2 ^ 32"
    using le_less_trans [OF table_bounds(6) [OF inv] unsigned_less] by simp
  then have n: "unat (of_nat (length ?ks) :: u32) = length ?ks" by (simp add: unat_of_nat)
  then have small: "\<not> (of_nat (length ?ks) :: u32) > lim_max_history_records (fb_limits b)"
    using table_bounds(6) [OF inv] by (simp add: word_less_nat_alt)
  have "\<not> status_ok (fst (read_records read_link add_history_link (length ?ks)
      (rd ?m q (concat (map (\<lambda>x. concat (link_fields x)) ?ks) @ [])) c))" for q
    using link_codec.read_records_status [where xs = ?ks and m = ?m and add = add_history_link and pre = q
        and rest = "[]" and b = c] bad by simp
  then have "\<not> outcome_ok (read_topology (fb_limits b) (rd ?m [] (topology_enc (frozen_fabric b))))"
    unfolding top using n small by (simp add: read_table_def table_enc codec_simps split_def)
  then show ?thesis unfolding deserialize_frame [OF enc] by (auto simp: outcome_ok_iff split: sum.splits)
qed

end
