(* ===== verification/SLF_Topology.thy ===== *)
theory SLF_Topology
  imports SLF_Serialize
begin

text \<open>
  The adjacency index (\<open>include/slf/topology.hpp\<close>, \<open>src/topology.cpp\<close>): a compressed sparse row
  array over the sorted node keys, the class-restricted views, structural reachability classes and
  bounded path enumeration. The central result is that every view of the index equals the
  reference that filters the sorted edge list by node. \<open>std::span\<close> results are lists; the null
  handle of \<open>build\<close> is \<open>None\<close>.
\<close>

datatype reachability_class =
    RC_SameNode | RC_DirectLeafSpine | RC_DirectPeer | RC_LeafSpineViaPeer | RC_LeafLeafSingleSpine
  | RC_LeafLeafMultiSpine | RC_SpineSpineViaLeaf | RC_Unreachable | RC_Indeterminate

fun reachability_class_string :: "reachability_class \<Rightarrow> string" where
  "reachability_class_string RC_SameNode = ''same_node''"
| "reachability_class_string RC_DirectLeafSpine = ''direct_leaf_spine''"
| "reachability_class_string RC_DirectPeer = ''direct_peer''"
| "reachability_class_string RC_LeafSpineViaPeer = ''leaf_spine_via_peer''"
| "reachability_class_string RC_LeafLeafSingleSpine = ''leaf_leaf_single_spine''"
| "reachability_class_string RC_LeafLeafMultiSpine = ''leaf_leaf_multi_spine''"
| "reachability_class_string RC_SpineSpineViaLeaf = ''spine_spine_via_leaf''"
| "reachability_class_string RC_Unreachable = ''unreachable''"
| "reachability_class_string RC_Indeterminate = ''indeterminate''"

record adjacency =
  aj_link :: link_id
  aj_self :: node_key
  aj_peer :: node_key
  aj_local_port :: port_id
  aj_peer_port :: port_id
  aj_cls :: link_class
  aj_admin :: link_admin
  aj_speed_mbps :: u64
  aj_generation :: topology_generation

definition adjacency_less :: "adjacency \<Rightarrow> adjacency \<Rightarrow> bool" where
  "adjacency_less a b = (if aj_peer a \<noteq> aj_peer b then aj_peer a < aj_peer b else aj_link a < aj_link b)"

record topology_index =
  ti_fabric :: fabric
  ti_keys :: "node_key list"
  ti_offsets :: "u32 list"
  ti_edges :: "adjacency list"
  ti_leaf_spine_offsets :: "u32 list"
  ti_edges_leaf_spine :: "adjacency list"
  ti_peer_offsets :: "u32 list"
  ti_edges_peer :: "adjacency list"
  ti_node_count :: u32
  ti_leaf_count :: u32
  ti_spine_count :: u32

definition node_slot :: "node_key list \<Rightarrow> node_key \<Rightarrow> nat option" where
  "node_slot keys key =
     (let i = lower_bound (\<lambda>k. k < key) keys in
      if i = length keys \<or> keys ! i \<noteq> key then None else Some i)"

definition forward_adjacency :: "link_record \<Rightarrow> u64 \<Rightarrow> adjacency" where
  "forward_adjacency l speed =
     \<lparr>aj_link = lk_id l, aj_self = lk_a l, aj_peer = lk_b l, aj_local_port = lk_port_a l,
      aj_peer_port = lk_port_b l, aj_cls = lk_cls l, aj_admin = lk_admin l, aj_speed_mbps = speed,
      aj_generation = lk_generation l\<rparr>"

definition backward_adjacency :: "link_record \<Rightarrow> u64 \<Rightarrow> adjacency" where
  "backward_adjacency l speed =
     \<lparr>aj_link = lk_id l, aj_self = lk_b l, aj_peer = lk_a l, aj_local_port = lk_port_b l,
      aj_peer_port = lk_port_a l, aj_cls = lk_cls l, aj_admin = lk_admin l, aj_speed_mbps = speed,
      aj_generation = lk_generation l\<rparr>"

text \<open>The loop over the links: all edges, the leaf-spine edges and the peer edges, in push order.\<close>

type_synonym edge_lists = "adjacency list \<times> adjacency list \<times> adjacency list"

fun collect_edges :: "fabric \<Rightarrow> link_record list \<Rightarrow> edge_lists \<Rightarrow> edge_lists outcome" where
  "collect_edges f [] acc = Inr acc"
| "collect_edges f (l # ls) (es, lss, ps) =
     (if lk_admin l \<noteq> LA_Enabled then collect_edges f ls (es, lss, ps)
      else case effective_link_speed_mbps f l of
             None \<Rightarrow> Inl (Status SC_Invalid (''link '' @ link_id_string (lk_id l) @ '' has no resolvable speed''))
           | Some speed \<Rightarrow>
               (let pair = [forward_adjacency l speed, backward_adjacency l speed] in
                if lk_cls l = LC_LeafSpine then collect_edges f ls (es @ pair, lss @ pair, ps)
                else collect_edges f ls (es @ pair, lss, ps @ pair)))"

fun csr_count :: "node_key list \<Rightarrow> adjacency list \<Rightarrow> u32 list \<Rightarrow> u32 list outcome" where
  "csr_count keys [] counts = Inr counts"
| "csr_count keys (a # rest) counts =
     (case node_slot keys (aj_self a) of
        None \<Rightarrow> Inl (Status SC_DanglingEdge ''adjacency references an unknown node'')
      | Some slot \<Rightarrow>
          if counts ! slot = 0xFFFFFFFF then Inl (Status SC_Overflow ''adjacency count overflow'')
          else csr_count keys rest (counts[slot := counts ! slot + 1]))"

definition csr_offsets :: "nat \<Rightarrow> u32 list \<Rightarrow> u32 list" where
  "csr_offsets n counts =
     fold (\<lambda>i offsets. offsets[i + 1 := offsets ! i + counts ! i]) [0..<n] (replicate (n + 1) 0)"

fun csr_scatter ::
  "node_key list \<Rightarrow> adjacency list \<Rightarrow> u32 list \<Rightarrow> adjacency list \<Rightarrow> adjacency list outcome" where
  "csr_scatter keys [] cursor dest = Inr dest"
| "csr_scatter keys (a # rest) cursor dest =
     (case node_slot keys (aj_self a) of
        None \<Rightarrow> Inl (Status SC_DanglingEdge ''adjacency references an unknown node'')
      | Some slot \<Rightarrow>
          csr_scatter keys rest (cursor[slot := cursor ! slot + 1]) (dest[unat (cursor ! slot) := a]))"

definition blank_adjacency :: adjacency where
  "blank_adjacency =
     \<lparr>aj_link = 0, aj_self = NodeKey Leaf 0, aj_peer = NodeKey Leaf 0, aj_local_port = 0, aj_peer_port = 0,
      aj_cls = LC_LeafSpine, aj_admin = LA_Enabled, aj_speed_mbps = 0, aj_generation = 0\<rparr>"

definition build_csr :: "node_key list \<Rightarrow> nat \<Rightarrow> adjacency list \<Rightarrow> (u32 list \<times> adjacency list) outcome" where
  "build_csr keys n source =
     (case csr_count keys source (replicate (n + 1) 0) of
        Inl s \<Rightarrow> Inl s
      | Inr counts \<Rightarrow>
          let offsets = csr_offsets n counts in
          case csr_scatter keys source (butlast offsets) (replicate (length source) blank_adjacency) of
            Inl s \<Rightarrow> Inl s
          | Inr dest \<Rightarrow> Inr (offsets, dest))"

definition fabric_keys :: "fabric \<Rightarrow> node_key list" where
  "fabric_keys f = map (\<lambda>l. leaf_key (lf_id l)) (fab_leaves f) @ map (\<lambda>s. spine_key (sp_id s)) (fab_spines f)"

definition index_build :: "fabric option \<Rightarrow> topology_index outcome" where
  "index_build handle =
     (case handle of
        None \<Rightarrow> Inl (Status SC_Invalid ''cannot index a null fabric'')
      | Some f \<Rightarrow>
          if digest_is_zero (fab_topology_digest f)
          then Inl (Status SC_Invalid ''cannot index a fabric that has not been frozen'')
          else
            let leaf_count = of_nat (length (fab_leaves f)) :: u32;
                spine_count = of_nat (length (fab_spines f)) :: u32
            in case checked_add (ucast leaf_count) (ucast spine_count) of
                 None \<Rightarrow> Inl (Status SC_Overflow ''node count overflow'')
               | Some nodes \<Rightarrow>
                   if nodes > 0xFFFFFFFF then Inl (Status SC_Overflow ''node count overflow'')
                   else
                     let n = ucast nodes :: u32; keys = fabric_keys f in
                     case collect_edges f (fab_links f) ([], [], []) of
                       Inl s \<Rightarrow> Inl s
                     | Inr (es, lss, ps) \<Rightarrow>
                         (case build_csr keys (unat n) (std_sort adjacency_less es) of
                            Inl s \<Rightarrow> Inl s
                          | Inr (eo, ee) \<Rightarrow>
                         (case build_csr keys (unat n) (std_sort adjacency_less lss) of
                            Inl s \<Rightarrow> Inl s
                          | Inr (lo, le) \<Rightarrow>
                         (case build_csr keys (unat n) (std_sort adjacency_less ps) of
                            Inl s \<Rightarrow> Inl s
                          | Inr (po, pe) \<Rightarrow>
                              Inr \<lparr>ti_fabric = f, ti_keys = keys, ti_offsets = eo, ti_edges = ee,
                                   ti_leaf_spine_offsets = lo, ti_edges_leaf_spine = le,
                                   ti_peer_offsets = po, ti_edges_peer = pe, ti_node_count = n,
                                   ti_leaf_count = leaf_count, ti_spine_count = spine_count\<rparr>))))"

definition csr_span :: "node_key list \<Rightarrow> u32 list \<Rightarrow> adjacency list \<Rightarrow> node_key \<Rightarrow> adjacency list" where
  "csr_span keys offsets edges key =
     (case node_slot keys key of
        None \<Rightarrow> []
      | Some slot \<Rightarrow>
          if offsets = [] then []
          else let first = offsets ! slot; last = offsets ! (slot + 1)
               in take (unat (last - first)) (drop (unat first) edges))"

definition adjacencies :: "topology_index \<Rightarrow> node_key \<Rightarrow> adjacency list" where
  "adjacencies ix key = csr_span (ti_keys ix) (ti_offsets ix) (ti_edges ix) key"

definition uplinks :: "topology_index \<Rightarrow> leaf_id \<Rightarrow> adjacency list" where
  "uplinks ix i = csr_span (ti_keys ix) (ti_leaf_spine_offsets ix) (ti_edges_leaf_spine ix) (leaf_key i)"

definition peer_links :: "topology_index \<Rightarrow> node_key \<Rightarrow> adjacency list" where
  "peer_links ix key = csr_span (ti_keys ix) (ti_peer_offsets ix) (ti_edges_peer ix) key"

definition downlinks :: "topology_index \<Rightarrow> spine_id \<Rightarrow> adjacency list" where
  "downlinks ix i = csr_span (ti_keys ix) (ti_leaf_spine_offsets ix) (ti_edges_leaf_spine ix) (spine_key i)"

definition adjacency_between :: "topology_index \<Rightarrow> node_key \<Rightarrow> node_key \<Rightarrow> adjacency option" where
  "adjacency_between ix a b = find (\<lambda>adj. aj_peer adj = b) (adjacencies ix a)"

definition adjacent :: "topology_index \<Rightarrow> node_key \<Rightarrow> node_key \<Rightarrow> bool" where
  "adjacent ix a b = (adjacency_between ix a b \<noteq> None)"

definition degree :: "topology_index \<Rightarrow> node_key \<Rightarrow> u32" where
  "degree ix key = of_nat (length (adjacencies ix key))"

definition common_spines :: "topology_index \<Rightarrow> leaf_id \<Rightarrow> leaf_id \<Rightarrow> spine_id list" where
  "common_spines ix a b =
     (if a = b then []
      else let first = uplinks ix a; second = uplinks ix b in
           if first = [] \<or> second = [] then []
           else let probe = (if length first \<le> length second then first else second);
                    other = (if length first \<le> length second then second else first);
                    out = map (\<lambda>adj. nk_index (aj_peer adj))
                            (filter (\<lambda>adj. nk_tier (aj_peer adj) = Spine
                               \<and> list_ex (\<lambda>cand. aj_peer cand = aj_peer adj) other) probe)
                in std_unique (std_sort (<) out))"

definition structural_class :: "topology_index \<Rightarrow> node_key \<Rightarrow> node_key \<Rightarrow> reachability_class" where
  "structural_class ix a b =
     (if a = b then RC_SameNode
      else case adjacency_between ix a b of
        Some direct \<Rightarrow> if aj_cls direct = LC_LeafSpine then RC_DirectLeafSpine else RC_DirectPeer
      | None \<Rightarrow>
          if nk_tier a = Leaf \<and> nk_tier b = Leaf
          then let spines = common_spines ix (nk_index a) (nk_index b) in
               if length spines \<ge> 2 then RC_LeafLeafMultiSpine
               else if length spines = 1 then RC_LeafLeafSingleSpine
               else if list_ex (\<lambda>p. adjacent ix (aj_peer p) b) (peer_links ix a) then RC_LeafSpineViaPeer
               else if list_ex (\<lambda>p. adjacent ix (aj_peer p) a) (peer_links ix b) then RC_LeafSpineViaPeer
               else RC_Unreachable
          else if nk_tier a = Spine \<and> nk_tier b = Spine
          then if list_ex (\<lambda>d. adjacent ix (aj_peer d) b) (downlinks ix (nk_index a)) then RC_SpineSpineViaLeaf
               else RC_Unreachable
          else let leaf = (if nk_tier a = Leaf then a else b);
                   spine = (if nk_tier a = Leaf then b else a)
               in if list_ex (\<lambda>p. adjacent ix (aj_peer p) spine) (peer_links ix leaf) then RC_LeafSpineViaPeer
                  else RC_Unreachable)"

text \<open>
  The recursive \<open>walk\<close>. \<open>current\<close> and \<open>visited\<close> are restored before it returns, so they are
  arguments; \<open>paths\<close> accumulates. \<open>walk_from\<close> is the loop over the adjacencies of a node;
  it runs only below the hop bound, and repeats that test so that the recursion is seen to end.
\<close>

definition path_code :: "node_key \<Rightarrow> u64" where
  "path_code key = push_bit 32 (if nk_tier key = Leaf then 0 else 1) OR ucast (nk_index key)"

function (sequential) walk ::
    "topology_index \<Rightarrow> node_key \<Rightarrow> nat \<Rightarrow> nat \<Rightarrow> node_key \<Rightarrow> nat \<Rightarrow> node_key list \<Rightarrow> u64 set
      \<Rightarrow> node_key list list \<Rightarrow> node_key list list"
  and walk_from ::
    "topology_index \<Rightarrow> node_key \<Rightarrow> nat \<Rightarrow> nat \<Rightarrow> adjacency list \<Rightarrow> nat \<Rightarrow> node_key list \<Rightarrow> u64 set
      \<Rightarrow> node_key list list \<Rightarrow> node_key list list" where
  "walk ix b max_hops max_paths node depth current visited paths =
     (if length paths \<ge> max_paths then paths
      else let current' = current @ [node]; visited' = insert (path_code node) visited in
           if node = b \<and> length current' > 1 then paths @ [current']
           else if depth < max_hops
           then walk_from ix b max_hops max_paths (adjacencies ix node) depth current' visited' paths
           else paths)"
| "walk_from ix b max_hops max_paths [] depth current visited paths = paths"
| "walk_from ix b max_hops max_paths (adj # rest) depth current visited paths =
     (if path_code (aj_peer adj) \<in> visited
      then walk_from ix b max_hops max_paths rest depth current visited paths
      else let paths' = (if depth < max_hops
                         then walk ix b max_hops max_paths (aj_peer adj) (depth + 1) current visited paths
                         else paths) in
           if length paths' \<ge> max_paths then paths'
           else walk_from ix b max_hops max_paths rest depth current visited paths')"
  by pat_completeness auto
termination
  by (relation "measures [\<lambda>p. case p of Inl (_, _, h, _, _, d, _) \<Rightarrow> 2 * (h - d)
                                   | Inr (_, _, h, _, _, d, _) \<Rightarrow> 2 * (h - d) - 1,
                          \<lambda>p. case p of Inl _ \<Rightarrow> 0 | Inr (_, _, _, _, l, _) \<Rightarrow> length l]") auto

declare walk.simps [simp del] walk_from.simps [simp del]

definition enumerate_paths :: "topology_index \<Rightarrow> node_key \<Rightarrow> node_key \<Rightarrow> u32 \<Rightarrow> u32 \<Rightarrow> node_key list list" where
  "enumerate_paths ix a b max_hops max_paths =
     (if max_hops = 0 \<or> max_paths = 0 then []
      else walk ix b (unat max_hops) (unat max_paths) a 0 [] {} [])"

definition all_edges_resolve :: "topology_index \<Rightarrow> bool" where
  "all_edges_resolve ix =
     list_all (\<lambda>adj. node_slot (ti_keys ix) (aj_self adj) \<noteq> None \<and> node_slot (ti_keys ix) (aj_peer adj) \<noteq> None
       \<and> find_link (ti_fabric ix) (aj_link adj) \<noteq> None) (ti_edges ix)"

section \<open>Slots\<close>

lemma node_slot_iff:
  assumes "sorted_wrt (<) keys"
  shows "node_slot keys key = Some i \<longleftrightarrow> i < length keys \<and> keys ! i = key"
proof -
  let ?p = "\<lambda>k. k < key"
  let ?t = "length (takeWhile ?p keys)"
  have ord: "keys ! i < keys ! j" if "i < j" "j < length keys" for i j
    using assms that by (simp add: sorted_wrt_iff_nth_less)
  then have lb: "lower_bound ?p keys = ?t"
    by (intro lower_bound_partitioned) (metis order_less_trans)
  have here: "?t = i" if "i < length keys" "keys ! i = key"
  proof -
    have "takeWhile ?p keys = take i keys"
      by (rule takeWhile_eq_take_P_nth) (use that ord in auto)
    with that show ?thesis by simp
  qed
  have le: "?t \<le> length keys" by (rule length_takeWhile_le)
  show ?thesis unfolding node_slot_def Let_def lb using here le by (auto simp: le_less)
qed

lemma node_slot_None: "sorted_wrt (<) keys \<Longrightarrow> node_slot keys key = None \<longleftrightarrow> key \<notin> set keys"
  using node_slot_iff [of keys key] by (metis in_set_conv_nth not_None_eq)

section \<open>The compressed array equals filtering by node\<close>

definition of_node :: "node_key \<Rightarrow> adjacency list \<Rightarrow> adjacency list" where
  "of_node key es = filter (\<lambda>a. aj_self a = key) es"

text \<open>Where the block of slot \<open>i\<close> begins.\<close>

definition csr_base :: "node_key list \<Rightarrow> adjacency list \<Rightarrow> nat \<Rightarrow> nat" where
  "csr_base keys es i = sum_list (map (\<lambda>k. length (of_node k es)) (take i keys))"

lemma csr_base_Suc: "i < length keys \<Longrightarrow> csr_base keys es (Suc i) = csr_base keys es i + length (of_node (keys ! i) es)"
  by (simp add: csr_base_def take_Suc_conv_app_nth)

lemma csr_base_mono: "i \<le> j \<Longrightarrow> csr_base keys es i \<le> csr_base keys es j"
proof -
  assume "i \<le> j"
  then obtain d where "j = i + d" using le_Suc_ex by blast
  then show ?thesis by (simp add: csr_base_def take_add)
qed

lemma csr_base_all:
  assumes "distinct keys" and "\<forall>a\<in>set es. aj_self a \<in> set keys"
  shows "csr_base keys es (length keys) = length es"
proof -
  have "(\<Sum>k\<in>set keys. length (of_node k es)) = length es"
    using assms(2)
  proof (induction es)
    case (Cons a es)
    have "(\<Sum>k\<in>set keys. length (of_node k (a # es)))
        = (\<Sum>k\<in>set keys. length (of_node k es) + (if k = aj_self a then 1 else 0))"
      by (rule sum.cong) (auto simp: of_node_def)
    also have "\<dots> = length es + 1" using Cons by (simp add: sum.distrib)
    finally show ?case by simp
  qed (simp add: of_node_def)
  with assms(1) show ?thesis by (simp add: csr_base_def sum_list_distinct_conv_sum_set)
qed

lemma csr_block_end:
  assumes "distinct keys" and "\<forall>a\<in>set es. aj_self a \<in> set keys" and "i < length keys"
  shows "csr_base keys es i + length (of_node (keys ! i) es) \<le> length es"
  using csr_base_mono [of "Suc i" "length keys" keys es] csr_base_all [OF assms(1,2)] csr_base_Suc [OF assms(3)] assms(3)
  by simp

lemma csr_count_exact:
  assumes sorted: "sorted_wrt (<) keys" and "\<forall>a\<in>set es. aj_self a \<in> set keys"
    and "length counts = length keys + 1"
    and "\<forall>i<length keys. unat (counts ! i) + length (of_node (keys ! i) es) < 2 ^ 32"
  shows "\<exists>counts'. csr_count keys es counts = Inr counts' \<and> length counts' = length counts
    \<and> (\<forall>i<length keys. unat (counts' ! i) = unat (counts ! i) + length (of_node (keys ! i) es))"
  using assms(2-)
proof (induction es arbitrary: counts)
  case (Cons a es)
  then obtain t where t: "t < length keys" "keys ! t = aj_self a" by (auto simp: in_set_conv_nth)
  then have slot: "node_slot keys (aj_self a) = Some t" using node_slot_iff [OF sorted] by simp
  have "distinct keys" using sorted strict_sorted_iff by blast
  then have same: "keys ! i = aj_self a \<longleftrightarrow> i = t" if "i < length keys" for i
    using that t by (metis nth_eq_iff_index_eq)
  have lt: "unat (counts ! t) + 1 < 2 ^ 32" using Cons.prems(3) t by (auto simp: of_node_def)
  then have ne: "counts ! t \<noteq> 0xFFFFFFFF" by auto
  have inc: "unat (counts ! t + 1) = unat (counts ! t) + 1"
    using lt by (simp add: unat_word_ariths)
  let ?c = "counts[t := counts ! t + 1]"
  have upd: "unat (?c ! i) = unat (counts ! i) + (if i = t then 1 else 0)" if "i < length keys" for i
    using that inc t(1) Cons.prems(2) by (simp add: nth_list_update)
  have split: "length (of_node (keys ! i) (a # es)) = (if i = t then 1 else 0) + length (of_node (keys ! i) es)"
    if "i < length keys" for i using same [OF that] by (auto simp: of_node_def)
  have "\<exists>counts'. csr_count keys es ?c = Inr counts' \<and> length counts' = length ?c
      \<and> (\<forall>i<length keys. unat (counts' ! i) = unat (?c ! i) + length (of_node (keys ! i) es))"
    using Cons.prems upd split by (intro Cons.IH) auto
  with slot ne upd split show ?case by auto
qed (auto simp: of_node_def)

lemma csr_offsets_exact:
  assumes "length keys = n"
    and "\<forall>i<n. unat (counts ! i) = length (of_node (keys ! i) es)" and "csr_base keys es n < 2 ^ 32"
  shows "length (csr_offsets n counts) = n + 1 \<and> (\<forall>i\<le>n. unat (csr_offsets n counts ! i) = csr_base keys es i)"
proof -
  let ?step = "\<lambda>i offsets. offsets[i + 1 := offsets ! i + counts ! i]"
  have "length (fold ?step [0..<k] (replicate (n + 1) 0)) = n + 1
      \<and> (\<forall>i\<le>k. unat (fold ?step [0..<k] (replicate (n + 1) 0) ! i) = csr_base keys es i)" if "k \<le> n" for k
    using that
  proof (induction k)
    case 0
    then show ?case by (simp add: csr_base_def)
  next
    case (Suc k)
    let ?o = "fold ?step [0..<k] (replicate (n + 1) 0)"
    have IH: "length ?o = n + 1" "\<forall>i\<le>k. unat (?o ! i) = csr_base keys es i" using Suc by auto
    have k: "k < length keys" using Suc.prems assms(1) by simp
    have "unat (?o ! k) + unat (counts ! k) = csr_base keys es (Suc k)"
      using IH(2) assms(2) Suc.prems csr_base_Suc [OF k] by simp
    moreover have "csr_base keys es (Suc k) < 2 ^ 32"
      using le_less_trans [OF csr_base_mono [OF Suc.prems] assms(3)] .
    ultimately have "unat (?o ! k + counts ! k) = csr_base keys es (Suc k)"
      by (simp add: unat_word_ariths)
    with IH Suc.prems show ?case by (auto simp: nth_list_update le_Suc_eq)
  qed
  then show ?thesis unfolding csr_offsets_def by simp
qed

text \<open>
  The scatter loop after the prefix \<open>seen\<close> of \<open>es\<close>: every cursor stands behind the edges of its node
  already placed, and those are in the block of the node in order.
\<close>

definition scatter_inv :: "node_key list \<Rightarrow> adjacency list \<Rightarrow> adjacency list \<Rightarrow> u32 list \<Rightarrow> adjacency list \<Rightarrow> bool" where
  "scatter_inv keys es seen cursor dest \<longleftrightarrow>
     length dest = length es \<and> length cursor = length keys
     \<and> (\<forall>i<length keys. unat (cursor ! i) = csr_base keys es i + length (of_node (keys ! i) seen)
          \<and> (\<forall>j<length (of_node (keys ! i) seen). dest ! (csr_base keys es i + j) = of_node (keys ! i) seen ! j))"

lemma csr_blocks_disjoint:
  assumes "i < length keys" and "t < length keys" and "i \<noteq> t"
    and "j < length (of_node (keys ! i) es)" and "u < length (of_node (keys ! t) es)"
  shows "csr_base keys es i + j \<noteq> csr_base keys es t + u"
proof (cases "i < t")
  case True
  then have "csr_base keys es (Suc i) \<le> csr_base keys es t" by (intro csr_base_mono) simp
  with assms show ?thesis by (simp add: csr_base_Suc)
next
  case False
  then have "csr_base keys es (Suc t) \<le> csr_base keys es i" using assms(3) by (intro csr_base_mono) simp
  with assms show ?thesis by (simp add: csr_base_Suc)
qed

lemma of_node_append: "of_node k (xs @ ys) = of_node k xs @ of_node k ys"
  by (simp add: of_node_def)

lemma scatter_step:
  assumes sorted: "sorted_wrt (<) keys" and known: "\<forall>e\<in>set es. aj_self e \<in> set keys"
    and small: "length es < 2 ^ 32" and es: "es = seen @ a # rest" and inv: "scatter_inv keys es seen cursor dest"
    and t: "t < length keys" "keys ! t = aj_self a"
  shows "scatter_inv keys es (seen @ [a]) (cursor[t := cursor ! t + 1]) (dest[unat (cursor ! t) := a])"
proof -
  have dist: "distinct keys" using sorted strict_sorted_iff by blast
  then have same: "keys ! i = aj_self a \<longleftrightarrow> i = t" if "i < length keys" for i
    using that t by (metis nth_eq_iff_index_eq)
  let ?c = "csr_base keys es t + length (of_node (keys ! t) seen)"
  have cur: "unat (cursor ! t) = ?c" using inv t by (simp add: scatter_inv_def)
  have room: "length (of_node (keys ! t) seen) < length (of_node (keys ! t) es)"
    using t by (simp add: es of_node_def)
  then have inside: "?c < length es" using csr_block_end [OF dist known t(1)] by simp
  then have inc: "unat (cursor ! t + 1) = ?c + 1" using small cur by (simp add: unat_word_ariths)
  have grow: "of_node (keys ! i) (seen @ [a]) = of_node (keys ! i) seen @ (if i = t then [a] else [])"
    if "i < length keys" for i using same [OF that] by (auto simp: of_node_def)
  have "dest[?c := a] ! (csr_base keys es i + j) = of_node (keys ! i) (seen @ [a]) ! j"
    if i: "i < length keys" and j: "j < length (of_node (keys ! i) (seen @ [a]))" for i j
  proof (cases "i = t")
    case True
    with i j inv inside grow [OF i] show ?thesis
      by (auto simp: scatter_inv_def nth_append nth_list_update less_Suc_eq)
  next
    case False
    have "j < length (of_node (keys ! i) es)"
      using j False grow [OF i] by (simp add: es of_node_append)
    then have "csr_base keys es i + j \<noteq> ?c" using csr_blocks_disjoint [OF i t(1) False _ room] by simp
    with False i j inv grow [OF i] show ?thesis by (simp add: scatter_inv_def)
  qed
  moreover have "unat (cursor[t := cursor ! t + 1] ! i) = csr_base keys es i + length (of_node (keys ! i) (seen @ [a]))"
    if i: "i < length keys" for i
    using inv i inc grow [OF i] by (auto simp: scatter_inv_def nth_list_update)
  ultimately show ?thesis using inv by (simp add: scatter_inv_def cur)
qed

lemma csr_scatter_exact:
  assumes sorted: "sorted_wrt (<) keys" and known: "\<forall>e\<in>set es. aj_self e \<in> set keys" and small: "length es < 2 ^ 32"
  shows "es = seen @ rest \<Longrightarrow> scatter_inv keys es seen cursor dest \<Longrightarrow>
    \<exists>dest' cursor'. csr_scatter keys rest cursor dest = Inr dest' \<and> scatter_inv keys es es cursor' dest'"
proof (induction rest arbitrary: seen cursor dest)
  case (Cons a rest)
  then obtain t where t: "t < length keys" "keys ! t = aj_self a" using known by (auto simp: in_set_conv_nth)
  have "\<exists>dest' cursor'. csr_scatter keys rest (cursor[t := cursor ! t + 1]) (dest[unat (cursor ! t) := a]) = Inr dest'
      \<and> scatter_inv keys es es cursor' dest'"
    using Cons.prems by (intro Cons.IH [of "seen @ [a]"] scatter_step [OF sorted known small Cons.prems t]) simp_all
  moreover have "node_slot keys (aj_self a) = Some t" using t node_slot_iff [OF sorted] by simp
  ultimately show ?case by simp
qed auto

lemma csr_position:
  "p < csr_base keys es n \<Longrightarrow> n \<le> length keys \<Longrightarrow>
     \<exists>i j. i < n \<and> p = csr_base keys es i + j \<and> j < length (of_node (keys ! i) es)"
proof (induction n)
  case (Suc n)
  show ?case
  proof (cases "p < csr_base keys es n")
    case True
    with Suc show ?thesis using less_Suc_eq by auto
  next
    case False
    with Suc.prems csr_base_Suc [of n keys es] show ?thesis
      by (intro exI [of _ n] exI [of _ "p - csr_base keys es n"]) simp
  qed
qed (simp add: csr_base_def)

lemma csr_span_exact:
  assumes sorted: "sorted_wrt (<) keys" and known: "\<forall>e\<in>set es. aj_self e \<in> set keys" and small: "length es < 2 ^ 32"
  shows "\<exists>offsets dest. build_csr keys (length keys) es = Inr (offsets, dest)
    \<and> length dest = length es \<and> set dest = set es \<and> (\<forall>key. csr_span keys offsets dest key = of_node key es)"
proof -
  let ?n = "length keys"
  have dist: "distinct keys" using sorted strict_sorted_iff by blast
  have total: "csr_base keys es ?n = length es" by (rule csr_base_all [OF dist known])
  have bound: "length (of_node (keys ! i) es) < 2 ^ 32" for i
    using le_less_trans [OF length_filter_le small] by (simp add: of_node_def)
  define z where "z = replicate (?n + 1) (0::u32)"
  have z: "length z = ?n + 1" "\<forall>i<?n. unat (z ! i) = 0"
    unfolding z_def by (simp, intro allI impI, subst nth_replicate) auto
  obtain counts where counts: "csr_count keys es z = Inr counts"
    "\<forall>i<?n. unat (counts ! i) = length (of_node (keys ! i) es)"
    using csr_count_exact [OF sorted known z(1)] bound z(2) by auto
  let ?o = "csr_offsets ?n counts"
  have o: "length ?o = ?n + 1" "\<forall>i\<le>?n. unat (?o ! i) = csr_base keys es i"
    using csr_offsets_exact [OF refl counts(2)] total small by auto
  have "scatter_inv keys es [] (butlast ?o) (replicate (length es) blank_adjacency)"
    using o by (auto simp: scatter_inv_def of_node_def nth_butlast)
  then obtain dest cursor where dest: "csr_scatter keys es (butlast ?o) (replicate (length es) blank_adjacency) = Inr dest"
    "scatter_inv keys es es cursor dest"
    using csr_scatter_exact [OF sorted known small append_Nil [symmetric]] by blast
  have block: "take (length (of_node (keys ! i) es)) (drop (csr_base keys es i) dest) = of_node (keys ! i) es"
    if "i < ?n" for i
    using that dest(2) csr_block_end [OF dist known that]
    by (intro nth_equalityI) (auto simp: scatter_inv_def)
  have span: "csr_span keys ?o dest key = of_node key es" for key
  proof (cases "node_slot keys key")
    case None
    then have "of_node key es = []"
      using node_slot_None [OF sorted] known by (auto simp: of_node_def filter_empty_conv)
    with None show ?thesis by (simp add: csr_span_def)
  next
    case (Some i)
    then have i: "i < ?n" "keys ! i = key" using node_slot_iff [OF sorted] by auto
    have "unat (?o ! (i + 1) - ?o ! i) = length (of_node key es)"
      using o(2) i csr_base_Suc [OF i(1), of es] by (simp add: unat_sub word_le_nat_alt)
    moreover have "?o \<noteq> []" using o(1) by auto
    ultimately show ?thesis using Some o(2) i block [OF i(1)] by (simp add: csr_span_def Let_def)
  qed
  have "set es \<subseteq> set dest"
  proof
    fix e assume e: "e \<in> set es"
    then have "e \<in> set (of_node (aj_self e) es)" by (simp add: of_node_def)
    then have "e \<in> set (csr_span keys ?o dest (aj_self e))" by (simp add: span)
    then show "e \<in> set dest"
      by (auto simp: csr_span_def Let_def split: option.splits if_splits dest: in_set_takeD in_set_dropD)
  qed
  moreover have "length dest = length es" using dest(2) by (simp add: scatter_inv_def)
  moreover have "set dest \<subseteq> set es"
  proof
    fix e assume "e \<in> set dest"
    then obtain p where p: "p < length es" "dest ! p = e" using \<open>length dest = length es\<close> by (auto simp: in_set_conv_nth)
    obtain i j where ij: "i < ?n" "p = csr_base keys es i + j" "j < length (of_node (keys ! i) es)"
      using csr_position [OF p(1) [folded total] order_refl] by blast
    then have "e = of_node (keys ! i) es ! j" using p dest(2) by (auto simp: scatter_inv_def)
    then show "e \<in> set es" using nth_mem [OF ij(3)] by (auto simp: of_node_def)
  qed
  ultimately show ?thesis using counts(1) dest(1) span by (auto simp: build_csr_def Let_def z_def)
qed

section \<open>The index of a fabric\<close>

definition link_edges :: "fabric \<Rightarrow> link_record \<Rightarrow> adjacency list" where
  "link_edges f l =
     (if lk_admin l \<noteq> LA_Enabled then []
      else case effective_link_speed_mbps f l of
             None \<Rightarrow> []
           | Some speed \<Rightarrow> [forward_adjacency l speed, backward_adjacency l speed])"

definition fabric_edges :: "fabric \<Rightarrow> adjacency list" where
  "fabric_edges f = concat (map (link_edges f) (fab_links f))"

definition is_leaf_spine :: "adjacency \<Rightarrow> bool" where
  "is_leaf_spine a = (aj_cls a = LC_LeafSpine)"

lemma adjacency_cls [simp]:
  "aj_cls (forward_adjacency l s) = lk_cls l" "aj_cls (backward_adjacency l s) = lk_cls l"
  "aj_self (forward_adjacency l s) = lk_a l" "aj_self (backward_adjacency l s) = lk_b l"
  "aj_peer (forward_adjacency l s) = lk_b l" "aj_peer (backward_adjacency l s) = lk_a l"
  "aj_link (forward_adjacency l s) = lk_id l" "aj_link (backward_adjacency l s) = lk_id l"
  by (simp_all add: forward_adjacency_def backward_adjacency_def)

lemma collect_edges_exact:
  assumes "\<forall>l\<in>set ls. effective_link_speed_mbps f l \<noteq> None"
  shows "collect_edges f ls (es, lss, ps) =
    Inr (es @ concat (map (link_edges f) ls), lss @ filter is_leaf_spine (concat (map (link_edges f) ls)),
         ps @ filter (\<lambda>a. \<not> is_leaf_spine a) (concat (map (link_edges f) ls)))"
  using assms
proof (induction ls arbitrary: es lss ps)
  case (Cons l ls)
  then show ?case by (auto simp: link_edges_def is_leaf_spine_def Let_def)
qed simp

lemma fabric_keys_sorted: "tables_sorted f \<Longrightarrow> sorted_wrt (<) (fabric_keys f)"
  unfolding tables_sorted_def fabric_keys_def
  by (auto simp: sorted_wrt_append sorted_wrt_map less_node_key_def less_tier_def)

lemma node_exists_lookup:
  "node_exists f key \<longleftrightarrow>
     (if nk_tier key = Leaf then find_leaf f (nk_index key) \<noteq> None else find_spine f (nk_index key) \<noteq> None)"
  by (simp add: node_exists_def fabric_node_state_def split: option.split)

lemma node_exists_keys: "tables_sorted f \<Longrightarrow> node_exists f key \<longleftrightarrow> key \<in> set (fabric_keys f)"
proof -
  assume t: "tables_sorted f"
  have "find_leaf f i = None \<longleftrightarrow> i \<notin> lf_id ` set (fab_leaves f)" for i
    using t by (simp add: find_leaf_def tables_sorted_def leaf_table.find_none)
  moreover have "find_spine f i = None \<longleftrightarrow> i \<notin> sp_id ` set (fab_spines f)" for i
    using t by (simp add: find_spine_def tables_sorted_def spine_table.find_none)
  ultimately show ?thesis unfolding node_exists_lookup
    by (cases key; cases "nk_tier key") (auto simp: fabric_keys_def)
qed

text \<open>The part of well-formedness the index rests on.\<close>

definition indexable :: "fabric \<Rightarrow> bool" where
  "indexable f \<longleftrightarrow> tables_sorted f \<and> \<not> digest_is_zero (fab_topology_digest f)
     \<and> (\<forall>l\<in>set (fab_links f). node_exists f (lk_a l) \<and> node_exists f (lk_b l)
          \<and> effective_link_speed_mbps f l \<noteq> None)
     \<and> length (fab_leaves f) + length (fab_spines f) < 2 ^ 32 \<and> 2 * length (fab_links f) < 2 ^ 32"

lemma length_link_edges: "length (link_edges f l) \<le> 2"
  by (simp add: link_edges_def split: option.split)

lemma length_fabric_edges: "length (fabric_edges f) \<le> 2 * length (fab_links f)"
proof -
  have "length (concat (map (link_edges f) ls)) \<le> 2 * length ls" for ls
  proof (induction ls)
    case (Cons l ls)
    then show ?case using length_link_edges [of f l] by simp
  qed simp
  then show ?thesis by (simp add: fabric_edges_def)
qed

lemma fabric_edges_known:
  assumes "indexable f" and "a \<in> set (fabric_edges f)"
  shows "aj_self a \<in> set (fabric_keys f)" and "aj_peer a \<in> set (fabric_keys f)"
    and "aj_link a \<in> lk_id ` set (fab_links f)"
  using assms node_exists_keys [of f]
  by (auto simp: fabric_edges_def link_edges_def indexable_def split: if_splits option.splits)

definition index_view :: "topology_index \<Rightarrow> bool" where
  "index_view ix \<longleftrightarrow>
     indexable (ti_fabric ix) \<and> ti_keys ix = fabric_keys (ti_fabric ix)
     \<and> (\<forall>key. adjacencies ix key = of_node key (std_sort adjacency_less (fabric_edges (ti_fabric ix))))
     \<and> (\<forall>i. uplinks ix i = of_node (leaf_key i)
            (std_sort adjacency_less (filter is_leaf_spine (fabric_edges (ti_fabric ix)))))
     \<and> (\<forall>i. downlinks ix i = of_node (spine_key i)
            (std_sort adjacency_less (filter is_leaf_spine (fabric_edges (ti_fabric ix)))))
     \<and> (\<forall>key. peer_links ix key = of_node key
            (std_sort adjacency_less (filter (\<lambda>a. \<not> is_leaf_spine a) (fabric_edges (ti_fabric ix)))))
     \<and> set (ti_edges ix) = set (fabric_edges (ti_fabric ix))"

lemma index_build_total:
  assumes "indexable f"
  shows "\<exists>ix. index_build (Some f) = Inr ix \<and> ti_fabric ix = f \<and> index_view ix"
proof -
  let ?E = "fabric_edges f" and ?K = "fabric_keys f"
  have sorted: "sorted_wrt (<) ?K" using assms by (simp add: indexable_def fabric_keys_sorted)
  have csr: "\<exists>offsets dest. build_csr ?K (length ?K) (std_sort adjacency_less es) = Inr (offsets, dest)
      \<and> set dest = set es \<and> (\<forall>key. csr_span ?K offsets dest key = of_node key (std_sort adjacency_less es))"
    if "set es \<subseteq> set ?E" "length es \<le> length ?E" for es
  proof -
    have "length (std_sort adjacency_less es) < 2 ^ 32"
      using that(2) length_fabric_edges [of f] assms by (simp add: indexable_def)
    then show ?thesis
      using csr_span_exact [OF sorted, of "std_sort adjacency_less es"] that(1) fabric_edges_known(1) [OF assms]
      by (auto simp: subset_iff)
  qed
  obtain eo ee where e: "build_csr ?K (length ?K) (std_sort adjacency_less ?E) = Inr (eo, ee)" "set ee = set ?E"
    "\<forall>key. csr_span ?K eo ee key = of_node key (std_sort adjacency_less ?E)" using csr [of ?E] by auto
  obtain lo le where l: "build_csr ?K (length ?K) (std_sort adjacency_less (filter is_leaf_spine ?E)) = Inr (lo, le)"
    "\<forall>key. csr_span ?K lo le key = of_node key (std_sort adjacency_less (filter is_leaf_spine ?E))"
    using csr [of "filter is_leaf_spine ?E"] by auto
  obtain po pe where p: "build_csr ?K (length ?K) (std_sort adjacency_less (filter (\<lambda>a. \<not> is_leaf_spine a) ?E)) = Inr (po, pe)"
    "\<forall>key. csr_span ?K po pe key = of_node key (std_sort adjacency_less (filter (\<lambda>a. \<not> is_leaf_spine a) ?E))"
    using csr [of "filter (\<lambda>a. \<not> is_leaf_spine a) ?E"] by auto
  let ?lc = "of_nat (length (fab_leaves f)) :: u32" and ?sc = "of_nat (length (fab_spines f)) :: u32"
  have small: "length (fab_leaves f) + length (fab_spines f) < 2 ^ 32" using assms by (simp add: indexable_def)
  have lens: "unat (ucast ?lc :: u64) = length (fab_leaves f)" "unat (ucast ?sc :: u64) = length (fab_spines f)"
    using small by (simp_all add: unat_of_nat unsigned_ucast_eq take_bit_nat_eq_self)
  obtain nodes where nodes: "checked_add (ucast ?lc) (ucast ?sc) = Some nodes" "unat nodes = length ?K"
  proof
    show add: "checked_add (ucast ?lc) (ucast ?sc) = Some (ucast ?lc + ucast ?sc)"
      unfolding checked_add_exact lens using small by simp
    show "unat (ucast ?lc + ucast ?sc :: u64) = length ?K"
      unfolding unat_checked_add [OF add] lens by (simp add: fabric_keys_def)
  qed
  have n: "\<not> nodes > 0xFFFFFFFF" "unat (ucast nodes :: u32) = length ?K"
    using nodes(2) small
    by (simp_all add: word_less_nat_alt unsigned_ucast_eq take_bit_nat_eq_self fabric_keys_def)
  have "collect_edges f (fab_links f) ([], [], []) = Inr (?E, filter is_leaf_spine ?E, filter (\<lambda>a. \<not> is_leaf_spine a) ?E)"
    using collect_edges_exact [of "fab_links f" f "[]" "[]" "[]"] assms by (simp add: indexable_def fabric_edges_def)
  with nodes(1) n e l p assms show ?thesis
    by (auto simp: index_build_def Let_def indexable_def index_view_def adjacencies_def uplinks_def downlinks_def
        peer_links_def)
qed

section \<open>Adjacency is symmetric\<close>

lemma edge_reverse:
  assumes "a \<in> set (fabric_edges f)"
  shows "\<exists>r\<in>set (fabric_edges f). aj_self r = aj_peer a \<and> aj_peer r = aj_self a \<and> aj_cls r = aj_cls a
    \<and> aj_link r = aj_link a"
  using assms by (fastforce simp: fabric_edges_def link_edges_def split: if_splits option.splits)

lemma view_adjacencies:
  "index_view ix \<Longrightarrow> a \<in> set (adjacencies ix key) \<longleftrightarrow> a \<in> set (fabric_edges (ti_fabric ix)) \<and> aj_self a = key"
  by (auto simp: index_view_def of_node_def)

lemma view_leaf_spine:
  "index_view ix \<Longrightarrow> a \<in> set (uplinks ix i) \<longleftrightarrow>
     a \<in> set (fabric_edges (ti_fabric ix)) \<and> aj_cls a = LC_LeafSpine \<and> aj_self a = leaf_key i"
  "index_view ix \<Longrightarrow> a \<in> set (downlinks ix i) \<longleftrightarrow>
     a \<in> set (fabric_edges (ti_fabric ix)) \<and> aj_cls a = LC_LeafSpine \<and> aj_self a = spine_key i"
  "index_view ix \<Longrightarrow> a \<in> set (peer_links ix key) \<longleftrightarrow>
     a \<in> set (fabric_edges (ti_fabric ix)) \<and> aj_cls a \<noteq> LC_LeafSpine \<and> aj_self a = key"
  by (auto simp: index_view_def of_node_def is_leaf_spine_def)

lemma adjacent_iff:
  assumes "index_view ix"
  shows "adjacent ix a b \<longleftrightarrow> (\<exists>e\<in>set (fabric_edges (ti_fabric ix)). aj_self e = a \<and> aj_peer e = b)"
proof -
  have "adjacent ix a b \<longleftrightarrow> (\<exists>e\<in>set (adjacencies ix a). aj_peer e = b)"
    by (auto simp: adjacent_def adjacency_between_def find_None_iff)
  then show ?thesis using view_adjacencies [OF assms] by auto
qed

lemma adjacent_sym: "index_view ix \<Longrightarrow> adjacent ix a b = adjacent ix b a"
  unfolding adjacent_iff using edge_reverse by metis

lemma weak_order_adjacency: "weak_order adjacency_less"
  unfolding weak_order_def adjacency_less_def by auto

lemma view_sorted: "index_view ix \<Longrightarrow> sorted_wrt (\<lambda>a b. \<not> adjacency_less b a) (adjacencies ix key)"
  using sorted_std_sort [OF weak_order_adjacency]
  by (auto simp: index_view_def of_node_def intro: sorted_wrt_filter)

lemma view_edges_resolve: "index_view ix \<Longrightarrow> all_edges_resolve ix"
proof -
  assume v: "index_view ix"
  let ?f = "ti_fabric ix"
  have f: "indexable ?f" and t: "tables_sorted ?f" and k: "ti_keys ix = fabric_keys ?f"
    and e: "set (ti_edges ix) = set (fabric_edges ?f)"
    using v by (simp_all add: index_view_def indexable_def)
  have "find_link ?f i \<noteq> None" if "i \<in> lk_id ` set (fab_links ?f)" for i
    using t that by (simp add: find_link_def tables_sorted_def link_table.find_none)
  then show ?thesis unfolding all_edges_resolve_def list_all_iff e k
    by (simp add: fabric_edges_known [OF f] node_slot_None [OF fabric_keys_sorted [OF t]])
qed

section \<open>Common spines\<close>

definition spine_of_both :: "topology_index \<Rightarrow> leaf_id \<Rightarrow> leaf_id \<Rightarrow> spine_id \<Rightarrow> bool" where
  "spine_of_both ix a b i \<longleftrightarrow>
     spine_key i \<in> aj_peer ` set (uplinks ix a) \<and> spine_key i \<in> aj_peer ` set (uplinks ix b)"

lemma sorted_remdups_adj_strict: "sorted xs \<Longrightarrow> sorted_wrt (<) (remdups_adj (xs :: 'a::linorder list))"
proof (induction xs rule: remdups_adj.induct)
  case (3 x y xs)
  then show ?case by (force simp: less_le)
qed simp_all

lemma common_spines_sorted: "sorted_wrt (<) (common_spines ix a b)"
  by (auto simp: common_spines_def Let_def std_unique_def std_sort_less intro!: sorted_remdups_adj_strict)

lemma common_spines_set: "set (common_spines ix a b) = (if a = b then {} else {i. spine_of_both ix a b i})"
proof -
  have key: "nk_tier k = Spine \<and> nk_index k = i \<longleftrightarrow> k = spine_key i" for k i by (cases k) auto
  have pick: "(\<lambda>adj. nk_index (aj_peer adj)) ` {adj \<in> set probe. nk_tier (aj_peer adj) = Spine
      \<and> list_ex (\<lambda>cand. aj_peer cand = aj_peer adj) other}
      = {i. spine_key i \<in> aj_peer ` set probe \<and> spine_key i \<in> aj_peer ` set other}" (is "?l = ?r") for probe other
  proof (rule set_eqI)
    fix i
    have "i \<in> ?l \<longleftrightarrow> (\<exists>adj\<in>set probe. (nk_tier (aj_peer adj) = Spine \<and> nk_index (aj_peer adj) = i)
        \<and> (\<exists>c\<in>set other. aj_peer c = aj_peer adj))"
      by (auto simp: list_ex_iff)
    also have "\<dots> \<longleftrightarrow> i \<in> ?r" unfolding key mem_Collect_eq image_iff by metis
    finally show "i \<in> ?l \<longleftrightarrow> i \<in> ?r" .
  qed
  show ?thesis
  proof (cases "a = b \<or> uplinks ix a = [] \<or> uplinks ix b = []")
    case True
    then show ?thesis by (auto simp: common_spines_def spine_of_both_def)
  next
    case False
    then show ?thesis unfolding common_spines_def Let_def std_unique_def std_sort_less spine_of_both_def
      by (simp add: pick conj_commute)
  qed
qed

lemma common_spines_sym: "common_spines ix a b = common_spines ix b a"
proof (rule strict_sorted_equal)
  have "spine_of_both ix a b i = spine_of_both ix b a i" for i by (simp add: spine_of_both_def conj_commute)
  then show "set (common_spines ix a b) = set (common_spines ix b a)" by (auto simp: common_spines_set)
qed (rule common_spines_sorted)+

section \<open>Structural classes\<close>

definition class_consistent :: "fabric \<Rightarrow> bool" where
  "class_consistent f \<longleftrightarrow> (\<forall>l\<in>set (fab_links f). lk_cls l = LC_SameTierPeer \<longleftrightarrow> nk_tier (lk_a l) = nk_tier (lk_b l))"

lemma edge_class:
  "class_consistent f \<Longrightarrow> a \<in> set (fabric_edges f) \<Longrightarrow>
     aj_cls a = LC_LeafSpine \<longleftrightarrow> nk_tier (aj_self a) \<noteq> nk_tier (aj_peer a)"
  by (auto simp: class_consistent_def fabric_edges_def link_edges_def split: if_splits option.splits)
    (metis link_class.exhaust)+

lemma between_class:
  assumes "index_view ix" and "class_consistent (ti_fabric ix)" and "adjacency_between ix a b = Some d"
  shows "aj_cls d = LC_LeafSpine \<longleftrightarrow> nk_tier a \<noteq> nk_tier b"
proof -
  have "d \<in> set (adjacencies ix a)" "aj_peer d = b"
    using assms(3) by (auto simp: adjacency_between_def find_Some_iff)
  with view_adjacencies [OF assms(1)] edge_class [OF assms(2), of d] show ?thesis by auto
qed

text \<open>The classes as a symmetric relation on the graph.\<close>

definition via_peer :: "topology_index \<Rightarrow> node_key \<Rightarrow> node_key \<Rightarrow> bool" where
  "via_peer ix a b \<longleftrightarrow> (\<exists>p\<in>set (peer_links ix a). adjacent ix (aj_peer p) b)"

definition via_leaf :: "topology_index \<Rightarrow> node_key \<Rightarrow> node_key \<Rightarrow> bool" where
  "via_leaf ix a b \<longleftrightarrow> (\<exists>k. nk_tier k = Leaf \<and> adjacent ix a k \<and> adjacent ix k b)"

lemma downlinks_via_leaf:
  assumes v: "index_view ix" and c: "class_consistent (ti_fabric ix)"
  shows "list_ex (\<lambda>d. adjacent ix (aj_peer d) b) (downlinks ix i) \<longleftrightarrow> via_leaf ix (spine_key i) b"
proof -
  have "aj_cls e = LC_LeafSpine \<longleftrightarrow> nk_tier (aj_peer e) = Leaf"
    if "e \<in> set (fabric_edges (ti_fabric ix))" "aj_self e = spine_key i" for e
    using edge_class [OF c that(1)] that(2) by (cases "nk_tier (aj_peer e)") auto
  then have "aj_peer ` set (downlinks ix i) = {k. nk_tier k = Leaf \<and> adjacent ix (spine_key i) k}"
    by (auto simp: view_leaf_spine(2) [OF v] adjacent_iff [OF v])
  moreover have "list_ex (\<lambda>d. adjacent ix (aj_peer d) b) (downlinks ix i)
      \<longleftrightarrow> (\<exists>k\<in>aj_peer ` set (downlinks ix i). adjacent ix k b)" by (simp add: list_ex_iff)
  ultimately show ?thesis by (simp add: via_leaf_def)
qed

lemma via_leaf_sym: "index_view ix \<Longrightarrow> via_leaf ix a b = via_leaf ix b a"
  unfolding via_leaf_def using adjacent_sym by metis

lemma structural_class_cases:
  assumes v: "index_view ix" and c: "class_consistent (ti_fabric ix)"
  shows "structural_class ix a b =
    (if a = b then RC_SameNode
     else if adjacent ix a b then (if nk_tier a \<noteq> nk_tier b then RC_DirectLeafSpine else RC_DirectPeer)
     else if nk_tier a = Leaf \<and> nk_tier b = Leaf
     then (if length (common_spines ix (nk_index a) (nk_index b)) \<ge> 2 then RC_LeafLeafMultiSpine
           else if length (common_spines ix (nk_index a) (nk_index b)) = 1 then RC_LeafLeafSingleSpine
           else if via_peer ix a b \<or> via_peer ix b a then RC_LeafSpineViaPeer else RC_Unreachable)
     else if nk_tier a = Spine \<and> nk_tier b = Spine
     then (if via_leaf ix a b then RC_SpineSpineViaLeaf else RC_Unreachable)
     else (if nk_tier a = Leaf \<and> via_peer ix a b \<or> nk_tier b = Leaf \<and> via_peer ix b a
           then RC_LeafSpineViaPeer else RC_Unreachable))"
proof (cases "adjacency_between ix a b")
  case None
  have "nk_tier a = Spine \<Longrightarrow> spine_key (nk_index a) = a" by (cases a) simp
  with None show ?thesis unfolding structural_class_def Let_def
    using downlinks_via_leaf [OF v c, of b "nk_index a"]
    by (cases "nk_tier a"; cases "nk_tier b")
      (simp_all add: adjacent_def [of ix a b] via_peer_def list_ex_iff)
next
  case (Some d)
  then show ?thesis using between_class [OF v c Some] by (auto simp: structural_class_def adjacent_def)
qed

lemma structural_class_sym:
  assumes v: "index_view ix" and c: "class_consistent (ti_fabric ix)"
  shows "structural_class ix a b = structural_class ix b a"
  unfolding structural_class_cases [OF v c] adjacent_sym [OF v, of b a] via_leaf_sym [OF v, of b a]
    common_spines_sym [of ix "nk_index b" "nk_index a"]
  by (cases "nk_tier a"; cases "nk_tier b") auto

lemma unreachable_iff:
  assumes v: "index_view ix" and c: "class_consistent (ti_fabric ix)" and "nk_tier a = Leaf" and "nk_tier b = Leaf"
  shows "structural_class ix a b \<in> {RC_LeafLeafSingleSpine, RC_LeafLeafMultiSpine} \<longleftrightarrow>
    a \<noteq> b \<and> \<not> adjacent ix a b \<and> (\<exists>i. spine_of_both ix (nk_index a) (nk_index b) i)"
proof -
  have "a = b \<longleftrightarrow> nk_index a = nk_index b" using assms(3,4) by (cases a; cases b) auto
  then have "a \<noteq> b \<Longrightarrow> common_spines ix (nk_index a) (nk_index b) = []
      \<longleftrightarrow> \<not> (\<exists>i. spine_of_both ix (nk_index a) (nk_index b) i)"
    using common_spines_set [of ix "nk_index a" "nk_index b"] by (auto simp flip: set_empty)
  then show ?thesis unfolding structural_class_cases [OF v c] using assms(3,4)
    by (cases "common_spines ix (nk_index a) (nk_index b)") (auto simp: Suc_le_eq split: if_splits)
qed

section \<open>Path enumeration\<close>

lemma path_code_inj: "path_code a = path_code b \<longleftrightarrow> a = b"
proof
  assume eq: "path_code a = path_code b"
  have idx: "bit (path_code k) n = bit (nk_index k) n" if "n < 32" for k n
    using that unfolding path_code_def bit_or_iff bit_push_bit_iff by (simp add: bit_simps)
  have "bit (nk_index a) n = bit (nk_index b) n" if "n < 32" for n
    using idx [OF that, of a] idx [OF that, of b] eq by simp
  then have i: "nk_index a = nk_index b" by (intro bit_word_eqI) simp
  have t: "bit (path_code k) 32 \<longleftrightarrow> nk_tier k = Spine" for k
    using bit_imp_le_length [of "nk_index k" 32] unfolding path_code_def bit_or_iff bit_push_bit_iff
    by (cases "nk_tier k") (auto simp: bit_simps)
  have "nk_tier a = nk_tier b" using t [of a] t [of b] eq by (cases "nk_tier a"; cases "nk_tier b") auto
  with i show "a = b" by (cases a; cases b) simp
qed simp

text \<open>A simple path of adjacent nodes that reaches \<open>b\<close> only at its end.\<close>

definition simple_path :: "topology_index \<Rightarrow> node_key \<Rightarrow> node_key \<Rightarrow> nat \<Rightarrow> node_key list \<Rightarrow> bool" where
  "simple_path ix a b max_hops p \<longleftrightarrow>
     p \<noteq> [] \<and> hd p = a \<and> last p = b \<and> distinct p \<and> successively (adjacent ix) p
     \<and> 2 \<le> length p \<and> length p \<le> max_hops + 1"

definition walk_state :: "topology_index \<Rightarrow> node_key list \<Rightarrow> nat \<Rightarrow> u64 set \<Rightarrow> bool" where
  "walk_state ix current depth visited \<longleftrightarrow>
     distinct current \<and> successively (adjacent ix) current \<and> length current = depth + 1
     \<and> visited = path_code ` set current"

lemma visited_iff: "walk_state ix current depth visited \<Longrightarrow> path_code k \<in> visited \<longleftrightarrow> k \<in> set current"
  by (auto simp: walk_state_def path_code_inj image_iff)

lemma adjacent_peer: "adj \<in> set (adjacencies ix node) \<Longrightarrow> adjacent ix node (aj_peer adj)"
  by (auto simp: adjacent_def adjacency_between_def find_None_iff)

lemma walk_state_step:
  assumes "walk_state ix current depth visited" and "adjacent ix (last current) k" and "k \<notin> set current"
  shows "walk_state ix (current @ [k]) (depth + 1) (insert (path_code k) visited)"
  using assms by (auto simp: walk_state_def successively_append_iff)

lemma walk_sound:
  "(current = [] \<and> depth = 0 \<and> visited = {}
     \<or> walk_state ix current (depth - 1) visited \<and> 0 < depth \<and> adjacent ix (last current) node \<and> node \<notin> set current) \<Longrightarrow>
   depth \<le> H \<Longrightarrow> a = hd (current @ [node]) \<Longrightarrow> length paths \<le> P \<Longrightarrow>
   \<forall>p\<in>set paths. simple_path ix a b H p \<Longrightarrow>
     length (walk ix b H P node depth current visited paths) \<le> P
     \<and> (\<forall>p\<in>set (walk ix b H P node depth current visited paths). simple_path ix a b H p)"
  "walk_state ix current depth visited \<Longrightarrow> \<forall>adj\<in>set adjs. adjacent ix (last current) (aj_peer adj) \<Longrightarrow>
   depth < H \<Longrightarrow> a = hd current \<Longrightarrow> length paths \<le> P \<Longrightarrow> \<forall>p\<in>set paths. simple_path ix a b H p \<Longrightarrow>
     length (walk_from ix b H P adjs depth current visited paths) \<le> P
     \<and> (\<forall>p\<in>set (walk_from ix b H P adjs depth current visited paths). simple_path ix a b H p)"
proof (induction ix b H P node depth current visited paths and ix b H P adjs depth current visited paths
    rule: walk_walk_from.induct)
  case (1 ix b H P node depth current visited paths)
  let ?cur = "current @ [node]" and ?vis = "insert (path_code node) visited"
  have st: "walk_state ix ?cur depth ?vis"
  proof (cases "current = []")
    case True
    with "1.prems"(1) show ?thesis by (auto simp: walk_state_def)
  next
    case False
    with "1.prems"(1) have "walk_state ix current (depth - 1) visited" "0 < depth"
      "adjacent ix (last current) node" "node \<notin> set current" by auto
    with walk_state_step [of ix current "depth - 1" visited node] show ?thesis by simp
  qed
  consider "P \<le> length paths" | "length paths < P" "node = b \<and> length ?cur > 1"
    | "length paths < P" "\<not> (node = b \<and> length ?cur > 1)" "depth < H"
    | "length paths < P" "\<not> (node = b \<and> length ?cur > 1)" "\<not> depth < H" by linarith
  then show ?case
  proof cases
    case 1
    with "1.prems" show ?thesis by (simp add: walk.simps)
  next
    case 2
    have "simple_path ix a b H ?cur"
      using 2 st "1.prems"(2,3) by (auto simp: simple_path_def walk_state_def Suc_le_eq)
    with 2 "1.prems" show ?thesis by (simp add: walk.simps)
  next
    case 3
    have "\<forall>adj\<in>set (adjacencies ix node). adjacent ix (last ?cur) (aj_peer adj)" by (simp add: adjacent_peer)
    then have "length (walk_from ix b H P (adjacencies ix node) depth ?cur ?vis paths) \<le> P
        \<and> (\<forall>p\<in>set (walk_from ix b H P (adjacencies ix node) depth ?cur ?vis paths). simple_path ix a b H p)"
      using 3 st "1.prems" by (intro "1.IH") auto
    with 3 show ?thesis unfolding walk.simps [of ix b H P node] Let_def by auto
  next
    case 4
    with "1.prems" show ?thesis unfolding walk.simps [of ix b H P node] Let_def by auto
  qed
next
  case (2 ix b H P depth current visited paths)
  then show ?case by (simp add: walk_from.simps)
next
  case (3 ix b H P adj rest depth current visited paths)
  show ?case
  proof (cases "path_code (aj_peer adj) \<in> visited")
    case True
    with 3 show ?thesis by (simp add: walk_from.simps(2))
  next
    case False
    let ?paths = "walk ix b H P (aj_peer adj) (depth + 1) current visited paths"
    have fresh: "aj_peer adj \<notin> set current" using False visited_iff [OF "3.prems"(1)] by simp
    have cur: "current \<noteq> []" using "3.prems"(1) by (auto simp: walk_state_def)
    have w: "length ?paths \<le> P \<and> (\<forall>p\<in>set ?paths. simple_path ix a b H p)"
      using False fresh cur "3.prems" by (intro "3.IH"(2)) auto
    have "walk_from ix b H P (adj # rest) depth current visited paths =
        (if P \<le> length ?paths then ?paths else walk_from ix b H P rest depth current visited ?paths)"
      using False "3.prems"(3) by (simp add: walk_from.simps(2) Let_def)
    moreover have "length ?paths < P \<Longrightarrow> length (walk_from ix b H P rest depth current visited ?paths) \<le> P
        \<and> (\<forall>p\<in>set (walk_from ix b H P rest depth current visited ?paths). simple_path ix a b H p)"
      using w "3.prems" by (intro "3.IH"(3) [OF False refl, unfolded if_P [OF "3.prems"(3)]]) auto
    ultimately show ?thesis using w by (simp add: not_le)
  qed
qed

lemma enumerate_paths_sound:
  "length (enumerate_paths ix a b H P) \<le> unat P
     \<and> (\<forall>p\<in>set (enumerate_paths ix a b H P). simple_path ix a b (unat H) p)"
  using walk_sound(1) [of "[]" 0 "{}" ix a "unat H" a "[]" "unat P" b] by (simp add: enumerate_paths_def)

text \<open>
  Completeness: unless the path bound was hit, every simple path that passes \<open>b\<close> only at its end is
  enumerated.
\<close>

lemma walk_keeps:
  "set paths \<subseteq> set (walk ix b H P node depth current visited paths)"
  "set paths \<subseteq> set (walk_from ix b H P adjs depth current visited paths)"
proof (induction ix b H P node depth current visited paths and ix b H P adjs depth current visited paths
    rule: walk_walk_from.induct)
  case (1 ix b H P node depth current visited paths)
  then show ?case by (auto simp: walk.simps [of ix b H P node] Let_def)
next
  case (3 ix b H P adj rest depth current visited paths)
  show ?case
  proof (cases "path_code (aj_peer adj) \<in> visited")
    case True
    with 3 show ?thesis by (simp add: walk_from.simps(2))
  next
    case False
    let ?p = "if depth < H then walk ix b H P (aj_peer adj) (depth + 1) current visited paths else paths"
    have "set paths \<subseteq> set ?p" using "3.IH"(2) [OF False] by simp
    moreover have "\<not> P \<le> length ?p \<Longrightarrow> set ?p \<subseteq> set (walk_from ix b H P rest depth current visited ?p)"
      using "3.IH"(3) [OF False refl] by simp
    ultimately show ?thesis using False subset_trans [of "set paths" "set ?p"]
      unfolding walk_from.simps(2) Let_def by (cases "P \<le> length ?p") simp_all
  qed
qed (simp add: walk_from.simps)

lemma path_next:
  assumes "walk_state ix (current @ [node]) depth visited" and "simple_path ix a b H (current @ node # q)"
    and "node \<noteq> b \<or> current = [] \<and> q \<noteq> []"
  obtains k q' adj where "q = k # q'" "adj \<in> set (adjacencies ix node)" "aj_peer adj = k" "k \<notin> set (current @ [node])" "depth < H"
proof -
  have "q \<noteq> []" using assms(2,3) by (auto simp: simple_path_def)
  then obtain k q' where q: "q = k # q'" by (cases q) auto
  have "adjacent ix node k" using assms(2) q by (auto simp: simple_path_def successively_append_iff)
  then obtain adj where "adj \<in> set (adjacencies ix node)" "aj_peer adj = k"
    by (auto simp: adjacent_def adjacency_between_def find_None_iff)
  moreover have "k \<notin> set (current @ [node])" using assms(2) q by (auto simp: simple_path_def)
  moreover have "depth < H" using assms(1,2) q by (auto simp: simple_path_def walk_state_def)
  ultimately show ?thesis using that q by blast
qed

lemma walk_complete:
  "walk_state ix (current @ [node]) depth (insert (path_code node) visited) \<Longrightarrow>
   length (walk ix b H P node depth current visited paths) < P \<Longrightarrow>
   simple_path ix a b H (current @ node # q) \<Longrightarrow> b \<notin> set (butlast (current @ node # q)) \<Longrightarrow>
     current @ node # q \<in> set (walk ix b H P node depth current visited paths)"
  "walk_state ix current depth visited \<Longrightarrow> depth < H \<Longrightarrow>
   length (walk_from ix b H P adjs depth current visited paths) < P \<Longrightarrow>
   simple_path ix a b H (current @ q) \<Longrightarrow> b \<notin> set (butlast (current @ q)) \<Longrightarrow>
   q \<noteq> [] \<Longrightarrow> hd q \<in> aj_peer ` set adjs \<Longrightarrow> \<forall>adj\<in>set adjs. adjacent ix (last current) (aj_peer adj) \<Longrightarrow>
     current @ q \<in> set (walk_from ix b H P adjs depth current visited paths)"
proof (induction ix b H P node depth current visited paths and ix b H P adjs depth current visited paths
    arbitrary: q and q rule: walk_walk_from.induct)
  case (1 ix b H P node depth current visited paths)
  have room: "length paths < P"
    using "1.prems"(2) by (cases "P \<le> length paths") (simp_all add: walk.simps [of ix b H P node])
  show ?case
  proof (cases "node = b \<and> current \<noteq> []")
    case True
    then have "q = []" using "1.prems"(4) by (cases q) (auto simp: butlast_append)
    with True room show ?thesis unfolding walk.simps [of ix b H P node] Let_def by simp
  next
    case False
    have ne: "node \<noteq> b \<or> current = [] \<and> q \<noteq> []"
      using False "1.prems"(3) by (auto simp: simple_path_def)
    obtain k q' adj where k: "q = k # q'" "adj \<in> set (adjacencies ix node)" "aj_peer adj = k" "depth < H"
      using path_next [OF "1.prems"(1,3) ne] by metis
    have unfold: "walk ix b H P node depth current visited paths =
        walk_from ix b H P (adjacencies ix node) depth (current @ [node]) (insert (path_code node) visited) paths"
      using False room k(4) by (auto simp: walk.simps [of ix b H P node] Let_def)
    have "(current @ [node]) @ q \<in> set (walk_from ix b H P (adjacencies ix node) depth (current @ [node])
        (insert (path_code node) visited) paths)"
      using False room k "1.prems" unfold
      by (intro "1.IH") (auto simp: adjacent_peer)
    then show ?thesis by (simp add: unfold)
  qed
next
  case (2 ix b H P depth current visited paths)
  then show ?case by simp
next
  case (3 ix b H P adj rest depth current visited paths)
  obtain k q' where q: "q = k # q'" using "3.prems"(6) by (cases q) auto
  have kc: "k \<notin> set current" using "3.prems"(4) q by (auto simp: simple_path_def)
  show ?case
  proof (cases "path_code (aj_peer adj) \<in> visited")
    case True
    then have "aj_peer adj \<noteq> k" using visited_iff [OF "3.prems"(1)] kc by auto
    with True 3 q show ?thesis by (auto simp: walk_from.simps(2))
  next
    case False
    let ?p = "walk ix b H P (aj_peer adj) (depth + 1) current visited paths"
    have eq: "walk_from ix b H P (adj # rest) depth current visited paths =
        (if P \<le> length ?p then ?p else walk_from ix b H P rest depth current visited ?p)"
      using False "3.prems"(2) by (simp add: walk_from.simps(2) Let_def)
    then have small: "length ?p < P" using "3.prems"(3) by (cases "P \<le> length ?p") auto
    show ?thesis
    proof (cases "aj_peer adj = k")
      case True
      have "aj_peer adj \<notin> set current" using kc True by simp
      then have "walk_state ix (current @ [aj_peer adj]) (depth + 1) (insert (path_code (aj_peer adj)) visited)"
        using walk_state_step [OF "3.prems"(1)] "3.prems"(8) by simp
      then have "current @ aj_peer adj # q' \<in> set ?p"
        using False small True "3.prems"(2,4,5) q by (intro "3.IH"(2)) auto
      with True q eq small walk_keeps(2) show ?thesis by fastforce
    next
      case other: False
      have "current @ q \<in> set (walk_from ix b H P rest depth current visited ?p)"
        using small other "3.prems" q eq
        by (intro "3.IH"(3) [OF False refl, unfolded if_P [OF "3.prems"(2)]]) auto
      with eq small show ?thesis by simp
    qed
  qed
qed

lemma enumerate_paths_complete:
  assumes "H \<noteq> 0" and "length (enumerate_paths ix a b H P) < unat P"
    and "simple_path ix a b (unat H) p" and "b \<notin> set (butlast p)"
  shows "p \<in> set (enumerate_paths ix a b H P)"
proof -
  obtain q where p: "p = a # q" using assms(3) by (cases p) (auto simp: simple_path_def)
  have "P \<noteq> 0" using assms(2) by auto
  moreover have "walk_state ix ([] @ [a]) 0 (insert (path_code a) {})" by (simp add: walk_state_def)
  ultimately show ?thesis using walk_complete(1) [of ix "[]" a 0 "{}" b "unat H" "unat P" "[]" a q] assms p
    by (simp add: enumerate_paths_def)
qed

section \<open>The index of a frozen fabric\<close>

lemma built_view: "indexable f \<Longrightarrow> index_build (Some f) = Inr ix \<Longrightarrow> index_view ix \<and> ti_fabric ix = f"
  using index_build_total [of f] by auto

lemma wf_indexable:
  assumes "fabric_wf lim f" and "\<not> digest_is_zero (fab_topology_digest f)"
    and "length (fab_leaves f) + length (fab_spines f) < 2 ^ 32" and "2 * length (fab_links f) < 2 ^ 32"
  shows "indexable f"
  using assms by (auto simp: indexable_def fabric_wf_def link_wf_def)

lemma wf_class_consistent: "fabric_wf lim f \<Longrightarrow> class_consistent f"
  by (simp add: class_consistent_def fabric_wf_def link_wf_def)

end
