(* ===== verification/SLF_Capacity.thy ===== *)
theory SLF_Capacity
  imports SLF_Topology
begin

text \<open>
  Exact rationals and capacity accounting (\<open>include/slf/capacity.hpp\<close>, \<open>src/capacity.cpp\<close>).
  \<open>Rational\<close> is a pair of 64-bit words, \<open>CapacitySummary\<close> a record; the two \<open>add\<close> functions return
  the flag and the updated summary. The floating-point rendering \<open>to_decimal\<close>, which the source
  uses for display only, and the summary string that contains it are not modelled.
\<close>

record rational =
  rt_num :: u64
  rt_den :: u64

definition rational_is_zero :: "rational \<Rightarrow> bool" where
  "rational_is_zero r = (rt_num r = 0)"

definition rational_is_one :: "rational \<Rightarrow> bool" where
  "rational_is_one r = (rt_num r = rt_den r \<and> rt_den r \<noteq> 0)"

definition rational_make :: "u64 \<Rightarrow> u64 \<Rightarrow> rational outcome" where
  "rational_make num den =
     (if den = 0 then Inl (Status SC_Invalid ''rational with a zero denominator'')
      else if num = 0 then Inr \<lparr>rt_num = 0, rt_den = 1\<rparr>
      else let divisor = gcd_u64 num den
           in Inr \<lparr>rt_num = num div divisor, rt_den = den div divisor\<rparr>)"

definition rational_string :: "rational \<Rightarrow> string" where
  "rational_string r = u_string (rt_num r) @ ''/'' @ u_string (rt_den r)"

definition rational_compare :: "rational \<Rightarrow> rational \<Rightarrow> int outcome" where
  "rational_compare a b =
     (if rt_den a = 0 \<or> rt_den b = 0 then Inl (Status SC_Invalid ''comparison with a zero denominator'')
      else case (checked_mul (rt_num a) (rt_den b), checked_mul (rt_num b) (rt_den a)) of
             (Some left, Some right) \<Rightarrow> Inr (if left = right then 0 else if left < right then -1 else 1)
           | _ \<Rightarrow> Inl (Status SC_Overflow ''oversubscription comparison overflowed 64 bits''))"

datatype oversubscription_class = OC_Unprovisioned | OC_Subscribed | OC_Oversubscribed | OC_Indeterminate

fun oversubscription_class_string :: "oversubscription_class \<Rightarrow> string" where
  "oversubscription_class_string OC_Unprovisioned = ''unprovisioned''"
| "oversubscription_class_string OC_Subscribed = ''subscribed''"
| "oversubscription_class_string OC_Oversubscribed = ''oversubscribed''"
| "oversubscription_class_string OC_Indeterminate = ''indeterminate''"

record capacity_summary =
  cs_uplink_capacity_mbps :: u64
  cs_uplink_count :: u32
  cs_downlink_capacity_mbps :: u64
  cs_downlink_count :: u32
  cs_access_capacity_mbps :: u64
  cs_min_uplink_mbps :: u64
  cs_max_uplink_mbps :: u64
  cs_spine_capacity_mbps :: u64
  cs_spine_count :: u32
  cs_oversubscription :: rational
  cs_classification :: oversubscription_class
  cs_code :: status_code
  cs_detail :: string

definition empty_capacity :: capacity_summary where
  "empty_capacity = \<lparr>cs_uplink_capacity_mbps = 0, cs_uplink_count = 0, cs_downlink_capacity_mbps = 0,
     cs_downlink_count = 0, cs_access_capacity_mbps = 0, cs_min_uplink_mbps = 0, cs_max_uplink_mbps = 0,
     cs_spine_capacity_mbps = 0, cs_spine_count = 0, cs_oversubscription = \<lparr>rt_num = 0, rt_den = 1\<rparr>,
     cs_classification = OC_Unprovisioned, cs_code = SC_Ok, cs_detail = []\<rparr>"

definition capacity_ok :: "capacity_summary \<Rightarrow> bool" where
  "capacity_ok s = (cs_code s = SC_Ok)"

definition capacity_add_uplink :: "capacity_summary \<Rightarrow> u64 \<Rightarrow> bool \<times> capacity_summary" where
  "capacity_add_uplink s speed_mbps =
     (case checked_add (cs_uplink_capacity_mbps s) speed_mbps of
        None \<Rightarrow> (False, s\<lparr>cs_code := SC_Overflow, cs_detail := ''uplink capacity aggregate overflowed''\<rparr>)
      | Some next \<Rightarrow>
          (True, s\<lparr>cs_uplink_capacity_mbps := next, cs_uplink_count := cs_uplink_count s + 1,
             cs_min_uplink_mbps :=
               (if cs_min_uplink_mbps s = 0 \<or> speed_mbps < cs_min_uplink_mbps s then speed_mbps
                else cs_min_uplink_mbps s),
             cs_max_uplink_mbps :=
               (if speed_mbps > cs_max_uplink_mbps s then speed_mbps else cs_max_uplink_mbps s)\<rparr>))"

definition capacity_add_downlink :: "capacity_summary \<Rightarrow> u64 \<Rightarrow> bool \<times> capacity_summary" where
  "capacity_add_downlink s speed_mbps =
     (case checked_add (cs_downlink_capacity_mbps s) speed_mbps of
        None \<Rightarrow> (False, s\<lparr>cs_code := SC_Overflow, cs_detail := ''downlink capacity aggregate overflowed''\<rparr>)
      | Some next \<Rightarrow>
          (True, s\<lparr>cs_downlink_capacity_mbps := next, cs_downlink_count := cs_downlink_count s + 1\<rparr>))"

definition capacity_finalize :: "capacity_summary \<Rightarrow> capacity_summary" where
  "capacity_finalize s =
     (if cs_uplink_count s = 0
      then let s1 = s\<lparr>cs_oversubscription := \<lparr>rt_num = 0, rt_den = 1\<rparr>, cs_classification := OC_Unprovisioned\<rparr>
           in if cs_code s1 = SC_Ok
              then s1\<lparr>cs_code := (if cs_access_capacity_mbps s1 > 0 then SC_Incomplete else SC_Ok),
                      cs_detail := (if cs_detail s1 = [] then ''no eligible uplinks'' else cs_detail s1)\<rparr>
              else s1
      else case rational_make (cs_access_capacity_mbps s) (cs_uplink_capacity_mbps s) of
             Inl e \<Rightarrow> s\<lparr>cs_code := st_code e,
                        cs_detail := (if st_detail e = [] then ''invalid oversubscription ratio'' else st_detail e),
                        cs_classification := OC_Indeterminate\<rparr>
           | Inr ratio \<Rightarrow>
               (let s1 = s\<lparr>cs_oversubscription := ratio\<rparr> in
                case rational_compare ratio \<lparr>rt_num = 1, rt_den = 1\<rparr> of
                  Inl e \<Rightarrow> s1\<lparr>cs_code := st_code e, cs_detail := ''oversubscription comparison overflowed'',
                              cs_classification := OC_Indeterminate\<rparr>
                | Inr cmp \<Rightarrow>
                    s1\<lparr>cs_classification := (if cmp \<le> 0 then OC_Subscribed else OC_Oversubscribed)\<rparr>))"

section \<open>Reduced fractions and exact comparison\<close>

text \<open>The number a rational stands for is \<open>unat num / unat den\<close>; it is compared by cross multiplication.\<close>

definition rational_wf :: "rational \<Rightarrow> bool" where
  "rational_wf r \<longleftrightarrow> rt_den r \<noteq> 0 \<and> coprime (unat (rt_num r)) (unat (rt_den r))"

lemma unat_nonzero: "(w :: 'a::len word) \<noteq> 0 \<longleftrightarrow> unat w > 0"
  by (simp add: unat_gt_0)

lemma gcd_u64_nonzero: "den \<noteq> 0 \<Longrightarrow> unat (gcd_u64 num den) > 0"
  by (simp add: unat_gcd_u64 unat_gt_0)

lemma rational_make_exact:
  assumes "den \<noteq> 0"
  obtains r where "rational_make num den = Inr r" "rational_wf r"
    "unat (rt_num r) * unat den = unat num * unat (rt_den r)"
proof (cases "num = 0")
  case True
  then have "rational_make num den = Inr \<lparr>rt_num = 0, rt_den = 1\<rparr>" using assms by (simp add: rational_make_def)
  from that [OF this] show ?thesis using True by (simp add: rational_wf_def)
next
  case False
  let ?g = "gcd_u64 num den"
  let ?r = "\<lparr>rt_num = num div ?g, rt_den = den div ?g\<rparr>"
  have made: "rational_make num den = Inr ?r" using assms False by (simp add: rational_make_def Let_def)
  have g: "unat ?g = gcd (unat num) (unat den)" by (rule unat_gcd_u64)
  have n: "unat (rt_num ?r) * unat ?g = unat num" and d: "unat (rt_den ?r) * unat ?g = unat den"
    by (simp_all add: unat_div g)
  have pos: "unat ?g > 0" by (rule gcd_u64_nonzero [OF assms])
  have "unat (rt_den ?r) \<noteq> 0"
    using d assms by (metis mult_zero_left unat_eq_zero)
  moreover have "coprime (unat (rt_num ?r)) (unat (rt_den ?r))"
    using assms by (simp add: unat_div g div_gcd_coprime unat_eq_zero)
  ultimately have "rational_wf ?r" unfolding rational_wf_def by (metis unat_0)
  moreover have "unat (rt_num ?r) * unat den = unat num * unat (rt_den ?r)"
    unfolding n [symmetric] d [symmetric] by simp
  ultimately show ?thesis using that [OF made] by blast
qed

lemma rational_compare_exact:
  assumes "rational_compare a b = Inr c"
  shows "rt_den a \<noteq> 0 \<and> rt_den b \<noteq> 0
    \<and> c = sgn (int (unat (rt_num a)) * int (unat (rt_den b)) - int (unat (rt_num b)) * int (unat (rt_den a)))"
proof -
  from assms have d: "rt_den a \<noteq> 0" "rt_den b \<noteq> 0"
    by (auto simp: rational_compare_def split: if_splits)
  with assms obtain l r where lr: "checked_mul (rt_num a) (rt_den b) = Some l"
      "checked_mul (rt_num b) (rt_den a) = Some r" and c: "c = (if l = r then 0 else if l < r then -1 else 1)"
    by (auto simp: rational_compare_def split: option.splits)
  have "unat l = unat (rt_num a) * unat (rt_den b)" "unat r = unat (rt_num b) * unat (rt_den a)"
    using lr by (auto simp: checked_mul_exact unat_word_ariths split: if_splits)
  then have "int (unat (rt_num a)) * int (unat (rt_den b)) = int (unat l)"
    "int (unat (rt_num b)) * int (unat (rt_den a)) = int (unat r)" by simp_all
  with c d show ?thesis by (auto simp: word_less_def word_uint_eq_iff)
qed

lemma compare_one_total:
  assumes "rt_den r \<noteq> 0"
  shows "\<exists>c. rational_compare r \<lparr>rt_num = 1, rt_den = 1\<rparr> = Inr c \<and> (c \<le> 0 \<longleftrightarrow> rt_num r \<le> rt_den r)"
proof -
  have "checked_mul (rt_num r) 1 = Some (rt_num r)" "checked_mul 1 (rt_den r) = Some (rt_den r)"
    using unsigned_less [of "rt_num r"] unsigned_less [of "rt_den r"] by (simp_all add: checked_mul_exact)
  with assms show ?thesis by (auto simp: rational_compare_def)
qed

lemma reduced_le_iff:
  assumes "(n :: nat) * y = x * d" and "d > 0" and "y > 0"
  shows "n \<le> d \<longleftrightarrow> x \<le> y"
proof
  assume "n \<le> d"
  then have "x * d \<le> d * y" using assms(1) by (metis mult_le_mono1)
  then show "x \<le> y" using assms(2) by (simp add: mult.commute)
next
  assume "x \<le> y"
  then have "n * y \<le> y * d" using assms(1) by (metis mult_le_mono1)
  then show "n \<le> d" using assms(3) by (simp add: mult.commute)
qed

lemma capacity_finalize_class:
  assumes "cs_uplink_count s \<noteq> 0" and "cs_uplink_capacity_mbps s \<noteq> 0"
  shows "cs_classification (capacity_finalize s)
      = (if cs_access_capacity_mbps s \<le> cs_uplink_capacity_mbps s then OC_Subscribed else OC_Oversubscribed)"
    and "rational_wf (cs_oversubscription (capacity_finalize s))"
    and "unat (rt_num (cs_oversubscription (capacity_finalize s))) * unat (cs_uplink_capacity_mbps s)
      = unat (cs_access_capacity_mbps s) * unat (rt_den (cs_oversubscription (capacity_finalize s)))"
    and "cs_code (capacity_finalize s) = cs_code s"
proof -
  obtain r where r: "rational_make (cs_access_capacity_mbps s) (cs_uplink_capacity_mbps s) = Inr r"
    "rational_wf r" "unat (rt_num r) * unat (cs_uplink_capacity_mbps s) = unat (cs_access_capacity_mbps s) * unat (rt_den r)"
    using rational_make_exact [OF assms(2), of "cs_access_capacity_mbps s"] by blast
  have den: "rt_den r \<noteq> 0" using r(2) by (simp add: rational_wf_def)
  obtain c where c: "rational_compare r \<lparr>rt_num = 1, rt_den = 1\<rparr> = Inr c" "c \<le> 0 \<longleftrightarrow> rt_num r \<le> rt_den r"
    using compare_one_total [OF den] by blast
  have le: "rt_num r \<le> rt_den r \<longleftrightarrow> cs_access_capacity_mbps s \<le> cs_uplink_capacity_mbps s"
    unfolding word_le_nat_alt using reduced_le_iff [OF r(3)] den assms(2) by (simp add: unat_gt_0)
  have fin: "capacity_finalize s = s\<lparr>cs_oversubscription := r,
      cs_classification := (if c \<le> 0 then OC_Subscribed else OC_Oversubscribed)\<rparr>"
    using assms r(1) c(1) by (simp add: capacity_finalize_def Let_def)
  show "cs_classification (capacity_finalize s)
      = (if cs_access_capacity_mbps s \<le> cs_uplink_capacity_mbps s then OC_Subscribed else OC_Oversubscribed)"
    "rational_wf (cs_oversubscription (capacity_finalize s))"
    "unat (rt_num (cs_oversubscription (capacity_finalize s))) * unat (cs_uplink_capacity_mbps s)
      = unat (cs_access_capacity_mbps s) * unat (rt_den (cs_oversubscription (capacity_finalize s)))"
    "cs_code (capacity_finalize s) = cs_code s"
    using c le r by (simp_all add: fin)
qed

section \<open>Aggregation\<close>

text \<open>Adding a list of uplink speeds, ignoring the flags as the callers do.\<close>

definition add_uplinks :: "u64 list \<Rightarrow> capacity_summary \<Rightarrow> capacity_summary" where
  "add_uplinks speeds s = foldl (\<lambda>t v. snd (capacity_add_uplink t v)) s speeds"

lemma add_uplinks_simps [simp]:
  "add_uplinks [] s = s" "add_uplinks (v # vs) s = add_uplinks vs (snd (capacity_add_uplink s v))"
  by (simp_all add: add_uplinks_def)

lemma add_uplinks_exact:
  assumes "unat (cs_uplink_capacity_mbps s) + sum_list (map unat speeds) < 2 ^ 64"
  shows "cs_code (add_uplinks speeds s) = cs_code s
    \<and> cs_uplink_capacity_mbps (add_uplinks speeds s) = cs_uplink_capacity_mbps s + sum_list speeds
    \<and> cs_uplink_count (add_uplinks speeds s) = cs_uplink_count s + of_nat (length speeds)
    \<and> cs_max_uplink_mbps (add_uplinks speeds s) = foldl max (cs_max_uplink_mbps s) speeds"
  using assms
proof (induction speeds arbitrary: s)
  case (Cons v vs)
  have add: "checked_add (cs_uplink_capacity_mbps s) v = Some (cs_uplink_capacity_mbps s + v)"
    using Cons.prems by (simp add: checked_add_exact)
  from unat_checked_add [OF add] Cons.prems
  have "unat (cs_uplink_capacity_mbps (snd (capacity_add_uplink s v))) + sum_list (map unat vs) < 2 ^ 64"
    by (simp add: capacity_add_uplink_def add)
  from Cons.IH [OF this] show ?case by (auto simp: capacity_add_uplink_def add max_def)
qed simp

lemma unat_sum_list: "sum_list (map unat speeds) < 2 ^ 64 \<Longrightarrow> unat (sum_list speeds :: u64) = sum_list (map unat speeds)"
  by (induction speeds) (simp_all add: unat_word_ariths)

lemma add_uplink_overflow_sticky: "cs_code s = SC_Overflow \<Longrightarrow> cs_code (add_uplinks speeds s) = SC_Overflow"
proof (induction speeds arbitrary: s)
  case (Cons v vs)
  have "cs_code (snd (capacity_add_uplink s v)) = SC_Overflow"
    using Cons.prems by (simp add: capacity_add_uplink_def split: option.split)
  from Cons.IH [OF this] show ?case by simp
qed simp

lemma add_uplinks_overflow:
  "2 ^ 64 \<le> unat (cs_uplink_capacity_mbps s) + sum_list (map unat speeds) \<Longrightarrow>
     cs_code (add_uplinks speeds s) = SC_Overflow"
proof (induction speeds arbitrary: s)
  case Nil
  then show ?case using u64_bound [of "cs_uplink_capacity_mbps s"] by simp
next
  case (Cons v vs)
  show ?case
  proof (cases "checked_add (cs_uplink_capacity_mbps s) v")
    case None
    then have "cs_code (snd (capacity_add_uplink s v)) = SC_Overflow" by (simp add: capacity_add_uplink_def)
    then show ?thesis by (simp add: add_uplink_overflow_sticky)
  next
    case (Some c)
    have "2 ^ 64 \<le> unat (cs_uplink_capacity_mbps (snd (capacity_add_uplink s v))) + sum_list (map unat vs)"
      using Cons.prems unat_checked_add [OF Some] by (simp add: capacity_add_uplink_def Some)
    from Cons.IH [OF this] show ?thesis by simp
  qed
qed

lemma add_uplinks_access: "cs_access_capacity_mbps (add_uplinks vs s) = cs_access_capacity_mbps s"
proof (induction vs arbitrary: s)
  case (Cons v vs)
  then show ?case by (simp add: capacity_add_uplink_def split: option.split)
qed simp

end
