(* ===== verification/SLF_Eligibility.thy ===== *)
theory SLF_Eligibility
  imports SLF_Capacity
begin

text \<open>
  Operational eligibility (\<open>include/slf/eligibility.hpp\<close>, \<open>src/eligibility.cpp\<close>): the verdict on one
  uplink, the spine sets, the assessment of a leaf pair and of a leaf and a spine, and the health of
  a fabric. An engine is an index and the controller incarnation whose observations count as fresh.

  A cancellation token (\<open>include/slf/cancellation.hpp\<close>) is a flag other threads may set, so each of
  its reads is an input: a token is the function from the number of a read to what the read returns,
  and the operations that poll it thread the number of reads made so far.
\<close>

type_synonym cancellation_token = "nat \<Rightarrow> bool"

definition idle_token :: cancellation_token where
  "idle_token = (\<lambda>_. False)"

definition pre_cancelled :: cancellation_token where
  "pre_cancelled = (\<lambda>_. True)"

datatype eligibility_verdict = EV_Eligible | EV_Ineligible | EV_Indeterminate

fun eligibility_verdict_string :: "eligibility_verdict \<Rightarrow> string" where
  "eligibility_verdict_string EV_Eligible = ''eligible''"
| "eligibility_verdict_string EV_Ineligible = ''ineligible''"
| "eligibility_verdict_string EV_Indeterminate = ''indeterminate''"

record path_constraints =
  pc_require_domain_diversity :: bool
  pc_min_eligible_spines :: u32
  pc_min_total_capacity_mbps :: u64
  pc_max_oversubscription :: "rational option"
  pc_allow_peer_paths :: bool
  pc_require_evidence :: bool
  pc_max_sets :: u32
  pc_max_explanations :: u32

definition default_path_constraints :: path_constraints where
  "default_path_constraints = \<lparr>pc_require_domain_diversity = False, pc_min_eligible_spines = 1,
     pc_min_total_capacity_mbps = 0, pc_max_oversubscription = None, pc_allow_peer_paths = True,
     pc_require_evidence = False, pc_max_sets = 16, pc_max_explanations = 32\<rparr>"

definition constraints_defaults_for :: "fabric_options \<Rightarrow> path_constraints" where
  "constraints_defaults_for options = default_path_constraints
     \<lparr>pc_require_domain_diversity := opt_require_domain_diversity options,
      pc_min_eligible_spines := opt_min_eligible_spines options,
      pc_require_evidence := (opt_evidence_policy options = EP_RequireFresh)\<rparr>"

record spine_eligibility =
  se_spine :: spine_id
  se_verdict :: eligibility_verdict
  se_code :: status_code
  se_structural_ok :: bool
  se_freshness :: evidence_freshness
  se_capacity_mbps :: u64
  se_domain :: failure_domain_id
  se_detail :: string

record eligible_spine_set =
  ss_spines :: "spine_id list"
  ss_domains :: "failure_domain_id list"
  ss_total_capacity_mbps :: u64
  ss_distinct_domains :: u32

definition empty_spine_set :: eligible_spine_set where
  "empty_spine_set = \<lparr>ss_spines = [], ss_domains = [], ss_total_capacity_mbps = 0, ss_distinct_domains = 0\<rparr>"

record eligible_spine_sets =
  sets_list :: "eligible_spine_set list"
  sets_truncated :: bool
  sets_candidate_combinations :: u64

definition empty_spine_sets :: eligible_spine_sets where
  "empty_spine_sets = \<lparr>sets_list = [], sets_truncated = False, sets_candidate_combinations = 0\<rparr>"

record eligibility_engine =
  en_index :: topology_index
  en_controller :: controller_incarnation

definition en_fabric :: "eligibility_engine \<Rightarrow> fabric" where
  "en_fabric en = ti_fabric (en_index en)"

section \<open>One uplink\<close>

definition requires_evidence :: "eligibility_engine \<Rightarrow> path_constraints \<Rightarrow> bool" where
  "requires_evidence en c =
     (pc_require_evidence c \<or> opt_evidence_policy (fab_options (en_fabric en)) = EP_RequireFresh)"

definition describe_spine_entry :: "spine_eligibility \<Rightarrow> string" where
  "describe_spine_entry entry =
     spine_id_string (se_spine entry) @ '' domain='' @ u_string (se_domain entry) @ '' capacity_mbps=''
       @ u_string (se_capacity_mbps entry) @ '' verdict='' @ eligibility_verdict_string (se_verdict entry)
       @ '' code='' @ status_code_string (se_code entry) @ '' evidence=''
       @ evidence_freshness_string (se_freshness entry)
       @ (if se_detail entry \<noteq> [] then '' ('' @ se_detail entry @ '')'' else [])"

definition refuse_entry ::
  "eligibility_verdict \<Rightarrow> status_code \<Rightarrow> string \<Rightarrow> spine_eligibility \<Rightarrow> spine_eligibility" where
  "refuse_entry verdict code detail entry =
     entry\<lparr>se_verdict := verdict, se_code := code, se_detail := detail\<rparr>"

definition observed_entry :: "eligibility_engine \<Rightarrow> adjacency \<Rightarrow> path_constraints \<Rightarrow> spine_eligibility \<Rightarrow> spine_eligibility" where
  "observed_entry en uplink c result =
     (let fabric = en_fabric en; required = requires_evidence en c in
      case evidence_for fabric (aj_link uplink) of
        Inl s \<Rightarrow>
          (let r = result\<lparr>se_freshness := EF_Absent\<rparr> in
           if st_code s = SC_Conflicting then refuse_entry EV_Indeterminate SC_Conflicting (st_detail s) r
           else if required
           then refuse_entry EV_Indeterminate SC_Incomplete ''no observed evidence for this link'' r
           else r)
      | Inr record \<Rightarrow>
          (let r = result\<lparr>se_freshness := fabric_evidence_freshness fabric record (en_controller en) (fab_epoch fabric)\<rparr> in
           if se_freshness r \<noteq> EF_Fresh
           then (if required
                 then refuse_entry EV_Indeterminate SC_Stale
                        ''observed evidence was produced by an earlier incarnation, epoch, or generation'' r
                 else r)
           else case ev_observed record of
                  LO_Up \<Rightarrow> r
                | LO_Down \<Rightarrow> refuse_entry EV_Ineligible SC_Refused ''link is observed down'' r
                | LO_Unknown \<Rightarrow>
                    refuse_entry EV_Indeterminate SC_Indeterminate ''the observer could not determine the link state'' r))"

definition evaluate_uplink ::
  "eligibility_engine \<Rightarrow> leaf_id \<Rightarrow> adjacency \<Rightarrow> path_constraints \<Rightarrow> spine_eligibility outcome" where
  "evaluate_uplink en leaf uplink c =
     (let fabric = en_fabric en;
          result = \<lparr>se_spine = nk_index (aj_peer uplink), se_verdict = EV_Eligible, se_code = SC_Ok,
                    se_structural_ok = True, se_freshness = EF_Absent, se_capacity_mbps = aj_speed_mbps uplink,
                    se_domain = 0, se_detail = []\<rparr>
      in case find_spine fabric (se_spine result) of
           None \<Rightarrow> Inr (refuse_entry EV_Ineligible SC_DanglingEdge ''spine does not exist in this generation''
                          (result\<lparr>se_structural_ok := False\<rparr>))
         | Some spine \<Rightarrow>
             (let result = result\<lparr>se_domain := sp_domain spine\<rparr> in
              case find_leaf fabric leaf of
                None \<Rightarrow> Inr (refuse_entry EV_Ineligible SC_NotFound ''leaf does not exist in this generation''
                               (result\<lparr>se_structural_ok := False\<rparr>))
              | Some lr \<Rightarrow>
                  if \<not> state_is_serving (lf_state lr)
                  then Inr (refuse_entry EV_Ineligible SC_Refused
                              (''leaf is in state '' @ node_state_string (lf_state lr)) result)
                  else if sp_state spine = NS_Draining
                  then Inr (refuse_entry EV_Ineligible SC_Refused ''spine is draining'' result)
                  else if \<not> state_is_serving (sp_state spine)
                  then Inr (refuse_entry EV_Ineligible SC_Refused
                              (''spine is in state '' @ node_state_string (sp_state spine)) result)
                  else case (find_port fabric (aj_local_port uplink), find_port fabric (aj_peer_port uplink)) of
                         (Some local_port, Some peer_port) \<Rightarrow>
                           if pt_admin local_port \<noteq> PA_Enabled \<or> pt_admin peer_port \<noteq> PA_Enabled
                           then Inr (refuse_entry EV_Ineligible SC_Refused
                                       ''an endpoint port is administratively disabled'' result)
                           else Inr (observed_entry en uplink c result)
                       | _ \<Rightarrow> Inr (refuse_entry EV_Ineligible SC_DanglingEdge ''link endpoint port does not exist''
                                      (result\<lparr>se_structural_ok := False\<rparr>))))"

fun uplinks_loop ::
  "eligibility_engine \<Rightarrow> leaf_id \<Rightarrow> path_constraints \<Rightarrow> cancellation_token \<Rightarrow> nat \<Rightarrow> u32 \<Rightarrow> adjacency list
     \<Rightarrow> spine_eligibility list \<Rightarrow> spine_eligibility list outcome \<times> nat" where
  "uplinks_loop en leaf c token reads processed [] out = (Inr out, reads)"
| "uplinks_loop en leaf c token reads processed (uplink # rest) out =
     (let poll = (processed AND 0x3F = 0);
          reads' = (if poll then reads + 1 else reads)
      in if poll \<and> token reads
         then (Inl (Status SC_Cancelled ''eligibility evaluation was cancelled''), reads')
         else if nk_tier (aj_peer uplink) \<noteq> Spine
         then uplinks_loop en leaf c token reads' (processed + 1) rest out
         else case evaluate_uplink en leaf uplink c of
                Inl s \<Rightarrow> (Inl s, reads')
              | Inr entry \<Rightarrow> uplinks_loop en leaf c token reads' (processed + 1) rest (out @ [entry]))"

definition evaluate_uplinks ::
  "eligibility_engine \<Rightarrow> leaf_id \<Rightarrow> path_constraints \<Rightarrow> cancellation_token \<Rightarrow> nat
     \<Rightarrow> spine_eligibility list outcome \<times> nat" where
  "evaluate_uplinks en leaf c token reads =
     uplinks_loop en leaf c token reads 0 (uplinks (en_index en) leaf) []"

definition eligible_spines_for_leaf ::
  "eligibility_engine \<Rightarrow> leaf_id \<Rightarrow> path_constraints \<Rightarrow> cancellation_token \<Rightarrow> nat
     \<Rightarrow> spine_eligibility list outcome \<times> nat" where
  "eligible_spines_for_leaf en leaf c token reads =
     (if find_leaf (en_fabric en) leaf = None
      then (Inl (Status SC_NotFound (''leaf '' @ leaf_id_string leaf @ '' does not exist'')), reads)
      else evaluate_uplinks en leaf c token reads)"

section \<open>Spine sets\<close>

definition kMaxExaminedCombinations :: u64 where
  "kMaxExaminedCombinations = 4096"

fun spines_less :: "spine_id list \<Rightarrow> spine_id list \<Rightarrow> bool" where
  "spines_less [] [] = False"
| "spines_less [] (b # bs) = True"
| "spines_less (a # as) [] = False"
| "spines_less (a # as) (b # bs) = (if a < b then True else if b < a then False else spines_less as bs)"

definition set_is_better :: "eligible_spine_set \<Rightarrow> eligible_spine_set \<Rightarrow> bool" where
  "set_is_better candidate incumbent =
     (if ss_total_capacity_mbps candidate \<noteq> ss_total_capacity_mbps incumbent
      then ss_total_capacity_mbps candidate > ss_total_capacity_mbps incumbent
      else spines_less (ss_spines candidate) (ss_spines incumbent))"

definition whole_pool_set :: "spine_eligibility list \<Rightarrow> eligible_spine_set" where
  "whole_pool_set pool =
     \<lparr>ss_spines = std_sort (<) (map se_spine pool),
      ss_domains = std_sort (<) (foldl (\<lambda>ds d. if d \<in> set ds then ds else ds @ [d]) [] (map se_domain pool)),
      ss_total_capacity_mbps = sum_list (map se_capacity_mbps pool),
      ss_distinct_domains = of_nat (length (std_unique (std_sort (<) (map se_domain pool))))\<rparr>"

type_synonym domain_groups = "(failure_domain_id, spine_eligibility list) omap"

definition group_by_domain :: "spine_eligibility list \<Rightarrow> domain_groups" where
  "group_by_domain pool =
     foldl (\<lambda>m entry. omap_put (se_domain entry)
              ((case map_of m (se_domain entry) of None \<Rightarrow> [] | Some es \<Rightarrow> es) @ [entry]) m) [] pool"

fun count_combinations :: "domain_groups \<Rightarrow> u64 \<Rightarrow> u64 \<times> bool" where
  "count_combinations [] combinations = (combinations, False)"
| "count_combinations ((d, entries) # rest) combinations =
     (case checked_mul combinations (of_nat (length entries)) of
        None \<Rightarrow> (u64_max, True)
      | Some next \<Rightarrow> count_combinations rest next)"

definition combination_set :: "spine_eligibility list \<Rightarrow> eligible_spine_set" where
  "combination_set current =
     \<lparr>ss_spines = std_sort (<) (map se_spine current), ss_domains = std_sort (<) (map se_domain current),
      ss_total_capacity_mbps = sum_list (map se_capacity_mbps current),
      ss_distinct_domains = of_nat (length current)\<rparr>"

text \<open>The recursive lambda \<open>enumerate\<close> and the loop in it over the entries of one domain.\<close>

function (sequential)
  enumerate_sets :: "cancellation_token \<Rightarrow> domain_groups \<Rightarrow> spine_eligibility list
    \<Rightarrow> eligible_spine_set list \<times> nat \<Rightarrow> eligible_spine_set list \<times> nat" and
  enumerate_entries :: "cancellation_token \<Rightarrow> spine_eligibility list \<Rightarrow> domain_groups \<Rightarrow> spine_eligibility list
    \<Rightarrow> eligible_spine_set list \<times> nat \<Rightarrow> eligible_spine_set list \<times> nat" where
  "enumerate_sets token [] current (candidates, reads) =
     (if token reads then (candidates, reads + 1)
      else (candidates @ [combination_set current], reads + 1))"
| "enumerate_sets token ((d, entries) # rest) current (candidates, reads) =
     (if token reads then (candidates, reads + 1)
      else enumerate_entries token entries rest current (candidates, reads + 1))"
| "enumerate_entries token [] rest current acc = acc"
| "enumerate_entries token (entry # entries) rest current acc =
     enumerate_entries token entries rest current
       (enumerate_sets token rest (current @ [entry]) acc)"
  by pat_completeness auto
termination
  by (relation "measures [\<lambda>x. case x of Inl (_, gs, _, _) \<Rightarrow> length gs | Inr (_, _, rest, _, _) \<Rightarrow> length rest,
        \<lambda>x. case x of Inl _ \<Rightarrow> 0 | Inr (_, es, _, _, _) \<Rightarrow> Suc (length es)]") auto

fun best_entry :: "spine_eligibility option \<Rightarrow> spine_eligibility list \<Rightarrow> spine_eligibility option" where
  "best_entry best [] = best"
| "best_entry best (entry # rest) =
     (if (case best of None \<Rightarrow> True
          | Some b \<Rightarrow> se_capacity_mbps entry > se_capacity_mbps b
              \<or> (se_capacity_mbps entry = se_capacity_mbps b \<and> se_spine entry < se_spine b))
      then best_entry (Some entry) rest else best_entry best rest)"

definition greedy_set :: "domain_groups \<Rightarrow> eligible_spine_set" where
  "greedy_set groups =
     (let chosen = concat (map (\<lambda>(d, es). case best_entry None es of None \<Rightarrow> [] | Some b \<Rightarrow> [(d, b)]) groups)
      in \<lparr>ss_spines = std_sort (<) (map (\<lambda>(d, b). se_spine b) chosen),
          ss_domains = std_sort (<) (map fst chosen),
          ss_total_capacity_mbps = sum_list (map (\<lambda>(d, b). se_capacity_mbps b) chosen),
          ss_distinct_domains = of_nat (length chosen)\<rparr>)"

definition candidate_sets ::
  "cancellation_token \<Rightarrow> domain_groups \<Rightarrow> u64 \<Rightarrow> bool \<Rightarrow> nat \<Rightarrow> eligible_spine_set list \<times> nat \<times> bool" where
  "candidate_sets token groups combinations overflow reads =
     (if \<not> overflow \<and> combinations \<le> kMaxExaminedCombinations
      then case enumerate_sets token groups [] ([], reads) of (cs, r) \<Rightarrow> (cs, r, False)
      else ([greedy_set groups], reads, True))"

definition set_limit :: "path_constraints \<Rightarrow> nat" where
  "set_limit c = (if pc_max_sets c = 0 then 1 else unat (pc_max_sets c))"

definition eligible_pool :: "spine_eligibility list \<Rightarrow> spine_eligibility list" where
  "eligible_pool entries = filter (\<lambda>e. se_verdict e = EV_Eligible) entries"

definition select_spine_sets ::
  "spine_eligibility list \<Rightarrow> path_constraints \<Rightarrow> cancellation_token \<Rightarrow> nat \<Rightarrow> eligible_spine_sets \<times> nat" where
  "select_spine_sets eligible c token reads =
     (let pool = eligible_pool eligible in
      if pool = [] then (empty_spine_sets, reads)
      else if \<not> pc_require_domain_diversity c
      then (\<lparr>sets_list = [whole_pool_set pool], sets_truncated = False, sets_candidate_combinations = 1\<rparr>, reads)
      else let groups = group_by_domain pool in
           case count_combinations groups 1 of (combinations, overflow) \<Rightarrow>
           case candidate_sets token groups combinations overflow reads of (candidates, reads1, truncated) \<Rightarrow>
           if token reads1
           then (\<lparr>sets_list = [], sets_truncated = True, sets_candidate_combinations = combinations\<rparr>, reads1 + 1)
           else (\<lparr>sets_list = take (set_limit c) (std_sort set_is_better candidates),
                  sets_truncated = (truncated \<or> length candidates > set_limit c),
                  sets_candidate_combinations = combinations\<rparr>, reads1 + 1))"

section \<open>What makes an uplink eligible\<close>

definition evidence_admits :: "eligibility_engine \<Rightarrow> path_constraints \<Rightarrow> link_id \<Rightarrow> bool" where
  "evidence_admits en c link =
     (case evidence_for (en_fabric en) link of
        Inl s \<Rightarrow> st_code s \<noteq> SC_Conflicting \<and> \<not> requires_evidence en c
      | Inr record \<Rightarrow>
          if fabric_evidence_freshness (en_fabric en) record (en_controller en) (fab_epoch (en_fabric en)) = EF_Fresh
          then ev_observed record = LO_Up else \<not> requires_evidence en c)"

definition uplink_usable :: "eligibility_engine \<Rightarrow> leaf_id \<Rightarrow> adjacency \<Rightarrow> path_constraints \<Rightarrow> bool" where
  "uplink_usable en leaf uplink c =
     ((\<exists>spine. find_spine (en_fabric en) (nk_index (aj_peer uplink)) = Some spine \<and> state_is_serving (sp_state spine))
      \<and> (\<exists>lr. find_leaf (en_fabric en) leaf = Some lr \<and> state_is_serving (lf_state lr))
      \<and> (\<exists>p. find_port (en_fabric en) (aj_local_port uplink) = Some p \<and> pt_admin p = PA_Enabled)
      \<and> (\<exists>p. find_port (en_fabric en) (aj_peer_port uplink) = Some p \<and> pt_admin p = PA_Enabled)
      \<and> evidence_admits en c (aj_link uplink))"

lemma refuse_entry_simps [simp]:
  "se_verdict (refuse_entry v code d e) = v" "se_spine (refuse_entry v code d e) = se_spine e"
  "se_capacity_mbps (refuse_entry v code d e) = se_capacity_mbps e"
  "se_domain (refuse_entry v code d e) = se_domain e"
  by (simp_all add: refuse_entry_def)

lemma observed_entry_verdict:
  "se_verdict r = EV_Eligible \<Longrightarrow>
     se_verdict (observed_entry en u c r) = EV_Eligible \<longleftrightarrow> evidence_admits en c (aj_link u)"
  by (auto simp: observed_entry_def evidence_admits_def Let_def split: sum.split link_observation.split)

lemma observed_entry_frame [simp]:
  "se_spine (observed_entry en u c r) = se_spine r"
  "se_capacity_mbps (observed_entry en u c r) = se_capacity_mbps r"
  "se_domain (observed_entry en u c r) = se_domain r"
  by (auto simp: observed_entry_def Let_def split: sum.split link_observation.split)

lemma draining_not_serving [simp]: "\<not> state_is_serving NS_Draining"
  by (simp add: state_is_serving_def)

lemma evaluate_uplink_exact:
  "\<exists>e. evaluate_uplink en leaf u c = Inr e \<and> se_spine e = nk_index (aj_peer u) \<and> se_capacity_mbps e = aj_speed_mbps u
     \<and> (se_verdict e = EV_Eligible \<longleftrightarrow> uplink_usable en leaf u c)
     \<and> (case find_spine (en_fabric en) (nk_index (aj_peer u)) of None \<Rightarrow> True | Some s \<Rightarrow> se_domain e = sp_domain s)"
proof (cases "find_spine (en_fabric en) (nk_index (aj_peer u))")
  case None
  then show ?thesis by (simp add: evaluate_uplink_def uplink_usable_def Let_def)
next
  case spine: (Some spine)
  show ?thesis
  proof (cases "find_leaf (en_fabric en) leaf")
    case None
    then show ?thesis by (simp add: evaluate_uplink_def uplink_usable_def Let_def spine)
  next
    case (Some lr)
    with spine show ?thesis
      by (cases "find_port (en_fabric en) (aj_local_port u)"; cases "find_port (en_fabric en) (aj_peer_port u)")
        (auto simp: evaluate_uplink_def uplink_usable_def Let_def observed_entry_verdict)
  qed
qed

definition uplink_entry :: "eligibility_engine \<Rightarrow> leaf_id \<Rightarrow> path_constraints \<Rightarrow> adjacency \<Rightarrow> spine_eligibility" where
  "uplink_entry en leaf c u = projr (evaluate_uplink en leaf u c)"

lemma uplink_entry:
  "evaluate_uplink en leaf u c = Inr (uplink_entry en leaf c u)"
  "se_spine (uplink_entry en leaf c u) = nk_index (aj_peer u)"
  "se_capacity_mbps (uplink_entry en leaf c u) = aj_speed_mbps u"
  "se_verdict (uplink_entry en leaf c u) = EV_Eligible \<longleftrightarrow> uplink_usable en leaf u c"
  using evaluate_uplink_exact [of en leaf u c] by (auto simp: uplink_entry_def)

definition uplink_entries :: "eligibility_engine \<Rightarrow> leaf_id \<Rightarrow> path_constraints \<Rightarrow> spine_eligibility list" where
  "uplink_entries en leaf c =
     map (uplink_entry en leaf c) (filter (\<lambda>u. nk_tier (aj_peer u) = Spine) (uplinks (en_index en) leaf))"

lemma uplinks_loop_cases:
  "(fst (uplinks_loop en leaf c token reads processed us out)
      = Inr (out @ map (uplink_entry en leaf c) (filter (\<lambda>u. nk_tier (aj_peer u) = Spine) us)))
   \<or> (fst (uplinks_loop en leaf c token reads processed us out)
        = Inl (Status SC_Cancelled ''eligibility evaluation was cancelled'')
      \<and> (\<exists>k. reads \<le> k \<and> k < snd (uplinks_loop en leaf c token reads processed us out) \<and> token k))"
proof (induction us arbitrary: reads processed out)
  case (Cons u us)
  let ?poll = "processed AND 0x3F = 0"
  let ?r = "if ?poll then reads + 1 else reads"
  show ?case
  proof (cases "?poll \<and> token reads")
    case True
    then show ?thesis by (auto simp: Let_def intro!: exI [of _ reads])
  next
    case False
    let ?out = "if nk_tier (aj_peer u) = Spine then out @ [uplink_entry en leaf c u] else out"
    have step: "uplinks_loop en leaf c token reads processed (u # us) out
        = uplinks_loop en leaf c token ?r (processed + 1) us ?out"
      unfolding uplinks_loop.simps Let_def if_not_P [OF False] by (simp add: uplink_entry(1))
    have out: "?out @ map (uplink_entry en leaf c) (filter (\<lambda>u. nk_tier (aj_peer u) = Spine) us)
        = out @ map (uplink_entry en leaf c) (filter (\<lambda>u. nk_tier (aj_peer u) = Spine) (u # us))"
      by simp
    have le: "?r \<le> k \<Longrightarrow> reads \<le> k" for k by (simp split: if_splits)
    show ?thesis unfolding step out [symmetric] using Cons.IH [of ?r "processed + 1" ?out] le by blast
  qed
qed simp

lemma evaluate_uplinks_ok:
  "fst (evaluate_uplinks en leaf c token reads) = Inr es \<Longrightarrow> es = uplink_entries en leaf c"
  using uplinks_loop_cases [of en leaf c token reads 0 "uplinks (en_index en) leaf" "[]"]
  by (auto simp: evaluate_uplinks_def uplink_entries_def)

lemma evaluate_uplinks_cancelled:
  "fst (evaluate_uplinks en leaf c token reads) = Inl s \<Longrightarrow>
     st_code s = SC_Cancelled \<and> (\<exists>k. reads \<le> k \<and> token k)"
  using uplinks_loop_cases [of en leaf c token reads 0 "uplinks (en_index en) leaf" "[]"]
  by (auto simp: evaluate_uplinks_def)

lemma evaluate_uplinks_idle:
  "\<forall>k\<ge>reads. \<not> token k \<Longrightarrow> fst (evaluate_uplinks en leaf c token reads) = Inr (uplink_entries en leaf c)"
  using evaluate_uplinks_ok evaluate_uplinks_cancelled
  by (cases "fst (evaluate_uplinks en leaf c token reads)") blast+

lemma idle_uplinks: "\<exists>r. evaluate_uplinks en i c idle_token k = (Inr (uplink_entries en i c), r)"
  using evaluate_uplinks_idle [of k idle_token] by (simp add: idle_token_def prod_eq_iff)

section \<open>What the spine sets are\<close>

lemma spines_less_asym: "spines_less a b \<Longrightarrow> \<not> spines_less b a"
  by (induction a b rule: spines_less.induct) (auto split: if_splits)

lemma spines_less_negtrans: "\<not> spines_less a b \<Longrightarrow> \<not> spines_less b c \<Longrightarrow> \<not> spines_less a c"
proof (induction a arbitrary: b c)
  case Nil
  then show ?case by (cases b; cases c) simp_all
next
  case (Cons x a)
  show ?case
  proof (cases b; cases c)
    fix y b' z c' assume "b = y # b'" "c = z # c'"
    with Cons show ?thesis by (auto split: if_splits)
  qed (use Cons.prems in simp_all)
qed

lemma not_better:
  "\<not> set_is_better a b \<longleftrightarrow> ss_total_capacity_mbps a < ss_total_capacity_mbps b
     \<or> (ss_total_capacity_mbps a = ss_total_capacity_mbps b \<and> \<not> spines_less (ss_spines a) (ss_spines b))"
  by (simp add: set_is_better_def not_less le_less)

lemma weak_order_better: "weak_order set_is_better"
  unfolding weak_order_def
proof (intro conjI allI impI)
  fix x y assume "set_is_better x y"
  then show "\<not> set_is_better y x"
    unfolding not_better using spines_less_asym by (auto simp: set_is_better_def split: if_splits)
next
  fix x y z assume "\<not> set_is_better x y" "\<not> set_is_better y z"
  then show "\<not> set_is_better x z"
    unfolding not_better using spines_less_negtrans [of "ss_spines x" "ss_spines y" "ss_spines z"]
    by (elim disjE conjE) auto
qed

lemma map_of_omap_put: "map_of (omap_put k v m) = (map_of m)(k \<mapsto> v)"
  by (induction k v m rule: omap_put.induct) (auto simp: fun_eq_iff)

lemma keys_omap_put: "fst ` set (omap_put k v m) = insert k (fst ` set m)"
  by (induction k v m rule: omap_put.induct) auto

lemma omap_put_wf: "omap_wf m \<Longrightarrow> omap_wf (omap_put k v m)"
proof (induction k v m rule: omap_put.induct)
  case (2 k v a b m)
  have "\<forall>x\<in>fst ` set (omap_put k v m). a < x" if "\<not> k < a" "k \<noteq> a"
    using 2(2) that by (auto simp: keys_omap_put omap_wf_def)
  then show ?case using 2 by (auto simp: omap_wf_def)
qed (simp add: omap_wf_def)

text \<open>The groups of a pool: ascending domains, every entry under its own domain, no empty group.\<close>

definition groups_ok :: "spine_eligibility set \<Rightarrow> domain_groups \<Rightarrow> bool" where
  "groups_ok pool gs \<longleftrightarrow> omap_wf gs \<and> fst ` set gs = se_domain ` pool
     \<and> (\<forall>(d, es)\<in>set gs. es \<noteq> [] \<and> set es = {e \<in> pool. se_domain e = d})"

lemma groups_ok_lookup: "omap_wf gs \<Longrightarrow> (d, es) \<in> set gs \<longleftrightarrow> map_of gs d = Some es"
  unfolding omap_wf_def by (metis distinct_map map_of_SomeD map_of_eq_Some_iff strict_sorted_iff)

lemma groups_ok_insert:
  assumes "groups_ok pool gs"
  shows "groups_ok (insert e pool) (omap_put (se_domain e)
    ((case map_of gs (se_domain e) of None \<Rightarrow> [] | Some es \<Rightarrow> es) @ [e]) gs)" (is "groups_ok _ ?gs")
proof -
  have wf: "omap_wf gs" and keys: "fst ` set gs = se_domain ` pool"
    and grp: "\<And>d es. map_of gs d = Some es \<Longrightarrow> es \<noteq> [] \<and> set es = {x \<in> pool. se_domain x = d}"
    using assms by (auto simp: groups_ok_def dest!: map_of_SomeD)
  have "map_of gs d = None \<longleftrightarrow> d \<notin> se_domain ` pool" for d using keys by (simp add: map_of_eq_None_iff)
  then have none: "map_of gs d = None \<Longrightarrow> {x \<in> pool. se_domain x = d} = {}" for d by auto
  have new: "es \<noteq> [] \<and> set es = {x \<in> insert e pool. se_domain x = d}" if "map_of ?gs d = Some es" for d es
  proof (cases "d = se_domain e")
    case True
    then have es: "es = (case map_of gs d of None \<Rightarrow> [] | Some es \<Rightarrow> es) @ [e]"
      using that by (simp add: map_of_omap_put)
    show ?thesis
    proof (cases "map_of gs d")
      case None
      with none [OF None] True es show ?thesis by auto
    next
      case (Some xs)
      with grp [OF Some] True es show ?thesis by auto
    qed
  next
    case False
    then have "map_of gs d = Some es" using that by (simp add: map_of_omap_put)
    from grp [OF this] False show ?thesis by auto
  qed
  define gs' where "gs' = ?gs"
  have wf': "omap_wf gs'" unfolding gs'_def by (rule omap_put_wf [OF wf])
  have "\<forall>(d, es)\<in>set gs'. es \<noteq> [] \<and> set es = {x \<in> insert e pool. se_domain x = d}"
  proof (rule ballI, rule prod.case_eq_if [THEN iffD2])
    fix g assume "g \<in> set gs'"
    then have "map_of gs' (fst g) = Some (snd g)" using groups_ok_lookup [OF wf', of "fst g" "snd g"] by simp
    then show "snd g \<noteq> [] \<and> set (snd g) = {x \<in> insert e pool. se_domain x = fst g}"
      unfolding gs'_def by (rule new)
  qed
  moreover have "fst ` set gs' = se_domain ` insert e pool" unfolding gs'_def keys_omap_put keys by simp
  ultimately show ?thesis unfolding groups_ok_def gs'_def [symmetric] using wf' by blast
qed

lemma group_by_domain_ok: "groups_ok (set pool) (group_by_domain pool)"
proof -
  have "groups_ok (seen \<union> set xs) (foldl (\<lambda>m entry. omap_put (se_domain entry)
      ((case map_of m (se_domain entry) of None \<Rightarrow> [] | Some es \<Rightarrow> es) @ [entry]) m) gs xs)"
    if "groups_ok seen gs" for seen gs xs
    using that
  proof (induction xs arbitrary: seen gs)
    case (Cons x xs)
    from Cons.IH [OF groups_ok_insert [OF Cons.prems, of x]] show ?case by simp
  qed simp
  from this [of "{}" "[]" pool] show ?thesis
    by (simp add: group_by_domain_def groups_ok_def omap_wf_def)
qed

text \<open>
  A token that stays set once set. If the read after an enumeration finds it clear, the enumeration
  was not cut short.
\<close>

definition latching :: "cancellation_token \<Rightarrow> bool" where
  "latching token \<longleftrightarrow> (\<forall>j k. j \<le> k \<longrightarrow> token j \<longrightarrow> token k)"

lemma enumerate_complete:
  "latching token \<Longrightarrow> snd acc \<le> snd (enumerate_sets token gs cur acc)
      \<and> (\<not> token (snd (enumerate_sets token gs cur acc)) \<longrightarrow>
          fst (enumerate_sets token gs cur acc)
            = fst acc @ map (\<lambda>p. combination_set (cur @ p)) (product_lists (map snd gs)))"
  "latching token \<Longrightarrow> snd acc' \<le> snd (enumerate_entries token es rest cur acc')
      \<and> (\<not> token (snd (enumerate_entries token es rest cur acc')) \<longrightarrow>
          fst (enumerate_entries token es rest cur acc')
            = fst acc' @ concat (map (\<lambda>e. map (\<lambda>p. combination_set (cur @ e # p)) (product_lists (map snd rest))) es))"
proof (induction token gs cur acc and token es rest cur acc' rule: enumerate_sets_enumerate_entries.induct)
  case (1 token cur cs r)
  then have "\<not> token (Suc r) \<Longrightarrow> \<not> token r" unfolding latching_def by (meson le_SucI order_refl)
  then show ?case by auto
next
  case (2 token d entries rest cur cs r)
  show ?case
  proof (cases "token r")
    case True
    then have "token (Suc r)" using 2(2) unfolding latching_def by (meson le_SucI order_refl)
    with True show ?thesis by simp
  next
    case False
    then show ?thesis using 2(1) [OF False 2(2)]
      by (auto simp: map_concat comp_def dest: Suc_leD)
  qed
next
  case (4 token e es rest cur acc)
  let ?mid = "enumerate_sets token rest (cur @ [e]) acc"
  let ?fin = "enumerate_entries token es rest cur ?mid"
  have "\<not> token (snd ?fin) \<Longrightarrow> \<not> token (snd ?mid)"
    using 4(2) [OF 4(3)] 4(3) unfolding latching_def by blast
  then show ?case using 4(1) [OF 4(3)] 4(2) [OF 4(3)] by auto
qed simp

lemma combination_domains:
  assumes "groups_ok pool gs" and "p \<in> set (product_lists (map snd gs))"
  shows "map se_domain p = map fst gs" and "set p \<subseteq> pool"
proof -
  have "list_all2 (\<lambda>x ys. x \<in> set ys) p (map snd gs)" using assms(2) by (simp add: product_lists_set)
  then have "list_all2 (\<lambda>x g. x \<in> set (snd g)) p gs" by (simp add: list_all2_map2)
  then have "list_all2 (\<lambda>x g. x \<in> pool \<and> se_domain x = fst g) p gs"
  proof (rule list.rel_mono_strong)
    fix x g assume "g \<in> set gs" "x \<in> set (snd g)"
    then show "x \<in> pool \<and> se_domain x = fst g" using assms(1) by (cases g) (auto simp: groups_ok_def)
  qed
  then show "map se_domain p = map fst gs" "set p \<subseteq> pool"
    by (induction rule: list_all2_induct) auto
qed

lemma sorted_keys: "omap_wf gs \<Longrightarrow> std_sort (<) (map fst gs) = map fst gs"
  unfolding omap_wf_def std_sort_less by (simp add: sorted_sort_id strict_sorted_iff)

lemma best_entry_mem: "best_entry b es = Some e \<Longrightarrow> e \<in> set es \<or> b = Some e"
  by (induction b es rule: best_entry.induct) (auto split: if_splits)

lemma best_entry_some: "es \<noteq> [] \<or> b \<noteq> None \<Longrightarrow> best_entry b es \<noteq> None"
  by (induction b es rule: best_entry.induct) (auto split: option.splits)

lemma greedy_domains:
  assumes "groups_ok pool gs"
  shows "ss_domains (greedy_set gs) = map fst gs"
proof -
  have "map fst (concat (map (\<lambda>(d, es). case best_entry None es of None \<Rightarrow> [] | Some b \<Rightarrow> [(d, b)]) hs)) = map fst hs"
    if "\<forall>(d, es)\<in>set hs. es \<noteq> []" for hs
    using that best_entry_some by (induction hs) (fastforce split: option.splits)+
  from this [of gs] assms show ?thesis
    unfolding greedy_set_def Let_def by (simp add: groups_ok_def sorted_keys case_prod_beta)
qed

text \<open>The combinations of one eligible spine per failure domain.\<close>

definition all_combinations :: "spine_eligibility list \<Rightarrow> eligible_spine_set list" where
  "all_combinations entries =
     map combination_set (product_lists (map snd (group_by_domain (eligible_pool entries))))"

lemma candidate_sets_cases:
  assumes "latching token" and "candidate_sets token (group_by_domain (eligible_pool es)) n ov reads = (cs, r, tr)"
    and "\<not> token r"
  shows "cs = (if tr then [greedy_set (group_by_domain (eligible_pool es))] else all_combinations es)"
proof (cases "\<not> ov \<and> n \<le> kMaxExaminedCombinations")
  case True
  then have "enumerate_sets token (group_by_domain (eligible_pool es)) [] ([], reads) = (cs, r)" and "\<not> tr"
    using assms(2) by (auto simp: candidate_sets_def split: prod.splits)
  then show ?thesis
    using enumerate_complete(1) [OF assms(1), of "([], reads)" "group_by_domain (eligible_pool es)" "[]"] assms(3)
    by (simp add: all_combinations_def)
next
  case False
  then have "cs = [greedy_set (group_by_domain (eligible_pool es))] \<and> tr"
    using assms(2) unfolding candidate_sets_def if_not_P [OF False] by simp
  then show ?thesis by simp
qed

lemma select_cases:
  assumes "pc_require_domain_diversity c" and "eligible_pool es \<noteq> []"
  obtains n ov cs r tr where "candidate_sets token (group_by_domain (eligible_pool es)) n ov reads = (cs, r, tr)"
    and "select_spine_sets es c token reads = (if token r
      then (\<lparr>sets_list = [], sets_truncated = True, sets_candidate_combinations = n\<rparr>, r + 1)
      else (\<lparr>sets_list = take (set_limit c) (std_sort set_is_better cs),
             sets_truncated = (tr \<or> length cs > set_limit c), sets_candidate_combinations = n\<rparr>, r + 1))"
proof -
  obtain n ov where cnt: "count_combinations (group_by_domain (eligible_pool es)) 1 = (n, ov)" by fastforce
  obtain cs r tr where cand: "candidate_sets token (group_by_domain (eligible_pool es)) n ov reads = (cs, r, tr)"
    using prod_cases3 by blast
  from that [OF cand] show ?thesis using assms by (simp add: select_spine_sets_def Let_def cnt cand)
qed

lemma select_diverse:
  assumes "latching token" and "pc_require_domain_diversity c" and "eligible_pool es \<noteq> []"
    and "\<not> sets_truncated (fst (select_spine_sets es c token reads))"
  shows "sets_list (fst (select_spine_sets es c token reads)) = std_sort set_is_better (all_combinations es)"
    and "length (all_combinations es) \<le> set_limit c"
proof -
  obtain n ov cs r tr where cand: "candidate_sets token (group_by_domain (eligible_pool es)) n ov reads = (cs, r, tr)"
    and sel: "select_spine_sets es c token reads = (if token r
      then (\<lparr>sets_list = [], sets_truncated = True, sets_candidate_combinations = n\<rparr>, r + 1)
      else (\<lparr>sets_list = take (set_limit c) (std_sort set_is_better cs),
             sets_truncated = (tr \<or> length cs > set_limit c), sets_candidate_combinations = n\<rparr>, r + 1))"
    using select_cases [OF assms(2,3)] by metis
  from assms(4) have nt: "\<not> token r" "\<not> tr" "length cs \<le> set_limit c" by (auto simp: sel split: if_splits)
  with candidate_sets_cases [OF assms(1) cand nt(1)] have "cs = all_combinations es" by simp
  with nt show "sets_list (fst (select_spine_sets es c token reads)) = std_sort set_is_better (all_combinations es)"
    "length (all_combinations es) \<le> set_limit c" by (simp_all add: sel)
qed

lemma selected_domains:
  assumes "latching token" and "pc_require_domain_diversity c"
    and "s \<in> set (sets_list (fst (select_spine_sets es c token reads)))"
  shows "ss_domains s = map fst (group_by_domain (eligible_pool es))"
proof -
  let ?gs = "group_by_domain (eligible_pool es)"
  have ok: "groups_ok (set (eligible_pool es)) ?gs" by (rule group_by_domain_ok)
  have ne: "eligible_pool es \<noteq> []" using assms(3) by (auto simp: select_spine_sets_def empty_spine_sets_def)
  obtain n ov cs r tr where cand: "candidate_sets token ?gs n ov reads = (cs, r, tr)"
    and sel: "select_spine_sets es c token reads = (if token r
      then (\<lparr>sets_list = [], sets_truncated = True, sets_candidate_combinations = n\<rparr>, r + 1)
      else (\<lparr>sets_list = take (set_limit c) (std_sort set_is_better cs),
             sets_truncated = (tr \<or> length cs > set_limit c), sets_candidate_combinations = n\<rparr>, r + 1))"
    using select_cases [OF assms(2) ne] by metis
  have nt: "\<not> token r" and mem: "s \<in> set cs"
    using assms(3) in_set_takeD [of s "set_limit c" "std_sort set_is_better cs"]
    by (auto simp: sel split: if_splits)
  from candidate_sets_cases [OF assms(1) cand nt] mem
  consider "s = greedy_set ?gs" | "s \<in> set (all_combinations es)" by (auto split: if_splits)
  then show ?thesis
  proof cases
    case 2
    then obtain p where p: "p \<in> set (product_lists (map snd ?gs))" "s = combination_set p"
      by (auto simp: all_combinations_def)
    with combination_domains(1) [OF ok p(1)] ok show ?thesis
      by (simp add: combination_set_def sorted_keys groups_ok_def)
  qed (simp add: greedy_domains [OF ok])
qed

lemma selected_sorted:
  assumes "pc_require_domain_diversity c"
  shows "sorted_wrt (\<lambda>s t. \<not> set_is_better t s) (sets_list (fst (select_spine_sets es c token reads)))"
proof (cases "eligible_pool es = []")
  case False
  have "sorted_wrt (\<lambda>s t. \<not> set_is_better t s) (take n (std_sort set_is_better xs))" for n xs
    using sorted_std_sort [OF weak_order_better, of xs] by (simp add: sorted_wrt_take)
  then show ?thesis using select_cases [OF assms False, of token reads] by (metis fst_conv sorted_wrt.simps(1)
      eligible_spine_sets.select_convs(1))
qed (simp add: select_spine_sets_def empty_spine_sets_def)

end
