(* ===== verification/SLF_Assess.thy ===== *)
theory SLF_Assess
  imports SLF_Eligibility
begin

text \<open>
  Path assessments and fabric health (\<open>assess_leaf_pair\<close>, \<open>assess_leaf_to_spine\<close>, \<open>health\<close> and the
  textual forms of \<open>src/eligibility.cpp\<close>). The branches of the two long member functions are named
  definitions, composed in the order of the source.
\<close>

record path_assessment =
  pa_from :: node_key
  pa_to :: node_key
  pa_cls :: reachability_class
  pa_verdict :: eligibility_verdict
  pa_code :: status_code
  pa_generation :: topology_generation
  pa_epoch :: epoch
  pa_controller :: controller_incarnation
  pa_topology_digest :: digest
  pa_eligible_spines :: "spine_id list"
  pa_covered_domains :: "failure_domain_id list"
  pa_max_domain_loss_tolerance :: u32
  pa_spine_sets :: eligible_spine_sets
  pa_capacity :: capacity_summary
  pa_explanation :: "string list"
  pa_links_examined :: u64
  pa_evidence_required :: bool

definition new_assessment :: "eligibility_engine \<Rightarrow> node_key \<Rightarrow> node_key \<Rightarrow> path_constraints \<Rightarrow> path_assessment" where
  "new_assessment en from to c =
     \<lparr>pa_from = from, pa_to = to, pa_cls = structural_class (en_index en) from to,
      pa_verdict = EV_Ineligible, pa_code = SC_Ok,
      pa_generation = fab_generation (en_fabric en), pa_epoch = fab_epoch (en_fabric en),
      pa_controller = en_controller en, pa_topology_digest = fab_topology_digest (en_fabric en),
      pa_eligible_spines = [], pa_covered_domains = [], pa_max_domain_loss_tolerance = 0,
      pa_spine_sets = empty_spine_sets, pa_capacity = empty_capacity, pa_explanation = [],
      pa_links_examined = 0, pa_evidence_required = requires_evidence en c\<rparr>"

definition explain :: "string \<Rightarrow> path_assessment \<Rightarrow> path_assessment" where
  "explain line a = a\<lparr>pa_explanation := pa_explanation a @ [line]\<rparr>"

definition decide :: "eligibility_verdict \<Rightarrow> status_code \<Rightarrow> string \<Rightarrow> path_assessment \<Rightarrow> path_assessment" where
  "decide verdict code line a = explain line (a\<lparr>pa_verdict := verdict, pa_code := code\<rparr>)"

section \<open>Direct peer links\<close>

definition peer_eligible :: "adjacency \<Rightarrow> path_assessment \<Rightarrow> path_assessment" where
  "peer_eligible adj a =
     (let cap0 = (pa_capacity a)\<lparr>cs_access_capacity_mbps := 0, cs_code := SC_Ok\<rparr>;
          cap1 = snd (capacity_add_downlink cap0 (aj_speed_mbps adj));
          cap2 = snd (capacity_add_uplink cap1 (aj_speed_mbps adj))
      in explain (''direct peer link '' @ link_id_string (aj_link adj) @ '' at '' @ u_string (aj_speed_mbps adj) @ '' Mbps'')
           (a\<lparr>pa_verdict := EV_Eligible, pa_code := SC_Ok, pa_capacity := capacity_finalize cap2\<rparr>))"

definition peer_ports_enabled :: "fabric \<Rightarrow> adjacency \<Rightarrow> bool" where
  "peer_ports_enabled f adj =
     (case (find_port f (aj_local_port adj), find_port f (aj_peer_port adj)) of
        (Some p, Some q) \<Rightarrow> pt_admin p = PA_Enabled \<and> pt_admin q = PA_Enabled
      | _ \<Rightarrow> False)"

text \<open>
  The source dereferences the result of \<open>adjacency_between\<close>; it is present whenever the class is
  \<open>DirectPeer\<close> (\<open>direct_peer_adjacency\<close> below), so the empty case is never taken.
\<close>

definition assess_peer :: "eligibility_engine \<Rightarrow> path_constraints \<Rightarrow> path_assessment \<Rightarrow> path_assessment" where
  "assess_peer en c a =
     (if \<not> pc_allow_peer_paths c
      then decide EV_Ineligible SC_Refused ''peer paths are excluded by the query constraints'' a
      else case adjacency_between (en_index en) (pa_from a) (pa_to a) of
        None \<Rightarrow> a
      | Some adj \<Rightarrow>
          if \<not> peer_ports_enabled (en_fabric en) adj
          then decide EV_Ineligible SC_Refused ''peer link endpoint port is administratively disabled'' a
          else if \<not> pa_evidence_required a then peer_eligible adj a
          else case evidence_for (en_fabric en) (aj_link adj) of
                 Inl s \<Rightarrow> decide EV_Indeterminate (st_code s) (''peer link has no usable evidence: '' @ st_detail s) a
               | Inr record \<Rightarrow>
                   if fabric_evidence_freshness (en_fabric en) record (en_controller en) (fab_epoch (en_fabric en)) \<noteq> EF_Fresh
                   then decide EV_Indeterminate SC_Stale ''peer link evidence is historical'' a
                   else if ev_observed record \<noteq> LO_Up
                   then decide EV_Ineligible
                          (if ev_observed record = LO_Down then SC_Refused else SC_Indeterminate)
                          ''peer link is not observed up'' a
                   else peer_eligible adj a)"

section \<open>Leaf pairs through spines\<close>

definition last_by_spine :: "spine_eligibility list \<Rightarrow> (spine_id, spine_eligibility) omap" where
  "last_by_spine entries = foldl (\<lambda>m entry. omap_put (se_spine entry) entry m) [] entries"

record pair_state =
  ps_pair :: "spine_eligibility list"
  ps_indeterminate :: u32
  ps_ineligible :: u32
  ps_examined :: u64
  ps_explanation :: "string list"

definition pair_both :: "spine_eligibility \<Rightarrow> spine_eligibility \<Rightarrow> spine_eligibility" where
  "pair_both other entry =
     other\<lparr>se_capacity_mbps := min (se_capacity_mbps other) (se_capacity_mbps entry),
           se_detail := ''eligible on both sides''\<rparr>"

definition pair_step ::
  "(spine_id, spine_eligibility) omap \<Rightarrow> path_constraints \<Rightarrow> pair_state \<Rightarrow> spine_eligibility \<Rightarrow> pair_state" where
  "pair_step from_map c st entry =
     (case map_of from_map (se_spine entry) of
        None \<Rightarrow> st
      | Some other \<Rightarrow>
          (let st = st\<lparr>ps_examined := ps_examined st + 1\<rparr> in
           if se_verdict other = EV_Eligible \<and> se_verdict entry = EV_Eligible
           then st\<lparr>ps_pair := ps_pair st @ [pair_both other entry]\<rparr>
           else let combined = (if se_verdict other = EV_Eligible then entry else other);
                    st = (if se_verdict combined = EV_Indeterminate
                          then st\<lparr>ps_indeterminate := ps_indeterminate st + 1\<rparr>
                          else st\<lparr>ps_ineligible := ps_ineligible st + 1\<rparr>)
                in if length (ps_explanation st) < unat (pc_max_explanations c)
                   then st\<lparr>ps_explanation := ps_explanation st
                             @ [''spine '' @ describe_spine_entry combined @ '' excluded'']\<rparr>
                   else st))"

definition pair_spines ::
  "spine_eligibility list \<Rightarrow> spine_eligibility list \<Rightarrow> path_constraints \<Rightarrow> pair_state" where
  "pair_spines from_entries to_entries c =
     foldl (pair_step (last_by_spine from_entries) c)
       \<lparr>ps_pair = [], ps_indeterminate = 0, ps_ineligible = 0, ps_examined = 0, ps_explanation = []\<rparr> to_entries"

definition pair_access :: "fabric \<Rightarrow> leaf_id \<Rightarrow> leaf_id \<Rightarrow> capacity_summary \<Rightarrow> capacity_summary" where
  "pair_access f from to cap =
     (case (find_leaf f from, find_leaf f to) of
        (Some a, Some b) \<Rightarrow>
          (case checked_add (lf_access_capacity_mbps a) (lf_access_capacity_mbps b) of
             Some access \<Rightarrow> cap\<lparr>cs_access_capacity_mbps := access\<rparr>
           | None \<Rightarrow> cap\<lparr>cs_code := SC_Overflow, cs_detail := ''access capacity aggregate overflowed''\<rparr>)
      | _ \<Rightarrow> cap)"

definition pair_capacity_step :: "fabric \<Rightarrow> capacity_summary \<Rightarrow> spine_eligibility \<Rightarrow> capacity_summary" where
  "pair_capacity_step f cap entry =
     (let cap = snd (capacity_add_uplink cap (se_capacity_mbps entry)) in
      case find_spine f (se_spine entry) of
        None \<Rightarrow> cap
      | Some spine \<Rightarrow>
          (case checked_add (cs_spine_capacity_mbps cap) (sp_fabric_capacity_mbps spine) of
             Some next \<Rightarrow> cap\<lparr>cs_spine_capacity_mbps := next\<rparr>
           | None \<Rightarrow> cap\<lparr>cs_code := SC_Overflow\<rparr>))"

definition pair_capacity :: "fabric \<Rightarrow> leaf_id \<Rightarrow> leaf_id \<Rightarrow> spine_eligibility list \<Rightarrow> capacity_summary \<Rightarrow> capacity_summary" where
  "pair_capacity f from to pair cap =
     capacity_finalize
       ((foldl (pair_capacity_step f) (pair_access f from to (cap\<lparr>cs_access_capacity_mbps := 0\<rparr>)) pair)
          \<lparr>cs_spine_count := of_nat (length pair)\<rparr>)"

definition required_spines :: "path_constraints \<Rightarrow> u32" where
  "required_spines c = (if pc_min_eligible_spines c = 0 then 1 else pc_min_eligible_spines c)"

text \<open>The accumulated constraint check before the oversubscription comparison.\<close>

definition pair_constraints_met :: "path_constraints \<Rightarrow> path_assessment \<Rightarrow> bool" where
  "pair_constraints_met c a =
     (of_nat (length (pa_eligible_spines a)) \<ge> required_spines c
      \<and> \<not> (pc_require_domain_diversity c \<and> length (pa_covered_domains a) < unat (required_spines c))
      \<and> \<not> (pc_min_total_capacity_mbps c \<noteq> 0
            \<and> cs_uplink_capacity_mbps (pa_capacity a) < pc_min_total_capacity_mbps c))"

definition oversubscription_check :: "path_constraints \<Rightarrow> path_assessment \<Rightarrow> int outcome" where
  "oversubscription_check c a =
     (case pc_max_oversubscription c of
        None \<Rightarrow> Inr 0
      | Some bound \<Rightarrow>
          if cs_uplink_count (pa_capacity a) > 0
          then rational_compare (cs_oversubscription (pa_capacity a)) bound
          else Inr 0)"

definition eligible_class :: "u32 \<Rightarrow> reachability_class \<Rightarrow> reachability_class" where
  "eligible_class eligible_count cls =
     (if cls = RC_LeafLeafSingleSpine \<or> cls = RC_LeafLeafMultiSpine
      then (if eligible_count \<ge> 2 then RC_LeafLeafMultiSpine
            else if eligible_count = 1 then RC_LeafLeafSingleSpine else cls)
      else cls)"

fun explain_pair :: "u32 \<Rightarrow> spine_eligibility list \<Rightarrow> path_assessment \<Rightarrow> path_assessment" where
  "explain_pair bound [] a = a"
| "explain_pair bound (entry # rest) a =
     (if length (pa_explanation a) \<ge> unat bound then a
      else explain_pair bound rest (explain (''spine '' @ describe_spine_entry entry) a))"

definition pair_verdict :: "path_constraints \<Rightarrow> pair_state \<Rightarrow> bool \<Rightarrow> path_assessment \<Rightarrow> path_assessment" where
  "pair_verdict c st met a =
     (let eligible_count = (of_nat (length (pa_eligible_spines a)) :: u32) in
      if \<not> met \<and> eligible_count = 0
      then (if ps_indeterminate st > 0 \<and> ps_ineligible st = 0
            then decide EV_Indeterminate SC_Incomplete
                   ''every shared spine is undecided: required evidence is missing or stale'' a
            else if ps_indeterminate st > 0
            then decide EV_Indeterminate SC_Conflicting ''no shared spine is eligible, and some are undecided'' a
            else decide EV_Ineligible SC_Refused ''no shared spine satisfies the constraints'' a)
      else if \<not> met
      then decide EV_Ineligible SC_Refused ''the eligible spine set does not satisfy the query constraints'' a
      else if ps_indeterminate st > 0
      then decide EV_Indeterminate SC_Incomplete
             (''eligible spines satisfy the constraints, but some shared spines are ''
               @ ''undecided because evidence is missing or stale'') a
      else explain_pair (pc_max_explanations c) (ps_pair st)
             (decide EV_Eligible SC_Ok
                (''generation='' @ u_string (pa_generation a) @ '' digest='' @ digest_short_hex (pa_topology_digest a) 8
                   @ '' epoch='' @ u_string (pa_epoch a)) a))"

definition assess_pair_spines ::
  "eligibility_engine \<Rightarrow> leaf_id \<Rightarrow> leaf_id \<Rightarrow> path_constraints \<Rightarrow> cancellation_token \<Rightarrow> nat
     \<Rightarrow> spine_eligibility list \<Rightarrow> spine_eligibility list \<Rightarrow> path_assessment \<Rightarrow> path_assessment \<times> nat" where
  "assess_pair_spines en from to c token reads from_entries to_entries a =
     (let st = pair_spines from_entries to_entries c;
          pair = ps_pair st;
          covered = std_unique (std_sort (<) (map se_domain pair))
      in case select_spine_sets pair c token reads of (sets, reads') \<Rightarrow>
         let a = a\<lparr>pa_links_examined := ps_examined st, pa_explanation := ps_explanation st,
                   pa_capacity := pair_capacity (en_fabric en) from to pair (pa_capacity a),
                   pa_eligible_spines := std_sort (<) (map se_spine pair), pa_covered_domains := covered,
                   pa_max_domain_loss_tolerance := (if covered = [] then 0 else of_nat (length covered - 1)),
                   pa_spine_sets := sets\<rparr>
         in case oversubscription_check c a of
              Inl s \<Rightarrow> (decide EV_Indeterminate (st_code s) ''oversubscription comparison overflowed'' a, reads')
            | Inr cmp \<Rightarrow>
                (let met = (pair_constraints_met c a \<and> \<not> cmp > 0);
                     a = a\<lparr>pa_cls := eligible_class (of_nat (length (pa_eligible_spines a))) (pa_cls a)\<rparr>
                 in (pair_verdict c st met a, reads')))"

definition assess_leaf_pair ::
  "eligibility_engine \<Rightarrow> leaf_id \<Rightarrow> leaf_id \<Rightarrow> path_constraints \<Rightarrow> cancellation_token \<Rightarrow> nat
     \<Rightarrow> path_assessment outcome \<times> nat" where
  "assess_leaf_pair en from to c token reads =
     (if find_leaf (en_fabric en) from = None
      then (Inl (Status SC_NotFound (''leaf '' @ leaf_id_string from @ '' does not exist'')), reads)
      else if find_leaf (en_fabric en) to = None
      then (Inl (Status SC_NotFound (''leaf '' @ leaf_id_string to @ '' does not exist'')), reads)
      else let a = new_assessment en (leaf_key from) (leaf_key to) c in
           if from = to then (Inr (decide EV_Ineligible SC_Invalid ''a node is not a path to itself'' a), reads)
           else if pa_cls a \<in> {RC_DirectLeafSpine, RC_LeafSpineViaPeer, RC_SpineSpineViaLeaf}
           then (Inr (decide EV_Indeterminate SC_Unsupported
                   (''operational eligibility of a peer-assisted path is outside the modelled scope; use ''
                      @ ''assess_leaf_to_spine for direct leaf-to-spine questions'') a), reads)
           else if pa_cls a = RC_Unreachable
           then (Inr (decide EV_Ineligible SC_NotFound
                   ''no structural path between the endpoints in this generation'' a), reads)
           else if pa_cls a = RC_DirectPeer then (Inr (assess_peer en c a), reads)
           else case evaluate_uplinks en from c token reads of
                  (Inl s, reads1) \<Rightarrow> (Inl s, reads1)
                | (Inr from_entries, reads1) \<Rightarrow>
                    (case evaluate_uplinks en to c token reads1 of
                       (Inl s, reads2) \<Rightarrow> (Inl s, reads2)
                     | (Inr to_entries, reads2) \<Rightarrow>
                         (case assess_pair_spines en from to c token reads2 from_entries to_entries a of
                            (a', reads3) \<Rightarrow> (Inr a', reads3))))"

section \<open>A leaf and a spine\<close>

definition leaf_spine_entry ::
  "eligibility_engine \<Rightarrow> spine_record \<Rightarrow> path_constraints \<Rightarrow> spine_eligibility \<Rightarrow> path_assessment \<Rightarrow> path_assessment" where
  "leaf_spine_entry en spine c result a =
     (let a = a\<lparr>pa_links_examined := pa_links_examined a + 1,
               pa_eligible_spines := pa_eligible_spines a @ [se_spine result],
               pa_covered_domains := pa_covered_domains a @ [se_domain result],
               pa_verdict := se_verdict result, pa_code := se_code result\<rparr>;
          a = (if se_verdict result = EV_Eligible
               then let cap1 = snd (capacity_add_uplink (pa_capacity a) (se_capacity_mbps result));
                        cap2 = snd (capacity_add_downlink cap1 (se_capacity_mbps result));
                        cap3 = (case checked_add (cs_spine_capacity_mbps cap2) (sp_fabric_capacity_mbps spine) of
                                  Some next \<Rightarrow> cap2\<lparr>cs_spine_capacity_mbps := next\<rparr>
                                | None \<Rightarrow> cap2)
                    in a\<lparr>pa_capacity := cap3\<lparr>cs_spine_count := 1\<rparr>,
                         pa_spine_sets := fst (select_spine_sets [result] c idle_token 0)\<rparr>
               else a);
          a = a\<lparr>pa_capacity := capacity_finalize (pa_capacity a)\<rparr>
      in if length (pa_explanation a) < unat (pc_max_explanations c)
         then explain (''spine '' @ describe_spine_entry result) a else a)"

definition assess_leaf_to_spine ::
  "eligibility_engine \<Rightarrow> leaf_id \<Rightarrow> spine_id \<Rightarrow> path_constraints \<Rightarrow> path_assessment outcome" where
  "assess_leaf_to_spine en from to c =
     (case find_leaf (en_fabric en) from of
        None \<Rightarrow> Inl (Status SC_NotFound (''leaf '' @ leaf_id_string from @ '' does not exist''))
      | Some leaf \<Rightarrow>
          (case find_spine (en_fabric en) to of
             None \<Rightarrow> Inl (Status SC_NotFound (''spine '' @ spine_id_string to @ '' does not exist''))
           | Some spine \<Rightarrow>
               (let a = new_assessment en (leaf_key from) (spine_key to) c;
                    a = a\<lparr>pa_capacity := (pa_capacity a)\<lparr>cs_access_capacity_mbps := lf_access_capacity_mbps leaf\<rparr>\<rparr>
                in if pa_cls a \<noteq> RC_DirectLeafSpine
                   then (if pa_cls a = RC_Unreachable
                         then Inr (decide EV_Ineligible SC_NotFound
                                     ''leaf and spine are not adjacent in this generation'' a)
                         else Inr (decide EV_Indeterminate SC_Unsupported
                                     ''only direct leaf-to-spine adjacency is evaluated for eligibility'' a))
                   else case find (\<lambda>u. aj_peer u = spine_key to) (uplinks (en_index en) from) of
                          None \<Rightarrow> Inr (decide EV_Ineligible SC_NotFound
                                         ''the structural index contains no adjacency for this pair'' a)
                        | Some uplink \<Rightarrow>
                            (case evaluate_uplink en from uplink c of
                               Inl s \<Rightarrow> Inl s
                             | Inr result \<Rightarrow> Inr (leaf_spine_entry en spine c result a)))))"

section \<open>Fabric health\<close>

record fabric_health_report =
  hr_health :: fabric_health
  hr_code :: status_code
  hr_summary :: string
  hr_reasons :: "string list"
  hr_leaves_total :: u32
  hr_leaves_serving :: u32
  hr_leaves_isolated :: u32
  hr_leaves_indeterminate :: u32
  hr_spines_total :: u32
  hr_spines_serving :: u32
  hr_spines_failed :: u32
  hr_spines_draining :: u32
  hr_disabled_link_count :: u32
  hr_generation :: topology_generation
  hr_epoch :: epoch
  hr_controller :: controller_incarnation
  hr_topology_digest :: digest

definition new_health_report :: "fabric \<Rightarrow> controller_incarnation \<Rightarrow> epoch \<Rightarrow> fabric_health_report" where
  "new_health_report f controller ep =
     \<lparr>hr_health = FH_Unformed, hr_code = SC_Ok, hr_summary = [], hr_reasons = [],
      hr_leaves_total = of_nat (length (fab_leaves f)), hr_leaves_serving = 0, hr_leaves_isolated = 0,
      hr_leaves_indeterminate = 0, hr_spines_total = of_nat (length (fab_spines f)), hr_spines_serving = 0,
      hr_spines_failed = 0, hr_spines_draining = 0,
      hr_disabled_link_count = count_if (\<lambda>l. lk_admin l = LA_Disabled) (fab_links f) 0,
      hr_generation = fab_generation f, hr_epoch = ep, hr_controller = controller,
      hr_topology_digest = fab_topology_digest f\<rparr>"

definition health_spine :: "fabric_health_report \<Rightarrow> spine_record \<Rightarrow> fabric_health_report" where
  "health_spine r spine =
     (if sp_state spine = NS_Failed then r\<lparr>hr_spines_failed := hr_spines_failed r + 1\<rparr>
      else if sp_state spine = NS_Draining then r\<lparr>hr_spines_draining := hr_spines_draining r + 1\<rparr>
      else if state_is_serving (sp_state spine) then r\<lparr>hr_spines_serving := hr_spines_serving r + 1\<rparr>
      else r)"

definition health_reason :: "string \<Rightarrow> fabric_health_report \<Rightarrow> fabric_health_report" where
  "health_reason line r = (if length (hr_reasons r) < 16 then r\<lparr>hr_reasons := hr_reasons r @ [line]\<rparr> else r)"

definition health_leaf ::
  "u32 \<Rightarrow> leaf_record \<Rightarrow> spine_eligibility list \<Rightarrow> fabric_health_report \<Rightarrow> fabric_health_report" where
  "health_leaf required leaf entries r =
     (let eligible = count_if (\<lambda>e. se_verdict e = EV_Eligible) entries 0;
          indeterminate = count_if (\<lambda>e. se_verdict e = EV_Indeterminate) entries 0
      in if state_is_serving (lf_state leaf) \<and> eligible \<ge> required
         then r\<lparr>hr_leaves_serving := hr_leaves_serving r + 1\<rparr>
         else if \<not> state_is_serving (lf_state leaf)
         then health_reason (leaf_id_string (lf_id leaf) @ '' is in state '' @ node_state_string (lf_state leaf))
                (r\<lparr>hr_leaves_isolated := hr_leaves_isolated r + 1\<rparr>)
         else if eligible = 0 \<and> indeterminate > 0
         then health_reason (leaf_id_string (lf_id leaf) @ '' has no decided uplink: required evidence is missing or stale'')
                (r\<lparr>hr_leaves_indeterminate := hr_leaves_indeterminate r + 1\<rparr>)
         else health_reason (leaf_id_string (lf_id leaf) @ '' has '' @ u_string eligible
                  @ '' eligible spine(s), fewer than the required '' @ u_string required)
                (r\<lparr>hr_leaves_isolated := hr_leaves_isolated r + 1\<rparr>))"

fun health_leaves ::
  "eligibility_engine \<Rightarrow> path_constraints \<Rightarrow> cancellation_token \<Rightarrow> nat \<Rightarrow> leaf_record list \<Rightarrow> fabric_health_report
     \<Rightarrow> fabric_health_report outcome \<times> nat" where
  "health_leaves en c token reads [] r = (Inr r, reads)"
| "health_leaves en c token reads (leaf # rest) r =
     (let poll = ((hr_leaves_serving r + hr_leaves_isolated r + hr_leaves_indeterminate r) mod 16 = 0);
          reads' = (if poll then reads + 1 else reads)
      in if poll \<and> token reads then (Inl (Status SC_Cancelled ''health evaluation was cancelled''), reads')
         else case evaluate_uplinks en (lf_id leaf) c token reads' of
                (Inl s, reads1) \<Rightarrow> (Inl s, reads1)
              | (Inr entries, reads1) \<Rightarrow>
                  health_leaves en c token reads1 rest (health_leaf (required_spines c) leaf entries r))"

definition health_conclusion :: "path_constraints \<Rightarrow> fabric_health_report \<Rightarrow> fabric_health_report" where
  "health_conclusion c r =
     (if hr_leaves_isolated r > 0 \<or> hr_spines_failed r > 0 \<or> hr_spines_draining r > 0
      then r\<lparr>hr_health := FH_Degraded, hr_code := SC_Ok,
             hr_summary := ''fabric is degraded: '' @ u_string (hr_leaves_isolated r) @ '' isolated leaf/leaves, ''
               @ u_string (hr_spines_failed r) @ '' failed spine(s), '' @ u_string (hr_spines_draining r)
               @ '' draining spine(s)''\<rparr>
      else if hr_leaves_indeterminate r > 0
      then r\<lparr>hr_health := FH_Indeterminate, hr_code := SC_Indeterminate,
             hr_summary := ''fabric health cannot be decided: '' @ u_string (hr_leaves_indeterminate r)
               @ '' leaf/leaves depend on evidence that is missing or stale''\<rparr>
      else r\<lparr>hr_health := FH_Operational, hr_code := SC_Ok,
             hr_summary := ''fabric is operational: all '' @ u_string (hr_leaves_serving r)
               @ '' leaves have at least '' @ u_string (required_spines c) @ '' eligible spine(s)''\<rparr>)"

definition health ::
  "eligibility_engine \<Rightarrow> path_constraints \<Rightarrow> controller_incarnation \<Rightarrow> epoch \<Rightarrow> cancellation_token \<Rightarrow> nat
     \<Rightarrow> fabric_health_report outcome \<times> nat" where
  "health en c controller ep token reads =
     (let f = en_fabric en; r = new_health_report f controller ep in
      if fab_state f = FS_Unformed \<or> fab_leaves f = []
      then (Inr (r\<lparr>hr_health := FH_Unformed, hr_summary := ''no topology has been formed''\<rparr>), reads)
      else if fab_state f = FS_Retired
      then (Inr (r\<lparr>hr_health := FH_Retired, hr_summary := ''fabric is retired''\<rparr>), reads)
      else if fab_state f = FS_Draining
      then (Inr (r\<lparr>hr_health := FH_Draining, hr_summary := ''fabric is administratively draining''\<rparr>), reads)
      else case health_leaves en c token reads (fab_leaves f) (foldl health_spine r (fab_spines f)) of
             (Inl s, reads') \<Rightarrow> (Inl s, reads')
           | (Inr r', reads') \<Rightarrow> (Inr (health_conclusion c r'), reads'))"

section \<open>Textual forms\<close>

definition assessment_summary :: "path_assessment \<Rightarrow> string" where
  "assessment_summary a =
     node_key_string (pa_from a) @ '' -> '' @ node_key_string (pa_to a) @ '': ''
       @ eligibility_verdict_string (pa_verdict a) @ '' ('' @ status_code_string (pa_code a) @ '') class=''
       @ reachability_class_string (pa_cls a) @ '' spines='' @ dec_string (length (pa_eligible_spines a))
       @ '' domains='' @ dec_string (length (pa_covered_domains a)) @ '' diversity_tolerance=''
       @ u_string (pa_max_domain_loss_tolerance a)"

definition health_report_string :: "fabric_health_report \<Rightarrow> string" where
  "health_report_string r =
     fabric_health_string (hr_health r) @ '' ('' @ status_code_string (hr_code r) @ ''): '' @ hr_summary r @ [CHR 0x0A]
       @ ''  generation='' @ u_string (hr_generation r) @ '' epoch='' @ u_string (hr_epoch r)
       @ '' digest='' @ digest_short_hex (hr_topology_digest r) 16 @ [CHR 0x0A]
       @ ''  leaves: total='' @ u_string (hr_leaves_total r) @ '' serving='' @ u_string (hr_leaves_serving r)
       @ '' isolated='' @ u_string (hr_leaves_isolated r) @ '' indeterminate='' @ u_string (hr_leaves_indeterminate r) @ [CHR 0x0A]
       @ ''  spines: total='' @ u_string (hr_spines_total r) @ '' serving='' @ u_string (hr_spines_serving r)
       @ '' failed='' @ u_string (hr_spines_failed r) @ '' draining='' @ u_string (hr_spines_draining r)
       @ '' disabled_links='' @ u_string (hr_disabled_link_count r) @ [CHR 0x0A]
       @ concat (map (\<lambda>reason. ''  - '' @ reason @ [CHR 0x0A]) (hr_reasons r))"

section \<open>Pairing the spines of two leaves\<close>

lemma last_by_spine_lookup:
  "map_of (last_by_spine es) s = Some e \<Longrightarrow> e \<in> set es \<and> se_spine e = s"
proof -
  have "map_of (foldl (\<lambda>m entry. omap_put (se_spine entry) entry m) m xs) s = Some e \<Longrightarrow>
      (e \<in> set xs \<and> se_spine e = s) \<or> map_of m s = Some e" for m xs
    by (induction xs arbitrary: m) (fastforce simp: map_of_omap_put split: if_splits)+
  from this [of "[]" es] show "map_of (last_by_spine es) s = Some e \<Longrightarrow> ?thesis"
    by (simp add: last_by_spine_def)
qed

definition pairs_of :: "spine_eligibility list \<Rightarrow> spine_eligibility list \<Rightarrow> spine_eligibility \<Rightarrow> bool" where
  "pairs_of fs ts e \<longleftrightarrow> (\<exists>x\<in>set fs. \<exists>y\<in>set ts. se_spine x = se_spine e \<and> se_spine y = se_spine e
     \<and> se_verdict x = EV_Eligible \<and> se_verdict y = EV_Eligible
     \<and> se_capacity_mbps e = min (se_capacity_mbps x) (se_capacity_mbps y))"

lemma pair_step_pair:
  "ps_pair (pair_step m c st entry) = ps_pair st
     @ (case map_of m (se_spine entry) of
          None \<Rightarrow> []
        | Some x \<Rightarrow> if se_verdict x = EV_Eligible \<and> se_verdict entry = EV_Eligible then [pair_both x entry] else [])"
  by (simp add: pair_step_def Let_def split: option.split)

lemma pair_spines_members:
  assumes "e \<in> set (ps_pair (pair_spines fs ts c))"
  shows "pairs_of fs ts e"
proof -
  have "e \<in> set (ps_pair (foldl (pair_step (last_by_spine fs) c) st xs)) \<Longrightarrow>
      set xs \<subseteq> set ts \<Longrightarrow> e \<in> set (ps_pair st) \<or> pairs_of fs ts e" for st xs
  proof (induction xs arbitrary: st)
    case (Cons x xs)
    have "e \<in> set (ps_pair (pair_step (last_by_spine fs) c st x)) \<Longrightarrow> e \<in> set (ps_pair st) \<or> pairs_of fs ts e"
    proof (cases "map_of (last_by_spine fs) (se_spine x)")
      case (Some z)
      have "pairs_of fs ts (pair_both z x)" if "se_verdict z = EV_Eligible" "se_verdict x = EV_Eligible"
        using last_by_spine_lookup [OF Some] Cons.prems(2) that
        unfolding pairs_of_def by (intro bexI [of _ z] bexI [of _ x]) (simp_all add: pair_both_def)
      with Some show "e \<in> set (ps_pair (pair_step (last_by_spine fs) c st x)) \<Longrightarrow> ?thesis"
        by (auto simp: pair_step_pair split: if_splits)
    qed (simp add: pair_step_pair)
    with Cons show ?case by auto
  qed simp
  from this [OF assms [unfolded pair_spines_def]] show ?thesis by simp
qed

section \<open>What an eligible assessment guarantees\<close>

lemma decide_simps [simp]:
  "pa_verdict (decide v code line a) = v" "pa_code (decide v code line a) = code"
  "pa_eligible_spines (decide v code line a) = pa_eligible_spines a"
  "pa_generation (decide v code line a) = pa_generation a" "pa_epoch (decide v code line a) = pa_epoch a"
  "pa_controller (decide v code line a) = pa_controller a"
  "pa_topology_digest (decide v code line a) = pa_topology_digest a"
  "pa_spine_sets (decide v code line a) = pa_spine_sets a" "pa_cls (decide v code line a) = pa_cls a"
  by (simp_all add: decide_def explain_def)

definition assessment_core :: "path_assessment \<Rightarrow> path_assessment" where
  "assessment_core a = a\<lparr>pa_explanation := []\<rparr>"

lemma assessment_core_fields:
  assumes "assessment_core a = assessment_core b"
  shows "pa_verdict a = pa_verdict b" "pa_eligible_spines a = pa_eligible_spines b"
    "pa_generation a = pa_generation b" "pa_epoch a = pa_epoch b" "pa_controller a = pa_controller b"
    "pa_topology_digest a = pa_topology_digest b" "pa_spine_sets a = pa_spine_sets b"
    "pa_cls a = pa_cls b"
  using assms by (cases a; cases b; simp add: assessment_core_def)+

lemma core_explain_pair: "assessment_core (explain_pair bound es a) = assessment_core a"
  by (induction bound es a rule: explain_pair.induct) (simp_all add: assessment_core_def explain_def)

lemma pair_verdict_eligible:
  "pa_verdict (pair_verdict c st met a) = EV_Eligible \<longleftrightarrow> met \<and> ps_indeterminate st = 0"
  by (simp add: pair_verdict_def Let_def assessment_core_fields(1) [OF core_explain_pair] word_gt_0)

lemma pair_verdict_frame:
  "pa_eligible_spines (pair_verdict c st met a) = pa_eligible_spines a"
  "pa_generation (pair_verdict c st met a) = pa_generation a"
  "pa_epoch (pair_verdict c st met a) = pa_epoch a"
  "pa_controller (pair_verdict c st met a) = pa_controller a"
  "pa_topology_digest (pair_verdict c st met a) = pa_topology_digest a"
  "pa_spine_sets (pair_verdict c st met a) = pa_spine_sets a"
  "pa_cls (pair_verdict c st met a) = pa_cls a"
  by (simp_all add: pair_verdict_def Let_def assessment_core_fields [OF core_explain_pair])

definition shared_spine :: "eligibility_engine \<Rightarrow> leaf_id \<Rightarrow> leaf_id \<Rightarrow> path_constraints \<Rightarrow> spine_id \<Rightarrow> bool" where
  "shared_spine en i j c s \<longleftrightarrow>
     (\<exists>u\<in>set (uplinks (en_index en) i). aj_peer u = spine_key s \<and> uplink_usable en i u c)
     \<and> (\<exists>u\<in>set (uplinks (en_index en) j). aj_peer u = spine_key s \<and> uplink_usable en j u c)"

definition peer_usable :: "eligibility_engine \<Rightarrow> leaf_id \<Rightarrow> leaf_id \<Rightarrow> path_constraints \<Rightarrow> bool" where
  "peer_usable en i j c \<longleftrightarrow> pc_allow_peer_paths c
     \<and> (\<exists>adj. adjacency_between (en_index en) (leaf_key i) (leaf_key j) = Some adj
          \<and> peer_ports_enabled (en_fabric en) adj
          \<and> (requires_evidence en c \<longrightarrow> (\<exists>r. evidence_for (en_fabric en) (aj_link adj) = Inr r
               \<and> fabric_evidence_freshness (en_fabric en) r (en_controller en) (fab_epoch (en_fabric en)) = EF_Fresh
               \<and> ev_observed r = LO_Up)))"

lemma uplink_entries_eligible:
  assumes "x \<in> set (uplink_entries en i c)" and "se_verdict x = EV_Eligible"
  shows "\<exists>u\<in>set (uplinks (en_index en) i). aj_peer u = spine_key (se_spine x) \<and> uplink_usable en i u c"
proof -
  obtain u where u: "u \<in> set (uplinks (en_index en) i)" "nk_tier (aj_peer u) = Spine" "x = uplink_entry en i c u"
    using assms(1) by (auto simp: uplink_entries_def)
  then have "aj_peer u = spine_key (se_spine x)" by (cases "aj_peer u") (simp add: uplink_entry(2))
  with u assms(2) show ?thesis using uplink_entry(4) [of en i c u] by blast
qed

lemma paired_shared:
  "pairs_of (uplink_entries en i c) (uplink_entries en j c) e \<Longrightarrow> shared_spine en i j c (se_spine e)"
  unfolding pairs_of_def shared_spine_def using uplink_entries_eligible by metis

lemma required_pos: "required_spines c \<noteq> 0"
  by (simp add: required_spines_def)

lemma assess_pair_spines_eligible:
  assumes "pa_verdict (fst (assess_pair_spines en i j c token reads (uplink_entries en i c) (uplink_entries en j c) a0)) = EV_Eligible"
  defines "a \<equiv> fst (assess_pair_spines en i j c token reads (uplink_entries en i c) (uplink_entries en j c) a0)"
  shows "pa_eligible_spines a \<noteq> [] \<and> required_spines c \<le> of_nat (length (pa_eligible_spines a))
    \<and> (\<forall>s\<in>set (pa_eligible_spines a). shared_spine en i j c s)"
proof -
  let ?st = "pair_spines (uplink_entries en i c) (uplink_entries en j c) c"
  have sp: "pa_eligible_spines a = std_sort (<) (map se_spine (ps_pair ?st))"
    unfolding a_def assess_pair_spines_def Let_def
    by (simp add: pair_verdict_frame split: prod.split sum.split)
  have met: "required_spines c \<le> of_nat (length (pa_eligible_spines a))"
    using assms(1) unfolding sp assess_pair_spines_def Let_def
    by (auto simp: pair_verdict_eligible pair_constraints_met_def split: prod.splits sum.splits)
  moreover have "pa_eligible_spines a \<noteq> []"
    using met required_pos [of c] by (auto simp: word_le_nat_alt unat_eq_zero)
  moreover have "shared_spine en i j c s" if "s \<in> set (pa_eligible_spines a)" for s
    using that paired_shared pair_spines_members unfolding sp set_std_sort set_map by fast
  ultimately show ?thesis by blast
qed

lemma direct_peer_adjacency:
  "structural_class ix a b = RC_DirectPeer \<Longrightarrow> \<exists>adj. adjacency_between ix a b = Some adj"
  by (auto simp: structural_class_def Let_def split: option.splits if_splits)

lemma assess_peer_eligible:
  assumes "pa_verdict (assess_peer en c (new_assessment en (leaf_key i) (leaf_key j) c)) = EV_Eligible"
  shows "peer_usable en i j c"
  using assms unfolding assess_peer_def peer_usable_def
  by (auto simp: new_assessment_def split: if_splits option.splits sum.splits)

text \<open>The coordinate an assessment was computed at.\<close>

definition at_coordinate :: "eligibility_engine \<Rightarrow> path_assessment \<Rightarrow> bool" where
  "at_coordinate en a \<longleftrightarrow> pa_generation a = fab_generation (en_fabric en) \<and> pa_epoch a = fab_epoch (en_fabric en)
     \<and> pa_controller a = en_controller en \<and> pa_topology_digest a = fab_topology_digest (en_fabric en)"

lemma coordinate_new [simp]: "at_coordinate en (new_assessment en x y c)"
  by (simp add: at_coordinate_def new_assessment_def)

lemma coordinate_decide [simp]: "at_coordinate en (decide v code line a) = at_coordinate en a"
  by (simp add: at_coordinate_def)

lemma coordinate_peer: "at_coordinate en a \<Longrightarrow> at_coordinate en (assess_peer en c a)"
  by (auto simp: assess_peer_def peer_eligible_def Let_def explain_def split: option.split sum.split)
    (auto simp: at_coordinate_def)

lemma coordinate_pair:
  "at_coordinate en a \<Longrightarrow> at_coordinate en (fst (assess_pair_spines en i j c token reads fs ts a))"
  by (simp add: assess_pair_spines_def Let_def at_coordinate_def pair_verdict_frame split: prod.split sum.split)

lemma assess_leaf_pair_sound:
  assumes "fst (assess_leaf_pair en i j c token reads) = Inr a"
  shows "at_coordinate en a" and "pa_verdict a = EV_Eligible \<Longrightarrow> i \<noteq> j \<and> (peer_usable en i j c
    \<or> (pa_eligible_spines a \<noteq> [] \<and> required_spines c \<le> of_nat (length (pa_eligible_spines a))
        \<and> (\<forall>s\<in>set (pa_eligible_spines a). shared_spine en i j c s)))"
proof -
  let ?a0 = "new_assessment en (leaf_key i) (leaf_key j) c"
  consider (decided) v code line where "a = decide v code line ?a0" "v \<noteq> EV_Eligible"
    | (peer) "a = assess_peer en c ?a0" "i \<noteq> j"
    | (spines) reads' where "i \<noteq> j" "a = fst (assess_pair_spines en i j c token reads' (uplink_entries en i c) (uplink_entries en j c) ?a0)"
  proof -
    consider (a) "\<exists>v code line. a = decide v code line ?a0 \<and> v \<noteq> EV_Eligible"
      | (b) "a = assess_peer en c ?a0 \<and> i \<noteq> j"
      | (c) "i \<noteq> j" "\<exists>fs ts r1 r2. evaluate_uplinks en i c token reads = (Inr fs, r1)
            \<and> evaluate_uplinks en j c token r1 = (Inr ts, r2)
            \<and> a = fst (assess_pair_spines en i j c token r2 fs ts ?a0)"
      using assms unfolding assess_leaf_pair_def Let_def
      by (auto split: if_splits prod.splits sum.splits) blast+
    then show thesis
    proof cases
      case c
      then show thesis using that(3) evaluate_uplinks_ok by (metis fst_conv)
    qed (use that in blast)+
  qed
  then show "at_coordinate en a" "pa_verdict a = EV_Eligible \<Longrightarrow> i \<noteq> j \<and> (peer_usable en i j c
    \<or> (pa_eligible_spines a \<noteq> [] \<and> required_spines c \<le> of_nat (length (pa_eligible_spines a))
        \<and> (\<forall>s\<in>set (pa_eligible_spines a). shared_spine en i j c s)))"
    using coordinate_peer [OF coordinate_new] coordinate_pair [OF coordinate_new]
      assess_peer_eligible assess_pair_spines_eligible
    by (cases; simp)+
qed

text \<open>
  When two leaves are joined by spines only and no oversubscription bound is asked for, the verdict
  depends on the paired spines alone: enough of them, in enough domains and with enough capacity,
  and none left undecided. The enumeration of spine sets has no part in it.
\<close>

lemma assess_spine_pair:
  assumes "find_leaf (en_fabric en) i \<noteq> None" and "find_leaf (en_fabric en) j \<noteq> None" and "i \<noteq> j"
    and "structural_class (en_index en) (leaf_key i) (leaf_key j) \<in> {RC_LeafLeafSingleSpine, RC_LeafLeafMultiSpine}"
    and "evaluate_uplinks en i c token reads = (Inr fs, r1)" and "evaluate_uplinks en j c token r1 = (Inr ts, r2)"
    and "pc_max_oversubscription c = None" and "pc_min_total_capacity_mbps c = 0"
  defines "st \<equiv> pair_spines fs ts c"
  obtains a where "fst (assess_leaf_pair en i j c token reads) = Inr a"
    and "pa_spine_sets a = fst (select_spine_sets (ps_pair st) c token r2)"
    and "pa_eligible_spines a = std_sort (<) (map se_spine (ps_pair st))"
    and "pa_cls a = eligible_class (of_nat (length (ps_pair st))) (structural_class (en_index en) (leaf_key i) (leaf_key j))"
    and "pa_verdict a = EV_Eligible \<longleftrightarrow> of_nat (length (ps_pair st)) \<ge> required_spines c
       \<and> \<not> (pc_require_domain_diversity c
            \<and> length (std_unique (std_sort (<) (map se_domain (ps_pair st)))) < unat (required_spines c))
       \<and> ps_indeterminate st = 0"
proof -
  let ?a = "fst (assess_pair_spines en i j c token r2 fs ts (new_assessment en (leaf_key i) (leaf_key j) c))"
  have cls: "pa_cls (new_assessment en (leaf_key i) (leaf_key j) c) = structural_class (en_index en) (leaf_key i) (leaf_key j)"
    by (simp add: new_assessment_def)
  have "fst (assess_leaf_pair en i j c token reads) = Inr ?a"
    using assms(1-6) unfolding assess_leaf_pair_def Let_def cls by (auto split: prod.split)
  moreover have "pa_spine_sets ?a = fst (select_spine_sets (ps_pair st) c token r2)"
    unfolding assess_pair_spines_def Let_def st_def oversubscription_check_def assms(7)
    by (simp add: pair_verdict_frame(6) split: prod.split)
  moreover have "pa_eligible_spines ?a = std_sort (<) (map se_spine (ps_pair st))"
    unfolding assess_pair_spines_def Let_def st_def oversubscription_check_def assms(7)
    by (simp add: pair_verdict_frame(1) split: prod.split)
  moreover have "pa_cls ?a = eligible_class (of_nat (length (ps_pair st)))
      (structural_class (en_index en) (leaf_key i) (leaf_key j))"
    unfolding assess_pair_spines_def Let_def st_def oversubscription_check_def assms(7)
    by (simp add: pair_verdict_frame(7) cls split: prod.split)
  moreover have "pa_verdict ?a = EV_Eligible \<longleftrightarrow> of_nat (length (ps_pair st)) \<ge> required_spines c
       \<and> \<not> (pc_require_domain_diversity c
            \<and> length (std_unique (std_sort (<) (map se_domain (ps_pair st)))) < unat (required_spines c))
       \<and> ps_indeterminate st = 0"
    unfolding assess_pair_spines_def Let_def st_def oversubscription_check_def assms(7)
    by (auto simp: pair_verdict_eligible pair_constraints_met_def assms(8) split: prod.split)
  ultimately show thesis using that by blast
qed

section \<open>Restarts: without fresh evidence nothing is eligible\<close>

lemma stale_not_usable:
  assumes "requires_evidence en c" and "\<forall>e\<in>set (fab_evidence (en_fabric en)). ev_observer e \<noteq> en_controller en"
  shows "\<not> uplink_usable en i u c" and "\<not> peer_usable en i j c"
proof -
  have "fabric_evidence_freshness (en_fabric en) r (en_controller en) e \<noteq> EF_Fresh"
    if "evidence_for (en_fabric en) l = Inr r" for r l e
    using that assms(2) evidence_for_unique_best [of "en_fabric en" l r] by (auto simp: fresh_iff)
  then show "\<not> uplink_usable en i u c" "\<not> peer_usable en i j c"
    using assms(1) by (auto simp: uplink_usable_def evidence_admits_def peer_usable_def split: sum.splits)
qed

lemma stale_never_eligible:
  assumes "requires_evidence en c" and "\<forall>e\<in>set (fab_evidence (en_fabric en)). ev_observer e \<noteq> en_controller en"
    and "fst (assess_leaf_pair en i j c token reads) = Inr a"
  shows "pa_verdict a \<noteq> EV_Eligible"
proof
  assume "pa_verdict a = EV_Eligible"
  from assess_leaf_pair_sound(2) [OF assms(3) this] stale_not_usable [OF assms(1,2)] obtain s
    where "shared_spine en i j c s" by (cases "pa_eligible_spines a") auto
  then show False using stale_not_usable(1) [OF assms(1,2)] by (auto simp: shared_spine_def)
qed

section \<open>What the health classification counts\<close>

definition leaf_serves :: "eligibility_engine \<Rightarrow> path_constraints \<Rightarrow> leaf_record \<Rightarrow> bool" where
  "leaf_serves en c l \<longleftrightarrow> state_is_serving (lf_state l)
     \<and> required_spines c \<le> count_if (\<lambda>e. se_verdict e = EV_Eligible) (uplink_entries en (lf_id l) c) 0"

definition leaf_undecided :: "eligibility_engine \<Rightarrow> path_constraints \<Rightarrow> leaf_record \<Rightarrow> bool" where
  "leaf_undecided en c l \<longleftrightarrow> state_is_serving (lf_state l) \<and> \<not> leaf_serves en c l
     \<and> count_if (\<lambda>e. se_verdict e = EV_Eligible) (uplink_entries en (lf_id l) c) 0 = 0
     \<and> count_if (\<lambda>e. se_verdict e = EV_Indeterminate) (uplink_entries en (lf_id l) c) 0 > 0"

definition leaf_isolated :: "eligibility_engine \<Rightarrow> path_constraints \<Rightarrow> leaf_record \<Rightarrow> bool" where
  "leaf_isolated en c l \<longleftrightarrow> \<not> leaf_serves en c l \<and> \<not> leaf_undecided en c l"

definition tally :: "('a \<Rightarrow> bool) \<Rightarrow> 'a list \<Rightarrow> u32" where
  "tally p xs = of_nat (length (filter p xs))"

lemma tally_simps [simp]: "tally p [] = 0" "tally p (x # xs) = (if p x then 1 else 0) + tally p xs"
  by (simp_all add: tally_def)

lemma tally_zero: "length xs < 2 ^ 32 \<Longrightarrow> tally p xs = 0 \<longleftrightarrow> (\<forall>x\<in>set xs. \<not> p x)"
proof -
  assume "length xs < 2 ^ 32"
  then have "length (filter p xs) < 2 ^ 32" using le_less_trans [OF length_filter_le] by blast
  then have "unat (tally p xs) = length (filter p xs)" by (simp add: tally_def unat_of_nat)
  then have "tally p xs = 0 \<longleftrightarrow> filter p xs = []" by (metis length_0_conv unat_eq_zero)
  then show ?thesis by (simp add: filter_empty_conv)
qed

text \<open>The counters of a report that the leaf loop advances, and those it leaves alone.\<close>

definition leaf_counts :: "fabric_health_report \<Rightarrow> u32 \<times> u32 \<times> u32" where
  "leaf_counts r = (hr_leaves_serving r, hr_leaves_isolated r, hr_leaves_indeterminate r)"

definition spine_counts :: "fabric_health_report \<Rightarrow> u32 \<times> u32 \<times> u32" where
  "spine_counts r = (hr_spines_failed r, hr_spines_draining r, hr_leaves_total r)"

lemma health_reason_counts [simp]:
  "leaf_counts (health_reason line r) = leaf_counts r" "spine_counts (health_reason line r) = spine_counts r"
  by (simp_all add: health_reason_def leaf_counts_def spine_counts_def)

lemma health_leaf_counts:
  "leaf_counts (health_leaf (required_spines c) l (uplink_entries en (lf_id l) c) r)
     = (hr_leaves_serving r + (if leaf_serves en c l then 1 else 0),
        hr_leaves_isolated r + (if leaf_isolated en c l then 1 else 0),
        hr_leaves_indeterminate r + (if leaf_undecided en c l then 1 else 0))"
  "spine_counts (health_leaf (required_spines c) l (uplink_entries en (lf_id l) c) r) = spine_counts r"
proof -
  let ?e = "count_if (\<lambda>e. se_verdict e = EV_Eligible) (uplink_entries en (lf_id l) c) 0"
  and ?i = "count_if (\<lambda>e. se_verdict e = EV_Indeterminate) (uplink_entries en (lf_id l) c) 0"
  show "leaf_counts (health_leaf (required_spines c) l (uplink_entries en (lf_id l) c) r)
     = (hr_leaves_serving r + (if leaf_serves en c l then 1 else 0),
        hr_leaves_isolated r + (if leaf_isolated en c l then 1 else 0),
        hr_leaves_indeterminate r + (if leaf_undecided en c l then 1 else 0))"
    unfolding health_leaf_def Let_def leaf_isolated_def leaf_undecided_def leaf_serves_def
    by (cases "state_is_serving (lf_state l)"; cases "?e \<ge> required_spines c"; cases "?e = 0 \<and> ?i > 0")
      (simp_all, simp_all add: leaf_counts_def)
  show "spine_counts (health_leaf (required_spines c) l (uplink_entries en (lf_id l) c) r) = spine_counts r"
    unfolding health_leaf_def Let_def by (simp add: spine_counts_def [of "_ \<lparr>hr_leaves_serving := _\<rparr>"]
        spine_counts_def [of "_ \<lparr>hr_leaves_isolated := _\<rparr>"] spine_counts_def [of "_ \<lparr>hr_leaves_indeterminate := _\<rparr>"]
        spine_counts_def [of r])
qed

lemma health_leaves_counts:
  assumes "fst (health_leaves en c token reads ls r) = Inr r'"
  shows "leaf_counts r' = (hr_leaves_serving r + tally (leaf_serves en c) ls,
      hr_leaves_isolated r + tally (leaf_isolated en c) ls,
      hr_leaves_indeterminate r + tally (leaf_undecided en c) ls)
    \<and> spine_counts r' = spine_counts r"
  using assms
proof (induction ls arbitrary: reads r)
  case (Cons l ls)
  obtain es k1 k2 where ev: "evaluate_uplinks en (lf_id l) c token k1 = (Inr es, k2)"
    and rec: "fst (health_leaves en c token k2 ls (health_leaf (required_spines c) l es r)) = Inr r'"
    using Cons.prems by (auto simp: Let_def split: if_splits prod.splits sum.splits)
  have es: "es = uplink_entries en (lf_id l) c" using evaluate_uplinks_ok ev by (metis fst_conv)
  show ?case
    using Cons.IH [OF rec [unfolded es]] health_leaf_counts [where en = en and c = c and l = l and r = r]
    by (simp add: leaf_counts_def)
qed (simp add: leaf_counts_def)

lemma health_spine_counts:
  "spine_counts (foldl health_spine r ss)
     = (hr_spines_failed r + tally (\<lambda>s. sp_state s = NS_Failed) ss,
        hr_spines_draining r + tally (\<lambda>s. sp_state s = NS_Draining) ss, hr_leaves_total r)
   \<and> leaf_counts (foldl health_spine r ss) = leaf_counts r"
  by (induction ss arbitrary: r) (auto simp: health_spine_def spine_counts_def leaf_counts_def)

lemma tally_partition:
  "tally (leaf_serves en c) ls + tally (leaf_isolated en c) ls + tally (leaf_undecided en c) ls = of_nat (length ls)"
proof (induction ls)
  case (Cons l ls)
  consider "leaf_serves en c l" "\<not> leaf_isolated en c l" "\<not> leaf_undecided en c l"
    | "\<not> leaf_serves en c l" "leaf_isolated en c l" "\<not> leaf_undecided en c l"
    | "\<not> leaf_serves en c l" "\<not> leaf_isolated en c l" "leaf_undecided en c l"
    by (auto simp: leaf_isolated_def leaf_undecided_def)
  then show ?case using Cons by cases (simp_all flip: Cons add: algebra_simps)
qed simp

lemma health_exact:
  assumes "fst (health en c ctl ep token reads) = Inr r" and "fab_leaves (en_fabric en) \<noteq> []"
    and "fab_state (en_fabric en) \<in> {FS_Forming, FS_Operational}"
    and "length (fab_leaves (en_fabric en)) < 2 ^ 32" and "length (fab_spines (en_fabric en)) < 2 ^ 32"
  shows "hr_health r = (if (\<exists>l\<in>set (fab_leaves (en_fabric en)). leaf_isolated en c l)
        \<or> (\<exists>s\<in>set (fab_spines (en_fabric en)). sp_state s \<in> {NS_Failed, NS_Draining}) then FH_Degraded
      else if \<exists>l\<in>set (fab_leaves (en_fabric en)). leaf_undecided en c l then FH_Indeterminate
      else FH_Operational)"
    and "hr_leaves_serving r + hr_leaves_isolated r + hr_leaves_indeterminate r = hr_leaves_total r"
proof -
  let ?f = "en_fabric en" and ?r0 = "new_health_report (en_fabric en) ctl ep"
  obtain r1 where hl: "fst (health_leaves en c token reads (fab_leaves ?f) (foldl health_spine ?r0 (fab_spines ?f))) = Inr r1"
    and r: "r = health_conclusion c r1"
    using assms(1-3) by (fastforce simp: health_def Let_def split: if_splits prod.splits sum.splits)
  have cnt: "hr_leaves_serving r1 = tally (leaf_serves en c) (fab_leaves ?f)"
    "hr_leaves_isolated r1 = tally (leaf_isolated en c) (fab_leaves ?f)"
    "hr_leaves_indeterminate r1 = tally (leaf_undecided en c) (fab_leaves ?f)"
    "hr_spines_failed r1 = tally (\<lambda>s. sp_state s = NS_Failed) (fab_spines ?f)"
    "hr_spines_draining r1 = tally (\<lambda>s. sp_state s = NS_Draining) (fab_spines ?f)"
    "hr_leaves_total r1 = of_nat (length (fab_leaves ?f))"
    using health_leaves_counts [OF hl] health_spine_counts [of ?r0 "fab_spines ?f"]
    by (simp_all add: leaf_counts_def spine_counts_def new_health_report_def)
  show "hr_leaves_serving r + hr_leaves_isolated r + hr_leaves_indeterminate r = hr_leaves_total r"
    using tally_partition [of en c "fab_leaves ?f"] by (simp add: r health_conclusion_def cnt)
  show "hr_health r = (if (\<exists>l\<in>set (fab_leaves ?f). leaf_isolated en c l)
        \<or> (\<exists>s\<in>set (fab_spines ?f). sp_state s \<in> {NS_Failed, NS_Draining}) then FH_Degraded
      else if \<exists>l\<in>set (fab_leaves ?f). leaf_undecided en c l then FH_Indeterminate else FH_Operational)"
    using tally_zero [OF assms(4), of "leaf_isolated en c"] tally_zero [OF assms(4), of "leaf_undecided en c"]
      tally_zero [OF assms(5), of "\<lambda>s. sp_state s = NS_Failed"]
      tally_zero [OF assms(5), of "\<lambda>s. sp_state s = NS_Draining"]
    unfolding r health_conclusion_def cnt word_gt_0 by auto
qed

lemma health_leaves_idle: "\<exists>r' k. health_leaves en c idle_token reads ls r = (Inr r', k)"
proof (induction ls arbitrary: reads r)
  case (Cons l ls)
  let ?reads = "if (hr_leaves_serving r + hr_leaves_isolated r + hr_leaves_indeterminate r) mod 16 = 0 then reads + 1 else reads"
  obtain k where "evaluate_uplinks en (lf_id l) c idle_token ?reads = (Inr (uplink_entries en (lf_id l) c), k)"
    using idle_uplinks by blast
  with Cons show ?case by (simp add: Let_def) (simp add: idle_token_def)
qed simp

lemma health_idle: "\<exists>r. fst (health en c ctl ep idle_token reads) = Inr r"
  using health_leaves_idle [of en c reads "fab_leaves (en_fabric en)"
      "foldl health_spine (new_health_report (en_fabric en) ctl ep) (fab_spines (en_fabric en))"]
  by (auto simp: health_def Let_def)

end
