(* ===== verification/SLF_Governance.thy ===== *)
theory SLF_Governance
  imports SLF_Assess
begin

text \<open>
  Authority and commands (\<open>include/slf/governance.hpp\<close>, \<open>src/governance.cpp\<close>): tokens, path
  authorities, their validation against the live coordinate, and the wire encodings of commands,
  results and path authorities.

  C++ enumerations with a fixed underlying type can hold values no enumerator names. Where a decoder
  casts a byte without checking its range (the tiers and the admin state of the link in an \<open>AddLink\<close>
  command, the status code of a result) the model keeps the underlying integer.
\<close>

section \<open>Tokens\<close>

record authority_token =
  tk_controller :: controller_incarnation
  tk_epoch :: epoch
  tk_generation :: topology_generation
  tk_lease :: lease_id
  tk_topology_digest :: digest
  tk_issued_at_unix_ms :: u64
  tk_expires_at_unix_ms :: u64

definition expired_at :: "authority_token \<Rightarrow> u64 \<Rightarrow> bool" where
  "expired_at t now = (now \<ge> tk_expires_at_unix_ms t)"

record authority_context =
  cx_controller :: controller_incarnation
  cx_epoch :: epoch
  cx_generation :: topology_generation
  cx_topology_digest :: digest
  cx_active_lease :: "lease_id option"
  cx_now_unix_ms :: u64

record authority_check =
  ck_code :: status_code
  ck_detail :: string

definition check_ok :: authority_check where
  "check_ok = \<lparr>ck_code = SC_Ok, ck_detail = []\<rparr>"

record authority_lease =
  al_token :: authority_token
  al_requester :: string
  al_lease :: lease_id

definition lease_ttl_ms :: "authority_lease \<Rightarrow> u64 \<Rightarrow> u64" where
  "lease_ttl_ms l now =
     (if tk_expires_at_unix_ms (al_token l) > now then tk_expires_at_unix_ms (al_token l) - now else 0)"

definition validate_token :: "authority_token \<Rightarrow> authority_context \<Rightarrow> authority_check" where
  "validate_token t cx =
     (if incarnation_is_zero (tk_controller t) \<or> tk_lease t = 0
      then \<lparr>ck_code = SC_Refused, ck_detail = ''authority token is not a minted grant''\<rparr>
      else if tk_controller t \<noteq> cx_controller cx
      then \<lparr>ck_code = SC_Fenced, ck_detail = ''authority was minted by controller incarnation ''
              @ incarnation_string (tk_controller t) @ '' but the live incarnation is ''
              @ incarnation_string (cx_controller cx)\<rparr>
      else if tk_epoch t \<noteq> cx_epoch cx
      then \<lparr>ck_code = SC_Stale, ck_detail = ''authority epoch '' @ u_string (tk_epoch t)
              @ '' is not the live epoch '' @ u_string (cx_epoch cx)\<rparr>
      else if tk_generation t \<noteq> cx_generation cx
      then \<lparr>ck_code = SC_Stale, ck_detail = ''authority generation '' @ u_string (tk_generation t)
              @ '' is not the live generation '' @ u_string (cx_generation cx)\<rparr>
      else if tk_topology_digest t \<noteq> cx_topology_digest cx
      then \<lparr>ck_code = SC_Conflicting, ck_detail = ''authority was minted for topology digest ''
              @ digest_short_hex (tk_topology_digest t) 8 @ '' but the live digest is ''
              @ digest_short_hex (cx_topology_digest cx) 8\<rparr>
      else if cx_active_lease cx \<noteq> Some (tk_lease t)
      then \<lparr>ck_code = SC_Refused, ck_detail = ''the lease that minted this authority is no longer active''\<rparr>
      else if expired_at t (cx_now_unix_ms cx)
      then \<lparr>ck_code = SC_DeadlineExpired, ck_detail = ''authority lease expired at ''
              @ u_string (tk_expires_at_unix_ms t) @ '' ms (now '' @ u_string (cx_now_unix_ms cx) @ '' ms)''\<rparr>
      else check_ok)"

section \<open>Path authorities\<close>

record path_authority =
  au_controller :: controller_incarnation
  au_epoch :: epoch
  au_generation :: topology_generation
  au_topology_digest :: digest
  au_lease :: lease_id
  au_from :: node_key
  au_to :: node_key
  au_cls :: reachability_class
  au_verdict :: eligibility_verdict
  au_spines :: "spine_id list"
  au_issued_at_unix_ms :: u64
  au_expires_at_unix_ms :: u64
  au_authority_digest :: digest

fun reachability_class_u8 :: "reachability_class \<Rightarrow> u8" where
  "reachability_class_u8 RC_SameNode = 0"
| "reachability_class_u8 RC_DirectLeafSpine = 1"
| "reachability_class_u8 RC_DirectPeer = 2"
| "reachability_class_u8 RC_LeafSpineViaPeer = 3"
| "reachability_class_u8 RC_LeafLeafSingleSpine = 4"
| "reachability_class_u8 RC_LeafLeafMultiSpine = 5"
| "reachability_class_u8 RC_SpineSpineViaLeaf = 6"
| "reachability_class_u8 RC_Unreachable = 7"
| "reachability_class_u8 RC_Indeterminate = 8"

definition reachability_class_of_u8 :: "u8 \<Rightarrow> reachability_class" where
  "reachability_class_of_u8 v =
     (if v = 0 then RC_SameNode else if v = 1 then RC_DirectLeafSpine else if v = 2 then RC_DirectPeer
      else if v = 3 then RC_LeafSpineViaPeer else if v = 4 then RC_LeafLeafSingleSpine
      else if v = 5 then RC_LeafLeafMultiSpine else if v = 6 then RC_SpineSpineViaLeaf
      else if v = 7 then RC_Unreachable else RC_Indeterminate)"

fun verdict_u8 :: "eligibility_verdict \<Rightarrow> u8" where
  "verdict_u8 EV_Eligible = 0"
| "verdict_u8 EV_Ineligible = 1"
| "verdict_u8 EV_Indeterminate = 2"

definition verdict_of_u8 :: "u8 \<Rightarrow> eligibility_verdict" where
  "verdict_of_u8 v = (if v = 0 then EV_Eligible else if v = 1 then EV_Ineligible else EV_Indeterminate)"

definition kPathAuthorityDomain :: string where
  "kPathAuthorityDomain = ''slf.path_authority.v1''"

definition authority_head :: "path_authority \<Rightarrow> sha256 \<Rightarrow> sha256" where
  "authority_head au s =
     fold (\<lambda>f t. f t)
       [add_string kPathAuthorityDomain, add_u64 (inc_hi (au_controller au)), add_u64 (inc_lo (au_controller au)),
        add_u64 (au_epoch au), add_u64 (au_generation au), add_bytes (au_topology_digest au), add_u64 (au_lease au),
        add_u8 (tier_u8 (nk_tier (au_from au))), add_u32 (nk_index (au_from au)),
        add_u8 (tier_u8 (nk_tier (au_to au))), add_u32 (nk_index (au_to au)),
        add_u8 (reachability_class_u8 (au_cls au)), add_u8 (verdict_u8 (au_verdict au)),
        add_u32 (of_nat (length (au_spines au)))] s"

definition compute_path_authority_digest :: "path_authority \<Rightarrow> digest" where
  "compute_path_authority_digest au =
     sha_finish
       (add_u64 (au_expires_at_unix_ms au)
         (add_u64 (au_issued_at_unix_ms au) (fold add_u32 (au_spines au) (authority_head au sha256_reset))))"

definition mint_path_authority ::
  "path_assessment \<Rightarrow> authority_token \<Rightarrow> u64 \<Rightarrow> u64 \<Rightarrow> path_authority outcome" where
  "mint_path_authority a t now ttl_ms =
     (if pa_verdict a \<noteq> EV_Eligible
      then Inl (Status (if pa_verdict a = EV_Indeterminate then SC_Indeterminate else SC_Refused)
                  ''refusing to mint path authority for a path that is not proven eligible'')
      else if pa_eligible_spines a = []
      then Inl (Status SC_Indeterminate ''assessment carries no eligible spine set'')
      else if pa_controller a \<noteq> tk_controller t \<or> pa_epoch a \<noteq> tk_epoch t \<or> pa_generation a \<noteq> tk_generation t
      then Inl (Status SC_Stale ''assessment was computed at a different authority coordinate'')
      else if pa_topology_digest a \<noteq> tk_topology_digest t
      then Inl (Status SC_Conflicting ''assessment topology digest does not match the authority token'')
      else let au = \<lparr>au_controller = tk_controller t, au_epoch = tk_epoch t, au_generation = tk_generation t,
                     au_topology_digest = tk_topology_digest t, au_lease = tk_lease t, au_from = pa_from a,
                     au_to = pa_to a, au_cls = pa_cls a, au_verdict = pa_verdict a,
                     au_spines = pa_eligible_spines a, au_issued_at_unix_ms = now,
                     au_expires_at_unix_ms = (if ttl_ms = 0 then tk_expires_at_unix_ms t else now + ttl_ms),
                     au_authority_digest = zero_digest\<rparr>
           in Inr (au\<lparr>au_authority_digest := compute_path_authority_digest au\<rparr>))"

definition validate_path_authority :: "path_authority \<Rightarrow> authority_context \<Rightarrow> authority_check" where
  "validate_path_authority au cx =
     (if compute_path_authority_digest au \<noteq> au_authority_digest au
      then \<lparr>ck_code = SC_IntegrityError, ck_detail = ''path authority body does not match its digest''\<rparr>
      else if au_controller au \<noteq> cx_controller cx
      then \<lparr>ck_code = SC_Fenced, ck_detail = ''path authority was minted by a previous controller incarnation''\<rparr>
      else if au_epoch au \<noteq> cx_epoch cx
      then \<lparr>ck_code = SC_Stale, ck_detail = ''path authority belongs to epoch '' @ u_string (au_epoch au)\<rparr>
      else if au_generation au \<noteq> cx_generation cx
      then \<lparr>ck_code = SC_Stale, ck_detail = ''path authority belongs to generation '' @ u_string (au_generation au)\<rparr>
      else if au_topology_digest au \<noteq> cx_topology_digest cx
      then \<lparr>ck_code = SC_Conflicting, ck_detail = ''path authority topology digest does not match the live topology''\<rparr>
      else if cx_active_lease cx \<noteq> Some (au_lease au)
      then \<lparr>ck_code = SC_Refused, ck_detail = ''the lease that minted this path authority is no longer active''\<rparr>
      else if cx_now_unix_ms cx \<ge> au_expires_at_unix_ms au
      then \<lparr>ck_code = SC_DeadlineExpired, ck_detail = ''path authority expired''\<rparr>
      else check_ok)"

section \<open>Commands\<close>

datatype command_kind =
    CK_SetFabricState | CK_SetLeafState | CK_SetSpineState | CK_SetPortAdmin | CK_SetLinkAdmin
  | CK_AddLink | CK_RemoveLink | CK_SetOptions | CK_SubmitEvidence | CK_ClearEvidence

fun command_kind_string :: "command_kind \<Rightarrow> string" where
  "command_kind_string CK_SetFabricState = ''set_fabric_state''"
| "command_kind_string CK_SetLeafState = ''set_leaf_state''"
| "command_kind_string CK_SetSpineState = ''set_spine_state''"
| "command_kind_string CK_SetPortAdmin = ''set_port_admin''"
| "command_kind_string CK_SetLinkAdmin = ''set_link_admin''"
| "command_kind_string CK_AddLink = ''add_link''"
| "command_kind_string CK_RemoveLink = ''remove_link''"
| "command_kind_string CK_SetOptions = ''set_options''"
| "command_kind_string CK_SubmitEvidence = ''submit_evidence''"
| "command_kind_string CK_ClearEvidence = ''clear_evidence''"

definition parse_command_kind :: "string \<Rightarrow> command_kind option" where
  "parse_command_kind text0 =
     (if text0 = ''set_fabric_state'' then Some CK_SetFabricState
      else if text0 = ''set_leaf_state'' then Some CK_SetLeafState
      else if text0 = ''set_spine_state'' then Some CK_SetSpineState
      else if text0 = ''set_port_admin'' then Some CK_SetPortAdmin
      else if text0 = ''set_link_admin'' then Some CK_SetLinkAdmin
      else if text0 = ''add_link'' then Some CK_AddLink
      else if text0 = ''remove_link'' then Some CK_RemoveLink
      else if text0 = ''set_options'' then Some CK_SetOptions
      else if text0 = ''submit_evidence'' then Some CK_SubmitEvidence
      else if text0 = ''clear_evidence'' then Some CK_ClearEvidence
      else None)"

fun command_kind_u8 :: "command_kind \<Rightarrow> u8" where
  "command_kind_u8 CK_SetFabricState = 0"
| "command_kind_u8 CK_SetLeafState = 1"
| "command_kind_u8 CK_SetSpineState = 2"
| "command_kind_u8 CK_SetPortAdmin = 3"
| "command_kind_u8 CK_SetLinkAdmin = 4"
| "command_kind_u8 CK_AddLink = 5"
| "command_kind_u8 CK_RemoveLink = 6"
| "command_kind_u8 CK_SetOptions = 7"
| "command_kind_u8 CK_SubmitEvidence = 8"
| "command_kind_u8 CK_ClearEvidence = 9"

definition command_kind_of_u8 :: "u8 \<Rightarrow> command_kind" where
  "command_kind_of_u8 v =
     (if v = 0 then CK_SetFabricState else if v = 1 then CK_SetLeafState else if v = 2 then CK_SetSpineState
      else if v = 3 then CK_SetPortAdmin else if v = 4 then CK_SetLinkAdmin else if v = 5 then CK_AddLink
      else if v = 6 then CK_RemoveLink else if v = 7 then CK_SetOptions else if v = 8 then CK_SubmitEvidence
      else CK_ClearEvidence)"

text \<open>The link of an \<open>AddLink\<close> command, with the underlying bytes of the unchecked enumerations.\<close>

record wire_link =
  wl_id :: link_id
  wl_a_tier :: u8
  wl_a_index :: u32
  wl_port_a :: port_id
  wl_b_tier :: u8
  wl_b_index :: u32
  wl_port_b :: port_id
  wl_cls :: link_class
  wl_admin :: u8
  wl_declared_speed_mbps :: u64
  wl_generation :: topology_generation

definition wire_link_of :: "link_record \<Rightarrow> wire_link" where
  "wire_link_of l =
     \<lparr>wl_id = lk_id l, wl_a_tier = tier_u8 (nk_tier (lk_a l)), wl_a_index = nk_index (lk_a l),
      wl_port_a = lk_port_a l, wl_b_tier = tier_u8 (nk_tier (lk_b l)), wl_b_index = nk_index (lk_b l),
      wl_port_b = lk_port_b l, wl_cls = lk_cls l, wl_admin = link_admin_u8 (lk_admin l),
      wl_declared_speed_mbps = lk_declared_speed_mbps l, wl_generation = lk_generation l\<rparr>"

definition link_of_wire :: "wire_link \<Rightarrow> link_record option" where
  "link_of_wire w =
     (if wl_a_tier w > 1 \<or> wl_b_tier w > 1 \<or> wl_admin w > 1 then None
      else Some \<lparr>lk_id = wl_id w, lk_a = NodeKey (tier_of_u8 (wl_a_tier w)) (wl_a_index w),
                 lk_port_a = wl_port_a w, lk_b = NodeKey (tier_of_u8 (wl_b_tier w)) (wl_b_index w),
                 lk_port_b = wl_port_b w, lk_cls = wl_cls w, lk_admin = link_admin_of_u8 (wl_admin w),
                 lk_declared_speed_mbps = wl_declared_speed_mbps w, lk_generation = wl_generation w\<rparr>)"

record command =
  cm_request_id :: request_id
  cm_token :: authority_token
  cm_expected_generation :: topology_generation
  cm_expected_epoch :: epoch
  cm_kind :: command_kind
  cm_fabric_state :: fabric_state
  cm_node :: node_key
  cm_node_state :: node_state
  cm_port :: port_id
  cm_port_admin :: port_admin
  cm_link :: link_id
  cm_link_admin :: link_admin
  cm_new_link :: wire_link
  cm_evidence :: link_evidence
  cm_options :: fabric_options

record command_result =
  cr_code :: u16
  cr_detail :: string
  cr_request_id :: request_id
  cr_generation :: topology_generation
  cr_epoch :: epoch
  cr_topology_digest :: digest
  cr_deduplicated :: bool
  cr_mutated :: bool
  cr_refreshed_token :: authority_token

definition blank_token :: authority_token where
  "blank_token = \<lparr>tk_controller = Incarnation 0 0, tk_epoch = 0, tk_generation = 0, tk_lease = 0,
     tk_topology_digest = zero_digest, tk_issued_at_unix_ms = 0, tk_expires_at_unix_ms = 0\<rparr>"

definition blank_result :: command_result where
  "blank_result = \<lparr>cr_code = 0, cr_detail = [], cr_request_id = 0, cr_generation = 0, cr_epoch = 0,
     cr_topology_digest = zero_digest, cr_deduplicated = False, cr_mutated = False,
     cr_refreshed_token = blank_token\<rparr>"

definition result_ok :: "command_result \<Rightarrow> bool" where
  "result_ok r = (cr_code r = 0)"

definition code_text :: "u16 \<Rightarrow> string" where
  "code_text v = (if unat v < length all_status_codes then status_code_string (all_status_codes ! unat v) else ''internal'')"

definition command_result_string :: "command_result \<Rightarrow> string" where
  "command_result_string r =
     ''request='' @ u_string (cr_request_id r) @ '' code='' @ code_text (cr_code r)
       @ '' generation='' @ u_string (cr_generation r) @ '' epoch='' @ u_string (cr_epoch r)
       @ '' deduplicated='' @ bool_text (cr_deduplicated r) @ '' mutated='' @ bool_text (cr_mutated r)
       @ (if cr_detail r \<noteq> [] then '' detail='' @ [CHR 0x22] @ cr_detail r @ [CHR 0x22] else [])"

section \<open>Wire encodings\<close>

definition kCommandDomain :: string where
  "kCommandDomain = ''slf.command.v1''"

definition kCommandResultDomain :: string where
  "kCommandResultDomain = ''slf.command_result.v1''"

definition token_puts :: "authority_token \<Rightarrow> put list" where
  "token_puts t =
     [bw_u64 (inc_hi (tk_controller t)), bw_u64 (inc_lo (tk_controller t)), bw_u64 (tk_epoch t),
      bw_u64 (tk_generation t), bw_u64 (tk_lease t), bw_bytes (tk_topology_digest t),
      bw_u64 (tk_issued_at_unix_ms t), bw_u64 (tk_expires_at_unix_ms t)]"

definition wire_link_puts :: "wire_link \<Rightarrow> put list" where
  "wire_link_puts w =
     [bw_u64 (ucast (wl_id w)), bw_u8 (wl_a_tier w), bw_u32 (wl_a_index w), bw_u32 (wl_port_a w),
      bw_u8 (wl_b_tier w), bw_u32 (wl_b_index w), bw_u32 (wl_port_b w), bw_u8 (link_class_u8 (wl_cls w)),
      bw_u8 (wl_admin w), bw_u64 (wl_declared_speed_mbps w), bw_u64 (wl_generation w)]"

definition options_puts :: "fabric_options \<Rightarrow> put list" where
  "options_puts v =
     [bw_u8 (bool_u8 (opt_allow_same_tier_adjacency v)), bw_u8 (bool_u8 (opt_require_domain_diversity v)),
      bw_u32 (opt_min_eligible_spines v), bw_u8 (evidence_policy_u8 (opt_evidence_policy v))]"

definition command_puts :: "command \<Rightarrow> put list" where
  "command_puts c =
     [bw_string kCommandDomain, bw_u64 (cm_request_id c)] @ token_puts (cm_token c)
     @ [bw_u64 (cm_expected_generation c), bw_u64 (cm_expected_epoch c), bw_u8 (command_kind_u8 (cm_kind c)),
        bw_u8 (fabric_state_u8 (cm_fabric_state c)), bw_u8 (tier_u8 (nk_tier (cm_node c))),
        bw_u32 (nk_index (cm_node c)), bw_u8 (node_state_u8 (cm_node_state c)), bw_u32 (cm_port c),
        bw_u8 (port_admin_u8 (cm_port_admin c)), bw_u32 (cm_link c), bw_u8 (link_admin_u8 (cm_link_admin c))]
     @ wire_link_puts (cm_new_link c) @ evidence_puts (cm_evidence c) @ options_puts (cm_options c)"

definition serialize_command :: "command \<Rightarrow> bytes" where
  "serialize_command c = bw_buffer (puts (command_puts c) (new_writer (1024 * 1024)))"

text \<open>
  The decoder reads every field before it tests any outcome, and any failed read gives the same
  \<open>Truncated\<close> status; a group of reads is present when all of its reads succeeded.
\<close>

definition read_token_fields :: "byte_reader \<Rightarrow> authority_token option \<times> byte_reader" where
  "read_token_fields r0 =
     (let (hi, r1) = br_u64 r0; (lo, r2) = br_u64 r1; (ep, r3) = br_u64 r2; (gen, r4) = br_u64 r3;
          (ls, r5) = br_u64 r4; (dg, r6) = br_bytes 32 r5; (iss, r7) = br_u64 r6; (expi, r8) = br_u64 r7
      in (if \<not> outcome_ok hi \<or> \<not> outcome_ok lo \<or> \<not> outcome_ok ep \<or> \<not> outcome_ok gen \<or> \<not> outcome_ok ls
             \<or> \<not> outcome_ok dg \<or> \<not> outcome_ok iss \<or> \<not> outcome_ok expi
          then None
          else Some \<lparr>tk_controller = Incarnation (projr hi) (projr lo), tk_epoch = projr ep,
                     tk_generation = projr gen, tk_lease = projr ls, tk_topology_digest = projr dg,
                     tk_issued_at_unix_ms = projr iss, tk_expires_at_unix_ms = projr expi\<rparr>, r8))"

record target_fields =
  tf_expected_generation :: u64
  tf_expected_epoch :: u64
  tf_kind :: u8
  tf_fabric_state :: u8
  tf_node_tier :: u8
  tf_node_index :: u32
  tf_node_state :: u8
  tf_port :: u32
  tf_port_admin :: u8
  tf_link :: u32
  tf_link_admin :: u8

definition read_target_fields :: "byte_reader \<Rightarrow> target_fields option \<times> byte_reader" where
  "read_target_fields r0 =
     (let (eg, r1) = br_u64 r0; (ee, r2) = br_u64 r1; (kd, r3) = br_u8 r2; (fs, r4) = br_u8 r3;
          (nt, r5) = br_u8 r4; (ni, r6) = br_u32 r5; (ns, r7) = br_u8 r6; (po, r8) = br_u32 r7;
          (pa, r9) = br_u8 r8; (li, r10) = br_u32 r9; (la, r11) = br_u8 r10
      in (if \<not> outcome_ok eg \<or> \<not> outcome_ok ee \<or> \<not> outcome_ok kd \<or> \<not> outcome_ok fs \<or> \<not> outcome_ok nt
             \<or> \<not> outcome_ok ni \<or> \<not> outcome_ok ns \<or> \<not> outcome_ok po \<or> \<not> outcome_ok pa \<or> \<not> outcome_ok li
             \<or> \<not> outcome_ok la
          then None
          else Some \<lparr>tf_expected_generation = projr eg, tf_expected_epoch = projr ee, tf_kind = projr kd,
                     tf_fabric_state = projr fs, tf_node_tier = projr nt, tf_node_index = projr ni,
                     tf_node_state = projr ns, tf_port = projr po, tf_port_admin = projr pa,
                     tf_link = projr li, tf_link_admin = projr la\<rparr>, r11))"

definition read_wire_link_fields :: "byte_reader \<Rightarrow> (u8 \<times> wire_link) option \<times> byte_reader" where
  "read_wire_link_fields r0 =
     (let (ident, r1) = br_u64 r0; (at, r2) = br_u8 r1; (ai, r3) = br_u32 r2; (pa, r4) = br_u32 r3;
          (bt, r5) = br_u8 r4; (bi, r6) = br_u32 r5; (pb, r7) = br_u32 r6; (cls, r8) = br_u8 r7;
          (adm, r9) = br_u8 r8; (sp, r10) = br_u64 r9; (gen, r11) = br_u64 r10
      in (if \<not> outcome_ok ident \<or> \<not> outcome_ok at \<or> \<not> outcome_ok ai \<or> \<not> outcome_ok pa \<or> \<not> outcome_ok bt
             \<or> \<not> outcome_ok bi \<or> \<not> outcome_ok pb \<or> \<not> outcome_ok cls \<or> \<not> outcome_ok adm \<or> \<not> outcome_ok sp
             \<or> \<not> outcome_ok gen
          then None
          else Some (projr cls,
                     \<lparr>wl_id = ucast (projr ident), wl_a_tier = projr at, wl_a_index = projr ai,
                      wl_port_a = projr pa, wl_b_tier = projr bt, wl_b_index = projr bi, wl_port_b = projr pb,
                      wl_cls = link_class_of_u8 (projr cls), wl_admin = projr adm,
                      wl_declared_speed_mbps = projr sp, wl_generation = projr gen\<rparr>), r11))"

definition read_evidence_fields :: "byte_reader \<Rightarrow> (u8 \<times> link_evidence) option \<times> byte_reader" where
  "read_evidence_fields r0 =
     (let (lnk, r1) = br_u32 r0; (obs, r2) = br_u8 r1; (gen, r3) = br_u64 r2; (hi, r4) = br_u64 r3;
          (lo, r5) = br_u64 r4; (ep, r6) = br_u64 r5; (sq, r7) = br_u64 r6; (at_ms, r8) = br_u64 r7
      in (if \<not> outcome_ok lnk \<or> \<not> outcome_ok obs \<or> \<not> outcome_ok gen \<or> \<not> outcome_ok hi \<or> \<not> outcome_ok lo
             \<or> \<not> outcome_ok ep \<or> \<not> outcome_ok sq \<or> \<not> outcome_ok at_ms
          then None
          else Some (projr obs,
                     \<lparr>ev_link = projr lnk, ev_observed = link_observation_of_u8 (projr obs),
                      ev_generation = projr gen, ev_observer = Incarnation (projr hi) (projr lo),
                      ev_epoch = projr ep, ev_observed_seq = projr sq, ev_observed_at_unix_ms = projr at_ms\<rparr>), r8))"

definition read_options_fields :: "byte_reader \<Rightarrow> (u8 \<times> fabric_options) option \<times> byte_reader" where
  "read_options_fields r0 =
     (let (pe, r1) = br_u8 r0; (dv, r2) = br_u8 r1; (mn, r3) = br_u32 r2; (pol, r4) = br_u8 r3
      in (if \<not> outcome_ok pe \<or> \<not> outcome_ok dv \<or> \<not> outcome_ok mn \<or> \<not> outcome_ok pol then None
          else Some (projr pol,
                     \<lparr>opt_allow_same_tier_adjacency = (projr pe \<noteq> 0), opt_require_domain_diversity = (projr dv \<noteq> 0),
                      opt_min_eligible_spines = projr mn,
                      opt_evidence_policy = evidence_policy_of_u8 (projr pol)\<rparr>), r4))"

definition command_enums_ok :: "target_fields \<Rightarrow> u8 \<Rightarrow> u8 \<Rightarrow> u8 \<Rightarrow> bool" where
  "command_enums_ok t cls obs pol =
     (\<not> (tf_kind t > command_kind_u8 CK_ClearEvidence \<or> tf_fabric_state t > fabric_state_u8 FS_Retired
        \<or> tf_node_tier t > tier_u8 Spine \<or> tf_node_state t > node_state_u8 NS_Retired
        \<or> tf_port_admin t > port_admin_u8 PA_Disabled \<or> tf_link_admin t > link_admin_u8 LA_Disabled
        \<or> cls > link_class_u8 LC_SameTierPeer \<or> obs > link_observation_u8 LO_Unknown
        \<or> pol > evidence_policy_u8 EP_RequireFresh))"

definition deserialize_command :: "bytes \<Rightarrow> command outcome" where
  "deserialize_command data =
     (let (tag, r1) = br_string (new_reader data 4096); (request, r2) = br_u64 r1;
          (token, r3) = read_token_fields r2; (target, r4) = read_target_fields r3;
          (new_link, r5) = read_wire_link_fields r4; (evidence, r6) = read_evidence_fields r5;
          (options, r7) = read_options_fields r6
      in case (token, target, new_link, evidence, options) of
           (Some tok, Some t, Some (cls, wl), Some (obs, ev), Some (pol, opts)) \<Rightarrow>
             if \<not> outcome_ok tag \<or> \<not> outcome_ok request
             then Inl (Status SC_Truncated ''command encoding is incomplete'')
             else if projr tag \<noteq> kCommandDomain
             then Inl (Status SC_Invalid ''command encoding has an unexpected domain tag'')
             else if \<not> command_enums_ok t cls obs pol
             then Inl (Status SC_Invalid ''command encoding carries an unknown enumeration value'')
             else if \<not> status_ok (br_expect_end r7) then Inl (br_expect_end r7)
             else Inr \<lparr>cm_request_id = projr request, cm_token = tok,
                       cm_expected_generation = tf_expected_generation t, cm_expected_epoch = tf_expected_epoch t,
                       cm_kind = command_kind_of_u8 (tf_kind t),
                       cm_fabric_state = fabric_state_of_u8 (tf_fabric_state t),
                       cm_node = NodeKey (tier_of_u8 (tf_node_tier t)) (tf_node_index t),
                       cm_node_state = node_state_of_u8 (tf_node_state t), cm_port = tf_port t,
                       cm_port_admin = port_admin_of_u8 (tf_port_admin t), cm_link = tf_link t,
                       cm_link_admin = link_admin_of_u8 (tf_link_admin t), cm_new_link = wl,
                       cm_evidence = ev, cm_options = opts\<rparr>
         | _ \<Rightarrow> Inl (Status SC_Truncated ''command encoding is incomplete''))"

definition result_puts :: "command_result \<Rightarrow> put list" where
  "result_puts r =
     [bw_string kCommandResultDomain, bw_u64 (cr_request_id r), bw_u16 (cr_code r), bw_string (cr_detail r),
      bw_u64 (cr_generation r), bw_u64 (cr_epoch r), bw_bytes (cr_topology_digest r),
      bw_u8 (bool_u8 (cr_deduplicated r)), bw_u8 (bool_u8 (cr_mutated r))]"

definition serialize_command_result :: "command_result \<Rightarrow> bytes" where
  "serialize_command_result r = bw_buffer (puts (result_puts r) (new_writer (1024 * 1024)))"

definition deserialize_command_result :: "bytes \<Rightarrow> command_result outcome" where
  "deserialize_command_result data =
     (let (tag, r1) = br_string (new_reader data (64 * 1024)); (request, r2) = br_u64 r1;
          (code, r3) = br_u16 r2; (detail, r4) = br_string r3; (gen, r5) = br_u64 r4;
          (ep, r6) = br_u64 r5; (dg, r7) = br_bytes 32 r6; (dedup, r8) = br_u8 r7; (mutd, r9) = br_u8 r8
      in if \<not> outcome_ok tag \<or> \<not> outcome_ok request \<or> \<not> outcome_ok code \<or> \<not> outcome_ok detail
            \<or> \<not> outcome_ok gen \<or> \<not> outcome_ok ep \<or> \<not> outcome_ok dg \<or> \<not> outcome_ok dedup \<or> \<not> outcome_ok mutd
         then Inl (Status SC_Truncated ''command result encoding is incomplete'')
         else if projr tag \<noteq> kCommandResultDomain
         then Inl (Status SC_Invalid ''command result encoding has an unexpected domain tag'')
         else if \<not> status_ok (br_expect_end r9) then Inl (br_expect_end r9)
         else Inr (blank_result\<lparr>cr_request_id := projr request, cr_code := projr code, cr_detail := projr detail,
                     cr_generation := projr gen, cr_epoch := projr ep, cr_topology_digest := projr dg,
                     cr_deduplicated := (projr dedup \<noteq> 0), cr_mutated := (projr mutd \<noteq> 0)\<rparr>))"

definition authority_puts :: "path_authority \<Rightarrow> put list" where
  "authority_puts au =
     [bw_string kPathAuthorityDomain, bw_u64 (inc_hi (au_controller au)), bw_u64 (inc_lo (au_controller au)),
      bw_u64 (au_epoch au), bw_u64 (au_generation au), bw_bytes (au_topology_digest au), bw_u64 (au_lease au),
      bw_u8 (tier_u8 (nk_tier (au_from au))), bw_u32 (nk_index (au_from au)),
      bw_u8 (tier_u8 (nk_tier (au_to au))), bw_u32 (nk_index (au_to au)),
      bw_u8 (reachability_class_u8 (au_cls au)), bw_u8 (verdict_u8 (au_verdict au)),
      bw_u32 (of_nat (length (au_spines au)))]
     @ map bw_u32 (au_spines au)
     @ [bw_u64 (au_issued_at_unix_ms au), bw_u64 (au_expires_at_unix_ms au), bw_bytes (au_authority_digest au)]"

definition serialize_path_authority :: "path_authority \<Rightarrow> bytes" where
  "serialize_path_authority au = bw_buffer (puts (authority_puts au) (new_writer (1024 * 1024)))"

fun read_spines :: "nat \<Rightarrow> byte_reader \<Rightarrow> spine_id list option \<times> byte_reader" where
  "read_spines 0 r = (Some [], r)"
| "read_spines (Suc n) r =
     (case br_u32 r of
        (Inl _, r') \<Rightarrow> (None, r')
      | (Inr s, r') \<Rightarrow>
          (case read_spines n r' of
             (None, r'') \<Rightarrow> (None, r'')
           | (Some ss, r'') \<Rightarrow> (Some (s # ss), r'')))"

definition kMaxAuthoritySpines :: u32 where
  "kMaxAuthoritySpines = 4096"

text \<open>The fields before the spine list, then the spine list, then the trailer.\<close>

record authority_fields =
  af_controller :: controller_incarnation
  af_epoch :: u64
  af_generation :: u64
  af_digest :: digest
  af_lease :: u64
  af_from_tier :: u8
  af_from_index :: u32
  af_to_tier :: u8
  af_to_index :: u32
  af_cls :: u8
  af_verdict :: u8
  af_spine_count :: u32

definition read_authority_fields :: "byte_reader \<Rightarrow> authority_fields option \<times> byte_reader" where
  "read_authority_fields r0 =
     (let (hi, r1) = br_u64 r0; (lo, r2) = br_u64 r1; (ep, r3) = br_u64 r2; (gen, r4) = br_u64 r3;
          (dg, r5) = br_bytes 32 r4; (ls, r6) = br_u64 r5; (ft, r7) = br_u8 r6; (fi, r8) = br_u32 r7;
          (tt, r9) = br_u8 r8; (ti, r10) = br_u32 r9; (cls, r11) = br_u8 r10; (vd, r12) = br_u8 r11;
          (sc, r13) = br_u32 r12
      in (if \<not> outcome_ok hi \<or> \<not> outcome_ok lo \<or> \<not> outcome_ok ep \<or> \<not> outcome_ok gen \<or> \<not> outcome_ok dg
             \<or> \<not> outcome_ok ls \<or> \<not> outcome_ok ft \<or> \<not> outcome_ok fi \<or> \<not> outcome_ok tt \<or> \<not> outcome_ok ti
             \<or> \<not> outcome_ok cls \<or> \<not> outcome_ok vd \<or> \<not> outcome_ok sc
          then None
          else Some \<lparr>af_controller = Incarnation (projr hi) (projr lo), af_epoch = projr ep, af_generation = projr gen,
                     af_digest = projr dg, af_lease = projr ls, af_from_tier = projr ft, af_from_index = projr fi,
                     af_to_tier = projr tt, af_to_index = projr ti, af_cls = projr cls, af_verdict = projr vd,
                     af_spine_count = projr sc\<rparr>, r13))"

definition deserialize_path_authority :: "bytes \<Rightarrow> path_authority outcome" where
  "deserialize_path_authority data =
     (let (tag, r1) = br_string (new_reader data 4096); (fields, r2) = read_authority_fields r1 in
      case fields of
        None \<Rightarrow> Inl (Status SC_Truncated ''path authority encoding is incomplete'')
      | Some af \<Rightarrow>
          if \<not> outcome_ok tag then Inl (Status SC_Truncated ''path authority encoding is incomplete'')
          else if projr tag \<noteq> kPathAuthorityDomain
          then Inl (Status SC_Invalid ''path authority encoding has an unexpected domain tag'')
          else if af_spine_count af > kMaxAuthoritySpines
          then Inl (Status SC_Exhausted ''path authority spine count exceeds the configured bound'')
          else if af_from_tier af > tier_u8 Spine \<or> af_to_tier af > tier_u8 Spine
                  \<or> af_cls af > reachability_class_u8 RC_Indeterminate \<or> af_verdict af > verdict_u8 EV_Indeterminate
          then Inl (Status SC_Invalid ''path authority carries an unknown enumeration value'')
          else case read_spines (unat (af_spine_count af)) r2 of
                 (None, _) \<Rightarrow> Inl (Status SC_Truncated ''path authority spine list is incomplete'')
               | (Some spines, r3) \<Rightarrow>
                   (let (iss, r4) = br_u64 r3; (expi, r5) = br_u64 r4; (dg, r6) = br_bytes 32 r5
                    in if \<not> outcome_ok iss \<or> \<not> outcome_ok expi \<or> \<not> outcome_ok dg
                       then Inl (Status SC_Truncated ''path authority trailer is incomplete'')
                       else if \<not> status_ok (br_expect_end r6) then Inl (br_expect_end r6)
                       else Inr \<lparr>au_controller = af_controller af, au_epoch = af_epoch af,
                                 au_generation = af_generation af, au_topology_digest = af_digest af,
                                 au_lease = af_lease af,
                                 au_from = NodeKey (tier_of_u8 (af_from_tier af)) (af_from_index af),
                                 au_to = NodeKey (tier_of_u8 (af_to_tier af)) (af_to_index af),
                                 au_cls = reachability_class_of_u8 (af_cls af),
                                 au_verdict = verdict_of_u8 (af_verdict af), au_spines = spines,
                                 au_issued_at_unix_ms = projr iss, au_expires_at_unix_ms = projr expi,
                                 au_authority_digest = projr dg\<rparr>))"

section \<open>Fencing\<close>

definition token_coordinate :: "authority_token \<Rightarrow> controller_incarnation \<times> epoch \<times> topology_generation \<times> digest \<times> lease_id option" where
  "token_coordinate t = (tk_controller t, tk_epoch t, tk_generation t, tk_topology_digest t, Some (tk_lease t))"

definition authority_coordinate :: "path_authority \<Rightarrow> controller_incarnation \<times> epoch \<times> topology_generation \<times> digest \<times> lease_id option" where
  "authority_coordinate au =
     (au_controller au, au_epoch au, au_generation au, au_topology_digest au, Some (au_lease au))"

definition live_coordinate :: "authority_context \<Rightarrow> controller_incarnation \<times> epoch \<times> topology_generation \<times> digest \<times> lease_id option" where
  "live_coordinate cx =
     (cx_controller cx, cx_epoch cx, cx_generation cx, cx_topology_digest cx, cx_active_lease cx)"

text \<open>The contract the two kinds of authority share: valid only at the coordinate they were minted for.\<close>

locale fenced_grant =
  fixes validate :: "'g \<Rightarrow> authority_context \<Rightarrow> authority_check"
    and coordinate :: "'g \<Rightarrow> controller_incarnation \<times> epoch \<times> topology_generation \<times> digest \<times> lease_id option"
    and expires :: "'g \<Rightarrow> u64"
    and genuine :: "'g \<Rightarrow> bool"
  assumes validate_iff: "ck_code (validate g cx) = SC_Ok \<longleftrightarrow>
      genuine g \<and> coordinate g = live_coordinate cx \<and> cx_now_unix_ms cx < expires g"
begin

lemma fenced_by_change:
  "ck_code (validate g cx) = SC_Ok \<Longrightarrow> live_coordinate cx' \<noteq> live_coordinate cx \<Longrightarrow> ck_code (validate g cx') \<noteq> SC_Ok"
  by (simp add: validate_iff)

lemma expiry_is_final:
  "ck_code (validate g cx) \<noteq> SC_Ok \<Longrightarrow> live_coordinate cx' = live_coordinate cx \<Longrightarrow>
     cx_now_unix_ms cx \<le> cx_now_unix_ms cx' \<Longrightarrow> ck_code (validate g cx') \<noteq> SC_Ok"
  using less_le_trans le_less_trans by (auto simp: validate_iff)

end

interpretation token_grant: fenced_grant validate_token token_coordinate tk_expires_at_unix_ms
    "\<lambda>t. \<not> incarnation_is_zero (tk_controller t) \<and> tk_lease t \<noteq> 0"
  by unfold_locales
    (auto simp: validate_token_def token_coordinate_def live_coordinate_def check_ok_def expired_at_def not_le)

interpretation path_grant: fenced_grant validate_path_authority authority_coordinate au_expires_at_unix_ms
    "\<lambda>au. compute_path_authority_digest au = au_authority_digest au"
  by unfold_locales
    (auto simp: validate_path_authority_def authority_coordinate_def live_coordinate_def check_ok_def not_le)

lemma mint_exact:
  "mint_path_authority a t now ttl = Inr au \<Longrightarrow>
     pa_verdict a = EV_Eligible \<and> pa_eligible_spines a \<noteq> [] \<and> au_spines au = pa_eligible_spines a
     \<and> au_from au = pa_from a \<and> au_to au = pa_to a \<and> authority_coordinate au = token_coordinate t
     \<and> au_expires_at_unix_ms au = (if ttl = 0 then tk_expires_at_unix_ms t else now + ttl)
     \<and> compute_path_authority_digest au = au_authority_digest au"
  by (auto simp: mint_path_authority_def Let_def authority_coordinate_def token_coordinate_def split: if_splits)
    (simp_all add: compute_path_authority_digest_def authority_head_def)

section \<open>Round trips of the wire encodings\<close>

lemma emits_more [emits_intros]: "emits (bw_u16 v) (le_bytes 2 v)" "emits (bw_bytes d) d"
  using emit_u16.put_fits [OF TrueI] emit_bytes.put_fits [OF TrueI] by (simp_all add: emits_def)

lemma rd_more [codec_simps]:
  "br_u16 (rd m pre (le_bytes 2 v16 @ rest)) = (Inr v16, rd m (pre @ le_bytes 2 v16) rest)"
  "length d = 32 \<Longrightarrow> br_bytes 32 (rd m pre (d @ rest)) = (Inr d, rd m (pre @ d) rest)"
  using u16_codec.dec_enc [OF TrueI, of "rd m pre (le_bytes 2 v16 @ rest)" v16 rest]
    bytes32_codec.dec_enc [of d "rd m pre (d @ rest)" rest] rd_advance [of d 32 m pre rest]
  by simp_all

lemma rd_end: "br_expect_end (rd m pre []) = status_success"
  by (simp add: br_expect_end_def br_exhausted_def rd_def)

definition token_fields :: "authority_token \<Rightarrow> bytes list" where
  "token_fields t =
     [le_bytes 8 (inc_hi (tk_controller t)), le_bytes 8 (inc_lo (tk_controller t)), le_bytes 8 (tk_epoch t),
      le_bytes 8 (tk_generation t), le_bytes 8 (tk_lease t), tk_topology_digest t,
      le_bytes 8 (tk_issued_at_unix_ms t), le_bytes 8 (tk_expires_at_unix_ms t)]"

definition target_encoding :: "command \<Rightarrow> bytes list" where
  "target_encoding c =
     [le_bytes 8 (cm_expected_generation c), le_bytes 8 (cm_expected_epoch c), [command_kind_u8 (cm_kind c)],
      [fabric_state_u8 (cm_fabric_state c)], [tier_u8 (nk_tier (cm_node c))], le_bytes 4 (nk_index (cm_node c)),
      [node_state_u8 (cm_node_state c)], le_bytes 4 (cm_port c), [port_admin_u8 (cm_port_admin c)],
      le_bytes 4 (cm_link c), [link_admin_u8 (cm_link_admin c)]]"

definition wire_link_fields :: "wire_link \<Rightarrow> bytes list" where
  "wire_link_fields w =
     [le_bytes 8 (ucast (wl_id w) :: u64), [wl_a_tier w], le_bytes 4 (wl_a_index w), le_bytes 4 (wl_port_a w),
      [wl_b_tier w], le_bytes 4 (wl_b_index w), le_bytes 4 (wl_port_b w), [link_class_u8 (wl_cls w)],
      [wl_admin w], le_bytes 8 (wl_declared_speed_mbps w), le_bytes 8 (wl_generation w)]"

definition options_fields :: "fabric_options \<Rightarrow> bytes list" where
  "options_fields v =
     [[bool_u8 (opt_allow_same_tier_adjacency v)], [bool_u8 (opt_require_domain_diversity v)],
      le_bytes 4 (opt_min_eligible_spines v), [evidence_policy_u8 (opt_evidence_policy v)]]"

definition command_fields :: "command \<Rightarrow> bytes list" where
  "command_fields c =
     [string_enc kCommandDomain, le_bytes 8 (cm_request_id c)] @ token_fields (cm_token c) @ target_encoding c
     @ wire_link_fields (cm_new_link c) @ evidence_fields (cm_evidence c) @ options_fields (cm_options c)"

lemma domain_tags_ok [simp]:
  "text_ok kCommandDomain" "text_ok kCommandResultDomain" "text_ok kPathAuthorityDomain"
  by (simp_all add: text_ok_def kCommandDomain_def kCommandResultDomain_def kPathAuthorityDomain_def ascii_valid_utf8)

lemma domain_tag_lengths:
  "length kCommandDomain = 14" "length kCommandResultDomain = 21" "length kPathAuthorityDomain = 21"
  by (simp_all add: kCommandDomain_def kCommandResultDomain_def kPathAuthorityDomain_def)

lemma tag_string_ok:
  "14 \<le> m \<Longrightarrow> string_ok m kCommandDomain" "21 \<le> m \<Longrightarrow> string_ok m kCommandResultDomain"
  "21 \<le> m \<Longrightarrow> string_ok m kPathAuthorityDomain"
  using domain_tags_ok by (simp_all add: string_ok_def text_ok_def domain_tag_lengths)

lemma serialize_command_exact:
  assumes "length (tk_topology_digest (cm_token c)) = 32"
  shows "serialize_command c = concat (command_fields c)"
  unfolding serialize_command_def
proof (rule buffer_puts)
  show "list_all2 emits (command_puts c) (command_fields c)"
    unfolding command_puts_def command_fields_def
    by (intro list_all2_appendI emits_records)
      (simp_all add: token_puts_def token_fields_def target_encoding_def wire_link_puts_def wire_link_fields_def
        options_puts_def options_fields_def emits_intros)
  show "length (concat (command_fields c)) \<le> 1024 * 1024"
    using assms
    by (simp add: command_fields_def token_fields_def target_encoding_def wire_link_fields_def evidence_fields_def
        options_fields_def string_enc_def block_enc_def domain_tag_lengths)
qed

lemma read_token_enc:
  "length (tk_topology_digest t) = 32 \<Longrightarrow>
     read_token_fields (rd m pre (concat (token_fields t) @ rest)) = (Some t, rd m (pre @ concat (token_fields t)) rest)"
  by (simp add: read_token_fields_def token_fields_def codec_simps)

lemma read_target_enc:
  "read_target_fields (rd m pre (concat (target_encoding c) @ rest)) =
     (Some \<lparr>tf_expected_generation = cm_expected_generation c, tf_expected_epoch = cm_expected_epoch c,
        tf_kind = command_kind_u8 (cm_kind c), tf_fabric_state = fabric_state_u8 (cm_fabric_state c),
        tf_node_tier = tier_u8 (nk_tier (cm_node c)), tf_node_index = nk_index (cm_node c),
        tf_node_state = node_state_u8 (cm_node_state c), tf_port = cm_port c,
        tf_port_admin = port_admin_u8 (cm_port_admin c), tf_link = cm_link c,
        tf_link_admin = link_admin_u8 (cm_link_admin c)\<rparr>, rd m (pre @ concat (target_encoding c)) rest)"
  by (simp add: read_target_fields_def target_encoding_def codec_simps)

lemma ucast_id_back: "ucast (ucast (i :: u32) :: u64) = i"
  by (simp add: ucast_up_ucast_id is_up_def source_size_def target_size_def word_size)

lemma read_wire_link_enc:
  "read_wire_link_fields (rd m pre (concat (wire_link_fields w) @ rest)) =
     (Some (link_class_u8 (wl_cls w), w), rd m (pre @ concat (wire_link_fields w)) rest)"
  by (simp add: read_wire_link_fields_def wire_link_fields_def codec_simps ucast_id_back)

lemma read_evidence_enc:
  "read_evidence_fields (rd m pre (concat (evidence_fields e) @ rest)) =
     (Some (link_observation_u8 (ev_observed e), e), rd m (pre @ concat (evidence_fields e)) rest)"
  by (simp add: read_evidence_fields_def evidence_fields_def codec_simps)

lemma read_options_enc:
  "read_options_fields (rd m pre (concat (options_fields v))) =
     (Some (evidence_policy_u8 (opt_evidence_policy v), v), rd m (pre @ concat (options_fields v)) [])"
  by (simp add: read_options_fields_def options_fields_def codec_simps bool_u8_nonzero)

lemma command_kind_u8_inverse [simp]: "command_kind_of_u8 (command_kind_u8 k) = k"
  by (cases k) (simp_all add: command_kind_of_u8_def)

lemma command_kind_u8_bound: "\<not> command_kind_u8 k > 9"
  by (cases k) simp_all

lemma command_roundtrip:
  assumes "length (tk_topology_digest (cm_token c)) = 32"
  shows "deserialize_command (serialize_command c) = Inr c"
proof -
  have bytes: "serialize_command c = string_enc kCommandDomain @ le_bytes 8 (cm_request_id c)
      @ concat (token_fields (cm_token c)) @ concat (target_encoding c) @ concat (wire_link_fields (cm_new_link c))
      @ concat (evidence_fields (cm_evidence c)) @ concat (options_fields (cm_options c))"
    unfolding serialize_command_exact [OF assms] command_fields_def by simp
  have enums: "command_enums_ok \<lparr>tf_expected_generation = cm_expected_generation c,
      tf_expected_epoch = cm_expected_epoch c, tf_kind = command_kind_u8 (cm_kind c),
      tf_fabric_state = fabric_state_u8 (cm_fabric_state c), tf_node_tier = tier_u8 (nk_tier (cm_node c)),
      tf_node_index = nk_index (cm_node c), tf_node_state = node_state_u8 (cm_node_state c), tf_port = cm_port c,
      tf_port_admin = port_admin_u8 (cm_port_admin c), tf_link = cm_link c,
      tf_link_admin = link_admin_u8 (cm_link_admin c)\<rparr> (link_class_u8 (wl_cls (cm_new_link c)))
      (link_observation_u8 (ev_observed (cm_evidence c))) (evidence_policy_u8 (opt_evidence_policy (cm_options c)))"
    by (simp add: command_enums_ok_def enum_u8_range command_kind_u8_bound)
  show ?thesis
    unfolding deserialize_command_def bytes new_reader_rd
    using enums assms by (simp add: codec_simps tag_string_ok read_token_enc read_target_enc read_wire_link_enc
        read_evidence_enc read_options_enc rd_end Let_def del: concat.simps)
qed

definition result_fields :: "command_result \<Rightarrow> bytes list" where
  "result_fields r =
     [string_enc kCommandResultDomain, le_bytes 8 (cr_request_id r), le_bytes 2 (cr_code r), string_enc (cr_detail r),
      le_bytes 8 (cr_generation r), le_bytes 8 (cr_epoch r), cr_topology_digest r,
      [bool_u8 (cr_deduplicated r)], [bool_u8 (cr_mutated r)]]"

lemma result_roundtrip:
  assumes "length (cr_topology_digest r) = 32" and "length (cr_detail r) \<le> 65536" and "is_valid_utf8 (cr_detail r)"
  shows "deserialize_command_result (serialize_command_result r) = Inr (r\<lparr>cr_refreshed_token := blank_token\<rparr>)"
proof -
  have utf8: "text_ok (cr_detail r)" "string_ok 65536 (cr_detail r)"
    using assms(2,3) by (simp_all add: text_ok_def string_ok_def)
  have bytes: "serialize_command_result r = concat (result_fields r)"
    unfolding serialize_command_result_def
  proof (rule buffer_puts)
    show "list_all2 emits (result_puts r) (result_fields r)"
      by (simp add: result_puts_def result_fields_def emits_intros utf8)
    show "length (concat (result_fields r)) \<le> 1024 * 1024"
      using assms(1,2) by (simp add: result_fields_def string_enc_def block_enc_def domain_tag_lengths)
  qed
  show ?thesis
    unfolding deserialize_command_result_def bytes new_reader_rd result_fields_def
    using assms(1) utf8
    by (simp add: codec_simps tag_string_ok rd_end bool_u8_nonzero blank_result_def)
qed

definition authority_body :: "path_authority \<Rightarrow> bytes list" where
  "authority_body au =
     [le_bytes 8 (inc_hi (au_controller au)), le_bytes 8 (inc_lo (au_controller au)), le_bytes 8 (au_epoch au),
      le_bytes 8 (au_generation au), au_topology_digest au, le_bytes 8 (au_lease au),
      [tier_u8 (nk_tier (au_from au))], le_bytes 4 (nk_index (au_from au)),
      [tier_u8 (nk_tier (au_to au))], le_bytes 4 (nk_index (au_to au)),
      [reachability_class_u8 (au_cls au)], [verdict_u8 (au_verdict au)],
      le_bytes 4 (of_nat (length (au_spines au)) :: u32)]"

definition authority_encoding :: "path_authority \<Rightarrow> bytes list" where
  "authority_encoding au = string_enc kPathAuthorityDomain # authority_body au
     @ map (le_bytes 4) (au_spines au)
     @ [le_bytes 8 (au_issued_at_unix_ms au), le_bytes 8 (au_expires_at_unix_ms au), au_authority_digest au]"

lemma read_spines_enc:
  "read_spines (length ss) (rd m pre (concat (map (le_bytes 4) ss) @ rest))
     = (Some ss, rd m (pre @ concat (map (le_bytes 4) ss)) rest)"
  by (induction ss arbitrary: pre) (simp_all add: codec_simps)

lemma class_u8_inverse [simp]:
  "reachability_class_of_u8 (reachability_class_u8 k) = k" "verdict_of_u8 (verdict_u8 v) = v"
  by (cases k; simp add: reachability_class_of_u8_def) (cases v; simp add: verdict_of_u8_def)

lemma class_u8_bound: "\<not> reachability_class_u8 k > 8" "\<not> verdict_u8 v > 2"
  by (cases k; simp) (cases v; simp)

lemma read_authority_enc:
  "length (au_topology_digest au) = 32 \<Longrightarrow>
   read_authority_fields (rd m pre (concat (authority_body au) @ rest)) =
     (Some \<lparr>af_controller = au_controller au, af_epoch = au_epoch au, af_generation = au_generation au,
        af_digest = au_topology_digest au, af_lease = au_lease au, af_from_tier = tier_u8 (nk_tier (au_from au)),
        af_from_index = nk_index (au_from au), af_to_tier = tier_u8 (nk_tier (au_to au)),
        af_to_index = nk_index (au_to au), af_cls = reachability_class_u8 (au_cls au),
        af_verdict = verdict_u8 (au_verdict au), af_spine_count = of_nat (length (au_spines au))\<rparr>,
      rd m (pre @ concat (authority_body au)) rest)"
  by (simp add: read_authority_fields_def authority_body_def codec_simps)

lemma authority_roundtrip:
  assumes "length (au_topology_digest au) = 32" and "length (au_authority_digest au) = 32"
    and "length (au_spines au) \<le> 4096"
  shows "deserialize_path_authority (serialize_path_authority au) = Inr au"
proof -
  have len: "length (concat (map (le_bytes 4) ss)) = 4 * length ss" for ss :: "u32 list"
    by (induction ss) simp_all
  have spines: "list_all2 emits (map bw_u32 ss) (map (le_bytes 4) ss)" for ss
    by (induction ss) (simp_all add: emits_intros)
  have "serialize_path_authority au = concat (authority_encoding au)"
    unfolding serialize_path_authority_def
  proof (rule buffer_puts)
    show "list_all2 emits (authority_puts au) (authority_encoding au)"
      unfolding authority_puts_def authority_encoding_def append_Cons [symmetric]
      by (intro list_all2_appendI spines) (simp_all add: authority_body_def emits_intros)
    show "length (concat (authority_encoding au)) \<le> 1024 * 1024"
      using assms by (simp add: authority_encoding_def authority_body_def string_enc_def block_enc_def
          domain_tag_lengths len)
  qed
  then have bytes: "serialize_path_authority au = string_enc kPathAuthorityDomain @ concat (authority_body au)
      @ concat (map (le_bytes 4) (au_spines au)) @ le_bytes 8 (au_issued_at_unix_ms au)
      @ le_bytes 8 (au_expires_at_unix_ms au) @ au_authority_digest au @ []"
    by (simp add: authority_encoding_def)
  have n: "unat (of_nat (length (au_spines au)) :: u32) = length (au_spines au)"
    using assms(3) by (simp add: unat_of_nat)
  then have "\<not> (of_nat (length (au_spines au)) :: u32) > kMaxAuthoritySpines"
    using assms(3) by (simp add: kMaxAuthoritySpines_def word_less_nat_alt)
  then show ?thesis
    unfolding deserialize_path_authority_def bytes new_reader_rd
    using assms n rd_more(2) [OF assms(2), where rest = "[]"]
    by (simp add: codec_simps tag_string_ok read_authority_enc read_spines_enc rd_end enum_u8_range class_u8_bound
        del: concat.simps append_Nil2)
qed

end
