(* ===== verification/SLF_Journal.thy ===== *)
theory SLF_Journal
  imports SLF_Governance
begin

text \<open>
  The journal segment (\<open>include/slf/store.hpp\<close>, \<open>src/store.cpp\<close>): header, hash-chained records and
  clean-shutdown trailer, the appending \<open>FabricStore\<close> and the scan of \<open>recover_journal\<close>. The file
  of a segment is a byte list; what the operating system does with a write is an argument: how
  many bytes of each \<open>fwrite\<close> it accepted, whether the flush succeeded, the status of
  \<open>platform::sync_file\<close>. The mutex has no counterpart: each operation is one step.
\<close>

section \<open>Record types and reports\<close>

datatype record_type =
  RT_IncarnationStart | RT_CommandCommit | RT_FabricSnapshot | RT_EvidenceSubmit | RT_Fence | RT_Marker

fun record_type_u32 :: "record_type \<Rightarrow> u32" where
  "record_type_u32 RT_IncarnationStart = 1"
| "record_type_u32 RT_CommandCommit = 2"
| "record_type_u32 RT_FabricSnapshot = 3"
| "record_type_u32 RT_EvidenceSubmit = 4"
| "record_type_u32 RT_Fence = 5"
| "record_type_u32 RT_Marker = 6"

definition record_type_of_u32 :: "u32 \<Rightarrow> record_type" where
  "record_type_of_u32 v = (if v = 1 then RT_IncarnationStart else if v = 2 then RT_CommandCommit
     else if v = 3 then RT_FabricSnapshot else if v = 4 then RT_EvidenceSubmit else if v = 5 then RT_Fence
     else RT_Marker)"

fun record_type_string :: "record_type \<Rightarrow> string" where
  "record_type_string RT_IncarnationStart = ''incarnation_start''"
| "record_type_string RT_CommandCommit = ''command_commit''"
| "record_type_string RT_FabricSnapshot = ''fabric_snapshot''"
| "record_type_string RT_EvidenceSubmit = ''evidence_submit''"
| "record_type_string RT_Fence = ''fence''"
| "record_type_string RT_Marker = ''marker''"

datatype recovery_status =
  RS_Missing | RS_Empty | RS_Clean | RS_CrashWithoutTrailer | RS_TruncatedTail | RS_ChainBroken
| RS_Corrupt | RS_IncompatibleVersion | RS_IoError

fun recovery_status_string :: "recovery_status \<Rightarrow> string" where
  "recovery_status_string RS_Missing = ''missing''"
| "recovery_status_string RS_Empty = ''empty''"
| "recovery_status_string RS_Clean = ''clean''"
| "recovery_status_string RS_CrashWithoutTrailer = ''crash_without_trailer''"
| "recovery_status_string RS_TruncatedTail = ''truncated_tail''"
| "recovery_status_string RS_ChainBroken = ''chain_broken''"
| "recovery_status_string RS_Corrupt = ''corrupt''"
| "recovery_status_string RS_IncompatibleVersion = ''incompatible_version''"
| "recovery_status_string RS_IoError = ''io_error''"

record recovered_record =
  rr_type :: record_type
  rr_seq :: sequence_number
  rr_generation :: topology_generation
  rr_epoch :: epoch
  rr_incarnation :: controller_incarnation
  rr_payload :: bytes
  rr_from_snapshot :: bool
  rr_chain :: digest

record recovery_report =
  rpt_status :: recovery_status
  rpt_code :: status_code
  rpt_detail :: string
  rpt_journal_present :: bool
  rpt_snapshot_present :: bool
  rpt_snapshot_used :: bool
  rpt_snapshot_corrupt :: bool
  rpt_records_valid :: u64
  rpt_records_rejected :: u64
  rpt_bytes_read :: u64
  rpt_bytes_dropped :: u64
  rpt_dynamic_evidence_recovered :: bool
  rpt_requires_reobservation :: bool
  rpt_last_epoch :: epoch
  rpt_last_generation :: topology_generation
  rpt_last_incarnation :: controller_incarnation
  rpt_last_chain :: digest

definition empty_recovery :: recovery_report where
  "empty_recovery = \<lparr>rpt_status = RS_Missing, rpt_code = SC_Ok, rpt_detail = [], rpt_journal_present = False,
     rpt_snapshot_present = False, rpt_snapshot_used = False, rpt_snapshot_corrupt = False,
     rpt_records_valid = 0, rpt_records_rejected = 0, rpt_bytes_read = 0, rpt_bytes_dropped = 0,
     rpt_dynamic_evidence_recovered = False, rpt_requires_reobservation = False, rpt_last_epoch = 0,
     rpt_last_generation = 0, rpt_last_incarnation = Incarnation 0 0, rpt_last_chain = zero_digest\<rparr>"

definition recovery_usable :: "recovery_report \<Rightarrow> bool" where
  "recovery_usable r = (rpt_status r \<in> {RS_Clean, RS_CrashWithoutTrailer, RS_TruncatedTail, RS_Empty})"

definition recovery_report_string :: "recovery_report \<Rightarrow> string" where
  "recovery_report_string r =
     recovery_status_string (rpt_status r) @ '' ('' @ status_code_string (rpt_code r) @ ''): '' @ rpt_detail r @ [CHR 0x0A]
     @ ''  journal='' @ (if rpt_journal_present r then ''present'' else ''absent'')
     @ '' snapshot='' @ (if rpt_snapshot_present r then (if rpt_snapshot_used r then ''used'' else ''present'') else ''absent'')
     @ '' snapshot_corrupt='' @ bool_text (rpt_snapshot_corrupt r) @ [CHR 0x0A]
     @ ''  records_valid='' @ u_string (rpt_records_valid r) @ '' records_rejected='' @ u_string (rpt_records_rejected r)
     @ '' bytes_read='' @ u_string (rpt_bytes_read r) @ '' bytes_dropped='' @ u_string (rpt_bytes_dropped r) @ [CHR 0x0A]
     @ ''  dynamic_evidence_recovered='' @ bool_text (rpt_dynamic_evidence_recovered r)
     @ '' requires_reobservation='' @ bool_text (rpt_requires_reobservation r) @ [CHR 0x0A]
     @ ''  last_epoch='' @ u_string (rpt_last_epoch r) @ '' last_generation='' @ u_string (rpt_last_generation r)
     @ '' last_incarnation='' @ incarnation_string (rpt_last_incarnation r)
     @ '' last_chain='' @ digest_short_hex (rpt_last_chain r) 16 @ [CHR 0x0A]"

record store_config =
  cfg_max_record_bytes :: u64
  cfg_max_records_per_segment :: u64
  cfg_max_segments :: u32
  cfg_max_recovery_bytes :: u64
  cfg_max_snapshot_bytes :: u64
  cfg_sync_on_commit :: bool

definition default_store_config :: store_config where
  "default_store_config = \<lparr>cfg_max_record_bytes = 1024 * 1024, cfg_max_records_per_segment = 100000,
     cfg_max_segments = 4, cfg_max_recovery_bytes = 256 * 1024 * 1024,
     cfg_max_snapshot_bytes = 64 * 1024 * 1024, cfg_sync_on_commit = True\<rparr>"

section \<open>Layout\<close>

definition kHeaderBytes :: nat where
  "kHeaderBytes = 128"

definition kRecordHeaderBytes :: nat where
  "kRecordHeaderBytes = 112"

definition kTrailerBytes :: nat where
  "kTrailerBytes = 96"

definition kHeaderMagic :: bytes where
  "kHeaderMagic = text_bytes ''SLFJRN01''"

definition kTrailerMagic :: bytes where
  "kTrailerMagic = text_bytes ''SLFEND01''"

definition kRecordMagic :: u32 where
  "kRecordMagic = 0x534C4652"

text \<open>\<open>std::copy\<close> or \<open>std::memcpy\<close> of \<open>src\<close> into a buffer at an offset.\<close>

definition copy_at :: "nat \<Rightarrow> bytes \<Rightarrow> bytes \<Rightarrow> bytes" where
  "copy_at at src dst = take at dst @ src @ drop (at + length src) dst"

definition encode_journal_header :: "controller_incarnation \<Rightarrow> u32 \<Rightarrow> u64 \<Rightarrow> sequence_number \<Rightarrow> bytes" where
  "encode_journal_header inc segment_index created_unix_ms first_sequence =
     (let header = copy_at 0 kHeaderMagic (replicate kHeaderBytes 0);
          fields = bw_buffer (puts [bw_u32 kPersistenceFormatVersion, bw_u32 (of_nat kHeaderBytes),
                     bw_u64 created_unix_ms, bw_u64 (inc_hi inc), bw_u64 (inc_lo inc), bw_u32 segment_index,
                     bw_u32 0, bw_u64 first_sequence, bw_u64 0] (new_writer kDefaultMaxBytes));
          header = copy_at 8 fields header
      in copy_at 64 (digest_of (take 64 header)) header)"

record journal_header =
  jh_format_version :: u32
  jh_created_unix_ms :: u64
  jh_incarnation :: controller_incarnation
  jh_segment_index :: u32
  jh_first_sequence :: sequence_number
  jh_digest :: digest

definition decode_journal_header :: "bytes \<Rightarrow> journal_header outcome" where
  "decode_journal_header bs =
     (if length bs < kHeaderBytes
      then Inl (Status SC_Truncated ''journal header is shorter than the fixed size'')
      else if take 8 bs \<noteq> kHeaderMagic then Inl (Status SC_Corrupt ''journal header magic does not match'')
      else if (le_load 4 bs 8 :: u32) \<noteq> kPersistenceFormatVersion
      then Inl (Status SC_IncompatibleVersion
             (''journal format version '' @ u_string (le_load 4 bs 8 :: u32) @ '' is not supported''))
      else if digest_of (take 64 bs) \<noteq> take 32 (drop 64 bs)
      then Inl (Status SC_IntegrityError ''journal header digest does not match its contents'')
      else case br_u32 (new_reader (take 56 (drop 8 bs)) kDefaultMaxString) of (ver, r0) \<Rightarrow>
           case br_u32 r0 of (hb, r1) \<Rightarrow> case br_u64 r1 of (created, r2) \<Rightarrow>
           case br_u64 r2 of (hi, r3) \<Rightarrow> case br_u64 r3 of (lo, r4) \<Rightarrow>
           case br_u32 r4 of (seg, r5) \<Rightarrow> case br_u32 r5 of (res, r6) \<Rightarrow>
           case br_u64 r6 of (fs, r7) \<Rightarrow> case br_u64 r7 of (res2, r8) \<Rightarrow>
           if \<not> outcome_ok ver \<or> \<not> outcome_ok hb \<or> \<not> outcome_ok created \<or> \<not> outcome_ok hi \<or> \<not> outcome_ok lo
              \<or> \<not> outcome_ok seg \<or> \<not> outcome_ok res \<or> \<not> outcome_ok fs \<or> \<not> outcome_ok res2
           then Inl (Status SC_Corrupt ''journal header fields are incomplete'')
           else if projr fs = 0
           then Inl (Status SC_Corrupt ''journal header declares sequence zero as its first record'')
           else if unat (projr hb) \<noteq> kHeaderBytes
           then Inl (Status SC_Corrupt ''journal header declares an unexpected size'')
           else if projr ver \<noteq> kPersistenceFormatVersion
           then Inl (Status SC_IncompatibleVersion
                  (''journal format version '' @ u_string (projr ver) @ '' is not supported''))
           else Inr \<lparr>jh_format_version = projr ver, jh_created_unix_ms = projr created,
                     jh_incarnation = Incarnation (projr hi) (projr lo), jh_segment_index = projr seg,
                     jh_first_sequence = projr fs, jh_digest = take 32 (drop 64 bs)\<rparr>)"

section \<open>The store\<close>

record fabric_store =
  fs_open :: bool
  fs_disk :: bytes
  fs_config :: store_config
  fs_incarnation :: controller_incarnation
  fs_segment_index :: u32
  fs_last_sequence :: sequence_number
  fs_first_sequence :: sequence_number
  fs_chain :: digest
  fs_records :: u64
  fs_closed :: bool
  fs_sync_failures :: bool
  fs_poisoned :: bool

text \<open>What the operating system does with one append or close.\<close>

record write_io =
  wi_header :: nat
  wi_payload :: nat
  wi_flush :: bool
  wi_sync :: status

definition write_all :: "nat \<Rightarrow> bytes \<Rightarrow> bytes \<Rightarrow> status \<times> bytes" where
  "write_all accepted data disk =
     (if length data = 0 then (status_success, disk)
      else if accepted < length data
      then (Status SC_IoError ''short write to the journal'', disk @ take accepted data)
      else (status_success, disk @ data))"

definition sync_locked :: "write_io \<Rightarrow> fabric_store \<Rightarrow> status \<times> fabric_store" where
  "sync_locked io s =
     (if \<not> fs_open s then (Status SC_Closed ''journal segment is closed'', s)
      else if \<not> wi_flush io then (Status SC_IoError ''fflush failed'', s\<lparr>fs_sync_failures := True\<rparr>)
      else if \<not> cfg_sync_on_commit (fs_config s) then (status_success, s)
      else if \<not> status_ok (wi_sync io) then (wi_sync io, s\<lparr>fs_sync_failures := True\<rparr>)
      else (wi_sync io, s))"

definition record_head :: "sequence_number \<Rightarrow> record_type \<Rightarrow> bytes \<Rightarrow> topology_generation \<Rightarrow> epoch \<Rightarrow> digest \<Rightarrow> bytes" where
  "record_head sq type payload generation ep chain =
     bw_buffer (puts [bw_u32 kRecordMagic, bw_u32 kPersistenceFormatVersion, bw_u64 sq,
       bw_u32 (record_type_u32 type), bw_u32 0, bw_u32 (of_nat (length payload)), bw_u32 0, bw_u64 generation,
       bw_u64 ep, bw_bytes chain] (new_writer kDefaultMaxBytes))"

definition append_record ::
  "record_type \<Rightarrow> bytes \<Rightarrow> controller_incarnation \<Rightarrow> epoch \<Rightarrow> topology_generation \<Rightarrow> write_io \<Rightarrow> fabric_store
     \<Rightarrow> status \<times> fabric_store" where
  "append_record type payload inc ep generation io s =
     (if incarnation_is_zero inc
      then (Status SC_Invalid ''a journal record must name the controller incarnation that wrote it'', s)
      else if fs_closed s then (Status SC_Closed ''journal segment is closed'', s)
      else if length payload > unat (cfg_max_record_bytes (fs_config s))
      then (Status SC_Exhausted ''record payload exceeds the configured bound'', s)
      else if fs_poisoned s
      then (Status SC_IntegrityError ''journal segment is poisoned by an earlier short write'', s)
      else if fs_records s \<ge> cfg_max_records_per_segment (fs_config s)
      then (Status SC_Exhausted ''journal segment is full and must be rotated'', s)
      else case checked_add (fs_last_sequence s) 1 of
             None \<Rightarrow> (Status SC_Overflow ''journal sequence overflow'', s)
           | Some next_sequence \<Rightarrow>
               (let header = copy_at 0 (record_head next_sequence type payload generation ep (fs_chain s))
                               (replicate kRecordHeaderBytes 0);
                    record_digest = sha_finish (sha_update payload (sha_update (take 80 header) sha256_reset));
                    header = copy_at 80 record_digest header
                in case write_all (wi_header io) header (fs_disk s) of (st, disk1) \<Rightarrow>
                   if \<not> status_ok st then (st, s\<lparr>fs_disk := disk1, fs_poisoned := True\<rparr>)
                   else case write_all (wi_payload io) payload disk1 of (st, disk2) \<Rightarrow>
                   if \<not> status_ok st then (st, s\<lparr>fs_disk := disk2, fs_poisoned := True\<rparr>)
                   else case sync_locked io (s\<lparr>fs_disk := disk2\<rparr>) of (st, s1) \<Rightarrow>
                   if \<not> status_ok st then (st, s1\<lparr>fs_poisoned := True\<rparr>)
                   else (status_success, s1\<lparr>fs_last_sequence := next_sequence, fs_chain := record_digest,
                           fs_records := fs_records s1 + 1\<rparr>)))"

definition append_marker ::
  "string \<Rightarrow> controller_incarnation \<Rightarrow> epoch \<Rightarrow> topology_generation \<Rightarrow> write_io \<Rightarrow> fabric_store
     \<Rightarrow> status \<times> fabric_store" where
  "append_marker t inc ep generation io s =
     (case bw_string t (new_writer 4096) of (st, w) \<Rightarrow>
      if \<not> status_ok st then (st, s)
      else append_record RT_Marker (bw_buffer w) inc ep generation io s)"

definition append_fabric ::
  "fabric \<Rightarrow> controller_incarnation \<Rightarrow> epoch \<Rightarrow> write_io \<Rightarrow> fabric_store \<Rightarrow> status \<times> fabric_store" where
  "append_fabric f inc ep io s =
     (let payload = serialize_fabric f in
      if length payload > unat (cfg_max_record_bytes (fs_config s))
      then (Status SC_Exhausted ''fabric snapshot exceeds the journal record bound'', s)
      else append_record RT_FabricSnapshot payload inc ep (fab_generation f) io s)"

definition append_command ::
  "command \<Rightarrow> command_result \<Rightarrow> controller_incarnation \<Rightarrow> epoch \<Rightarrow> write_io \<Rightarrow> fabric_store
     \<Rightarrow> status \<times> fabric_store" where
  "append_command c r inc ep io s =
     (let bound = (if cfg_max_record_bytes (fs_config s) < 65536 then 65536 else cfg_max_record_bytes (fs_config s)) in
      case bw_block (serialize_command c) (new_writer (unat bound)) of (st, w) \<Rightarrow>
      if \<not> status_ok st then (st, s)
      else case bw_block (serialize_command_result r) w of (st, w') \<Rightarrow>
           if \<not> status_ok st then (st, s)
           else append_record RT_CommandCommit (bw_buffer w') inc ep (cr_generation r) io s)"

definition trailer_bytes :: "u64 \<Rightarrow> sequence_number \<Rightarrow> sequence_number \<Rightarrow> digest \<Rightarrow> bytes" where
  "trailer_bytes records last_seq first_seq chain =
     (let trailer = copy_at 0 kTrailerMagic (replicate kTrailerBytes 0);
          fields = bw_buffer (puts [bw_u32 kPersistenceFormatVersion, bw_u32 0, bw_u64 records, bw_u64 last_seq,
                     bw_u64 first_seq, bw_bytes chain] (new_writer kDefaultMaxBytes));
          trailer = copy_at 8 fields trailer;
          trailer_digest = sha_finish (sha_update (take (kTrailerBytes - 32) trailer) sha256_reset)
      in copy_at (kTrailerBytes - 32) trailer_digest trailer)"

definition close_clean :: "write_io \<Rightarrow> fabric_store \<Rightarrow> status \<times> fabric_store" where
  "close_clean io s =
     (if fs_closed s then (status_success, s)
      else if \<not> fs_open s then (status_success, s\<lparr>fs_closed := True\<rparr>)
      else let trailer = trailer_bytes (fs_records s) (fs_last_sequence s) (fs_first_sequence s) (fs_chain s) in
           case write_all (wi_header io) trailer (fs_disk s) of (st, disk) \<Rightarrow>
           if \<not> status_ok st then (st, s\<lparr>fs_disk := disk\<rparr>)
           else (wi_sync io, s\<lparr>fs_disk := disk, fs_open := False, fs_closed := True,
                              fs_chain := drop (kTrailerBytes - 32) trailer\<rparr>))"

definition store_sync :: "write_io \<Rightarrow> fabric_store \<Rightarrow> status \<times> fabric_store" where
  "store_sync io s = sync_locked io s"

text \<open>The header part of \<open>FabricStore::create\<close>, once the segment file has been opened for writing.\<close>

definition open_segment ::
  "store_config \<Rightarrow> controller_incarnation \<Rightarrow> u32 \<Rightarrow> sequence_number \<Rightarrow> u64 \<Rightarrow> write_io \<Rightarrow> fabric_store outcome" where
  "open_segment cfg inc segment_index first_sequence now io =
     (let header = encode_journal_header inc segment_index now first_sequence in
      case write_all (wi_header io) header [] of (st, disk) \<Rightarrow>
      if \<not> status_ok st then Inl st
      else if \<not> status_ok (wi_sync io) then Inl (wi_sync io)
      else Inr \<lparr>fs_open = True, fs_disk = disk, fs_config = cfg, fs_incarnation = inc,
                fs_segment_index = segment_index,
                fs_last_sequence = (if first_sequence = 0 then 0 else first_sequence - 1),
                fs_first_sequence = first_sequence, fs_chain = digest_of header, fs_records = 0,
                fs_closed = False, fs_sync_failures = False, fs_poisoned = False\<rparr>)"

section \<open>Recovery scan\<close>

text \<open>
  \<open>scan_record\<close> is one iteration of the loop of \<open>recover_journal\<close> on the bytes from the current
  offset on: the reason to stop, or the fields of a verified record. The bound on collected
  records applies only when the caller collects them.
\<close>

record scanned_record =
  sn_seq :: sequence_number
  sn_type :: u32
  sn_generation :: topology_generation
  sn_epoch :: epoch
  sn_payload :: bytes
  sn_digest :: digest

type_synonym scan_stop = "recovery_status \<times> status_code \<times> string"

definition kReplayBound :: nat where
  "kReplayBound = 1000000"

definition replay_full :: "recovered_record list option \<Rightarrow> bool" where
  "replay_full out = (case out of None \<Rightarrow> False | Some rs \<Rightarrow> kReplayBound \<le> length rs)"

definition scan_record ::
  "store_config \<Rightarrow> bytes \<Rightarrow> nat \<Rightarrow> digest \<Rightarrow> sequence_number \<Rightarrow> bool \<Rightarrow> scan_stop + scanned_record" where
  "scan_record cfg base offset chain expected full =
     (let remaining = length base;
          payload_len = (le_load 4 base 24 :: u32);
          record_total = kRecordHeaderBytes + unat payload_len;
          sq = (le_load 8 base 8 :: u64);
          type = (le_load 4 base 16 :: u32);
          payload = take (unat payload_len) (drop kRecordHeaderBytes base);
          computed = sha_finish (sha_update payload (sha_update (take 80 base) sha256_reset))
      in if remaining < kRecordHeaderBytes
         then Inl (RS_TruncatedTail, SC_Truncated,
                ''final record header is incomplete ('' @ dec_string remaining @ '' bytes)'')
         else if (le_load 4 base 0 :: u32) \<noteq> kRecordMagic
         then Inl (RS_Corrupt, SC_Corrupt, ''record magic does not match at offset '' @ dec_string offset)
         else if (le_load 4 base 4 :: u32) \<noteq> kPersistenceFormatVersion
         then Inl (RS_IncompatibleVersion, SC_IncompatibleVersion,
                ''record format version '' @ u_string (le_load 4 base 4 :: u32) @ '' is not supported'')
         else if unat payload_len > unat (cfg_max_record_bytes cfg)
         then Inl (RS_Corrupt, SC_Exhausted, ''record declares a payload larger than the configured bound'')
         else if remaining < record_total
         then Inl (RS_TruncatedTail, SC_Truncated,
                ''final record is incomplete: declared '' @ dec_string record_total @ '' bytes, ''
                @ dec_string remaining @ '' available'')
         else if take 32 (drop 48 base) \<noteq> chain
         then Inl (RS_ChainBroken, SC_IntegrityError,
                ''record chain does not continue at offset '' @ dec_string offset)
         else if computed \<noteq> take 32 (drop 80 base)
         then Inl (RS_Corrupt, SC_IntegrityError,
                ''record digest does not match its contents at offset '' @ dec_string offset)
         else if sq \<noteq> expected
         then Inl (RS_ChainBroken, SC_Conflicting,
                ''record sequence '' @ u_string sq @ '' does not continue from '' @ u_string expected
                @ '' (replay or reordering)'')
         else if type = 0 \<or> type > 6
         then Inl (RS_Corrupt, SC_Invalid, ''record carries an unknown record type'')
         else if full
         then Inl (RS_Corrupt, SC_Exhausted, ''record count exceeds the in-memory replay bound'')
         else Inr \<lparr>sn_seq = sq, sn_type = type, sn_generation = le_load 8 base 32, sn_epoch = le_load 8 base 40,
                   sn_payload = payload, sn_digest = computed\<rparr>)"

definition trailer_at :: "bytes \<Rightarrow> bool" where
  "trailer_at base = (length base \<ge> 8 \<and> take 8 base = kTrailerMagic)"

definition stop_scan :: "recovery_status \<Rightarrow> status_code \<Rightarrow> string \<Rightarrow> nat \<Rightarrow> recovery_report \<Rightarrow> recovery_report" where
  "stop_scan st code detail dropped r =
     r\<lparr>rpt_status := st, rpt_code := code, rpt_detail := detail,
       rpt_bytes_dropped := rpt_bytes_dropped r + of_nat dropped\<rparr>"

definition scan_trailer :: "bytes \<Rightarrow> recovery_report \<Rightarrow> recovery_report" where
  "scan_trailer base r =
     (let remaining = length base in
      if remaining < kTrailerBytes
      then stop_scan RS_TruncatedTail SC_Truncated ''clean-shutdown trailer is incomplete'' remaining r
      else if sha_finish (sha_update (take (kTrailerBytes - 32) base) sha256_reset)
                \<noteq> take 32 (drop (kTrailerBytes - 32) base)
      then stop_scan RS_Corrupt SC_IntegrityError ''clean-shutdown trailer digest does not match'' remaining r
      else if kTrailerBytes \<noteq> remaining
      then stop_scan RS_Corrupt SC_Invalid ''bytes appear after the clean-shutdown trailer''
             (remaining - kTrailerBytes) r
      else r\<lparr>rpt_status := RS_Clean, rpt_code := SC_Ok,
             rpt_detail := ''journal verified: header, record chain, and clean-shutdown trailer''\<rparr>)"

definition recovered_of :: "controller_incarnation \<Rightarrow> scanned_record \<Rightarrow> recovered_record" where
  "recovered_of inc sn =
     \<lparr>rr_type = record_type_of_u32 (sn_type sn), rr_seq = sn_seq sn, rr_generation = sn_generation sn,
      rr_epoch = sn_epoch sn, rr_incarnation = inc, rr_payload = sn_payload sn, rr_from_snapshot = False,
      rr_chain = sn_digest sn\<rparr>"

definition note_record :: "scanned_record \<Rightarrow> recovery_report \<Rightarrow> recovery_report" where
  "note_record sn r =
     (let r = r\<lparr>rpt_last_chain := sn_digest sn, rpt_last_epoch := sn_epoch sn,
                rpt_last_generation := sn_generation sn, rpt_records_valid := rpt_records_valid r + 1\<rparr>
      in if sn_type sn = record_type_u32 RT_EvidenceSubmit
         then r\<lparr>rpt_dynamic_evidence_recovered := True, rpt_requires_reobservation := True\<rparr> else r)"

definition record_total :: "scanned_record \<Rightarrow> nat" where
  "record_total sn = kRecordHeaderBytes + length (sn_payload sn)"

function scan_journal ::
  "store_config \<Rightarrow> controller_incarnation \<Rightarrow> bytes \<Rightarrow> nat \<Rightarrow> digest \<Rightarrow> sequence_number \<Rightarrow> recovery_report
     \<Rightarrow> recovered_record list option \<Rightarrow> recovery_report \<times> recovered_record list option" where
  "scan_journal cfg inc base offset chain expected r out =
     (if base = [] then (r, out)
      else if trailer_at base then (scan_trailer base r, out)
      else case scan_record cfg base offset chain expected (replay_full out) of
             Inl (st, code, detail) \<Rightarrow> (stop_scan st code detail (length base) r, out)
           | Inr sn \<Rightarrow>
               scan_journal cfg inc (drop (record_total sn) base) (offset + record_total sn) (sn_digest sn)
                 (expected + 1) (note_record sn r) (map_option (\<lambda>rs. rs @ [recovered_of inc sn]) out))"
  by pat_completeness auto
termination
  by (relation "measure (\<lambda>(cfg, inc, base, off, chain, ex, r, out). length base)")
    (auto simp: record_total_def kRecordHeaderBytes_def)

declare scan_journal.simps [simp del]

text \<open>The bytes of a segment file that was read; \<open>bs\<close> is the whole file.\<close>

definition recover_bytes :: "store_config \<Rightarrow> bytes \<Rightarrow> bool \<Rightarrow> recovery_report \<times> recovered_record list option" where
  "recover_bytes cfg bs collect =
     (let out = (if collect then Some [] else None);
          r = empty_recovery\<lparr>rpt_journal_present := True\<rparr>
      in if length bs > unat (cfg_max_recovery_bytes cfg)
         then (r\<lparr>rpt_status := RS_Corrupt, rpt_code := SC_Exhausted,
                 rpt_detail := ''journal is larger than the recovery bound; refusing to interpret a prefix as ''
                   @ ''complete state''\<rparr>, out)
         else let r = r\<lparr>rpt_bytes_read := of_nat (length bs)\<rparr> in
              if bs = []
              then (r\<lparr>rpt_status := RS_Empty, rpt_code := SC_Ok, rpt_detail := ''journal segment holds no bytes''\<rparr>, out)
              else case decode_journal_header (take kHeaderBytes bs) of
                     Inl st \<Rightarrow>
                       (r\<lparr>rpt_status := (if st_code st = SC_IncompatibleVersion then RS_IncompatibleVersion
                                         else RS_Corrupt),
                          rpt_code := st_code st, rpt_detail := st_detail st,
                          rpt_bytes_dropped := of_nat (length bs)\<rparr>, out)
                   | Inr h \<Rightarrow>
                       (let chain = digest_of (take kHeaderBytes bs);
                            r = r\<lparr>rpt_last_incarnation := jh_incarnation h, rpt_last_chain := chain,
                                  rpt_status := RS_CrashWithoutTrailer, rpt_code := SC_Ok,
                                  rpt_detail := ''records verified, no clean-shutdown trailer''\<rparr>
                        in case scan_journal cfg (jh_incarnation h) (drop kHeaderBytes bs) kHeaderBytes chain
                                  (jh_first_sequence h) r out of
                             (r, out) \<Rightarrow>
                               (if rpt_status r = RS_Clean
                                then r\<lparr>rpt_requires_reobservation := rpt_dynamic_evidence_recovered r\<rparr> else r, out)))"

section \<open>Reference encodings\<close>

record journal_entry =
  je_type :: record_type
  je_generation :: topology_generation
  je_epoch :: epoch
  je_payload :: bytes

definition head_enc :: "digest \<Rightarrow> sequence_number \<Rightarrow> journal_entry \<Rightarrow> bytes" where
  "head_enc chain sq e =
     le_bytes 4 kRecordMagic @ le_bytes 4 kPersistenceFormatVersion @ le_bytes 8 sq
     @ le_bytes 4 (record_type_u32 (je_type e)) @ le_bytes 4 (0 :: u32)
     @ le_bytes 4 (of_nat (length (je_payload e)) :: u32) @ le_bytes 4 (0 :: u32)
     @ le_bytes 8 (je_generation e) @ le_bytes 8 (je_epoch e) @ chain"

definition entry_digest :: "digest \<Rightarrow> sequence_number \<Rightarrow> journal_entry \<Rightarrow> digest" where
  "entry_digest chain sq e = digest_of (head_enc chain sq e @ je_payload e)"

definition entry_enc :: "digest \<Rightarrow> sequence_number \<Rightarrow> journal_entry \<Rightarrow> bytes" where
  "entry_enc chain sq e = head_enc chain sq e @ entry_digest chain sq e @ je_payload e"

fun chain_enc :: "digest \<Rightarrow> sequence_number \<Rightarrow> journal_entry list \<Rightarrow> bytes" where
  "chain_enc chain sq [] = []"
| "chain_enc chain sq (e # es) = entry_enc chain sq e @ chain_enc (entry_digest chain sq e) (sq + 1) es"

fun chain_end :: "digest \<Rightarrow> sequence_number \<Rightarrow> journal_entry list \<Rightarrow> digest" where
  "chain_end chain sq [] = chain"
| "chain_end chain sq (e # es) = chain_end (entry_digest chain sq e) (sq + 1) es"

fun chain_records :: "controller_incarnation \<Rightarrow> digest \<Rightarrow> sequence_number \<Rightarrow> journal_entry list \<Rightarrow> recovered_record list" where
  "chain_records inc chain sq [] = []"
| "chain_records inc chain sq (e # es) =
     \<lparr>rr_type = je_type e, rr_seq = sq, rr_generation = je_generation e, rr_epoch = je_epoch e,
      rr_incarnation = inc, rr_payload = je_payload e, rr_from_snapshot = False,
      rr_chain = entry_digest chain sq e\<rparr> # chain_records inc (entry_digest chain sq e) (sq + 1) es"

definition entry_fits :: "store_config \<Rightarrow> journal_entry \<Rightarrow> bool" where
  "entry_fits cfg e \<longleftrightarrow> length (je_payload e) \<le> unat (cfg_max_record_bytes cfg) \<and> length (je_payload e) < 2 ^ 32"

lemma length_head_enc: "length chain = 32 \<Longrightarrow> length (head_enc chain sq e) = 80"
  by (simp add: head_enc_def)

lemma length_entry_digest [simp]: "length (entry_digest chain sq e) = 32"
  by (simp add: entry_digest_def)

lemma length_entry_enc: "length chain = 32 \<Longrightarrow> length (entry_enc chain sq e) = 112 + length (je_payload e)"
  by (simp add: entry_enc_def length_head_enc)

lemma length_chain_end [simp]: "length chain = 32 \<Longrightarrow> length (chain_end chain sq es) = 32"
  by (induction es arbitrary: chain sq) simp_all

lemma chain_enc_append:
  "chain_enc chain sq (es @ fs)
     = chain_enc chain sq es @ chain_enc (chain_end chain sq es) (sq + of_nat (length es)) fs"
  by (induction es arbitrary: chain sq) (simp_all add: add_ac)

lemma chain_end_append:
  "chain_end chain sq (es @ fs) = chain_end (chain_end chain sq es) (sq + of_nat (length es)) fs"
  by (induction es arbitrary: chain sq) (simp_all add: add_ac)

lemma length_chain_records [simp]: "length (chain_records inc chain sq es) = length es"
  by (induction es arbitrary: chain sq) simp_all

lemma record_type_inverse [simp]: "record_type_of_u32 (record_type_u32 t) = t"
  by (cases t) (simp_all add: record_type_of_u32_def)

lemma record_type_range: "record_type_u32 t \<noteq> 0" "\<not> record_type_u32 t > 6"
  by (cases t; simp)+

lemma sha_two_updates: "sha_finish (sha_update b (sha_update a sha256_reset)) = digest_of (a @ b)"
  using sha_finish_reference [OF sha_repr_update [OF sha_repr_update [OF sha_repr_reset]], of b a]
  by (simp add: digest_of_reference)

lemma sha_one_update: "sha_finish (sha_update a sha256_reset) = digest_of a"
  by (simp add: digest_of_def)

lemma record_head_enc:
  assumes "length chain = 32"
  shows "record_head sq t payload g ep chain
    = head_enc chain sq \<lparr>je_type = t, je_generation = g, je_epoch = ep, je_payload = payload\<rparr>"
proof -
  let ?e = "\<lparr>je_type = t, je_generation = g, je_epoch = ep, je_payload = payload\<rparr>"
  let ?bss = "[le_bytes 4 kRecordMagic, le_bytes 4 kPersistenceFormatVersion, le_bytes 8 sq,
     le_bytes 4 (record_type_u32 t), le_bytes 4 (0 :: u32), le_bytes 4 (of_nat (length payload) :: u32),
     le_bytes 4 (0 :: u32), le_bytes 8 g, le_bytes 8 ep, chain]"
  have "record_head sq t payload g ep chain = concat ?bss"
    unfolding record_head_def
    by (rule buffer_puts) (simp_all add: emits_intros kDefaultMaxBytes_def assms)
  then show ?thesis by (simp add: head_enc_def)
qed

lemma copy_at_exact:
  "length pre = at \<Longrightarrow> length mid = length src \<Longrightarrow> copy_at at src (pre @ mid @ post) = pre @ src @ post"
  by (simp add: copy_at_def)

lemma record_header_bytes:
  assumes "length chain = 32"
  shows "copy_at 0 (record_head sq (je_type e) (je_payload e) (je_generation e) (je_epoch e) chain)
      (replicate kRecordHeaderBytes 0) = head_enc chain sq e @ replicate 32 0"
proof -
  have "replicate kRecordHeaderBytes (0::u8) = [] @ replicate 80 0 @ replicate 32 0"
    by (simp add: kRecordHeaderBytes_def flip: replicate_add)
  moreover have "head_enc chain sq \<lparr>je_type = je_type e, je_generation = je_generation e, je_epoch = je_epoch e,
      je_payload = je_payload e\<rparr> = head_enc chain sq e" by (simp add: head_enc_def)
  ultimately show ?thesis
    using copy_at_exact [of "[]" 0 "replicate 80 0" "head_enc chain sq e" "replicate 32 0"] assms
    by (simp add: record_head_enc length_head_enc)
qed

section \<open>Scanning what was written\<close>

lemma le_load_front: "8 * n = LENGTH('a) \<Longrightarrow> le_load n (le_bytes n v @ rest) 0 = (v :: 'a::len word)"
  using le_load_le_bytes [of "[]" 0 n v rest] by simp

lemma le_load_skip: "le_load n (pre @ rest) (length pre + k) = le_load n rest k"
  by (simp add: le_load_def nth_append add.assoc)

lemma record_loads:
  fixes chain sq e rest
  defines "base \<equiv> head_enc chain sq e @ rest"
  shows "le_load 4 base 0 = kRecordMagic" and "le_load 4 base 4 = kPersistenceFormatVersion"
    and "le_load 8 base 8 = sq" and "le_load 4 base 16 = record_type_u32 (je_type e)"
    and "le_load 4 base 24 = (of_nat (length (je_payload e)) :: u32)"
    and "le_load 8 base 32 = je_generation e" and "le_load 8 base 40 = je_epoch e"
proof -
  let ?m = "le_bytes 4 kRecordMagic" and ?v = "le_bytes 4 kPersistenceFormatVersion" and ?s = "le_bytes 8 sq"
    and ?t = "le_bytes 4 (record_type_u32 (je_type e))" and ?z = "le_bytes 4 (0 :: u32)"
    and ?l = "le_bytes 4 (of_nat (length (je_payload e)) :: u32)" and ?g = "le_bytes 8 (je_generation e)"
  show "le_load 4 base 0 = kRecordMagic"
    unfolding base_def head_enc_def append_assoc by (rule le_load_front) simp
  show "le_load 4 base 4 = kPersistenceFormatVersion"
    using le_load_le_bytes [of ?m 4 4 kPersistenceFormatVersion] by (simp add: base_def head_enc_def)
  show "le_load 8 base 8 = sq"
    using le_load_le_bytes [of "?m @ ?v" 8 8 sq] by (simp add: base_def head_enc_def)
  show "le_load 4 base 16 = record_type_u32 (je_type e)"
    using le_load_le_bytes [of "?m @ ?v @ ?s" 16 4 "record_type_u32 (je_type e)"] by (simp add: base_def head_enc_def)
  show "le_load 4 base 24 = (of_nat (length (je_payload e)) :: u32)"
    using le_load_le_bytes [of "?m @ ?v @ ?s @ ?t @ ?z" 24 4 "of_nat (length (je_payload e)) :: u32"]
    by (simp add: base_def head_enc_def)
  show "le_load 8 base 32 = je_generation e"
    using le_load_le_bytes [of "?m @ ?v @ ?s @ ?t @ ?z @ ?l @ ?z" 32 8 "je_generation e"]
    by (simp add: base_def head_enc_def)
  show "le_load 8 base 40 = je_epoch e"
    using le_load_le_bytes [of "?m @ ?v @ ?s @ ?t @ ?z @ ?l @ ?z @ ?g" 40 8 "je_epoch e"]
    by (simp add: base_def head_enc_def)
qed

lemma payload_len: "entry_fits cfg e \<Longrightarrow> unat (of_nat (length (je_payload e)) :: u32) = length (je_payload e)"
  by (simp add: entry_fits_def unat_of_nat)

lemma record_not_trailer: "\<not> trailer_at (head_enc chain sq e @ rest)"
proof -
  have "le_bytes 4 kRecordMagic @ le_bytes 4 kPersistenceFormatVersion \<noteq> kTrailerMagic"
    by code_simp
  then show ?thesis by (simp add: trailer_at_def head_enc_def)
qed

lemma scan_record_entry:
  assumes "length chain = 32" and "entry_fits cfg e"
  shows "scan_record cfg (entry_enc chain sq e @ rest) offset chain sq False
    = Inr \<lparr>sn_seq = sq, sn_type = record_type_u32 (je_type e), sn_generation = je_generation e,
           sn_epoch = je_epoch e, sn_payload = je_payload e, sn_digest = entry_digest chain sq e\<rparr>"
proof -
  let ?base = "head_enc chain sq e @ entry_digest chain sq e @ je_payload e @ rest"
  have h: "length (head_enc chain sq e) = 80" using assms(1) by (rule length_head_enc)
  have parts: "take 80 ?base = head_enc chain sq e" "take 32 (drop 80 ?base) = entry_digest chain sq e"
    "take (length (je_payload e)) (drop 112 ?base) = je_payload e" "take 32 (drop 48 ?base) = chain"
    using h assms(1) by (simp_all add: head_enc_def)
  have "entry_enc chain sq e @ rest = ?base" by (simp add: entry_enc_def)
  moreover have "scan_record cfg ?base offset chain sq False
    = Inr \<lparr>sn_seq = sq, sn_type = record_type_u32 (je_type e), sn_generation = je_generation e,
           sn_epoch = je_epoch e, sn_payload = je_payload e, sn_digest = entry_digest chain sq e\<rparr>"
    unfolding scan_record_def Let_def record_loads payload_len [OF assms(2)] kRecordHeaderBytes_def parts sha_two_updates
    using h assms(2) record_type_range by (simp add: entry_fits_def entry_digest_def [symmetric])
  ultimately show ?thesis by simp
qed

definition note_entry :: "digest \<Rightarrow> sequence_number \<Rightarrow> journal_entry \<Rightarrow> recovery_report \<Rightarrow> recovery_report" where
  "note_entry chain sq e r = note_record \<lparr>sn_seq = sq, sn_type = record_type_u32 (je_type e),
     sn_generation = je_generation e, sn_epoch = je_epoch e, sn_payload = je_payload e,
     sn_digest = entry_digest chain sq e\<rparr> r"

fun note_chain :: "digest \<Rightarrow> sequence_number \<Rightarrow> journal_entry list \<Rightarrow> recovery_report \<Rightarrow> recovery_report" where
  "note_chain chain sq [] r = r"
| "note_chain chain sq (e # es) r = note_chain (entry_digest chain sq e) (sq + 1) es (note_entry chain sq e r)"

lemma scan_chain:
  assumes "length chain = 32" and "list_all (entry_fits cfg) es" and "length rs + length es \<le> kReplayBound"
  shows "scan_journal cfg inc (chain_enc chain sq es @ tail) offset chain sq r (Some rs)
    = scan_journal cfg inc tail (offset + length (chain_enc chain sq es)) (chain_end chain sq es)
        (sq + of_nat (length es)) (note_chain chain sq es r) (Some (rs @ chain_records inc chain sq es))"
  using assms
proof (induction es arbitrary: chain sq offset r rs)
  case (Cons e es)
  let ?rest = "chain_enc (entry_digest chain sq e) (sq + 1) es @ tail"
  let ?sn = "\<lparr>sn_seq = sq, sn_type = record_type_u32 (je_type e), sn_generation = je_generation e,
      sn_epoch = je_epoch e, sn_payload = je_payload e, sn_digest = entry_digest chain sq e\<rparr>"
  have fits: "entry_fits cfg e" and room: "\<not> replay_full (Some rs)"
    using Cons.prems by (simp_all add: replay_full_def)
  have total: "record_total ?sn = length (entry_enc chain sq e)"
    using Cons.prems(1) by (simp add: record_total_def kRecordHeaderBytes_def length_entry_enc)
  have ne: "entry_enc chain sq e @ ?rest \<noteq> []" "\<not> trailer_at (entry_enc chain sq e @ ?rest)"
    using record_not_trailer [of chain sq e] length_entry_enc [OF Cons.prems(1), of sq e]
    by (auto simp: entry_enc_def)
  have step: "scan_journal cfg inc (entry_enc chain sq e @ ?rest) offset chain sq r (Some rs)
    = scan_journal cfg inc ?rest (offset + length (entry_enc chain sq e)) (entry_digest chain sq e) (sq + 1)
        (note_entry chain sq e r) (Some (rs @ [recovered_of inc ?sn]))"
    unfolding scan_journal.simps [of cfg inc "entry_enc chain sq e @ ?rest"] if_not_P [OF ne(1)] if_not_P [OF ne(2)]
    using scan_record_entry [OF Cons.prems(1) fits, of sq ?rest offset] room
    by (simp add: total note_entry_def)
  have "recovered_of inc ?sn # chain_records inc (entry_digest chain sq e) (sq + 1) es = chain_records inc chain sq (e # es)"
    by (simp add: recovered_of_def)
  then show ?case
    using Cons.IH [of "entry_digest chain sq e" "rs @ [recovered_of inc ?sn]" "sq + 1"] Cons.prems(2,3) step
    by (simp add: add_ac)
qed simp

lemma trailer_at_prefix:
  assumes "8 \<le> n" and "n \<le> length bs"
  shows "trailer_at (take n bs) \<longleftrightarrow> trailer_at bs"
  using assms by (simp add: trailer_at_def min_def)

lemma scan_torn:
  assumes "length chain = 32" and "entry_fits cfg e" and "0 < n" and "n < length (entry_enc chain sq e)"
  shows "\<exists>detail. scan_journal cfg inc (take n (entry_enc chain sq e)) offset chain sq r out
    = (stop_scan RS_TruncatedTail SC_Truncated detail n r, out)"
proof -
  let ?base = "take n (entry_enc chain sq e)"
  have len: "length ?base = n" using assms(4) by simp
  have ne: "?base \<noteq> []" using assms(3) len by (metis list.size(3) less_numeral_extra(3))
  have nt: "\<not> trailer_at ?base"
  proof (cases "8 \<le> n")
    case True
    have "trailer_at ?base = trailer_at (entry_enc chain sq e)"
      by (rule trailer_at_prefix) (use True assms(4) in auto)
    then show ?thesis using record_not_trailer [of chain sq e] by (simp add: entry_enc_def)
  next
    case False
    then show ?thesis using len by (simp add: trailer_at_def)
  qed
  have "\<exists>detail. scan_record cfg ?base offset chain sq (replay_full out) = Inl (RS_TruncatedTail, SC_Truncated, detail)"
  proof (cases "n < kRecordHeaderBytes")
    case True
    then show ?thesis unfolding scan_record_def Let_def len by simp
  next
    case False
    define rest where "rest = take (n - 80) (entry_digest chain sq e @ je_payload e)"
    have base: "?base = head_enc chain sq e @ rest"
      using False length_head_enc [OF assms(1), of sq e] by (simp add: entry_enc_def rest_def kRecordHeaderBytes_def)
    have short: "n < kRecordHeaderBytes + length (je_payload e)"
      using assms(4) length_entry_enc [OF assms(1), of sq e] by (simp add: kRecordHeaderBytes_def)
    show ?thesis
      unfolding scan_record_def Let_def len if_not_P [OF False] unfolding base record_loads payload_len [OF assms(2)]
      using short assms(2) by (simp add: entry_fits_def)
  qed
  then obtain detail where "scan_record cfg ?base offset chain sq (replay_full out)
      = Inl (RS_TruncatedTail, SC_Truncated, detail)" by blast
  then have "scan_journal cfg inc ?base offset chain sq r out
      = (stop_scan RS_TruncatedTail SC_Truncated detail n r, out)"
    unfolding scan_journal.simps [of cfg inc ?base] if_not_P [OF ne] if_not_P [OF nt]
    using assms(4) by (simp add: min_def)
  then show ?thesis ..
qed

lemma take_chain:
  "\<exists>k tail. take n (chain_enc chain sq es) = chain_enc chain sq (take k es) @ tail \<and> k \<le> length es
     \<and> (tail = [] \<or> (k < length es \<and> (\<exists>m. 0 < m
          \<and> m < length (entry_enc (chain_end chain sq (take k es)) (sq + of_nat k) (es ! k))
          \<and> tail = take m (entry_enc (chain_end chain sq (take k es)) (sq + of_nat k) (es ! k)))))"
proof (induction es arbitrary: chain sq n)
  case (Cons e es)
  let ?e = "entry_enc chain sq e"
  show ?case
  proof (cases "length ?e \<le> n")
    case True
    obtain k tail where IH: "take (n - length ?e) (chain_enc (entry_digest chain sq e) (sq + 1) es)
        = chain_enc (entry_digest chain sq e) (sq + 1) (take k es) @ tail" "k \<le> length es"
      "tail = [] \<or> (k < length es \<and> (\<exists>m. 0 < m
          \<and> m < length (entry_enc (chain_end (entry_digest chain sq e) (sq + 1) (take k es)) (sq + 1 + of_nat k) (es ! k))
          \<and> tail = take m (entry_enc (chain_end (entry_digest chain sq e) (sq + 1) (take k es)) (sq + 1 + of_nat k) (es ! k))))"
      using Cons.IH by blast
    show ?thesis
      by (rule exI [of _ "Suc k"], rule exI [of _ tail]) (use IH True in \<open>simp add: add_ac\<close>)
  next
    case False
    show ?thesis
      by (rule exI [of _ 0], rule exI [of _ "take n ?e"]) (use False in auto)
  qed
qed simp

section \<open>The header\<close>

definition header_head :: "controller_incarnation \<Rightarrow> u32 \<Rightarrow> u64 \<Rightarrow> sequence_number \<Rightarrow> bytes" where
  "header_head inc seg created first_seq =
     kHeaderMagic @ le_bytes 4 kPersistenceFormatVersion @ le_bytes 4 (of_nat kHeaderBytes :: u32)
     @ le_bytes 8 created @ le_bytes 8 (inc_hi inc) @ le_bytes 8 (inc_lo inc) @ le_bytes 4 seg
     @ le_bytes 4 (0 :: u32) @ le_bytes 8 first_seq @ le_bytes 8 (0 :: u64)"

lemma length_magic [simp]: "length kHeaderMagic = 8" "length kTrailerMagic = 8"
  by (simp_all add: kHeaderMagic_def kTrailerMagic_def)

lemma length_header_head [simp]: "length (header_head inc seg created first_seq) = 64"
  by (simp add: header_head_def)

lemma encode_journal_header_exact:
  "encode_journal_header inc seg created first_seq
     = header_head inc seg created first_seq @ digest_of (header_head inc seg created first_seq) @ replicate 32 0"
proof -
  let ?f = "[le_bytes 4 kPersistenceFormatVersion, le_bytes 4 (of_nat kHeaderBytes :: u32), le_bytes 8 created,
     le_bytes 8 (inc_hi inc), le_bytes 8 (inc_lo inc), le_bytes 4 seg, le_bytes 4 (0 :: u32), le_bytes 8 first_seq,
     le_bytes 8 (0 :: u64)]"
  let ?puts = "[bw_u32 kPersistenceFormatVersion, bw_u32 (of_nat kHeaderBytes), bw_u64 created, bw_u64 (inc_hi inc),
     bw_u64 (inc_lo inc), bw_u32 seg, bw_u32 0, bw_u64 first_seq, bw_u64 0]"
  have fields: "bw_buffer (puts ?puts (new_writer kDefaultMaxBytes)) = concat ?f"
    by (rule buffer_puts) (simp_all add: emits_intros kDefaultMaxBytes_def)
  have "copy_at 0 kHeaderMagic (replicate kHeaderBytes 0) = kHeaderMagic @ replicate 120 0"
    by (simp add: copy_at_def kHeaderBytes_def)
  moreover have "copy_at 8 (concat ?f) (kHeaderMagic @ replicate 120 0) = kHeaderMagic @ concat ?f @ replicate 64 0"
    by (simp add: copy_at_def)
  moreover have "kHeaderMagic @ concat ?f = header_head inc seg created first_seq" by (simp add: header_head_def)
  ultimately have body: "copy_at 8 (bw_buffer (puts ?puts (new_writer kDefaultMaxBytes)))
      (copy_at 0 kHeaderMagic (replicate kHeaderBytes 0)) = header_head inc seg created first_seq @ replicate 64 0"
    unfolding fields by (metis append.assoc)
  show ?thesis unfolding encode_journal_header_def Let_def body by (simp add: copy_at_def)
qed

lemma length_journal_header [simp]: "length (encode_journal_header inc seg created first_seq) = kHeaderBytes"
  by (simp add: encode_journal_header_exact kHeaderBytes_def)

lemma decode_encode_header:
  assumes "first_seq \<noteq> 0"
  shows "\<exists>h. decode_journal_header (encode_journal_header inc seg created first_seq) = Inr h
    \<and> jh_incarnation h = inc \<and> jh_first_sequence h = first_seq \<and> jh_segment_index h = seg"
proof -
  let ?h = "header_head inc seg created first_seq"
  have bs: "encode_journal_header inc seg created first_seq = ?h @ digest_of ?h @ replicate 32 0"
    by (rule encode_journal_header_exact)
  have magic: "take 8 (?h @ digest_of ?h @ replicate 32 0) = kHeaderMagic" by (simp add: header_head_def)
  have ver: "le_load 4 (?h @ digest_of ?h @ replicate 32 0) 8 = kPersistenceFormatVersion"
    using le_load_le_bytes [of kHeaderMagic 8 4 kPersistenceFormatVersion] by (simp add: header_head_def)
  have win: "take 56 (drop 8 (?h @ digest_of ?h @ replicate 32 0)) = drop 8 ?h" by simp
  have dig: "take 64 (?h @ digest_of ?h @ replicate 32 0) = ?h"
    "take 32 (drop 64 (?h @ digest_of ?h @ replicate 32 0)) = digest_of ?h" by simp_all
  have fields: "drop 8 ?h = le_bytes 4 kPersistenceFormatVersion @ le_bytes 4 (of_nat kHeaderBytes :: u32)
     @ le_bytes 8 created @ le_bytes 8 (inc_hi inc) @ le_bytes 8 (inc_lo inc) @ le_bytes 4 seg
     @ le_bytes 4 (0 :: u32) @ le_bytes 8 first_seq @ le_bytes 8 (0 :: u64) @ []"
    by (simp add: header_head_def)
  have inc: "Incarnation (inc_hi inc) (inc_lo inc) = inc" by (cases inc) simp
  show ?thesis
    unfolding decode_journal_header_def bs magic ver dig win fields new_reader_rd
    using assms by (simp add: codec_simps kHeaderBytes_def inc del: append_Nil2)
qed

section \<open>What a store has on disk\<close>

text \<open>
  \<open>segment_image\<close> is the file of a segment that holds the entries \<open>es\<close>. \<open>store_holds\<close> relates an
  open store to the entries it acknowledged; \<open>store_torn\<close> is a store poisoned while one more entry
  was being written, of which some prefix reached the file.
\<close>

definition segment_image :: "controller_incarnation \<Rightarrow> u32 \<Rightarrow> u64 \<Rightarrow> sequence_number \<Rightarrow> journal_entry list \<Rightarrow> bytes" where
  "segment_image inc seg created first_seq es =
     (let h = encode_journal_header inc seg created first_seq in h @ chain_enc (digest_of h) first_seq es)"

definition segment_chain :: "u64 \<Rightarrow> fabric_store \<Rightarrow> journal_entry list \<Rightarrow> digest" where
  "segment_chain created s es = chain_end (digest_of (encode_journal_header (fs_incarnation s) (fs_segment_index s)
     created (fs_first_sequence s))) (fs_first_sequence s) es"

definition store_image :: "u64 \<Rightarrow> fabric_store \<Rightarrow> journal_entry list \<Rightarrow> bytes" where
  "store_image created s es = segment_image (fs_incarnation s) (fs_segment_index s) created (fs_first_sequence s) es"

definition store_base :: "fabric_store \<Rightarrow> journal_entry list \<Rightarrow> bool" where
  "store_base s es \<longleftrightarrow> fs_open s \<and> \<not> fs_closed s \<and> fs_first_sequence s \<noteq> 0
     \<and> unat (fs_first_sequence s) + length es \<le> 2 ^ 64 \<and> list_all (entry_fits (fs_config s)) es"

definition store_holds :: "u64 \<Rightarrow> fabric_store \<Rightarrow> journal_entry list \<Rightarrow> bool" where
  "store_holds created s es \<longleftrightarrow> store_base s es \<and> \<not> fs_poisoned s
     \<and> fs_disk s = store_image created s es \<and> fs_chain s = segment_chain created s es
     \<and> fs_last_sequence s = fs_first_sequence s + of_nat (length es) - 1"

definition store_torn :: "u64 \<Rightarrow> fabric_store \<Rightarrow> journal_entry list \<Rightarrow> bool" where
  "store_torn created s es \<longleftrightarrow> store_base s es \<and> fs_poisoned s
     \<and> (\<exists>e n. entry_fits (fs_config s) e \<and> unat (fs_first_sequence s) + length es < 2 ^ 64
          \<and> fs_disk s = store_image created s es
              @ take n (entry_enc (segment_chain created s es) (fs_first_sequence s + of_nat (length es)) e))"

lemma open_segment_holds:
  assumes "open_segment cfg inc seg first_seq now io = Inr s" and "first_seq \<noteq> 0"
  shows "store_holds now s []"
proof -
  have "unat first_seq < 2 ^ 64" using u64_bound [of first_seq] by simp
  then show ?thesis
    using assms by (auto simp: open_segment_def Let_def write_all_def store_holds_def store_base_def store_image_def
      segment_image_def segment_chain_def kHeaderBytes_def split: if_splits)
qed

lemma last_plus_one:
  assumes "store_holds created s es"
  shows "checked_add (fs_last_sequence s) 1 =
    (if unat (fs_first_sequence s) + length es < 2 ^ 64
     then Some (fs_first_sequence s + of_nat (length es)) else None)"
proof -
  have first: "fs_first_sequence s \<noteq> 0" and b: "unat (fs_first_sequence s) + length es \<le> 2 ^ 64"
    and last: "fs_last_sequence s = fs_first_sequence s + of_nat (length es) - 1"
    using assms by (auto simp: store_holds_def store_base_def)
  have pos: "unat (fs_first_sequence s) > 0" using first by (simp add: unat_gt_0)
  have v: "fs_last_sequence s = of_nat (unat (fs_first_sequence s) + length es - 1)"
    using pos unfolding last by (simp add: of_nat_diff)
  have "unat (fs_last_sequence s) = unat (fs_first_sequence s) + length es - 1"
    unfolding v using b pos by (simp add: unat_of_nat del: of_nat_add of_nat_diff)
  with pos b show ?thesis unfolding checked_add_exact by (auto simp: last)
qed

lemma store_frame [simp]:
  "segment_chain created (s\<lparr>fs_disk := d\<rparr>) es = segment_chain created s es"
  "segment_chain created (s\<lparr>fs_poisoned := p\<rparr>) es = segment_chain created s es"
  "segment_chain created (s\<lparr>fs_sync_failures := p\<rparr>) es = segment_chain created s es"
  "store_image created (s\<lparr>fs_disk := d\<rparr>) es = store_image created s es"
  "store_image created (s\<lparr>fs_poisoned := p\<rparr>) es = store_image created s es"
  "store_image created (s\<lparr>fs_sync_failures := p\<rparr>) es = store_image created s es"
  "store_base (s\<lparr>fs_disk := d\<rparr>) es = store_base s es"
  "store_base (s\<lparr>fs_poisoned := p\<rparr>) es = store_base s es"
  "store_base (s\<lparr>fs_sync_failures := p\<rparr>) es = store_base s es"
  by (simp_all add: segment_chain_def store_image_def store_base_def)

lemma length_segment_chain [simp]: "length (segment_chain created s es) = 32"
  by (simp add: segment_chain_def)

text \<open>The guards of \<open>append\<close> on a store that is open and not poisoned.\<close>

definition append_refused :: "bytes \<Rightarrow> controller_incarnation \<Rightarrow> fabric_store \<Rightarrow> journal_entry list \<Rightarrow> bool" where
  "append_refused payload inc s es \<longleftrightarrow> incarnation_is_zero inc
     \<or> length payload > unat (cfg_max_record_bytes (fs_config s))
     \<or> fs_records s \<ge> cfg_max_records_per_segment (fs_config s)
     \<or> \<not> unat (fs_first_sequence s) + length es < 2 ^ 64"

lemma append_record_refused:
  assumes "store_holds created s es" and "append_refused payload inc s es"
  shows "snd (append_record t payload inc ep g io s) = s \<and> \<not> status_ok (fst (append_record t payload inc ep g io s))"
  using assms last_plus_one [OF assms(1)]
  by (auto simp: append_record_def append_refused_def store_holds_def store_base_def)

lemma append_record_run:
  fixes created s es e
  assumes "store_holds created s es" and "\<not> append_refused (je_payload e) inc s es"
  defines "chain \<equiv> segment_chain created s es" and "sq \<equiv> fs_first_sequence s + of_nat (length es)"
  shows "append_record (je_type e) (je_payload e) inc (je_epoch e) (je_generation e) io s =
      (case write_all (wi_header io) (head_enc chain sq e @ entry_digest chain sq e) (fs_disk s) of (st, disk1) \<Rightarrow>
         if \<not> status_ok st then (st, s\<lparr>fs_disk := disk1, fs_poisoned := True\<rparr>)
         else case write_all (wi_payload io) (je_payload e) disk1 of (st, disk2) \<Rightarrow>
         if \<not> status_ok st then (st, s\<lparr>fs_disk := disk2, fs_poisoned := True\<rparr>)
         else case sync_locked io (s\<lparr>fs_disk := disk2\<rparr>) of (st, s1) \<Rightarrow>
         if \<not> status_ok st then (st, s1\<lparr>fs_poisoned := True\<rparr>)
         else (status_success, s1\<lparr>fs_last_sequence := sq, fs_chain := entry_digest chain sq e,
                 fs_records := fs_records s1 + 1\<rparr>))"
proof -
  have base: "store_base s es" "\<not> fs_poisoned s" "fs_chain s = chain"
    using assms(1) by (simp_all add: store_holds_def chain_def)
  have c32: "length chain = 32" by (simp add: chain_def)
  have h80: "length (head_enc chain sq e) = 80" by (rule length_head_enc [OF c32])
  have head: "copy_at 0 (record_head sq (je_type e) (je_payload e) (je_generation e) (je_epoch e) chain)
      (replicate kRecordHeaderBytes 0) = head_enc chain sq e @ replicate 32 0"
    by (rule record_header_bytes [OF c32])
  have dig: "sha_finish (sha_update (je_payload e) (sha_update (take 80 (head_enc chain sq e @ replicate 32 0)) sha256_reset))
      = entry_digest chain sq e"
    using h80 by (simp add: sha_two_updates entry_digest_def)
  have patched: "copy_at 80 (entry_digest chain sq e) (head_enc chain sq e @ replicate 32 0)
      = head_enc chain sq e @ entry_digest chain sq e"
    using h80 by (simp add: copy_at_def)
  have go: "\<not> incarnation_is_zero inc" "\<not> fs_closed s"
    "\<not> length (je_payload e) > unat (cfg_max_record_bytes (fs_config s))"
    "\<not> fs_records s \<ge> cfg_max_records_per_segment (fs_config s)" "unat (fs_first_sequence s) + length es < 2 ^ 64"
    using assms(2) base(1) by (auto simp: append_refused_def store_base_def)
  show ?thesis
    unfolding append_record_def last_plus_one [OF assms(1)] base(3) if_not_P [OF go(1)] if_not_P [OF go(2)]
      if_not_P [OF go(3)] if_not_P [OF go(4)] if_not_P [OF base(2)] if_P [OF go(5)] option.case Let_def
      sq_def [symmetric] head dig patched
    by (rule refl)
qed

lemma append_torn:
  assumes "store_holds created s es" and "\<not> append_refused (je_payload e) inc s es" and "length (je_payload e) < 2 ^ 32"
  shows "store_torn created (s\<lparr>fs_disk := fs_disk s @ take n (entry_enc (segment_chain created s es)
      (fs_first_sequence s + of_nat (length es)) e), fs_poisoned := True\<rparr>) es"
proof -
  have "entry_fits (fs_config s) e" using assms(2,3) by (simp add: entry_fits_def append_refused_def)
  then show ?thesis
    using assms(1,2) unfolding store_torn_def by (auto simp: store_holds_def append_refused_def)
qed

lemma store_torn_sync [simp]:
  "store_torn created (s\<lparr>fs_disk := d, fs_sync_failures := b, fs_poisoned := p\<rparr>) es
     = store_torn created (s\<lparr>fs_disk := d, fs_poisoned := p\<rparr>) es"
  by (simp add: store_torn_def)

lemma append_holds:
  fixes created s es e
  defines "chain \<equiv> segment_chain created s es" and "sq \<equiv> fs_first_sequence s + of_nat (length es)"
  assumes "store_holds created s es" and "\<not> append_refused (je_payload e) inc s es" and "length (je_payload e) < 2 ^ 32"
  shows "store_holds created (s\<lparr>fs_disk := fs_disk s @ entry_enc chain sq e, fs_last_sequence := sq,
      fs_chain := entry_digest chain sq e, fs_records := n\<rparr>) (es @ [e])"
proof -
  have "entry_fits (fs_config s) e" using assms(4,5) by (simp add: entry_fits_def append_refused_def)
  then show ?thesis
    using assms(3,4)
    by (simp add: store_holds_def store_base_def store_image_def segment_image_def segment_chain_def Let_def
        append_refused_def chain_enc_append chain_end_append chain_def sq_def)
qed

lemma append_record_cases:
  assumes "store_holds created s es" and "length (je_payload e) < 2 ^ 32"
  shows "case append_record (je_type e) (je_payload e) inc (je_epoch e) (je_generation e) io s of (st, s') \<Rightarrow>
     if status_ok st then store_holds created s' (es @ [e])
     else s' = s \<or> store_torn created s' es"
proof (cases "append_refused (je_payload e) inc s es")
  case True
  show ?thesis
    using append_record_refused [OF assms(1) True, of "je_type e" "je_epoch e" "je_generation e" io]
    by (auto split: prod.split)
next
  case False
  let ?chain = "segment_chain created s es" and ?sq = "fs_first_sequence s + of_nat (length es)"
  let ?h = "head_enc ?chain ?sq e @ entry_digest ?chain ?sq e"
  have ee: "?h @ je_payload e = entry_enc ?chain ?sq e" by (simp add: entry_enc_def)
  note run = append_record_run [OF assms(1) False, of io] and torn = append_torn [OF assms(1) False assms(2)]
  have len: "length ?h = 112" by (simp add: length_head_enc)
  show ?thesis
  proof (cases "wi_header io < length ?h")
    case True
    have "take (wi_header io) ?h = take (wi_header io) (entry_enc ?chain ?sq e)"
      unfolding ee [symmetric] using True by simp
    with True torn [of "wi_header io"] show ?thesis unfolding run by (simp add: write_all_def)
  next
    case long: False
    show ?thesis
    proof (cases "je_payload e \<noteq> [] \<and> wi_payload io < length (je_payload e)")
      case True
      have "?h @ take (wi_payload io) (je_payload e) = take (112 + wi_payload io) (entry_enc ?chain ?sq e)"
        unfolding ee [symmetric] using len by simp
      with long True torn [of "112 + wi_payload io"] len show ?thesis unfolding run by (simp add: write_all_def)
    next
      case False
      have "append_record (je_type e) (je_payload e) inc (je_epoch e) (je_generation e) io s =
        (case sync_locked io (s\<lparr>fs_disk := fs_disk s @ entry_enc ?chain ?sq e\<rparr>) of (st, s1) \<Rightarrow>
         if \<not> status_ok st then (st, s1\<lparr>fs_poisoned := True\<rparr>)
         else (status_success, s1\<lparr>fs_last_sequence := ?sq, fs_chain := entry_digest ?chain ?sq e,
                 fs_records := fs_records s1 + 1\<rparr>))"
        unfolding run ee [symmetric] using long False len by (auto simp: write_all_def)
      moreover have "fs_open s" using assms(1) by (simp add: store_holds_def store_base_def)
      ultimately show ?thesis
        using torn [of "length (entry_enc ?chain ?sq e)"]
          append_holds [OF assms(1) \<open>\<not> append_refused (je_payload e) inc s es\<close> assms(2), of "fs_records s + 1"]
        by (auto simp: sync_locked_def)
    qed
  qed
qed

text \<open>A client appending entries one after the other, whatever the operating system does; it keeps
  the entries it was told were written.\<close>

fun run_appends ::
  "controller_incarnation \<Rightarrow> (journal_entry \<times> write_io) list \<Rightarrow> fabric_store \<Rightarrow> journal_entry list \<times> fabric_store" where
  "run_appends inc [] s = ([], s)"
| "run_appends inc ((e, io) # ops) s =
     (case append_record (je_type e) (je_payload e) inc (je_epoch e) (je_generation e) io s of (st, s1) \<Rightarrow>
      case run_appends inc ops s1 of (acked, s2) \<Rightarrow> (if status_ok st then e # acked else acked, s2))"

lemma torn_refuses:
  assumes "store_torn created s es"
  shows "snd (append_record t payload inc ep g io s) = s \<and> \<not> status_ok (fst (append_record t payload inc ep g io s))"
  using assms by (auto simp: append_record_def store_torn_def store_base_def)

lemma torn_run: "store_torn created s es \<Longrightarrow> run_appends inc ops s = ([], s)"
proof (induction ops)
  case (Cons op ops)
  obtain e io where op: "op = (e, io)" by fastforce
  show ?case
    using torn_refuses [OF Cons.prems, of "je_type e" "je_payload e" inc "je_epoch e" "je_generation e" io] Cons
    by (auto simp: op split: prod.splits)
qed simp

lemma run_appends_disk:
  assumes "store_holds created s es" and "\<forall>(e, io)\<in>set ops. length (je_payload e) < 2 ^ 32"
  shows "case run_appends inc ops s of (acked, s') \<Rightarrow>
     store_holds created s' (es @ acked) \<or> store_torn created s' (es @ acked)"
  using assms
proof (induction ops arbitrary: s es)
  case (Cons op ops)
  obtain e io where op: "op = (e, io)" by fastforce
  obtain st s1 where ap: "append_record (je_type e) (je_payload e) inc (je_epoch e) (je_generation e) io s = (st, s1)"
    by fastforce
  obtain acked s2 where run: "run_appends inc ops s1 = (acked, s2)" by fastforce
  have step: "if status_ok st then store_holds created s1 (es @ [e]) else s1 = s \<or> store_torn created s1 es"
    using append_record_cases [OF Cons.prems(1), of e inc io] Cons.prems(2) by (simp add: op ap)
  consider "status_ok st" "store_holds created s1 (es @ [e])" | "\<not> status_ok st" "s1 = s"
    | "\<not> status_ok st" "store_torn created s1 es" using step by (auto split: if_splits)
  then show ?case
  proof cases
    case 1
    then show ?thesis using Cons.IH [OF 1(2)] Cons.prems(2) by (simp add: op ap run)
  next
    case 2
    then show ?thesis using Cons.IH [OF Cons.prems(1)] Cons.prems(2) run by (simp add: op ap)
  next
    case 3
    then show ?thesis using torn_run [OF 3(2), of inc ops] by (simp add: op ap run)
  qed
qed simp

lemma append_frame:
  assumes "append_record t payload inc ep g io s = (st, s')"
  shows "fs_incarnation s' = fs_incarnation s" and "fs_segment_index s' = fs_segment_index s"
    and "fs_first_sequence s' = fs_first_sequence s" and "fs_config s' = fs_config s"
  using assms
  by (auto simp: append_record_def sync_locked_def Let_def split: if_splits option.splits prod.splits)

lemma run_appends_frame:
  "run_appends inc ops s = (acked, s') \<Longrightarrow> fs_incarnation s' = fs_incarnation s \<and> fs_segment_index s' = fs_segment_index s
     \<and> fs_first_sequence s' = fs_first_sequence s \<and> fs_config s' = fs_config s"
proof (induction inc ops s arbitrary: acked s' rule: run_appends.induct)
  case (2 inc e io ops s)
  obtain st s1 where ap: "append_record (je_type e) (je_payload e) inc (je_epoch e) (je_generation e) io s = (st, s1)"
    by fastforce
  obtain acked1 s2 where run: "run_appends inc ops s1 = (acked1, s2)" by fastforce
  have "s' = s2" using "2.prems" by (simp add: ap run)
  then show ?case using append_frame [OF ap] "2.IH" [OF ap [symmetric] run] by simp
qed simp

section \<open>Recovery of what was written\<close>

definition close_report :: "recovery_report \<Rightarrow> recovery_report" where
  "close_report r = (if rpt_status r = RS_Clean
     then r\<lparr>rpt_requires_reobservation := rpt_dynamic_evidence_recovered r\<rparr> else r)"

lemma close_report_status [simp]: "rpt_status (close_report r) = rpt_status r"
  by (simp add: close_report_def)

lemma note_chain_status [simp]: "rpt_status (note_chain chain sq es r) = rpt_status r"
  by (induction es arbitrary: chain sq r) (simp_all add: note_entry_def note_record_def Let_def)

lemma segment_image_length: "128 \<le> length (segment_image inc seg created first_seq es)"
  by (simp add: segment_image_def Let_def kHeaderBytes_def)

lemma recover_image:
  fixes inc seg created first_seq
  defines "c0 \<equiv> digest_of (encode_journal_header inc seg created first_seq)"
  assumes "first_seq \<noteq> 0" and "list_all (entry_fits cfg) es" and "length es \<le> kReplayBound"
    and "length (segment_image inc seg created first_seq es @ tail) \<le> unat (cfg_max_recovery_bytes cfg)"
  obtains r off where "rpt_status r = RS_CrashWithoutTrailer"
    and "recover_bytes cfg (segment_image inc seg created first_seq es @ tail) True
      = (case scan_journal cfg inc tail off (chain_end c0 first_seq es) (first_seq + of_nat (length es)) r
           (Some (chain_records inc c0 first_seq es)) of (r, out) \<Rightarrow> (close_report r, out))"
proof -
  let ?h = "encode_journal_header inc seg created first_seq"
  let ?bs = "segment_image inc seg created first_seq es @ tail"
  obtain h where h: "decode_journal_header ?h = Inr h" "jh_incarnation h = inc" "jh_first_sequence h = first_seq"
    using decode_encode_header [OF assms(2)] by blast
  have bs: "?bs = ?h @ chain_enc c0 first_seq es @ tail" by (simp add: segment_image_def Let_def c0_def)
  have win: "take kHeaderBytes ?bs = ?h" "drop kHeaderBytes ?bs = chain_enc c0 first_seq es @ tail"
    unfolding bs by simp_all
  have ne: "?bs \<noteq> []" using segment_image_length [of inc seg created first_seq es] by auto
  have fits: "\<not> length ?bs > unat (cfg_max_recovery_bytes cfg)" using assms(5) by simp
  define r0 where "r0 = empty_recovery\<lparr>rpt_journal_present := True, rpt_bytes_read := of_nat (length ?bs),
      rpt_last_incarnation := inc, rpt_last_chain := c0, rpt_status := RS_CrashWithoutTrailer, rpt_code := SC_Ok,
      rpt_detail := ''records verified, no clean-shutdown trailer''\<rparr>"
  have run: "recover_bytes cfg ?bs True = (case scan_journal cfg inc (chain_enc c0 first_seq es @ tail) kHeaderBytes c0
      first_seq r0 (Some []) of (r, out) \<Rightarrow> (close_report r, out))"
    unfolding recover_bytes_def Let_def if_not_P [OF fits] if_not_P [OF ne] win h(1) sum.case h(2,3)
    by (simp add: r0_def c0_def close_report_def split: prod.split)
  have st: "rpt_status (note_chain c0 first_seq es r0) = RS_CrashWithoutTrailer" by (simp add: r0_def)
  have "length c0 = 32" by (simp add: c0_def)
  then have step: "scan_journal cfg inc (chain_enc c0 first_seq es @ tail) kHeaderBytes c0 first_seq r0 (Some [])
    = scan_journal cfg inc tail (kHeaderBytes + length (chain_enc c0 first_seq es)) (chain_end c0 first_seq es)
        (first_seq + of_nat (length es)) (note_chain c0 first_seq es r0) (Some (chain_records inc c0 first_seq es))"
    using scan_chain [of c0 cfg es "[]" inc first_seq tail kHeaderBytes r0] assms(3,4) by simp
  show thesis by (rule that [OF st run [unfolded step]])
qed

definition segment_records ::
  "controller_incarnation \<Rightarrow> u32 \<Rightarrow> u64 \<Rightarrow> sequence_number \<Rightarrow> journal_entry list \<Rightarrow> recovered_record list" where
  "segment_records inc seg created first_seq es =
     chain_records inc (digest_of (encode_journal_header inc seg created first_seq)) first_seq es"

lemma recover_whole:
  assumes "first_seq \<noteq> 0" and "list_all (entry_fits cfg) es" and "length es \<le> kReplayBound"
    and "length (segment_image inc seg created first_seq es) \<le> unat (cfg_max_recovery_bytes cfg)"
  shows "\<exists>r. recover_bytes cfg (segment_image inc seg created first_seq es) True
      = (r, Some (segment_records inc seg created first_seq es)) \<and> rpt_status r = RS_CrashWithoutTrailer"
proof -
  have "length (segment_image inc seg created first_seq es @ []) \<le> unat (cfg_max_recovery_bytes cfg)" using assms(4) by simp
  from recover_image [OF assms(1-3) this] obtain r off where r: "rpt_status r = RS_CrashWithoutTrailer"
    "recover_bytes cfg (segment_image inc seg created first_seq es @ []) True
      = (case scan_journal cfg inc [] off (chain_end (digest_of (encode_journal_header inc seg created first_seq)) first_seq es)
           (first_seq + of_nat (length es)) r (Some (segment_records inc seg created first_seq es)) of
           (r, out) \<Rightarrow> (close_report r, out))"
    unfolding segment_records_def by metis
  show ?thesis using r by (simp add: scan_journal.simps [of cfg inc "[]"])
qed

lemma recover_torn:
  fixes inc seg created first_seq
  defines "c0 \<equiv> digest_of (encode_journal_header inc seg created first_seq)"
  assumes "first_seq \<noteq> 0" and "list_all (entry_fits cfg) es" and "length es \<le> kReplayBound" and "entry_fits cfg e"
    and "0 < n" and "n < length (entry_enc (chain_end c0 first_seq es) (first_seq + of_nat (length es)) e)"
  defines "tail \<equiv> take n (entry_enc (chain_end c0 first_seq es) (first_seq + of_nat (length es)) e)"
  assumes "length (segment_image inc seg created first_seq es @ tail) \<le> unat (cfg_max_recovery_bytes cfg)"
  shows "\<exists>r. recover_bytes cfg (segment_image inc seg created first_seq es @ tail) True
      = (r, Some (segment_records inc seg created first_seq es)) \<and> rpt_status r = RS_TruncatedTail"
proof -
  obtain r off where r: "recover_bytes cfg (segment_image inc seg created first_seq es @ tail) True
      = (case scan_journal cfg inc tail off (chain_end c0 first_seq es) (first_seq + of_nat (length es)) r
           (Some (segment_records inc seg created first_seq es)) of (r, out) \<Rightarrow> (close_report r, out))"
    using recover_image [OF assms(2-4,9)] unfolding segment_records_def c0_def by metis
  have "length (chain_end c0 first_seq es) = 32" by (simp add: c0_def)
  from scan_torn [OF this assms(5-7), of inc off r "Some (segment_records inc seg created first_seq es)"]
  show ?thesis unfolding r tail_def [symmetric] by (auto simp: stop_scan_def)
qed

lemma chain_enc_snoc:
  "segment_image inc seg created first_seq (es @ [e]) = segment_image inc seg created first_seq es
     @ entry_enc (chain_end (digest_of (encode_journal_header inc seg created first_seq)) first_seq es)
         (first_seq + of_nat (length es)) e"
  by (simp add: segment_image_def Let_def chain_enc_append)

lemma recover_partial:
  fixes inc seg created first_seq n
  defines "c0 \<equiv> digest_of (encode_journal_header inc seg created first_seq)"
  assumes "first_seq \<noteq> 0" and "list_all (entry_fits cfg) es" and "length es < kReplayBound" and "entry_fits cfg e"
  defines "tail \<equiv> take n (entry_enc (chain_end c0 first_seq es) (first_seq + of_nat (length es)) e)"
  assumes "length (segment_image inc seg created first_seq es @ tail) \<le> unat (cfg_max_recovery_bytes cfg)"
  shows "\<exists>r extra. set extra \<subseteq> {e} \<and> length extra \<le> 1 \<and> recovery_usable r
    \<and> recover_bytes cfg (segment_image inc seg created first_seq es @ tail) True
      = (r, Some (segment_records inc seg created first_seq (es @ extra)))"
proof -
  let ?e = "entry_enc (chain_end c0 first_seq es) (first_seq + of_nat (length es)) e"
  consider "n = 0" | "0 < n" "n < length ?e" | "length ?e \<le> n" by linarith
  then show ?thesis
  proof cases
    case 1
    then have t: "tail = []" by (simp add: tail_def)
    obtain r where "recover_bytes cfg (segment_image inc seg created first_seq es @ tail) True
        = (r, Some (segment_records inc seg created first_seq (es @ [])))" "rpt_status r = RS_CrashWithoutTrailer"
      using recover_whole [OF assms(2,3), of inc seg created] assms(4,7) unfolding t append_Nil2 by auto
    then show ?thesis unfolding recovery_usable_def by (intro exI [of _ r] exI [of _ "[]"]) simp
  next
    case 2
    obtain r where "recover_bytes cfg (segment_image inc seg created first_seq es @ tail) True
        = (r, Some (segment_records inc seg created first_seq (es @ [])))" "rpt_status r = RS_TruncatedTail"
      using recover_torn [OF assms(2,3) _ assms(5) 2 [unfolded c0_def]] assms(4,7)
      unfolding tail_def c0_def append_Nil2 by auto
    then show ?thesis unfolding recovery_usable_def by (intro exI [of _ r] exI [of _ "[]"]) simp
  next
    case 3
    then have whole: "segment_image inc seg created first_seq es @ tail = segment_image inc seg created first_seq (es @ [e])"
      by (simp add: chain_enc_snoc tail_def c0_def)
    obtain r where "recover_bytes cfg (segment_image inc seg created first_seq es @ tail) True
        = (r, Some (segment_records inc seg created first_seq (es @ [e])))" "rpt_status r = RS_CrashWithoutTrailer"
      using recover_whole [OF assms(2), of cfg "es @ [e]" inc seg created] assms(3-5,7) unfolding whole by auto
    then show ?thesis unfolding recovery_usable_def by (intro exI [of _ r] exI [of _ "[e]"]) simp
  qed
qed

lemma appends_durable:
  assumes "open_segment cfg inc seg first_seq now io0 = Inr s0" and "first_seq \<noteq> 0"
    and "\<forall>(e, io)\<in>set ops. length (je_payload e) < 2 ^ 32" and "run_appends inc ops s0 = (acked, s)"
    and "length acked < kReplayBound" and "length (fs_disk s) \<le> unat (cfg_max_recovery_bytes cfg)"
  shows "\<exists>r extra. length extra \<le> 1 \<and> recovery_usable r
    \<and> recover_bytes cfg (fs_disk s) True = (r, Some (segment_records inc seg now first_seq (acked @ extra)))"
proof -
  have s0: "fs_incarnation s0 = inc" "fs_segment_index s0 = seg" "fs_first_sequence s0 = first_seq" "fs_config s0 = cfg"
    using assms(1) by (auto simp: open_segment_def Let_def split: if_splits prod.splits)
  have s: "fs_incarnation s = inc" "fs_segment_index s = seg" "fs_first_sequence s = first_seq" "fs_config s = cfg"
    using run_appends_frame [OF assms(4)] s0 by simp_all
  have img: "store_image now s acked = segment_image inc seg now first_seq acked"
    by (simp add: store_image_def s)
  have ch: "segment_chain now s acked = chain_end (digest_of (encode_journal_header inc seg now first_seq)) first_seq acked"
    by (simp add: segment_chain_def s)
  consider "store_holds now s acked" | "store_torn now s acked"
    using run_appends_disk [OF open_segment_holds [OF assms(1,2)] assms(3), of inc] by (auto simp: assms(4))
  then show ?thesis
  proof cases
    case 1
    then have fits: "list_all (entry_fits cfg) acked" and disk: "fs_disk s = segment_image inc seg now first_seq acked"
      by (simp_all add: store_holds_def store_base_def s img)
    obtain r where "recover_bytes cfg (fs_disk s) True = (r, Some (segment_records inc seg now first_seq (acked @ [])))"
      "rpt_status r = RS_CrashWithoutTrailer"
      using recover_whole [OF assms(2) fits, of inc seg now] assms(5,6) unfolding disk append_Nil2 by auto
    then show ?thesis unfolding recovery_usable_def by (intro exI [of _ r] exI [of _ "[]"]) simp
  next
    case 2
    then obtain e n where fits: "list_all (entry_fits cfg) acked" "entry_fits cfg e"
      and disk: "fs_disk s = segment_image inc seg now first_seq acked
        @ take n (entry_enc (chain_end (digest_of (encode_journal_header inc seg now first_seq)) first_seq acked)
            (first_seq + of_nat (length acked)) e)"
      by (auto simp: store_torn_def store_base_def s img ch)
    show ?thesis
      using recover_partial [OF assms(2) fits(1) assms(5) fits(2) assms(6) [unfolded disk]] unfolding disk by blast
  qed
qed

lemma list_all_take: "list_all p xs \<Longrightarrow> list_all p (take k xs)"
  by (auto simp: list_all_iff dest: in_set_takeD)

lemma image_take_Suc:
  "k < length es \<Longrightarrow> segment_image inc seg created first_seq (take (Suc k) es)
     = segment_image inc seg created first_seq (take k es)
       @ entry_enc (chain_end (digest_of (encode_journal_header inc seg created first_seq)) first_seq (take k es))
           (first_seq + of_nat k) (es ! k)"
  by (simp add: take_Suc_conv_app_nth chain_enc_snoc)

lemma image_take_le:
  "k < length es \<Longrightarrow> length (segment_image inc seg created first_seq (take (Suc k) es))
     \<le> length (segment_image inc seg created first_seq es)"
  by (simp add: segment_image_def Let_def)
    (metis append_take_drop_id chain_enc_append le_add1 length_append)

lemma prefix_cut:
  fixes inc seg created first_seq
  defines "c0 \<equiv> digest_of (encode_journal_header inc seg created first_seq)"
  assumes "kHeaderBytes \<le> n"
  obtains k tail where "k \<le> length es"
    "take n (segment_image inc seg created first_seq es) = segment_image inc seg created first_seq (take k es) @ tail"
    "tail = [] \<or> (k < length es \<and> (\<exists>m. 0 < m
       \<and> m < length (entry_enc (chain_end c0 first_seq (take k es)) (first_seq + of_nat k) (es ! k))
       \<and> tail = take m (entry_enc (chain_end c0 first_seq (take k es)) (first_seq + of_nat k) (es ! k))))"
proof -
  let ?h = "encode_journal_header inc seg created first_seq"
  have img: "segment_image inc seg created first_seq xs = ?h @ chain_enc c0 first_seq xs" for xs
    by (simp add: segment_image_def Let_def c0_def)
  have cut: "take n (segment_image inc seg created first_seq es) = ?h @ take (n - kHeaderBytes) (chain_enc c0 first_seq es)"
    using assms(2) by (simp add: img)
  obtain k tail where kt: "take (n - kHeaderBytes) (chain_enc c0 first_seq es) = chain_enc c0 first_seq (take k es) @ tail"
    "k \<le> length es" "tail = [] \<or> (k < length es \<and> (\<exists>m. 0 < m
          \<and> m < length (entry_enc (chain_end c0 first_seq (take k es)) (first_seq + of_nat k) (es ! k))
          \<and> tail = take m (entry_enc (chain_end c0 first_seq (take k es)) (first_seq + of_nat k) (es ! k))))"
    using take_chain [of "n - kHeaderBytes" c0 first_seq es] by blast
  show thesis by (rule that [OF kt(2) _ kt(3)]) (unfold cut kt(1), simp add: img)
qed

lemma prefix_recovers:
  assumes "first_seq \<noteq> 0" and "list_all (entry_fits cfg) es" and "length es \<le> kReplayBound"
    and "length (segment_image inc seg created first_seq es) \<le> unat (cfg_max_recovery_bytes cfg)" and "kHeaderBytes \<le> n"
  shows "\<exists>r k. k \<le> length es \<and> recovery_usable r
    \<and> recover_bytes cfg (take n (segment_image inc seg created first_seq es)) True
      = (r, Some (segment_records inc seg created first_seq (take k es)))
    \<and> length (segment_image inc seg created first_seq (take k es)) \<le> n
    \<and> (k = length es \<or> n < length (segment_image inc seg created first_seq (take (Suc k) es)))"
proof -
  let ?c0 = "digest_of (encode_journal_header inc seg created first_seq)"
  let ?img = "segment_image inc seg created first_seq"
  obtain k tail where k: "k \<le> length es" and bs: "take n (?img es) = ?img (take k es) @ tail"
    and tail: "tail = [] \<or> (k < length es \<and> (\<exists>m. 0 < m
       \<and> m < length (entry_enc (chain_end ?c0 first_seq (take k es)) (first_seq + of_nat k) (es ! k))
       \<and> tail = take m (entry_enc (chain_end ?c0 first_seq (take k es)) (first_seq + of_nat k) (es ! k))))"
    using prefix_cut [OF assms(5)] by metis
  let ?e = "entry_enc (chain_end ?c0 first_seq (take k es)) (first_seq + of_nat k) (es ! k)"
  have len: "min (length (?img es)) n = length (?img (take k es)) + length tail" using arg_cong [OF bs, of length] by simp
  have size: "length (?img (take k es) @ tail) \<le> unat (cfg_max_recovery_bytes cfg)"
    using assms(4) len by simp
  have fits: "list_all (entry_fits cfg) (take k es)" and bound: "length (take k es) \<le> kReplayBound"
    using assms(2,3) by (simp_all add: list_all_take)
  have pos: "0 < length ?e" by (simp add: length_entry_enc)
  have "\<exists>r. recover_bytes cfg (?img (take k es) @ tail) True = (r, Some (segment_records inc seg created first_seq (take k es)))
      \<and> recovery_usable r"
  proof (cases "tail = []")
    case True
    then show ?thesis using recover_whole [OF assms(1) fits bound, of inc seg created] size
      by (auto simp: recovery_usable_def)
  next
    case False
    then obtain m where m: "k < length es" "0 < m" "m < length ?e" "tail = take m ?e" using tail by blast
    have e: "entry_fits cfg (es ! k)" using assms(2) m(1) by (simp add: list_all_length)
    have kk: "length (take k es) = k" using k by simp
    obtain r where "recover_bytes cfg (?img (take k es) @ tail) True = (r, Some (segment_records inc seg created first_seq (take k es)))"
      "rpt_status r = RS_TruncatedTail"
      using recover_torn [OF assms(1) fits bound e m(2), of inc seg created, unfolded kk, OF m(3) size [unfolded m(4)]]
      unfolding m(4) by blast
    then show ?thesis unfolding recovery_usable_def by (intro exI [of _ r]) simp
  qed
  moreover have "k = length es \<or> n < length (?img (take (Suc k) es))"
  proof (cases "k < length es")
    case True
    have suc: "length (?img (take (Suc k) es)) = length (?img (take k es)) + length ?e"
      using image_take_Suc [OF True] by simp
    have "length tail < length ?e" using tail pos by auto
    then show ?thesis using image_take_le [OF True, of inc seg created first_seq] suc len by (auto simp: min_def split: if_splits)
  qed (use k in simp)
  moreover have "length (?img (take k es)) \<le> n" using len by (simp add: min_def split: if_splits)
  ultimately show ?thesis unfolding bs using k by blast
qed

section \<open>The trailer\<close>

definition trailer_head :: "u64 \<Rightarrow> sequence_number \<Rightarrow> sequence_number \<Rightarrow> digest \<Rightarrow> bytes" where
  "trailer_head records last_seq first_seq chain =
     kTrailerMagic @ le_bytes 4 kPersistenceFormatVersion @ le_bytes 4 (0 :: u32) @ le_bytes 8 records
     @ le_bytes 8 last_seq @ le_bytes 8 first_seq @ take 24 chain"

lemma trailer_bytes_exact:
  assumes "length chain = 32"
  shows "trailer_bytes records last_seq first_seq chain
    = trailer_head records last_seq first_seq chain @ digest_of (trailer_head records last_seq first_seq chain)"
proof -
  let ?f = "[le_bytes 4 kPersistenceFormatVersion, le_bytes 4 (0 :: u32), le_bytes 8 records, le_bytes 8 last_seq,
     le_bytes 8 first_seq, chain]"
  let ?puts = "[bw_u32 kPersistenceFormatVersion, bw_u32 0, bw_u64 records, bw_u64 last_seq, bw_u64 first_seq, bw_bytes chain]"
  have fields: "bw_buffer (puts ?puts (new_writer kDefaultMaxBytes)) = concat ?f"
    by (rule buffer_puts) (simp_all add: emits_intros kDefaultMaxBytes_def assms)
  have body: "copy_at 8 (concat ?f) (copy_at 0 kTrailerMagic (replicate kTrailerBytes 0))
      = kTrailerMagic @ concat ?f @ replicate 24 0"
    using assms by (simp add: copy_at_def kTrailerBytes_def)
  have t64: "take 64 (kTrailerMagic @ concat ?f @ replicate 24 0) = trailer_head records last_seq first_seq chain"
    using assms by (simp add: trailer_head_def)
  show ?thesis
    unfolding trailer_bytes_def Let_def fields body kTrailerBytes_def sha_one_update
    using t64 assms by (simp add: copy_at_def)
qed

lemma length_trailer_head: "length chain = 32 \<Longrightarrow> length (trailer_head records last_seq first_seq chain) = 64"
  by (simp add: trailer_head_def)

text \<open>Recovery accepts any trailer whose own digest matches; its counts and chain are not compared.\<close>

lemma scan_any_trailer:
  assumes "length c = 32"
  shows "scan_journal cfg inc (trailer_bytes n l f c) off chain sq r out =
    (r\<lparr>rpt_status := RS_Clean, rpt_code := SC_Ok,
       rpt_detail := ''journal verified: header, record chain, and clean-shutdown trailer''\<rparr>, out)"
proof -
  let ?t = "trailer_head n l f c"
  have t: "trailer_bytes n l f c = ?t @ digest_of ?t" by (rule trailer_bytes_exact [OF assms])
  have at: "trailer_at (?t @ digest_of ?t)" by (simp add: trailer_at_def trailer_head_def)
  have st: "scan_trailer (?t @ digest_of ?t) r = r\<lparr>rpt_status := RS_Clean, rpt_code := SC_Ok,
       rpt_detail := ''journal verified: header, record chain, and clean-shutdown trailer''\<rparr>"
    using length_trailer_head [OF assms, of n l f] by (simp add: scan_trailer_def Let_def kTrailerBytes_def sha_one_update)
  have ne: "?t @ digest_of ?t \<noteq> []" using length_trailer_head [OF assms, of n l f] by auto
  show ?thesis unfolding t scan_journal.simps [of cfg inc "?t @ digest_of ?t"] if_not_P [OF ne] if_P [OF at] st ..
qed

lemma recover_closed:
  assumes "first_seq \<noteq> 0" and "list_all (entry_fits cfg) es" and "length es \<le> kReplayBound" and "length c = 32"
    and "length (segment_image inc seg created first_seq es) + 96 \<le> unat (cfg_max_recovery_bytes cfg)"
  shows "\<exists>r. recover_bytes cfg (segment_image inc seg created first_seq es @ trailer_bytes n l f c) True
      = (r, Some (segment_records inc seg created first_seq es)) \<and> rpt_status r = RS_Clean"
proof -
  have size: "length (segment_image inc seg created first_seq es @ trailer_bytes n l f c) \<le> unat (cfg_max_recovery_bytes cfg)"
    using assms(5) length_trailer_head [OF assms(4)] by (simp add: trailer_bytes_exact [OF assms(4)])
  obtain r off where "recover_bytes cfg (segment_image inc seg created first_seq es @ trailer_bytes n l f c) True
      = (case scan_journal cfg inc (trailer_bytes n l f c) off
           (chain_end (digest_of (encode_journal_header inc seg created first_seq)) first_seq es)
           (first_seq + of_nat (length es)) r (Some (segment_records inc seg created first_seq es)) of
           (r, out) \<Rightarrow> (close_report r, out))"
    using recover_image [OF assms(1-3) size] unfolding segment_records_def by metis
  then show ?thesis by (simp add: scan_any_trailer [OF assms(4)])
qed

section \<open>Closing a poisoned segment\<close>

text \<open>
  \<open>close_clean\<close> does not look at the poisoned flag. After a short write it puts the trailer behind
  the torn bytes, and the scan then reads trailer bytes as record fields. With 20 bytes of the
  record header on disk, the payload length is read from the trailer's magic.
\<close>

lemma torn_header_prefix:
  "length chain = 32 \<Longrightarrow> take 20 (entry_enc chain sq e)
     = le_bytes 4 kRecordMagic @ le_bytes 4 kPersistenceFormatVersion @ le_bytes 8 sq @ le_bytes 4 (record_type_u32 (je_type e))"
  by (simp add: entry_enc_def head_enc_def)

lemma magic_as_length: "take 4 (drop 4 kTrailerMagic) = le_bytes 4 (0x3130444E :: u32)"
  by code_simp

lemma scan_after_poison:
  fixes chain sq e n l f c
  assumes "length chain = 32" and "length c = 32" and "unat (cfg_max_record_bytes cfg) < 0x3130444E"
  defines "base \<equiv> take 20 (entry_enc chain sq e) @ trailer_bytes n l f c"
  shows "scan_journal cfg inc base off chain sq r out
    = (stop_scan RS_Corrupt SC_Exhausted ''record declares a payload larger than the configured bound'' 116 r, out)"
proof -
  let ?pre = "le_bytes 4 kRecordMagic @ le_bytes 4 kPersistenceFormatVersion @ le_bytes 8 sq @ le_bytes 4 (record_type_u32 (je_type e))"
  let ?rest = "drop 8 (trailer_bytes n l f c)"
  have tr: "trailer_bytes n l f c = take 4 kTrailerMagic @ le_bytes 4 (0x3130444E :: u32) @ ?rest"
    unfolding magic_as_length [symmetric] trailer_bytes_exact [OF assms(2)] trailer_head_def by simp
  have base: "base = ?pre @ take 4 kTrailerMagic @ le_bytes 4 (0x3130444E :: u32) @ ?rest"
    unfolding base_def torn_header_prefix [OF assms(1)] by (subst tr) simp
  have len: "length base = 116"
    using length_trailer_head [OF assms(2)] assms(1)
    by (simp add: base_def torn_header_prefix trailer_bytes_exact [OF assms(2)])
  have magic: "le_load 4 base 0 = kRecordMagic" unfolding base append_assoc by (rule le_load_front) simp
  have ver: "le_load 4 base 4 = kPersistenceFormatVersion"
    using le_load_le_bytes [of "le_bytes 4 kRecordMagic" 4 4 kPersistenceFormatVersion] by (simp add: base)
  have pl: "(le_load 4 base 24 :: u32) = 0x3130444E"
    using le_load_le_bytes [of "?pre @ take 4 kTrailerMagic" 24 4 "0x3130444E :: u32" ?rest] by (simp add: base)
  have "le_bytes 4 kRecordMagic @ le_bytes 4 kPersistenceFormatVersion \<noteq> kTrailerMagic" by code_simp
  then have nt: "\<not> trailer_at base" by (simp add: trailer_at_def base)
  have ne: "base \<noteq> []" using len by auto
  have "scan_record cfg base off chain sq (replay_full out)
      = Inl (RS_Corrupt, SC_Exhausted, ''record declares a payload larger than the configured bound'')"
    unfolding scan_record_def Let_def len magic ver pl using assms(3) by (simp add: kRecordHeaderBytes_def)
  then show ?thesis unfolding scan_journal.simps [of cfg inc base] if_not_P [OF ne] if_not_P [OF nt] by (simp add: len)
qed

lemma recover_poisoned_close:
  fixes inc seg created first_seq
  defines "c0 \<equiv> digest_of (encode_journal_header inc seg created first_seq)"
  assumes "first_seq \<noteq> 0" and "list_all (entry_fits cfg) es" and "length es \<le> kReplayBound" and "length c = 32"
    and "unat (cfg_max_record_bytes cfg) < 0x3130444E"
    and "length (segment_image inc seg created first_seq es) + 116 \<le> unat (cfg_max_recovery_bytes cfg)"
  shows "rpt_status (fst (recover_bytes cfg (segment_image inc seg created first_seq es
      @ take 20 (entry_enc (chain_end c0 first_seq es) (first_seq + of_nat (length es)) e) @ trailer_bytes n l f c) True)) = RS_Corrupt"
proof -
  let ?tail = "take 20 (entry_enc (chain_end c0 first_seq es) (first_seq + of_nat (length es)) e) @ trailer_bytes n l f c"
  have c: "length (chain_end c0 first_seq es) = 32" by (simp add: c0_def)
  have size: "length (segment_image inc seg created first_seq es @ ?tail) \<le> unat (cfg_max_recovery_bytes cfg)"
    using assms(7) length_trailer_head [OF assms(5)] by (simp add: trailer_bytes_exact [OF assms(5)] torn_header_prefix [OF c])
  obtain r off where "recover_bytes cfg (segment_image inc seg created first_seq es @ ?tail) True
      = (case scan_journal cfg inc ?tail off (chain_end c0 first_seq es) (first_seq + of_nat (length es)) r
           (Some (segment_records inc seg created first_seq es)) of (r, out) \<Rightarrow> (close_report r, out))"
    using recover_image [OF assms(2-4) size] unfolding segment_records_def c0_def by metis
  then show ?thesis by (simp add: scan_after_poison [OF c assms(5,6)] stop_scan_def)
qed

lemma short_write_poisons:
  assumes "store_holds created s es" and "\<not> append_refused (je_payload e) inc s es" and "wi_header io < 112"
  shows "append_record (je_type e) (je_payload e) inc (je_epoch e) (je_generation e) io s
    = (Status SC_IoError ''short write to the journal'',
       s\<lparr>fs_disk := fs_disk s @ take (wi_header io) (entry_enc (segment_chain created s es)
            (fs_first_sequence s + of_nat (length es)) e), fs_poisoned := True\<rparr>)"
proof -
  let ?chain = "segment_chain created s es" and ?sq = "fs_first_sequence s + of_nat (length es)"
  have "length (head_enc ?chain ?sq e @ entry_digest ?chain ?sq e) = 112" by (simp add: length_head_enc)
  moreover from this have "take (wi_header io) (head_enc ?chain ?sq e @ entry_digest ?chain ?sq e)
      = take (wi_header io) (entry_enc ?chain ?sq e)"
    using assms(3) unfolding entry_enc_def by (simp del: append_assoc add: append_assoc [symmetric])
  ultimately show ?thesis
    unfolding append_record_run [OF assms(1,2)] using assms(3) by (simp add: write_all_def)
qed

lemma close_writes_trailer:
  assumes "fs_open s" and "\<not> fs_closed s" and "kTrailerBytes \<le> wi_header io" and "length (fs_chain s) = 32"
  shows "fs_disk (snd (close_clean io s))
    = fs_disk s @ trailer_bytes (fs_records s) (fs_last_sequence s) (fs_first_sequence s) (fs_chain s)"
proof -
  have "length (trailer_bytes (fs_records s) (fs_last_sequence s) (fs_first_sequence s) (fs_chain s)) = kTrailerBytes"
    using length_trailer_head [OF assms(4)] by (simp add: trailer_bytes_exact [OF assms(4)] kTrailerBytes_def)
  with assms(1-3) show ?thesis by (simp add: close_clean_def write_all_def Let_def)
qed

section \<open>Whatever the bytes, the records form one numbered chain\<close>

lemma scan_numbers:
  "scan_journal cfg inc base off chain sq r (Some rs) = (r', Some rs') \<Longrightarrow>
     \<exists>new. rs' = rs @ new \<and> map rr_seq new = map (\<lambda>i. sq + of_nat i) [0..<length new]"
proof (induction cfg inc base off chain sq r "Some rs" arbitrary: rs r' rs' rule: scan_journal.induct)
  case (1 cfg inc base off chain sq r rs)
  show ?case
  proof (cases "base = [] \<or> trailer_at base \<or> (\<exists>s. scan_record cfg base off chain sq (replay_full (Some rs)) = Inl s)")
    case True
    then have "rs' = rs" using 1(2) by (subst (asm) scan_journal.simps) (auto split: if_splits prod.splits sum.splits)
    then show ?thesis by simp
  next
    case False
    then obtain sn where sn: "base \<noteq> []" "\<not> trailer_at base"
      "scan_record cfg base off chain sq (replay_full (Some rs)) = Inr sn"
      by (meson sum.exhaust)
    have seq: "sn_seq sn = sq"
      using sn(3) by (auto simp: scan_record_def Let_def split: if_splits)
    have run: "scan_journal cfg inc (drop (record_total sn) base) (off + record_total sn) (sn_digest sn) (sq + 1)
        (note_record sn r) (Some (rs @ [recovered_of inc sn])) = (r', Some rs')"
      using 1(2) sn by (subst (asm) scan_journal.simps) simp
    obtain new where new: "rs' = (rs @ [recovered_of inc sn]) @ new"
      "map rr_seq new = map (\<lambda>i. sq + 1 + of_nat i) [0..<length new]"
      using 1(1) [OF sn(1,2,3) _ run] by auto
    have "map rr_seq (recovered_of inc sn # new) = map (\<lambda>i. sq + of_nat i) [0..<length (recovered_of inc sn # new)]"
      using new(2) seq by (simp add: recovered_of_def upt_conv_Cons map_Suc_upt [symmetric] add_ac del: upt_Suc)
    with new(1) show ?thesis by (metis append.assoc append_Cons append_Nil)
  qed
qed

end
