(* ===== verification/SLF_Store.thy ===== *)
theory SLF_Store
  imports SLF_Journal "HOL-Library.AList"
begin

text \<open>
  The state directory (\<open>include/slf/store.hpp\<close>, \<open>src/store.cpp\<close>): segment file names, the listing of
  segments, the snapshot file and the recovery of a whole directory. A directory is its path, whether
  it exists and can be listed, and its regular files with their contents in the order the directory
  iterator yields them. What the operating system answers (a failed \<open>stat\<close>, \<open>fopen\<close>, \<open>fread\<close>,
  \<open>rename\<close> or \<open>remove\<close>) is an argument.
\<close>

section \<open>Directories and file names\<close>

record state_dir =
  sd_name :: string
  sd_exists :: bool
  sd_listable :: bool
  sd_files :: "(string \<times> bytes) list"

definition dir_get :: "state_dir \<Rightarrow> string \<Rightarrow> bytes option" where
  "dir_get d name = map_of (sd_files d) name"

definition dir_put :: "string \<Rightarrow> bytes \<Rightarrow> state_dir \<Rightarrow> state_dir" where
  "dir_put name bs d = d\<lparr>sd_files := AList.update name bs (sd_files d)\<rparr>"

definition dir_remove :: "string \<Rightarrow> state_dir \<Rightarrow> state_dir" where
  "dir_remove name d = d\<lparr>sd_files := AList.delete name (sd_files d)\<rparr>"

text \<open>\<open>directory / name\<close>, rendered with \<open>string()\<close>.\<close>

definition path_string :: "state_dir \<Rightarrow> string \<Rightarrow> string" where
  "path_string d name =
     (if sd_name d = [] \<or> last (sd_name d) = CHR ''/'' then sd_name d @ name else sd_name d @ ''/'' @ name)"

definition four_digit_segment :: "u32 \<Rightarrow> string" where
  "four_digit_segment index =
     (let digits = u_string index in replicate (8 - length digits) (CHR ''0'') @ digits)"

definition default_journal_path :: "u32 \<Rightarrow> string" where
  "default_journal_path segment_index = ''journal-'' @ four_digit_segment segment_index @ ''.slf''"

definition default_snapshot_path :: string where
  "default_snapshot_path = ''snapshot.slf''"

fun parse_segment_digits :: "string \<Rightarrow> u32 \<Rightarrow> u32 option" where
  "parse_segment_digits [] acc = Some acc"
| "parse_segment_digits (c # cs) acc =
     (if \<not> is_digit c then None
      else parse_segment_digits cs (acc * 10 + of_nat (char_code c - 48)))"

definition parse_segment_index :: "string \<Rightarrow> u32 option" where
  "parse_segment_index name =
     (if length name \<noteq> 8 + 8 + 4 then None
      else if take 8 name \<noteq> ''journal-'' then None
      else if drop 16 name \<noteq> ''.slf'' then None
      else parse_segment_digits (take 8 (drop 8 name)) 0)"

section \<open>Reading a file\<close>

datatype read_fault = RF_Stat string | RF_Open | RF_Short

type_synonym read_faults = "string \<Rightarrow> read_fault option"

definition read_file_bounded :: "read_faults \<Rightarrow> state_dir \<Rightarrow> string \<Rightarrow> u64 \<Rightarrow> (bytes \<times> u64) outcome" where
  "read_file_bounded faults d name max_bytes =
     (case (dir_get d name, faults name) of
        (None, _) \<Rightarrow> Inl (Status SC_NotFound (''cannot stat '' @ path_string d name @ '': No such file or directory''))
      | (Some bs, Some (RF_Stat m)) \<Rightarrow> Inl (Status SC_NotFound (''cannot stat '' @ path_string d name @ '': '' @ m))
      | (Some bs, Some RF_Open) \<Rightarrow> Inl (Status SC_IoError (''cannot open '' @ path_string d name))
      | (Some bs, Some RF_Short) \<Rightarrow> Inl (Status SC_IoError (''short read on '' @ path_string d name))
      | (Some bs, None) \<Rightarrow>
          (let size = of_nat (length bs) :: u64; to_read = (if size < max_bytes then size else max_bytes)
           in Inr (take (unat to_read) bs, size)))"

text \<open>\<open>recover_journal\<close>; \<open>recover_bytes\<close> is its part after the file has been read.\<close>

definition recover_journal ::
  "read_faults \<Rightarrow> state_dir \<Rightarrow> string \<Rightarrow> store_config \<Rightarrow> bool \<Rightarrow> recovery_report \<times> recovered_record list option" where
  "recover_journal faults d name cfg collect =
     (let out = (if collect then Some [] else None) in
      case dir_get d name of
        None \<Rightarrow> (empty_recovery\<lparr>rpt_status := RS_Missing, rpt_code := SC_NotFound,
                   rpt_detail := ''no journal segment at '' @ path_string d name\<rparr>, out)
      | Some bs \<Rightarrow>
          (case read_file_bounded faults d name (cfg_max_recovery_bytes cfg) of
             Inl st \<Rightarrow> (empty_recovery\<lparr>rpt_journal_present := True, rpt_status := RS_IoError,
                          rpt_code := st_code st, rpt_detail := st_detail st\<rparr>, out)
           | Inr _ \<Rightarrow> recover_bytes cfg bs collect))"

section \<open>Listing segments\<close>

record segment_info =
  sg_path :: string
  sg_segment_index :: u32
  sg_bytes :: u64
  sg_first_sequence :: sequence_number
  sg_last_sequence :: sequence_number
  sg_records :: u64
  sg_status :: recovery_status
  sg_usable :: bool

fun segment_entries :: "(string \<times> bytes) list \<Rightarrow> segment_info list" where
  "segment_entries [] = []"
| "segment_entries ((name, bs) # files) =
     (case parse_segment_index name of
        None \<Rightarrow> segment_entries files
      | Some index \<Rightarrow>
          \<lparr>sg_path = name, sg_segment_index = index, sg_bytes = of_nat (length bs), sg_first_sequence = 0,
           sg_last_sequence = 0, sg_records = 0, sg_status = RS_Missing, sg_usable = False\<rparr>
          # segment_entries files)"

definition list_journal_segments :: "state_dir \<Rightarrow> u32 \<Rightarrow> segment_info list outcome" where
  "list_journal_segments d max_segments =
     (if \<not> sd_exists d then Inl (Status SC_NotFound ''state directory does not exist'')
      else let segments = std_sort (\<lambda>a b. sg_segment_index a < sg_segment_index b)
                 (segment_entries (if sd_listable d then sd_files d else []))
           in if length segments > unat max_segments
              then Inl (Status SC_Exhausted
                     (''state directory holds '' @ dec_string (length segments)
                      @ '' journal segments, more than the configured maximum of '' @ u_string max_segments))
              else Inr segments)"

section \<open>The snapshot file\<close>

definition kSnapshotMagic :: bytes where
  "kSnapshotMagic = text_bytes ''SLFSNP01''"

definition kSnapshotHeaderBytes :: nat where
  "kSnapshotHeaderBytes = 128"

definition snapshot_header :: "fabric \<Rightarrow> bytes \<Rightarrow> sequence_number \<Rightarrow> bytes" where
  "snapshot_header f payload covered_seq =
     (let header = copy_at 0 kSnapshotMagic (replicate kSnapshotHeaderBytes 0);
          fields = bw_buffer (puts [bw_u32 kPersistenceFormatVersion, bw_u32 (of_nat kSnapshotHeaderBytes),
                     bw_u64 (of_nat (length payload)), bw_u64 (fab_generation f), bw_u64 (fab_epoch f),
                     bw_u64 covered_seq, bw_u64 0] (new_writer kDefaultMaxBytes));
          header = copy_at 8 fields header;
          header = copy_at 64 (digest_of payload) header
      in copy_at 96 (digest_of (take 96 header)) header)"

text \<open>What the operating system does with one snapshot write.\<close>

record snapshot_io =
  sw_open :: bool
  sw_write :: write_io
  sw_rename :: bool
  sw_remove :: bool

definition snapshot_write ::
  "string \<Rightarrow> fabric \<Rightarrow> sequence_number \<Rightarrow> store_config \<Rightarrow> snapshot_io \<Rightarrow> state_dir \<Rightarrow> status \<times> state_dir" where
  "snapshot_write name f covered_seq cfg io d =
     (let payload = serialize_fabric f;
          temporary = name @ ''.tmp'';
          remove_temporary = (\<lambda>d. if sw_remove io then dir_remove temporary d else d)
      in if length payload > unat (cfg_max_snapshot_bytes cfg)
         then (Status SC_Exhausted ''snapshot payload exceeds the configured bound'', d)
         else if \<not> sw_open io then (Status SC_IoError ''cannot create snapshot temporary file'', d)
         else case write_all (wi_header (sw_write io)) (snapshot_header f payload covered_seq) [] of (st, disk) \<Rightarrow>
              if \<not> status_ok st then (st, remove_temporary (dir_put temporary disk d))
              else case write_all (wi_payload (sw_write io)) payload disk of (st, disk) \<Rightarrow>
              if \<not> status_ok st then (st, remove_temporary (dir_put temporary disk d))
              else if \<not> status_ok (wi_sync (sw_write io))
              then (wi_sync (sw_write io), remove_temporary (dir_put temporary disk d))
              else if \<not> sw_rename io
              then (Status SC_IoError ''rename failed at the operating system level'',
                    remove_temporary (dir_put temporary disk d))
              else (status_success, dir_put name disk (dir_remove temporary d)))"

text \<open>A refusal carries the status and the text left in \<open>detail_out\<close>.\<close>

definition snapshot_refusal :: "status_code \<Rightarrow> string \<Rightarrow> (status \<times> string) + 'a" where
  "snapshot_refusal code detail = Inl (Status code detail, detail)"

definition snapshot_decode :: "store_config \<Rightarrow> bytes \<Rightarrow> (status \<times> string) + fabric \<times> sequence_number" where
  "snapshot_decode cfg bs =
     (if length bs < kSnapshotHeaderBytes then snapshot_refusal SC_Truncated ''snapshot header is incomplete''
      else if take 8 bs \<noteq> kSnapshotMagic then snapshot_refusal SC_Corrupt ''snapshot magic does not match''
      else if digest_of (take 96 bs) \<noteq> take 32 (drop 96 bs)
      then snapshot_refusal SC_IntegrityError ''snapshot header digest does not match''
      else case br_u32 (new_reader (take 56 (drop 8 bs)) kDefaultMaxString) of (ver, r0) \<Rightarrow>
           case br_u32 r0 of (hb, r1) \<Rightarrow> case br_u64 r1 of (plen, r2) \<Rightarrow> case br_u64 r2 of (gen, r3) \<Rightarrow>
           case br_u64 r3 of (ep, r4) \<Rightarrow> case br_u64 r4 of (covered, r5) \<Rightarrow> case br_u64 r5 of (res, r6) \<Rightarrow>
           if \<not> outcome_ok ver \<or> \<not> outcome_ok hb \<or> \<not> outcome_ok plen \<or> \<not> outcome_ok gen \<or> \<not> outcome_ok ep
              \<or> \<not> outcome_ok covered \<or> \<not> outcome_ok res
           then snapshot_refusal SC_Corrupt ''snapshot header fields are incomplete''
           else if projr ver \<noteq> kPersistenceFormatVersion
           then snapshot_refusal SC_IncompatibleVersion ''snapshot format version is not supported''
           else if unat (projr hb) \<noteq> kSnapshotHeaderBytes
           then snapshot_refusal SC_Corrupt ''snapshot header declares an unexpected size''
           else if projr plen > cfg_max_snapshot_bytes cfg
           then snapshot_refusal SC_Exhausted ''snapshot payload exceeds the configured bound''
           else if (of_nat (length bs) :: u64) \<noteq> of_nat kSnapshotHeaderBytes + projr plen
           then snapshot_refusal SC_Truncated ''snapshot length does not match its declared payload size''
           else let payload = take (unat (projr plen)) (drop kSnapshotHeaderBytes bs) in
                if digest_of payload \<noteq> take 32 (drop 64 bs)
                then snapshot_refusal SC_IntegrityError ''snapshot payload digest does not match''
                else case deserialize_fabric payload default_builder_limits of
                       Inl st \<Rightarrow> Inl (st, ''snapshot payload could not be parsed: '' @ st_detail st)
                     | Inr f \<Rightarrow>
                         if fab_generation f \<noteq> projr gen
                         then snapshot_refusal SC_IntegrityError ''snapshot generation does not match its header''
                         else Inr (f, projr covered))"

definition snapshot_read ::
  "read_faults \<Rightarrow> state_dir \<Rightarrow> string \<Rightarrow> store_config \<Rightarrow> (status \<times> string) + fabric \<times> sequence_number" where
  "snapshot_read faults d name cfg =
     (case read_file_bounded faults d name (cfg_max_snapshot_bytes cfg + of_nat kSnapshotHeaderBytes) of
        Inl st \<Rightarrow> Inl (st, st_detail st)
      | Inr (bs, _) \<Rightarrow> snapshot_decode cfg bs)"

section \<open>Recovering a directory\<close>

record recovery_outcome =
  ro_report :: recovery_report
  ro_segments :: "segment_info list"
  ro_snapshot_accepted :: bool
  ro_snapshot_watermark :: sequence_number
  ro_snapshot_fabric :: "fabric option"
  ro_prunable_segments :: "string list"

text \<open>A \<open>ReplaySink\<close>: \<open>on_record\<close> on the state the sink object keeps.\<close>

type_synonym 's sink = "recovered_record \<Rightarrow> 's \<Rightarrow> status \<times> 's"

fun severity :: "recovery_status \<Rightarrow> nat" where
  "severity RS_Clean = 0"
| "severity RS_Empty = 1"
| "severity RS_Missing = 2"
| "severity RS_CrashWithoutTrailer = 3"
| "severity RS_TruncatedTail = 4"
| "severity RS_ChainBroken = 5"
| "severity RS_IncompatibleVersion = 6"
| "severity RS_Corrupt = 7"
| "severity RS_IoError = 8"

definition recover_snapshot :: "read_faults \<Rightarrow> state_dir \<Rightarrow> store_config \<Rightarrow> recovery_outcome" where
  "recover_snapshot faults d cfg =
     (let o0 = \<lparr>ro_report = empty_recovery, ro_segments = [], ro_snapshot_accepted = False,
                ro_snapshot_watermark = 0, ro_snapshot_fabric = None, ro_prunable_segments = []\<rparr>
      in case dir_get d default_snapshot_path of
           None \<Rightarrow> o0
         | Some _ \<Rightarrow>
             (let rep = empty_recovery\<lparr>rpt_snapshot_present := True\<rparr> in
              case snapshot_read faults d default_snapshot_path cfg of
                Inr (f, covered) \<Rightarrow>
                  o0\<lparr>ro_report := rep\<lparr>rpt_snapshot_used := True,
                        rpt_detail := ''snapshot accepted (covers records up to sequence '' @ u_string covered @ '')''\<rparr>,
                     ro_snapshot_accepted := True, ro_snapshot_watermark := covered, ro_snapshot_fabric := Some f\<rparr>
              | Inl (_, detail) \<Rightarrow>
                  o0\<lparr>ro_report := rep\<lparr>rpt_snapshot_corrupt := True, rpt_detail := ''snapshot rejected: '' @ detail\<rparr>\<rparr>))"

text \<open>The loop over the records of one segment.\<close>

fun feed_records :: "'s sink \<Rightarrow> bool \<Rightarrow> sequence_number \<Rightarrow> recovered_record list \<Rightarrow> 's \<Rightarrow> status \<times> 's" where
  "feed_records sink accepted watermark [] s = (status_success, s)"
| "feed_records sink accepted watermark (r # rs) s =
     (if accepted \<and> rr_seq r \<le> watermark then feed_records sink accepted watermark rs s
      else case sink r s of (consumed, s1) \<Rightarrow>
           if \<not> status_ok consumed
           then (Status (st_code consumed) (''replay sink refused a record: '' @ st_detail consumed), s1)
           else feed_records sink accepted watermark rs s1)"

definition scanned_segment :: "segment_info \<Rightarrow> recovery_report \<Rightarrow> recovered_record list \<Rightarrow> segment_info" where
  "scanned_segment sg rep records =
     (let sg = sg\<lparr>sg_status := rpt_status rep, sg_usable := recovery_usable rep, sg_records := rpt_records_valid rep\<rparr>
      in if records = [] then sg
         else sg\<lparr>sg_first_sequence := rr_seq (hd records), sg_last_sequence := rr_seq (last records)\<rparr>)"

definition merge_report :: "recovery_report \<Rightarrow> recovery_report \<Rightarrow> recovery_report" where
  "merge_report seg rep =
     (let rep = rep\<lparr>rpt_records_valid := rpt_records_valid rep + rpt_records_valid seg,
                    rpt_records_rejected := rpt_records_rejected rep + rpt_records_rejected seg,
                    rpt_bytes_read := rpt_bytes_read rep + rpt_bytes_read seg,
                    rpt_bytes_dropped := rpt_bytes_dropped rep + rpt_bytes_dropped seg\<rparr>;
          rep = (if rpt_dynamic_evidence_recovered seg
                 then rep\<lparr>rpt_dynamic_evidence_recovered := True, rpt_requires_reobservation := True\<rparr> else rep);
          rep = (if rpt_last_epoch seg > rpt_last_epoch rep then rep\<lparr>rpt_last_epoch := rpt_last_epoch seg\<rparr> else rep);
          rep = (if rpt_last_generation seg > rpt_last_generation rep
                 then rep\<lparr>rpt_last_generation := rpt_last_generation seg\<rparr> else rep);
          rep = rep\<lparr>rpt_last_incarnation := rpt_last_incarnation seg, rpt_last_chain := rpt_last_chain seg\<rparr>
      in if severity (rpt_status seg) > severity (rpt_status rep)
         then rep\<lparr>rpt_status := rpt_status seg, rpt_code := rpt_code seg\<rparr> else rep)"

record recover_progress =
  rv_report :: recovery_report
  rv_done :: "segment_info list"
  rv_expected_next :: sequence_number
  rv_saw_clean :: bool
  rv_any_records :: bool
  rv_prunable :: "string list"

fun recover_segments ::
  "read_faults \<Rightarrow> state_dir \<Rightarrow> store_config \<Rightarrow> 's sink option \<Rightarrow> bool \<Rightarrow> sequence_number \<Rightarrow> segment_info list
     \<Rightarrow> recover_progress \<Rightarrow> 's \<Rightarrow> recover_progress outcome \<times> 's" where
  "recover_segments faults d cfg sink accepted watermark [] p s = (Inr p, s)"
| "recover_segments faults d cfg sink accepted watermark (sg # sgs) p s =
     (case recover_journal faults d (sg_path sg) cfg True of (rep, out) \<Rightarrow>
      let records = the out; sg = scanned_segment sg rep records in
      if rv_expected_next p \<noteq> 0 \<and> sg_first_sequence sg \<noteq> 0 \<and> sg_first_sequence sg \<noteq> rv_expected_next p
      then (Inl (Status SC_Conflicting ''journal segment numbering does not continue across segments''), s)
      else
        let p = \<lparr>rv_report = merge_report rep (rv_report p), rv_done = rv_done p @ [sg],
                 rv_expected_next = (if sg_last_sequence sg \<noteq> 0 then sg_last_sequence sg + 1 else rv_expected_next p),
                 rv_saw_clean = (rv_saw_clean p \<and> rpt_status rep = RS_Clean),
                 rv_any_records = (rv_any_records p \<or> records \<noteq> []),
                 rv_prunable = (if accepted \<and> sg_last_sequence sg \<noteq> 0 \<and> sg_last_sequence sg \<le> watermark
                                then rv_prunable p @ [sg_path sg] else rv_prunable p)\<rparr>
        in case sink of
             None \<Rightarrow> recover_segments faults d cfg sink accepted watermark sgs p s
           | Some f \<Rightarrow>
               (case feed_records f accepted watermark records s of (st, s1) \<Rightarrow>
                if \<not> status_ok st then (Inl st, s1)
                else recover_segments faults d cfg sink accepted watermark sgs p s1))"

definition finish_recovery :: "recover_progress \<Rightarrow> recovery_report" where
  "finish_recovery p =
     (let rep = rv_report p;
          rep = (if rpt_status rep \<noteq> RS_Corrupt \<and> rpt_status rep \<noteq> RS_ChainBroken
                    \<and> rpt_status rep \<noteq> RS_IncompatibleVersion
                 then (let rep = (if rv_saw_clean p then rep\<lparr>rpt_status := RS_Clean\<rparr> else rep) in
                       if rpt_status rep = RS_Clean \<and> \<not> rv_any_records p \<and> rpt_snapshot_used rep
                       then rep\<lparr>rpt_detail := ''snapshot accepted and no newer journal records''\<rparr> else rep)
                 else rep)
      in if rpt_requires_reobservation rep
         then rep\<lparr>rpt_detail := rpt_detail rep
                @ ''; recovered dynamic evidence is historical and must be re-observed''\<rparr>
         else rep)"

definition recover_store ::
  "read_faults \<Rightarrow> state_dir \<Rightarrow> store_config \<Rightarrow> 's sink option \<Rightarrow> 's \<Rightarrow> recovery_outcome outcome \<times> 's" where
  "recover_store faults d cfg sink s =
     (if \<not> sd_exists d
      then (Inr \<lparr>ro_report = empty_recovery\<lparr>rpt_status := RS_Missing, rpt_code := SC_NotFound,
                    rpt_detail := ''state directory does not exist: '' @ sd_name d\<rparr>,
                 ro_segments = [], ro_snapshot_accepted = False, ro_snapshot_watermark = 0,
                 ro_snapshot_fabric = None, ro_prunable_segments = []\<rparr>, s)
      else
        let oc = recover_snapshot faults d cfg; rep = ro_report oc in
        case list_journal_segments d (cfg_max_segments cfg) of
          Inl st \<Rightarrow>
            (Inr (oc\<lparr>ro_report := rep\<lparr>rpt_status := (if st_code st = SC_Exhausted then RS_Corrupt else RS_Missing),
                        rpt_code := st_code st, rpt_detail := st_detail st\<rparr>\<rparr>), s)
        | Inr [] \<Rightarrow>
            (Inr (oc\<lparr>ro_report :=
                (if \<not> rpt_snapshot_used rep
                 then rep\<lparr>rpt_status := RS_Missing, rpt_code := SC_NotFound,
                          rpt_detail := (if rpt_detail rep = []
                            then ''no journal segment and no snapshot in '' @ sd_name d else rpt_detail rep)\<rparr>
                 else rep\<lparr>rpt_status := RS_Clean, rpt_code := SC_Ok\<rparr>)\<rparr>), s)
        | Inr (sg # sgs) \<Rightarrow>
            (case recover_segments faults d cfg sink (ro_snapshot_accepted oc) (ro_snapshot_watermark oc) (sg # sgs)
                    \<lparr>rv_report = rep, rv_done = [], rv_expected_next = 0, rv_saw_clean = True,
                     rv_any_records = False, rv_prunable = []\<rparr> s of
               (Inl st, s1) \<Rightarrow> (Inl st, s1)
             | (Inr p, s1) \<Rightarrow>
                 (Inr (oc\<lparr>ro_report := finish_recovery p, ro_segments := rv_done p,
                          ro_prunable_segments := rv_prunable p\<rparr>), s1)))"

section \<open>Creating a segment\<close>

text \<open>What the operating system answers to \<open>FabricStore::create\<close>.\<close>

record create_io =
  ci_mkdir_error :: "string option"
  ci_open :: bool
  ci_now_unix_ms :: u64
  ci_write :: write_io
  ci_remove :: bool

definition store_create ::
  "store_config \<Rightarrow> controller_incarnation \<Rightarrow> u32 \<Rightarrow> sequence_number \<Rightarrow> create_io \<Rightarrow> state_dir
     \<Rightarrow> fabric_store outcome \<times> state_dir" where
  "store_create cfg inc segment_index first_sequence io d =
     (if incarnation_is_zero inc
      then (Inl (Status SC_Invalid ''a journal segment must name the controller incarnation that owns it''), d)
      else if \<not> sd_exists d \<and> ci_mkdir_error io \<noteq> None
      then (Inl (Status SC_IoError (''cannot create state directory: '' @ the (ci_mkdir_error io))), d)
      else
        let d = (if sd_exists d then d else d\<lparr>sd_exists := True, sd_listable := True, sd_files := []\<rparr>);
            name = default_journal_path segment_index
        in if dir_get d name \<noteq> None
           then (Inl (Status SC_AlreadyExists (''journal segment already exists: '' @ path_string d name)), d)
           else if \<not> ci_open io
           then (Inl (Status SC_IoError (''cannot create journal segment '' @ path_string d name)), d)
           else case open_segment cfg inc segment_index first_sequence (ci_now_unix_ms io) (ci_write io) of
                  Inr s \<Rightarrow> (Inr s, dir_put name (fs_disk s) d)
                | Inl st \<Rightarrow>
                    (let header = encode_journal_header inc segment_index (ci_now_unix_ms io) first_sequence in
                     case write_all (wi_header (ci_write io)) header [] of (written, disk) \<Rightarrow>
                     (Inl st, if status_ok written \<and> ci_remove io then d else dir_put name disk d)))"

text \<open>The directory as another process sees it while a store has a segment open.\<close>

definition store_files :: "fabric_store \<Rightarrow> state_dir \<Rightarrow> state_dir" where
  "store_files s d = dir_put (default_journal_path (fs_segment_index s)) (fs_disk s) d"

section \<open>Files\<close>

lemma dir_get_put [simp]: "dir_get (dir_put name bs d) other = (if other = name then Some bs else dir_get d other)"
  by (simp add: dir_get_def dir_put_def update_conv')

lemma dir_get_remove [simp]: "dir_get (dir_remove name d) other = (if other = name then None else dir_get d other)"
  by (simp add: dir_get_def dir_remove_def delete_conv')

lemma dir_frame [simp]:
  "sd_name (dir_put name bs d) = sd_name d" "sd_exists (dir_put name bs d) = sd_exists d"
  "sd_listable (dir_put name bs d) = sd_listable d"
  "sd_name (dir_remove name d) = sd_name d" "sd_exists (dir_remove name d) = sd_exists d"
  "sd_listable (dir_remove name d) = sd_listable d"
  by (simp_all add: dir_put_def dir_remove_def)

lemma parse_segment_digits_value:
  "\<forall>c\<in>set cs. is_digit c \<Longrightarrow> parse_segment_digits cs (of_nat n) = Some (of_nat (dec_value n cs))"
proof (induction cs arbitrary: n)
  case (Cons c cs)
  then have "parse_segment_digits (c # cs) (of_nat n) = parse_segment_digits cs (of_nat (10 * n + (char_code c - 48)))"
    by (simp add: mult.commute)
  also have "\<dots> = Some (of_nat (dec_value (10 * n + (char_code c - 48)) cs))"
    using Cons.prems by (intro Cons.IH) simp
  finally show ?case by (simp add: dec_value_def)
qed (simp add: dec_value_def)

lemma dec_value_bound: "\<forall>c\<in>set cs. is_digit c \<Longrightarrow> dec_value n cs < (n + 1) * 10 ^ length cs"
proof (induction cs arbitrary: n)
  case (Cons c cs)
  have "char_code c - 48 \<le> 9" using Cons.prems by (auto simp: is_digit_def)
  then have "(10 * n + (char_code c - 48) + 1) * 10 ^ length cs \<le> (10 * n + 10) * 10 ^ length cs"
    by (intro mult_right_mono) simp_all
  moreover have "dec_value (10 * n + (char_code c - 48)) cs < (10 * n + (char_code c - 48) + 1) * 10 ^ length cs"
    using Cons.prems by (intro Cons.IH) simp
  ultimately show ?case by (simp add: dec_value_def algebra_simps)
qed (simp add: dec_value_def)

lemma dec_value_zeros: "dec_value 0 (replicate k (CHR ''0'') @ cs) = dec_value 0 cs"
  by (induction k) (simp_all add: dec_value_def)

lemma four_digit_length:
  "length (four_digit_segment i) = 8 \<longleftrightarrow> unat i < 10 ^ 8"
proof (cases "unat i < 10 ^ 8")
  case True
  then have "length (u_string i) \<le> 8" unfolding u_string_def by (intro length_dec_string) simp_all
  with True show ?thesis by (simp add: four_digit_segment_def Let_def)
next
  case False
  have "length (dec_string (unat i)) > 8"
  proof (rule ccontr)
    assume "\<not> length (dec_string (unat i)) > 8"
    then have "(10 :: nat) ^ length (dec_string (unat i)) \<le> 10 ^ 8" by (intro power_increasing) simp_all
    moreover have "dec_value 0 (dec_string (unat i)) < 10 ^ length (dec_string (unat i))"
      using dec_value_bound [of "dec_string (unat i)" 0] dec_string_digits [of _ "unat i"] by simp
    ultimately have "dec_value 0 (dec_string (unat i)) < 10 ^ 8" by (rule order_less_le_trans [rotated])
    with False show False by (simp add: dec_value_dec_string)
  qed
  with False show ?thesis by (simp add: four_digit_segment_def u_string_def Let_def)
qed

lemma four_digit_digits: "c \<in> set (four_digit_segment i) \<Longrightarrow> is_digit c"
  by (auto simp: four_digit_segment_def Let_def u_string_def is_digit_def dest: dec_string_digits split: if_splits)

lemma parse_default_path:
  "parse_segment_index (default_journal_path i) = (if unat i < 10 ^ 8 then Some i else None)"
proof (cases "unat i < 10 ^ 8")
  case True
  then have len: "length (four_digit_segment i) = 8" using four_digit_length by blast
  have "parse_segment_digits (four_digit_segment i) (of_nat 0) = Some (of_nat (dec_value 0 (four_digit_segment i)))"
    by (intro parse_segment_digits_value ballI four_digit_digits)
  also have "dec_value 0 (four_digit_segment i) = unat i"
    by (simp add: four_digit_segment_def Let_def dec_value_zeros u_string_def dec_value_dec_string)
  finally have "parse_segment_digits (four_digit_segment i) 0 = Some i" by simp
  with True len show ?thesis by (simp add: parse_segment_index_def default_journal_path_def)
next
  case False
  then have "length (four_digit_segment i) \<noteq> 8" using four_digit_length by blast
  with False show ?thesis by (simp add: parse_segment_index_def default_journal_path_def)
qed

section \<open>Snapshots\<close>

definition snapshot_head :: "fabric \<Rightarrow> bytes \<Rightarrow> sequence_number \<Rightarrow> bytes" where
  "snapshot_head f payload covered =
     kSnapshotMagic @ le_bytes 4 kPersistenceFormatVersion @ le_bytes 4 (of_nat kSnapshotHeaderBytes :: u32)
     @ le_bytes 8 (of_nat (length payload) :: u64) @ le_bytes 8 (fab_generation f) @ le_bytes 8 (fab_epoch f)
     @ le_bytes 8 covered @ le_bytes 8 (0 :: u64) @ replicate 8 0 @ digest_of payload"

definition snapshot_image :: "fabric \<Rightarrow> sequence_number \<Rightarrow> bytes" where
  "snapshot_image f covered = snapshot_header f (serialize_fabric f) covered @ serialize_fabric f"

lemma length_snapshot_magic [simp]: "length kSnapshotMagic = 8"
  by (simp add: kSnapshotMagic_def)

lemma length_snapshot_head [simp]: "length (snapshot_head f payload covered) = 96"
  by (simp add: snapshot_head_def)

lemma snapshot_header_exact:
  "snapshot_header f payload covered = snapshot_head f payload covered @ digest_of (snapshot_head f payload covered)"
proof -
  let ?f = "[le_bytes 4 kPersistenceFormatVersion, le_bytes 4 (of_nat kSnapshotHeaderBytes :: u32),
     le_bytes 8 (of_nat (length payload) :: u64), le_bytes 8 (fab_generation f), le_bytes 8 (fab_epoch f),
     le_bytes 8 covered, le_bytes 8 (0 :: u64)]"
  let ?puts = "[bw_u32 kPersistenceFormatVersion, bw_u32 (of_nat kSnapshotHeaderBytes), bw_u64 (of_nat (length payload)),
     bw_u64 (fab_generation f), bw_u64 (fab_epoch f), bw_u64 covered, bw_u64 0]"
  have fields: "bw_buffer (puts ?puts (new_writer kDefaultMaxBytes)) = concat ?f"
    by (rule buffer_puts) (simp_all add: emits_intros kDefaultMaxBytes_def)
  have body: "copy_at 64 (digest_of payload) (copy_at 8 (concat ?f) (copy_at 0 kSnapshotMagic (replicate kSnapshotHeaderBytes 0)))
      = snapshot_head f payload covered @ replicate 32 0"
    by (simp add: copy_at_def kSnapshotHeaderBytes_def snapshot_head_def)
  have "take 96 (snapshot_head f payload covered @ replicate 32 0) = snapshot_head f payload covered" by simp
  then show ?thesis unfolding snapshot_header_def Let_def fields body by (simp add: copy_at_def)
qed

lemma length_snapshot_header [simp]: "length (snapshot_header f payload covered) = 128"
  by (simp add: snapshot_header_exact)

lemma decode_snapshot_image:
  assumes "deserialize_fabric (serialize_fabric f) default_builder_limits = Inr f"
    and "length (serialize_fabric f) \<le> unat (cfg_max_snapshot_bytes cfg)"
  shows "snapshot_decode cfg (snapshot_image f covered) = Inr (f, covered)"
proof -
  let ?p = "serialize_fabric f"
  let ?h = "snapshot_head f ?p covered"
  have bs: "snapshot_image f covered = ?h @ digest_of ?h @ ?p" by (simp add: snapshot_image_def snapshot_header_exact)
  have plen: "unat (of_nat (length ?p) :: u64) = length ?p"
    using assms(2) u64_bound [of "cfg_max_snapshot_bytes cfg"] by (simp add: unat_of_nat)
  then have fits: "\<not> (of_nat (length ?p) :: u64) > cfg_max_snapshot_bytes cfg"
    using assms(2) by (simp add: word_less_nat_alt)
  have magic: "take 8 (?h @ digest_of ?h @ ?p) = kSnapshotMagic" by (simp add: snapshot_head_def)
  have win: "take 56 (drop 8 (?h @ digest_of ?h @ ?p)) = le_bytes 4 kPersistenceFormatVersion
     @ le_bytes 4 (of_nat kSnapshotHeaderBytes :: u32) @ le_bytes 8 (of_nat (length ?p) :: u64)
     @ le_bytes 8 (fab_generation f) @ le_bytes 8 (fab_epoch f) @ le_bytes 8 covered @ le_bytes 8 (0 :: u64) @ replicate 8 0"
    by (simp add: snapshot_head_def)
  have cut: "take 96 (?h @ digest_of ?h @ ?p) = ?h" "take 32 (drop 96 (?h @ digest_of ?h @ ?p)) = digest_of ?h"
    "drop kSnapshotHeaderBytes (?h @ digest_of ?h @ ?p) = ?p" by (simp_all add: kSnapshotHeaderBytes_def)
  have pd: "take 32 (drop 64 (?h @ digest_of ?h @ ?p)) = digest_of ?p" by (simp add: snapshot_head_def)
  have len: "\<not> length (?h @ digest_of ?h @ ?p) < kSnapshotHeaderBytes"
    "(of_nat (length (?h @ digest_of ?h @ ?p)) :: u64) = of_nat kSnapshotHeaderBytes + of_nat (length ?p)"
    by (simp_all add: kSnapshotHeaderBytes_def)
  show ?thesis
    unfolding snapshot_decode_def bs magic win cut pd len(2) if_not_P [OF len(1)] new_reader_rd
    using assms(1) fits plen by (simp add: codec_simps kSnapshotHeaderBytes_def Let_def)
qed

text \<open>A snapshot write replaces the file or leaves every file but the temporary one as it was.\<close>

lemma snapshot_write_cases:
  "case snapshot_write name f covered cfg io d of (st, d') \<Rightarrow>
     if status_ok st then dir_get d' name = Some (snapshot_image f covered)
         \<and> length (serialize_fabric f) \<le> unat (cfg_max_snapshot_bytes cfg)
         \<and> (\<forall>other. other \<noteq> name \<and> other \<noteq> name @ ''.tmp'' \<longrightarrow> dir_get d' other = dir_get d other)
     else \<forall>other. other \<noteq> name @ ''.tmp'' \<longrightarrow> dir_get d' other = dir_get d other"
  by (auto simp: snapshot_write_def write_all_def Let_def snapshot_image_def)

end
