(* ===== verification/SLF_Runtime.thy ===== *)
theory SLF_Runtime
  imports SLF_Store
begin

text \<open>
  The controller runtime (\<open>include/slf/runtime.hpp\<close>, \<open>src/runtime.cpp\<close>). Its state is the members of
  \<open>ControllerRuntime\<close> and the state directory; the file of the segment that is open is kept in the
  store (\<open>fs_disk\<close>), every other file in \<open>rt_dir\<close>. Each public operation runs under \<open>writer_mutex_\<close>
  and is one step; a pass of a background worker is a step of its own, so every interleaving of
  callers and workers is a sequence of these steps. Clock readings and the answers of the operating
  system are arguments. An injected fault (\<open>std::_Exit\<close>) is the value \<open>None\<close>.

  The link of an \<open>AddLink\<close> command is the record its bytes denote; a byte outside an enumeration
  denotes no record, and what the code does with it is left open here.
\<close>

section \<open>State\<close>

datatype fault_point = FP_None | FP_BeforeCommit | FP_AfterCommitBeforeAck | FP_AfterAckBeforeSnapshot

fun fault_point_string :: "fault_point \<Rightarrow> string" where
  "fault_point_string FP_None = ''none''"
| "fault_point_string FP_BeforeCommit = ''before_commit''"
| "fault_point_string FP_AfterCommitBeforeAck = ''after_commit_before_ack''"
| "fault_point_string FP_AfterAckBeforeSnapshot = ''after_ack_before_snapshot''"

definition parse_fault_point :: "string \<Rightarrow> fault_point option" where
  "parse_fault_point t =
     (if t = ''none'' then Some FP_None else if t = ''before_commit'' then Some FP_BeforeCommit
      else if t = ''after_commit_before_ack'' then Some FP_AfterCommitBeforeAck
      else if t = ''after_ack_before_snapshot'' then Some FP_AfterAckBeforeSnapshot else None)"

fun fault_point_u8 :: "fault_point \<Rightarrow> u8" where
  "fault_point_u8 FP_None = 0"
| "fault_point_u8 FP_BeforeCommit = 1"
| "fault_point_u8 FP_AfterCommitBeforeAck = 2"
| "fault_point_u8 FP_AfterAckBeforeSnapshot = 3"

record runtime_config =
  rc_fabric_id :: fabric_id
  rc_name :: string
  rc_site :: string
  rc_options :: fabric_options
  rc_limits :: builder_limits
  rc_state_dir :: string
  rc_enable_persistence :: bool
  rc_worker_threads :: u32
  rc_authority_ttl_ms :: u64
  rc_max_dedup_entries :: u32
  rc_max_command_history :: u32
  rc_compaction_record_threshold :: u64
  rc_sweep_interval_ms :: u64
  rc_store :: store_config
  rc_recover_evidence_as_historical :: bool

record runtime =
  rt_config :: runtime_config
  rt_fabric :: "fabric option"
  rt_index :: "topology_index option"
  rt_health :: "fabric_health_report option"
  rt_incarnation :: controller_incarnation
  rt_epoch :: epoch
  rt_generation :: topology_generation
  rt_lease :: "authority_lease option"
  rt_lease_counter :: u64
  rt_store :: "fabric_store option"
  rt_recovery :: recovery_report
  rt_workers :: nat
  rt_started :: bool
  rt_stop_requested :: bool
  rt_fault_point :: fault_point
  rt_started_at_ms :: u64
  rt_records_since_snapshot :: u64
  rt_commands_applied :: u64
  rt_commands_refused :: u64
  rt_commands_fenced :: u64
  rt_commands_duplicated :: u64
  rt_queries_served :: u64
  rt_dedup :: "(request_id \<times> command_result) list"
  rt_command_history :: "string list"
  rt_dir :: state_dir

definition new_runtime :: "runtime_config \<Rightarrow> state_dir \<Rightarrow> runtime" where
  "new_runtime cfg d =
     \<lparr>rt_config = cfg, rt_fabric = None, rt_index = None, rt_health = None, rt_incarnation = Incarnation 0 0,
      rt_epoch = 0, rt_generation = 0, rt_lease = None, rt_lease_counter = 0, rt_store = None,
      rt_recovery = empty_recovery, rt_workers = 0, rt_started = False, rt_stop_requested = False,
      rt_fault_point = FP_None, rt_started_at_ms = 0, rt_records_since_snapshot = 0, rt_commands_applied = 0,
      rt_commands_refused = 0, rt_commands_fenced = 0, rt_commands_duplicated = 0, rt_queries_served = 0,
      rt_dedup = [], rt_command_history = [], rt_dir = d\<rparr>"

definition persistent :: "runtime \<Rightarrow> bool" where
  "persistent rt = (rc_enable_persistence (rt_config rt) \<and> rc_state_dir (rt_config rt) \<noteq> [])"

text \<open>The directory another process would find if this one stopped now.\<close>

definition visible_dir :: "runtime \<Rightarrow> state_dir" where
  "visible_dir rt = (case rt_store rt of None \<Rightarrow> rt_dir rt | Some s \<Rightarrow> store_files s (rt_dir rt))"

definition is_topology_command :: "command_kind \<Rightarrow> bool" where
  "is_topology_command kind = (kind \<noteq> CK_SubmitEvidence \<and> kind \<noteq> CK_ClearEvidence)"

definition next_generation :: "topology_generation \<Rightarrow> topology_generation" where
  "next_generation current = current + 1"

section \<open>The effect of a command\<close>

text \<open>Early return after a group of additions that failed.\<close>

definition and_then ::
  "status \<times> fabric_builder \<Rightarrow> (fabric_builder \<Rightarrow> status \<times> fabric_builder) \<Rightarrow> status \<times> fabric_builder" where
  "and_then sb next = (case sb of (st, b) \<Rightarrow> if \<not> status_ok st then (st, b) else next b)"

definition modified_builder :: "builder_limits \<Rightarrow> fabric \<Rightarrow> status \<times> fabric_builder" where
  "modified_builder limits f =
     (let b0 = new_builder (fab_id f) (fab_name f) (fab_generation f) (fab_epoch f) (fab_options f) limits;
          b1 = snd (set_site (fab_site f) b0);
          b2 = snd (set_state (fab_state f) b1)
      in foldl and_then (status_success, b2)
           [add_all add_failure_domain (fab_domains f), add_all add_leaf (fab_leaves f),
            add_all add_spine (fab_spines f), add_all add_port (fab_ports f),
            add_all add_history_link (fab_history_links f), add_all add_link (fab_links f),
            add_all add_evidence (fab_evidence f)])"

definition builder_from_modified :: "builder_limits \<Rightarrow> fabric \<Rightarrow> fabric outcome" where
  "builder_from_modified limits f =
     (case modified_builder limits f of (st, b) \<Rightarrow> if \<not> status_ok st then Inl st else fst (freeze b))"

definition retire_link :: "link_id \<Rightarrow> topology_generation \<Rightarrow> fabric \<Rightarrow> fabric" where
  "retire_link link generation f =
     (case find (\<lambda>l. lk_id l = link) (fab_links f) of
        None \<Rightarrow> f
      | Some l \<Rightarrow> f\<lparr>fab_history_links := fab_history_links f @ [l\<lparr>lk_generation := generation\<rparr>],
                    fab_links := remove1 l (fab_links f)\<rparr>)"

definition command_effect ::
  "fabric \<Rightarrow> command \<Rightarrow> topology_generation \<Rightarrow> epoch \<Rightarrow> controller_incarnation \<Rightarrow> fabric" where
  "command_effect current c target_generation ep observer =
     (let f = current\<lparr>fab_generation := target_generation, fab_epoch := ep\<rparr> in
      case cm_kind c of
        CK_SetFabricState \<Rightarrow> f\<lparr>fab_state := cm_fabric_state c\<rparr>
      | CK_SetOptions \<Rightarrow> f\<lparr>fab_options := cm_options c\<rparr>
      | CK_SetLeafState \<Rightarrow>
          f\<lparr>fab_leaves := map (\<lambda>l. if lf_id l = nk_index (cm_node c) then l\<lparr>lf_state := cm_node_state c\<rparr> else l) (fab_leaves f)\<rparr>
      | CK_SetSpineState \<Rightarrow>
          f\<lparr>fab_spines := map (\<lambda>s. if sp_id s = nk_index (cm_node c) then s\<lparr>sp_state := cm_node_state c\<rparr> else s) (fab_spines f)\<rparr>
      | CK_SetPortAdmin \<Rightarrow>
          f\<lparr>fab_ports := map (\<lambda>p. if pt_id p = cm_port c then p\<lparr>pt_admin := cm_port_admin c\<rparr> else p) (fab_ports f)\<rparr>
      | CK_SetLinkAdmin \<Rightarrow>
          f\<lparr>fab_links := map (\<lambda>l. if lk_id l = cm_link c then l\<lparr>lk_admin := cm_link_admin c\<rparr> else l) (fab_links f)\<rparr>
      | CK_RemoveLink \<Rightarrow> retire_link (cm_link c) (fab_generation current) f
      | CK_AddLink \<Rightarrow> f\<lparr>fab_links := fab_links f @ [the (link_of_wire (cm_new_link c))]\<rparr>
      | CK_SubmitEvidence \<Rightarrow>
          f\<lparr>fab_evidence := fab_evidence f
              @ [(cm_evidence c)\<lparr>ev_observer := observer, ev_epoch := ep, ev_generation := target_generation\<rparr>]\<rparr>
      | CK_ClearEvidence \<Rightarrow> f\<lparr>fab_evidence := filter (\<lambda>e. ev_link e \<noteq> cm_link c) (fab_evidence f)\<rparr>)"

definition stamp_generation :: "topology_generation \<Rightarrow> fabric \<Rightarrow> fabric" where
  "stamp_generation g f =
     f\<lparr>fab_leaves := map (lf_generation_update (\<lambda>_. g)) (fab_leaves f),
       fab_spines := map (sp_generation_update (\<lambda>_. g)) (fab_spines f),
       fab_ports := map (pt_generation_update (\<lambda>_. g)) (fab_ports f),
       fab_domains := map (fd_generation_update (\<lambda>_. g)) (fab_domains f),
       fab_links := map (lk_generation_update (\<lambda>_. g)) (fab_links f)\<rparr>"

definition apply_command_to ::
  "builder_limits \<Rightarrow> fabric \<Rightarrow> command \<Rightarrow> topology_generation \<Rightarrow> epoch \<Rightarrow> controller_incarnation \<Rightarrow> fabric outcome" where
  "apply_command_to limits current c target_generation ep observer =
     builder_from_modified limits
       (stamp_generation target_generation (command_effect current c target_generation ep observer))"

section \<open>Authority\<close>

definition authority_context_locked :: "u64 \<Rightarrow> runtime \<Rightarrow> authority_context" where
  "authority_context_locked now rt =
     \<lparr>cx_controller = rt_incarnation rt, cx_epoch = rt_epoch rt, cx_generation = rt_generation rt,
      cx_topology_digest = (case rt_fabric rt of None \<Rightarrow> zero_digest | Some f \<Rightarrow> fab_topology_digest f),
      cx_active_lease = map_option al_lease (rt_lease rt), cx_now_unix_ms = now\<rparr>"

text \<open>An append by the runtime: the record goes to the open store, if there is one.\<close>

definition journal_append ::
  "(fabric_store \<Rightarrow> status \<times> fabric_store) \<Rightarrow> runtime \<Rightarrow> status \<times> runtime" where
  "journal_append appender rt =
     (case rt_store rt of
        None \<Rightarrow> (status_success, rt)
      | Some s \<Rightarrow>
          (case appender s of (st, s1) \<Rightarrow>
           let rt = rt\<lparr>rt_store := Some s1\<rparr> in
           if status_ok st then (st, rt\<lparr>rt_records_since_snapshot := rt_records_since_snapshot rt + 1\<rparr>)
           else (st, rt)))"

definition new_lease :: "string \<Rightarrow> u64 \<Rightarrow> u64 \<Rightarrow> runtime \<Rightarrow> authority_lease" where
  "new_lease requester now expires rt =
     (let lease = rt_lease_counter rt + 1 in
      \<lparr>al_token = \<lparr>tk_controller = rt_incarnation rt, tk_epoch = rt_epoch rt, tk_generation = rt_generation rt,
                   tk_lease = lease,
                   tk_topology_digest = (case rt_fabric rt of None \<Rightarrow> zero_digest | Some f \<Rightarrow> fab_topology_digest f),
                   tk_issued_at_unix_ms = now, tk_expires_at_unix_ms = expires\<rparr>,
       al_requester = requester, al_lease = lease\<rparr>)"

definition lease_payload :: "authority_lease \<Rightarrow> bytes" where
  "lease_payload l =
     bw_buffer (puts [bw_u64 (al_lease l), bw_u64 (tk_issued_at_unix_ms (al_token l)),
       bw_u64 (tk_expires_at_unix_ms (al_token l)), bw_string (al_requester l)] (new_writer 4096))"

definition acquire_authority :: "string \<Rightarrow> u64 \<Rightarrow> u64 \<Rightarrow> write_io \<Rightarrow> runtime \<Rightarrow> authority_lease outcome \<times> runtime" where
  "acquire_authority requester ttl_ms now io rt =
     (if \<not> rt_started rt then (Inl (Status SC_NotStarted ''runtime has not been started''), rt)
      else if requester = [] \<or> length requester > 256 \<or> \<not> is_valid_utf8 requester
      then (Inl (Status SC_Invalid ''requester name is missing, too long, or not valid UTF-8''), rt)
      else
        let ttl = (if ttl_ms = 0 then rc_authority_ttl_ms (rt_config rt) else ttl_ms) in
        if ttl = 0 then (Inl (Status SC_Invalid ''authority lease time to live must be non-zero''), rt)
        else case checked_add now ttl of
               None \<Rightarrow> (Inl (Status SC_Overflow ''lease expiry overflowed''), rt)
             | Some expires \<Rightarrow>
                 (let lease = new_lease requester now expires rt;
                      rt = rt\<lparr>rt_lease_counter := rt_lease_counter rt + 1, rt_lease := Some lease\<rparr>
                  in case journal_append (append_record RT_Fence (lease_payload lease) (rt_incarnation rt) (rt_epoch rt)
                            (rt_generation rt) io) rt of
                       (st, rt) \<Rightarrow> if \<not> status_ok st then (Inl st, rt\<lparr>rt_lease := None\<rparr>) else (Inr lease, rt)))"

definition revoke_authority :: "write_io \<Rightarrow> runtime \<Rightarrow> status \<times> runtime" where
  "revoke_authority io rt =
     (case rt_lease rt of
        None \<Rightarrow> (Status SC_NotFound ''no lease is active'', rt)
      | Some _ \<Rightarrow>
          (case journal_append (append_record RT_Fence [] (rt_incarnation rt) (rt_epoch rt) (rt_generation rt) io)
                  (rt\<lparr>rt_lease := None\<rparr>) of
             (st, rt) \<Rightarrow> if \<not> status_ok st then (st, rt) else (status_success, rt)))"

definition validate_authority :: "authority_token \<Rightarrow> u64 \<Rightarrow> runtime \<Rightarrow> authority_check" where
  "validate_authority t now rt = validate_token t (authority_context_locked now rt)"

definition validate_path_authority_ref :: "path_authority \<Rightarrow> u64 \<Rightarrow> runtime \<Rightarrow> authority_check" where
  "validate_path_authority_ref au now rt = validate_path_authority au (authority_context_locked now rt)"

section \<open>Applying a command\<close>

definition base_result :: "command \<Rightarrow> runtime \<Rightarrow> command_result" where
  "base_result c rt =
     blank_result\<lparr>cr_request_id := cm_request_id c, cr_generation := rt_generation rt, cr_epoch := rt_epoch rt,
       cr_topology_digest := (case rt_fabric rt of None \<Rightarrow> zero_digest | Some f \<Rightarrow> fab_topology_digest f)\<rparr>"

definition command_refused :: "status_code \<Rightarrow> string \<Rightarrow> command_result \<Rightarrow> runtime \<Rightarrow> command_result option \<times> runtime" where
  "command_refused code detail r rt =
     (Some (r\<lparr>cr_code := status_code_u16 code, cr_detail := detail\<rparr>),
      rt\<lparr>rt_commands_refused := rt_commands_refused rt + 1\<rparr>)"

definition command_fenced :: "status_code \<Rightarrow> string \<Rightarrow> command_result \<Rightarrow> runtime \<Rightarrow> command_result option \<times> runtime" where
  "command_fenced code detail r rt =
     (Some (r\<lparr>cr_code := status_code_u16 code, cr_detail := detail\<rparr>),
      rt\<lparr>rt_commands_fenced := rt_commands_fenced rt + 1\<rparr>)"

text \<open>The preconditions that depend only on the current topology.\<close>

definition command_precondition :: "fabric \<Rightarrow> command \<Rightarrow> (status_code \<times> string) option" where
  "command_precondition f c =
     (case cm_kind c of
        CK_SetFabricState \<Rightarrow> None
      | CK_SetOptions \<Rightarrow> None
      | CK_SubmitEvidence \<Rightarrow> None
      | CK_ClearEvidence \<Rightarrow> None
      | CK_SetLeafState \<Rightarrow>
          if nk_tier (cm_node c) \<noteq> Leaf then Some (SC_Invalid, ''SetLeafState requires a leaf node reference'')
          else if find_leaf f (nk_index (cm_node c)) = None
          then Some (SC_NotFound, ''leaf '' @ node_key_string (cm_node c) @ '' does not exist'') else None
      | CK_SetSpineState \<Rightarrow>
          if nk_tier (cm_node c) \<noteq> Spine then Some (SC_Invalid, ''SetSpineState requires a spine node reference'')
          else if find_spine f (nk_index (cm_node c)) = None
          then Some (SC_NotFound, ''spine '' @ node_key_string (cm_node c) @ '' does not exist'') else None
      | CK_SetPortAdmin \<Rightarrow>
          if find_port f (cm_port c) = None
          then Some (SC_NotFound, ''port '' @ port_id_string (cm_port c) @ '' does not exist'') else None
      | CK_SetLinkAdmin \<Rightarrow>
          if find_link f (cm_link c) = None
          then Some (SC_NotFound, ''link '' @ link_id_string (cm_link c) @ '' does not exist'') else None
      | CK_RemoveLink \<Rightarrow>
          if find_link f (cm_link c) = None
          then Some (SC_NotFound, ''link '' @ link_id_string (cm_link c) @ '' does not exist'') else None
      | CK_AddLink \<Rightarrow>
          if wl_id (cm_new_link c) = 0 then Some (SC_Invalid, ''AddLink requires a non-zero link identity'') else None)"

definition hits_fault :: "fault_point \<Rightarrow> runtime \<Rightarrow> bool" where
  "hits_fault point rt = (rt_fault_point rt \<noteq> FP_None \<and> rt_fault_point rt = point)"

text \<open>Publishing a validated fabric and recording the result, once the commit record is durable.\<close>

definition publish_command ::
  "command \<Rightarrow> fabric \<Rightarrow> topology_index \<Rightarrow> command_result \<Rightarrow> runtime \<Rightarrow> command_result \<times> runtime" where
  "publish_command c f ix r rt =
     (let rt = rt\<lparr>rt_fabric := Some f, rt_index := Some ix, rt_generation := fab_generation f\<rparr>;
          rt = rt\<lparr>rt_lease := map_option (\<lambda>l. l\<lparr>al_token := (al_token l)
                     \<lparr>tk_generation := fab_generation f, tk_topology_digest := fab_topology_digest f\<rparr>\<rparr>) (rt_lease rt)\<rparr>;
          r = (case rt_lease rt of None \<Rightarrow> r | Some l \<Rightarrow> r\<lparr>cr_refreshed_token := al_token l\<rparr>);
          history = (if length (rt_command_history rt) \<ge> unat (rc_max_command_history (rt_config rt))
                     then tl (rt_command_history rt) else rt_command_history rt)
      in (r, rt\<lparr>rt_command_history := history @ [command_result_string r],
                rt_dedup := rt_dedup rt @ [(cm_request_id c, r)],
                rt_commands_applied := rt_commands_applied rt + 1\<rparr>))"

definition commit_result :: "command \<Rightarrow> fabric \<Rightarrow> runtime \<Rightarrow> command_result" where
  "commit_result c f rt =
     (base_result c rt)\<lparr>cr_mutated := True, cr_generation := fab_generation f, cr_epoch := rt_epoch rt,
       cr_topology_digest := fab_topology_digest f, cr_code := status_code_u16 SC_Ok,
       cr_detail := ''applied '' @ command_kind_string (cm_kind c)\<rparr>"

definition commit_command :: "command \<Rightarrow> fabric \<Rightarrow> topology_index \<Rightarrow> write_io \<Rightarrow> runtime \<Rightarrow> command_result option \<times> runtime" where
  "commit_command c f ix io rt =
     (if hits_fault FP_BeforeCommit rt then (None, rt)
      else
        let r = commit_result c f rt in
        case journal_append (append_command c r (rt_incarnation rt) (rt_epoch rt) io) rt of (st, rt) \<Rightarrow>
        if \<not> status_ok st
        then command_refused (st_code st) (''durable commit failed: '' @ st_detail st) (r\<lparr>cr_mutated := False\<rparr>) rt
        else if hits_fault FP_AfterCommitBeforeAck rt then (None, rt)
        else case publish_command c f ix r rt of (r, rt) \<Rightarrow>
             if hits_fault FP_AfterAckBeforeSnapshot rt then (None, rt) else (Some r, rt))"

text \<open>From the authority check on; \<open>fabric_\<close> is never null in a started runtime.\<close>

definition apply_admitted :: "command \<Rightarrow> u64 \<Rightarrow> write_io \<Rightarrow> runtime \<Rightarrow> command_result option \<times> runtime" where
  "apply_admitted c now io rt =
     (let result = base_result c rt; check = validate_token (cm_token c) (authority_context_locked now rt) in
      if ck_code check \<noteq> SC_Ok
      then (if is_stale_family (ck_code check) then command_fenced (ck_code check) (ck_detail check) result rt
            else command_refused (ck_code check) (ck_detail check) result rt)
      else if cm_expected_generation c \<noteq> rt_generation rt \<or> cm_expected_epoch c \<noteq> rt_epoch rt
      then command_fenced SC_Stale
             (''command expected generation '' @ u_string (cm_expected_generation c) @ '' epoch ''
              @ u_string (cm_expected_epoch c) @ '' but the live coordinate is '' @ u_string (rt_generation rt)
              @ ''/'' @ u_string (rt_epoch rt)) result rt
      else
        let target = (if is_topology_command (cm_kind c) then next_generation (rt_generation rt) else rt_generation rt);
            current = the (rt_fabric rt)
        in case command_precondition current c of
             Some (code, detail) \<Rightarrow> command_refused code detail result rt
           | None \<Rightarrow>
               (case apply_command_to (rc_limits (rt_config rt)) current c target (rt_epoch rt) (rt_incarnation rt) of
                  Inl s \<Rightarrow> command_refused (st_code s) (st_detail s) result rt
                | Inr f \<Rightarrow>
                    (case index_build (Some f) of
                       Inl s \<Rightarrow> command_refused (st_code s) (st_detail s) result rt
                     | Inr ix \<Rightarrow> commit_command c f ix io rt)))"

definition apply_locked :: "command \<Rightarrow> u64 \<Rightarrow> write_io \<Rightarrow> runtime \<Rightarrow> command_result option \<times> runtime" where
  "apply_locked c now io rt =
     (let result = base_result c rt in
      if \<not> rt_started rt then command_refused SC_NotStarted ''runtime has not been started'' result rt
      else if cm_request_id c = 0
      then command_refused SC_Invalid ''a governed command must carry a non-zero request id'' result rt
      else case map_of (rt_dedup rt) (cm_request_id c) of
             Some recorded \<Rightarrow>
               (Some (recorded\<lparr>cr_deduplicated := True\<rparr>),
                rt\<lparr>rt_commands_duplicated := rt_commands_duplicated rt + 1\<rparr>)
           | None \<Rightarrow>
               if length (rt_dedup rt) \<ge> unat (rc_max_dedup_entries (rt_config rt))
               then command_refused SC_Exhausted
                      ''the exactly-once window is full; compact or extend max_dedup_entries'' result rt
               else apply_admitted c now io rt)"

section \<open>Queries\<close>

definition runtime_engine :: "runtime \<Rightarrow> topology_index \<Rightarrow> eligibility_engine" where
  "runtime_engine rt ix = \<lparr>en_index = ix, en_controller = rt_incarnation rt\<rparr>"

definition unsupported_assessment :: "eligibility_engine \<Rightarrow> node_key \<Rightarrow> node_key \<Rightarrow> path_assessment" where
  "unsupported_assessment en from to =
     (new_assessment en from to default_path_constraints)
       \<lparr>pa_verdict := EV_Indeterminate, pa_code := SC_Unsupported, pa_evidence_required := False,
        pa_explanation := [''spine-to-spine path eligibility is outside the modelled scope'']\<rparr>"

definition assess_paths ::
  "node_key \<Rightarrow> node_key \<Rightarrow> path_constraints \<Rightarrow> cancellation_token \<Rightarrow> runtime \<Rightarrow> path_assessment outcome \<times> runtime" where
  "assess_paths from to c token rt =
     (case rt_index rt of
        None \<Rightarrow> (Inl (Status SC_NotStarted ''runtime has no topology loaded''), rt)
      | Some ix \<Rightarrow>
          (let en = runtime_engine rt ix in
           ((if nk_tier from = Leaf \<and> nk_tier to = Leaf
             then fst (assess_leaf_pair en (nk_index from) (nk_index to) c token 0)
             else if nk_tier from = Leaf \<and> nk_tier to = Spine
             then assess_leaf_to_spine en (nk_index from) (nk_index to) c
             else if nk_tier from = Spine \<and> nk_tier to = Leaf
             then assess_leaf_to_spine en (nk_index to) (nk_index from) c
             else Inr (unsupported_assessment en from to)),
            rt\<lparr>rt_queries_served := rt_queries_served rt + 1\<rparr>)))"

definition eligible_spines ::
  "node_key \<Rightarrow> path_constraints \<Rightarrow> cancellation_token \<Rightarrow> runtime \<Rightarrow> spine_eligibility list outcome \<times> runtime" where
  "eligible_spines leaf c token rt =
     (if nk_tier leaf \<noteq> Leaf
      then (Inl (Status SC_Invalid ''eligible spine queries require a leaf node reference''), rt)
      else case rt_index rt of
             None \<Rightarrow> (Inl (Status SC_NotStarted ''runtime has no topology loaded''), rt)
           | Some ix \<Rightarrow>
               (fst (eligible_spines_for_leaf (runtime_engine rt ix) (nk_index leaf) c token 0),
                rt\<lparr>rt_queries_served := rt_queries_served rt + 1\<rparr>))"

definition runtime_health :: "path_constraints \<Rightarrow> runtime \<Rightarrow> fabric_health_report outcome \<times> runtime" where
  "runtime_health c rt =
     (case rt_index rt of
        None \<Rightarrow> (Inl (Status SC_NotStarted ''runtime has no topology loaded''), rt)
      | Some ix \<Rightarrow>
          (fst (health (runtime_engine rt ix) c (rt_incarnation rt) (rt_epoch rt) idle_token 0),
           rt\<lparr>rt_queries_served := rt_queries_served rt + 1\<rparr>))"

definition authorize_path ::
  "node_key \<Rightarrow> node_key \<Rightarrow> path_constraints \<Rightarrow> u64 \<Rightarrow> u64 \<Rightarrow> runtime \<Rightarrow> path_authority outcome \<times> runtime" where
  "authorize_path from to c ttl_ms now rt =
     (case assess_paths from to c idle_token rt of
        (Inl s, rt) \<Rightarrow> (Inl s, rt)
      | (Inr a, rt) \<Rightarrow>
          (case rt_lease rt of
             None \<Rightarrow> (Inl (Status SC_Refused ''no active authority lease; acquire authority first''), rt)
           | Some l \<Rightarrow> (mint_path_authority a (al_token l) now ttl_ms, rt)))"

section \<open>Installing a fabric, compaction\<close>

definition install_fabric_locked :: "fabric \<Rightarrow> write_io \<Rightarrow> runtime \<Rightarrow> status \<times> runtime" where
  "install_fabric_locked f io rt =
     (case index_build (Some f) of
        Inl s \<Rightarrow> (s, rt)
      | Inr ix \<Rightarrow>
          (case rt_store rt of
             None \<Rightarrow> (status_success, rt\<lparr>rt_fabric := Some f, rt_index := Some ix, rt_generation := fab_generation f\<rparr>)
           | Some s \<Rightarrow>
               (case append_fabric f (rt_incarnation rt) (rt_epoch rt) io s of (st, s1) \<Rightarrow>
                let rt = rt\<lparr>rt_store := Some s1\<rparr> in
                if \<not> status_ok st then (st, rt)
                else (status_success, rt\<lparr>rt_records_since_snapshot := 0, rt_fabric := Some f, rt_index := Some ix,
                                         rt_generation := fab_generation f\<rparr>))))"

definition install_fabric :: "fabric \<Rightarrow> bool \<Rightarrow> write_io \<Rightarrow> runtime \<Rightarrow> status \<times> runtime" where
  "install_fabric f replace io rt =
     (if \<not> rt_started rt then (Status SC_NotStarted ''runtime has not been started'', rt)
      else if \<not> replace \<and> rt_fabric rt \<noteq> None \<and> fab_leaves (the (rt_fabric rt)) \<noteq> []
      then (Status SC_AlreadyExists ''the runtime already holds a topology'', rt)
      else install_fabric_locked f io rt)"

definition compact :: "snapshot_io \<Rightarrow> runtime \<Rightarrow> status \<times> runtime" where
  "compact io rt =
     (if \<not> rt_started rt then (Status SC_NotStarted ''runtime has not been started'', rt)
      else case rt_store rt of
             None \<Rightarrow> (Status SC_Unsupported ''persistence is disabled for this runtime'', rt)
           | Some s \<Rightarrow>
               (case snapshot_write default_snapshot_path (the (rt_fabric rt)) (fs_last_sequence s)
                       (rc_store (rt_config rt)) io (rt_dir rt) of (st, d) \<Rightarrow>
                let rt = rt\<lparr>rt_dir := d\<rparr> in
                if \<not> status_ok st then (st, rt) else (status_success, rt\<lparr>rt_records_since_snapshot := 0\<rparr>)))"

text \<open>One pass of the sweeper and of the compactor, after their sleep.\<close>

definition sweep :: "u64 \<Rightarrow> runtime \<Rightarrow> runtime" where
  "sweep now rt =
     (case rt_fabric rt of
        None \<Rightarrow> rt
      | Some f \<Rightarrow>
          if \<not> rt_started rt \<or> rt_stop_requested rt then rt
          else
            let blank = (new_health_report f (rt_incarnation rt) (rt_epoch rt))
                  \<lparr>hr_leaves_total := 0, hr_spines_total := 0, hr_disabled_link_count := 0, hr_generation := 0,
                   hr_epoch := 0, hr_controller := Incarnation 0 0, hr_topology_digest := zero_digest\<rparr>;
                report = (case rt_index rt of
                            None \<Rightarrow> blank
                          | Some ix \<Rightarrow>
                              (case fst (health (runtime_engine rt ix) (constraints_defaults_for (fab_options f))
                                           (rt_incarnation rt) (rt_epoch rt) idle_token 0) of
                                 Inr r \<Rightarrow> r
                               | Inl s \<Rightarrow> blank\<lparr>hr_health := FH_Indeterminate, hr_code := st_code s,
                                                hr_summary := st_detail s\<rparr>));
                lease = (case rt_lease rt of
                           None \<Rightarrow> None
                         | Some l \<Rightarrow> if expired_at (al_token l) now then None else Some l)
            in rt\<lparr>rt_lease := lease, rt_health := Some report\<rparr>)"

definition compactor_pass :: "snapshot_io \<Rightarrow> runtime \<Rightarrow> runtime" where
  "compactor_pass io rt =
     (if rt_records_since_snapshot rt \<ge> rc_compaction_record_threshold (rt_config rt)
      then snd (compact io rt) else rt)"

section \<open>Starting and stopping\<close>

text \<open>What the operating system answers during one call of \<open>start\<close>.\<close>

record start_env =
  se_pid :: u64
  se_mint_now :: u64
  se_mint_monotonic :: u64
  se_mint_sequence :: u64
  se_faults :: read_faults
  se_snapshot :: snapshot_io
  se_removed :: "string \<Rightarrow> bool"
  se_create :: create_io
  se_first_write :: write_io
  se_second_write :: write_io
  se_monotonic_ms :: u64

definition collect_record :: "recovered_record list sink" where
  "collect_record r rs =
     (if length rs \<ge> 1000000 then (Status SC_Exhausted ''replay bound reached'', rs) else (status_success, rs @ [r]))"

record replay_state =
  rs_fabric :: "fabric option"
  rs_epoch :: epoch
  rs_commands :: u64
  rs_dedup :: "(request_id \<times> command_result) list"
  rs_recovery :: recovery_report

definition replay_corrupt :: "status_code \<Rightarrow> string \<Rightarrow> replay_state \<Rightarrow> replay_state" where
  "replay_corrupt code detail s =
     s\<lparr>rs_recovery := (rs_recovery s)\<lparr>rpt_status := RS_Corrupt, rpt_code := code, rpt_detail := detail\<rparr>\<rparr>"

definition replay_command :: "runtime_config \<Rightarrow> recovered_record \<Rightarrow> replay_state \<Rightarrow> status \<times> replay_state" where
  "replay_command cfg rec s =
     (let bound = unat (cfg_max_record_bytes (rc_store cfg)) in
      case br_block bound (new_reader (rr_payload rec) bound) of (command_bytes, r1) \<Rightarrow>
      case br_block bound r1 of (result_bytes, r2) \<Rightarrow>
      if \<not> outcome_ok command_bytes \<or> \<not> outcome_ok result_bytes
      then (Status SC_Corrupt ''persisted command commit record is malformed'',
            replay_corrupt SC_Corrupt ''persisted command commit record is malformed'' s)
      else (case (deserialize_command (projr command_bytes), deserialize_command_result (projr result_bytes)) of
             (Inr c, Inr r) \<Rightarrow>
               (let stored = r\<lparr>cr_deduplicated := False\<rparr>;
                    s = (if length (rs_dedup s) < unat (rc_max_dedup_entries cfg)
                         then s\<lparr>rs_dedup := rs_dedup s @ [(cm_request_id c, stored)]\<rparr> else s)
                in case rs_fabric s of
                     None \<Rightarrow> (status_success, s\<lparr>rs_commands := rs_commands s + 1\<rparr>)
                   | Some f \<Rightarrow>
                       (case apply_command_to (rc_limits cfg) f c (cr_generation stored) (rr_epoch rec) (rr_incarnation rec) of
                          Inl st \<Rightarrow>
                            (let detail = ''committed command could not be replayed: '' @ st_detail st in
                             (Status (st_code st) detail, replay_corrupt (st_code st) detail s))
                        | Inr f' \<Rightarrow> (status_success, s\<lparr>rs_fabric := Some f', rs_commands := rs_commands s + 1\<rparr>)))
           | _ \<Rightarrow> (Status SC_Corrupt ''persisted command or result could not be decoded'',
                   replay_corrupt SC_Corrupt ''persisted command or result could not be decoded'' s)))"

definition replay_record :: "runtime_config \<Rightarrow> recovered_record \<Rightarrow> replay_state \<Rightarrow> status \<times> replay_state" where
  "replay_record cfg rec s =
     (let s = (if rr_epoch rec > rs_epoch s then s\<lparr>rs_epoch := rr_epoch rec\<rparr> else s) in
      case rr_type rec of
        RT_FabricSnapshot \<Rightarrow>
          (case deserialize_fabric (rr_payload rec) (rc_limits cfg) of
             Inl st \<Rightarrow> (st, replay_corrupt (st_code st) (''persisted fabric snapshot could not be parsed: '' @ st_detail st) s)
           | Inr f \<Rightarrow> (status_success, s\<lparr>rs_fabric := Some f\<rparr>))
      | RT_CommandCommit \<Rightarrow> replay_command cfg rec s
      | _ \<Rightarrow> (status_success, s))"

fun replay_records :: "runtime_config \<Rightarrow> recovered_record list \<Rightarrow> replay_state \<Rightarrow> status \<times> replay_state" where
  "replay_records cfg [] s = (status_success, s)"
| "replay_records cfg (rec # recs) s =
     (case replay_record cfg rec s of (st, s1) \<Rightarrow>
      if \<not> status_ok st then (st, s1) else replay_records cfg recs s1)"

record recovered_state =
  rc_recovered_fabric :: "fabric option"
  rc_next_sequence :: u64
  rc_next_segment :: u32
  rc_recovered_epoch :: epoch

definition start_reset :: "start_env \<Rightarrow> runtime \<Rightarrow> runtime" where
  "start_reset env rt =
     rt\<lparr>rt_stop_requested := False,
        rt_incarnation := mint_incarnation (se_pid env) (se_mint_now env) (se_mint_monotonic env) (se_mint_sequence env),
        rt_epoch := 1, rt_recovery := empty_recovery, rt_records_since_snapshot := 0, rt_dedup := [],
        rt_command_history := [], rt_dir := visible_dir rt\<rparr>"

definition recovered_positions :: "recovery_outcome \<Rightarrow> u64 \<times> u32" where
  "recovered_positions oc =
     (let start = (if ro_snapshot_accepted oc \<and> ro_snapshot_fabric oc \<noteq> None then ro_snapshot_watermark oc + 1 else 1) in
      (fold (\<lambda>sg n. max n (sg_last_sequence sg + 1)) (ro_segments oc) start,
       fold (\<lambda>sg n. max n (sg_segment_index sg + 1)) (ro_segments oc) 1))"

text \<open>The compaction \<open>start\<close> performs when one more segment would exceed the bound.\<close>

definition start_prune ::
  "start_env \<Rightarrow> runtime_config \<Rightarrow> recovery_outcome \<Rightarrow> replay_state \<Rightarrow> state_dir \<Rightarrow> (recovery_report \<times> state_dir) outcome \<times> state_dir" where
  "start_prune env cfg oc s d =
     (case rs_fabric s of
        None \<Rightarrow> (Inr (rs_recovery s, d), d)
      | Some f \<Rightarrow>
          if ro_segments oc \<noteq> [] \<and> length (ro_segments oc) + 1 > unat (cfg_max_segments (rc_store cfg))
          then (case snapshot_write default_snapshot_path f (sg_last_sequence (last (ro_segments oc))) (rc_store cfg)
                       (se_snapshot env) d of (st, d1) \<Rightarrow>
                if \<not> status_ok st
                then (Inl (Status (st_code st) (''state directory is at its segment bound and compaction failed: ''
                            @ st_detail st)), d1)
                else let d2 = fold (\<lambda>sg d. if se_removed env (sg_path sg) then dir_remove (sg_path sg) d else d)
                                (ro_segments oc) d1;
                         rep = (rs_recovery s)\<lparr>rpt_detail := rpt_detail (rs_recovery s) @ ''; pruned ''
                                 @ dec_string (length (ro_segments oc)) @ '' segment(s) covered by a new snapshot''\<rparr>
                     in (Inr (rep, d2), d2))
          else (Inr (rs_recovery s, d), d))"

definition note_evidence :: "replay_state \<Rightarrow> recovery_report \<Rightarrow> recovery_report" where
  "note_evidence s rep =
     (let rep = (case rs_fabric s of
                   None \<Rightarrow> rep
                 | Some f \<Rightarrow> if fab_evidence f \<noteq> []
                             then rep\<lparr>rpt_dynamic_evidence_recovered := True, rpt_requires_reobservation := True\<rparr> else rep);
          rep = rep\<lparr>rpt_detail := rpt_detail rep @ ''; replayed '' @ u_string (rs_commands s) @ '' committed command(s)''\<rparr>
      in if rpt_dynamic_evidence_recovered rep
         then rep\<lparr>rpt_requires_reobservation := True,
                  rpt_detail := rpt_detail rep
                    @ ''; dynamic evidence recovered from a previous incarnation is historical''\<rparr>
         else rep)"

definition recovery_fatal :: "recovery_status \<Rightarrow> bool" where
  "recovery_fatal st = (st \<in> {RS_Corrupt, RS_ChainBroken, RS_IncompatibleVersion, RS_IoError})"

definition start_recover :: "start_env \<Rightarrow> runtime \<Rightarrow> recovered_state outcome \<times> runtime" where
  "start_recover env rt =
     (let cfg = rt_config rt; fresh = \<lparr>rc_recovered_fabric = None, rc_next_sequence = 1, rc_next_segment = 1,
                                        rc_recovered_epoch = 0\<rparr> in
      if \<not> persistent rt then (Inr fresh, rt)
      else case recover_store (se_faults env) (rt_dir rt) (rc_store cfg) (Some collect_record) [] of
             (Inl st, _) \<Rightarrow> (Inl st, rt)
           | (Inr oc, records) \<Rightarrow>
               (let rep = ro_report oc; rt = rt\<lparr>rt_recovery := rep\<rparr> in
                if recovery_fatal (rpt_status rep)
                then (Inl (Status (if rpt_code rep = SC_Ok then SC_Corrupt else rpt_code rep)
                             (''persisted state cannot be used: '' @ rpt_detail rep)), rt)
                else (case replay_records cfg records
                            \<lparr>rs_fabric = (if ro_snapshot_accepted oc then ro_snapshot_fabric oc else None),
                             rs_epoch = rpt_last_epoch rep, rs_commands = 0, rs_dedup = rt_dedup rt, rs_recovery = rep\<rparr> of
                       (st, s) \<Rightarrow>
                         let rt = rt\<lparr>rt_dedup := rs_dedup s, rt_recovery := rs_recovery s\<rparr> in
                         if \<not> status_ok st then (Inl st, rt)
                         else (case start_prune env cfg oc s (rt_dir rt) of
                                (Inl st, d) \<Rightarrow> (Inl st, rt\<lparr>rt_dir := d\<rparr>)
                              | (Inr (rep, d), _) \<Rightarrow>
                                  (Inr \<lparr>rc_recovered_fabric = rs_fabric s,
                                        rc_next_sequence = fst (recovered_positions oc),
                                        rc_next_segment = snd (recovered_positions oc),
                                        rc_recovered_epoch = rs_epoch s\<rparr>,
                                   rt\<lparr>rt_dir := d, rt_recovery := note_evidence s rep\<rparr>)))))"

definition initial_fabric :: "runtime \<Rightarrow> fabric outcome" where
  "initial_fabric rt =
     (let cfg = rt_config rt;
          b = new_builder (rc_fabric_id cfg) (rc_name cfg) 1 (rt_epoch rt) (rc_options cfg) (rc_limits cfg)
      in fst (freeze (snd (set_site (rc_site cfg) b))))"

text \<open>Opening the new segment and writing its first two records.\<close>

definition start_journal :: "start_env \<Rightarrow> recovered_state \<Rightarrow> fabric \<Rightarrow> runtime \<Rightarrow> status \<times> runtime" where
  "start_journal env rs f rt =
     (if \<not> persistent rt then (status_success, rt)
      else case store_create (rc_store (rt_config rt)) (rt_incarnation rt) (rc_next_segment rs) (rc_next_sequence rs)
                  (se_create env) (rt_dir rt) of
             (Inl st, d) \<Rightarrow> (st, rt\<lparr>rt_dir := d\<rparr>)
           | (Inr s, d) \<Rightarrow>
               (case append_record RT_IncarnationStart [] (rt_incarnation rt) (rt_epoch rt) (rt_generation rt)
                       (se_first_write env) s of (st, s1) \<Rightarrow>
                let rt = rt\<lparr>rt_dir := d, rt_store := Some s1\<rparr> in
                if \<not> status_ok st then (st, rt)
                else case append_fabric f (rt_incarnation rt) (rt_epoch rt) (se_second_write env) s1 of (st, s2) \<Rightarrow>
                     let rt = rt\<lparr>rt_store := Some s2\<rparr> in
                     if \<not> status_ok st then (st, rt)
                     else (status_success, rt\<lparr>rt_records_since_snapshot := 0\<rparr>)))"

definition start_publish :: "start_env \<Rightarrow> recovered_state \<Rightarrow> runtime \<Rightarrow> status \<times> runtime" where
  "start_publish env rs rt =
     (case (case rc_recovered_fabric rs of Some f \<Rightarrow> Inr f | None \<Rightarrow> initial_fabric rt) of
        Inl st \<Rightarrow> (st, rt)
      | Inr f \<Rightarrow>
          (let rt = rt\<lparr>rt_fabric := Some f, rt_generation := fab_generation f\<rparr> in
           case index_build (Some f) of
             Inl st \<Rightarrow> (st, rt)
           | Inr ix \<Rightarrow>
               (case start_journal env rs f (rt\<lparr>rt_index := Some ix, rt_epoch := rc_recovered_epoch rs + 1\<rparr>) of
                  (st, rt) \<Rightarrow>
                    if \<not> status_ok st then (st, rt)
                    else (status_success,
                          rt\<lparr>rt_lease := None, rt_started_at_ms := se_monotonic_ms env, rt_started := True,
                             rt_workers := min 2 (unat (rc_worker_threads (rt_config rt)))\<rparr>))))"

definition start :: "start_env \<Rightarrow> runtime \<Rightarrow> status \<times> runtime" where
  "start env rt =
     (if rt_started rt then (status_success, rt)
      else case start_recover env (start_reset env rt) of
             (Inl st, rt) \<Rightarrow> (st, rt)
           | (Inr rs, rt) \<Rightarrow> start_publish env rs rt)"

text \<open>The workers end once the stop is requested, so they are joined here.\<close>

definition stop :: "write_io \<Rightarrow> runtime \<Rightarrow> status \<times> runtime" where
  "stop io rt =
     (if \<not> rt_started rt \<and> rt_workers rt = 0 then (status_success, rt)
      else
        let rt = rt\<lparr>rt_stop_requested := True, rt_workers := 0\<rparr> in
        if \<not> rt_started rt then (status_success, rt)
        else
          let rt = rt\<lparr>rt_started := False, rt_lease := None\<rparr> in
          case rt_store rt of
            None \<Rightarrow> (status_success, rt)
          | Some s \<Rightarrow>
              (case close_clean io s of (closed, s1) \<Rightarrow>
               let rt = rt\<lparr>rt_store := None, rt_dir := store_files s1 (rt_dir rt)\<rparr> in
               if \<not> status_ok closed then (closed, rt) else (status_success, rt)))"

definition restart :: "write_io \<Rightarrow> start_env \<Rightarrow> runtime \<Rightarrow> status \<times> runtime" where
  "restart io env rt =
     (case stop io rt of (stopped, rt) \<Rightarrow> if \<not> status_ok stopped then (stopped, rt) else start env rt)"

definition set_fault_point :: "fault_point \<Rightarrow> runtime \<Rightarrow> runtime" where
  "set_fault_point point rt = rt\<lparr>rt_fault_point := point\<rparr>"

definition journal_record_count :: "runtime \<Rightarrow> u64" where
  "journal_record_count rt = (case rt_store rt of None \<Rightarrow> 0 | Some s \<Rightarrow> fs_records s)"

section \<open>Status\<close>

fun fabric_health_u8 :: "fabric_health \<Rightarrow> u8" where
  "fabric_health_u8 FH_Operational = 0"
| "fabric_health_u8 FH_Degraded = 1"
| "fabric_health_u8 FH_Draining = 2"
| "fabric_health_u8 FH_Unformed = 3"
| "fabric_health_u8 FH_Retired = 4"
| "fabric_health_u8 FH_Indeterminate = 5"

fun recovery_status_u8 :: "recovery_status \<Rightarrow> u8" where
  "recovery_status_u8 RS_Missing = 0"
| "recovery_status_u8 RS_Empty = 1"
| "recovery_status_u8 RS_Clean = 2"
| "recovery_status_u8 RS_CrashWithoutTrailer = 3"
| "recovery_status_u8 RS_TruncatedTail = 4"
| "recovery_status_u8 RS_ChainBroken = 5"
| "recovery_status_u8 RS_Corrupt = 6"
| "recovery_status_u8 RS_IncompatibleVersion = 7"
| "recovery_status_u8 RS_IoError = 8"

record runtime_status =
  st_started :: bool
  st_fabric_id :: fabric_id
  st_name :: string
  st_site :: string
  st_fabric_state :: fabric_state
  st_controller :: controller_incarnation
  st_epoch :: epoch
  st_generation :: topology_generation
  st_topology_digest :: digest
  st_evidence_digest :: digest
  st_health :: fabric_health
  st_leaf_count :: u32
  st_spine_count :: u32
  st_port_count :: u32
  st_link_count :: u32
  st_history_link_count :: u32
  st_evidence_count :: u32
  st_commands_applied :: u64
  st_commands_refused :: u64
  st_commands_fenced :: u64
  st_commands_duplicated :: u64
  st_queries_served :: u64
  st_worker_threads :: u32
  st_persistence_enabled :: bool
  st_recovery :: recovery_report
  st_active_lease :: lease_id
  st_lease_expires_at_unix_ms :: u64
  st_uptime_ms :: u64
  st_fault_point :: fault_point

definition runtime_status_of :: "u64 \<Rightarrow> runtime \<Rightarrow> runtime_status" where
  "runtime_status_of monotonic_ms rt =
     (let cfg = rt_config rt; fabric = rt_fabric rt;
          known = (\<lambda>dflt get. case fabric of None \<Rightarrow> dflt | Some f \<Rightarrow> get f);
          counted = (\<lambda>get. case fabric of None \<Rightarrow> 0 | Some f \<Rightarrow> (of_nat (get f) :: u32))
      in \<lparr>st_started = rt_started rt, st_fabric_id = rc_fabric_id cfg, st_name = known (rc_name cfg) fab_name,
          st_site = known (rc_site cfg) fab_site,
          st_fabric_state = (case fabric of None \<Rightarrow> FS_Unformed | Some f \<Rightarrow> fab_state f),
          st_controller = rt_incarnation rt, st_epoch = rt_epoch rt, st_generation = rt_generation rt,
          st_topology_digest = (case fabric of None \<Rightarrow> zero_digest | Some f \<Rightarrow> fab_topology_digest f),
          st_evidence_digest = (case fabric of None \<Rightarrow> zero_digest | Some f \<Rightarrow> fab_evidence_digest f),
          st_health = (case rt_health rt of
                         Some r \<Rightarrow> hr_health r
                       | None \<Rightarrow> (case fabric of None \<Rightarrow> FH_Unformed
                                  | Some f \<Rightarrow> if fab_state f = FS_Unformed then FH_Unformed else FH_Indeterminate)),
          st_leaf_count = counted (\<lambda>f. length (fab_leaves f)), st_spine_count = counted (\<lambda>f. length (fab_spines f)),
          st_port_count = counted (\<lambda>f. length (fab_ports f)), st_link_count = counted (\<lambda>f. length (fab_links f)),
          st_history_link_count = counted (\<lambda>f. length (fab_history_links f)),
          st_evidence_count = counted (\<lambda>f. length (fab_evidence f)),
          st_commands_applied = rt_commands_applied rt, st_commands_refused = rt_commands_refused rt,
          st_commands_fenced = rt_commands_fenced rt, st_commands_duplicated = rt_commands_duplicated rt,
          st_queries_served = rt_queries_served rt, st_worker_threads = of_nat (rt_workers rt),
          st_persistence_enabled = persistent rt, st_recovery = rt_recovery rt,
          st_active_lease = (case rt_lease rt of None \<Rightarrow> 0 | Some l \<Rightarrow> al_lease l),
          st_lease_expires_at_unix_ms =
            (case rt_lease rt of None \<Rightarrow> 0 | Some l \<Rightarrow> tk_expires_at_unix_ms (al_token l)),
          st_uptime_ms = (if rt_started_at_ms rt = 0 then 0 else monotonic_ms - rt_started_at_ms rt),
          st_fault_point = rt_fault_point rt\<rparr>)"

definition runtime_status_string :: "runtime_status \<Rightarrow> string" where
  "runtime_status_string s =
     ''runtime: '' @ (if st_started s then ''started'' else ''stopped'') @ '' fabric='' @ fabric_id_string (st_fabric_id s)
     @ '' name='' @ [CHR 0x22] @ st_name s @ [CHR 0x22]
     @ (if st_site s \<noteq> [] then '' site='' @ [CHR 0x22] @ st_site s @ [CHR 0x22] else []) @ [CHR 0x0A]
     @ ''  state='' @ fabric_state_string (st_fabric_state s) @ '' health='' @ fabric_health_string (st_health s)
     @ '' generation='' @ u_string (st_generation s) @ '' epoch='' @ u_string (st_epoch s) @ [CHR 0x0A]
     @ ''  controller='' @ incarnation_string (st_controller s) @ '' uptime_ms='' @ u_string (st_uptime_ms s)
     @ '' workers='' @ u_string (st_worker_threads s) @ '' persistence=''
     @ (if st_persistence_enabled s then ''on'' else ''off'') @ [CHR 0x0A]
     @ ''  topology_digest='' @ digest_short_hex (st_topology_digest s) 16 @ '' evidence_digest=''
     @ (if st_evidence_count s = 0 then ''none'' else digest_short_hex (st_evidence_digest s) 16) @ [CHR 0x0A]
     @ ''  topology: leaves='' @ u_string (st_leaf_count s) @ '' spines='' @ u_string (st_spine_count s)
     @ '' ports='' @ u_string (st_port_count s) @ '' links='' @ u_string (st_link_count s)
     @ '' history_links='' @ u_string (st_history_link_count s) @ '' evidence='' @ u_string (st_evidence_count s) @ [CHR 0x0A]
     @ ''  commands: applied='' @ u_string (st_commands_applied s) @ '' refused='' @ u_string (st_commands_refused s)
     @ '' fenced='' @ u_string (st_commands_fenced s) @ '' deduplicated='' @ u_string (st_commands_duplicated s)
     @ '' queries='' @ u_string (st_queries_served s) @ [CHR 0x0A]
     @ ''  lease='' @ u_string (st_active_lease s) @ '' expires_at_ms='' @ u_string (st_lease_expires_at_unix_ms s)
     @ '' fault_point='' @ fault_point_string (st_fault_point s) @ [CHR 0x0A]
     @ ''  recovery: '' @ recovery_report_string (st_recovery s)"

definition runtime_status_digest :: "runtime_status \<Rightarrow> digest" where
  "runtime_status_digest s =
     sha_finish (fold (\<lambda>f t. f t)
       [add_string ''slf.runtime_status.v1'', add_u8 (if st_started s then 1 else 0), add_u64 (st_fabric_id s),
        add_string (st_name s), add_string (st_site s), add_u8 (fabric_state_u8 (st_fabric_state s)),
        add_u64 (inc_hi (st_controller s)), add_u64 (inc_lo (st_controller s)), add_u64 (st_epoch s),
        add_u64 (st_generation s), add_bytes (st_topology_digest s), add_bytes (st_evidence_digest s),
        add_u8 (fabric_health_u8 (st_health s)), add_u32 (st_leaf_count s), add_u32 (st_spine_count s),
        add_u32 (st_port_count s), add_u32 (st_link_count s), add_u32 (st_history_link_count s),
        add_u32 (st_evidence_count s), add_u64 (st_commands_applied s), add_u64 (st_commands_refused s),
        add_u64 (st_commands_fenced s), add_u64 (st_commands_duplicated s), add_u64 (st_queries_served s),
        add_u32 (st_worker_threads s), add_u8 (if st_persistence_enabled s then 1 else 0), add_u64 (st_active_lease s),
        add_u64 (st_lease_expires_at_unix_ms s), add_u8 (fault_point_u8 (st_fault_point s)),
        add_u8 (recovery_status_u8 (rpt_status (st_recovery s))), add_u64 (rpt_records_valid (st_recovery s)),
        add_u64 (rpt_bytes_dropped (st_recovery s))] sha256_reset)"

end
