(* ===== verification/SLF_Recovery.thy ===== *)
theory SLF_Recovery
  imports SLF_Runtime
begin

text \<open>
  What the runtime guarantees across its operations: the live operations as a step relation with a
  common contract, the relation between the journal and the published state, and recovery after a
  crash.
\<close>

section \<open>Validated fabrics\<close>

lemma add_all_reachable:
  assumes "\<And>r b. builder_reachable b \<Longrightarrow> builder_reachable (snd (add r b))" and "builder_reachable b"
  shows "builder_reachable (snd (add_all add rs b))"
  using assms(2) by (induction rs arbitrary: b) (auto simp: assms(1) split_def)

lemma and_then_reachable:
  "builder_reachable (snd sb) \<Longrightarrow> (\<And>b. builder_reachable b \<Longrightarrow> builder_reachable (snd (next b))) \<Longrightarrow>
     builder_reachable (snd (and_then sb next))"
  by (cases sb) (simp add: and_then_def)

lemma modified_builder_reachable: "builder_reachable (snd (modified_builder limits f))"
  unfolding modified_builder_def Let_def foldl.simps
  by (intro and_then_reachable add_all_reachable builder_reachable.intros | simp add: builder_reachable.intros)+

lemma and_then_header:
  "builder_header (snd sb) = h \<Longrightarrow> (\<And>b. builder_header (snd (next b)) = builder_header b) \<Longrightarrow>
     builder_header (snd (and_then sb next)) = h"
  by (cases sb) (simp add: and_then_def)

lemma add_all_header:
  assumes "\<And>r b. builder_header (snd (add r b)) = builder_header b"
  shows "builder_header (snd (add_all add rs b)) = builder_header b"
proof (induction rs arbitrary: b)
  case (Cons r rs)
  show ?case using assms [of r b] Cons.IH [of "snd (add r b)"] by (simp add: split_def)
qed simp

lemmas adder_headers =
  domains.add_header leaves.add_header spines.add_header ports.add_header history.add_header
  links.add_header evidence.add_header

lemma set_generation [simp]:
  "fb_generation (snd (set_site t b)) = fb_generation b" "fb_generation (snd (set_state st b)) = fb_generation b"
  "fb_generation (new_builder ident name gen ep options limits) = gen"
  by (auto simp: set_site_def set_state_def new_builder_def note_issue_def Let_def split: name_verdict.splits)

lemma modified_builder_generation: "fb_generation (snd (modified_builder limits f)) = fab_generation f"
proof -
  let ?b = "snd (set_state (fab_state f) (snd (set_site (fab_site f)
     (new_builder (fab_id f) (fab_name f) (fab_generation f) (fab_epoch f) (fab_options f) limits))))"
  have "builder_header (snd (modified_builder limits f)) = builder_header ?b"
    unfolding modified_builder_def Let_def foldl.simps
    by (intro and_then_header add_all_header adder_headers) simp_all
  then show ?thesis by (simp add: builder_header_def)
qed

lemma modified_fabric:
  assumes "builder_from_modified limits f = Inr g"
  shows "fab_generation g = fab_generation f" and "length (fab_topology_digest g) = 32"
proof -
  obtain st b where b: "modified_builder limits f = (st, b)" "fst (freeze b) = Inr g"
    using assms by (auto simp: builder_from_modified_def split: prod.splits if_splits)
  have g: "g = with_digests (undigested_fabric b)" using freeze_result [OF b(2)] by simp
  show "fab_generation g = fab_generation f"
    using modified_builder_generation [of limits f] b(1) by (simp add: g with_digests_def Let_def undigested_fabric_def split_def)
  show "length (fab_topology_digest g) = 32"
    by (simp add: g with_digests_def Let_def compute_digests_def split_def)
qed

lemma applied_fabric:
  assumes "apply_command_to limits f c g ep observer = Inr h"
  shows "fab_generation h = g" and "length (fab_topology_digest h) = 32"
proof -
  have "fab_generation (stamp_generation g (command_effect f c g ep observer)) = g"
    by (auto simp: stamp_generation_def command_effect_def retire_link_def Let_def split: command_kind.splits option.splits)
  then show "fab_generation h = g" "length (fab_topology_digest h) = 32"
    using modified_fabric [OF assms [unfolded apply_command_to_def]] by simp_all
qed

section \<open>Replaying entries\<close>

definition entry_record :: "controller_incarnation \<Rightarrow> journal_entry \<Rightarrow> recovered_record" where
  "entry_record inc e =
     \<lparr>rr_type = je_type e, rr_seq = 0, rr_generation = je_generation e, rr_epoch = je_epoch e,
      rr_incarnation = inc, rr_payload = je_payload e, rr_from_snapshot = False, rr_chain = []\<rparr>"

lemma replay_record_cong:
  "rr_type r = rr_type q \<Longrightarrow> rr_epoch r = rr_epoch q \<Longrightarrow> rr_incarnation r = rr_incarnation q \<Longrightarrow>
     rr_payload r = rr_payload q \<Longrightarrow> replay_record cfg r s = replay_record cfg q s"
  by (simp only: replay_record_def replay_command_def)

lemma replay_chain:
  "replay_records cfg (chain_records inc chain sq es) s = replay_records cfg (map (entry_record inc) es) s"
proof (induction es arbitrary: chain sq s)
  case (Cons e es)
  let ?r = "\<lparr>rr_type = je_type e, rr_seq = sq, rr_generation = je_generation e, rr_epoch = je_epoch e,
      rr_incarnation = inc, rr_payload = je_payload e, rr_from_snapshot = False, rr_chain = entry_digest chain sq e\<rparr>"
  have "replay_record cfg ?r s = replay_record cfg (entry_record inc e) s"
    by (rule replay_record_cong) (simp_all add: entry_record_def)
  then show ?case by (simp add: Cons.IH split: prod.split)
qed simp

lemma replay_append:
  "replay_records cfg (xs @ ys) s =
     (case replay_records cfg xs s of (st, s1) \<Rightarrow> if \<not> status_ok st then (st, s1) else replay_records cfg ys s1)"
  by (induction xs arbitrary: s) (auto split: prod.splits)

lemma bw_block_ok:
  "bw_block d w = (st, w') \<Longrightarrow> status_ok st \<Longrightarrow> w' = bw_append (block_enc d) w \<and> length d < 2 ^ 32"
  by (auto simp: bw_block_def bw_u32_def bw_bytes_def Let_def bw_require_cases bw_append_def block_enc_def
      split: if_splits)

definition commit_payload :: "command \<Rightarrow> command_result \<Rightarrow> bytes" where
  "commit_payload c r = block_enc (serialize_command c) @ block_enc (serialize_command_result r)"

lemma append_command_cases:
  "(\<exists>st. append_command c r inc ep io s = (st, s) \<and> \<not> status_ok st)
   \<or> (append_command c r inc ep io s = append_record RT_CommandCommit (commit_payload c r) inc ep (cr_generation r) io s
      \<and> length (serialize_command c) < 2 ^ 32 \<and> length (serialize_command_result r) < 2 ^ 32)"
proof -
  let ?m = "unat (if cfg_max_record_bytes (fs_config s) < 65536 then 65536 else cfg_max_record_bytes (fs_config s))"
  obtain st1 w1 where w1: "bw_block (serialize_command c) (new_writer ?m) = (st1, w1)" by fastforce
  obtain st2 w2 where w2: "bw_block (serialize_command_result r) w1 = (st2, w2)" by fastforce
  show ?thesis
  proof (cases "status_ok st1 \<and> status_ok st2")
    case True
    have "bw_buffer w2 = commit_payload c r"
      using bw_block_ok [OF w1] bw_block_ok [OF w2] True by (simp add: commit_payload_def new_writer_def)
    then show ?thesis using True bw_block_ok [OF w1] bw_block_ok [OF w2] w1 w2
      by (simp add: append_command_def Let_def)
  next
    case False
    then show ?thesis using w1 w2 by (auto simp: append_command_def Let_def)
  qed
qed

definition forget_token :: "command_result \<Rightarrow> command_result" where
  "forget_token r = r\<lparr>cr_refreshed_token := blank_token\<rparr>"

definition forget_tokens :: "(request_id \<times> command_result) list \<Rightarrow> (request_id \<times> command_result) list" where
  "forget_tokens xs = map (\<lambda>(i, r). (i, forget_token r)) xs"

lemma length_forget_tokens [simp]: "length (forget_tokens xs) = length xs"
  by (simp add: forget_tokens_def)

text \<open>Replaying a commit record re-applies the command to the fabric it was committed on.\<close>

lemma replay_commit:
  assumes "rr_type rec = RT_CommandCommit" and "rr_payload rec = commit_payload c r"
    and "length (tk_topology_digest (cm_token c)) = 32" and "length (cr_topology_digest r) = 32"
    and "length (cr_detail r) \<le> 65536" and "is_valid_utf8 (cr_detail r)" and "\<not> cr_deduplicated r"
    and "length (commit_payload c r) \<le> unat (cfg_max_record_bytes (rc_store cfg))"
    and "length (serialize_command c) < 2 ^ 32" and "length (serialize_command_result r) < 2 ^ 32"
    and "rs_fabric s = Some f" and "length (rs_dedup s) < unat (rc_max_dedup_entries cfg)"
    and "apply_command_to (rc_limits cfg) f c (cr_generation r) (rr_epoch rec) (rr_incarnation rec) = Inr f'"
  shows "replay_record cfg rec s = (status_success,
     s\<lparr>rs_epoch := max (rs_epoch s) (rr_epoch rec), rs_dedup := rs_dedup s @ [(cm_request_id c, forget_token r)],
       rs_fabric := Some f', rs_commands := rs_commands s + 1\<rparr>)"
proof -
  let ?m = "unat (cfg_max_record_bytes (rc_store cfg))" and ?a = "serialize_command c" and ?b = "serialize_command_result r"
  let ?r0 = "new_reader (commit_payload c r) ?m"
  have fit: "length ?a \<le> ?m" "length ?b \<le> ?m" using assms(8) by (simp_all add: commit_payload_def block_enc_def)
  have at: "br_at ?r0 (block_enc ?a @ block_enc ?b @ [])" using br_at_new [of "commit_payload c r"] by (simp add: commit_payload_def)
  have b1: "br_block ?m ?r0 = (Inr ?a, br_advance (length (block_enc ?a)) ?r0)"
    using br_block_at [OF assms(9) fit(1) at] .
  have b2: "\<exists>r2. br_block ?m (br_advance (length (block_enc ?a)) ?r0) = (Inr ?b, r2)"
    using br_block_at [OF assms(10) fit(2) br_at_advance [OF at refl]] by blast
  have dec: "deserialize_command ?a = Inr c" "deserialize_command_result ?b = Inr (forget_token r)"
    using command_roundtrip [OF assms(3)] result_roundtrip [OF assms(4-6)] by (simp_all add: forget_token_def)
  have ft: "(forget_token r)\<lparr>cr_deduplicated := False\<rparr> = forget_token r" "cr_generation (forget_token r) = cr_generation r"
    using assms(7) by (simp_all add: forget_token_def)
  let ?s = "if rs_epoch s < rr_epoch rec then s\<lparr>rs_epoch := rr_epoch rec\<rparr> else s"
  have es: "?s = s\<lparr>rs_epoch := max (rs_epoch s) (rr_epoch rec)\<rparr>" by (simp add: max_def)
  have "replay_command cfg rec (s\<lparr>rs_epoch := max (rs_epoch s) (rr_epoch rec)\<rparr>) = (status_success,
     s\<lparr>rs_epoch := max (rs_epoch s) (rr_epoch rec), rs_dedup := rs_dedup s @ [(cm_request_id c, forget_token r)],
       rs_fabric := Some f', rs_commands := rs_commands s + 1\<rparr>)"
    unfolding replay_command_def Let_def assms(2) b1 prod.case using b2 assms(11-13) dec ft by auto
  then show ?thesis unfolding replay_record_def Let_def assms(1) es by simp
qed

lemma replay_snapshot:
  assumes "rr_type rec = RT_FabricSnapshot" and "deserialize_fabric (rr_payload rec) (rc_limits cfg) = Inr f"
  shows "replay_record cfg rec s
    = (status_success, s\<lparr>rs_epoch := max (rs_epoch s) (rr_epoch rec), rs_fabric := Some f\<rparr>)"
  using assms by (simp add: replay_record_def max_def)

lemma replay_other:
  assumes "rr_type rec \<in> {RT_IncarnationStart, RT_EvidenceSubmit, RT_Fence, RT_Marker}"
  shows "replay_record cfg rec s = (status_success, s\<lparr>rs_epoch := max (rs_epoch s) (rr_epoch rec)\<rparr>)"
  using assms by (auto simp: replay_record_def max_def)

section \<open>Live operations\<close>

text \<open>
  A started runtime serves its published fabric from the index built for it, at that fabric's
  generation, and its lease carries a token of the live incarnation and epoch.
\<close>

definition lease_current :: "runtime \<Rightarrow> bool" where
  "lease_current rt = (case rt_lease rt of None \<Rightarrow> True | Some l \<Rightarrow>
     tk_controller (al_token l) = rt_incarnation rt \<and> tk_epoch (al_token l) = rt_epoch rt
     \<and> tk_lease (al_token l) = al_lease l)"

definition runtime_consistent :: "runtime \<Rightarrow> bool" where
  "runtime_consistent rt \<longleftrightarrow> rt_started rt \<and> lease_current rt
     \<and> (\<exists>f ix. rt_fabric rt = Some f \<and> rt_index rt = Some ix \<and> index_build (Some f) = Inr ix
          \<and> rt_generation rt = fab_generation f)"

definition kept :: "runtime \<Rightarrow> runtime \<Rightarrow> bool" where
  "kept rt rt' \<longleftrightarrow> rt_config rt' = rt_config rt \<and> rt_incarnation rt' = rt_incarnation rt \<and> rt_epoch rt' = rt_epoch rt
     \<and> (\<exists>new. rt_dedup rt' = rt_dedup rt @ new) \<and> (runtime_consistent rt \<longrightarrow> runtime_consistent rt')"

text \<open>What every operation on a started runtime keeps.\<close>

locale live_operation =
  fixes step :: "runtime \<Rightarrow> runtime"
  assumes config: "rt_config (step rt) = rt_config rt"
    and incarnation: "rt_incarnation (step rt) = rt_incarnation rt"
    and epoch: "rt_epoch (step rt) = rt_epoch rt"
    and dedup: "\<exists>new. rt_dedup (step rt) = rt_dedup rt @ new"
    and consistent: "runtime_consistent rt \<Longrightarrow> runtime_consistent (step rt)"
begin

lemma recorded: "map_of (rt_dedup rt) i = Some r \<Longrightarrow> map_of (rt_dedup (step rt)) i = Some r"
  using dedup [of rt] by (auto simp: map_add_dom_app_simps map_add_def)

lemma keeps: "kept rt (step rt)"
  using dedup consistent by (simp add: kept_def config incarnation epoch)

end

lemma live_operationI: "(\<And>rt. kept rt (step rt)) \<Longrightarrow> live_operation step"
  by unfold_locales (simp_all add: kept_def)

text \<open>Two states that agree on everything a client or the journal depends on.\<close>

definition same_view :: "runtime \<Rightarrow> runtime \<Rightarrow> bool" where
  "same_view rt rt' \<longleftrightarrow> rt_config rt' = rt_config rt \<and> rt_incarnation rt' = rt_incarnation rt \<and> rt_epoch rt' = rt_epoch rt
     \<and> rt_dedup rt' = rt_dedup rt \<and> rt_started rt' = rt_started rt \<and> rt_fabric rt' = rt_fabric rt
     \<and> rt_index rt' = rt_index rt \<and> rt_generation rt' = rt_generation rt"

lemma same_view_refl [simp]: "same_view rt rt"
  by (simp add: same_view_def)

lemma same_view_trans [trans]: "same_view a b \<Longrightarrow> same_view b c \<Longrightarrow> same_view a c"
  by (simp add: same_view_def)

lemma same_view_kept:
  assumes "same_view rt rt'" and "lease_current rt \<Longrightarrow> lease_current rt'"
  shows "kept rt rt'"
  using assms by (auto simp: same_view_def kept_def runtime_consistent_def)

lemma view_lease: "same_view rt rt' \<Longrightarrow> rt_lease rt' = rt_lease rt \<Longrightarrow> lease_current rt \<Longrightarrow> lease_current rt'"
  by (simp add: lease_current_def same_view_def split: option.splits)

lemma view_kept: "same_view rt rt' \<Longrightarrow> rt_lease rt' = rt_lease rt \<Longrightarrow> kept rt rt'"
  using same_view_kept view_lease by blast

lemma lease_current_none: "rt_lease rt = None \<Longrightarrow> lease_current rt"
  by (simp add: lease_current_def)

lemma journal_append_view:
  assumes "journal_append ap rt = (st, rt')"
  shows "same_view rt rt' \<and> rt_lease rt' = rt_lease rt"
  using assms by (auto simp: journal_append_def same_view_def Let_def split: option.splits prod.splits if_splits)

lemma acquire_cases:
  "(\<exists>st. acquire_authority requester ttl now io rt = (Inl st, rt))
   \<or> (\<exists>lease st rt'. tk_controller (al_token lease) = rt_incarnation rt \<and> tk_epoch (al_token lease) = rt_epoch rt
        \<and> tk_lease (al_token lease) = al_lease lease
        \<and> journal_append (append_record RT_Fence (lease_payload lease) (rt_incarnation rt) (rt_epoch rt)
             (rt_generation rt) io) (rt\<lparr>rt_lease_counter := rt_lease_counter rt + 1, rt_lease := Some lease\<rparr>) = (st, rt')
        \<and> acquire_authority requester ttl now io rt
             = (if status_ok st then (Inr lease, rt') else (Inl st, rt'\<lparr>rt_lease := None\<rparr>)))"
proof -
  let ?ttl = "if ttl = 0 then rc_authority_ttl_ms (rt_config rt) else ttl"
  show ?thesis
  proof (cases "rt_started rt \<and> requester \<noteq> [] \<and> length requester \<le> 256 \<and> is_valid_utf8 requester \<and> ?ttl \<noteq> 0
      \<and> checked_add now ?ttl \<noteq> None")
    case True
    then obtain expires where ex: "checked_add now ?ttl = Some expires" by blast
    let ?l = "new_lease requester now expires rt"
    obtain st rt' where j: "journal_append (append_record RT_Fence (lease_payload ?l) (rt_incarnation rt) (rt_epoch rt)
        (rt_generation rt) io) (rt\<lparr>rt_lease_counter := rt_lease_counter rt + 1, rt_lease := Some ?l\<rparr>) = (st, rt')"
      by fastforce
    have "acquire_authority requester ttl now io rt
        = (if status_ok st then (Inr ?l, rt') else (Inl st, rt'\<lparr>rt_lease := None\<rparr>))"
      using True ex j unfolding acquire_authority_def Let_def by simp
    then show ?thesis using j by (intro disjI2 exI [of _ ?l] exI [of _ st] exI [of _ rt']) (simp add: new_lease_def Let_def)
  next
    case False
    then show ?thesis by (intro disjI1) (auto simp: acquire_authority_def Let_def split: option.split)
  qed
qed

interpretation acquire_op: live_operation "\<lambda>rt. snd (acquire_authority requester ttl now io rt)"
proof (rule live_operationI)
  fix rt
  show "kept rt (snd (acquire_authority requester ttl now io rt))"
    using acquire_cases [of requester ttl now io rt]
  proof (elim disjE exE conjE)
    fix lease st rt'
    assume j: "journal_append (append_record RT_Fence (lease_payload lease) (rt_incarnation rt) (rt_epoch rt)
             (rt_generation rt) io) (rt\<lparr>rt_lease_counter := rt_lease_counter rt + 1, rt_lease := Some lease\<rparr>) = (st, rt')"
      and l: "tk_controller (al_token lease) = rt_incarnation rt" "tk_epoch (al_token lease) = rt_epoch rt"
        "tk_lease (al_token lease) = al_lease lease"
      and out: "acquire_authority requester ttl now io rt
             = (if status_ok st then (Inr lease, rt') else (Inl st, rt'\<lparr>rt_lease := None\<rparr>))"
    show "kept rt (snd (acquire_authority requester ttl now io rt))"
      unfolding out using journal_append_view [OF j] l
      by (intro same_view_kept) (auto simp: same_view_def lease_current_def)
  qed (simp add: same_view_kept)
qed

interpretation revoke_op: live_operation "\<lambda>rt. snd (revoke_authority io rt)"
proof (rule live_operationI)
  fix rt
  obtain st rt' where j: "journal_append (append_record RT_Fence [] (rt_incarnation rt) (rt_epoch rt) (rt_generation rt) io)
      (rt\<lparr>rt_lease := None\<rparr>) = (st, rt')" by fastforce
  show "kept rt (snd (revoke_authority io rt))"
    using journal_append_view [OF j] j
    by (intro same_view_kept) (auto simp: revoke_authority_def same_view_def lease_current_def split: option.split)
qed

section \<open>Commands\<close>

text \<open>Every guard of \<open>apply_locked\<close> passes, and the effect of the command validates as \<open>f\<close>.\<close>

definition admitted :: "command \<Rightarrow> u64 \<Rightarrow> runtime \<Rightarrow> fabric \<Rightarrow> topology_index \<Rightarrow> bool" where
  "admitted c now rt f ix \<longleftrightarrow> rt_started rt \<and> cm_request_id c \<noteq> 0 \<and> map_of (rt_dedup rt) (cm_request_id c) = None
     \<and> length (rt_dedup rt) < unat (rc_max_dedup_entries (rt_config rt))
     \<and> ck_code (validate_token (cm_token c) (authority_context_locked now rt)) = SC_Ok
     \<and> cm_expected_generation c = rt_generation rt \<and> cm_expected_epoch c = rt_epoch rt
     \<and> command_precondition (the (rt_fabric rt)) c = None
     \<and> apply_command_to (rc_limits (rt_config rt)) (the (rt_fabric rt)) c
          (if is_topology_command (cm_kind c) then next_generation (rt_generation rt) else rt_generation rt)
          (rt_epoch rt) (rt_incarnation rt) = Inr f
     \<and> index_build (Some f) = Inr ix"

text \<open>Only the three command counters may differ.\<close>

definition counters_only :: "runtime \<Rightarrow> runtime \<Rightarrow> bool" where
  "counters_only rt rt' \<longleftrightarrow> (\<exists>a b d. rt' = rt\<lparr>rt_commands_refused := a, rt_commands_fenced := b, rt_commands_duplicated := d\<rparr>)"

lemma counters_only_simps [simp]:
  "counters_only rt rt" "counters_only rt (rt\<lparr>rt_commands_refused := n\<rparr>)" "counters_only rt (rt\<lparr>rt_commands_fenced := n\<rparr>)"
  "counters_only rt (rt\<lparr>rt_commands_duplicated := n\<rparr>)"
proof -
  have eq: "rt = rt\<lparr>rt_commands_refused := rt_commands_refused rt, rt_commands_fenced := rt_commands_fenced rt,
      rt_commands_duplicated := rt_commands_duplicated rt\<rparr>" by simp
  show "counters_only rt rt" unfolding counters_only_def using eq by blast
  show "counters_only rt (rt\<lparr>rt_commands_refused := n\<rparr>)" unfolding counters_only_def
    by (intro exI [of _ n] exI [of _ "rt_commands_fenced rt"] exI [of _ "rt_commands_duplicated rt"]) simp
  show "counters_only rt (rt\<lparr>rt_commands_fenced := n\<rparr>)" unfolding counters_only_def
    by (intro exI [of _ "rt_commands_refused rt"] exI [of _ n] exI [of _ "rt_commands_duplicated rt"]) simp
  show "counters_only rt (rt\<lparr>rt_commands_duplicated := n\<rparr>)" unfolding counters_only_def
    by (intro exI [of _ "rt_commands_refused rt"] exI [of _ "rt_commands_fenced rt"] exI [of _ n]) simp
qed

lemma refused_simps [simp]:
  "command_refused code detail r rt = (Some (r\<lparr>cr_code := status_code_u16 code, cr_detail := detail\<rparr>),
     rt\<lparr>rt_commands_refused := rt_commands_refused rt + 1\<rparr>)"
  "command_fenced code detail r rt = (Some (r\<lparr>cr_code := status_code_u16 code, cr_detail := detail\<rparr>),
     rt\<lparr>rt_commands_fenced := rt_commands_fenced rt + 1\<rparr>)"
  by (simp_all add: command_refused_def command_fenced_def)

lemma base_result_flags [simp]: "\<not> cr_mutated (base_result c rt)" "\<not> cr_deduplicated (base_result c rt)"
  "cr_request_id (base_result c rt) = cm_request_id c"
  by (simp_all add: base_result_def blank_result_def)

definition not_committed :: "command \<Rightarrow> runtime \<Rightarrow> command_result option \<times> runtime \<Rightarrow> bool" where
  "not_committed c rt out \<longleftrightarrow> counters_only rt (snd out) \<and> (\<exists>r. fst out = Some r \<and>
     (\<not> cr_mutated r \<or> (\<exists>rec. map_of (rt_dedup rt) (cm_request_id c) = Some rec \<and> r = rec\<lparr>cr_deduplicated := True\<rparr>)))"

lemma apply_admitted_cases:
  assumes "rt_started rt" and "cm_request_id c \<noteq> 0" and "map_of (rt_dedup rt) (cm_request_id c) = None"
    and "length (rt_dedup rt) < unat (rc_max_dedup_entries (rt_config rt))"
  shows "(\<exists>f ix. admitted c now rt f ix \<and> apply_admitted c now io rt = commit_command c f ix io rt)
    \<or> not_committed c rt (apply_admitted c now io rt)"
proof (cases "ck_code (validate_token (cm_token c) (authority_context_locked now rt)) = SC_Ok
    \<and> cm_expected_generation c = rt_generation rt \<and> cm_expected_epoch c = rt_epoch rt
    \<and> command_precondition (the (rt_fabric rt)) c = None")
  case True
  show ?thesis
    using True assms unfolding apply_admitted_def Let_def admitted_def
    by (auto simp: not_committed_def split: sum.split)
next
  case False
  then have "not_committed c rt (apply_admitted c now io rt)"
    unfolding apply_admitted_def Let_def
    by (auto simp: not_committed_def split: option.split)
  then show ?thesis ..
qed

lemma apply_cases:
  "(\<exists>f ix. admitted c now rt f ix \<and> apply_locked c now io rt = commit_command c f ix io rt)
   \<or> not_committed c rt (apply_locked c now io rt)"
proof (cases "rt_started rt \<and> cm_request_id c \<noteq> 0 \<and> map_of (rt_dedup rt) (cm_request_id c) = None
    \<and> length (rt_dedup rt) < unat (rc_max_dedup_entries (rt_config rt))")
  case True
  then have "apply_locked c now io rt = apply_admitted c now io rt" by (simp add: apply_locked_def)
  with apply_admitted_cases [of rt c now io] True show ?thesis by simp
next
  case False
  then have "not_committed c rt (apply_locked c now io rt)"
    by (auto simp: apply_locked_def Let_def not_committed_def split: option.split)
  then show ?thesis ..
qed

text \<open>The three ways a commit can end: refused by the journal, process exit, published.\<close>

lemma commit_cases:
  fixes c f ix io rt
  defines "r \<equiv> commit_result c f rt"
  obtains (exit_before) "commit_command c f ix io rt = (None, rt)"
  | (refused) st rt1 where "journal_append (append_command c r (rt_incarnation rt) (rt_epoch rt) io) rt = (st, rt1)"
      "\<not> status_ok st" "commit_command c f ix io rt = command_refused (st_code st)
         (''durable commit failed: '' @ st_detail st) (r\<lparr>cr_mutated := False\<rparr>) rt1"
  | (exit_after) st rt1 where "journal_append (append_command c r (rt_incarnation rt) (rt_epoch rt) io) rt = (st, rt1)"
      "status_ok st" "commit_command c f ix io rt = (None, rt1)"
  | (published) st rt1 where "journal_append (append_command c r (rt_incarnation rt) (rt_epoch rt) io) rt = (st, rt1)"
      "status_ok st" "snd (commit_command c f ix io rt) = snd (publish_command c f ix r rt1)"
      "fst (commit_command c f ix io rt) \<in> {None, Some (fst (publish_command c f ix r rt1))}"
proof -
  obtain st rt1 where j: "journal_append (append_command c r (rt_incarnation rt) (rt_epoch rt) io) rt = (st, rt1)" by fastforce
  show thesis
  proof (cases "hits_fault FP_BeforeCommit rt")
    case True
    then show thesis by (intro exit_before) (simp add: commit_command_def)
  next
    case go: False
    show thesis
    proof (cases "status_ok st")
      case False
      then show thesis using j go by (intro refused [OF j]) (simp_all add: commit_command_def r_def)
    next
      case ok: True
      show thesis
      proof (cases "hits_fault FP_AfterCommitBeforeAck rt1")
        case True
        then show thesis using j go ok by (intro exit_after [OF j]) (simp_all add: commit_command_def r_def)
      next
        case False
        then show thesis
          using j go ok by (intro published [OF j]) (simp_all add: commit_command_def r_def split: prod.split)
      qed
    qed
  qed
qed

lemma publish_fields:
  assumes "publish_command c f ix r rt = (r', rt')"
  shows "rt_config rt' = rt_config rt" "rt_incarnation rt' = rt_incarnation rt" "rt_epoch rt' = rt_epoch rt"
    "rt_started rt' = rt_started rt" "rt_fabric rt' = Some f" "rt_index rt' = Some ix" "rt_generation rt' = fab_generation f"
    "rt_dedup rt' = rt_dedup rt @ [(cm_request_id c, r')]" "forget_token r' = forget_token r" "rt_store rt' = rt_store rt"
    "lease_current rt \<Longrightarrow> lease_current rt'"
  using assms by (auto simp: publish_command_def Let_def forget_token_def lease_current_def split: option.splits)

lemma counters_only_view:
  "counters_only rt rt' \<Longrightarrow> same_view rt rt' \<and> rt_lease rt' = rt_lease rt \<and> rt_store rt' = rt_store rt \<and> rt_dir rt' = rt_dir rt"
  by (auto simp: counters_only_def same_view_def)

lemma commit_kept:
  assumes "admitted c now rt f ix"
  shows "kept rt (snd (commit_command c f ix io rt))"
proof (cases rule: commit_cases [of c f ix io rt])
  case exit_before
  then show ?thesis by (simp add: same_view_kept)
next
  case (refused st rt1)
  show ?thesis unfolding refused(3)
    using journal_append_view [OF refused(1)] by (intro view_kept) (auto simp: same_view_def)
next
  case (exit_after st rt1)
  show ?thesis unfolding exit_after(3)
    using journal_append_view [OF exit_after(1)] by (intro view_kept) (auto simp: same_view_def)
next
  case (published st rt1)
  obtain r' rt' where p: "publish_command c f ix (commit_result c f rt) rt1 = (r', rt')" by fastforce
  have v: "same_view rt rt1" "lease_current rt \<Longrightarrow> lease_current rt1"
    using journal_append_view [OF published(1)] view_lease by auto
  show ?thesis unfolding published(3) p
    using publish_fields [OF p] v assms by (auto simp: kept_def same_view_def runtime_consistent_def admitted_def)
qed

interpretation apply_op: live_operation "\<lambda>rt. snd (apply_locked c now io rt)"
proof (rule live_operationI)
  fix rt
  show "kept rt (snd (apply_locked c now io rt))"
    using apply_cases [of c now rt io]
  proof (elim disjE exE conjE)
    assume "not_committed c rt (apply_locked c now io rt)"
    then have "counters_only rt (snd (apply_locked c now io rt))" by (simp add: not_committed_def)
    then show ?thesis using counters_only_view view_kept by blast
  next
    fix f ix
    assume "admitted c now rt f ix" and out: "apply_locked c now io rt = commit_command c f ix io rt"
    then show ?thesis unfolding out by (intro commit_kept)
  qed
qed

section \<open>Other operations\<close>

lemmas consistent_simps = runtime_consistent_def lease_current_def

lemma install_cases:
  obtains (refused) st where "install_fabric f replace io rt = (st, rt)"
  | (failed) st s1 where "\<not> status_ok st" "install_fabric f replace io rt = (st, rt\<lparr>rt_store := Some s1\<rparr>)"
      "append_fabric f (rt_incarnation rt) (rt_epoch rt) io (the (rt_store rt)) = (st, s1)" "rt_store rt \<noteq> None"
  | (volatile) ix where "index_build (Some f) = Inr ix" "rt_started rt" "rt_store rt = None"
      "install_fabric f replace io rt = (status_success,
         rt\<lparr>rt_fabric := Some f, rt_index := Some ix, rt_generation := fab_generation f\<rparr>)"
  | (installed) ix s1 st where "index_build (Some f) = Inr ix" "rt_started rt" "rt_store rt \<noteq> None"
      "append_fabric f (rt_incarnation rt) (rt_epoch rt) io (the (rt_store rt)) = (st, s1)" "status_ok st"
      "install_fabric f replace io rt = (status_success, rt\<lparr>rt_store := Some s1, rt_records_since_snapshot := 0,
         rt_fabric := Some f, rt_index := Some ix, rt_generation := fab_generation f\<rparr>)"
proof (cases "rt_started rt \<and> (replace \<or> rt_fabric rt = None \<or> fab_leaves (the (rt_fabric rt)) = [])")
  case False
  then show thesis by (intro refused [of "fst (install_fabric f replace io rt)"]) (auto simp: install_fabric_def)
next
  case True
  then have out: "install_fabric f replace io rt = install_fabric_locked f io rt" by (auto simp: install_fabric_def)
  show thesis
  proof (cases "index_build (Some f)")
    case (Inl st)
    then show thesis using out by (intro refused [of st]) (simp_all add: install_fabric_locked_def)
  next
    case (Inr ix)
    show thesis
    proof (cases "rt_store rt")
      case None
      then show thesis using Inr True out by (intro volatile [OF Inr]) (simp_all add: install_fabric_locked_def)
    next
      case (Some s)
      obtain st s1 where ap: "append_fabric f (rt_incarnation rt) (rt_epoch rt) io s = (st, s1)" by fastforce
      show thesis
      proof (cases "status_ok st")
        case True
        with Some ap Inr out \<open>rt_started rt \<and> _\<close> show thesis
          by (intro installed [OF Inr]) (simp_all add: install_fabric_locked_def Let_def)
      next
        case False
        with Some ap Inr out show thesis by (intro failed) (simp_all add: install_fabric_locked_def Let_def)
      qed
    qed
  qed
qed

interpretation install_op: live_operation "\<lambda>rt. snd (install_fabric f replace io rt)"
proof (rule live_operationI)
  fix rt
  show "kept rt (snd (install_fabric f replace io rt))"
  proof (cases rule: install_cases [of f replace io rt])
    case (failed st s1)
    then show ?thesis by (intro view_kept) (auto simp: same_view_def)
  next
    case (volatile ix)
    then show ?thesis by (auto simp: kept_def consistent_simps split: option.splits)
  next
    case (installed ix s1 st)
    then show ?thesis by (auto simp: kept_def consistent_simps split: option.splits)
  qed (simp add: view_kept)
qed

interpretation compact_op: live_operation "\<lambda>rt. snd (compact io rt)"
  by (rule live_operationI, rule view_kept)
    (auto simp: compact_def same_view_def Let_def split: option.split prod.split)

interpretation compactor_op: live_operation "\<lambda>rt. compactor_pass io rt"
proof (rule live_operationI)
  fix rt
  have "kept rt (snd (compact io rt))" and "kept rt rt" by (rule compact_op.keeps, simp add: view_kept)
  then show "kept rt (compactor_pass io rt)" by (simp add: compactor_pass_def)
qed

interpretation sweep_op: live_operation "\<lambda>rt. sweep now rt"
  by (rule live_operationI, rule same_view_kept)
    (auto simp: sweep_def same_view_def lease_current_def Let_def split: option.splits)

interpretation assess_op: live_operation "\<lambda>rt. snd (assess_paths from to c token rt)"
  by (rule live_operationI, rule view_kept) (auto simp: assess_paths_def same_view_def Let_def split: option.split)

interpretation eligible_op: live_operation "\<lambda>rt. snd (eligible_spines leaf c token rt)"
  by (rule live_operationI, rule view_kept) (auto simp: eligible_spines_def same_view_def split: option.split)

interpretation health_op: live_operation "\<lambda>rt. snd (runtime_health c rt)"
  by (rule live_operationI, rule view_kept) (auto simp: runtime_health_def same_view_def split: option.split)

interpretation authorize_op: live_operation "\<lambda>rt. snd (authorize_path from to c ttl now rt)"
  by (rule live_operationI, rule view_kept)
    (auto simp: authorize_path_def assess_paths_def same_view_def Let_def split: option.split sum.split)

interpretation fault_op: live_operation "\<lambda>rt. set_fault_point point rt"
  by (rule live_operationI, rule view_kept) (simp_all add: set_fault_point_def same_view_def)

section \<open>Runs\<close>

text \<open>
  One step of a process that keeps running: a call that returned, or a pass of a worker. The fabrics
  a client installs are restricted to \<open>installs\<close>.
\<close>

inductive live_step :: "(fabric \<Rightarrow> bool) \<Rightarrow> runtime \<Rightarrow> runtime \<Rightarrow> bool" for installs where
  applied: "fst (apply_locked c now io rt) \<noteq> None \<Longrightarrow> live_step installs rt (snd (apply_locked c now io rt))"
| acquire: "live_step installs rt (snd (acquire_authority requester ttl now io rt))"
| revoke: "live_step installs rt (snd (revoke_authority io rt))"
| install: "installs f \<Longrightarrow> live_step installs rt (snd (install_fabric f replace io rt))"
| compact: "live_step installs rt (snd (compact sio rt))"
| compactor: "live_step installs rt (compactor_pass sio rt)"
| sweep: "live_step installs rt (sweep now rt)"
| assess: "live_step installs rt (snd (assess_paths from to c0 token rt))"
| eligible: "live_step installs rt (snd (eligible_spines leaf c0 token rt))"
| health: "live_step installs rt (snd (runtime_health c0 rt))"
| authorize: "live_step installs rt (snd (authorize_path from to c0 ttl now rt))"
| fault: "live_step installs rt (set_fault_point point rt)"

inductive live_run :: "(fabric \<Rightarrow> bool) \<Rightarrow> runtime \<Rightarrow> runtime \<Rightarrow> bool" for installs where
  refl: "live_run installs rt rt"
| step: "live_run installs rt rt1 \<Longrightarrow> live_step installs rt1 rt2 \<Longrightarrow> live_run installs rt rt2"

lemma live_step_kept: "live_step installs rt rt' \<Longrightarrow> kept rt rt'"
  by (induction rule: live_step.induct)
    (rule apply_op.keeps acquire_op.keeps revoke_op.keeps install_op.keeps compact_op.keeps compactor_op.keeps
      sweep_op.keeps assess_op.keeps eligible_op.keeps health_op.keeps authorize_op.keeps fault_op.keeps)+

lemma live_run_kept: "live_run installs rt rt' \<Longrightarrow> kept rt rt'"
proof (induction rule: live_run.induct)
  case refl
  show ?case by (simp add: view_kept)
next
  case (step rt rt1 rt2)
  then show ?case using live_step_kept [OF step.hyps(2)] by (auto simp: kept_def)
qed

lemma kept_recorded: "kept rt rt' \<Longrightarrow> map_of (rt_dedup rt) i = Some r \<Longrightarrow> map_of (rt_dedup rt') i = Some r"
  by (auto simp: kept_def map_add_Some_iff)

text \<open>A command whose request id is recorded is answered from the record.\<close>

lemma recorded_answer:
  assumes "rt_started rt" and "cm_request_id c \<noteq> 0" and "map_of (rt_dedup rt) (cm_request_id c) = Some r"
  shows "apply_locked c now io rt = (Some (r\<lparr>cr_deduplicated := True\<rparr>),
     rt\<lparr>rt_commands_duplicated := rt_commands_duplicated rt + 1\<rparr>)"
  using assms by (simp add: apply_locked_def Let_def)

text \<open>What a command that was told it mutated the fabric has done.\<close>

lemma committed_result:
  assumes "apply_locked c now io rt = (Some r, rt')" and "cr_mutated r" and "\<not> cr_deduplicated r"
  obtains f ix where "admitted c now rt f ix" "rt_fabric rt' = Some f" "rt_index rt' = Some ix"
    "rt_generation rt' = fab_generation f" "rt_dedup rt' = rt_dedup rt @ [(cm_request_id c, r)]"
proof -
  have "\<not> not_committed c rt (apply_locked c now io rt)"
    using assms by (auto simp: not_committed_def)
  then obtain f ix where adm: "admitted c now rt f ix" and out: "apply_locked c now io rt = commit_command c f ix io rt"
    using apply_cases [of c now rt io] by blast
  show thesis
  proof (cases rule: commit_cases [of c f ix io rt])
    case (published st rt1)
    obtain r' rt2 where p: "publish_command c f ix (commit_result c f rt) rt1 = (r', rt2)" by fastforce
    have "r' = r" "rt2 = rt'" using published(3,4) p assms(1) out by auto
    then show thesis using publish_fields [OF p] journal_append_view [OF published(1)] adm
      by (intro that [OF adm]) (simp_all add: same_view_def)
  qed (use assms out in auto)
qed

section \<open>The journal tracks the published state\<close>

text \<open>
  \<open>tracks d0 rt es\<close>: replaying the entries \<open>es\<close> of the open segment, as \<open>start\<close> does it, on any
  state whose exactly-once table is \<open>d0\<close> yields the published fabric, the exactly-once table
  (without the refreshed tokens, which are not written) and the live epoch.
\<close>

definition tracks :: "(request_id \<times> command_result) list \<Rightarrow> runtime \<Rightarrow> journal_entry list \<Rightarrow> bool" where
  "tracks d0 rt es \<longleftrightarrow> (\<forall>s0. rs_dedup s0 = forget_tokens d0 \<and> rs_epoch s0 \<le> rt_epoch rt \<longrightarrow>
     (\<exists>s. replay_records (rt_config rt) (map (entry_record (rt_incarnation rt)) es) s0 = (status_success, s)
        \<and> rs_fabric s = rt_fabric rt \<and> rs_dedup s = forget_tokens (rt_dedup rt) \<and> rs_epoch s = rt_epoch rt
        \<and> rs_recovery s = rs_recovery s0))"

definition store_for :: "u32 \<Rightarrow> runtime \<Rightarrow> fabric_store \<Rightarrow> bool" where
  "store_for seg rt s \<longleftrightarrow> fs_config s = rc_store (rt_config rt) \<and> fs_incarnation s = rt_incarnation rt \<and> fs_segment_index s = seg"

lemma store_for_view: "store_for seg rt s \<Longrightarrow> same_view rt rt' \<Longrightarrow> store_for seg rt' s"
  by (simp add: store_for_def same_view_def)

definition journaled :: "u64 \<Rightarrow> u32 \<Rightarrow> (request_id \<times> command_result) list \<Rightarrow> runtime \<Rightarrow> journal_entry list \<Rightarrow> bool" where
  "journaled created seg d0 rt es \<longleftrightarrow> tracks d0 rt es \<and> list_all (\<lambda>e. je_epoch e = rt_epoch rt) es
     \<and> (\<exists>s. rt_store rt = Some s \<and> (store_holds created s es \<or> store_torn created s es) \<and> store_for seg rt s)
     \<and> (\<exists>f. rt_fabric rt = Some f \<and> length (fab_topology_digest f) = 32)"

definition recoverable :: "builder_limits \<Rightarrow> fabric \<Rightarrow> bool" where
  "recoverable limits f \<longleftrightarrow> deserialize_fabric (serialize_fabric f) limits = Inr f"

lemma deserialized_digest: "deserialize_fabric bs limits = Inr f \<Longrightarrow> length (fab_topology_digest f) = 32"
  unfolding deserialize_fabric_def Let_def
  by (auto split: sum.splits prod.splits if_splits dest!: freeze_result
      simp: with_digests_def Let_def compute_digests_def)

lemma store_append:
  assumes "store_holds created s es \<or> store_torn created s es" and "unat (cfg_max_record_bytes (fs_config s)) < 2 ^ 32"
    and "append_record (je_type e) (je_payload e) inc (je_epoch e) (je_generation e) io s = (st, s')"
  shows "store_for seg rt s \<Longrightarrow> store_for seg rt s'"
    and "if status_ok st then store_holds created s' (es @ [e]) else store_holds created s' es \<or> store_torn created s' es"
proof -
  show "store_for seg rt s \<Longrightarrow> store_for seg rt s'" using append_frame [OF assms(3)] by (simp add: store_for_def)
  consider (torn) "store_torn created s es" | (big) "store_holds created s es" "length (je_payload e) > unat (cfg_max_record_bytes (fs_config s))"
    | (fit) "store_holds created s es" "length (je_payload e) \<le> unat (cfg_max_record_bytes (fs_config s))"
    using assms(1) by linarith
  then show "if status_ok st then store_holds created s' (es @ [e]) else store_holds created s' es \<or> store_torn created s' es"
  proof cases
    case torn
    then show ?thesis
      using torn_refuses [OF torn, of "je_type e" "je_payload e" inc "je_epoch e" "je_generation e" io] assms(3) by simp
  next
    case big
    then show ?thesis
      using append_record_refused [OF big(1), of "je_payload e" inc "je_type e" "je_epoch e" "je_generation e" io] assms(3)
      by (simp add: append_refused_def)
  next
    case fit
    have "length (je_payload e) < 2 ^ 32" using fit(2) assms(2) by linarith
    then show ?thesis using append_record_cases [OF fit(1), of e inc io] assms(3) fit(1) by (auto split: if_splits)
  qed
qed

lemma entry_record_simps [simp]:
  "rr_type (entry_record inc e) = je_type e" "rr_epoch (entry_record inc e) = je_epoch e"
  "rr_incarnation (entry_record inc e) = inc" "rr_payload (entry_record inc e) = je_payload e"
  by (simp_all add: entry_record_def)

lemma tracks_extend:
  assumes "tracks d0 rt es" and "rt_config rt' = rt_config rt" and "rt_incarnation rt' = rt_incarnation rt"
    and "rt_epoch rt' = rt_epoch rt"
    and "\<And>s. rs_fabric s = rt_fabric rt \<Longrightarrow> rs_dedup s = forget_tokens (rt_dedup rt) \<Longrightarrow> rs_epoch s = rt_epoch rt \<Longrightarrow>
      \<exists>s'. replay_record (rt_config rt) (entry_record (rt_incarnation rt) e) s = (status_success, s')
         \<and> rs_fabric s' = rt_fabric rt' \<and> rs_dedup s' = forget_tokens (rt_dedup rt') \<and> rs_epoch s' = rt_epoch rt
         \<and> rs_recovery s' = rs_recovery s"
  shows "tracks d0 rt' (es @ [e])"
  unfolding tracks_def
proof (intro allI impI, elim conjE)
  fix s0 :: replay_state
  assume s0: "rs_dedup s0 = forget_tokens d0" "rs_epoch s0 \<le> rt_epoch rt'"
  then obtain s where s: "replay_records (rt_config rt) (map (entry_record (rt_incarnation rt)) es) s0 = (status_success, s)"
    "rs_fabric s = rt_fabric rt" "rs_dedup s = forget_tokens (rt_dedup rt)" "rs_epoch s = rt_epoch rt"
    "rs_recovery s = rs_recovery s0"
    using assms(1,4) unfolding tracks_def by metis
  from assms(5) [OF s(2-4)] obtain s' where
    s': "replay_record (rt_config rt) (entry_record (rt_incarnation rt) e) s = (status_success, s')"
    "rs_fabric s' = rt_fabric rt'" "rs_dedup s' = forget_tokens (rt_dedup rt')" "rs_epoch s' = rt_epoch rt"
    "rs_recovery s' = rs_recovery s" by blast
  have "replay_records (rt_config rt') (map (entry_record (rt_incarnation rt')) (es @ [e])) s0 = (status_success, s')"
    by (simp add: assms(2,3) replay_append s(1) s'(1))
  then show "\<exists>s. replay_records (rt_config rt') (map (entry_record (rt_incarnation rt')) (es @ [e])) s0 = (status_success, s)
      \<and> rs_fabric s = rt_fabric rt' \<and> rs_dedup s = forget_tokens (rt_dedup rt') \<and> rs_epoch s = rt_epoch rt'
      \<and> rs_recovery s = rs_recovery s0"
    using s' s(5) assms(4) by auto
qed

lemma tracks_view: "tracks d0 rt es \<Longrightarrow> same_view rt rt' \<Longrightarrow> tracks d0 rt' es"
  by (simp add: tracks_def same_view_def)

lemma journaled_view:
  "journaled created seg d0 rt es \<Longrightarrow> same_view rt rt' \<Longrightarrow> rt_store rt' = rt_store rt \<Longrightarrow> journaled created seg d0 rt' es"
  using tracks_view store_for_view by (fastforce simp: journaled_def same_view_def)

lemma applied_text:
  "is_valid_utf8 (''applied '' @ command_kind_string k)" "length (''applied '' @ command_kind_string k) \<le> 65536"
proof -
  show "is_valid_utf8 (''applied '' @ command_kind_string k)"
    by (rule ascii_valid_utf8) (cases k; simp)
  show "length (''applied '' @ command_kind_string k) \<le> 65536" by (cases k) simp_all
qed

text \<open>Appending a record that carries no state.\<close>

lemma journaled_fence:
  assumes "journaled created seg d0 rt es" and "unat (cfg_max_record_bytes (rc_store (rt_config rt))) < 2 ^ 32"
    and "journal_append (append_record RT_Fence payload (rt_incarnation rt) (rt_epoch rt) g io) rt = (st, rt')"
  shows "\<exists>es'. journaled created seg d0 rt' es'"
proof -
  obtain s where s: "rt_store rt = Some s" "store_holds created s es \<or> store_torn created s es"
    "store_for seg rt s" and tr: "tracks d0 rt es" and ep: "list_all (\<lambda>e. je_epoch e = rt_epoch rt) es"
    and f: "\<exists>f. rt_fabric rt = Some f \<and> length (fab_topology_digest f) = 32"
    using assms(1) by (auto simp: journaled_def)
  let ?e = "\<lparr>je_type = RT_Fence, je_generation = g, je_epoch = rt_epoch rt, je_payload = payload\<rparr>"
  obtain s' where ap: "append_record (je_type ?e) (je_payload ?e) (rt_incarnation rt) (je_epoch ?e) (je_generation ?e) io s = (st, s')"
    and rt': "rt_store rt' = Some s'"
    using assms(3) s(1) by (auto simp: journal_append_def Let_def split: prod.splits if_splits)
  have v: "same_view rt rt'" using journal_append_view [OF assms(3)] by simp
  have max: "unat (cfg_max_record_bytes (fs_config s)) < 2 ^ 32" using assms(2) s(3) by (simp add: store_for_def)
  note st = store_append(1) [OF s(2) max ap s(3)] store_append(2) [OF s(2) max ap]
  show ?thesis
  proof (cases "status_ok st")
    case True
    have "tracks d0 rt' (es @ [?e])"
      using tr v by (intro tracks_extend [of d0 rt]) (auto simp: same_view_def replay_other)
    then show ?thesis using st True rt' v f ep store_for_view [OF st(1) v] by (auto simp: journaled_def same_view_def)
  next
    case False
    then have "journaled created seg d0 rt' es"
      using st rt' v f ep store_for_view [OF st(1) v] tracks_view [OF tr v] by (auto simp: journaled_def same_view_def)
    then show ?thesis ..
  qed
qed

lemma validated_digest:
  "ck_code (validate_token t cx) = SC_Ok \<Longrightarrow> tk_topology_digest t = cx_topology_digest cx"
  by (auto simp: validate_token_def split: if_splits)

lemma commit_result_simps [simp]:
  "cr_generation (commit_result c f rt) = fab_generation f" "cr_topology_digest (commit_result c f rt) = fab_topology_digest f"
  "cr_detail (commit_result c f rt) = ''applied '' @ command_kind_string (cm_kind c)"
  "\<not> cr_deduplicated (commit_result c f rt)" "cr_mutated (commit_result c f rt)"
  by (simp_all add: commit_result_def)

text \<open>The commit record of an admitted command, and what its replay does.\<close>

definition commit_entry :: "command \<Rightarrow> fabric \<Rightarrow> runtime \<Rightarrow> journal_entry" where
  "commit_entry c f rt = \<lparr>je_type = RT_CommandCommit, je_generation = fab_generation f, je_epoch = rt_epoch rt,
     je_payload = commit_payload c (commit_result c f rt)\<rparr>"

lemma commit_entry_replay:
  assumes "admitted c now rt f ix" and "rt_fabric rt = Some f0" and "length (fab_topology_digest f0) = 32"
    and "entry_fits (rc_store (rt_config rt)) (commit_entry c f rt)"
    and "length (serialize_command c) < 2 ^ 32" "length (serialize_command_result (commit_result c f rt)) < 2 ^ 32"
    and "rs_fabric s = rt_fabric rt" and "rs_dedup s = forget_tokens (rt_dedup rt)" and "rs_epoch s = rt_epoch rt"
  shows "replay_record (rt_config rt) (entry_record (rt_incarnation rt) (commit_entry c f rt)) s = (status_success,
    s\<lparr>rs_dedup := forget_tokens (rt_dedup rt) @ [(cm_request_id c, forget_token (commit_result c f rt))],
      rs_fabric := Some f, rs_commands := rs_commands s + 1\<rparr>)"
proof -
  let ?r = "commit_result c f rt" and ?rec = "entry_record (rt_incarnation rt) (commit_entry c f rt)"
  have ap: "apply_command_to (rc_limits (rt_config rt)) f0 c
      (if is_topology_command (cm_kind c) then next_generation (rt_generation rt) else rt_generation rt)
      (rt_epoch rt) (rt_incarnation rt) = Inr f"
    using assms(1,2) by (simp add: admitted_def)
  have "replay_record (rt_config rt) ?rec s = (status_success,
     s\<lparr>rs_epoch := max (rs_epoch s) (rr_epoch ?rec), rs_dedup := rs_dedup s @ [(cm_request_id c, forget_token ?r)],
       rs_fabric := Some f, rs_commands := rs_commands s + 1\<rparr>)"
  proof (rule replay_commit)
    show "length (tk_topology_digest (cm_token c)) = 32"
      using assms(1-3) validated_digest [of "cm_token c" "authority_context_locked now rt"]
      by (simp add: admitted_def authority_context_locked_def)
    show "apply_command_to (rc_limits (rt_config rt)) f0 c (cr_generation ?r) (rr_epoch ?rec) (rr_incarnation ?rec) = Inr f"
      using ap applied_fabric(1) [OF ap] by (simp add: commit_entry_def)
    show "length (cr_topology_digest ?r) = 32" using applied_fabric(2) [OF ap] by simp
  qed (use assms in \<open>simp_all add: commit_entry_def entry_fits_def admitted_def applied_text [simplified]\<close>)
  then show ?thesis using assms(8,9) by (simp add: commit_entry_def)
qed

text \<open>The journal side of a commit: refused with the segment intact or torn, or one more entry.\<close>

lemma commit_append:
  assumes "journaled created seg d0 rt es" and "unat (cfg_max_record_bytes (rc_store (rt_config rt))) < 2 ^ 32"
    and "admitted c now rt f ix"
    and "journal_append (append_command c (commit_result c f rt) (rt_incarnation rt) (rt_epoch rt) io) rt = (st, rt1)"
  obtains (failed) "\<not> status_ok st" "journaled created seg d0 rt1 es" "same_view rt rt1"
  | (written) s' where "status_ok st" "same_view rt rt1" "rt_store rt1 = Some s'" "store_for seg rt s'"
      "store_holds created s' (es @ [commit_entry c f rt])"
      "length (serialize_command c) < 2 ^ 32" "length (serialize_command_result (commit_result c f rt)) < 2 ^ 32"
      "entry_fits (rc_store (rt_config rt)) (commit_entry c f rt)"
proof -
  let ?r = "commit_result c f rt" and ?e = "commit_entry c f rt"
  obtain s where s: "rt_store rt = Some s" "store_holds created s es \<or> store_torn created s es"
    "store_for seg rt s" and tr: "tracks d0 rt es" and ep: "list_all (\<lambda>e. je_epoch e = rt_epoch rt) es"
    and fb: "\<exists>f. rt_fabric rt = Some f \<and> length (fab_topology_digest f) = 32"
    using assms(1) by (auto simp: journaled_def)
  have v: "same_view rt rt1" using journal_append_view [OF assms(4)] by simp
  obtain s' where ap: "append_command c ?r (rt_incarnation rt) (rt_epoch rt) io s = (st, s')" and rt1: "rt_store rt1 = Some s'"
    using assms(4) s(1) by (auto simp: journal_append_def Let_def split: prod.splits if_splits)
  have keep: "journaled created seg d0 rt1 es" if "store_holds created s' es \<or> store_torn created s' es" "store_for seg rt s'"
    using that rt1 v fb ep store_for_view [OF that(2) v] tracks_view [OF tr v] by (auto simp: journaled_def same_view_def)
  have max: "unat (cfg_max_record_bytes (fs_config s)) < 2 ^ 32" using assms(2) s(3) by (simp add: store_for_def)
  show thesis
    using append_command_cases [of c ?r "rt_incarnation rt" "rt_epoch rt" io s]
  proof (elim disjE exE conjE)
    fix st0 assume "append_command c ?r (rt_incarnation rt) (rt_epoch rt) io s = (st0, s)" "\<not> status_ok st0"
    then show thesis using ap keep s(2,3) v by (intro failed) auto
  next
    assume eq: "append_command c ?r (rt_incarnation rt) (rt_epoch rt) io s
        = append_record RT_CommandCommit (commit_payload c ?r) (rt_incarnation rt) (rt_epoch rt) (cr_generation ?r) io s"
      and small: "length (serialize_command c) < 2 ^ 32" "length (serialize_command_result ?r) < 2 ^ 32"
    have ar: "append_record (je_type ?e) (je_payload ?e) (rt_incarnation rt) (je_epoch ?e) (je_generation ?e) io s = (st, s')"
      using eq ap by (simp add: commit_entry_def)
    note st = store_append(1) [OF s(2) max ar s(3)] store_append(2) [OF s(2) max ar]
    show thesis
    proof (cases "status_ok st")
      case True
      then have h: "store_holds created s' (es @ [?e])" using st(2) by simp
      then have "entry_fits (rc_store (rt_config rt)) ?e" using st(1) by (simp add: store_holds_def store_base_def store_for_def)
      with True v rt1 st(1) h small show thesis by (intro written)
    next
      case False
      with st keep v show thesis by (intro failed) auto
    qed
  qed
qed

lemma forget_tokens_append [simp]: "forget_tokens (xs @ [(i, r)]) = forget_tokens xs @ [(i, forget_token r)]"
  by (simp add: forget_tokens_def)

lemma journaled_apply:
  assumes "journaled created seg d0 rt es" and "unat (cfg_max_record_bytes (rc_store (rt_config rt))) < 2 ^ 32"
    and "fst (apply_locked c now io rt) \<noteq> None"
  shows "\<exists>es'. journaled created seg d0 (snd (apply_locked c now io rt)) es'"
  using apply_cases [of c now rt io]
proof (elim disjE exE conjE)
  assume "not_committed c rt (apply_locked c now io rt)"
  then show ?thesis using counters_only_view journaled_view [OF assms(1)] unfolding not_committed_def by blast
next
  fix f ix
  assume adm: "admitted c now rt f ix" and out: "apply_locked c now io rt = commit_command c f ix io rt"
  obtain f0 where f0: "rt_fabric rt = Some f0" "length (fab_topology_digest f0) = 32" and tr: "tracks d0 rt es"
    and ep: "list_all (\<lambda>e. je_epoch e = rt_epoch rt) es"
    using assms(1) by (auto simp: journaled_def)
  show ?thesis
  proof (cases rule: commit_cases [of c f ix io rt])
    case (refused st rt1)
    then have "journaled created seg d0 rt1 es"
      using commit_append [OF assms(1,2) adm refused(1)] by blast
    then have "journaled created seg d0 (snd (commit_command c f ix io rt)) es"
      unfolding refused(3) by (rule journaled_view) (simp_all add: same_view_def)
    then show ?thesis unfolding out by blast
  next
    case (published st rt1)
    obtain r' rt' where p: "publish_command c f ix (commit_result c f rt) rt1 = (r', rt')" by fastforce
    note pf = publish_fields [OF p]
    from commit_append [OF assms(1,2) adm published(1)] published(2) obtain s' where
      w: "same_view rt rt1" "rt_store rt1 = Some s'" "store_for seg rt s'"
        "store_holds created s' (es @ [commit_entry c f rt])" "length (serialize_command c) < 2 ^ 32"
        "length (serialize_command_result (commit_result c f rt)) < 2 ^ 32"
        "entry_fits (rc_store (rt_config rt)) (commit_entry c f rt)"
      by blast
    have "tracks d0 rt' (es @ [commit_entry c f rt])"
    proof (rule tracks_extend [OF tr])
      fix s :: replay_state
      assume "rs_fabric s = rt_fabric rt" "rs_dedup s = forget_tokens (rt_dedup rt)" "rs_epoch s = rt_epoch rt"
      from commit_entry_replay [OF adm f0 w(7,5,6) this] show "\<exists>s'.
          replay_record (rt_config rt) (entry_record (rt_incarnation rt) (commit_entry c f rt)) s = (status_success, s')
          \<and> rs_fabric s' = rt_fabric rt' \<and> rs_dedup s' = forget_tokens (rt_dedup rt') \<and> rs_epoch s' = rt_epoch rt
          \<and> rs_recovery s' = rs_recovery s"
        using pf w(1) \<open>rs_epoch s = rt_epoch rt\<close> by (simp add: same_view_def)
    qed (use pf w(1) in \<open>simp_all add: same_view_def\<close>)
    moreover have "length (fab_topology_digest f) = 32" using adm applied_fabric(2) unfolding admitted_def by blast
    ultimately have "journaled created seg d0 rt' (es @ [commit_entry c f rt])"
      using pf w ep by (simp add: journaled_def same_view_def store_for_def commit_entry_def)
    then show ?thesis unfolding out using published(3) p by auto
  qed (use assms(3) out in auto)
qed

lemma journaled_install:
  assumes "journaled created seg d0 rt es" and "unat (cfg_max_record_bytes (rc_store (rt_config rt))) < 2 ^ 32"
    and "recoverable (rc_limits (rt_config rt)) f"
  shows "\<exists>es'. journaled created seg d0 (snd (install_fabric f replace io rt)) es'"
proof -
  obtain s where s: "rt_store rt = Some s" "store_holds created s es \<or> store_torn created s es"
    "store_for seg rt s" and tr: "tracks d0 rt es" and ep: "list_all (\<lambda>e. je_epoch e = rt_epoch rt) es"
    and fb: "\<exists>f. rt_fabric rt = Some f \<and> length (fab_topology_digest f) = 32"
    using assms(1) by (auto simp: journaled_def)
  let ?e = "\<lparr>je_type = RT_FabricSnapshot, je_generation = fab_generation f, je_epoch = rt_epoch rt, je_payload = serialize_fabric f\<rparr>"
  have max: "unat (cfg_max_record_bytes (fs_config s)) < 2 ^ 32" using assms(2) s(3) by (simp add: store_for_def)
  have ap: "(s1 = s \<and> \<not> status_ok st) \<or>
      append_record (je_type ?e) (je_payload ?e) (rt_incarnation rt) (je_epoch ?e) (je_generation ?e) io s = (st, s1)"
    if "append_fabric f (rt_incarnation rt) (rt_epoch rt) io s = (st, s1)" for st s1
    using that by (auto simp: append_fabric_def Let_def split: if_splits)
  show ?thesis
  proof (cases rule: install_cases [of f replace io rt])
    case (failed st s1)
    have "(store_holds created s1 es \<or> store_torn created s1 es) \<and> store_for seg rt s1"
      using ap [of st s1] failed(1,3) s store_append [OF s(2) max, of ?e "rt_incarnation rt" io st s1] by auto
    then have "journaled created seg d0 (rt\<lparr>rt_store := Some s1\<rparr>) es"
      using fb ep tracks_view [OF tr, of "rt\<lparr>rt_store := Some s1\<rparr>"] by (simp add: journaled_def same_view_def store_for_def)
    then show ?thesis using failed(2) by auto
  next
    case (installed ix s1 st)
    have ar: "append_record (je_type ?e) (je_payload ?e) (rt_incarnation rt) (je_epoch ?e) (je_generation ?e) io s = (st, s1)"
      using ap [of st s1] installed(4,5) s(1) by simp
    note sa = store_append(1) [OF s(2) max ar s(3)] store_append(2) [OF s(2) max ar]
    let ?rt = "snd (install_fabric f replace io rt)"
    have "tracks d0 ?rt (es @ [?e])"
      using tr assms(3) installed(6) by (intro tracks_extend [of d0 rt]) (auto simp: replay_snapshot recoverable_def)
    then have "journaled created seg d0 ?rt (es @ [?e])"
      using sa installed(5,6) ep deserialized_digest assms(3) by (auto simp: journaled_def recoverable_def store_for_def)
    then show ?thesis by blast
  qed (use assms(1) s(1) in auto)
qed

end
