(* ===== verification/SLF_Restart.thy ===== *)
theory SLF_Restart
  imports SLF_Recovery
begin

text \<open>
  Starting and restarting: a successful \<open>start\<close> establishes the relation between journal and
  published state, every live step keeps it, and a process that stops at any moment is succeeded by
  one that recovers the published state from the bytes on disk.
\<close>

section \<open>Steps keep the journal in line\<close>

definition quiet :: "runtime \<Rightarrow> runtime \<Rightarrow> bool" where
  "quiet rt rt' \<longleftrightarrow> same_view rt rt' \<and> rt_store rt' = rt_store rt"

lemma quiet_steps:
  "quiet rt (snd (compact sio rt))" "quiet rt (compactor_pass sio rt)" "quiet rt (sweep now rt)"
  "quiet rt (snd (assess_paths from to c token rt))" "quiet rt (snd (eligible_spines leaf c token rt))"
  "quiet rt (snd (runtime_health c rt))" "quiet rt (snd (authorize_path from to c ttl now rt))"
  "quiet rt (set_fault_point point rt)"
proof -
  show "quiet rt (snd (compact sio rt))"
    by (auto simp: compact_def quiet_def same_view_def Let_def split: option.split prod.split)
  then show "quiet rt (compactor_pass sio rt)" by (simp add: compactor_pass_def quiet_def)
  show "quiet rt (sweep now rt)" by (simp add: sweep_def quiet_def same_view_def Let_def split: option.split)
  show "quiet rt (snd (assess_paths from to c token rt))"
    by (simp add: assess_paths_def quiet_def same_view_def Let_def split: option.split)
  show "quiet rt (snd (authorize_path from to c ttl now rt))"
    by (auto simp: authorize_path_def assess_paths_def quiet_def same_view_def Let_def split: option.split sum.split)
qed (simp_all add: eligible_spines_def runtime_health_def set_fault_point_def quiet_def same_view_def split: option.split)

lemma quiet_journaled: "journaled created seg d0 rt es \<Longrightarrow> quiet rt rt' \<Longrightarrow> \<exists>es'. journaled created seg d0 rt' es'"
  using journaled_view unfolding quiet_def by blast

lemma journaled_step:
  assumes "live_step (recoverable (rc_limits cfg)) rt rt'" and "rt_config rt = cfg"
    and "unat (cfg_max_record_bytes (rc_store cfg)) < 2 ^ 32" and "journaled created seg d0 rt es"
  shows "\<exists>es'. journaled created seg d0 rt' es'"
  using assms(1)
proof cases
  case (applied c now io)
  then show ?thesis using journaled_apply [OF assms(4)] assms(2,3) by simp
next
  case (acquire requester ttl now io)
  show ?thesis
    using acquire_cases [of requester ttl now io rt]
  proof (elim disjE exE conjE)
    fix lease st rt1
    let ?rt0 = "rt\<lparr>rt_lease_counter := rt_lease_counter rt + 1, rt_lease := Some lease\<rparr>"
    assume j: "journal_append (append_record RT_Fence (lease_payload lease) (rt_incarnation rt) (rt_epoch rt)
             (rt_generation rt) io) ?rt0 = (st, rt1)"
      and out: "acquire_authority requester ttl now io rt
             = (if status_ok st then (Inr lease, rt1) else (Inl st, rt1\<lparr>rt_lease := None\<rparr>))"
    have "journaled created seg d0 ?rt0 es" by (rule journaled_view [OF assms(4)]) (simp_all add: same_view_def)
    then obtain es' where "journaled created seg d0 rt1 es'"
      using journaled_fence [of created seg d0 ?rt0 es "lease_payload lease" "rt_generation rt" io st rt1] j assms(2,3) by auto
    then have "journaled created seg d0 (snd (acquire_authority requester ttl now io rt)) es'"
      unfolding out by (auto intro: journaled_view simp: same_view_def)
    then show ?thesis unfolding acquire by blast
  qed (use assms(4) acquire in auto)
next
  case (revoke io)
  let ?rt0 = "rt\<lparr>rt_lease := None\<rparr>"
  obtain st rt1 where j: "journal_append (append_record RT_Fence [] (rt_incarnation rt) (rt_epoch rt) (rt_generation rt) io)
      ?rt0 = (st, rt1)" by fastforce
  have "journaled created seg d0 ?rt0 es" by (rule journaled_view [OF assms(4)]) (simp_all add: same_view_def)
  then obtain es' where "journaled created seg d0 rt1 es'"
    using journaled_fence [of created seg d0 ?rt0 es "[]" "rt_generation rt" io st rt1] j assms(2,3) by auto
  moreover have "rt' = rt \<or> rt' = rt1" using j revoke by (auto simp: revoke_authority_def split: option.split)
  ultimately show ?thesis using assms(4) by blast
next
  case (install f replace io)
  then show ?thesis using journaled_install [OF assms(4)] assms(2,3) by simp
qed (simp_all add: quiet_journaled [OF assms(4)] quiet_steps)

lemma journaled_run:
  assumes "live_run (recoverable (rc_limits cfg)) rt rt'" and "rt_config rt = cfg"
    and "unat (cfg_max_record_bytes (rc_store cfg)) < 2 ^ 32" and "journaled created seg d0 rt es"
  shows "\<exists>es'. journaled created seg d0 rt' es'"
  using assms
proof (induction rule: live_run.induct)
  case (step rt rt1 rt2)
  moreover have "rt_config rt1 = cfg" using live_run_kept [OF step.hyps(1)] step.prems(1) by (simp add: kept_def)
  ultimately show ?case using journaled_step [OF step.hyps(2)] by blast
qed blast

section \<open>What a successful start has done\<close>

lemma start_recover_started: "start_recover env rt = (o1, rt1) \<Longrightarrow> rt_started rt1 = rt_started rt"
  by (auto simp: start_recover_def Let_def split: if_splits prod.splits sum.splits)

lemma start_recover_frame:
  "start_recover env rt = (o1, rt1) \<Longrightarrow> rt_config rt1 = rt_config rt \<and> rt_incarnation rt1 = rt_incarnation rt
     \<and> rt_store rt1 = rt_store rt"
  by (auto simp: start_recover_def Let_def split: if_splits prod.splits sum.splits)

lemma start_journal_frame:
  "start_journal env rs f rt = (st, rt') \<Longrightarrow> same_view rt rt' \<and> rt_lease rt' = rt_lease rt"
  by (auto simp: start_journal_def same_view_def Let_def split: if_splits prod.splits sum.splits)

lemma start_success:
  assumes "start env rt = (st, rt')" and "rt_started rt'" and "\<not> rt_started rt"
  obtains rs rt1 f ix rt2 st2 where "start_recover env (start_reset env rt) = (Inr rs, rt1)"
    "(case rc_recovered_fabric rs of Some f \<Rightarrow> Inr f | None \<Rightarrow> initial_fabric rt1) = Inr f"
    "index_build (Some f) = Inr ix"
    "start_journal env rs f (rt1\<lparr>rt_fabric := Some f, rt_generation := fab_generation f, rt_index := Some ix,
       rt_epoch := rc_recovered_epoch rs + 1\<rparr>) = (st2, rt2)" "status_ok st2"
    "rt' = rt2\<lparr>rt_lease := None, rt_started_at_ms := se_monotonic_ms env, rt_started := True,
       rt_workers := min 2 (unat (rc_worker_threads (rt_config rt2)))\<rparr>"
proof -
  obtain o1 rt1 where r: "start_recover env (start_reset env rt) = (o1, rt1)" by fastforce
  have ns: "\<not> rt_started rt1" using start_recover_started [OF r] assms(3) by (simp add: start_reset_def)
  obtain rs where o1: "o1 = Inr rs"
    using assms r ns by (cases o1) (auto simp: start_def)
  let ?f = "case rc_recovered_fabric rs of Some f \<Rightarrow> Inr f | None \<Rightarrow> initial_fabric rt1"
  have out: "start_publish env rs rt1 = (st, rt')" using assms(1,3) r o1 by (simp add: start_def)
  obtain f where f: "?f = Inr f" using out assms(2) ns by (cases ?f) (auto simp: start_publish_def)
  obtain ix where ix: "index_build (Some f) = Inr ix"
    using out assms(2) ns f by (cases "index_build (Some f)") (auto simp: start_publish_def Let_def)
  let ?rt = "rt1\<lparr>rt_fabric := Some f, rt_generation := fab_generation f, rt_index := Some ix, rt_epoch := rc_recovered_epoch rs + 1\<rparr>"
  obtain st2 rt2 where j: "start_journal env rs f ?rt = (st2, rt2)" by fastforce
  have "\<not> rt_started rt2" using start_journal_frame [OF j] ns by (simp add: same_view_def)
  then have "status_ok st2 \<and> rt' = rt2\<lparr>rt_lease := None, rt_started_at_ms := se_monotonic_ms env, rt_started := True,
       rt_workers := min 2 (unat (rc_worker_threads (rt_config rt2)))\<rparr>"
    using out assms(2) f ix j by (auto simp: start_publish_def Let_def split: if_splits)
  then show thesis using that [OF r [unfolded o1] f ix j] by blast
qed

lemma start_consistent:
  assumes "start env rt = (st, rt')" and "rt_started rt'" and "\<not> rt_started rt"
  shows "runtime_consistent rt'"
proof -
  obtain rs rt1 f ix rt2 st2 where ix: "index_build (Some f) = Inr ix"
    and j: "start_journal env rs f (rt1\<lparr>rt_fabric := Some f, rt_generation := fab_generation f, rt_index := Some ix,
       rt_epoch := rc_recovered_epoch rs + 1\<rparr>) = (st2, rt2)"
    and rt': "rt' = rt2\<lparr>rt_lease := None, rt_started_at_ms := se_monotonic_ms env, rt_started := True,
       rt_workers := min 2 (unat (rc_worker_threads (rt_config rt2)))\<rparr>"
    by (rule start_success [OF assms])
  have "rt_fabric rt2 = Some f" "rt_index rt2 = Some ix" "rt_generation rt2 = fab_generation f"
    using start_journal_frame [OF j] by (simp_all add: same_view_def)
  with ix show ?thesis by (simp add: rt' runtime_consistent_def lease_current_none)
qed

lemma store_create_refused: "store_create cfg inc seg first io d = (Inl st, d') \<Longrightarrow> \<not> status_ok st"
  by (auto simp: store_create_def open_segment_def write_all_def Let_def split: if_splits prod.splits sum.splits)

lemma store_create_opens:
  assumes "store_create cfg inc seg first io d = (Inr s, d')"
  shows "open_segment cfg inc seg first (ci_now_unix_ms io) (ci_write io) = Inr s"
    and "fs_config s = cfg \<and> fs_incarnation s = inc \<and> fs_segment_index s = seg \<and> fs_first_sequence s = first"
proof -
  show seg: "open_segment cfg inc seg first (ci_now_unix_ms io) (ci_write io) = Inr s"
    using assms by (auto simp: store_create_def Let_def split: if_splits sum.splits prod.splits)
  then show "fs_config s = cfg \<and> fs_incarnation s = inc \<and> fs_segment_index s = seg \<and> fs_first_sequence s = first"
    by (auto simp: open_segment_def Let_def split: if_splits prod.splits)
qed

lemma start_journal_cases:
  assumes "start_journal env rs f rt = (st, rt')" and "status_ok st" and "persistent rt"
  obtains s d st1 s1 st2 s2 where
    "store_create (rc_store (rt_config rt)) (rt_incarnation rt) (rc_next_segment rs) (rc_next_sequence rs)
       (se_create env) (rt_dir rt) = (Inr s, d)"
    "append_record RT_IncarnationStart [] (rt_incarnation rt) (rt_epoch rt) (rt_generation rt) (se_first_write env) s = (st1, s1)"
    "status_ok st1" "append_fabric f (rt_incarnation rt) (rt_epoch rt) (se_second_write env) s1 = (st2, s2)" "status_ok st2"
    "rt' = rt\<lparr>rt_dir := d, rt_store := Some s2, rt_records_since_snapshot := 0\<rparr>"
proof -
  obtain o0 d where c: "store_create (rc_store (rt_config rt)) (rt_incarnation rt) (rc_next_segment rs) (rc_next_sequence rs)
       (se_create env) (rt_dir rt) = (o0, d)" by fastforce
  obtain s where o0: "o0 = Inr s"
    using assms c store_create_refused by (cases o0) (auto simp: start_journal_def)
  obtain st1 s1 where a1: "append_record RT_IncarnationStart [] (rt_incarnation rt) (rt_epoch rt) (rt_generation rt)
      (se_first_write env) s = (st1, s1)" by fastforce
  obtain st2 s2 where a2: "append_fabric f (rt_incarnation rt) (rt_epoch rt) (se_second_write env) s1 = (st2, s2)" by fastforce
  have ok: "status_ok st1" "status_ok st2"
    "rt' = rt\<lparr>rt_dir := d, rt_store := Some s2, rt_records_since_snapshot := 0\<rparr>"
    using assms c o0 a1 a2 by (auto simp: start_journal_def Let_def split: if_splits)
  show thesis by (rule that [OF c [unfolded o0] a1 ok(1) a2 ok(2,3)])
qed

definition boot_entries :: "fabric \<Rightarrow> runtime \<Rightarrow> journal_entry list" where
  "boot_entries f rt =
     [\<lparr>je_type = RT_IncarnationStart, je_generation = rt_generation rt, je_epoch = rt_epoch rt, je_payload = []\<rparr>,
      \<lparr>je_type = RT_FabricSnapshot, je_generation = fab_generation f, je_epoch = rt_epoch rt, je_payload = serialize_fabric f\<rparr>]"

lemma start_journal_store:
  assumes "start_journal env rs f rt = (st, rt')" and "status_ok st" and "persistent rt"
    and "rc_next_sequence rs \<noteq> 0" and "unat (cfg_max_record_bytes (rc_store (rt_config rt))) < 2 ^ 32"
  obtains s where "rt_store rt' = Some s" "store_holds (ci_now_unix_ms (se_create env)) s (boot_entries f rt)"
    "store_for (rc_next_segment rs) rt s"
proof -
  let ?now = "ci_now_unix_ms (se_create env)" and ?seg = "rc_next_segment rs"
  let ?e0 = "boot_entries f rt ! 0" and ?e1 = "boot_entries f rt ! 1"
  obtain s d st1 s1 s2 st2 where c: "store_create (rc_store (rt_config rt)) (rt_incarnation rt) ?seg (rc_next_sequence rs)
       (se_create env) (rt_dir rt) = (Inr s, d)"
    and a1: "append_record RT_IncarnationStart [] (rt_incarnation rt) (rt_epoch rt) (rt_generation rt) (se_first_write env) s = (st1, s1)"
      "status_ok st1"
    and a2: "append_fabric f (rt_incarnation rt) (rt_epoch rt) (se_second_write env) s1 = (st2, s2)" "status_ok st2"
    and rt': "rt' = rt\<lparr>rt_dir := d, rt_store := Some s2, rt_records_since_snapshot := 0\<rparr>"
    by (rule start_journal_cases [OF assms(1-3)])
  have h0: "store_holds ?now s []" by (rule open_segment_holds [OF store_create_opens(1) [OF c] assms(4)])
  have for0: "store_for ?seg rt s" using store_create_opens(2) [OF c] by (simp add: store_for_def)
  have m0: "unat (cfg_max_record_bytes (fs_config s)) < 2 ^ 32" using assms(5) for0 by (simp add: store_for_def)
  have h1: "store_holds ?now s1 ([] @ [?e0])" "store_for ?seg rt s1"
    using store_append [OF disjI1 [OF h0] m0, of ?e0 "rt_incarnation rt" "se_first_write env" st1 s1] a1 for0
    by (auto simp: boot_entries_def)
  have m1: "unat (cfg_max_record_bytes (fs_config s1)) < 2 ^ 32" using assms(5) h1(2) by (simp add: store_for_def)
  have "append_record RT_FabricSnapshot (serialize_fabric f) (rt_incarnation rt) (rt_epoch rt) (fab_generation f)
      (se_second_write env) s1 = (st2, s2)"
    using a2 by (auto simp: append_fabric_def Let_def split: if_splits)
  then have "store_holds ?now s2 (([] @ [?e0]) @ [?e1])" "store_for ?seg rt s2"
    using store_append [OF disjI1 [OF h1(1)] m1, of ?e1 "rt_incarnation rt" "se_second_write env" st2 s2] a2(2) h1(2)
    by (auto simp: boot_entries_def)
  then show thesis by (intro that [of s2]) (simp_all add: rt' boot_entries_def)
qed

lemma start_journal_writes:
  assumes "start_journal env rs f rt = (st, rt')" and "status_ok st" and "persistent rt"
    and "rc_next_sequence rs \<noteq> 0" and "recoverable (rc_limits (rt_config rt)) f" and "rt_fabric rt = Some f"
    and "unat (cfg_max_record_bytes (rc_store (rt_config rt))) < 2 ^ 32"
  shows "journaled (ci_now_unix_ms (se_create env)) (rc_next_segment rs) (rt_dedup rt) rt' (boot_entries f rt)"
proof -
  obtain s where s: "rt_store rt' = Some s" "store_holds (ci_now_unix_ms (se_create env)) s (boot_entries f rt)"
    "store_for (rc_next_segment rs) rt s"
    by (rule start_journal_store [OF assms(1-4,7)])
  have v: "same_view rt rt'" using start_journal_frame [OF assms(1)] by simp
  have "tracks (rt_dedup rt) rt' (boot_entries f rt)"
    using assms(5,6) v by (auto simp: tracks_def boot_entries_def same_view_def replay_other replay_snapshot recoverable_def max_def)
  moreover have "length (fab_topology_digest f) = 32" using deserialized_digest assms(5) unfolding recoverable_def by blast
  ultimately show ?thesis
    using s v assms(6) store_for_view [OF s(3) v] by (auto simp: journaled_def same_view_def boot_entries_def)
qed

section \<open>The directory\<close>

lemma segment_entries_update:
  "parse_segment_index name = None \<Longrightarrow> segment_entries (AList.update name bs files) = segment_entries files"
  by (induction files) (auto split: option.splits)

lemma segment_entries_delete:
  "parse_segment_index name = None \<Longrightarrow> segment_entries (AList.delete name files) = segment_entries files"
  by (induction files) (auto simp: AList.delete_eq split: option.splits)

definition new_segment :: "string \<Rightarrow> u32 \<Rightarrow> bytes \<Rightarrow> segment_info" where
  "new_segment name index bs =
     \<lparr>sg_path = name, sg_segment_index = index, sg_bytes = of_nat (length bs), sg_first_sequence = 0,
      sg_last_sequence = 0, sg_records = 0, sg_status = RS_Missing, sg_usable = False\<rparr>"

lemma segment_entries_put:
  assumes "parse_segment_index name = Some i" and "segment_entries files = [] \<or> segment_entries files = [new_segment name i old]"
  shows "segment_entries (AList.update name bs files) = [new_segment name i bs]"
  using assms(2)
proof (induction files)
  case (Cons entry files)
  obtain n b where entry: "entry = (n, b)" by fastforce
  show ?case
  proof (cases "parse_segment_index n")
    case None
    then show ?thesis using Cons assms(1) by (auto simp: entry)
  next
    case (Some j)
    then have "segment_entries files = []" "n = name" using Cons.prems by (auto simp: entry new_segment_def)
    then show ?thesis using assms(1) by (simp add: entry new_segment_def)
  qed
qed (simp add: assms(1) new_segment_def)

text \<open>Live steps change no segment file of the directory; the open one lives in the store.\<close>

definition dir_kept :: "runtime \<Rightarrow> runtime \<Rightarrow> bool" where
  "dir_kept rt rt' \<longleftrightarrow> sd_exists (rt_dir rt') = sd_exists (rt_dir rt) \<and> sd_listable (rt_dir rt') = sd_listable (rt_dir rt)
     \<and> segment_entries (sd_files (rt_dir rt')) = segment_entries (sd_files (rt_dir rt))"

lemma snapshot_names [simp]:
  "parse_segment_index default_snapshot_path = None" "parse_segment_index (default_snapshot_path @ ''.tmp'') = None"
  by (simp_all add: parse_segment_index_def default_snapshot_path_def)

lemma snapshot_write_segments:
  "snapshot_write default_snapshot_path f covered cfg io d = (st, d') \<Longrightarrow>
     sd_exists d' = sd_exists d \<and> sd_listable d' = sd_listable d \<and> segment_entries (sd_files d') = segment_entries (sd_files d)"
  by (auto simp: snapshot_write_def Let_def dir_put_def dir_remove_def segment_entries_update segment_entries_delete
      split: if_splits prod.splits)

lemma compact_dir: "dir_kept rt (snd (compact io rt))"
proof -
  obtain st d where w: "snapshot_write default_snapshot_path (the (rt_fabric rt)) (fs_last_sequence (the (rt_store rt)))
      (rc_store (rt_config rt)) io (rt_dir rt) = (st, d)" by fastforce
  show ?thesis
    using snapshot_write_segments [OF w] w by (cases "rt_store rt") (simp_all add: compact_def dir_kept_def Let_def)
qed

lemma journal_append_dir: "journal_append ap rt = (st, rt') \<Longrightarrow> rt_dir rt' = rt_dir rt"
  by (auto simp: journal_append_def Let_def split: option.splits prod.splits if_splits)

lemma publish_dir: "rt_dir (snd (publish_command c f ix r rt)) = rt_dir rt"
  by (simp add: publish_command_def Let_def)

lemma apply_dir: "rt_dir (snd (apply_locked c now io rt)) = rt_dir rt"
  using apply_cases [of c now rt io]
proof (elim disjE exE conjE)
  assume "not_committed c rt (apply_locked c now io rt)"
  then show ?thesis using counters_only_view unfolding not_committed_def by blast
next
  fix f ix
  assume out: "apply_locked c now io rt = commit_command c f ix io rt"
  show ?thesis unfolding out
    by (cases rule: commit_cases [of c f ix io rt]) (auto simp: publish_dir dest: journal_append_dir)
qed

lemma live_step_dir: "live_step P rt rt' \<Longrightarrow> dir_kept rt rt'"
proof (induction rule: live_step.induct)
  case (applied c now io rt)
  show ?case by (simp add: dir_kept_def apply_dir)
next
  case (acquire rt requester ttl now io)
  show ?case
    using acquire_cases [of requester ttl now io rt]
  proof (elim disjE exE conjE)
    fix lease st rt1
    assume j: "journal_append (append_record RT_Fence (lease_payload lease) (rt_incarnation rt) (rt_epoch rt)
             (rt_generation rt) io) (rt\<lparr>rt_lease_counter := rt_lease_counter rt + 1, rt_lease := Some lease\<rparr>) = (st, rt1)"
      and out: "acquire_authority requester ttl now io rt
             = (if status_ok st then (Inr lease, rt1) else (Inl st, rt1\<lparr>rt_lease := None\<rparr>))"
    show ?thesis unfolding out using journal_append_dir [OF j] by (simp add: dir_kept_def)
  qed (auto simp: dir_kept_def)
next
  case (revoke rt io)
  show ?case by (auto simp: revoke_authority_def dir_kept_def dest!: journal_append_dir split: option.split prod.split)
next
  case (install f rt replace io)
  show ?case by (cases rule: install_cases [of f replace io rt]) (simp_all add: dir_kept_def)
next
  case (compactor rt sio)
  show ?case using compact_dir by (simp add: compactor_pass_def dir_kept_def)
next
  case (authorize rt from_leaf to_leaf c0 ttl now)
  show ?case by (auto simp: authorize_path_def assess_paths_def dir_kept_def Let_def split: option.split sum.split)
next
  case (compact rt sio)
  show ?case by (rule compact_dir)
qed (simp_all add: sweep_def assess_paths_def eligible_spines_def runtime_health_def set_fault_point_def
    dir_kept_def Let_def split: option.split)

lemma live_run_dir: "live_run P rt rt' \<Longrightarrow> dir_kept rt rt'"
  by (induction rule: live_run.induct) (auto simp: dir_kept_def dest!: live_step_dir)


section \<open>Recovering one segment\<close>

lemma scan_epoch:
  "scan_journal cfg inc base off chain sq r (Some rs) = (r', Some rs') \<Longrightarrow>
     \<exists>new. rs' = rs @ new \<and> rpt_last_epoch r' = (if new = [] then rpt_last_epoch r else rr_epoch (last new))"
proof (induction cfg inc base off chain sq r "Some rs" arbitrary: rs r' rs' rule: scan_journal.induct)
  case (1 cfg inc base off chain sq r rs)
  show ?case
  proof (cases "base = [] \<or> trailer_at base \<or> (\<exists>s. scan_record cfg base off chain sq (replay_full (Some rs)) = Inl s)")
    case True
    then have "rs' = rs \<and> rpt_last_epoch r' = rpt_last_epoch r"
      using 1(2) by (subst (asm) scan_journal.simps)
        (auto simp: scan_trailer_def stop_scan_def Let_def split: if_splits prod.splits sum.splits)
    then show ?thesis by simp
  next
    case False
    then obtain sn where sn: "base \<noteq> []" "\<not> trailer_at base"
      "scan_record cfg base off chain sq (replay_full (Some rs)) = Inr sn"
      by (meson sum.exhaust)
    have run: "scan_journal cfg inc (drop (record_total sn) base) (off + record_total sn) (sn_digest sn) (sq + 1)
        (note_record sn r) (Some (rs @ [recovered_of inc sn])) = (r', Some rs')"
      using 1(2) sn by (subst (asm) scan_journal.simps) simp
    obtain new where new: "rs' = (rs @ [recovered_of inc sn]) @ new"
      "rpt_last_epoch r' = (if new = [] then rpt_last_epoch (note_record sn r) else rr_epoch (last new))"
      using 1(1) [OF sn(1,2,3) _ run] by auto
    then show ?thesis
      by (intro exI [of _ "recovered_of inc sn # new"]) (simp add: recovered_of_def note_record_def Let_def)
  qed
qed

lemma recover_epoch:
  assumes "recover_bytes cfg bs True = (r, Some recs)" and "recs \<noteq> []"
  shows "rpt_last_epoch r = rr_epoch (last recs)"
proof -
  obtain inc base off chain sq r0 r1 where sc: "scan_journal cfg inc base off chain sq r0 (Some []) = (r1, Some recs)"
    and ep: "rpt_last_epoch r = rpt_last_epoch r1"
    using assms by (auto simp: recover_bytes_def Let_def split: if_splits sum.splits prod.splits)
  show ?thesis using scan_epoch [OF sc] ep assms(2) by auto
qed

lemma chain_records_epoch:
  "list_all (\<lambda>e. je_epoch e = ep) es \<Longrightarrow> list_all (\<lambda>r. rr_epoch r = ep) (chain_records inc chain sq es)"
  by (induction es arbitrary: chain sq) simp_all

lemma feed_collects:
  "length acc + length rs \<le> 1000000 \<Longrightarrow> feed_records collect_record False watermark rs acc = (status_success, acc @ rs)"
  by (induction rs arbitrary: acc) (simp_all add: collect_record_def)

text \<open>A directory whose only segment is one that has not been closed.\<close>

definition single_segment :: "string \<Rightarrow> u32 \<Rightarrow> bytes \<Rightarrow> state_dir \<Rightarrow> bool" where
  "single_segment name index bs d \<longleftrightarrow> sd_exists d \<and> sd_listable d \<and> dir_get d name = Some bs
     \<and> segment_entries (sd_files d) = [new_segment name index bs] \<and> dir_get d default_snapshot_path = None"

lemma recover_single:
  assumes d: "single_segment name index bs d" and "faults name = None" and "1 \<le> unat (cfg_max_segments cfg)"
    and r: "recover_bytes cfg bs True = (r, Some recs)" and st: "rpt_status r \<in> {RS_CrashWithoutTrailer, RS_TruncatedTail}"
    and "length recs \<le> 1000000"
  shows "\<exists>oc. recover_store faults d cfg (Some collect_record) [] = (Inr oc, recs) \<and> \<not> ro_snapshot_accepted oc
     \<and> \<not> recovery_fatal (rpt_status (ro_report oc)) \<and> length (ro_segments oc) = 1
     \<and> rpt_last_epoch (ro_report oc) = rpt_last_epoch r"
proof -
  have snap: "recover_snapshot faults d cfg = \<lparr>ro_report = empty_recovery, ro_segments = [], ro_snapshot_accepted = False,
      ro_snapshot_watermark = 0, ro_snapshot_fabric = None, ro_prunable_segments = []\<rparr>"
    using d by (simp add: single_segment_def recover_snapshot_def Let_def)
  have lst: "list_journal_segments d (cfg_max_segments cfg) = Inr [new_segment name index bs]"
    using d assms(3) by (simp add: single_segment_def list_journal_segments_def Let_def std_sort_def)
  have jr: "recover_journal faults d name cfg True = (r, Some recs)"
    using d assms(2) r by (simp add: single_segment_def recover_journal_def read_file_bounded_def Let_def)
  have feed: "feed_records collect_record False 0 recs [] = (status_success, recs)"
    using feed_collects [of "[]" recs 0] assms(6) by simp
  let ?m = "merge_report r empty_recovery"
  have m: "rpt_status ?m = rpt_status r" "rpt_last_epoch ?m = rpt_last_epoch r"
    using st by (auto simp: merge_report_def Let_def empty_recovery_def word_gt_0)
  show ?thesis
    using d st m unfolding recover_store_def snap lst
    by (auto simp: single_segment_def new_segment_def jr feed finish_recovery_def Let_def recovery_fatal_def)
qed

text \<open>What the next process needs of its operating system and configuration to read the open segment back.\<close>

definition readable :: "start_env \<Rightarrow> runtime \<Rightarrow> fabric_store \<Rightarrow> bool" where
  "readable env rt s \<longleftrightarrow> se_faults env (default_journal_path (fs_segment_index s)) = None
     \<and> 2 \<le> unat (cfg_max_segments (rc_store (rt_config rt)))
     \<and> length (fs_disk s) \<le> unat (cfg_max_recovery_bytes (rc_store (rt_config rt)))
     \<and> length (fs_disk s) \<le> 112 * kReplayBound"

lemma image_entries: "112 * length es \<le> length (segment_image inc seg created first_seq es)"
proof -
  have "length chain = 32 \<Longrightarrow> 112 * length es \<le> length (chain_enc chain sq es)" for chain sq
  proof (induction es arbitrary: chain sq)
    case (Cons e es)
    from Cons.IH [of "entry_digest chain sq e" "sq + 1"] Cons.prems show ?case by (simp add: length_entry_enc)
  qed simp
  then show ?thesis by (simp add: segment_image_def Let_def trans_le_add2)
qed

lemma recover_held:
  assumes "store_holds created s es" and "es \<noteq> []" and "list_all (\<lambda>e. je_epoch e = ep) es"
    and "length (fs_disk s) \<le> unat (cfg_max_recovery_bytes (fs_config s))" and "length es \<le> kReplayBound"
  obtains r chain where "recover_bytes (fs_config s) (fs_disk s) True
      = (r, Some (chain_records (fs_incarnation s) chain (fs_first_sequence s) es))"
    "rpt_status r = RS_CrashWithoutTrailer" "rpt_last_epoch r = ep"
proof -
  let ?recs = "segment_records (fs_incarnation s) (fs_segment_index s) created (fs_first_sequence s) es"
  have "fs_first_sequence s \<noteq> 0" "list_all (entry_fits (fs_config s)) es" and disk: "fs_disk s = store_image created s es"
    using assms(1) by (auto simp: store_holds_def store_base_def)
  then obtain r where r: "recover_bytes (fs_config s) (fs_disk s) True = (r, Some ?recs)" "rpt_status r = RS_CrashWithoutTrailer"
    using recover_whole [of "fs_first_sequence s" "fs_config s" es "fs_incarnation s" "fs_segment_index s" created] assms(4,5)
    unfolding disk store_image_def by blast
  have ne: "?recs \<noteq> []" using assms(2) by (cases es) (simp_all add: segment_records_def)
  have "list_all (\<lambda>r. rr_epoch r = ep) ?recs" unfolding segment_records_def by (rule chain_records_epoch [OF assms(3)])
  then have "rr_epoch (last ?recs) = ep" using last_in_set [OF ne] by (simp add: list_all_iff)
  then show thesis using that r recover_epoch [OF r(1) ne] unfolding segment_records_def by simp
qed

lemma tracked_start:
  assumes t: "tracks d0 rt es" and "rs_dedup s0 = forget_tokens d0" and "rs_epoch s0 \<le> rt_epoch rt"
  obtains s where "replay_records (rt_config rt) (chain_records (rt_incarnation rt) chain sq es) s0 = (status_success, s)"
    "rs_fabric s = rt_fabric rt" "rs_dedup s = forget_tokens (rt_dedup rt)" "rs_epoch s = rt_epoch rt"
  using assms unfolding tracks_def replay_chain by metis

lemma crashed_recover:
  assumes j: "journaled created seg [] rt es" and s: "rt_store rt = Some s" "\<not> fs_poisoned s" "es \<noteq> []" and "persistent rt"
    and d: "single_segment (default_journal_path seg) seg (fs_disk s) (rt_dir rt0)"
    and rt0: "rt_config rt0 = rt_config rt" "rt_dedup rt0 = []" and ok: "readable env rt s"
  obtains rs rt1 where "start_recover env rt0 = (Inr rs, rt1)" "rc_recovered_fabric rs = rt_fabric rt"
    "rt_dedup rt1 = forget_tokens (rt_dedup rt)" "rc_recovered_epoch rs = rt_epoch rt"
proof -
  let ?cfg = "rc_store (rt_config rt)"
  have tr: "tracks [] rt es" and ep: "list_all (\<lambda>e. je_epoch e = rt_epoch rt) es" and h: "store_holds created s es"
    and fr: "fs_config s = ?cfg" "fs_incarnation s = rt_incarnation rt" "fs_segment_index s = seg"
    using j s by (auto simp: journaled_def store_for_def store_torn_def)
  have len: "length es \<le> kReplayBound"
    using image_entries [of es "fs_incarnation s" "fs_segment_index s" created "fs_first_sequence s"] ok h
    by (simp add: readable_def store_holds_def store_image_def)
  have fits: "length (fs_disk s) \<le> unat (cfg_max_recovery_bytes (fs_config s))" using ok by (simp add: readable_def fr)
  obtain r chain where r: "recover_bytes (fs_config s) (fs_disk s) True
      = (r, Some (chain_records (fs_incarnation s) chain (fs_first_sequence s) es))"
    "rpt_status r = RS_CrashWithoutTrailer" "rpt_last_epoch r = rt_epoch rt"
    by (rule recover_held [OF h s(3) ep fits len])
  let ?recs = "chain_records (fs_incarnation s) chain (fs_first_sequence s) es"
  obtain oc where oc: "recover_store (se_faults env) (rt_dir rt0) ?cfg (Some collect_record) [] = (Inr oc, ?recs)"
    "\<not> ro_snapshot_accepted oc" "\<not> recovery_fatal (rpt_status (ro_report oc))" "length (ro_segments oc) = 1"
    "rpt_last_epoch (ro_report oc) = rt_epoch rt"
    using recover_single [OF d, of "se_faults env" ?cfg r ?recs] r ok len
    by (auto simp: readable_def fr kReplayBound_def)
  let ?s0 = "\<lparr>rs_fabric = None, rs_epoch = rt_epoch rt, rs_commands = 0, rs_dedup = [], rs_recovery = ro_report oc\<rparr>"
  obtain q where q: "replay_records (rt_config rt) ?recs ?s0 = (status_success, q)" "rs_fabric q = rt_fabric rt"
    "rs_dedup q = forget_tokens (rt_dedup rt)" "rs_epoch q = rt_epoch rt"
    using tracked_start [OF tr, of ?s0 chain "fs_first_sequence s"] by (auto simp: fr forget_tokens_def)
  have prune: "start_prune env (rt_config rt) oc q d' = (Inr (rs_recovery q, d'), d')" for d'
    using ok oc(4) by (auto simp: start_prune_def readable_def split: option.split)
  have per: "persistent rt0" using assms(5) rt0 by (simp add: persistent_def)
  show thesis
    by (rule that, simp add: start_recover_def Let_def per rt0 oc q prune) simp_all
qed

section \<open>The first boot\<close>

definition fresh_runtime :: "runtime \<Rightarrow> bool" where
  "fresh_runtime rt \<longleftrightarrow> \<not> rt_started rt \<and> rt_store rt = None \<and> sd_files (rt_dir rt) = [] \<and> sd_listable (rt_dir rt)"

lemma first_boot_recover:
  assumes "fresh_runtime rt"
  obtains rep where "start_recover env (start_reset env rt) =
    (Inr \<lparr>rc_recovered_fabric = None, rc_next_sequence = 1, rc_next_segment = 1, rc_recovered_epoch = 0\<rparr>,
     (start_reset env rt)\<lparr>rt_recovery := rep\<rparr>)"
proof -
  let ?rt = "start_reset env rt" and ?cfg = "rc_store (rt_config rt)"
  have rt: "rt_dir ?rt = rt_dir rt" "rt_dedup ?rt = []" "rt_config ?rt = rt_config rt" "persistent ?rt = persistent rt"
    using assms by (simp_all add: start_reset_def visible_dir_def fresh_runtime_def persistent_def)
  have nof: "dir_get (rt_dir rt) default_snapshot_path = None" using assms by (simp add: fresh_runtime_def dir_get_def)
  have lst: "sd_exists (rt_dir rt) \<Longrightarrow> list_journal_segments (rt_dir rt) (cfg_max_segments ?cfg) = Inr []"
    using assms by (simp add: fresh_runtime_def list_journal_segments_def std_sort_def Let_def)
  have "\<exists>oc. recover_store (se_faults env) (rt_dir rt) ?cfg (Some collect_record) [] = (Inr oc, [])
     \<and> ro_segments oc = [] \<and> \<not> ro_snapshot_accepted oc \<and> rpt_status (ro_report oc) = RS_Missing \<and> rpt_last_epoch (ro_report oc) = 0"
    using nof lst by (cases "sd_exists (rt_dir rt)")
      (simp_all add: recover_store_def recover_snapshot_def empty_recovery_def Let_def)
  then obtain oc where oc: "recover_store (se_faults env) (rt_dir rt) ?cfg (Some collect_record) [] = (Inr oc, [])"
    "ro_segments oc = []" "\<not> ro_snapshot_accepted oc" "rpt_status (ro_report oc) = RS_Missing" "rpt_last_epoch (ro_report oc) = 0"
    by blast
  show thesis
  proof (cases "persistent rt")
    case True
    show thesis
      by (rule that, simp add: start_recover_def Let_def rt True oc recovery_fatal_def start_prune_def recovered_positions_def)
        (simp add: rt(1) [symmetric] rt(2) [symmetric] del: rt)
  next
    case False
    show thesis using False by (intro that [of "rt_recovery ?rt"]) (simp add: start_recover_def rt)
  qed
qed

text \<open>A segment that tracks the published state is never without entries.\<close>

lemma journaled_nonempty: "journaled created seg d0 rt es \<Longrightarrow> es \<noteq> []"
proof
  assume j: "journaled created seg d0 rt es" and "es = []"
  let ?s0 = "\<lparr>rs_fabric = None, rs_epoch = 0, rs_commands = 0, rs_dedup = forget_tokens d0, rs_recovery = empty_recovery\<rparr>"
  obtain f where "rt_fabric rt = Some f" and "tracks d0 rt es" using j by (auto simp: journaled_def)
  then show False
    using tracked_start [of d0 rt es ?s0 "[]" 0] \<open>es = []\<close> by auto
qed

lemma path_not_snapshot: "default_journal_path i \<noteq> default_snapshot_path"
  by (simp add: default_journal_path_def default_snapshot_path_def)

lemma store_create_dir:
  assumes "store_create cfg inc seg first_seq io d = (Inr s, d')" and "sd_files d = []" and "sd_listable d" and "unat seg < 10 ^ 8"
  shows "sd_exists d' \<and> sd_listable d' \<and> segment_entries (sd_files d') = [new_segment (default_journal_path seg) seg (fs_disk s)]
    \<and> dir_get d' default_snapshot_path = None"
proof -
  let ?d = "if sd_exists d then d else d\<lparr>sd_exists := True, sd_listable := True, sd_files := []\<rparr>"
  have "d' = dir_put (default_journal_path seg) (fs_disk s) ?d"
    using assms by (auto simp: store_create_def Let_def split: if_splits sum.splits prod.splits)
  then show ?thesis using assms(2-4) path_not_snapshot [of seg]
    by (auto simp: dir_put_def dir_get_def new_segment_def parse_default_path)
qed

lemma first_boot:
  assumes "start env rt0 = (st, rt)" and "rt_started rt" and "fresh_runtime rt0" and "persistent rt0"
    and "recoverable (rc_limits (rt_config rt0)) (the (rt_fabric rt))"
    and "unat (cfg_max_record_bytes (rc_store (rt_config rt0))) < 2 ^ 32"
  obtains created es s where "journaled created 1 [] rt es" "rt_config rt = rt_config rt0" "rt_epoch rt = 1"
    "sd_exists (rt_dir rt)" "sd_listable (rt_dir rt)"
    "segment_entries (sd_files (rt_dir rt)) = [new_segment (default_journal_path 1) 1 s]"
proof -
  have ns: "\<not> rt_started rt0" using assms(3) by (simp add: fresh_runtime_def)
  obtain rs rt1 f ix rt2 st2 where r: "start_recover env (start_reset env rt0) = (Inr rs, rt1)"
    and j: "start_journal env rs f (rt1\<lparr>rt_fabric := Some f, rt_generation := fab_generation f, rt_index := Some ix,
       rt_epoch := rc_recovered_epoch rs + 1\<rparr>) = (st2, rt2)" and ok: "status_ok st2"
    and rt: "rt = rt2\<lparr>rt_lease := None, rt_started_at_ms := se_monotonic_ms env, rt_started := True,
       rt_workers := min 2 (unat (rc_worker_threads (rt_config rt2)))\<rparr>"
    by (rule start_success [OF assms(1,2) ns])
  obtain rep where rs: "rs = \<lparr>rc_recovered_fabric = None, rc_next_sequence = 1, rc_next_segment = 1, rc_recovered_epoch = 0\<rparr>"
    and rt1: "rt1 = (start_reset env rt0)\<lparr>rt_recovery := rep\<rparr>"
    using first_boot_recover [OF assms(3), of env] r by auto
  let ?rt = "rt1\<lparr>rt_fabric := Some f, rt_generation := fab_generation f, rt_index := Some ix, rt_epoch := rc_recovered_epoch rs + 1\<rparr>"
  have v: "same_view ?rt rt2" using start_journal_frame [OF j] by simp
  have cfg: "rt_config ?rt = rt_config rt0" "persistent ?rt" "rt_dedup ?rt = []" "rt_epoch ?rt = 1"
    using assms(4) by (simp_all add: rt1 rs start_reset_def persistent_def)
  have rec: "recoverable (rc_limits (rt_config ?rt)) f" using v assms(5) cfg by (simp add: rt same_view_def)
  have "journaled (ci_now_unix_ms (se_create env)) 1 [] rt2 (boot_entries f ?rt)"
    using start_journal_writes [OF j ok cfg(2) _ rec] assms(6) cfg by (simp add: rs)
  then have jn: "journaled (ci_now_unix_ms (se_create env)) 1 [] rt (boot_entries f ?rt)"
    by (auto simp: journaled_def tracks_def store_for_def rt)
  obtain s d where "store_create (rc_store (rt_config ?rt)) (rt_incarnation ?rt) 1 1 (se_create env) (rt_dir ?rt) = (Inr s, d)"
    "rt_dir rt2 = d"
    by (rule start_journal_cases [OF j ok cfg(2)]) (simp add: rs)
  then have "sd_exists (rt_dir rt) \<and> sd_listable (rt_dir rt)
      \<and> segment_entries (sd_files (rt_dir rt)) = [new_segment (default_journal_path 1) 1 (fs_disk s)]"
    using store_create_dir [of "rc_store (rt_config ?rt)" "rt_incarnation ?rt" 1 1 "se_create env" "rt_dir ?rt" s d] assms(3)
    by (simp add: rt rt1 start_reset_def visible_dir_def fresh_runtime_def)
  moreover have "rt_config rt = rt_config rt0" "rt_epoch rt = 1" using v cfg by (simp_all add: rt same_view_def)
  ultimately show thesis using that jn by blast
qed

lemma first_boot_store:
  assumes "start env rt0 = (st, rt)" and "rt_started rt" and "fresh_runtime rt0" and "persistent rt0"
    and "unat (cfg_max_record_bytes (rc_store (rt_config rt0))) < 2 ^ 32"
  obtains s where "rt_store rt = Some s" "\<not> fs_poisoned s" "fs_segment_index s = 1"
    "length (fs_disk s) = 352 + length (serialize_fabric (the (rt_fabric rt)))"
    "dir_get (rt_dir rt) default_snapshot_path = None" "rt_config rt = rt_config rt0"
proof -
  have ns: "\<not> rt_started rt0" using assms(3) by (simp add: fresh_runtime_def)
  obtain rs rt1 f ix rt2 st2 where r: "start_recover env (start_reset env rt0) = (Inr rs, rt1)"
    and j: "start_journal env rs f (rt1\<lparr>rt_fabric := Some f, rt_generation := fab_generation f, rt_index := Some ix,
       rt_epoch := rc_recovered_epoch rs + 1\<rparr>) = (st2, rt2)" and ok: "status_ok st2"
    and rt: "rt = rt2\<lparr>rt_lease := None, rt_started_at_ms := se_monotonic_ms env, rt_started := True,
       rt_workers := min 2 (unat (rc_worker_threads (rt_config rt2)))\<rparr>"
    by (rule start_success [OF assms(1,2) ns])
  obtain rep where rs: "rs = \<lparr>rc_recovered_fabric = None, rc_next_sequence = 1, rc_next_segment = 1, rc_recovered_epoch = 0\<rparr>"
    and rt1: "rt1 = (start_reset env rt0)\<lparr>rt_recovery := rep\<rparr>"
    using first_boot_recover [OF assms(3), of env] r by auto
  let ?rt = "rt1\<lparr>rt_fabric := Some f, rt_generation := fab_generation f, rt_index := Some ix, rt_epoch := rc_recovered_epoch rs + 1\<rparr>"
  have cfg: "rt_config ?rt = rt_config rt0" "persistent ?rt" "rc_next_sequence rs \<noteq> 0"
    using assms(4) by (simp_all add: rt1 rs start_reset_def persistent_def)
  obtain s where s: "rt_store rt2 = Some s" "store_holds (ci_now_unix_ms (se_create env)) s (boot_entries f ?rt)"
    "store_for (rc_next_segment rs) ?rt s"
    by (rule start_journal_store [OF j ok cfg(2,3)]) (use assms(5) cfg(1) in simp)
  obtain s0 d where "store_create (rc_store (rt_config ?rt)) (rt_incarnation ?rt) 1 1 (se_create env) (rt_dir ?rt) = (Inr s0, d)"
    "rt_dir rt2 = d"
    by (rule start_journal_cases [OF j ok cfg(2)]) (simp add: rs)
  then have "dir_get (rt_dir rt2) default_snapshot_path = None"
    using store_create_dir [of "rc_store (rt_config ?rt)" "rt_incarnation ?rt" 1 1 "se_create env" "rt_dir ?rt" s0 d] assms(3)
    by (simp add: rt1 start_reset_def visible_dir_def fresh_runtime_def)
  moreover have "length (fs_disk s) = 352 + length (serialize_fabric f)"
    using s(2) by (simp add: store_holds_def store_image_def segment_image_def boot_entries_def length_entry_enc kHeaderBytes_def Let_def)
  moreover have "rt_fabric rt2 = Some f" "rt_config rt2 = rt_config rt0"
    using start_journal_frame [OF j] cfg(1) by (simp_all add: same_view_def)
  ultimately show thesis
    using s by (intro that [of s]) (simp_all add: rt store_holds_def store_for_def rs)
qed

text \<open>Across a crash: a process boots in an empty directory, runs for any number of steps and is
  lost; the next process recovers its fabric, its exactly-once table and its epoch.\<close>

lemma crash_recovery:
  assumes "start env rt0 = (st, rt1)" and "rt_started rt1" and "fresh_runtime rt0" and "persistent rt0"
    and "recoverable (rc_limits (rt_config rt0)) (the (rt_fabric rt1))"
    and "unat (cfg_max_record_bytes (rc_store (rt_config rt0))) < 2 ^ 32"
    and "live_run (recoverable (rc_limits (rt_config rt0))) rt1 rt"
    and "rt_store rt = Some s" and "\<not> fs_poisoned s" and "dir_get (rt_dir rt) default_snapshot_path = None"
    and "rt_config rt2 = rt_config rt" and "rt_store rt2 = None" and "rt_dir rt2 = visible_dir rt" and "readable env2 rt s"
  shows "\<exists>rs rt3. start_recover env2 (start_reset env2 rt2) = (Inr rs, rt3) \<and> rc_recovered_fabric rs = rt_fabric rt
    \<and> rt_dedup rt3 = forget_tokens (rt_dedup rt) \<and> rc_recovered_epoch rs = rt_epoch rt"
proof -
  obtain created es1 b where j1: "journaled created 1 [] rt1 es1" and cfg: "rt_config rt1 = rt_config rt0"
    and d1: "sd_exists (rt_dir rt1)" "sd_listable (rt_dir rt1)"
      "segment_entries (sd_files (rt_dir rt1)) = [new_segment (default_journal_path 1) 1 b]"
    by (rule first_boot [OF assms(1-6)])
  obtain es where j: "journaled created 1 [] rt es" using journaled_run [OF assms(7) cfg assms(6) j1] by blast
  have cfg': "rt_config rt = rt_config rt0" using live_run_kept [OF assms(7)] cfg by (simp add: kept_def)
  have seg: "fs_segment_index s = 1" using j assms(8) by (auto simp: journaled_def store_for_def)
  have d: "rt_dir (start_reset env2 rt2) = dir_put (default_journal_path 1) (fs_disk s) (rt_dir rt)"
    using assms(8,12,13) seg by (simp add: start_reset_def visible_dir_def store_files_def)
  have kept: "sd_exists (rt_dir rt)" "sd_listable (rt_dir rt)"
    "segment_entries (sd_files (rt_dir rt)) = [new_segment (default_journal_path 1) 1 b]"
    using live_run_dir [OF assms(7)] d1 by (simp_all add: dir_kept_def)
  have "single_segment (default_journal_path 1) 1 (fs_disk s) (rt_dir (start_reset env2 rt2))"
    unfolding single_segment_def d using kept assms(10) path_not_snapshot [symmetric]
      segment_entries_put [of "default_journal_path 1" 1 "sd_files (rt_dir rt)" b "fs_disk s"]
    by (simp add: dir_put_def parse_default_path dir_get_def update_conv')
  moreover have "persistent rt" using assms(4) cfg' by (simp add: persistent_def)
  ultimately show ?thesis
    using crashed_recover [OF j assms(8,9) journaled_nonempty [OF j], of "start_reset env2 rt2" env2] assms(11,14)
    by (fastforce simp: start_reset_def)
qed

section \<open>Commands\<close>

lemma apply_outcome:
  assumes "apply_locked c now io rt = (Some r, rt')"
  shows "(\<exists>f ix. admitted c now rt f ix \<and> cr_mutated r \<and> rt_fabric rt' = Some f \<and> rt_index rt' = Some ix
            \<and> rt_generation rt' = fab_generation f \<and> rt_dedup rt' = rt_dedup rt @ [(cm_request_id c, r)])
       \<or> (same_view rt rt' \<and> (\<not> cr_mutated r
            \<or> (\<exists>rec. map_of (rt_dedup rt) (cm_request_id c) = Some rec \<and> r = rec\<lparr>cr_deduplicated := True\<rparr>)))"
  using apply_cases [of c now rt io]
proof (elim disjE exE conjE)
  assume "not_committed c rt (apply_locked c now io rt)"
  then show ?thesis using assms counters_only_view by (auto simp: not_committed_def)
next
  fix f ix
  assume adm: "admitted c now rt f ix" and out: "apply_locked c now io rt = commit_command c f ix io rt"
  show ?thesis
  proof (cases rule: commit_cases [of c f ix io rt])
    case (published st rt1)
    obtain r' rt2 where p: "publish_command c f ix (commit_result c f rt) rt1 = (r', rt2)" by fastforce
    have r: "r' = r" "rt2 = rt'" using published(3,4) p assms out by auto
    have "cr_mutated r"
      using arg_cong [OF publish_fields(9) [OF p], of cr_mutated] r by (simp add: forget_token_def commit_result_def)
    then show ?thesis using r publish_fields [OF p] journal_append_view [OF published(1)] adm
      by (auto simp: same_view_def)
  next
    case (refused st rt1)
    then show ?thesis using assms out journal_append_view [OF refused(1)]
      by (auto simp: command_refused_def same_view_def)
  qed (use assms out in auto)
qed

lemma answered_once:
  assumes "apply_locked c now io rt = (Some r, rt1)" and "cr_mutated r" and "\<not> cr_deduplicated r"
    and "live_run installs rt1 rt2" and "cm_request_id again = cm_request_id c" and "rt_started rt2"
  shows "apply_locked again later io2 rt2 = (Some (r\<lparr>cr_deduplicated := True\<rparr>),
     rt2\<lparr>rt_commands_duplicated := rt_commands_duplicated rt2 + 1\<rparr>)"
proof -
  obtain f ix where adm: "admitted c now rt f ix" and d: "rt_dedup rt1 = rt_dedup rt @ [(cm_request_id c, r)]"
    by (rule committed_result [OF assms(1-3)])
  have "map_of (rt_dedup rt1) (cm_request_id c) = Some r" using adm by (auto simp: d admitted_def map_add_def)
  from kept_recorded [OF live_run_kept [OF assms(4)] this] show ?thesis
    using adm assms(5,6) by (intro recorded_answer) (simp_all add: admitted_def)
qed

lemma fenced_after_start:
  assumes "start env rt0 = (st, rt1)" and "rt_started rt1" and "\<not> rt_started rt0"
    and "start_recover env (start_reset env rt0) = (Inr rs, rt3)" and "live_run installs rt1 rt"
    and "tk_epoch t = rc_recovered_epoch rs"
  shows "ck_code (validate_authority t now rt) \<noteq> SC_Ok"
proof -
  obtain rs' rt' f ix rt2 st2 where r: "start_recover env (start_reset env rt0) = (Inr rs', rt')"
    and j: "start_journal env rs' f (rt'\<lparr>rt_fabric := Some f, rt_generation := fab_generation f, rt_index := Some ix,
       rt_epoch := rc_recovered_epoch rs' + 1\<rparr>) = (st2, rt2)"
    and rt1: "rt1 = rt2\<lparr>rt_lease := None, rt_started_at_ms := se_monotonic_ms env, rt_started := True,
       rt_workers := min 2 (unat (rc_worker_threads (rt_config rt2)))\<rparr>"
    by (rule start_success [OF assms(1-3)])
  have "rt_epoch rt1 = rc_recovered_epoch rs + 1"
    using start_journal_frame [OF j] r assms(4) by (simp add: rt1 same_view_def)
  then have "tk_epoch t \<noteq> rt_epoch rt" using live_run_kept [OF assms(5)] assms(6) by (simp add: kept_def)
  then show ?thesis by (simp add: validate_authority_def validate_token_def authority_context_locked_def)
qed

section \<open>A start that succeeds\<close>

text \<open>The operating system takes every byte of a write and a sync succeeds.\<close>

definition accepts :: "nat \<Rightarrow> write_io \<Rightarrow> bool" where
  "accepts n io \<longleftrightarrow> 128 \<le> wi_header io \<and> n \<le> wi_payload io \<and> wi_flush io \<and> status_ok (wi_sync io)"

lemma append_accepted:
  fixes e :: journal_entry
  assumes "store_holds created s es" and "\<not> append_refused (je_payload e) inc s es" and "accepts (length (je_payload e)) io"
  shows "\<exists>s'. append_record (je_type e) (je_payload e) inc (je_epoch e) (je_generation e) io s = (status_success, s')
    \<and> fs_records s' = fs_records s + 1"
proof -
  have "fs_open s" using assms(1) by (simp add: store_holds_def store_base_def)
  then show ?thesis
    using assms(3) unfolding append_record_run [OF assms(1,2)]
    by (auto simp: accepts_def write_all_def length_head_enc sync_locked_def)
qed

definition disk_works :: "start_env \<Rightarrow> fabric \<Rightarrow> bool" where
  "disk_works env f \<longleftrightarrow> ci_mkdir_error (se_create env) = None \<and> ci_open (se_create env) \<and> accepts 0 (ci_write (se_create env))
     \<and> accepts 0 (se_first_write env) \<and> accepts (length (serialize_fabric f)) (se_second_write env)"

definition roomy :: "store_config \<Rightarrow> fabric \<Rightarrow> bool" where
  "roomy cfg f \<longleftrightarrow> length (serialize_fabric f) \<le> unat (cfg_max_record_bytes cfg) \<and> unat (cfg_max_record_bytes cfg) < 2 ^ 32
     \<and> 2 \<le> unat (cfg_max_records_per_segment cfg)"

lemma store_create_works:
  assumes "\<not> incarnation_is_zero inc" and "disk_works env f" and "sd_exists d \<longrightarrow> dir_get d (default_journal_path seg) = None"
  obtains s d' where "store_create cfg inc seg first_seq (se_create env) d = (Inr s, d')"
    "open_segment cfg inc seg first_seq (ci_now_unix_ms (se_create env)) (ci_write (se_create env)) = Inr s" "fs_records s = 0"
proof -
  let ?io = "se_create env"
  have "\<exists>s. open_segment cfg inc seg first_seq (ci_now_unix_ms ?io) (ci_write ?io) = Inr s \<and> fs_records s = 0"
    using assms(2) by (simp add: open_segment_def Let_def write_all_def kHeaderBytes_def disk_works_def accepts_def)
  then obtain s where s: "open_segment cfg inc seg first_seq (ci_now_unix_ms ?io) (ci_write ?io) = Inr s" "fs_records s = 0"
    by blast
  have "\<exists>d'. store_create cfg inc seg first_seq ?io d = (Inr s, d')"
    using assms s by (cases "sd_exists d") (simp_all add: store_create_def Let_def disk_works_def dir_get_def)
  then show thesis using that s by blast
qed

lemma start_journal_works:
  assumes "persistent rt" and "\<not> incarnation_is_zero (rt_incarnation rt)" and io: "disk_works env f"
    and "sd_exists (rt_dir rt) \<longrightarrow> dir_get (rt_dir rt) (default_journal_path (rc_next_segment rs)) = None"
    and room: "roomy (rc_store (rt_config rt)) f" and sq: "rc_next_sequence rs \<noteq> 0" "unat (rc_next_sequence rs) + 2 \<le> 2 ^ 64"
  shows "\<exists>rt'. start_journal env rs f rt = (status_success, rt')"
proof -
  let ?cfg = "rc_store (rt_config rt)" and ?inc = "rt_incarnation rt" and ?now = "ci_now_unix_ms (se_create env)"
  let ?e0 = "\<lparr>je_type = RT_IncarnationStart, je_generation = rt_generation rt, je_epoch = rt_epoch rt, je_payload = []\<rparr>"
  let ?e1 = "\<lparr>je_type = RT_FabricSnapshot, je_generation = fab_generation f, je_epoch = rt_epoch rt, je_payload = serialize_fabric f\<rparr>"
  obtain s d where c: "store_create ?cfg ?inc (rc_next_segment rs) (rc_next_sequence rs) (se_create env) (rt_dir rt) = (Inr s, d)"
    "open_segment ?cfg ?inc (rc_next_segment rs) (rc_next_sequence rs) ?now (ci_write (se_create env)) = Inr s" "fs_records s = 0"
    by (rule store_create_works [OF assms(2-4)])
  have h0: "store_holds ?now s []" by (rule open_segment_holds [OF c(2) sq(1)])
  have cfg: "fs_config s = ?cfg" "fs_first_sequence s = rc_next_sequence rs" using store_create_opens(2) [OF c(1)] by simp_all
  have two: "0 < cfg_max_records_per_segment ?cfg" "1 < cfg_max_records_per_segment ?cfg"
    using room by (simp_all add: roomy_def word_less_nat_alt)
  have go: "\<not> append_refused (je_payload ?e0) ?inc s []"
    using assms(2) c(3) cfg sq(2) two(1) by (simp add: append_refused_def not_le)
  obtain s1 where s1: "append_record (je_type ?e0) (je_payload ?e0) ?inc (je_epoch ?e0) (je_generation ?e0) (se_first_write env) s
      = (status_success, s1)" "fs_records s1 = 1"
    using append_accepted [OF h0 go, of "se_first_write env"] io c(3) by (auto simp: disk_works_def)
  have h1: "store_holds ?now s1 ([] @ [?e0])" using append_record_cases [OF h0, of ?e0 ?inc "se_first_write env"] s1(1) by simp
  have fr: "fs_config s1 = ?cfg" "fs_first_sequence s1 = rc_next_sequence rs" using append_frame [OF s1(1)] cfg by simp_all
  have go1: "\<not> append_refused (je_payload ?e1) ?inc s1 ([] @ [?e0])"
    using assms(2) s1(2) fr sq(2) room two(2) by (simp add: append_refused_def roomy_def not_le)
  obtain s2 where "append_record (je_type ?e1) (je_payload ?e1) ?inc (je_epoch ?e1) (je_generation ?e1) (se_second_write env) s1
      = (status_success, s2)"
    using append_accepted [OF h1 go1, of "se_second_write env"] io by (auto simp: disk_works_def)
  then show ?thesis
    using assms(1) c(1) s1(1) fr(1) room by (simp add: start_journal_def append_fabric_def roomy_def Let_def)
qed

lemma first_boot_works:
  assumes "fresh_runtime rt" and f: "initial_fabric (start_reset env rt) = Inr f" and ix: "index_build (Some f) = Inr ix"
    and io: "persistent rt \<Longrightarrow> disk_works env f" "persistent rt \<Longrightarrow> roomy (rc_store (rt_config rt)) f"
  shows "\<exists>rt'. start env rt = (status_success, rt') \<and> rt_started rt' \<and> rt_fabric rt' = Some f \<and> rt_index rt' = Some ix
    \<and> rt_epoch rt' = 1 \<and> rt_lease rt' = None"
proof -
  let ?rs = "\<lparr>rc_recovered_fabric = None, rc_next_sequence = 1, rc_next_segment = 1, rc_recovered_epoch = 0\<rparr>"
  obtain rep where r: "start_recover env (start_reset env rt) = (Inr ?rs, (start_reset env rt)\<lparr>rt_recovery := rep\<rparr>)"
    by (rule first_boot_recover [OF assms(1)])
  let ?rt = "(start_reset env rt)\<lparr>rt_recovery := rep, rt_fabric := Some f, rt_generation := fab_generation f,
      rt_index := Some ix, rt_epoch := 1\<rparr>"
  have p: "persistent ?rt = persistent rt" "rc_store (rt_config ?rt) = rc_store (rt_config rt)"
    by (simp_all add: persistent_def start_reset_def)
  have "initial_fabric ((start_reset env rt)\<lparr>rt_recovery := rep\<rparr>) = Inr f" using f by (simp add: initial_fabric_def)
  moreover obtain rt' where j: "start_journal env ?rs f ?rt = (status_success, rt')"
  proof (cases "persistent rt")
    case True
    have "\<exists>rt'. start_journal env ?rs f ?rt = (status_success, rt')"
      using io [OF True] True assms(1) p
      by (intro start_journal_works) (simp_all add: start_reset_def mint_not_zero visible_dir_def fresh_runtime_def dir_get_def)
    then show thesis using that by blast
  next
    case False
    then show thesis using that p by (simp add: start_journal_def)
  qed
  ultimately have "start env rt = (status_success, rt'\<lparr>rt_lease := None, rt_started_at_ms := se_monotonic_ms env, rt_started := True,
      rt_workers := min 2 (unat (rc_worker_threads (rt_config rt')))\<rparr>)"
    using assms(1) r ix by (simp add: start_def start_publish_def fresh_runtime_def)
  moreover have "rt_fabric rt' = Some f" "rt_index rt' = Some ix" "rt_epoch rt' = 1"
    using start_journal_frame [OF j] by (simp_all add: same_view_def)
  ultimately show ?thesis by simp
qed

end
