(* ===== verification/SLF_Sample.thy ===== *)
theory SLF_Sample
  imports SLF_Journal
begin

text \<open>
  A small concrete fabric, two leaves and two spines in a full mesh, built with the builder
  operations themselves. The properties with hypotheses are applied to it, so that each of
  them is seen to speak about at least one fabric the code can hold.
\<close>

text \<open>Bounds small enough to be compared by evaluation.\<close>

definition sample_limits :: builder_limits where
  "sample_limits = \<lparr>lim_max_leaves = 8, lim_max_spines = 8, lim_max_ports = 16, lim_max_links = 16,
     lim_max_failure_domains = 4, lim_max_evidence_records = 8, lim_max_history_records = 4,
     lim_max_name_bytes = 32, lim_max_capacity_mbps = 1000000\<rparr>"

definition sample_leaf :: "leaf_id \<Rightarrow> string \<Rightarrow> leaf_record" where
  "sample_leaf i name = \<lparr>lf_id = i, lf_name = name, lf_role = LR_Tor, lf_role_incarnation = 1,
     lf_domain = 1, lf_state = NS_Active, lf_access_capacity_mbps = 100000, lf_access_link_count = 4,
     lf_generation = 1\<rparr>"

definition sample_spine :: "spine_id \<Rightarrow> string \<Rightarrow> spine_record" where
  "sample_spine i name = \<lparr>sp_id = i, sp_name = name, sp_role = SR_FabricSpine, sp_role_incarnation = 1,
     sp_domain = 1, sp_state = NS_Active, sp_fabric_capacity_mbps = 400000, sp_generation = 1\<rparr>"

definition sample_port :: "port_id \<Rightarrow> node_key \<Rightarrow> port_record" where
  "sample_port i owner = \<lparr>pt_id = i, pt_owner = owner, pt_speed_mbps = 100000, pt_admin = PA_Enabled,
     pt_generation = 1\<rparr>"

definition sample_link :: "link_id \<Rightarrow> leaf_id \<Rightarrow> port_id \<Rightarrow> spine_id \<Rightarrow> port_id \<Rightarrow> link_record" where
  "sample_link i leaf pa spine pb = \<lparr>lk_id = i, lk_a = leaf_key leaf, lk_port_a = pa, lk_b = spine_key spine,
     lk_port_b = pb, lk_cls = LC_LeafSpine, lk_admin = LA_Enabled, lk_declared_speed_mbps = 0,
     lk_generation = 1\<rparr>"

definition sample_domain :: failure_domain_record where
  "sample_domain = \<lparr>fd_id = 1, fd_name = ''row-a'', fd_generation = 1\<rparr>"

definition sample_evidence :: link_evidence where
  "sample_evidence = \<lparr>ev_link = 1, ev_observed = LO_Up, ev_generation = 1,
     ev_observer = Incarnation 1 2, ev_epoch = 1, ev_observed_seq = 1, ev_observed_at_unix_ms = 1000\<rparr>"

definition sample_nodes :: fabric_builder where
  "sample_nodes =
     (let b0 = new_builder 7 ''dc1'' 1 1 default_fabric_options sample_limits;
          b1 = snd (add_failure_domain sample_domain b0);
          b2 = snd (add_leaf (sample_leaf 1 ''leaf-1'') b1);
          b3 = snd (add_leaf (sample_leaf 2 ''leaf-2'') b2);
          b4 = snd (add_spine (sample_spine 1 ''spine-1'') b3)
      in snd (add_spine (sample_spine 2 ''spine-2'') b4))"

definition sample_ports :: fabric_builder where
  "sample_ports =
     (let b1 = snd (add_port (sample_port 1 (leaf_key 1)) sample_nodes);
          b2 = snd (add_port (sample_port 2 (leaf_key 2)) b1);
          b3 = snd (add_port (sample_port 3 (spine_key 1)) b2)
      in snd (add_port (sample_port 4 (spine_key 2)) b3))"

definition sample_builder :: fabric_builder where
  "sample_builder =
     (let b5 = snd (add_link (sample_link 1 1 1 1 3) sample_ports);
          b6 = snd (add_link (sample_link 2 1 1 2 4) b5);
          b7 = snd (add_link (sample_link 3 2 2 1 3) b6);
          b8 = snd (add_link (sample_link 4 2 2 2 4) b7)
      in snd (add_evidence sample_evidence b8))"

lemma sample_builder_eval:
  "sample_builder = \<lparr>fb_id = 7, fb_name = ''dc1'', fb_site = [], fb_fabric_state = FS_Operational,
     fb_generation = 1, fb_epoch = 1, fb_options = default_fabric_options,
     fb_limits = sample_limits,
     fb_domains = [(1, sample_domain)],
     fb_leaves = [(1, sample_leaf 1 ''leaf-1''), (2, sample_leaf 2 ''leaf-2'')],
     fb_spines = [(1, sample_spine 1 ''spine-1''), (2, sample_spine 2 ''spine-2'')],
     fb_ports = [(1, sample_port 1 (leaf_key 1)), (2, sample_port 2 (leaf_key 2)),
                 (3, sample_port 3 (spine_key 1)), (4, sample_port 4 (spine_key 2))],
     fb_links = [(1, sample_link 1 1 1 1 3), (2, sample_link 2 1 1 2 4),
                 (3, sample_link 3 2 2 1 3), (4, sample_link 4 2 2 2 4)],
     fb_history_links = [], fb_evidence = [sample_evidence], fb_report = empty_report,
     fb_frozen = False\<rparr>"
  by code_simp

lemma sample_reachable: "builder_reachable sample_builder"
  unfolding sample_builder_def sample_ports_def sample_nodes_def Let_def
  by (intro builder_reachable.intros)

lemma sample_builder_ok:
  "\<not> fb_frozen sample_builder" "report_errors (fb_report sample_builder) = []" "graph_clean sample_builder"
  "fb_limits sample_builder = sample_limits"
proof -
  show "\<not> fb_frozen sample_builder" "report_errors (fb_report sample_builder) = []"
    "fb_limits sample_builder = sample_limits"
    by (simp_all add: sample_builder_eval report_errors_def empty_report_def)
  show "graph_clean sample_builder" unfolding sample_builder_eval by code_simp
qed

lemma sample_client: "client_inv sample_builder"
  by (rule reachable_client_inv [OF sample_reachable])

lemma sample_freeze: "fst (freeze sample_builder) = Inr (frozen_fabric sample_builder)"
  unfolding frozen_fabric_def
  using freeze_succeeds sample_builder_ok sample_client by (simp add: client_inv_def)

lemma sample_issues: "rep_issues (fb_report (snd (finish_report (validated sample_builder)))) = []"
  unfolding sample_builder_eval by code_simp

lemma sample_freeze_issues: "rep_issues (fb_report (snd (freeze sample_builder))) = []"
  using sample_builder_ok(1) sample_issues by (simp add: freeze_unfold)

lemma fits_frozen: "fabric_fits (frozen_fabric b) = fabric_fits (undigested_fabric b)"
  by (simp add: fabric_fits_def topology_enc_def evidence_enc_def frozen_fabric_def with_digests_def
      topology_fields_def evidence_block_fields_def header_fields_def Let_def split: prod.split)

lemma sample_encodable: "encodable sample_builder" and sample_history_disjoint: "history_disjoint sample_builder"
proof -
  have "length (topology_enc (undigested_fabric sample_builder)) < 1000"
    "length (evidence_enc (undigested_fabric sample_builder)) < 1000"
    unfolding sample_builder_eval by code_simp+
  then have "fabric_fits (undigested_fabric sample_builder)" by (simp add: fabric_fits_def kDefaultMaxBytes_def)
  then show "encodable sample_builder"
    using sample_builder_ok sample_client by (simp add: encodable_def fits_frozen sample_limits_def)
  show "history_disjoint sample_builder" by (simp add: history_disjoint_def sample_builder_eval)
qed

text \<open>
  A builder that records a retired link and then declares a live link under the same
  identifier; both calls succeed.
\<close>

definition overlap_builder :: fabric_builder where
  "overlap_builder =
     snd (add_link (sample_link 9 1 1 1 3)
       (snd (add_history_link ((sample_link 9 1 1 1 3)\<lparr>lk_generation := 0\<rparr>) sample_ports)))"

lemma overlap_builder_eval:
  "overlap_builder = sample_builder
     \<lparr>fb_links := [(9, sample_link 9 1 1 1 3)],
      fb_history_links := [(9, (sample_link 9 1 1 1 3)\<lparr>lk_generation := 0\<rparr>)], fb_evidence := []\<rparr>"
  unfolding sample_builder_eval by code_simp

lemma overlap_encodable: "encodable overlap_builder"
proof -
  have "builder_reachable overlap_builder"
    unfolding overlap_builder_def sample_ports_def sample_nodes_def Let_def
    by (intro builder_reachable.intros)
  then have "client_inv overlap_builder" by (rule reachable_client_inv)
  moreover have "\<not> fb_frozen overlap_builder" "report_errors (fb_report overlap_builder) = []"
    "15 \<le> unat (lim_max_name_bytes (fb_limits overlap_builder))"
    by (simp_all add: overlap_builder_eval sample_builder_eval report_errors_def empty_report_def sample_limits_def)
  moreover have "graph_clean overlap_builder"
    "length (topology_enc (undigested_fabric overlap_builder)) < 1000"
    "length (evidence_enc (undigested_fabric overlap_builder)) < 1000"
    unfolding overlap_builder_eval sample_builder_eval by code_simp+
  ultimately show ?thesis
    unfolding encodable_def fits_frozen by (simp add: fabric_fits_def kDefaultMaxBytes_def)
qed

text \<open>The same tables under an explicit digest, so that the index can be evaluated.\<close>

definition sample_fabric :: fabric where
  "sample_fabric = (undigested_fabric sample_builder)\<lparr>fab_topology_digest := replicate 32 1\<rparr>"

lemma sample_fabric_eval:
  "sample_fabric = \<lparr>fab_id = 7, fab_name = ''dc1'', fab_site = [], fab_generation = 1, fab_epoch = 1,
     fab_state = FS_Operational, fab_options = default_fabric_options,
     fab_domains = [sample_domain],
     fab_leaves = [sample_leaf 1 ''leaf-1'', sample_leaf 2 ''leaf-2''],
     fab_spines = [sample_spine 1 ''spine-1'', sample_spine 2 ''spine-2''],
     fab_ports = [sample_port 1 (leaf_key 1), sample_port 2 (leaf_key 2),
                  sample_port 3 (spine_key 1), sample_port 4 (spine_key 2)],
     fab_links = [sample_link 1 1 1 1 3, sample_link 2 1 1 2 4, sample_link 3 2 2 1 3, sample_link 4 2 2 2 4],
     fab_history_links = [], fab_evidence = [sample_evidence],
     fab_topology_digest = replicate 32 1, fab_evidence_digest = zero_digest\<rparr>"
  unfolding sample_fabric_def sample_builder_eval by code_simp

lemma sample_indexable: "indexable sample_fabric"
proof -
  have "tables_sorted sample_fabric" "\<not> digest_is_zero (fab_topology_digest sample_fabric)"
    "list_all (\<lambda>l. node_exists sample_fabric (lk_a l) \<and> node_exists sample_fabric (lk_b l)
        \<and> effective_link_speed_mbps sample_fabric l \<noteq> None) (fab_links sample_fabric)"
    unfolding sample_fabric_eval by code_simp+
  moreover have "length (fab_leaves sample_fabric) + length (fab_spines sample_fabric) < 2 ^ 32"
    "2 * length (fab_links sample_fabric) < 2 ^ 32"
    by (simp_all add: sample_fabric_eval)
  ultimately show ?thesis by (simp add: indexable_def list_all_iff)
qed

lemma sample_class_consistent: "class_consistent sample_fabric"
  unfolding sample_fabric_eval by code_simp

definition sample_index :: topology_index where
  "sample_index = projr (index_build (Some sample_fabric))"

lemma sample_index: "index_build (Some sample_fabric) = Inr sample_index" "index_view sample_index"
  "ti_fabric sample_index = sample_fabric"
  using index_build_total [OF sample_indexable] by (auto simp: sample_index_def)

lemma sample_paths:
  "enumerate_paths sample_index (leaf_key 1) (leaf_key 2) 2 8
     = [[leaf_key 1, spine_key 1, leaf_key 2], [leaf_key 1, spine_key 2, leaf_key 2]]"
  "simple_path sample_index (leaf_key 1) (leaf_key 2) 2 [leaf_key 1, spine_key 1, leaf_key 2]"
  "\<not> adjacent sample_index (leaf_key 1) (leaf_key 2)"
  "adjacent sample_index (leaf_key 1) (spine_key 1)" "adjacent sample_index (leaf_key 2) (spine_key 1)"
  unfolding sample_index_def sample_fabric_eval by code_simp+

section \<open>Queries on the sample\<close>

definition sample_engine :: eligibility_engine where
  "sample_engine = \<lparr>en_index = sample_index, en_controller = Incarnation 1 2\<rparr>"

lemma sample_engine_fabric: "en_fabric sample_engine = sample_fabric"
  by (simp add: sample_engine_def en_fabric_def sample_index(3))

definition diverse_query :: path_constraints where
  "diverse_query = default_path_constraints\<lparr>pc_require_domain_diversity := True\<rparr>"

lemma sample_leaves: "find_leaf sample_fabric 1 \<noteq> None" "find_leaf sample_fabric 2 \<noteq> None"
  unfolding sample_fabric_eval by code_simp+

lemma sample_class: "structural_class sample_index (leaf_key 1) (leaf_key 2) = RC_LeafLeafMultiSpine"
  unfolding sample_index_def sample_fabric_eval by code_simp

lemma sample_uplinks:
  "length (uplinks sample_index 1) = 2" "length (uplinks sample_index 2) = 2"
  unfolding sample_index_def sample_fabric_eval by code_simp+

definition sample_pairs :: "path_constraints \<Rightarrow> pair_state" where
  "sample_pairs c = pair_spines (uplink_entries sample_engine 1 c) (uplink_entries sample_engine 2 c) c"

lemma default_pairs:
  "length (ps_pair (sample_pairs default_path_constraints)) = 2"
  "ps_indeterminate (sample_pairs default_path_constraints) = 0"
  unfolding sample_pairs_def sample_engine_def sample_index_def sample_fabric_eval by code_simp+

lemma diverse_pairs:
  "length (ps_pair (sample_pairs diverse_query)) = 2"
  "ps_indeterminate (sample_pairs diverse_query) = 0"
  "map se_domain (ps_pair (sample_pairs diverse_query)) = [1, 1]"
  "length (eligible_pool (ps_pair (sample_pairs diverse_query))) = 2"
  unfolding sample_pairs_def sample_engine_def sample_index_def sample_fabric_eval by code_simp+

lemma sample_default_eligible:
  "\<exists>a. fst (assess_leaf_pair sample_engine 1 2 default_path_constraints idle_token 0) = Inr a \<and> pa_verdict a = EV_Eligible"
proof -
  obtain r1 where r1: "evaluate_uplinks sample_engine 1 default_path_constraints idle_token 0
      = (Inr (uplink_entries sample_engine 1 default_path_constraints), r1)" using idle_uplinks by blast
  obtain r2 where r2: "evaluate_uplinks sample_engine 2 default_path_constraints idle_token r1
      = (Inr (uplink_entries sample_engine 2 default_path_constraints), r2)" using idle_uplinks by blast
  have "structural_class (en_index sample_engine) (leaf_key 1) (leaf_key 2) \<in> {RC_LeafLeafSingleSpine, RC_LeafLeafMultiSpine}"
    by (simp add: sample_engine_def sample_class)
  from assess_spine_pair [OF _ _ _ this r1 r2, folded sample_pairs_def] obtain a
    where "fst (assess_leaf_pair sample_engine 1 2 default_path_constraints idle_token 0) = Inr a"
      "pa_verdict a = EV_Eligible"
    using default_pairs sample_leaves
    by (auto simp: sample_engine_fabric default_path_constraints_def required_spines_def)
  then show ?thesis by blast
qed

text \<open>A token that another thread sets while the spine sets are being enumerated.\<close>

definition late_token :: cancellation_token where
  "late_token k = (2 \<le> k)"

lemma late_reads:
  "evaluate_uplinks sample_engine 1 diverse_query late_token 0 = (Inr (uplink_entries sample_engine 1 diverse_query), 1)"
  "evaluate_uplinks sample_engine 2 diverse_query late_token 1 = (Inr (uplink_entries sample_engine 2 diverse_query), 2)"
proof -
  have "outcome_ok (fst (evaluate_uplinks sample_engine 1 diverse_query late_token 0))"
    "snd (evaluate_uplinks sample_engine 1 diverse_query late_token 0) = 1"
    "outcome_ok (fst (evaluate_uplinks sample_engine 2 diverse_query late_token 1))"
    "snd (evaluate_uplinks sample_engine 2 diverse_query late_token 1) = 2"
    unfolding sample_engine_def sample_index_def sample_fabric_eval by code_simp+
  then show
    "evaluate_uplinks sample_engine 1 diverse_query late_token 0 = (Inr (uplink_entries sample_engine 1 diverse_query), 1)"
    "evaluate_uplinks sample_engine 2 diverse_query late_token 1 = (Inr (uplink_entries sample_engine 2 diverse_query), 2)"
    using evaluate_uplinks_ok [of sample_engine 1 diverse_query late_token 0]
      evaluate_uplinks_ok [of sample_engine 2 diverse_query late_token 1]
    by (auto simp: outcome_ok_iff prod_eq_iff)
qed

lemma late_selection:
  "fst (select_spine_sets (ps_pair (sample_pairs diverse_query)) diverse_query late_token 2)
     = \<lparr>sets_list = [], sets_truncated = True, sets_candidate_combinations = 2\<rparr>"
  unfolding sample_pairs_def sample_engine_def sample_index_def sample_fabric_eval by code_simp

lemma idle_selection:
  "\<not> sets_truncated (fst (select_spine_sets (ps_pair (sample_pairs diverse_query)) diverse_query idle_token 0))"
  unfolding sample_pairs_def sample_engine_def sample_index_def sample_fabric_eval by code_simp

section \<open>Two parallel links to one spine\<close>

definition parallel_builder :: fabric_builder where
  "parallel_builder =
     (let b1 = snd (add_port (sample_port 5 (leaf_key 2)) sample_ports);
          b2 = snd (add_link (sample_link 1 1 1 1 3) b1);
          b3 = snd (add_link (sample_link 2 2 2 1 3) b2)
      in snd (add_link (sample_link 3 2 5 1 3) b3))"

definition parallel_fabric :: fabric where
  "parallel_fabric = (undigested_fabric parallel_builder)\<lparr>fab_topology_digest := replicate 32 1\<rparr>"

lemma parallel_fabric_eval:
  "parallel_fabric = sample_fabric\<lparr>fab_ports := fab_ports sample_fabric @ [sample_port 5 (leaf_key 2)],
     fab_links := [sample_link 1 1 1 1 3, sample_link 2 2 2 1 3, sample_link 3 2 5 1 3], fab_evidence := []\<rparr>"
  unfolding sample_fabric_eval by code_simp

definition parallel_engine :: eligibility_engine where
  "parallel_engine = \<lparr>en_index = projr (index_build (Some parallel_fabric)), en_controller = Incarnation 1 2\<rparr>"

definition two_spines :: path_constraints where
  "two_spines = default_path_constraints\<lparr>pc_min_eligible_spines := 2\<rparr>"

lemma parallel_facts:
  "find_leaf (en_fabric parallel_engine) 1 \<noteq> None" "find_leaf (en_fabric parallel_engine) 2 \<noteq> None"
  "structural_class (en_index parallel_engine) (leaf_key 1) (leaf_key 2) = RC_LeafLeafSingleSpine"
  "map se_spine (ps_pair (pair_spines (uplink_entries parallel_engine 1 two_spines)
      (uplink_entries parallel_engine 2 two_spines) two_spines)) = [1, 1]"
  "ps_indeterminate (pair_spines (uplink_entries parallel_engine 1 two_spines)
      (uplink_entries parallel_engine 2 two_spines) two_spines) = 0"
  unfolding parallel_engine_def parallel_fabric_eval sample_fabric_eval by code_simp+

section \<open>Authority over the sample\<close>

definition sample_token :: authority_token where
  "sample_token = \<lparr>tk_controller = Incarnation 1 2, tk_epoch = 1, tk_generation = 1, tk_lease = 3,
     tk_topology_digest = replicate 32 1, tk_issued_at_unix_ms = 0, tk_expires_at_unix_ms = 10\<rparr>"

definition sample_context :: authority_context where
  "sample_context = \<lparr>cx_controller = Incarnation 1 2, cx_epoch = 1, cx_generation = 1,
     cx_topology_digest = replicate 32 1, cx_active_lease = Some 3, cx_now_unix_ms = 5\<rparr>"

definition proven_assessment :: path_assessment where
  "proven_assessment = (new_assessment sample_engine (leaf_key 1) (leaf_key 2) default_path_constraints)
     \<lparr>pa_verdict := EV_Eligible, pa_eligible_spines := [1, 2]\<rparr>"

lemma sample_mint:
  "mint_path_authority proven_assessment sample_token 5 0
     = Inr (projr (mint_path_authority proven_assessment sample_token 5 0))"
  "\<exists>au. mint_path_authority proven_assessment sample_token 5 100 = Inr au"
  by (simp_all add: mint_path_authority_def Let_def proven_assessment_def new_assessment_def sample_token_def
      sample_engine_fabric sample_fabric_eval) (simp_all add: sample_engine_def)

definition sample_authority :: path_authority where
  "sample_authority = \<lparr>au_controller = Incarnation 1 2, au_epoch = 1, au_generation = 1,
     au_topology_digest = replicate 32 1, au_lease = 3, au_from = leaf_key 1, au_to = leaf_key 2,
     au_cls = RC_LeafLeafMultiSpine, au_verdict = EV_Eligible, au_spines = [1, 2],
     au_issued_at_unix_ms = 5, au_expires_at_unix_ms = 10, au_authority_digest = replicate 32 2\<rparr>"

definition sample_command :: command where
  "sample_command = \<lparr>cm_request_id = 77, cm_token = sample_token, cm_expected_generation = 1,
     cm_expected_epoch = 1, cm_kind = CK_SetSpineState, cm_fabric_state = FS_Operational,
     cm_node = spine_key 1, cm_node_state = NS_Draining, cm_port = 0, cm_port_admin = PA_Enabled,
     cm_link = 0, cm_link_admin = LA_Enabled, cm_new_link = wire_link_of (sample_link 9 1 1 1 3),
     cm_evidence = sample_evidence, cm_options = default_fabric_options\<rparr>"

definition unknown_admin_link :: wire_link where
  "unknown_admin_link = (wire_link_of (sample_link 9 1 1 1 3))\<lparr>wl_admin := 9\<rparr>"

lemma is_valid_utf8_ok: "is_valid_utf8 ''ok''"
  by code_simp

section \<open>A journal segment\<close>

definition good_io :: write_io where
  "good_io = \<lparr>wi_header = 200, wi_payload = 200, wi_flush = True, wi_sync = status_success\<rparr>"

text \<open>The disk fills up after 20 bytes of the record header.\<close>

definition short_io :: write_io where
  "short_io = good_io\<lparr>wi_header := 20\<rparr>"

definition sample_entry :: journal_entry where
  "sample_entry = \<lparr>je_type = RT_Marker, je_generation = 1, je_epoch = 1, je_payload = [7, 8, 9]\<rparr>"

definition sample_segment :: fabric_store where
  "sample_segment = projr (open_segment default_store_config (Incarnation 1 2) 0 1 5 good_io)"

lemma sample_segment:
  "open_segment default_store_config (Incarnation 1 2) 0 1 5 good_io = Inr sample_segment"
  "fs_config sample_segment = default_store_config" "fs_first_sequence sample_segment = 1"
  "fs_records sample_segment = 0" "fs_incarnation sample_segment = Incarnation 1 2" "fs_segment_index sample_segment = 0"
  by (simp_all add: sample_segment_def open_segment_def Let_def write_all_def good_io_def kHeaderBytes_def)

lemma sample_segment_holds: "store_holds 5 sample_segment []"
  by (rule open_segment_holds [OF sample_segment(1)]) simp

lemma sample_append:
  assumes "store_holds 5 s es" and "fs_config s = default_store_config" and "fs_records s < 2"
    and "fs_first_sequence s = 1" and "length es < 2"
  shows "\<not> append_refused (je_payload sample_entry) (Incarnation 1 2) s es"
  using assms(2-5)
  by (auto simp: append_refused_def sample_entry_def default_store_config_def incarnation_is_zero_def not_le
      intro: less_trans [of _ "2 :: u64"])

definition appended_segment :: fabric_store where
  "appended_segment = snd (append_record RT_Marker [7, 8, 9] (Incarnation 1 2) 1 1 good_io sample_segment)"

lemma sample_fields: "je_type sample_entry = RT_Marker" "je_payload sample_entry = [7, 8, 9]"
  "je_epoch sample_entry = 1" "je_generation sample_entry = 1"
  by (simp_all add: sample_entry_def)

lemma appended_segment:
  "append_record RT_Marker [7, 8, 9] (Incarnation 1 2) 1 1 good_io sample_segment = (status_success, appended_segment)"
  "fs_records appended_segment = 1" "fs_config appended_segment = default_store_config"
  "fs_first_sequence appended_segment = 1"
proof -
  have go: "\<not> append_refused (je_payload sample_entry) (Incarnation 1 2) sample_segment []"
    by (rule sample_append [OF sample_segment_holds]) (simp_all add: sample_segment)
  have opn: "fs_open sample_segment" using sample_segment_holds by (simp add: store_holds_def store_base_def)
  have run: "fst (append_record RT_Marker [7, 8, 9] (Incarnation 1 2) 1 1 good_io sample_segment) = status_success
      \<and> fs_records appended_segment = 1 \<and> fs_config appended_segment = default_store_config
      \<and> fs_first_sequence appended_segment = 1"
    unfolding appended_segment_def append_record_run [OF sample_segment_holds go, of good_io, unfolded sample_fields]
    using opn
    by (simp add: good_io_def write_all_def length_head_enc sync_locked_def sample_segment default_store_config_def)
  then show "append_record RT_Marker [7, 8, 9] (Incarnation 1 2) 1 1 good_io sample_segment = (status_success, appended_segment)"
    by (simp add: appended_segment_def prod_eq_iff)
  from run show "fs_records appended_segment = 1" "fs_config appended_segment = default_store_config"
    "fs_first_sequence appended_segment = 1" by simp_all
qed

lemma appended_incarnation: "fs_incarnation appended_segment = Incarnation 1 2"
  using append_frame(1) [OF appended_segment(1)] by (simp add: sample_segment)

lemma appended_segment_holds: "store_holds 5 appended_segment [sample_entry]"
  using append_record_cases [OF sample_segment_holds, of sample_entry "Incarnation 1 2" good_io]
  by (simp add: sample_fields appended_segment)

lemma appended_not_refused: "\<not> append_refused (je_payload sample_entry) (Incarnation 1 2) appended_segment [sample_entry]"
  by (rule sample_append [OF appended_segment_holds]) (simp_all add: appended_segment)

definition torn_segment :: fabric_store where
  "torn_segment = snd (append_record RT_Marker [7, 8, 9] (Incarnation 1 2) 1 1 short_io appended_segment)"

lemma length_sample_image [simp]: "length (store_image 5 s [sample_entry]) = 243"
  by (simp add: store_image_def segment_image_def Let_def length_entry_enc sample_fields kHeaderBytes_def)

lemma torn_segment:
  "append_record RT_Marker [7, 8, 9] (Incarnation 1 2) 1 1 short_io appended_segment
     = (Status SC_IoError ''short write to the journal'', torn_segment)"
  "length (fs_disk torn_segment) = 263"
  using short_write_poisons [OF appended_segment_holds appended_not_refused, of short_io] appended_segment_holds
  by (simp_all add: sample_fields torn_segment_def short_io_def store_holds_def length_entry_enc)

lemma sample_run:
  "run_appends (Incarnation 1 2) [(sample_entry, good_io), (sample_entry, short_io)] sample_segment
     = ([sample_entry], torn_segment)"
  by (simp add: sample_fields appended_segment torn_segment)

end
