(* ===== verification/SLF_Vectors.thy ===== *)
theory SLF_Vectors
  imports SLF_Digest
begin

text \<open>
  Evaluating SHA-256 inside the kernel: the compression function restated on natural numbers, where
  the simplifier computes quickly, the proof that it agrees with the model of \<open>src/digest.cpp\<close>, and
  the published test vectors of FIPS 180-4.
\<close>

unbundle bit_operations_syntax

section \<open>Word operations on naturals\<close>

definition rot_n :: "nat \<Rightarrow> nat \<Rightarrow> nat" where
  "rot_n v k = v div 2 ^ k OR (v mod 2 ^ k) * 2 ^ (32 - k)"

lemma of_nat_word_mod: "(of_nat (n mod 4294967296) :: u32) = of_nat n"
  by (simp add: word_unat_eq_iff unsigned_of_nat take_bit_eq_mod)

lemma drop_of_nat: "v < 2 ^ 32 \<Longrightarrow> drop_bit k (of_nat v :: u32) = of_nat (v div 2 ^ k)"
proof (rule word_unat_eq_iff [THEN iffD2])
  assume v: "v < 2 ^ 32"
  have "v div 2 ^ k < 2 ^ 32" using v by (rule order.strict_trans1 [OF div_le_dividend])
  with v show "unat (drop_bit k (of_nat v :: u32)) = unat (of_nat (v div 2 ^ k) :: u32)"
    unfolding unat_drop_bit_eq by (simp only: drop_bit_eq_div unat_of_nat) (simp add: mod_less)
qed

lemma push_of_nat: "k \<le> 32 \<Longrightarrow> push_bit (32 - k) (of_nat v :: u32) = of_nat ((v mod 2 ^ k) * 2 ^ (32 - k))"
proof -
  assume k: "k \<le> 32"
  have "(2 :: nat) ^ k * 2 ^ (32 - k) = 2 ^ 32" using k by (simp flip: power_add)
  then have "(v mod 2 ^ k) * 2 ^ (32 - k) = (v * 2 ^ (32 - k)) mod 2 ^ 32" by (metis mult_mod_left)
  then show ?thesis by (simp add: push_bit_of_nat push_bit_eq_mult of_nat_word_mod)
qed

lemma rotr_of_nat: "v < 2 ^ 32 \<Longrightarrow> k \<le> 32 \<Longrightarrow> rotr (of_nat v) k = of_nat (rot_n v k)"
  by (simp add: rotr_def rot_n_def drop_of_nat push_of_nat of_nat_or_eq)

lemma choose_word: "(e AND f) XOR (NOT e AND g) = g XOR (e AND (f XOR g))" for e f g :: u32
  by (rule bit_eqI) (auto simp: bit_simps)

section \<open>The compression function\<close>

definition kConstants :: "nat list" where
  "kConstants =
    [0x428A2F98, 0x71374491, 0xB5C0FBCF, 0xE9B5DBA5, 0x3956C25B, 0x59F111F1, 0x923F82A4,
     0xAB1C5ED5, 0xD807AA98, 0x12835B01, 0x243185BE, 0x550C7DC3, 0x72BE5D74, 0x80DEB1FE,
     0x9BDC06A7, 0xC19BF174, 0xE49B69C1, 0xEFBE4786, 0x0FC19DC6, 0x240CA1CC, 0x2DE92C6F,
     0x4A7484AA, 0x5CB0A9DC, 0x76F988DA, 0x983E5152, 0xA831C66D, 0xB00327C8, 0xBF597FC7,
     0xC6E00BF3, 0xD5A79147, 0x06CA6351, 0x14292967, 0x27B70A85, 0x2E1B2138, 0x4D2C6DFC,
     0x53380D13, 0x650A7354, 0x766A0ABB, 0x81C2C92E, 0x92722C85, 0xA2BFE8A1, 0xA81A664B,
     0xC24B8B70, 0xC76C51A3, 0xD192E819, 0xD6990624, 0xF40E3585, 0x106AA070, 0x19A4C116,
     0x1E376C08, 0x2748774C, 0x34B0BCB5, 0x391C0CB3, 0x4ED8AA4A, 0x5B9CCA4F, 0x682E6FF3,
     0x748F82EE, 0x78A5636F, 0x84C87814, 0x8CC70208, 0x90BEFFFA, 0xA4506CEB, 0xBEF9A3F7, 0xC67178F2]"

lemma constants: "kRoundConstants = map of_nat kConstants" "length kConstants = 64"
  by (simp_all add: kRoundConstants_def kConstants_def)

definition temp1_n :: "nat \<Rightarrow> nat \<Rightarrow> nat \<Rightarrow> nat \<Rightarrow> nat \<Rightarrow> nat \<Rightarrow> nat" where
  "temp1_n e f g h k w = h + (rot_n e 6 XOR rot_n e 11 XOR rot_n e 25) + (g XOR (e AND (f XOR g))) + k + w"

definition temp2_n :: "nat \<Rightarrow> nat \<Rightarrow> nat \<Rightarrow> nat" where
  "temp2_n a b c = (rot_n a 2 XOR rot_n a 13 XOR rot_n a 22) + ((a AND b) XOR (a AND c) XOR (b AND c))"

definition shift_n :: "(nat \<Rightarrow> nat \<Rightarrow> nat \<Rightarrow> nat \<Rightarrow> nat \<Rightarrow> nat \<Rightarrow> nat \<Rightarrow> nat \<Rightarrow> nat list) \<Rightarrow> nat \<Rightarrow> nat \<Rightarrow> nat \<Rightarrow> nat \<Rightarrow> nat
    \<Rightarrow> nat \<Rightarrow> nat \<Rightarrow> nat \<Rightarrow> nat \<Rightarrow> nat list" where
  "shift_n rest t1 t2 a b c d e f g = rest ((t1 + t2) mod 4294967296) a b c ((d + t1) mod 4294967296) e f g"

fun rounds_n :: "nat list \<Rightarrow> nat list \<Rightarrow> nat \<Rightarrow> nat \<Rightarrow> nat \<Rightarrow> nat \<Rightarrow> nat \<Rightarrow> nat \<Rightarrow> nat \<Rightarrow> nat \<Rightarrow> nat list" where
  "rounds_n (k # ks) (w # ws) a b c d e f g h =
     shift_n (rounds_n ks ws) (temp1_n e f g h k w) (temp2_n a b c) a b c d e f g"
| "rounds_n _ _ a b c d e f g h = [a, b, c, d, e, f, g, h]"

definition new_word :: "nat \<Rightarrow> nat \<Rightarrow> nat \<Rightarrow> nat \<Rightarrow> nat" where
  "new_word w0 w1 w9 w14 =
     (w0 + (rot_n w1 7 XOR rot_n w1 18 XOR w1 div 8) + w9 + (rot_n w14 17 XOR rot_n w14 19 XOR w14 div 1024)) mod 4294967296"

fun schedule_n :: "nat list \<Rightarrow> nat list \<Rightarrow> nat list" where
  "schedule_n (i # is) w = hd w # schedule_n is (tl w @ [new_word (w ! 0) (w ! 1) (w ! 9) (w ! 14)])"
| "schedule_n [] w = w"

definition schedule64 :: "nat list \<Rightarrow> nat list" where
  "schedule64 w = schedule_n [16..<64] w"

definition words32 :: "nat list \<Rightarrow> bool" where
  "words32 w \<longleftrightarrow> list_all (\<lambda>x. x < 2 ^ 32) w"

lemma schedule_step_n:
  assumes "length w = 16" and "words32 w"
  shows "schedule_step (pre @ map of_nat w) (length pre + 16)
    = (pre @ [of_nat (hd w)]) @ map of_nat (tl w @ [new_word (w ! 0) (w ! 1) (w ! 9) (w ! 14)])"
proof -
  have small: "w ! i < 2 ^ 32" if "i < 16" for i using that assms by (auto simp: words32_def list_all_length)
  have at: "(pre @ map of_nat w) ! (length pre + i) = of_nat (w ! i)" if "i < 16" for i
    using that assms(1) by (simp add: nth_append)
  have ix: "length pre + 16 - 15 = length pre + 1" "length pre + 16 - 2 = length pre + 14"
    "length pre + 16 - 16 = length pre + 0" "length pre + 16 - 7 = length pre + 9" by simp_all
  have "w \<noteq> []" using assms(1) by auto
  then have w: "map (of_nat :: nat \<Rightarrow> u32) w = of_nat (hd w) # map of_nat (tl w)" by (cases w) simp_all
  have d: "drop_bit 3 (of_nat (w ! 1) :: u32) = of_nat (w ! 1 div 8)" "drop_bit 10 (of_nat (w ! 14) :: u32) = of_nat (w ! 14 div 1024)"
    using drop_of_nat [OF small, of 1 3] drop_of_nat [OF small, of 14 10] by simp_all
  have "schedule_step (pre @ map of_nat w) (length pre + 16)
      = (pre @ map of_nat w) @ [of_nat (new_word (w ! 0) (w ! 1) (w ! 9) (w ! 14))]"
    unfolding schedule_step_def Let_def ix new_word_def of_nat_word_mod
    by (simp only: at rotr_of_nat [OF small] d of_nat_add of_nat_xor_eq)
  then show ?thesis by (simp add: w)
qed

lemma new_word_small: "new_word a b c d < 2 ^ 32"
  by (simp add: new_word_def)

lemma schedule_fold:
  "length w = 16 \<Longrightarrow> words32 w \<Longrightarrow>
     foldl schedule_step (pre @ map of_nat w) [length pre + 16..<length pre + 16 + n]
       = pre @ map of_nat (schedule_n [length pre + 16..<length pre + 16 + n] w)"
proof (induction n arbitrary: pre w)
  case (Suc n)
  let ?w = "tl w @ [new_word (w ! 0) (w ! 1) (w ! 9) (w ! 14)]" and ?pre = "pre @ [of_nat (hd w)]"
  have w: "length ?w = 16" "words32 ?w"
    using Suc.prems new_word_small by (cases w; auto simp: words32_def)+
  have up: "[length pre + 16..<length pre + 16 + Suc n] = (length pre + 16) # [length ?pre + 16..<length ?pre + 16 + n]"
    by (simp add: upt_conv_Cons ac_simps del: upt_Suc)
  show ?case
    unfolding up foldl_Cons schedule_step_n [OF Suc.prems] Suc.IH [OF w] schedule_n.simps by simp
qed simp

lemma message_schedule_n:
  assumes "map (load_be32 block) [0..<16] = map of_nat w" and "words32 w"
  shows "message_schedule block = map of_nat (schedule64 w)"
proof -
  have "length w = 16" using arg_cong [OF assms(1), of length] by simp
  from schedule_fold [OF this assms(2), of "[]" 48]
  have "foldl schedule_step (map of_nat w) [16..<16 + 48] = map of_nat (schedule_n [16..<16 + 48] w)"
    unfolding append_Nil list.size add_0_left .
  moreover have "(16 :: nat) + 48 = 64" by simp
  ultimately show ?thesis unfolding message_schedule_def assms(1) schedule64_def by (simp only:)
qed

lemma length_schedule64:
  assumes "length w = 16"
  shows "length (schedule64 w) = 64"
proof -
  have "length (schedule_n is w) = 16 + length is" for "is" using assms
    by (induction "is" w rule: schedule_n.induct) auto
  then show ?thesis unfolding schedule64_def by (simp only: length_upt)
qed

section \<open>Rounds\<close>

abbreviation vars_of :: "nat list \<Rightarrow> sha_vars" where
  "vars_of v \<equiv> (of_nat (v ! 0), of_nat (v ! 1), of_nat (v ! 2), of_nat (v ! 3), of_nat (v ! 4), of_nat (v ! 5),
     of_nat (v ! 6), of_nat (v ! 7))"

lemma sha_round_n:
  assumes "ws ! i = of_nat w" and "kRoundConstants ! i = of_nat k" and "a < 2 ^ 32" and "e < 2 ^ 32"
  shows "sha_round ws (of_nat a, of_nat b, of_nat c, of_nat d, of_nat e, of_nat f, of_nat g, of_nat h) i
    = (of_nat ((temp1_n e f g h k w + temp2_n a b c) mod 4294967296), of_nat a, of_nat b, of_nat c,
       of_nat ((d + temp1_n e f g h k w) mod 4294967296), of_nat e, of_nat f, of_nat g)"
proof -
  have r: "rotr (of_nat a) k = of_nat (rot_n a k)" "rotr (of_nat e) k = of_nat (rot_n e k)" if "k \<le> 32" for k
    using that assms(3,4) by (simp_all add: rotr_of_nat)
  show ?thesis
    unfolding sha_round_def prod.case Let_def choose_word assms(1,2) of_nat_word_mod temp1_n_def temp2_n_def
    by (simp add: r of_nat_add of_nat_xor_eq of_nat_and_eq)
qed

lemma rounds_fold:
  assumes "i + length ks = length kRoundConstants" and "map of_nat ks = drop i kRoundConstants"
    and "map of_nat vs = drop i ws" and "length ks \<le> length vs"
    and "a < 2 ^ 32" and "b < 2 ^ 32" and "c < 2 ^ 32" and "d < 2 ^ 32" and "e < 2 ^ 32"
  shows "foldl (sha_round ws) (of_nat a, of_nat b, of_nat c, of_nat d, of_nat e, of_nat f, of_nat g, of_nat h)
      [i..<length kRoundConstants] = vars_of (rounds_n ks vs a b c d e f g h)"
  using assms
proof (induction ks vs a b c d e f g h arbitrary: i rule: rounds_n.induct)
  case (1 k ks v vs a b c d e f g h)
  let ?t1 = "temp1_n e f g h k v" and ?t2 = "temp2_n a b c"
  have k: "kRoundConstants ! i = of_nat k" "map of_nat ks = drop (Suc i) kRoundConstants"
    and v: "ws ! i = of_nat v" "map of_nat vs = drop (Suc i) ws"
    using 1(3,4) by (auto simp: Cons_nth_drop_Suc [symmetric] nth_via_drop [symmetric] drop_Suc tl_drop [symmetric]
        dest: nth_via_drop [OF sym] arg_cong [of _ _ tl])
  have i: "i < length kRoundConstants" "Suc i + length ks = length kRoundConstants" "length ks \<le> length vs"
    using 1(2,5) by simp_all
  show ?case
    unfolding upt_conv_Cons [OF i(1)] foldl_Cons sha_round_n [OF v(1) k(1) 1(6,10)] rounds_n.simps shift_n_def
    by (rule 1(1) [OF i(2) k(2) v(2) i(3) _ 1(6-8) _, THEN trans]) simp_all
qed simp_all

section \<open>Blocks\<close>

fun add_n :: "nat list \<Rightarrow> nat list \<Rightarrow> nat list" where
  "add_n (x # xs) (y # ys) = ((x + y) mod 4294967296) # add_n xs ys"
| "add_n _ _ = []"

definition compress_n :: "nat list \<Rightarrow> nat list \<Rightarrow> nat list" where
  "compress_n st w = add_n st (rounds_n kConstants (schedule64 w)
     (st ! 0) (st ! 1) (st ! 2) (st ! 3) (st ! 4) (st ! 5) (st ! 6) (st ! 7))"

lemma length_rounds_n: "length (rounds_n ks ws a b c d e f g h) = 8"
  by (induction ks ws a b c d e f g h rule: rounds_n.induct) (simp_all add: shift_n_def)

lemma list8: "length v = 8 \<Longrightarrow> v = [v ! 0, v ! 1, v ! 2, v ! 3, v ! 4, v ! 5, v ! 6, v ! 7]"
  by (auto simp: numeral_eq_Suc length_Suc_conv)

lemma add8:
  "map of_nat (add_n [a, b, c, d, e, f, g, h] v) = [of_nat a + of_nat (v ! 0), of_nat b + of_nat (v ! 1), of_nat c + of_nat (v ! 2),
     of_nat d + of_nat (v ! 3), of_nat e + of_nat (v ! 4), of_nat f + of_nat (v ! 5), of_nat g + of_nat (v ! 6),
     of_nat h + of_nat (v ! 7) :: u32]" if "length v = 8"
  by (subst list8 [OF that]) (simp add: of_nat_word_mod)

lemma compress_of_nat:
  assumes w: "map (load_be32 block) [0..<16] = map of_nat w" "words32 w" and st: "length st = 8" "words32 st"
  shows "sha_compress (map of_nat st) block = map of_nat (compress_n st w)"
proof -
  obtain a b c d e f g h where s: "st = [a, b, c, d, e, f, g, h]" using list8 [OF st(1)] by blast
  let ?r = "rounds_n kConstants (schedule64 w) a b c d e f g h"
  have "length w = 16" using arg_cong [OF w(1), of length] by simp
  then have len: "length kConstants \<le> length (schedule64 w)" by (simp add: length_schedule64 constants)
  have k: "0 + length kConstants = length kRoundConstants" "map of_nat kConstants = drop 0 kRoundConstants"
    "length kRoundConstants = 64" by (simp_all add: constants)
  have "foldl (sha_round (message_schedule block)) (of_nat a, of_nat b, of_nat c, of_nat d, of_nat e, of_nat f, of_nat g, of_nat h)
      [0..<64] = vars_of ?r"
    using rounds_fold [OF k(1,2), of "schedule64 w" "message_schedule block" a b c d e f g h] len st(2)
    unfolding message_schedule_n [OF w] k(3) s by (simp add: words32_def)
  then have "sha_compress (map of_nat st) block =
      [of_nat a + of_nat (?r ! 0), of_nat b + of_nat (?r ! 1), of_nat c + of_nat (?r ! 2), of_nat d + of_nat (?r ! 3),
       of_nat e + of_nat (?r ! 4), of_nat f + of_nat (?r ! 5), of_nat g + of_nat (?r ! 6), of_nat h + of_nat (?r ! 7)]"
    unfolding sha_compress_def Let_def s by simp
  also have "\<dots> = map of_nat (compress_n st w)"
    unfolding s compress_n_def nth_Cons_0 nth_Cons_numeral by (simp add: add8 [OF length_rounds_n])
  finally show ?thesis .
qed

fun be_words :: "nat list \<Rightarrow> nat list" where
  "be_words (a # b # c # d # bs) = (push_bit 24 a OR push_bit 16 b OR push_bit 8 c OR d) # be_words bs"
| "be_words _ = []"

lemma ucast_byte: "x < 256 \<Longrightarrow> ucast (of_nat x :: u8) = (of_nat x :: u32)"
  by (simp add: word_unat_eq_iff unsigned_ucast_eq unsigned_of_nat take_bit_nat_eq_self)

lemma load_words:
  "list_all (\<lambda>x. x < 256) bs \<Longrightarrow> length bs = 4 * n \<Longrightarrow>
     map (load_be32 (map of_nat bs)) [0..<n] = map of_nat (be_words bs)"
proof (induction bs arbitrary: n rule: be_words.induct)
  case (1 a b c d bs)
  obtain m where n: "n = Suc m" using 1(3) by (cases n) auto
  have "load_be32 (map of_nat (a # b # c # d # bs)) 0 = of_nat (push_bit 24 a OR push_bit 16 b OR push_bit 8 c OR d)"
    using 1(2) by (simp add: load_be32_def ucast_byte of_nat_or_eq push_bit_of_nat)
  moreover have "load_be32 (map of_nat (a # b # c # d # bs)) (Suc i) = load_be32 (map of_nat bs) i" for i
    by (simp add: load_be32_def add.commute)
  moreover have "map (load_be32 (map of_nat bs)) [0..<m] = map of_nat (be_words bs)" using 1(1) [of m] 1(2,3) n by simp
  ultimately show ?case unfolding n upt_conv_Cons [OF zero_less_Suc] map_Suc_upt [symmetric] by (simp add: comp_def del: upt_Suc)
qed (auto simp: length_Suc_conv)

lemma absorb_of_nat:
  assumes "be_words block = w" and "compress_n st w = st'"
    and "length block = 64" "list_all (\<lambda>x. x < 256) block" "words32 w" "length st = 8" "words32 st"
  shows "sha_absorb (map of_nat st) (map of_nat (block @ rest)) = sha_absorb (map of_nat st') (map of_nat rest)"
proof -
  have "map (load_be32 (map of_nat block)) [0..<16] = map of_nat w"
    using load_words [OF assms(4), of 16] assms(1,3) by simp
  from compress_of_nat [OF this assms(5-7)] assms(2,3) show ?thesis
    by (simp add: sha_absorb.simps [of _ "map of_nat block @ map of_nat rest"])
qed

lemmas sha_eval =
  compress_n_def schedule64_def kConstants_def shift_n_def temp1_n_def temp2_n_def new_word_def rot_n_def

definition initial_n :: "nat list" where
  "initial_n = [0x6A09E667, 0xBB67AE85, 0x3C6EF372, 0xA54FF53A, 0x510E527F, 0x9B05688C, 0x1F83D9AB, 0x5BE0CD19]"

text \<open>The test vector of FIPS 180-4 for the message \<open>abc\<close>.\<close>

lemma abc_block:
  "compress_n initial_n [0x61626380, 0, 0, 0, 0, 0, 0, 0, 0, 0, 0, 0, 0, 0, 0, 24]
   = [0xBA7816BF, 0x8F01CFEA, 0x414140DE, 0x5DAE2223, 0xB00361A3, 0x96177A9C, 0xB410FF61, 0xF20015AD]"
  by (simp add: sha_eval initial_n_def)

lemma abc_vector:
  "digest_hex (digest_of (text_bytes ''abc'')) = ''ba7816bf8f01cfea414140de5dae2223b00361a396177a9cb410ff61f20015ad''"
proof -
  let ?block = "[0x61, 0x62, 0x63, 0x80, 0, 0, 0, 0, 0, 0, 0, 0, 0, 0, 0, 0, 0, 0, 0, 0, 0, 0, 0, 0, 0, 0, 0, 0, 0,
      0, 0, 0, 0, 0, 0, 0, 0, 0, 0, 0, 0, 0, 0, 0, 0, 0, 0, 0, 0, 0, 0, 0, 0, 0, 0, 0, 0, 0, 0, 0, 0, 0,
      0, 24] :: nat list"
  let ?last = "[0xBA7816BF, 0x8F01CFEA, 0x414140DE, 0x5DAE2223, 0xB00361A3, 0x96177A9C, 0xB410FF61, 0xF20015AD] :: nat list"
  have words: "be_words ?block = [0x61626380, 0, 0, 0, 0, 0, 0, 0, 0, 0, 0, 0, 0, 0, 0, 24]"
    by simp
  have "sha_absorb (map of_nat initial_n) (map of_nat (?block @ [])) = sha_absorb (map of_nat ?last) (map of_nat [])"
    by (rule absorb_of_nat [OF words abc_block]) (simp_all add: words32_def initial_n_def)
  then have "sha_absorb kInitialState (map of_nat ?block) = map of_nat ?last"
    by (simp add: sha_absorb.simps [of _ "[]"] kInitialState_def initial_n_def)
  moreover have "text_bytes ''abc'' @ sha_padding (length (text_bytes ''abc'')) = map of_nat ?block"
    by code_simp
  ultimately have "digest_of (text_bytes ''abc'') = concat (map be32_bytes (map of_nat ?last))"
    unfolding digest_of_reference sha256_reference_def by (simp only:)
  moreover have "digest_hex (concat (map be32_bytes (map of_nat ?last))) = ''ba7816bf8f01cfea414140de5dae2223b00361a396177a9cb410ff61f20015ad''"
    by (simp add: digest_hex_def byte_hex_def be32_bytes_def hex_digit_def char_of_def bit_0)
  ultimately show ?thesis by simp
qed

end
