(* ===== verification/SLF_Boot.thy ===== *)
theory SLF_Boot
  imports SLF_Restart SLF_Sample SLF_Vectors
begin

text \<open>
  A concrete runtime that boots in an empty directory: its initial fabric with the digest computed,
  the operating system's answers, the started process, a command it commits and the process that
  succeeds it. The properties of the runtime are applied to these.
\<close>

section \<open>Two empty fabrics and their digests\<close>

definition boot_builder :: fabric_builder where
  "boot_builder = snd (set_site [] (new_builder 7 ''dc1'' 1 1 default_fabric_options sample_limits))"

definition next_builder :: fabric_builder where
  "next_builder = snd (set_state FS_Draining (snd (set_site [] (new_builder 7 ''dc1'' 2 1 default_fabric_options sample_limits))))"

definition empty_builder :: "topology_generation \<Rightarrow> fabric_state \<Rightarrow> fabric_builder" where
  "empty_builder g st = \<lparr>fb_id = 7, fb_name = ''dc1'', fb_site = [], fb_fabric_state = st,
     fb_generation = g, fb_epoch = 1, fb_options = default_fabric_options, fb_limits = sample_limits,
     fb_domains = [], fb_leaves = [], fb_spines = [], fb_ports = [], fb_links = [],
     fb_history_links = [], fb_evidence = [], fb_report = empty_report, fb_frozen = False\<rparr>"

lemma builders_eval: "boot_builder = empty_builder 1 FS_Operational" "next_builder = empty_builder 2 FS_Draining"
  by code_simp+

lemma builders_inv: "client_inv boot_builder" "client_inv next_builder"
  unfolding boot_builder_def next_builder_def by (intro reachable_client_inv builder_reachable.intros)+

definition boot_bytes :: "nat list" where
  "boot_bytes = [15, 0, 0, 0, 115, 108, 102, 46, 116, 111, 112, 111, 108, 111, 103, 121, 46, 118, 49, 7, 0, 0, 0, 0,
      0, 0, 0, 3, 0, 0, 0, 100, 99, 49, 0, 0, 0, 0, 1, 0, 0, 0, 0, 0, 0, 0, 1, 0, 0, 0, 0, 0, 0, 0, 2, 0,
      0, 1, 0, 0, 0, 0, 0, 0, 0, 0, 0, 0, 0, 0, 0, 0, 0, 0, 0, 0, 0, 0, 0, 0, 0, 0, 0, 0, 0, 0]"

definition next_bytes :: "nat list" where
  "next_bytes = [15, 0, 0, 0, 115, 108, 102, 46, 116, 111, 112, 111, 108, 111, 103, 121, 46, 118, 49, 7, 0, 0, 0, 0,
      0, 0, 0, 3, 0, 0, 0, 100, 99, 49, 0, 0, 0, 0, 2, 0, 0, 0, 0, 0, 0, 0, 1, 0, 0, 0, 0, 0, 0, 0, 3, 0,
      0, 1, 0, 0, 0, 0, 0, 0, 0, 0, 0, 0, 0, 0, 0, 0, 0, 0, 0, 0, 0, 0, 0, 0, 0, 0, 0, 0, 0, 0]"

lemma topology_encodings:
  "topology_enc (undigested_fabric boot_builder) = map of_nat boot_bytes"
  "topology_enc (undigested_fabric next_builder) = map of_nat next_bytes"
  unfolding builders_eval by code_simp+

lemma evidence_encodings:
  "length (evidence_enc (undigested_fabric boot_builder)) = 31" "length (evidence_enc (undigested_fabric next_builder)) = 31"
  unfolding builders_eval by code_simp+

lemma empty_builder_ok:
  "graph_clean (empty_builder g st)" "report_errors (fb_report (empty_builder g st)) = []" "\<not> fb_frozen (empty_builder g st)"
  "fb_limits (empty_builder g st) = sample_limits" "history_disjoint (empty_builder g st)"
  by (simp_all add: empty_builder_def graph_clean_def report_errors_def empty_report_def history_disjoint_def)

lemma empty_encodable:
  assumes "client_inv (empty_builder g st)" and "length (topology_enc (undigested_fabric (empty_builder g st))) = 86"
    and "length (evidence_enc (undigested_fabric (empty_builder g st))) = 31"
  shows "encodable (empty_builder g st)"
proof -
  have "fabric_fits (undigested_fabric (empty_builder g st))"
    using assms(2,3) by (simp add: fabric_fits_def kDefaultMaxBytes_def)
  then show ?thesis
    using assms(1) empty_builder_ok [of g st] by (simp add: encodable_def fits_frozen sample_limits_def)
qed

lemma builders_encodable: "encodable boot_builder" "encodable next_builder"
proof -
  show "encodable boot_builder"
    using builders_inv(1) topology_encodings(1) evidence_encodings(1) unfolding builders_eval
    by (intro empty_encodable) (simp_all add: boot_bytes_def)
  show "encodable next_builder"
    using builders_inv(2) topology_encodings(2) evidence_encodings(2) unfolding builders_eval
    by (intro empty_encodable) (simp_all add: next_bytes_def)
qed

lemma digest_two_blocks:
  assumes w0: "be_words b0 = w0" and s0: "compress_n initial_n w0 = s0" and w1: "be_words b1 = w1"
    and s1: "compress_n s0 w1 = s1" and pad: "m @ sha_padding (length m) = map of_nat (b0 @ b1)"
    and b0: "length b0 = 64" "list_all (\<lambda>x. x < 256) b0" "words32 w0"
    and b1: "length b1 = 64" "list_all (\<lambda>x. x < 256) b1" "words32 w1" and "length s0 = 8" and "words32 s0"
  shows "digest_of m = concat (map be32_bytes (map of_nat s1))"
proof -
  have i: "length initial_n = 8" "words32 initial_n" by (simp_all add: initial_n_def words32_def)
  have "sha_absorb (map of_nat initial_n) (map of_nat (b0 @ b1)) = sha_absorb (map of_nat s0) (map of_nat (b1 @ []))"
    unfolding append_Nil2 by (rule absorb_of_nat [OF w0 s0 b0 i])
  also have "\<dots> = sha_absorb (map of_nat s1) (map of_nat [])"
    by (rule absorb_of_nat [OF w1 s1 b1 assms(12,13)])
  finally have "sha_absorb kInitialState (map of_nat (b0 @ b1)) = map of_nat s1"
    by (simp add: sha_absorb.simps [of _ "[]"] kInitialState_def initial_n_def)
  then show ?thesis unfolding digest_of_reference sha256_reference_def pad by (simp only:)
qed

lemma frozen_nonzero:
  assumes "encodable b" and "topology_enc (undigested_fabric b) = m" and "\<not> digest_is_zero (digest_of m)"
  shows "\<not> digest_is_zero (fab_topology_digest (frozen_fabric b))"
proof -
  have "fabric_texts_ok (frozen_fabric b)" "fabric_fits (frozen_fabric b)"
    using encodable_texts [OF assms(1)] assms(1) by (simp_all add: encodable_def)
  then have "canonical_topology_bytes (frozen_fabric b) = topology_enc (frozen_fabric b)" by (rule canonical_topology_exact)
  moreover have "topology_enc (frozen_fabric b) = topology_enc (undigested_fabric b)"
    by (simp add: topology_enc_def frozen_fabric_def with_digests_def topology_fields_def header_fields_def)
  ultimately show ?thesis
    using frozen_digests [of b] assms(2,3) by (simp add: compute_digests_def)
qed

lemma boot_block_1: "compress_n initial_n
      [0xf000000, 0x736c662e, 0x746f706f, 0x6c6f6779, 0x2e763107, 0, 3, 0x64, 0x63310000, 0x100, 0, 0x100,
      0, 0x200, 0x10000, 0]
    = [0xf478888, 0xd7752e99, 0x99bcd635, 0xd2b11cb7, 0xe9ad401e, 0x38f3fd22, 0xb3ad553e, 0x741413e9]"
  by (simp add: sha_eval initial_n_def)

lemma boot_block_2: "compress_n
      [0xf478888, 0xd7752e99, 0x99bcd635, 0xd2b11cb7, 0xe9ad401e, 0x38f3fd22, 0xb3ad553e, 0x741413e9]
      [0, 0, 0, 0, 0, 0x8000, 0, 0, 0, 0, 0, 0, 0, 0, 0, 0x2b0]
    = [0xfce414b3, 0xa4c959be, 0xe5a1065b, 0x51de12ef, 0x32dccf29, 0x2ce39d11, 0x9274f59b, 0x132c29e8]"
  by (simp add: sha_eval)

lemma boot_digest: "\<not> digest_is_zero (digest_of (map of_nat boot_bytes))"
proof -
  let ?b0 = "[15, 0, 0, 0, 115, 108, 102, 46, 116, 111, 112, 111, 108, 111, 103, 121, 46, 118, 49, 7, 0, 0, 0, 0,
      0, 0, 0, 3, 0, 0, 0, 100, 99, 49, 0, 0, 0, 0, 1, 0, 0, 0, 0, 0, 0, 0, 1, 0, 0, 0, 0, 0, 0, 0, 2, 0,
      0, 1, 0, 0, 0, 0, 0, 0] :: nat list"
  let ?b1 = "[0, 0, 0, 0, 0, 0, 0, 0, 0, 0, 0, 0, 0, 0, 0, 0, 0, 0, 0, 0, 0, 0, 128, 0, 0, 0, 0, 0, 0, 0, 0, 0,
      0, 0, 0, 0, 0, 0, 0, 0, 0, 0, 0, 0, 0, 0, 0, 0, 0, 0, 0, 0, 0, 0, 0, 0, 0, 0, 0, 0, 0, 0, 2, 176] :: nat list"
  have w: "be_words ?b0 = [0xf000000, 0x736c662e, 0x746f706f, 0x6c6f6779, 0x2e763107, 0, 3, 0x64, 0x63310000, 0x100, 0, 0x100,
      0, 0x200, 0x10000, 0]"
    "be_words ?b1 = [0, 0, 0, 0, 0, 0x8000, 0, 0, 0, 0, 0, 0, 0, 0, 0, 0x2b0]"
    by simp_all
  have "map of_nat boot_bytes @ sha_padding (length (map of_nat boot_bytes :: u8 list)) = map of_nat (?b0 @ ?b1)"
    unfolding boot_bytes_def by code_simp
  from digest_two_blocks [OF w(1) boot_block_1 w(2) boot_block_2 this] show ?thesis
    by (simp add: words32_def digest_is_zero_def be32_bytes_def)
qed

lemma next_block_1: "compress_n initial_n
      [0xf000000, 0x736c662e, 0x746f706f, 0x6c6f6779, 0x2e763107, 0, 3, 0x64, 0x63310000, 0x200, 0, 0x100,
      0, 0x300, 0x10000, 0]
    = [0x6d61beda, 0xca392157, 0xf31d1453, 0x2b1be3b, 0xa04d9f70, 0xfdf0d0b7, 0xf0ffaa78, 0xaefd3839]"
  by (simp add: sha_eval initial_n_def)

lemma next_block_2: "compress_n
      [0x6d61beda, 0xca392157, 0xf31d1453, 0x2b1be3b, 0xa04d9f70, 0xfdf0d0b7, 0xf0ffaa78, 0xaefd3839]
      [0, 0, 0, 0, 0, 0x8000, 0, 0, 0, 0, 0, 0, 0, 0, 0, 0x2b0]
    = [0x212d2c82, 0x276e3324, 0xfd35ed24, 0x4149b7e, 0x356354b5, 0x86a5a4e7, 0x398d9b4, 0x283193fe]"
  by (simp add: sha_eval)

lemma next_digest: "\<not> digest_is_zero (digest_of (map of_nat next_bytes))"
proof -
  let ?b0 = "[15, 0, 0, 0, 115, 108, 102, 46, 116, 111, 112, 111, 108, 111, 103, 121, 46, 118, 49, 7, 0, 0, 0, 0,
      0, 0, 0, 3, 0, 0, 0, 100, 99, 49, 0, 0, 0, 0, 2, 0, 0, 0, 0, 0, 0, 0, 1, 0, 0, 0, 0, 0, 0, 0, 3, 0,
      0, 1, 0, 0, 0, 0, 0, 0] :: nat list"
  let ?b1 = "[0, 0, 0, 0, 0, 0, 0, 0, 0, 0, 0, 0, 0, 0, 0, 0, 0, 0, 0, 0, 0, 0, 128, 0, 0, 0, 0, 0, 0, 0, 0, 0,
      0, 0, 0, 0, 0, 0, 0, 0, 0, 0, 0, 0, 0, 0, 0, 0, 0, 0, 0, 0, 0, 0, 0, 0, 0, 0, 0, 0, 0, 0, 2, 176] :: nat list"
  have w: "be_words ?b0 = [0xf000000, 0x736c662e, 0x746f706f, 0x6c6f6779, 0x2e763107, 0, 3, 0x64, 0x63310000, 0x200, 0, 0x100,
      0, 0x300, 0x10000, 0]"
    "be_words ?b1 = [0, 0, 0, 0, 0, 0x8000, 0, 0, 0, 0, 0, 0, 0, 0, 0, 0x2b0]"
    by simp_all
  have "map of_nat next_bytes @ sha_padding (length (map of_nat next_bytes :: u8 list)) = map of_nat (?b0 @ ?b1)"
    unfolding next_bytes_def by code_simp
  from digest_two_blocks [OF w(1) next_block_1 w(2) next_block_2 this] show ?thesis
    by (simp add: words32_def digest_is_zero_def be32_bytes_def)
qed

definition boot_fabric :: fabric where
  "boot_fabric = frozen_fabric boot_builder"

definition next_fabric :: fabric where
  "next_fabric = frozen_fabric next_builder"

lemma frozen_empty:
  "fab_id (frozen_fabric (empty_builder g st)) = 7" "fab_name (frozen_fabric (empty_builder g st)) = ''dc1''"
  "fab_site (frozen_fabric (empty_builder g st)) = []" "fab_generation (frozen_fabric (empty_builder g st)) = g"
  "fab_epoch (frozen_fabric (empty_builder g st)) = 1" "fab_state (frozen_fabric (empty_builder g st)) = st"
  "fab_options (frozen_fabric (empty_builder g st)) = default_fabric_options"
  "fab_domains (frozen_fabric (empty_builder g st)) = []" "fab_leaves (frozen_fabric (empty_builder g st)) = []"
  "fab_spines (frozen_fabric (empty_builder g st)) = []" "fab_ports (frozen_fabric (empty_builder g st)) = []"
  "fab_links (frozen_fabric (empty_builder g st)) = []" "fab_history_links (frozen_fabric (empty_builder g st)) = []"
  "fab_evidence (frozen_fabric (empty_builder g st)) = []"
  by (simp_all add: empty_builder_def frozen_fabric_def with_digests_def undigested_fabric_def std_sort_def)

lemma empty_freezes:
  "client_inv (empty_builder g st) \<Longrightarrow> fst (freeze (empty_builder g st)) = Inr (frozen_fabric (empty_builder g st))"
  unfolding frozen_fabric_def using freeze_succeeds empty_builder_ok by (simp add: client_inv_def)

lemma empty_indexed:
  assumes "client_inv (empty_builder g st)" and "\<not> digest_is_zero (fab_topology_digest (frozen_fabric (empty_builder g st)))"
  shows "\<exists>ix. index_build (Some (frozen_fabric (empty_builder g st))) = Inr ix"
proof -
  have "fabric_wf sample_limits (frozen_fabric (empty_builder g st))"
    using frozen_fabric_wf [OF assms(1) empty_builder_ok(1,2)] by (simp add: empty_builder_ok)
  then have "indexable (frozen_fabric (empty_builder g st))"
    by (rule wf_indexable [OF _ assms(2)]) (simp_all add: frozen_empty empty_builder_def)
  from index_build_total [OF this] show ?thesis by blast
qed

definition boot_index :: topology_index where
  "boot_index = projr (index_build (Some boot_fabric))"

definition next_index :: topology_index where
  "next_index = projr (index_build (Some next_fabric))"

lemma indexes: "index_build (Some boot_fabric) = Inr boot_index" "index_build (Some next_fabric) = Inr next_index"
proof -
  have "\<not> digest_is_zero (fab_topology_digest boot_fabric)" "\<not> digest_is_zero (fab_topology_digest next_fabric)"
    unfolding boot_fabric_def next_fabric_def
    by (rule frozen_nonzero [OF builders_encodable(1) topology_encodings(1) boot_digest]
        frozen_nonzero [OF builders_encodable(2) topology_encodings(2) next_digest])+
  then have "\<exists>ix. index_build (Some boot_fabric) = Inr ix" "\<exists>ix. index_build (Some next_fabric) = Inr ix"
    using empty_indexed builders_inv unfolding boot_fabric_def next_fabric_def builders_eval by blast+
  then show "index_build (Some boot_fabric) = Inr boot_index" "index_build (Some next_fabric) = Inr next_index"
    by (auto simp: boot_index_def next_index_def)
qed

lemma boot_recoverable: "recoverable sample_limits boot_fabric" "length (serialize_fabric boot_fabric) = 129"
proof -
  show "recoverable sample_limits boot_fabric"
    using deserialize_serialize [OF builders_encodable(1)] empty_builder_ok [of 1 FS_Operational]
    by (simp add: recoverable_def boot_fabric_def builders_eval)
  have "fabric_texts_ok boot_fabric" "fabric_fits boot_fabric"
    using encodable_texts builders_encodable(1) by (simp_all add: boot_fabric_def encodable_def)
  moreover have "length (topology_enc boot_fabric) = 86" "length (evidence_enc boot_fabric) = 31"
    using topology_encodings(1) evidence_encodings(1)
    by (simp_all add: boot_fabric_def topology_enc_def evidence_enc_def frozen_fabric_def with_digests_def
        topology_fields_def header_fields_def evidence_block_fields_def boot_bytes_def)
  ultimately show "length (serialize_fabric boot_fabric) = 129"
    by (simp add: serialize_exact block_enc_def)
qed

section \<open>Booting\<close>

definition boot_io :: write_io where
  "boot_io = \<lparr>wi_header = 200, wi_payload = 4096, wi_flush = True, wi_sync = status_success\<rparr>"

definition boot_env :: start_env where
  "boot_env = \<lparr>se_pid = 1, se_mint_now = 2, se_mint_monotonic = 3, se_mint_sequence = 4, se_faults = (\<lambda>_. None),
     se_snapshot = \<lparr>sw_open = True, sw_write = boot_io, sw_rename = True, sw_remove = True\<rparr>, se_removed = (\<lambda>_. True),
     se_create = \<lparr>ci_mkdir_error = None, ci_open = True, ci_now_unix_ms = 1000, ci_write = boot_io, ci_remove = True\<rparr>,
     se_first_write = boot_io, se_second_write = boot_io, se_monotonic_ms = 5\<rparr>"

definition boot_config :: runtime_config where
  "boot_config = \<lparr>rc_fabric_id = 7, rc_name = ''dc1'', rc_site = [], rc_options = default_fabric_options,
     rc_limits = sample_limits, rc_state_dir = ''/s'', rc_enable_persistence = True, rc_worker_threads = 1,
     rc_authority_ttl_ms = 1000, rc_max_dedup_entries = 16, rc_max_command_history = 16,
     rc_compaction_record_threshold = 64, rc_sweep_interval_ms = 100, rc_store = default_store_config,
     rc_recover_evidence_as_historical = True\<rparr>"

definition absent_dir :: state_dir where
  "absent_dir = \<lparr>sd_name = ''/s'', sd_exists = False, sd_listable = True, sd_files = []\<rparr>"

definition boot_runtime :: runtime where
  "boot_runtime = new_runtime boot_config absent_dir"

definition boot_started :: runtime where
  "boot_started = snd (start boot_env boot_runtime)"

lemma boot_initial:
  "rt_config rt = boot_config \<or> rt_config rt = boot_config\<lparr>rc_enable_persistence := False\<rparr> \<Longrightarrow>
     initial_fabric (start_reset env rt) = Inr boot_fabric"
  using empty_freezes [of 1 FS_Operational] builders_inv(1)
  by (auto simp: initial_fabric_def start_reset_def boot_config_def boot_fabric_def boot_builder_def [symmetric] builders_eval Let_def)

lemma boot_fresh: "fresh_runtime boot_runtime" "persistent boot_runtime" "rt_config boot_runtime = boot_config"
  by (simp_all add: fresh_runtime_def persistent_def boot_runtime_def new_runtime_def absent_dir_def boot_config_def)

lemma boot_disk: "disk_works boot_env boot_fabric" "roomy default_store_config boot_fabric"
  by (simp_all add: disk_works_def boot_env_def boot_io_def accepts_def roomy_def boot_recoverable default_store_config_def)

lemma boot_started:
  "start boot_env boot_runtime = (status_success, boot_started)" "rt_started boot_started"
  "rt_fabric boot_started = Some boot_fabric" "rt_epoch boot_started = 1"
proof -
  have "\<exists>rt'. start boot_env boot_runtime = (status_success, rt') \<and> rt_started rt' \<and> rt_fabric rt' = Some boot_fabric
      \<and> rt_index rt' = Some boot_index \<and> rt_epoch rt' = 1 \<and> rt_lease rt' = None"
    using boot_fresh boot_disk indexes(1)
    by (intro first_boot_works boot_initial) (simp_all add: boot_config_def)
  then show "start boot_env boot_runtime = (status_success, boot_started)" "rt_started boot_started"
    "rt_fabric boot_started = Some boot_fabric" "rt_epoch boot_started = 1"
    by (auto simp: boot_started_def)
qed

section \<open>A command committed in memory\<close>

definition mem_runtime :: runtime where
  "mem_runtime = new_runtime (boot_config\<lparr>rc_enable_persistence := False\<rparr>) absent_dir"

definition mem_started :: runtime where
  "mem_started = snd (start boot_env mem_runtime)"

lemma mem_started:
  "start boot_env mem_runtime = (status_success, mem_started)"
  "mem_started = mem_runtime\<lparr>rt_incarnation := mint_incarnation 1 2 3 4, rt_epoch := 1, rt_fabric := Some boot_fabric,
     rt_index := Some boot_index, rt_generation := 1, rt_started_at_ms := 5, rt_started := True, rt_workers := 1\<rparr>"
proof -
  have run: "start boot_env mem_runtime = (status_success, mem_runtime\<lparr>rt_incarnation := mint_incarnation 1 2 3 4, rt_epoch := 1,
     rt_fabric := Some boot_fabric, rt_index := Some boot_index, rt_generation := 1, rt_started_at_ms := 5, rt_started := True,
     rt_workers := 1\<rparr>)"
    using boot_initial [of mem_runtime boot_env] indexes(1) frozen_empty [of 1 FS_Operational]
    by (simp add: start_def start_recover_def start_publish_def start_journal_def persistent_def mem_runtime_def new_runtime_def
        start_reset_def visible_dir_def boot_env_def boot_config_def boot_fabric_def builders_eval empty_recovery_def)
  then show "start boot_env mem_runtime = (status_success, mem_started)"
    "mem_started = mem_runtime\<lparr>rt_incarnation := mint_incarnation 1 2 3 4, rt_epoch := 1, rt_fabric := Some boot_fabric,
     rt_index := Some boot_index, rt_generation := 1, rt_started_at_ms := 5, rt_started := True, rt_workers := 1\<rparr>"
    by (simp_all add: mem_started_def)
qed

definition mem_lease :: authority_lease where
  "mem_lease = new_lease ''op'' 5000 6000 mem_started"

definition mem_leased :: runtime where
  "mem_leased = mem_started\<lparr>rt_lease_counter := 1, rt_lease := Some mem_lease\<rparr>"

lemma mem_leased: "acquire_authority ''op'' 1000 5000 boot_io mem_started = (Inr mem_lease, mem_leased)"
proof -
  have "is_valid_utf8 ''op''" by code_simp
  moreover have "checked_add (5000 :: u64) 1000 = Some 6000" by code_simp
  ultimately show ?thesis
    by (simp add: acquire_authority_def mem_leased_def mem_lease_def journal_append_def mem_started(2) mem_runtime_def
        new_runtime_def Let_def)
qed

definition drain_command :: command where
  "drain_command = sample_command\<lparr>cm_token := al_token mem_lease, cm_kind := CK_SetFabricState, cm_fabric_state := FS_Draining\<rparr>"

lemma drain_effect: "apply_command_to sample_limits boot_fabric drain_command 2 1 observer = Inr next_fabric"
proof -
  have "modified_builder sample_limits (stamp_generation 2 (command_effect boot_fabric drain_command 2 1 observer))
      = (status_success, next_builder)"
    using frozen_empty [of 1 FS_Operational]
    by (simp add: modified_builder_def stamp_generation_def command_effect_def drain_command_def boot_fabric_def
        builders_eval(1) next_builder_def and_then_def Let_def)
  then show ?thesis
    using empty_freezes [of 2 FS_Draining] builders_inv(2)
    by (simp add: apply_command_to_def builder_from_modified_def next_fabric_def builders_eval(2))
qed

definition drained :: "command_result option \<times> runtime" where
  "drained = apply_locked drain_command 5500 boot_io mem_leased"

lemma drained:
  obtains r where "drained = (Some r, snd drained)" "cr_mutated r" "\<not> cr_deduplicated r" "rt_fabric (snd drained) = Some next_fabric"
    "rt_started (snd drained)"
proof -
  have tok: "ck_code (validate_token (cm_token drain_command) (authority_context_locked 5500 mem_leased)) = SC_Ok"
    by (simp add: validate_token_def drain_command_def mem_lease_def new_lease_def authority_context_locked_def mem_leased_def
        mem_started(2) mem_runtime_def new_runtime_def mint_not_zero expired_at_def check_ok_def)
  have c: "drained = commit_command drain_command next_fabric next_index boot_io mem_leased"
    using tok drain_effect [of "rt_incarnation mem_leased"] indexes(2)
    by (simp add: drained_def apply_locked_def apply_admitted_def mem_leased_def mem_started(2) mem_runtime_def new_runtime_def
        drain_command_def sample_command_def boot_config_def Let_def is_topology_command_def next_generation_def command_precondition_def)
  have "hits_fault p mem_leased = False" "rt_store mem_leased = None" "rt_started mem_leased" for p
    by (simp_all add: hits_fault_def mem_leased_def mem_started(2) mem_runtime_def new_runtime_def)
  then have "\<exists>r. drained = (Some r, snd drained) \<and> cr_mutated r \<and> \<not> cr_deduplicated r
      \<and> rt_fabric (snd drained) = Some next_fabric \<and> rt_started (snd drained)"
    unfolding c commit_command_def journal_append_def publish_command_def commit_result_def
    by (simp add: Let_def base_result_def blank_result_def hits_fault_def split: option.split)
  then show thesis using that by blast
qed

section \<open>The bounds the snapshot reader uses\<close>

definition wide_builder :: fabric_builder where
  "wide_builder = snd (set_site [] (new_builder 7 ''dc1'' 1 1 default_fabric_options default_builder_limits))"

lemma wide_builder_eval: "wide_builder = (empty_builder 1 FS_Operational)\<lparr>fb_limits := default_builder_limits\<rparr>"
proof -
  have "is_valid_utf8 ''dc1''" by code_simp
  then have "check_name ''dc1'' (lim_max_name_bytes default_builder_limits) = NV_Acceptable"
    unfolding check_name_def default_builder_limits_def by simp
  then show ?thesis
    by (simp add: wide_builder_def new_builder_def set_site_def empty_builder_def default_fabric_options_def Let_def)
qed

lemma snapshot_recoverable: "deserialize_fabric (serialize_fabric boot_fabric) default_builder_limits = Inr boot_fabric"
proof -
  have same: "frozen_fabric wide_builder = boot_fabric" "undigested_fabric wide_builder = undigested_fabric boot_builder"
    by (simp_all add: wide_builder_eval boot_fabric_def builders_eval frozen_fabric_def undigested_fabric_def)
  have "client_inv wide_builder" unfolding wide_builder_def by (intro reachable_client_inv builder_reachable.intros)
  then have "encodable wide_builder"
    using builders_encodable(1) empty_builder_ok [of 1 FS_Operational] unfolding encodable_def same
    by (simp add: wide_builder_eval boot_fabric_def graph_clean_def empty_builder_def default_builder_limits_def)
  from deserialize_serialize [OF this] show ?thesis
    unfolding same by (simp add: wide_builder_eval history_disjoint_def empty_builder_def)
qed

section \<open>Observations\<close>

lemma mem_fresh: "fresh_runtime mem_runtime"
  by (simp add: fresh_runtime_def mem_runtime_def new_runtime_def absent_dir_def)

lemma fabrics_differ: "boot_fabric \<noteq> next_fabric"
proof
  assume "boot_fabric = next_fabric"
  then have "fab_generation boot_fabric = fab_generation next_fabric" by simp
  then show False by (simp add: boot_fabric_def next_fabric_def builders_eval frozen_empty empty_builder_def)
qed

lemma sweep_view: "rt_store (sweep now rt) = rt_store rt" "rt_dir (sweep now rt) = rt_dir rt" "same_view rt (sweep now rt)"
  by (simp_all add: sweep_def same_view_def Let_def split: option.split)

lemma swept_boot:
  obtains s where "rt_store (sweep 9 boot_started) = Some s" "\<not> fs_poisoned s" "readable boot_env (sweep 9 boot_started) s"
    "dir_get (rt_dir (sweep 9 boot_started)) default_snapshot_path = None" "rt_config (sweep 9 boot_started) = boot_config"
    "rt_fabric (sweep 9 boot_started) = Some boot_fabric" "rt_epoch (sweep 9 boot_started) = 1"
proof -
  have small: "unat (cfg_max_record_bytes (rc_store (rt_config boot_runtime))) < 2 ^ 32"
    using boot_fresh(3) by (simp add: boot_config_def default_store_config_def)
  obtain s where s: "rt_store boot_started = Some s" "\<not> fs_poisoned s" "fs_segment_index s = 1"
    "length (fs_disk s) = 352 + length (serialize_fabric (the (rt_fabric boot_started)))"
    "dir_get (rt_dir boot_started) default_snapshot_path = None" "rt_config boot_started = rt_config boot_runtime"
    by (rule first_boot_store [OF boot_started(1,2) boot_fresh(1,2) small])
  have v: "rt_config (sweep 9 boot_started) = boot_config" "rt_fabric (sweep 9 boot_started) = Some boot_fabric"
    "rt_epoch (sweep 9 boot_started) = 1"
    using sweep_view(3) [of boot_started 9] s(6) boot_fresh(3) boot_started by (simp_all add: same_view_def)
  have "length (fs_disk s) = 481" using s(4) by (simp add: boot_started(3) boot_recoverable(2))
  then have "readable boot_env (sweep 9 boot_started) s"
    by (simp add: readable_def v boot_env_def boot_config_def default_store_config_def kReplayBound_def)
  then show thesis using that s v by (simp add: sweep_view)
qed

end
