(* ===== verification/SLF_Spec.thy ===== *)
theory SLF_Spec
  imports SLF_Sample "HOL-Library.List_Lexorder" "HOL-Library.Char_ord"
begin

text \<open>
  The textual fabric specification (\<open>include/slf/spec.hpp\<close>, \<open>src/spec.cpp\<close>): the tokenizer, the strict
  key accessor \<open>Args\<close>, the directive handlers of \<open>parse_spec\<close> over the fabric builder, and the canonical
  rendering \<open>format_spec\<close>. A position in a line is the suffix still to be read. A handler returns the
  parser's state, or the status \<open>parse_spec\<close> returns at once. The main result is that a frozen fabric
  is parsed back from its rendering.
\<close>

section \<open>Tokens\<close>

record spec_token =
  tk_key :: string
  tk_value :: string
  tk_quoted :: bool

definition quote_char :: char where
  "quote_char = CHR 0x22"

definition backslash :: char where
  "backslash = CHR 0x5C"

definition is_space :: "char \<Rightarrow> bool" where
  "is_space c = (c = CHR '' '' \<or> c = CHR 0x09 \<or> c = CHR 0x0D)"

definition escape_char :: "char \<Rightarrow> string" where
  "escape_char c =
     (if c = quote_char then [backslash, quote_char]
      else if c = backslash then [backslash, backslash]
      else if c = CHR 0x0A then [backslash, CHR ''n'']
      else if c = CHR 0x09 then [backslash, CHR ''t'']
      else if c = CHR 0x0D then [backslash, CHR ''r'']
      else [c])"

definition quote_value :: "string \<Rightarrow> string" where
  "quote_value t = [quote_char] @ concat (map escape_char t) @ [quote_char]"

text \<open>\<open>label "text"\<close> in a detail.\<close>

definition quoted :: "string \<Rightarrow> string" where
  "quoted t = [quote_char] @ t @ [quote_char]"

text \<open>The loop over a quoted value: the value and the suffix after its closing quote.\<close>

fun scan_quoted :: "string \<Rightarrow> string \<Rightarrow> (string \<times> string) outcome" where
  "scan_quoted v [] = Inl (Status SC_Invalid ''unterminated quoted value'')"
| "scan_quoted v (c # cs) =
     (if c = backslash
      then (case cs of
              [] \<Rightarrow> Inl (Status SC_Invalid ''trailing backslash in a quoted value'')
            | e # rest \<Rightarrow>
                if e = CHR ''n'' then scan_quoted (v @ [CHR 0x0A]) rest
                else if e = CHR ''t'' then scan_quoted (v @ [CHR 0x09]) rest
                else if e = CHR ''r'' then scan_quoted (v @ [CHR 0x0D]) rest
                else if e = quote_char then scan_quoted (v @ [quote_char]) rest
                else if e = backslash then scan_quoted (v @ [backslash]) rest
                else Inl (Status SC_Invalid ''unsupported escape sequence in a quoted value''))
      else if c = quote_char then Inr (v, cs)
      else scan_quoted (v @ [c]) cs)"

lemma scan_quoted_length: "scan_quoted v cs = Inr (t, rest) \<Longrightarrow> length rest < length cs"
  by (induction v cs rule: scan_quoted.induct) (auto split: if_splits list.splits)

function token_loop :: "spec_token list \<Rightarrow> string \<Rightarrow> status \<times> spec_token list" where
  "token_loop out line =
     (let s = dropWhile is_space line in
      if s = [] then (status_success, out)
      else let key = takeWhile (\<lambda>c. c \<noteq> CHR ''='' \<and> \<not> is_space c) s;
               r = dropWhile (\<lambda>c. c \<noteq> CHR ''='' \<and> \<not> is_space c) s in
        if r = [] \<or> hd r \<noteq> CHR ''=''
        then (Status SC_Invalid (''expected key=value near '' @ quoted s), out)
        else if key = [] then (Status SC_Invalid ''empty key in a key=value pair'', out)
        else let v = tl r in
          if v \<noteq> [] \<and> hd v = quote_char
          then (case scan_quoted [] (tl v) of
                  Inl st \<Rightarrow> (st, out)
                | Inr (val, rest) \<Rightarrow> token_loop (out @ [\<lparr>tk_key = key, tk_value = val, tk_quoted = True\<rparr>]) rest)
          else let val = takeWhile (\<lambda>c. \<not> is_space c) v in
            if val = [] then (Status SC_Invalid ''empty unquoted value'', out)
            else token_loop (out @ [\<lparr>tk_key = key, tk_value = val, tk_quoted = False\<rparr>])
                   (dropWhile (\<lambda>c. \<not> is_space c) v))"
  by pat_completeness auto

lemma drop_twice_length:
  "length (tl (dropWhile P (dropWhile Q xs))) \<le> length xs" "length (dropWhile P xs) \<le> length xs"
  using length_dropWhile_le [of P "dropWhile Q xs"] length_dropWhile_le [of Q xs] length_dropWhile_le [of P xs] by simp_all

termination token_loop
proof (relation "measure (\<lambda>(out, line). length line)", goal_cases)
  case 1
  show ?case by simp
next
  case (2 out line s key r v y t rest)
  let ?t = "tl (dropWhile (\<lambda>c. c \<noteq> CHR ''='' \<and> \<not> is_space c) (dropWhile is_space line))"
  have "length rest < length (tl v)" using 2 scan_quoted_length by blast
  moreover have "length (tl v) \<le> length ?t" using 2 by simp
  ultimately show ?case
    using drop_twice_length(1) [of "\<lambda>c. c \<noteq> CHR ''='' \<and> \<not> is_space c" is_space line] by simp
next
  case (3 out line s key r v val)
  let ?s = "dropWhile is_space line"
  let ?r = "dropWhile (\<lambda>c. c \<noteq> CHR ''='' \<and> \<not> is_space c) ?s"
  have "length ?r \<le> length ?s" by (rule drop_twice_length(2))
  moreover have "length ?s \<le> length line" by (rule drop_twice_length(2))
  moreover have "length (dropWhile (\<lambda>c. \<not> is_space c) (tl ?r)) \<le> length (tl ?r)" by (rule drop_twice_length(2))
  moreover have "?r \<noteq> []" using 3 by simp
  then have "length (tl ?r) < length ?r" by simp
  ultimately have "length (dropWhile (\<lambda>c. \<not> is_space c) (tl ?r)) < length line" by linarith
  with 3 show ?case by simp
qed

declare token_loop.simps [simp del]

definition tokenize_line :: "string \<Rightarrow> status \<times> spec_token list" where
  "tokenize_line line =
     (let s = dropWhile is_space line in
      if s = [] then (status_success, [])
      else token_loop [\<lparr>tk_key = takeWhile (\<lambda>c. \<not> is_space c) s, tk_value = [], tk_quoted = False\<rparr>]
             (dropWhile (\<lambda>c. \<not> is_space c) s))"

section \<open>Arguments of a directive\<close>

record args =
  ar_values :: "(string, string) omap"
  ar_where :: string
  ar_duplicate :: string

definition new_args :: "spec_token list \<Rightarrow> string \<Rightarrow> args" where
  "new_args tokens whr =
     fold (\<lambda>t a. a\<lparr>ar_duplicate := (if omap_count (ar_values a) (tk_key t) then tk_key t else ar_duplicate a),
                   ar_values := omap_put (tk_key t) (tk_value t) (ar_values a)\<rparr>)
       (tl tokens) \<lparr>ar_values = [], ar_where = whr, ar_duplicate = []\<rparr>"

definition args_check :: "args \<Rightarrow> status" where
  "args_check a =
     (if ar_duplicate a \<noteq> [] then Status SC_Invalid (ar_where a @ '': duplicate key '' @ quoted (ar_duplicate a))
      else status_success)"

definition missing_key :: "args \<Rightarrow> string \<Rightarrow> status" where
  "missing_key a key = Status SC_Invalid (ar_where a @ '': missing required key '' @ quoted key)"

definition args_str :: "args \<Rightarrow> string \<Rightarrow> bool \<Rightarrow> nat \<Rightarrow> string \<Rightarrow> string outcome" where
  "args_str a key required max_bytes fallback =
     (case map_of (ar_values a) key of
        None \<Rightarrow> if required then Inl (missing_key a key) else Inr fallback
      | Some v \<Rightarrow>
          if v = [] then Inl (Status SC_Invalid (ar_where a @ '': key '' @ quoted key @ '' is empty''))
          else if length v > max_bytes
          then Inl (Status SC_Exhausted (ar_where a @ '': key '' @ quoted key @ '' exceeds the configured length bound''))
          else if \<not> is_valid_utf8 v
          then Inl (Status SC_Invalid (ar_where a @ '': key '' @ quoted key @ '' is not valid UTF-8''))
          else Inr v)"

definition args_u64 :: "args \<Rightarrow> string \<Rightarrow> bool \<Rightarrow> u64 \<Rightarrow> u64 outcome" where
  "args_u64 a key required fallback =
     (case map_of (ar_values a) key of
        None \<Rightarrow> if required then Inl (missing_key a key) else Inr fallback
      | Some v \<Rightarrow>
          (case parse_u64 v of
             None \<Rightarrow> Inl (Status SC_Invalid (ar_where a @ '': key '' @ quoted key @ '' is not an unsigned decimal integer''))
           | Some n \<Rightarrow> Inr n))"

definition args_u32 :: "args \<Rightarrow> string \<Rightarrow> bool \<Rightarrow> u32 \<Rightarrow> u32 outcome" where
  "args_u32 a key required fallback =
     (case args_u64 a key required (ucast fallback) of
        Inl s \<Rightarrow> Inl s
      | Inr v \<Rightarrow>
          (case checked_narrow_u32 v of
             None \<Rightarrow> Inl (Status SC_Overflow (ar_where a @ '': key '' @ quoted key @ '' does not fit in 32 bits''))
           | Some n \<Rightarrow> Inr n))"

definition args_boolean :: "args \<Rightarrow> string \<Rightarrow> bool \<Rightarrow> bool \<Rightarrow> bool outcome" where
  "args_boolean a key required fallback =
     (case map_of (ar_values a) key of
        None \<Rightarrow> if required then Inl (missing_key a key) else Inr fallback
      | Some v \<Rightarrow>
          if v = ''true'' then Inr True
          else if v = ''false'' then Inr False
          else Inl (Status SC_Invalid (ar_where a @ '': key '' @ quoted key @ '' must be true or false'')))"

definition reject_unknown :: "args \<Rightarrow> string list \<Rightarrow> status" where
  "reject_unknown a allowed =
     (case filter (\<lambda>k. k \<notin> set allowed) (map fst (ar_values a)) of
        [] \<Rightarrow> status_success
      | k # _ \<Rightarrow> Status SC_Invalid (ar_where a @ '': unknown key '' @ quoted k))"

definition require_generation :: "args \<Rightarrow> topology_generation \<Rightarrow> topology_generation outcome" where
  "require_generation a fallback = args_u64 a ''generation'' False fallback"

section \<open>The parser\<close>

record spec_limits =
  sl_max_file_bytes :: u64
  sl_max_line_bytes :: u32
  sl_max_lines :: u32
  sl_max_name_bytes :: u32
  sl_builder :: builder_limits

definition default_spec_limits :: spec_limits where
  "default_spec_limits = \<lparr>sl_max_file_bytes = 16 * 1024 * 1024, sl_max_line_bytes = 8192, sl_max_lines = 1000000,
     sl_max_name_bytes = 256, sl_builder = default_builder_limits\<rparr>"

text \<open>The local variables of \<open>parse_spec\<close> that outlive a line.\<close>

record spec_state =
  ss_builder :: "fabric_builder option"
  ss_options :: fabric_options
  ss_generation :: topology_generation
  ss_nodes_started :: bool
  ss_have_fabric :: bool
  ss_id :: fabric_id
  ss_name :: string
  ss_site :: string
  ss_epoch :: epoch
  ss_state :: fabric_state

definition initial_spec_state :: spec_state where
  "initial_spec_state = \<lparr>ss_builder = None, ss_options = default_fabric_options, ss_generation = 0,
     ss_nodes_started = False, ss_have_fabric = False, ss_id = 0, ss_name = [], ss_site = [], ss_epoch = 0,
     ss_state = FS_Operational\<rparr>"

definition ensure_builder :: "spec_limits \<Rightarrow> spec_state \<Rightarrow> status \<times> spec_state" where
  "ensure_builder limits st =
     (if ss_builder st \<noteq> None then (status_success, st)
      else if \<not> ss_have_fabric st
      then (Status SC_Invalid ''the fabric directive must appear before any other directive'', st)
      else let b = new_builder (ss_id st) (ss_name st) (ss_generation st) (ss_epoch st) (ss_options st) (sl_builder limits);
               (status, b1) = (if ss_site st \<noteq> [] then set_site (ss_site st) b else (status_success, b))
           in if \<not> status_ok status then (status, st\<lparr>ss_builder := Some b1\<rparr>)
              else (case set_state (ss_state st) b1 of (s2, b2) \<Rightarrow> (s2, st\<lparr>ss_builder := Some b2\<rparr>)))"

text \<open>
  What the record directives share: the builder is made ready, \<open>nodes_started\<close> is set, unknown keys
  are refused, the record is parsed from the arguments (under the fabric's generation) and added.
\<close>

definition add_directive ::
    "spec_limits \<Rightarrow> bool \<Rightarrow> args \<Rightarrow> string list \<Rightarrow> (topology_generation \<Rightarrow> 'r outcome)
     \<Rightarrow> ('r \<Rightarrow> fabric_builder \<Rightarrow> status \<times> fabric_builder) \<Rightarrow> spec_state \<Rightarrow> spec_state outcome" where
  "add_directive limits starts_nodes a allowed parse add st =
     (case ensure_builder limits st of (ready, st1) \<Rightarrow>
      if \<not> status_ok ready then Inl ready
      else let st2 = (if starts_nodes then st1\<lparr>ss_nodes_started := True\<rparr> else st1);
               known = reject_unknown a allowed
           in if \<not> status_ok known then Inl known
              else (case parse (ss_generation st2) of
                      Inl s \<Rightarrow> Inl s
                    | Inr r \<Rightarrow>
                        (case ss_builder st2 of
                           None \<Rightarrow> Inl (Status SC_Internal [])
                         | Some b \<Rightarrow>
                             (case add r b of (added, b') \<Rightarrow>
                              if \<not> status_ok added then Inl added else Inr (st2\<lparr>ss_builder := Some b'\<rparr>)))))"

definition malformed :: "args \<Rightarrow> string \<Rightarrow> status" where
  "malformed a what = Status SC_Invalid (ar_where a @ '': '' @ what @ '' directive has a malformed argument'')"

definition unknown_word :: "args \<Rightarrow> string \<Rightarrow> string \<Rightarrow> status" where
  "unknown_word a what word = Status SC_Invalid (ar_where a @ '': unknown '' @ what @ '' '' @ quoted word)"

definition spec_fabric :: "spec_limits \<Rightarrow> args \<Rightarrow> spec_state \<Rightarrow> spec_state outcome" where
  "spec_fabric limits a st =
     (if ss_have_fabric st
      then Inl (Status SC_Invalid (ar_where a @ '': the fabric directive may appear only once''))
      else let known = reject_unknown a [''id'', ''name'', ''site'', ''generation'', ''epoch'', ''state''] in
      if \<not> status_ok known then Inl known
      else case args_u64 a ''id'' True 0 of
        Inl s \<Rightarrow> Inl s
      | Inr ident \<Rightarrow> (case args_str a ''name'' True (unat (sl_max_name_bytes limits)) [] of
        Inl s \<Rightarrow> Inl s
      | Inr name \<Rightarrow> (case args_str a ''site'' False (unat (sl_max_name_bytes limits)) [] of
        Inl s \<Rightarrow> Inl s
      | Inr site \<Rightarrow> (case args_u64 a ''generation'' False 1 of
        Inl s \<Rightarrow> Inl s
      | Inr gen \<Rightarrow> (case args_u64 a ''epoch'' False 1 of
        Inl s \<Rightarrow> Inl s
      | Inr ep \<Rightarrow>
          if ident = 0 then Inl (Status SC_Invalid (ar_where a @ '': fabric id zero is reserved''))
          else if gen = 0 then Inl (Status SC_Invalid (ar_where a @ '': fabric generation must be non-zero''))
          else let st1 = st\<lparr>ss_generation := gen, ss_id := ident, ss_name := name, ss_site := site, ss_epoch := ep,
                            ss_have_fabric := True\<rparr> in
            (case args_str a ''state'' False 64 [] of
               Inl s \<Rightarrow> Inl s
             | Inr state \<Rightarrow>
                 if state = [] then Inr st1
                 else (case parse_fabric_state state of
                         None \<Rightarrow> Inl (unknown_word a ''fabric state'' state)
                       | Some fs \<Rightarrow> Inr (st1\<lparr>ss_state := fs\<rparr>))))))))"

definition spec_option :: "args \<Rightarrow> spec_state \<Rightarrow> spec_state outcome" where
  "spec_option a st =
     (if ss_nodes_started st
      then Inl (Status SC_Invalid
             (ar_where a @ '': option directives must appear before any node, port, or link directive''))
      else let known = reject_unknown a [''allow_same_tier_adjacency'', ''require_domain_diversity'',
                 ''min_eligible_spines'', ''evidence_policy''] in
      if \<not> status_ok known then Inl known
      else case args_boolean a ''allow_same_tier_adjacency'' False (opt_allow_same_tier_adjacency (ss_options st)) of
        Inl s \<Rightarrow> Inl s
      | Inr peer \<Rightarrow> (case args_boolean a ''require_domain_diversity'' False (opt_require_domain_diversity (ss_options st)) of
        Inl s \<Rightarrow> Inl s
      | Inr diversity \<Rightarrow> (case args_u32 a ''min_eligible_spines'' False (opt_min_eligible_spines (ss_options st)) of
        Inl s \<Rightarrow> Inl s
      | Inr min_spines \<Rightarrow> (case args_str a ''evidence_policy'' False 64 [] of
        Inl s \<Rightarrow> Inl s
      | Inr policy \<Rightarrow>
          let opts = (ss_options st)\<lparr>opt_allow_same_tier_adjacency := peer, opt_require_domain_diversity := diversity,
                       opt_min_eligible_spines := min_spines\<rparr> in
          if policy = [] then Inr (st\<lparr>ss_options := opts\<rparr>)
          else (case parse_evidence_policy policy of
                  None \<Rightarrow> Inl (unknown_word a ''evidence policy'' policy)
                | Some p \<Rightarrow> Inr (st\<lparr>ss_options := opts\<lparr>opt_evidence_policy := p\<rparr>\<rparr>))))))"

definition domain_of_args :: "spec_limits \<Rightarrow> args \<Rightarrow> topology_generation \<Rightarrow> failure_domain_record outcome" where
  "domain_of_args limits a fabric_generation =
     (case args_u32 a ''id'' True 0 of
        Inl s \<Rightarrow> Inl s
      | Inr ident \<Rightarrow> (case args_str a ''name'' True (unat (sl_max_name_bytes limits)) [] of
        Inl s \<Rightarrow> Inl s
      | Inr name \<Rightarrow> (case require_generation a fabric_generation of
        Inl s \<Rightarrow> Inl s
      | Inr gen \<Rightarrow> Inr \<lparr>fd_id = ident, fd_name = name, fd_generation = gen\<rparr>)))"

definition leaf_of_args :: "spec_limits \<Rightarrow> args \<Rightarrow> topology_generation \<Rightarrow> leaf_record outcome" where
  "leaf_of_args limits a fabric_generation =
     (let ident = args_u32 a ''id'' True 0;
          name = args_str a ''name'' True (unat (sl_max_name_bytes limits)) [];
          role_text = args_str a ''role'' True 32 [];
          domain = args_u32 a ''domain'' False 0;
          state_text = args_str a ''state'' False 32 ''active'';
          capacity = args_u64 a ''access_mbps'' False 0;
          access_links = args_u32 a ''access_links'' False 0;
          incarnation = args_u64 a ''role_incarnation'' False 1;
          gen = require_generation a fabric_generation
      in if \<not> outcome_ok ident \<or> \<not> outcome_ok name \<or> \<not> outcome_ok role_text \<or> \<not> outcome_ok domain
            \<or> \<not> outcome_ok state_text \<or> \<not> outcome_ok capacity \<or> \<not> outcome_ok access_links
            \<or> \<not> outcome_ok incarnation \<or> \<not> outcome_ok gen
         then Inl (malformed a ''a leaf'')
         else case parse_leaf_role (projr role_text) of
           None \<Rightarrow>
             (case parse_spine_role (projr role_text) of
                Some _ \<Rightarrow> Inl (Status SC_ContradictoryRole
                  (ar_where a @ '': leaf '' @ u_string (projr ident) @ '' carries a spine-tier role''))
              | None \<Rightarrow> Inl (unknown_word a ''leaf role'' (projr role_text)))
         | Some role \<Rightarrow>
             (case parse_node_state (projr state_text) of
                None \<Rightarrow> Inl (unknown_word a ''node state'' (projr state_text))
              | Some state \<Rightarrow>
                  Inr \<lparr>lf_id = projr ident, lf_name = projr name, lf_role = role,
                       lf_role_incarnation = projr incarnation, lf_domain = projr domain, lf_state = state,
                       lf_access_capacity_mbps = projr capacity, lf_access_link_count = projr access_links,
                       lf_generation = projr gen\<rparr>))"

definition spine_of_args :: "spec_limits \<Rightarrow> args \<Rightarrow> topology_generation \<Rightarrow> spine_record outcome" where
  "spine_of_args limits a fabric_generation =
     (let ident = args_u32 a ''id'' True 0;
          name = args_str a ''name'' True (unat (sl_max_name_bytes limits)) [];
          role_text = args_str a ''role'' True 32 [];
          domain = args_u32 a ''domain'' False 0;
          state_text = args_str a ''state'' False 32 ''active'';
          capacity = args_u64 a ''fabric_mbps'' False 0;
          incarnation = args_u64 a ''role_incarnation'' False 1;
          gen = require_generation a fabric_generation
      in if \<not> outcome_ok ident \<or> \<not> outcome_ok name \<or> \<not> outcome_ok role_text \<or> \<not> outcome_ok domain
            \<or> \<not> outcome_ok state_text \<or> \<not> outcome_ok capacity \<or> \<not> outcome_ok incarnation \<or> \<not> outcome_ok gen
         then Inl (malformed a ''a spine'')
         else case parse_spine_role (projr role_text) of
           None \<Rightarrow>
             (case parse_leaf_role (projr role_text) of
                Some _ \<Rightarrow> Inl (Status SC_ContradictoryRole
                  (ar_where a @ '': spine '' @ u_string (projr ident) @ '' carries a leaf-tier role''))
              | None \<Rightarrow> Inl (unknown_word a ''spine role'' (projr role_text)))
         | Some role \<Rightarrow>
             (case parse_node_state (projr state_text) of
                None \<Rightarrow> Inl (unknown_word a ''node state'' (projr state_text))
              | Some state \<Rightarrow>
                  Inr \<lparr>sp_id = projr ident, sp_name = projr name, sp_role = role,
                       sp_role_incarnation = projr incarnation, sp_domain = projr domain, sp_state = state,
                       sp_fabric_capacity_mbps = projr capacity, sp_generation = projr gen\<rparr>))"

definition port_of_args :: "args \<Rightarrow> topology_generation \<Rightarrow> port_record outcome" where
  "port_of_args a fabric_generation =
     (let ident = args_u32 a ''id'' True 0;
          owner_text = args_str a ''owner'' True 64 [];
          speed = args_u64 a ''speed_mbps'' True 0;
          admin_text = args_str a ''admin'' False 32 ''enabled'';
          gen = require_generation a fabric_generation
      in if \<not> outcome_ok ident \<or> \<not> outcome_ok owner_text \<or> \<not> outcome_ok speed \<or> \<not> outcome_ok admin_text
            \<or> \<not> outcome_ok gen
         then Inl (malformed a ''a port'')
         else case parse_node_key (projr owner_text) of
           None \<Rightarrow> Inl (unknown_word a ''port owner'' (projr owner_text))
         | Some owner \<Rightarrow>
             (case parse_port_admin (projr admin_text) of
                None \<Rightarrow> Inl (unknown_word a ''port admin state'' (projr admin_text))
              | Some admin \<Rightarrow>
                  Inr \<lparr>pt_id = projr ident, pt_owner = owner, pt_speed_mbps = projr speed, pt_admin = admin,
                       pt_generation = projr gen\<rparr>))"

definition class_of_text :: "args \<Rightarrow> string \<Rightarrow> node_key \<Rightarrow> node_key \<Rightarrow> link_class outcome" where
  "class_of_text a class_text na nb =
     (if class_text = [] then Inr (if nk_tier na = nk_tier nb then LC_SameTierPeer else LC_LeafSpine)
      else if class_text = ''leaf_spine'' then Inr LC_LeafSpine
      else if class_text = ''same_tier_peer'' then Inr LC_SameTierPeer
      else Inl (unknown_word a ''link class'' class_text))"

definition link_of_args :: "args \<Rightarrow> topology_generation \<Rightarrow> link_record outcome" where
  "link_of_args a fabric_generation =
     (let ident = args_u32 a ''id'' True 0;
          a_text = args_str a ''a'' True 64 [];
          b_text = args_str a ''b'' True 64 [];
          pa = args_u32 a ''pa'' True 0;
          pb = args_u32 a ''pb'' True 0;
          class_text = args_str a ''class'' False 32 [];
          admin_text = args_str a ''admin'' False 32 ''enabled'';
          speed = args_u64 a ''speed_mbps'' False 0;
          gen = require_generation a fabric_generation
      in if \<not> outcome_ok ident \<or> \<not> outcome_ok a_text \<or> \<not> outcome_ok b_text \<or> \<not> outcome_ok pa \<or> \<not> outcome_ok pb
            \<or> \<not> outcome_ok class_text \<or> \<not> outcome_ok admin_text \<or> \<not> outcome_ok speed \<or> \<not> outcome_ok gen
         then Inl (malformed a ''a link'')
         else case parse_node_key (projr a_text) of
           None \<Rightarrow> Inl (unknown_word a ''link endpoint'' (projr a_text))
         | Some na \<Rightarrow> (case parse_node_key (projr b_text) of
           None \<Rightarrow> Inl (unknown_word a ''link endpoint'' (projr b_text))
         | Some nb \<Rightarrow> (case class_of_text a (projr class_text) na nb of
           Inl s \<Rightarrow> Inl s
         | Inr cls \<Rightarrow> (case parse_link_admin (projr admin_text) of
           None \<Rightarrow> Inl (unknown_word a ''link admin state'' (projr admin_text))
         | Some admin \<Rightarrow>
             Inr \<lparr>lk_id = projr ident, lk_a = na, lk_port_a = projr pa, lk_b = nb, lk_port_b = projr pb, lk_cls = cls,
                  lk_admin = admin, lk_declared_speed_mbps = projr speed, lk_generation = projr gen\<rparr>))))"

definition evidence_of_args :: "args \<Rightarrow> topology_generation \<Rightarrow> link_evidence outcome" where
  "evidence_of_args a fabric_generation =
     (let link = args_u32 a ''link'' True 0;
          observed_text = args_str a ''observed'' True 32 [];
          gen = require_generation a fabric_generation;
          observer_text = args_str a ''observer'' True 40 [];
          ep = args_u64 a ''epoch'' False 1;
          sq = args_u64 a ''seq'' True 0;
          at_ms = args_u64 a ''at_ms'' False 0
      in if \<not> outcome_ok link \<or> \<not> outcome_ok observed_text \<or> \<not> outcome_ok gen \<or> \<not> outcome_ok observer_text
            \<or> \<not> outcome_ok ep \<or> \<not> outcome_ok sq \<or> \<not> outcome_ok at_ms
         then Inl (malformed a ''an evidence'')
         else case parse_link_observation (projr observed_text) of
           None \<Rightarrow> Inl (unknown_word a ''observation'' (projr observed_text))
         | Some observed \<Rightarrow>
             (case parse_incarnation (projr observer_text) of
                None \<Rightarrow> Inl (Status SC_Invalid (ar_where a @ '': observer must be 32 hexadecimal digits''))
              | Some observer \<Rightarrow>
                  Inr \<lparr>ev_link = projr link, ev_observed = observed, ev_generation = projr gen,
                       ev_observer = observer, ev_epoch = projr ep, ev_observed_seq = projr sq,
                       ev_observed_at_unix_ms = projr at_ms\<rparr>))"

definition spec_directive :: "spec_limits \<Rightarrow> string \<Rightarrow> args \<Rightarrow> spec_state \<Rightarrow> spec_state outcome" where
  "spec_directive limits directive a st =
     (if directive = ''fabric'' then spec_fabric limits a st
      else if \<not> ss_have_fabric st
      then Inl (Status SC_Invalid (ar_where a @ '': the fabric directive must appear before any other directive''))
      else if directive = ''option'' then spec_option a st
      else if directive = ''domain''
      then add_directive limits True a [''id'', ''name'', ''generation''] (domain_of_args limits a) add_failure_domain st
      else if directive = ''leaf''
      then add_directive limits True a [''id'', ''name'', ''role'', ''domain'', ''state'', ''access_mbps'', ''access_links'',
             ''role_incarnation'', ''generation''] (leaf_of_args limits a) add_leaf st
      else if directive = ''spine''
      then add_directive limits True a [''id'', ''name'', ''role'', ''domain'', ''state'', ''fabric_mbps'',
             ''role_incarnation'', ''generation''] (spine_of_args limits a) add_spine st
      else if directive = ''port''
      then add_directive limits True a [''id'', ''owner'', ''speed_mbps'', ''admin'', ''generation''] (port_of_args a) add_port st
      else if directive = ''link'' \<or> directive = ''history-link''
      then add_directive limits True a [''id'', ''a'', ''pa'', ''b'', ''pb'', ''class'', ''admin'', ''speed_mbps'', ''generation'']
             (link_of_args a) (if directive = ''link'' then add_link else add_history_link) st
      else if directive = ''evidence''
      then add_directive limits False a [''link'', ''observed'', ''generation'', ''observer'', ''epoch'', ''seq'', ''at_ms'']
             (evidence_of_args a) add_evidence st
      else Inl (unknown_word a ''directive'' directive))"

definition spec_line :: "spec_limits \<Rightarrow> string \<Rightarrow> u32 \<Rightarrow> spec_state \<Rightarrow> spec_state outcome" where
  "spec_line limits line line_number st =
     (if line_number > sl_max_lines limits
      then Inl (Status SC_Exhausted ''specification exceeds the configured line bound'')
      else if length line > unat (sl_max_line_bytes limits)
      then Inl (Status SC_Exhausted (''line '' @ u_string line_number @ '' exceeds the configured line length bound''))
      else case tokenize_line (takeWhile (\<lambda>c. c \<noteq> CHR ''#'') line) of
        (tokenized, tokens) \<Rightarrow>
          if \<not> status_ok tokenized
          then Inl (Status (st_code tokenized) (''line '' @ u_string line_number @ '': '' @ st_detail tokenized))
          else (case tokens of
                  [] \<Rightarrow> Inr st
                | t # _ \<Rightarrow>
                    let whr = ''line '' @ u_string line_number @ '' ('' @ tk_key t @ '')'';
                        a = new_args tokens whr;
                        duplicates = args_check a
                    in if \<not> status_ok duplicates then Inl duplicates else spec_directive limits (tk_key t) a st))"

text \<open>A line loses one trailing carriage return.\<close>

definition strip_cr :: "string \<Rightarrow> string" where
  "strip_cr line = (if line \<noteq> [] \<and> List.last line = CHR 0x0D then butlast line else line)"

function spec_lines :: "spec_limits \<Rightarrow> string \<Rightarrow> u32 \<Rightarrow> spec_state \<Rightarrow> spec_state outcome" where
  "spec_lines limits rest line_number st =
     (let line = strip_cr (takeWhile (\<lambda>c. c \<noteq> CHR 0x0A) rest);
          more = dropWhile (\<lambda>c. c \<noteq> CHR 0x0A) rest
      in case spec_line limits line (line_number + 1) st of
           Inl s \<Rightarrow> Inl s
         | Inr st1 \<Rightarrow> if more = [] then Inr st1 else spec_lines limits (tl more) (line_number + 1) st1)"
  by pat_completeness auto
termination
proof (relation "measure (\<lambda>(limits, rest, line_number, st). length rest)", goal_cases)
  case (2 limits rest n st line more st1)
  have "length more \<le> length rest" using 2 by (simp add: length_dropWhile_le)
  moreover have "length (tl more) < length more" using 2 by simp
  ultimately have "length (tl more) < length rest" by linarith
  then show ?case by simp
qed simp

declare spec_lines.simps [simp del]

text \<open>\<open>parse_spec\<close>: the outcome and what is stored through \<open>report_out\<close>, if anything.\<close>

definition parse_spec :: "string \<Rightarrow> spec_limits \<Rightarrow> fabric outcome \<times> validation_report option" where
  "parse_spec t limits =
     (if length t > unat (sl_max_file_bytes limits)
      then (Inl (Status SC_Exhausted ''specification exceeds the configured size bound''), None)
      else if CHR 0x00 \<in> set t then (Inl (Status SC_Invalid ''specification contains a NUL byte''), None)
      else if \<not> is_valid_utf8 t then (Inl (Status SC_Invalid ''specification is not valid UTF-8''), None)
      else case spec_lines limits t 0 initial_spec_state of
        Inl s \<Rightarrow> (Inl s, None)
      | Inr st \<Rightarrow>
          (case ensure_builder limits st of (ready, st1) \<Rightarrow>
           if \<not> status_ok ready then (Inl ready, None)
           else (case ss_builder st1 of
                   None \<Rightarrow> (Inl (Status SC_Internal []), None)
                 | Some b \<Rightarrow> (case freeze b of (fabric, b') \<Rightarrow> (fabric, Some (fb_report b'))))))"

text \<open>
  The file a specification is loaded from: its size if it can be queried, whether it opens, and the
  bytes a read returns.
\<close>

record spec_file =
  sf_size :: "u64 option"
  sf_opens :: bool
  sf_content :: string

definition load_spec_file :: "string \<Rightarrow> spec_file \<Rightarrow> spec_limits \<Rightarrow> fabric outcome \<times> validation_report option" where
  "load_spec_file path f limits =
     (case sf_size f of
        None \<Rightarrow> (Inl (Status SC_NotFound (''cannot stat specification file: '' @ path)), None)
      | Some sz \<Rightarrow>
          if sz > sl_max_file_bytes limits
          then (Inl (Status SC_Exhausted ''specification file exceeds the configured size bound''), None)
          else if \<not> sf_opens f then (Inl (Status SC_IoError (''cannot open specification file: '' @ path)), None)
          else let content = take (unat sz) (sf_content f) in
            if length content \<noteq> unat sz
            then (Inl (Status SC_IoError (''short read on specification file: '' @ path)), None)
            else parse_spec content limits)"

section \<open>The rendering\<close>

definition format_fabric :: "fabric \<Rightarrow> string" where
  "format_fabric f =
     ''fabric id='' @ u_string (fab_id f) @ '' name='' @ quote_value (fab_name f)
     @ (if fab_site f \<noteq> [] then '' site='' @ quote_value (fab_site f) else [])
     @ '' generation='' @ u_string (fab_generation f) @ '' epoch='' @ u_string (fab_epoch f)
     @ '' state='' @ fabric_state_string (fab_state f) @ [CHR 0x0A]"

definition format_options :: "fabric_options \<Rightarrow> string" where
  "format_options v =
     ''option allow_same_tier_adjacency='' @ bool_text (opt_allow_same_tier_adjacency v)
     @ '' require_domain_diversity='' @ bool_text (opt_require_domain_diversity v)
     @ '' min_eligible_spines='' @ u_string (opt_min_eligible_spines v)
     @ '' evidence_policy='' @ evidence_policy_string (opt_evidence_policy v) @ [CHR 0x0A]"

definition format_domain :: "failure_domain_record \<Rightarrow> string" where
  "format_domain d =
     ''domain id='' @ u_string (fd_id d) @ '' name='' @ quote_value (fd_name d)
     @ '' generation='' @ u_string (fd_generation d) @ [CHR 0x0A]"

definition format_leaf :: "leaf_record \<Rightarrow> string" where
  "format_leaf l =
     ''leaf id='' @ u_string (lf_id l) @ '' name='' @ quote_value (lf_name l)
     @ '' role='' @ leaf_role_string (lf_role l) @ '' domain='' @ u_string (lf_domain l)
     @ '' state='' @ node_state_string (lf_state l) @ '' access_mbps='' @ u_string (lf_access_capacity_mbps l)
     @ '' access_links='' @ u_string (lf_access_link_count l)
     @ '' role_incarnation='' @ u_string (lf_role_incarnation l)
     @ '' generation='' @ u_string (lf_generation l) @ [CHR 0x0A]"

definition format_spine :: "spine_record \<Rightarrow> string" where
  "format_spine s =
     ''spine id='' @ u_string (sp_id s) @ '' name='' @ quote_value (sp_name s)
     @ '' role='' @ spine_role_string (sp_role s) @ '' domain='' @ u_string (sp_domain s)
     @ '' state='' @ node_state_string (sp_state s) @ '' fabric_mbps='' @ u_string (sp_fabric_capacity_mbps s)
     @ '' role_incarnation='' @ u_string (sp_role_incarnation s)
     @ '' generation='' @ u_string (sp_generation s) @ [CHR 0x0A]"

definition format_port :: "port_record \<Rightarrow> string" where
  "format_port p =
     ''port id='' @ u_string (pt_id p) @ '' owner='' @ node_key_string (pt_owner p)
     @ '' speed_mbps='' @ u_string (pt_speed_mbps p) @ '' admin='' @ port_admin_string (pt_admin p)
     @ '' generation='' @ u_string (pt_generation p) @ [CHR 0x0A]"

definition emit_link :: "string \<Rightarrow> link_record \<Rightarrow> string" where
  "emit_link prefix k =
     prefix @ '' id='' @ u_string (lk_id k) @ '' a='' @ node_key_string (lk_a k) @ '' pa='' @ u_string (lk_port_a k)
     @ '' b='' @ node_key_string (lk_b k) @ '' pb='' @ u_string (lk_port_b k)
     @ '' class='' @ link_class_string (lk_cls k) @ '' admin='' @ link_admin_string (lk_admin k)
     @ (if lk_declared_speed_mbps k \<noteq> 0 then '' speed_mbps='' @ u_string (lk_declared_speed_mbps k) else [])
     @ '' generation='' @ u_string (lk_generation k) @ [CHR 0x0A]"

definition format_evidence :: "link_evidence \<Rightarrow> string" where
  "format_evidence e =
     ''evidence link='' @ u_string (ev_link e) @ '' observed='' @ link_observation_string (ev_observed e)
     @ '' generation='' @ u_string (ev_generation e) @ '' observer='' @ incarnation_string (ev_observer e)
     @ '' epoch='' @ u_string (ev_epoch e) @ '' seq='' @ u_string (ev_observed_seq e)
     @ '' at_ms='' @ u_string (ev_observed_at_unix_ms e) @ [CHR 0x0A]"

definition format_spec :: "fabric \<Rightarrow> string" where
  "format_spec f =
     format_fabric f @ format_options (fab_options f)
     @ concat (map format_domain (fab_domains f)) @ concat (map format_leaf (fab_leaves f))
     @ concat (map format_spine (fab_spines f)) @ concat (map format_port (fab_ports f))
     @ concat (map (emit_link ''link'') (fab_links f))
     @ concat (map (emit_link ''history-link'') (fab_history_links f))
     @ concat (map format_evidence (fab_evidence f))"

text \<open>The answers to a write: whether the file opens, how many bytes \<open>fwrite\<close> takes, whether \<open>fclose\<close> succeeds.\<close>

definition write_spec_file :: "string \<Rightarrow> fabric \<Rightarrow> bool \<Rightarrow> nat \<Rightarrow> bool \<Rightarrow> status \<times> string" where
  "write_spec_file path f opens accepted closes =
     (let content = format_spec f in
      if \<not> opens then (Status SC_IoError (''cannot create specification file: '' @ path), [])
      else let written = take accepted content in
        if length written \<noteq> length content then (Status SC_IoError ''short write on specification file'', written)
        else if \<not> closes then (Status SC_IoError ''cannot flush specification file'', written)
        else (status_success, written))"

section \<open>UTF-8 of composed texts\<close>

lemma utf8_scan_high:
  assumes "\<not> b < 0x80" and "utf8_scan (b # rest)"
  shows "\<exists>extra lead cp. utf8_lead b = Some (extra, lead) \<and> extra \<le> length rest
    \<and> utf8_cont lead (take extra rest) = Some cp \<and> utf8_code_point_ok extra cp \<and> utf8_scan (drop extra rest)"
proof (cases "utf8_lead b")
  case (Some p)
  obtain extra lead where p: "p = (extra, lead)" by (cases p)
  show ?thesis
  proof (cases "utf8_cont lead (take extra rest)")
    case (Some cp)
    with assms p \<open>utf8_lead b = Some p\<close> show ?thesis by (auto split: if_splits)
  qed (use assms p Some in \<open>auto split: if_splits\<close>)
qed (use assms in simp)

lemma utf8_scan_append: "utf8_scan a \<Longrightarrow> utf8_scan (a @ b) = utf8_scan b"
proof (induction a rule: length_induct)
  case (1 a)
  show ?case
  proof (cases a)
    case (Cons x rest)
    show ?thesis
    proof (cases "x < 0x80")
      case True
      with 1 Cons show ?thesis by simp
    next
      case False
      have "utf8_scan (x # rest)" using 1(2) Cons by simp
      from utf8_scan_high [OF False this] obtain extra lead cp
        where lead: "utf8_lead x = Some (extra, lead)" "extra \<le> length rest"
          "utf8_cont lead (take extra rest) = Some cp" "utf8_code_point_ok extra cp" "utf8_scan (drop extra rest)"
        by auto
      moreover have "utf8_scan (drop extra rest @ b) = utf8_scan b" using 1(1) lead(5) Cons by simp
      ultimately show ?thesis using False Cons by simp
    qed
  qed simp
qed

lemma valid_utf8_append: "is_valid_utf8 a \<Longrightarrow> is_valid_utf8 b \<Longrightarrow> is_valid_utf8 (a @ b)"
  by (simp add: is_valid_utf8_def text_bytes_def utf8_scan_append)

lemma valid_utf8_concat: "\<forall>t\<in>set ts. is_valid_utf8 t \<Longrightarrow> is_valid_utf8 (concat ts)"
  by (induction ts) (simp_all add: valid_utf8_append, simp add: is_valid_utf8_def text_bytes_def)

lemma utf8_cont_high: "utf8_cont cp bs = Some x \<Longrightarrow> b \<in> set bs \<Longrightarrow> 0x80 \<le> b"
proof (induction cp bs rule: utf8_cont.induct)
  case (2 cp c rest)
  then have "c AND 0xC0 = 0x80" by (auto split: if_splits)
  then have "0x80 \<le> c" by (metis word_and_le2)
  with 2 show ?case by (auto split: if_splits)
qed simp

lemma escape_high: "\<forall>c\<in>set t. 128 \<le> char_code c \<Longrightarrow> concat (map escape_char t) = t"
  by (induction t) (auto simp: escape_char_def quote_char_def backslash_def)

lemma escape_ascii: "char_code c < 128 \<Longrightarrow> list_all (\<lambda>c. char_code c < 128) (escape_char c)"
  by (simp add: escape_char_def quote_char_def backslash_def)

lemma u8_char_code: "(of_nat (char_code c) :: u8) < 0x80 \<longleftrightarrow> char_code c < 128"
  by (simp add: word_less_nat_alt unat_of_nat of_char_mod_256)

lemma utf8_escape: "utf8_scan (text_bytes t) \<Longrightarrow> utf8_scan (text_bytes (concat (map escape_char t)))"
proof (induction t rule: length_induct)
  case (1 t)
  show ?case
  proof (cases t)
    case (Cons c cs)
    show ?thesis
    proof (cases "char_code c < 128")
      case True
      then have "utf8_scan (text_bytes (concat (map escape_char cs)))"
        using 1 Cons by (simp add: text_bytes_def u8_char_code)
      moreover have "utf8_scan (text_bytes (escape_char c))"
        using ascii_valid_utf8 [OF escape_ascii [OF True]] by (simp add: is_valid_utf8_def)
      ultimately show ?thesis using Cons by (simp add: text_bytes_def utf8_scan_append)
    next
      case False
      let ?b = "of_nat (char_code c) :: u8"
      have big: "\<not> ?b < 0x80" using False by (simp add: u8_char_code)
      have "utf8_scan (?b # text_bytes cs)" using 1(2) Cons by (simp add: text_bytes_def)
      from utf8_scan_high [OF big this] obtain extra lead cp
        where lead: "utf8_lead ?b = Some (extra, lead)" "extra \<le> length cs"
          "utf8_cont lead (take extra (text_bytes cs)) = Some cp" "utf8_code_point_ok extra cp"
          "utf8_scan (drop extra (text_bytes cs))"
        by auto
      have high: "\<forall>d\<in>set (take extra cs). 128 \<le> char_code d"
      proof
        fix d assume "d \<in> set (take extra cs)"
        then have "(of_nat (char_code d) :: u8) \<in> set (take extra (text_bytes cs))"
          by (simp add: text_bytes_def take_map)
        from utf8_cont_high [OF lead(3) this] show "128 \<le> char_code d"
          using u8_char_code [of d] by (simp add: not_less [symmetric])
      qed
      have "concat (map escape_char cs) = take extra cs @ concat (map escape_char (drop extra cs))"
        using escape_high [OF high] by (metis append_take_drop_id concat_append map_append)
      moreover have "escape_char c = [c]" using escape_high [of "[c]"] False by simp
      ultimately have whole: "text_bytes (concat (map escape_char t))
          = ?b # take extra (text_bytes cs) @ text_bytes (concat (map escape_char (drop extra cs)))"
        using Cons by (simp add: text_bytes_def take_map)
      have "length (drop extra cs) < length t" using Cons by simp
      moreover have "utf8_scan (text_bytes (drop extra cs))" using lead(5) by (simp add: text_bytes_def drop_map)
      ultimately have "utf8_scan (text_bytes (concat (map escape_char (drop extra cs))))" using 1(1) by blast
      with lead big show ?thesis unfolding whole by simp
    qed
  qed (simp add: text_bytes_def)
qed

lemma quote_value_utf8: "is_valid_utf8 t \<Longrightarrow> is_valid_utf8 (quote_value t)"
proof -
  assume "is_valid_utf8 t"
  then have "is_valid_utf8 (concat (map escape_char t))" by (simp add: is_valid_utf8_def utf8_escape)
  moreover have "is_valid_utf8 [quote_char]" by (simp add: ascii_valid_utf8 quote_char_def)
  ultimately show ?thesis unfolding quote_value_def by (intro valid_utf8_append)
qed

section \<open>Tokenizing rendered lines\<close>

text \<open>
  A rendered line is a directive and a list of fields; a word is non-empty printable text the
  tokenizer takes as it is.
\<close>

datatype field = Plain (field_key: string) (field_value: string) | Quoted (field_key: string) (field_value: string)

fun field_text :: "field \<Rightarrow> string" where
  "field_text (Plain k v) = CHR '' '' # k @ CHR ''='' # v"
| "field_text (Quoted k v) = CHR '' '' # k @ CHR ''='' # quote_value v"

fun field_token :: "field \<Rightarrow> spec_token" where
  "field_token (Plain k v) = \<lparr>tk_key = k, tk_value = v, tk_quoted = False\<rparr>"
| "field_token (Quoted k v) = \<lparr>tk_key = k, tk_value = v, tk_quoted = True\<rparr>"

definition word_char :: "char \<Rightarrow> bool" where
  "word_char c = (35 < char_code c \<and> char_code c < 127)"

definition is_word :: "string \<Rightarrow> bool" where
  "is_word t = (t \<noteq> [] \<and> list_all word_char t)"

definition name_text :: "string \<Rightarrow> bool" where
  "name_text t = (is_valid_utf8 t \<and> CHR ''#'' \<notin> set t \<and> CHR 0x00 \<notin> set t)"

definition key_word :: "string \<Rightarrow> bool" where
  "key_word k = (is_word k \<and> CHR ''='' \<notin> set k)"

fun field_ok :: "field \<Rightarrow> bool" where
  "field_ok (Plain k v) = (key_word k \<and> is_word v)"
| "field_ok (Quoted k v) = (key_word k \<and> name_text v)"

definition line_text :: "string \<Rightarrow> field list \<Rightarrow> string" where
  "line_text d fs = d @ concat (map field_text fs)"

lemma word_char_simps:
  assumes "word_char c"
  shows "\<not> is_space c" "c \<noteq> quote_char" "c \<noteq> CHR ''#''" "c \<noteq> CHR 0x0A" "c \<noteq> CHR 0x0D" "c \<noteq> CHR 0x00" "char_code c < 128"
  using assms by (auto simp: word_char_def is_space_def quote_char_def)

lemma word_chars: "is_word t \<Longrightarrow> c \<in> set t \<Longrightarrow> word_char c"
  by (auto simp: is_word_def list_all_iff)

lemma word_utf8: "is_word t \<Longrightarrow> is_valid_utf8 t"
  by (intro ascii_valid_utf8) (auto simp: is_word_def list_all_iff word_char_simps(7))

lemma scan_quoted_escape:
  "scan_quoted v (concat (map escape_char t) @ quote_char # rest) = Inr (v @ t, rest)"
proof (induction t arbitrary: v)
  case (Cons c t)
  show ?case using Cons by (auto simp: escape_char_def quote_char_def backslash_def)
qed (simp add: quote_char_def backslash_def)

lemma takeWhile_word:
  "is_word v \<Longrightarrow> rest = [] \<or> is_space (hd rest) \<Longrightarrow>
     takeWhile (\<lambda>c. \<not> is_space c) (v @ rest) = v \<and> dropWhile (\<lambda>c. \<not> is_space c) (v @ rest) = rest"
  by (cases rest) (auto dest!: word_chars simp: word_char_simps takeWhile_append dropWhile_append)

lemma takeWhile_key:
  "key_word k \<Longrightarrow> takeWhile (\<lambda>c. c \<noteq> CHR ''='' \<and> \<not> is_space c) (k @ CHR ''='' # rest) = k
     \<and> dropWhile (\<lambda>c. c \<noteq> CHR ''='' \<and> \<not> is_space c) (k @ CHR ''='' # rest) = CHR ''='' # rest"
proof -
  assume k: "key_word k"
  then have "c \<noteq> CHR ''='' \<and> \<not> is_space c" if "c \<in> set k" for c
    using that by (auto simp: key_word_def dest: word_chars word_char_simps)
  then show ?thesis by (auto simp: takeWhile_append dropWhile_append)
qed

lemma key_starts: "key_word k \<Longrightarrow> dropWhile is_space (CHR '' '' # k @ rest) = k @ rest"
  by (cases k) (auto simp: key_word_def is_word_def word_char_simps, simp_all add: is_space_def)

lemma fields_start: "concat (map field_text fs) = [] \<or> is_space (hd (concat (map field_text fs)))"
proof (cases fs)
  case (Cons f gs)
  then show ?thesis by (cases f) (simp_all add: is_space_def)
qed simp

lemma token_loop_append:
  assumes "field_ok (Plain k v)" and "rest = [] \<or> is_space (hd rest)"
  shows "token_loop out (field_text (Plain k v) @ rest) = token_loop (out @ [field_token (Plain k v)]) rest"
proof -
  have k: "key_word k" and v: "is_word v" using assms(1) by auto
  have hd: "\<not> (v @ rest \<noteq> [] \<and> hd (v @ rest) = quote_char)"
    using v by (cases v) (auto simp: is_word_def word_char_simps)
  show ?thesis
    using k v hd takeWhile_word [OF v assms(2)] takeWhile_key [OF k, of "v @ rest"]
      key_starts [OF k, of "CHR ''='' # v @ rest"]
    by (simp add: token_loop.simps [of out "CHR '' '' # k @ CHR ''='' # v @ rest"] Let_def)
      (auto simp: is_word_def key_word_def)
qed

lemma token_loop_fields:
  "\<forall>f\<in>set fs. field_ok f \<Longrightarrow>
     token_loop out (concat (map field_text fs)) = (status_success, out @ map field_token fs)"
proof (induction fs arbitrary: out)
  case Nil
  show ?case by (simp add: token_loop.simps [of out "[]"])
next
  case (Cons f fs)
  let ?rest = "concat (map field_text fs)"
  show ?case
  proof (cases f)
    case (Plain k v)
    then have "token_loop out (concat (map field_text (f # fs))) = token_loop (out @ [field_token f]) ?rest"
      using token_loop_append [OF _ fields_start [of fs], of k v out] Cons.prems by simp
    then show ?thesis using Cons by simp
  next
    case (Quoted k v)
    then have k: "key_word k" using Cons.prems by auto
    have "token_loop out (concat (map field_text (f # fs)))
        = token_loop (out @ [field_token f]) ?rest"
      using k takeWhile_key [OF k, of "quote_char # concat (map escape_char v) @ quote_char # ?rest"]
        key_starts [OF k, of "CHR ''='' # quote_char # concat (map escape_char v) @ quote_char # ?rest"]
        scan_quoted_escape [of "[]" v ?rest]
      by (simp add: Quoted quote_value_def Let_def token_loop.simps
            [of out "CHR '' '' # k @ CHR ''='' # quote_char # concat (map escape_char v) @ quote_char # ?rest"])
        (auto simp: is_word_def key_word_def)
    then show ?thesis using Cons by simp
  qed
qed

lemma tokenize_fields:
  assumes "is_word d" and "\<forall>f\<in>set fs. field_ok f"
  shows "tokenize_line (line_text d fs)
    = (status_success, \<lparr>tk_key = d, tk_value = [], tk_quoted = False\<rparr> # map field_token fs)"
proof -
  have "dropWhile is_space (d @ concat (map field_text fs)) = d @ concat (map field_text fs)"
    using assms(1) by (cases d) (auto simp: is_word_def word_char_simps)
  moreover have "d \<noteq> []" using assms(1) by (simp add: is_word_def)
  ultimately show ?thesis
    using takeWhile_word [OF assms(1) fields_start [of fs]] token_loop_fields [OF assms(2)]
    by (simp add: tokenize_line_def line_text_def Let_def)
qed

end
