(* ===== verification/SLF_SpecRound.thy ===== *)
theory SLF_SpecRound
  imports SLF_Spec
begin

text \<open>
  Round trip of the textual specification: what \<open>format_spec\<close> prints of a frozen fabric, \<open>parse_spec\<close>
  reads back as that fabric. The locale \<open>spec_record\<close> states what a record directive promises (its line
  is made of well-formed fields that its handler parses to the record); its lemmas carry a whole table
  of lines to \<open>add_all\<close>, and the stages of the binary decoder finish the proof.
\<close>

section \<open>Characters of a rendered line\<close>

lemma escape_chars:
  "c \<in> set (escape_char d) \<Longrightarrow> c \<noteq> CHR 0x0A \<and> c \<noteq> CHR 0x0D \<and> (c = d \<or> c \<noteq> CHR ''#'' \<and> c \<noteq> CHR 0x00)"
  by (auto simp: escape_char_def quote_char_def backslash_def split: if_splits)

lemma quote_value_chars:
  assumes "name_text t" and "c \<in> set (quote_value t)"
  shows "c \<noteq> CHR 0x0A \<and> c \<noteq> CHR 0x0D \<and> c \<noteq> CHR ''#'' \<and> c \<noteq> CHR 0x00"
proof (cases "c = quote_char")
  case False
  then obtain d where "d \<in> set t" "c \<in> set (escape_char d)" using assms(2) by (auto simp: quote_value_def)
  with assms(1) escape_chars [of c d] show ?thesis by (auto simp: name_text_def)
qed (simp add: quote_char_def)

lemma word_text_chars:
  "is_word t \<Longrightarrow> c \<in> set t \<Longrightarrow> c \<noteq> CHR 0x0A \<and> c \<noteq> CHR 0x0D \<and> c \<noteq> CHR ''#'' \<and> c \<noteq> CHR 0x00"
  using word_char_simps [OF word_chars] by blast

lemma field_text_chars:
  assumes "field_ok f" and "c \<in> set (field_text f)"
  shows "c \<noteq> CHR 0x0A \<and> c \<noteq> CHR 0x0D \<and> c \<noteq> CHR ''#'' \<and> c \<noteq> CHR 0x00"
  using assms word_text_chars [of _ c] quote_value_chars [of _ c]
  by (cases f) (auto simp: key_word_def)

lemma field_text_utf8: "field_ok f \<Longrightarrow> is_valid_utf8 (field_text f)"
proof -
  have sep: "is_valid_utf8 '' ''" "is_valid_utf8 ''=''" by (simp_all add: ascii_valid_utf8)
  assume "field_ok f"
  then show ?thesis
    using valid_utf8_append [OF sep(1) valid_utf8_append [OF word_utf8 valid_utf8_append [OF sep(2) word_utf8]]]
      valid_utf8_append [OF sep(1) valid_utf8_append [OF word_utf8 valid_utf8_append [OF sep(2) quote_value_utf8]]]
    by (cases f) (auto simp: key_word_def name_text_def)
qed

lemma line_text_chars:
  assumes "is_word d" and "\<forall>f\<in>set fs. field_ok f" and "c \<in> set (line_text d fs)"
  shows "c \<noteq> CHR 0x0A \<and> c \<noteq> CHR 0x0D \<and> c \<noteq> CHR ''#'' \<and> c \<noteq> CHR 0x00"
  using assms word_text_chars [of d c] field_text_chars [of _ c] by (auto simp: line_text_def)

lemma line_text_utf8:
  "is_word d \<Longrightarrow> \<forall>f\<in>set fs. field_ok f \<Longrightarrow> is_valid_utf8 (line_text d fs)"
  unfolding line_text_def
  by (intro valid_utf8_append valid_utf8_concat) (auto simp: word_utf8 field_text_utf8)

section \<open>Arguments of a rendered line\<close>

definition pairs_of :: "field list \<Rightarrow> (string \<times> string) list" where
  "pairs_of fs = map (\<lambda>f. (field_key f, field_value f)) fs"

text \<open>The accessor holds exactly the fields, without a duplicate.\<close>

definition args_hold :: "args \<Rightarrow> field list \<Rightarrow> bool" where
  "args_hold a fs \<longleftrightarrow> ar_duplicate a = [] \<and> map_of (ar_values a) = map_of (pairs_of fs)
     \<and> fst ` set (ar_values a) = field_key ` set fs"

lemma field_token_simps [simp]: "tk_key (field_token f) = field_key f" "tk_value (field_token f) = field_value f"
  by (cases f; simp)+

lemma new_args_hold:
  assumes "distinct (map field_key fs)"
  shows "args_hold (new_args (t # map field_token fs) whr) fs"
proof -
  let ?step = "\<lambda>t a. a\<lparr>ar_duplicate := (if omap_count (ar_values a) (tk_key t) then tk_key t else ar_duplicate a),
                   ar_values := omap_put (tk_key t) (tk_value t) (ar_values a)\<rparr>"
  have "distinct (map field_key fs) \<Longrightarrow> (\<forall>f\<in>set fs. map_of (ar_values a) (field_key f) = None) \<Longrightarrow>
      ar_duplicate (fold ?step (map field_token fs) a) = ar_duplicate a
      \<and> map_of (ar_values (fold ?step (map field_token fs) a)) = map_of (ar_values a) ++ map_of (pairs_of fs)
      \<and> fst ` set (ar_values (fold ?step (map field_token fs) a)) = fst ` set (ar_values a) \<union> field_key ` set fs" for a
  proof (induction fs arbitrary: a)
    case (Cons f fs)
    have mine: "map_of (ar_values a) (field_key f) = None" using Cons.prems by simp
    have fresh: "map_of (pairs_of fs) (field_key f) = None"
      using Cons.prems(1) by (auto simp: pairs_of_def map_of_eq_None_iff)
    let ?a = "?step (field_token f) a"
    have "\<forall>g\<in>set fs. map_of (ar_values ?a) (field_key g) = None"
      using Cons.prems by (auto simp: map_of_omap_put) (metis image_eqI)
    from Cons.IH [OF _ this] Cons.prems(1) mine fresh show ?case
      by (auto simp: omap_count_def map_of_omap_put keys_omap_put pairs_of_def map_add_def fun_eq_iff
          split: option.splits)
  qed (simp add: pairs_of_def)
  from this [of "\<lparr>ar_values = [], ar_where = whr, ar_duplicate = []\<rparr>"] assms
  show ?thesis by (simp add: args_hold_def new_args_def)
qed

lemma args_hold_known: "args_hold a fs \<Longrightarrow> field_key ` set fs \<subseteq> set allowed \<Longrightarrow> reject_unknown a allowed = status_success"
proof -
  assume "args_hold a fs" "field_key ` set fs \<subseteq> set allowed"
  then have "set (map fst (ar_values a)) \<subseteq> set allowed" by (simp add: args_hold_def)
  then have "filter (\<lambda>k. k \<notin> set allowed) (map fst (ar_values a)) = []" by (auto simp: filter_empty_conv)
  then show ?thesis by (simp add: reject_unknown_def)
qed

lemma args_values:
  "map_of (ar_values a) k = Some (u_string (w64 :: u64)) \<Longrightarrow> args_u64 a k req fb = Inr w64"
  "map_of (ar_values a) k = Some (u_string (w32 :: u32)) \<Longrightarrow> args_u32 a k req fb' = Inr w32"
  "map_of (ar_values a) k = Some v \<Longrightarrow> v \<noteq> [] \<Longrightarrow> length v \<le> m \<Longrightarrow> is_valid_utf8 v \<Longrightarrow> args_str a k req m dflt = Inr v"
  "map_of (ar_values a) k = Some (bool_text bv) \<Longrightarrow> args_boolean a k req fb'' = Inr bv"
  "map_of (ar_values a) k = None \<Longrightarrow> args_str a k False m dflt = Inr dflt"
  "map_of (ar_values a) k = None \<Longrightarrow> args_u64 a k False fb = Inr fb"
proof -
  have up: "unat (ucast w32 :: u64) = unat w32"
    using unsigned_less [of w32, where ?'a = nat] by (simp add: unsigned_ucast_eq take_bit_nat_eq_self_iff)
  then have "u_string w32 = u_string (ucast w32 :: u64)" by (simp add: u_string_def)
  moreover have "checked_narrow_u32 (ucast w32) = Some w32"
    using up unsigned_less [of w32, where ?'a = nat] by (simp add: checked_narrow_u32_exact)
  ultimately show "map_of (ar_values a) k = Some (u_string w32) \<Longrightarrow> args_u32 a k req fb' = Inr w32"
    by (simp add: args_u32_def args_u64_def parse_u64_u_string)
qed (simp_all add: args_u64_def args_str_def args_boolean_def bool_text_def parse_u64_u_string)

section \<open>Lines and tables\<close>

text \<open>The parser stands at a record directive, and \<open>c\<close> is the builder it will add to.\<close>

definition parsing :: "spec_limits \<Rightarrow> spec_state \<Rightarrow> fabric_builder \<Rightarrow> bool" where
  "parsing limits st c \<longleftrightarrow> ss_have_fabric st
     \<and> (\<exists>st1. ensure_builder limits st = (status_success, st1) \<and> ss_builder st1 = Some c \<and> ss_have_fabric st1)"

lemma spec_lines_step:
  assumes "\<forall>c\<in>set line. c \<noteq> CHR 0x0A \<and> c \<noteq> CHR 0x0D"
  shows "spec_lines limits (line @ CHR 0x0A # rest) n st =
     (case spec_line limits line (n + 1) st of Inl s \<Rightarrow> Inl s | Inr st1 \<Rightarrow> spec_lines limits rest (n + 1) st1)"
proof -
  have cut: "takeWhile (\<lambda>c. c \<noteq> CHR 0x0A) (line @ CHR 0x0A # rest) = line"
    "dropWhile (\<lambda>c. c \<noteq> CHR 0x0A) (line @ CHR 0x0A # rest) = CHR 0x0A # rest"
    using assms by (simp_all add: takeWhile_append dropWhile_append)
  have cr: "strip_cr line = line"
  proof (cases "line = []")
    case False
    then have "List.last line \<noteq> CHR 0x0D" using assms last_in_set by blast
    then show ?thesis by (simp add: strip_cr_def)
  qed (simp add: strip_cr_def)
  show ?thesis
    unfolding spec_lines.simps [of limits "line @ CHR 0x0A # rest"] Let_def cut cr by (simp split: sum.split)
qed

definition line_fits :: "spec_limits \<Rightarrow> string \<Rightarrow> bool" where
  "line_fits limits line = (length line \<le> unat (sl_max_line_bytes limits))"

lemma spec_line_fields:
  assumes "is_word d" and ok: "\<forall>f\<in>set fs. field_ok f" and "distinct (map field_key fs)"
    and "n \<le> sl_max_lines limits" and "line_fits limits (line_text d fs)"
  shows "\<exists>a. args_hold a fs \<and> spec_line limits (line_text d fs) n st = spec_directive limits d a st"
proof -
  let ?t = "\<lparr>tk_key = d, tk_value = [], tk_quoted = False\<rparr>"
  let ?a = "new_args (?t # map field_token fs) (''line '' @ u_string n @ '' ('' @ d @ '')'')"
  have cut: "takeWhile (\<lambda>c. c \<noteq> CHR ''#'') (line_text d fs) = line_text d fs"
    using line_text_chars [OF assms(1) ok] by (auto simp: takeWhile_eq_all_conv)
  have hold: "args_hold ?a fs" by (rule new_args_hold [OF assms(3)])
  then have "args_check ?a = status_success" by (simp add: args_check_def args_hold_def)
  then have "spec_line limits (line_text d fs) n st = spec_directive limits d ?a st"
    using assms(5) leD [OF assms(4)] unfolding spec_line_def cut tokenize_fields [OF assms(1) ok]
    by (simp add: line_fits_def)
  with hold show ?thesis by blast
qed

lemma next_line_bound:
  assumes "i < unat (m :: u32)"
  shows "of_nat i + 1 \<le> m"
proof -
  have "i + 1 < 2 ^ 32" using assms unsigned_less [of m, where ?'a = nat] by simp
  then have "unat (of_nat (i + 1) :: u32) = i + 1" by (simp add: unat_of_nat del: of_nat_add of_nat_Suc)
  then have "unat (of_nat i + 1 :: u32) = i + 1" by (simp add: add.commute)
  then show ?thesis using assms by (simp add: word_le_nat_alt)
qed

locale spec_record =
  fixes limits :: spec_limits
    and directive :: string
    and starts :: bool
    and allowed :: "string list"
    and fields :: "'r \<Rightarrow> field list"
    and of_args :: "args \<Rightarrow> topology_generation \<Rightarrow> 'r outcome"
    and add :: "'r \<Rightarrow> fabric_builder \<Rightarrow> status \<times> fabric_builder"
    and valid :: "'r \<Rightarrow> bool"
  assumes dispatch: "ss_have_fabric st \<Longrightarrow>
        spec_directive limits directive a st = add_directive limits starts a allowed (of_args a) add st"
    and directive_word: "is_word directive"
    and fields_ok: "valid r \<Longrightarrow> f \<in> set (fields r) \<Longrightarrow> field_ok f"
    and fields_keys: "distinct (map field_key (fields r))" "field_key ` set (fields r) \<subseteq> set allowed"
    and parsed: "valid r \<Longrightarrow> map_of (ar_values a) = map_of (pairs_of (fields r)) \<Longrightarrow> of_args a g = Inr r"
begin

lemma parse_line:
  assumes "valid r" and "parsing limits st c" and "status_ok (fst (add r c))"
    and "n \<le> sl_max_lines limits" and "line_fits limits (line_text directive (fields r))"
  shows "\<exists>st'. spec_line limits (line_text directive (fields r)) n st = Inr st' \<and> parsing limits st' (snd (add r c))"
proof -
  obtain a where a: "args_hold a (fields r)"
    "spec_line limits (line_text directive (fields r)) n st = spec_directive limits directive a st"
    using spec_line_fields [OF directive_word _ fields_keys(1) assms(4,5)] fields_ok [OF assms(1)] by blast
  obtain st1 where st1: "ensure_builder limits st = (status_success, st1)" "ss_builder st1 = Some c" "ss_have_fabric st1"
    and have_fabric: "ss_have_fabric st"
    using assms(2) by (auto simp: parsing_def)
  let ?st = "(if starts then st1\<lparr>ss_nodes_started := True\<rparr> else st1)\<lparr>ss_builder := Some (snd (add r c))\<rparr>"
  have "of_args a g = Inr r" for g using parsed [OF assms(1)] a(1) by (simp add: args_hold_def)
  then have "spec_directive limits directive a st = Inr ?st"
    using dispatch [OF have_fabric] st1 args_hold_known [OF a(1) fields_keys(2)] assms(3)
    by (simp add: add_directive_def Let_def split_def)
  moreover have "parsing limits ?st (snd (add r c))"
    using st1(3) by (simp add: parsing_def ensure_builder_def)
  ultimately show ?thesis using a(2) by auto
qed

lemma parse_table:
  assumes "\<forall>r\<in>set rs. valid r \<and> line_fits limits (line_text directive (fields r))"
    and "parsing limits st c" and "status_ok (fst (add_all add rs c))"
    and "i + length rs \<le> unat (sl_max_lines limits)"
  shows "\<exists>st'. spec_lines limits (concat (map (\<lambda>r. line_text directive (fields r) @ [CHR 0x0A]) rs) @ rest) (of_nat i) st
      = spec_lines limits rest (of_nat (i + length rs)) st' \<and> parsing limits st' (snd (add_all add rs c))"
  using assms
proof (induction rs arbitrary: st c i)
  case Nil
  then show ?case by auto
next
  case (Cons r rs)
  have add: "status_ok (fst (add r c))" "status_ok (fst (add_all add rs (snd (add r c))))"
    "snd (add_all add (r # rs) c) = snd (add_all add rs (snd (add r c)))"
    using Cons.prems(3) by (auto simp: split_def split: if_splits)
  have n: "of_nat i + 1 \<le> sl_max_lines limits" using Cons.prems(4) by (intro next_line_bound) simp
  obtain st1 where st1: "spec_line limits (line_text directive (fields r)) (of_nat i + 1) st = Inr st1"
    "parsing limits st1 (snd (add r c))"
    using parse_line [OF _ Cons.prems(2) add(1) n] Cons.prems(1) by auto
  let ?more = "concat (map (\<lambda>r. line_text directive (fields r) @ [CHR 0x0A]) rs) @ rest"
  have "\<forall>c\<in>set (line_text directive (fields r)). c \<noteq> CHR 0x0A \<and> c \<noteq> CHR 0x0D"
    using line_text_chars [OF directive_word] fields_ok Cons.prems(1) by (metis list.set_intros(1))
  from spec_lines_step [OF this, of limits ?more "of_nat i" st] st1(1)
  have "spec_lines limits (line_text directive (fields r) @ CHR 0x0A # ?more) (of_nat i) st
      = spec_lines limits ?more (of_nat (i + 1)) st1" by (simp add: add.commute)
  moreover have "\<exists>st'. spec_lines limits ?more (of_nat (i + 1)) st1 = spec_lines limits rest (of_nat (i + 1 + length rs)) st'
      \<and> parsing limits st' (snd (add_all add rs (snd (add r c))))"
    using Cons.IH [OF _ st1(2) add(2), of "i + 1"] Cons.prems(1,4) by simp
  ultimately show ?case unfolding add(3) by simp
qed

end

section \<open>Words of the rendering\<close>

named_theorems words \<open>texts the tokenizer takes as one word\<close>

lemma word_append: "is_word s \<Longrightarrow> is_word t \<Longrightarrow> is_word (s @ t)"
  by (simp add: is_word_def)

lemma u_string_word [words]: "is_word (u_string w)"
proof -
  have "word_char c" if "c \<in> set (u_string w)" for c
    using that dec_string_digits [of c "unat w"] by (auto simp: u_string_def is_digit_def word_char_def)
  then show ?thesis by (simp add: is_word_def list_all_iff u_string_def)
qed

lemma enum_words [words]:
  "is_word (fabric_state_string v1)" "is_word (evidence_policy_string v2)" "is_word (leaf_role_string v3)"
  "is_word (spine_role_string v4)" "is_word (node_state_string v5)" "is_word (port_admin_string v6)"
  "is_word (link_admin_string v7)" "is_word (link_class_string v8)" "is_word (link_observation_string v9)"
  "is_word (bool_text v10)"
  by goal_cases
    ((cases v1; simp add: is_word_def word_char_def),
     (cases v2; simp add: is_word_def word_char_def),
     (cases v3; simp add: is_word_def word_char_def),
     (cases v4; simp add: is_word_def word_char_def),
     (cases v5; simp add: is_word_def word_char_def),
     (cases v6; simp add: is_word_def word_char_def),
     (cases v7; simp add: is_word_def word_char_def),
     (cases v8; simp add: is_word_def word_char_def),
     (cases v9; simp add: is_word_def word_char_def),
     simp add: bool_text_def is_word_def word_char_def)

lemma node_key_word [words]: "is_word (node_key_string k)"
  using u_string_word [of "nk_index k"]
  by (simp add: node_key_string_def leaf_id_string_def spine_id_string_def is_word_def word_char_def)

lemma length_u_string32: "length (u_string (w :: u32)) \<le> 10"
  using unsigned_less [of w, where ?'a = nat] by (simp add: u_string_def length_dec_string)

lemma node_key_length: "length (node_key_string k) \<le> 16"
  using length_u_string32 [of "nk_index k"]
  by (simp add: node_key_string_def leaf_id_string_def spine_id_string_def)

lemma hex_word: "is_word (hex_u64 w)"
proof -
  have "list_all (\<lambda>n. word_char (kHexDigits ! n)) [0..<16]" by code_simp
  then have "word_char (kHexDigits ! n)" if "n < 16" for n using that by (simp add: list_all_iff)
  then show ?thesis using nibble_bound by (auto simp: hex_u64_def is_word_def list_all_iff)
qed

lemma incarnation_word [words]: "is_word (incarnation_string i)"
  by (simp add: incarnation_string_def hex_word word_append)

lemma enum_lengths:
  "length (fabric_state_string v1) \<le> 64" "length (evidence_policy_string v2) \<le> 64" "length (leaf_role_string v3) \<le> 32"
  "length (spine_role_string v4) \<le> 32" "length (node_state_string v5) \<le> 32" "length (port_admin_string v6) \<le> 32"
  "length (link_admin_string v7) \<le> 32" "length (link_class_string v8) \<le> 32" "length (link_observation_string v9) \<le> 32"
  "length (incarnation_string i) \<le> 40"
  by goal_cases
    ((cases v1; simp),
     (cases v2; simp),
     (cases v3; simp),
     (cases v4; simp),
     (cases v5; simp),
     (cases v6; simp),
     (cases v7; simp),
     (cases v8; simp),
     (cases v9; simp),
     simp add: incarnation_string_def)

lemma args_word:
  "map_of (ar_values a) k = Some v \<Longrightarrow> is_word v \<Longrightarrow> length v \<le> m \<Longrightarrow> args_str a k req m dflt = Inr v"
  by (rule args_values(3)) (auto simp: word_utf8, simp add: is_word_def)

section \<open>The record directives\<close>

definition printable_name :: "spec_limits \<Rightarrow> string \<Rightarrow> bool" where
  "printable_name limits t \<longleftrightarrow> t \<noteq> [] \<and> name_text t \<and> length t \<le> unat (sl_max_name_bytes limits)"

lemma args_name:
  "map_of (ar_values a) k = Some v \<Longrightarrow> printable_name limits v \<Longrightarrow>
     args_str a k req (unat (sl_max_name_bytes limits)) dflt = Inr v"
  by (rule args_values(3)) (auto simp: printable_name_def name_text_def)

definition domain_line :: "failure_domain_record \<Rightarrow> field list" where
  "domain_line d = [Plain ''id'' (u_string (fd_id d)), Quoted ''name'' (fd_name d),
     Plain ''generation'' (u_string (fd_generation d))]"

definition leaf_line :: "leaf_record \<Rightarrow> field list" where
  "leaf_line l = [Plain ''id'' (u_string (lf_id l)), Quoted ''name'' (lf_name l),
     Plain ''role'' (leaf_role_string (lf_role l)), Plain ''domain'' (u_string (lf_domain l)),
     Plain ''state'' (node_state_string (lf_state l)), Plain ''access_mbps'' (u_string (lf_access_capacity_mbps l)),
     Plain ''access_links'' (u_string (lf_access_link_count l)),
     Plain ''role_incarnation'' (u_string (lf_role_incarnation l)), Plain ''generation'' (u_string (lf_generation l))]"

definition spine_line :: "spine_record \<Rightarrow> field list" where
  "spine_line s = [Plain ''id'' (u_string (sp_id s)), Quoted ''name'' (sp_name s),
     Plain ''role'' (spine_role_string (sp_role s)), Plain ''domain'' (u_string (sp_domain s)),
     Plain ''state'' (node_state_string (sp_state s)), Plain ''fabric_mbps'' (u_string (sp_fabric_capacity_mbps s)),
     Plain ''role_incarnation'' (u_string (sp_role_incarnation s)), Plain ''generation'' (u_string (sp_generation s))]"

definition port_line :: "port_record \<Rightarrow> field list" where
  "port_line p = [Plain ''id'' (u_string (pt_id p)), Plain ''owner'' (node_key_string (pt_owner p)),
     Plain ''speed_mbps'' (u_string (pt_speed_mbps p)), Plain ''admin'' (port_admin_string (pt_admin p)),
     Plain ''generation'' (u_string (pt_generation p))]"

definition link_line :: "link_record \<Rightarrow> field list" where
  "link_line k = [Plain ''id'' (u_string (lk_id k)), Plain ''a'' (node_key_string (lk_a k)),
     Plain ''pa'' (u_string (lk_port_a k)), Plain ''b'' (node_key_string (lk_b k)), Plain ''pb'' (u_string (lk_port_b k)),
     Plain ''class'' (link_class_string (lk_cls k)), Plain ''admin'' (link_admin_string (lk_admin k))]
     @ (if lk_declared_speed_mbps k \<noteq> 0 then [Plain ''speed_mbps'' (u_string (lk_declared_speed_mbps k))] else [])
     @ [Plain ''generation'' (u_string (lk_generation k))]"

definition evidence_line :: "link_evidence \<Rightarrow> field list" where
  "evidence_line e = [Plain ''link'' (u_string (ev_link e)), Plain ''observed'' (link_observation_string (ev_observed e)),
     Plain ''generation'' (u_string (ev_generation e)), Plain ''observer'' (incarnation_string (ev_observer e)),
     Plain ''epoch'' (u_string (ev_epoch e)), Plain ''seq'' (u_string (ev_observed_seq e)),
     Plain ''at_ms'' (u_string (ev_observed_at_unix_ms e))]"

lemma format_lines:
  "format_domain d = line_text ''domain'' (domain_line d) @ [CHR 0x0A]"
  "format_leaf l = line_text ''leaf'' (leaf_line l) @ [CHR 0x0A]"
  "format_spine s = line_text ''spine'' (spine_line s) @ [CHR 0x0A]"
  "format_port p = line_text ''port'' (port_line p) @ [CHR 0x0A]"
  "emit_link prefix k = line_text prefix (link_line k) @ [CHR 0x0A]"
  "format_evidence e = line_text ''evidence'' (evidence_line e) @ [CHR 0x0A]"
  by (simp_all add: format_domain_def domain_line_def format_leaf_def leaf_line_def format_spine_def spine_line_def
      format_port_def port_line_def emit_link_def link_line_def format_evidence_def evidence_line_def line_text_def)

lemmas line_defs = domain_line_def leaf_line_def spine_line_def port_line_def link_line_def evidence_line_def

lemma key_words [words]:
  "list_all key_word [''id'', ''name'', ''site'', ''generation'', ''epoch'', ''state'', ''role'', ''domain'', ''access_mbps'',
     ''access_links'', ''role_incarnation'', ''fabric_mbps'', ''owner'', ''speed_mbps'', ''admin'', ''a'', ''pa'', ''b'', ''pb'',
     ''class'', ''link'', ''observed'', ''observer'', ''seq'', ''at_ms'', ''allow_same_tier_adjacency'',
     ''require_domain_diversity'', ''min_eligible_spines'', ''evidence_policy'']"
  by (simp add: key_word_def is_word_def word_char_def)

lemma directive_words [words]:
  "is_word ''domain''" "is_word ''leaf''" "is_word ''spine''" "is_word ''port''" "is_word ''link''"
  "is_word ''history-link''" "is_word ''evidence''" "is_word ''fabric''" "is_word ''option''"
  by (simp_all add: is_word_def word_char_def)

text \<open>The handler of a record directive parses the fields of a printed record back to the record.\<close>

lemma domain_parsed:
  assumes "printable_name limits (fd_name d)" and "map_of (ar_values a) = map_of (pairs_of (domain_line d))"
  shows "domain_of_args limits a g = Inr d"
proof -
  have look: "map_of (ar_values a) ''id'' = Some (u_string (fd_id d))"
    "map_of (ar_values a) ''name'' = Some (fd_name d)"
    "map_of (ar_values a) ''generation'' = Some (u_string (fd_generation d))"
    by (simp_all add: assms(2) domain_line_def pairs_of_def)
  note vals = args_values(2) [OF look(1)]
    args_name [OF look(2) assms(1)]
    args_values(1) [OF look(3)]
  show ?thesis
    by (simp add: domain_of_args_def require_generation_def vals enum_parse_print parse_node_key_string parse_incarnation_string Let_def)
qed

lemma leaf_parsed:
  assumes "printable_name limits (lf_name l)" and "map_of (ar_values a) = map_of (pairs_of (leaf_line l))"
  shows "leaf_of_args limits a g = Inr l"
proof -
  have look: "map_of (ar_values a) ''id'' = Some (u_string (lf_id l))"
    "map_of (ar_values a) ''name'' = Some (lf_name l)"
    "map_of (ar_values a) ''role'' = Some (leaf_role_string (lf_role l))"
    "map_of (ar_values a) ''domain'' = Some (u_string (lf_domain l))"
    "map_of (ar_values a) ''state'' = Some (node_state_string (lf_state l))"
    "map_of (ar_values a) ''access_mbps'' = Some (u_string (lf_access_capacity_mbps l))"
    "map_of (ar_values a) ''access_links'' = Some (u_string (lf_access_link_count l))"
    "map_of (ar_values a) ''role_incarnation'' = Some (u_string (lf_role_incarnation l))"
    "map_of (ar_values a) ''generation'' = Some (u_string (lf_generation l))"
    by (simp_all add: assms(2) leaf_line_def pairs_of_def)
  note vals = args_values(2) [OF look(1)]
    args_name [OF look(2) assms(1)]
    args_word [OF look(3) enum_words(3) enum_lengths(3)]
    args_values(2) [OF look(4)]
    args_word [OF look(5) enum_words(5) enum_lengths(5)]
    args_values(1) [OF look(6)]
    args_values(2) [OF look(7)]
    args_values(1) [OF look(8)]
    args_values(1) [OF look(9)]
  show ?thesis
    by (simp add: leaf_of_args_def require_generation_def vals enum_parse_print parse_node_key_string parse_incarnation_string Let_def)
qed

lemma spine_parsed:
  assumes "printable_name limits (sp_name s)" and "map_of (ar_values a) = map_of (pairs_of (spine_line s))"
  shows "spine_of_args limits a g = Inr s"
proof -
  have look: "map_of (ar_values a) ''id'' = Some (u_string (sp_id s))"
    "map_of (ar_values a) ''name'' = Some (sp_name s)"
    "map_of (ar_values a) ''role'' = Some (spine_role_string (sp_role s))"
    "map_of (ar_values a) ''domain'' = Some (u_string (sp_domain s))"
    "map_of (ar_values a) ''state'' = Some (node_state_string (sp_state s))"
    "map_of (ar_values a) ''fabric_mbps'' = Some (u_string (sp_fabric_capacity_mbps s))"
    "map_of (ar_values a) ''role_incarnation'' = Some (u_string (sp_role_incarnation s))"
    "map_of (ar_values a) ''generation'' = Some (u_string (sp_generation s))"
    by (simp_all add: assms(2) spine_line_def pairs_of_def)
  note vals = args_values(2) [OF look(1)]
    args_name [OF look(2) assms(1)]
    args_word [OF look(3) enum_words(4) enum_lengths(4)]
    args_values(2) [OF look(4)]
    args_word [OF look(5) enum_words(5) enum_lengths(5)]
    args_values(1) [OF look(6)]
    args_values(1) [OF look(7)]
    args_values(1) [OF look(8)]
  show ?thesis
    by (simp add: spine_of_args_def require_generation_def vals enum_parse_print parse_node_key_string parse_incarnation_string Let_def)
qed

lemma port_parsed:
  assumes "map_of (ar_values a) = map_of (pairs_of (port_line p))"
  shows "port_of_args a g = Inr p"
proof -
  have look: "map_of (ar_values a) ''id'' = Some (u_string (pt_id p))"
    "map_of (ar_values a) ''owner'' = Some (node_key_string (pt_owner p))"
    "map_of (ar_values a) ''speed_mbps'' = Some (u_string (pt_speed_mbps p))"
    "map_of (ar_values a) ''admin'' = Some (port_admin_string (pt_admin p))"
    "map_of (ar_values a) ''generation'' = Some (u_string (pt_generation p))"
    by (simp_all add: assms port_line_def pairs_of_def)
  note vals = args_values(2) [OF look(1)]
    args_word [OF look(2) node_key_word order_trans [OF node_key_length], of 64]
    args_values(1) [OF look(3)]
    args_word [OF look(4) enum_words(6) enum_lengths(6)]
    args_values(1) [OF look(5)]
  show ?thesis
    by (simp add: port_of_args_def require_generation_def vals enum_parse_print parse_node_key_string parse_incarnation_string Let_def)
qed

lemma link_parsed:
  assumes "map_of (ar_values a) = map_of (pairs_of (link_line k))"
  shows "link_of_args a g = Inr k"
proof -
  have look: "map_of (ar_values a) ''id'' = Some (u_string (lk_id k))"
    "map_of (ar_values a) ''a'' = Some (node_key_string (lk_a k))"
    "map_of (ar_values a) ''pa'' = Some (u_string (lk_port_a k))"
    "map_of (ar_values a) ''b'' = Some (node_key_string (lk_b k))"
    "map_of (ar_values a) ''pb'' = Some (u_string (lk_port_b k))"
    "map_of (ar_values a) ''class'' = Some (link_class_string (lk_cls k))"
    "map_of (ar_values a) ''admin'' = Some (link_admin_string (lk_admin k))"
    "map_of (ar_values a) ''generation'' = Some (u_string (lk_generation k))"
    by (simp_all add: assms link_line_def pairs_of_def)
  have speed: "args_u64 a ''speed_mbps'' False 0 = Inr (lk_declared_speed_mbps k)"
    by (cases "lk_declared_speed_mbps k = 0")
      (simp_all add: args_u64_def parse_u64_u_string assms link_line_def pairs_of_def)
  have cls: "class_of_text a (link_class_string (lk_cls k)) na nb = Inr (lk_cls k)" for na nb
    by (cases "lk_cls k") (simp_all add: class_of_text_def)
  note vals = args_values(2) [OF look(1)]
    args_word [OF look(2) node_key_word order_trans [OF node_key_length], of 64]
    args_values(2) [OF look(3)]
    args_word [OF look(4) node_key_word order_trans [OF node_key_length], of 64]
    args_values(2) [OF look(5)]
    args_word [OF look(6) enum_words(8) enum_lengths(8)]
    args_word [OF look(7) enum_words(7) enum_lengths(7)]
    args_values(1) [OF look(8)]
    speed
    cls
  show ?thesis
    by (simp add: link_of_args_def require_generation_def vals enum_parse_print parse_node_key_string parse_incarnation_string Let_def)
qed

lemma evidence_parsed:
  assumes "map_of (ar_values a) = map_of (pairs_of (evidence_line e))"
  shows "evidence_of_args a g = Inr e"
proof -
  have look: "map_of (ar_values a) ''link'' = Some (u_string (ev_link e))"
    "map_of (ar_values a) ''observed'' = Some (link_observation_string (ev_observed e))"
    "map_of (ar_values a) ''generation'' = Some (u_string (ev_generation e))"
    "map_of (ar_values a) ''observer'' = Some (incarnation_string (ev_observer e))"
    "map_of (ar_values a) ''epoch'' = Some (u_string (ev_epoch e))"
    "map_of (ar_values a) ''seq'' = Some (u_string (ev_observed_seq e))"
    "map_of (ar_values a) ''at_ms'' = Some (u_string (ev_observed_at_unix_ms e))"
    by (simp_all add: assms evidence_line_def pairs_of_def)
  note vals = args_values(2) [OF look(1)]
    args_word [OF look(2) enum_words(9) enum_lengths(9)]
    args_values(1) [OF look(3)]
    args_word [OF look(4) incarnation_word enum_lengths(10)]
    args_values(1) [OF look(5)]
    args_values(1) [OF look(6)]
    args_values(1) [OF look(7)]
  show ?thesis
    by (simp add: evidence_of_args_def require_generation_def vals enum_parse_print parse_node_key_string parse_incarnation_string Let_def)
qed

lemmas field_words = key_words [simplified] u_string_word enum_words node_key_word incarnation_word

interpretation domain_lines: spec_record limits "''domain''" True
    "[''id'', ''name'', ''generation'']" domain_line
    "domain_of_args limits" add_failure_domain "\<lambda>d. printable_name limits (fd_name d)"
  for limits
  by unfold_locales
    (simp_all add: spec_directive_def directive_words domain_parsed, auto simp: domain_line_def printable_name_def field_words)

interpretation leaf_lines: spec_record limits "''leaf''" True
    "[''id'', ''name'', ''role'', ''domain'', ''state'', ''access_mbps'', ''access_links'', ''role_incarnation'', ''generation'']" leaf_line
    "leaf_of_args limits" add_leaf "\<lambda>l. printable_name limits (lf_name l)"
  for limits
  by unfold_locales
    (simp_all add: spec_directive_def directive_words leaf_parsed, auto simp: leaf_line_def printable_name_def field_words)

interpretation spine_lines: spec_record limits "''spine''" True
    "[''id'', ''name'', ''role'', ''domain'', ''state'', ''fabric_mbps'', ''role_incarnation'', ''generation'']" spine_line
    "spine_of_args limits" add_spine "\<lambda>s. printable_name limits (sp_name s)"
  for limits
  by unfold_locales
    (simp_all add: spec_directive_def directive_words spine_parsed, auto simp: spine_line_def printable_name_def field_words)

interpretation port_lines: spec_record limits "''port''" True
    "[''id'', ''owner'', ''speed_mbps'', ''admin'', ''generation'']" port_line
    "port_of_args" add_port "\<lambda>_. True"
  for limits
  by unfold_locales
    (simp_all add: spec_directive_def directive_words port_parsed, auto simp: port_line_def printable_name_def field_words)

interpretation link_lines: spec_record limits "''link''" True
    "[''id'', ''a'', ''pa'', ''b'', ''pb'', ''class'', ''admin'', ''speed_mbps'', ''generation'']" link_line
    "link_of_args" add_link "\<lambda>_. True"
  for limits
  by unfold_locales
    (simp_all add: spec_directive_def directive_words link_parsed, auto simp: link_line_def printable_name_def field_words)

interpretation history_lines: spec_record limits "''history-link''" True
    "[''id'', ''a'', ''pa'', ''b'', ''pb'', ''class'', ''admin'', ''speed_mbps'', ''generation'']" link_line
    "link_of_args" add_history_link "\<lambda>_. True"
  for limits
  by unfold_locales
    (simp_all add: spec_directive_def directive_words link_parsed, auto simp: link_line_def printable_name_def field_words)

interpretation evidence_lines: spec_record limits "''evidence''" False
    "[''link'', ''observed'', ''generation'', ''observer'', ''epoch'', ''seq'', ''at_ms'']" evidence_line
    "evidence_of_args" add_evidence "\<lambda>_. True"
  for limits
  by unfold_locales
    (simp_all add: spec_directive_def directive_words evidence_parsed, auto simp: evidence_line_def printable_name_def field_words)

section \<open>The header\<close>

definition fabric_line :: "fabric \<Rightarrow> field list" where
  "fabric_line f = [Plain ''id'' (u_string (fab_id f)), Quoted ''name'' (fab_name f)]
     @ (if fab_site f \<noteq> [] then [Quoted ''site'' (fab_site f)] else [])
     @ [Plain ''generation'' (u_string (fab_generation f)), Plain ''epoch'' (u_string (fab_epoch f)),
        Plain ''state'' (fabric_state_string (fab_state f))]"

definition options_line :: "fabric_options \<Rightarrow> field list" where
  "options_line v = [Plain ''allow_same_tier_adjacency'' (bool_text (opt_allow_same_tier_adjacency v)),
     Plain ''require_domain_diversity'' (bool_text (opt_require_domain_diversity v)),
     Plain ''min_eligible_spines'' (u_string (opt_min_eligible_spines v)),
     Plain ''evidence_policy'' (evidence_policy_string (opt_evidence_policy v))]"

lemma format_header_lines:
  "format_fabric f = line_text ''fabric'' (fabric_line f) @ [CHR 0x0A]"
  "format_options v = line_text ''option'' (options_line v) @ [CHR 0x0A]"
  by (simp_all add: format_fabric_def fabric_line_def format_options_def options_line_def line_text_def)

definition header_state :: "fabric \<Rightarrow> spec_state" where
  "header_state f = \<lparr>ss_builder = None, ss_options = fab_options f, ss_generation = fab_generation f,
     ss_nodes_started = False, ss_have_fabric = True, ss_id = fab_id f, ss_name = fab_name f, ss_site = fab_site f,
     ss_epoch = fab_epoch f, ss_state = fab_state f\<rparr>"

lemma spec_fabric_parsed:
  assumes "args_hold a (fabric_line f)" and "fab_id f \<noteq> 0" and "fab_generation f \<noteq> 0"
    and "printable_name limits (fab_name f)" and "fab_site f = [] \<or> printable_name limits (fab_site f)"
  shows "spec_fabric limits a initial_spec_state = Inr ((header_state f)\<lparr>ss_options := default_fabric_options\<rparr>)"
proof -
  have vals: "map_of (ar_values a) = map_of (pairs_of (fabric_line f))" using assms(1) by (simp add: args_hold_def)
  have look: "map_of (ar_values a) ''id'' = Some (u_string (fab_id f))"
    "map_of (ar_values a) ''name'' = Some (fab_name f)"
    "map_of (ar_values a) ''generation'' = Some (u_string (fab_generation f))"
    "map_of (ar_values a) ''epoch'' = Some (u_string (fab_epoch f))"
    "map_of (ar_values a) ''state'' = Some (fabric_state_string (fab_state f))"
    by (simp_all add: vals fabric_line_def pairs_of_def)
  have site: "args_str a ''site'' False (unat (sl_max_name_bytes limits)) [] = Inr (fab_site f)"
  proof (cases "fab_site f = []")
    case True
    then show ?thesis using args_values(5) [of a "''site''"] by (simp add: vals fabric_line_def pairs_of_def)
  next
    case False
    then have "map_of (ar_values a) ''site'' = Some (fab_site f)" by (simp add: vals fabric_line_def pairs_of_def)
    with False assms(5) show ?thesis by (auto intro: args_name)
  qed
  have known: "reject_unknown a [''id'', ''name'', ''site'', ''generation'', ''epoch'', ''state''] = status_success"
    by (rule args_hold_known [OF assms(1)]) (auto simp: fabric_line_def)
  have state: "fabric_state_string (fab_state f) \<noteq> []" using enum_words(1) [of "fab_state f"] by (simp add: is_word_def)
  show ?thesis
    using assms(2,3) state
    by (simp add: spec_fabric_def initial_spec_state_def header_state_def known site args_values(1) [OF look(1)]
        args_name [OF look(2) assms(4)] args_values(1) [OF look(3)] args_values(1) [OF look(4)]
        args_word [OF look(5) enum_words(1) enum_lengths(1)] enum_parse_print Let_def)
qed

lemma spec_option_parsed:
  assumes "args_hold a (options_line (fab_options f))"
  shows "spec_option a ((header_state f)\<lparr>ss_options := default_fabric_options\<rparr>) = Inr (header_state f)"
proof -
  let ?v = "fab_options f"
  have vals: "map_of (ar_values a) = map_of (pairs_of (options_line ?v))" using assms by (simp add: args_hold_def)
  have look: "map_of (ar_values a) ''allow_same_tier_adjacency'' = Some (bool_text (opt_allow_same_tier_adjacency ?v))"
    "map_of (ar_values a) ''require_domain_diversity'' = Some (bool_text (opt_require_domain_diversity ?v))"
    "map_of (ar_values a) ''min_eligible_spines'' = Some (u_string (opt_min_eligible_spines ?v))"
    "map_of (ar_values a) ''evidence_policy'' = Some (evidence_policy_string (opt_evidence_policy ?v))"
    by (simp_all add: vals options_line_def pairs_of_def)
  have known: "reject_unknown a [''allow_same_tier_adjacency'', ''require_domain_diversity'', ''min_eligible_spines'',
      ''evidence_policy''] = status_success"
    by (rule args_hold_known [OF assms]) (auto simp: options_line_def)
  have policy: "evidence_policy_string (opt_evidence_policy ?v) \<noteq> []"
    using enum_words(2) [of "opt_evidence_policy ?v"] by (simp add: is_word_def)
  show ?thesis
    using policy
    by (simp add: spec_option_def header_state_def known args_values(4) [OF look(1)] args_values(4) [OF look(2)]
        args_values(2) [OF look(3)] args_word [OF look(4) enum_words(2) enum_lengths(2)] enum_parse_print Let_def
        options_eta default_fabric_options_def)
qed

lemma header_state_parsing:
  assumes ser: "encodable b" and "sl_builder limits = fb_limits b"
  shows "\<exists>c. parsing limits (header_state (frozen_fabric b)) c \<and> rebuilt c (bare_builder b)"
proof -
  let ?b0 = "new_builder (fb_id b) (fb_name b) (fb_generation b) (fb_epoch b) (fb_options b) (fb_limits b)"
  let ?c = "?b0\<lparr>fb_site := fb_site b, fb_fabric_state := fb_fabric_state b\<rparr>"
  note hd = header_rebuilt [OF ser]
  have "fb_site (builder_core ?b0) = []" by (simp add: core_new_builder)
  then have "fb_site ?b0 = []" by (simp add: builder_core_def)
  then have none: "?b0\<lparr>fb_site := []\<rparr> = ?b0" by (cases ?b0) simp
  have "ensure_builder limits (header_state (frozen_fabric b))
      = (status_success, (header_state (frozen_fabric b))\<lparr>ss_builder := Some ?c\<rparr>)"
    using hd(1,2) none assms(2) by (simp add: ensure_builder_def header_state_def set_state_def Let_def)
  then have "parsing limits (header_state (frozen_fabric b)) ?c" by (simp add: parsing_def header_state_def)
  with hd(3) show ?thesis by blast
qed

section \<open>The whole text\<close>

text \<open>The lines \<open>format_spec\<close> prints, without their newlines, and what a parser's limits ask of them.\<close>

definition spec_text_lines :: "fabric \<Rightarrow> string list" where
  "spec_text_lines f =
     [line_text ''fabric'' (fabric_line f), line_text ''option'' (options_line (fab_options f))]
     @ map (\<lambda>d. line_text ''domain'' (domain_line d)) (fab_domains f)
     @ map (\<lambda>l. line_text ''leaf'' (leaf_line l)) (fab_leaves f)
     @ map (\<lambda>s. line_text ''spine'' (spine_line s)) (fab_spines f)
     @ map (\<lambda>p. line_text ''port'' (port_line p)) (fab_ports f)
     @ map (\<lambda>k. line_text ''link'' (link_line k)) (fab_links f)
     @ map (\<lambda>k. line_text ''history-link'' (link_line k)) (fab_history_links f)
     @ map (\<lambda>e. line_text ''evidence'' (evidence_line e)) (fab_evidence f)"

definition spec_fits :: "spec_limits \<Rightarrow> fabric \<Rightarrow> bool" where
  "spec_fits limits f \<longleftrightarrow> length (format_spec f) \<le> unat (sl_max_file_bytes limits)
     \<and> length (spec_text_lines f) < unat (sl_max_lines limits) \<and> list_all (line_fits limits) (spec_text_lines f)"

text \<open>
  What the text format can express: a non-zero identity and generation, and names without \<open>#\<close> (the
  comment sign is cut before quotes are read) and without a NUL.
\<close>

definition spec_expressible :: "fabric \<Rightarrow> bool" where
  "spec_expressible f \<longleftrightarrow> fab_id f \<noteq> 0 \<and> fab_generation f \<noteq> 0
     \<and> list_all (\<lambda>t. CHR ''#'' \<notin> set t \<and> CHR 0x00 \<notin> set t)
         ([fab_name f, fab_site f] @ map fd_name (fab_domains f) @ map lf_name (fab_leaves f) @ map sp_name (fab_spines f))"

lemma format_spec_lines: "format_spec f = concat (map (\<lambda>t. t @ [CHR 0x0A]) (spec_text_lines f))"
proof -
  have "format_domain = (\<lambda>d. line_text ''domain'' (domain_line d) @ [CHR 0x0A])"
    "format_leaf = (\<lambda>l. line_text ''leaf'' (leaf_line l) @ [CHR 0x0A])"
    "format_spine = (\<lambda>s. line_text ''spine'' (spine_line s) @ [CHR 0x0A])"
    "format_port = (\<lambda>p. line_text ''port'' (port_line p) @ [CHR 0x0A])"
    "emit_link prefix = (\<lambda>k. line_text prefix (link_line k) @ [CHR 0x0A])"
    "format_evidence = (\<lambda>e. line_text ''evidence'' (evidence_line e) @ [CHR 0x0A])" for prefix
    by (simp_all only: fun_eq_iff format_lines simp_thms)
  then show ?thesis by (simp add: format_spec_def spec_text_lines_def format_header_lines comp_def)
qed

lemma expressible_names:
  assumes ser: "encodable b" and ex: "spec_expressible (frozen_fabric b)"
    and lim: "lim_max_name_bytes (fb_limits b) \<le> sl_max_name_bytes limits"
  shows "printable_name limits (fb_name b)" and "fb_site b = [] \<or> printable_name limits (fb_site b)"
    and "\<forall>d\<in>set (map snd (fb_domains b)). printable_name limits (fd_name d)"
    and "\<forall>l\<in>set (map snd (fb_leaves b)). printable_name limits (lf_name l)"
    and "\<forall>s\<in>set (map snd (fb_spines b)). printable_name limits (sp_name s)"
proof -
  have inv: "builder_inv b" "header_inv b" "report_errors (fb_report b) = []"
    using ser by (simp_all add: encodable_def client_inv_def)
  have ok: "printable_name limits t" if "name_ok b t" "CHR ''#'' \<notin> set t" "CHR 0x00 \<notin> set t" for t
    using that lim by (auto simp: printable_name_def name_text_def name_ok_def check_name_def word_le_nat_alt split: if_splits)
  show "printable_name limits (fb_name b)" "fb_site b = [] \<or> printable_name limits (fb_site b)"
    using inv ex ok by (auto simp: header_inv_def spec_expressible_def)
  have names: "name_ok b (fd_name d)" if "d \<in> set (map snd (fb_domains b))" for d
    using inv(1) that by (auto simp: builder_inv_def table_ok_def domain_fits_def)
  have names': "name_ok b (lf_name l)" if "l \<in> set (map snd (fb_leaves b))" for l
    using inv(1) that by (auto simp: builder_inv_def table_ok_def leaf_fits_def)
  have names'': "name_ok b (sp_name s)" if "s \<in> set (map snd (fb_spines b))" for s
    using inv(1) that by (auto simp: builder_inv_def table_ok_def spine_fits_def)
  show "\<forall>d\<in>set (map snd (fb_domains b)). printable_name limits (fd_name d)"
    "\<forall>l\<in>set (map snd (fb_leaves b)). printable_name limits (lf_name l)"
    "\<forall>s\<in>set (map snd (fb_spines b)). printable_name limits (sp_name s)"
    using ex names names' names'' ok by (simp_all add: spec_expressible_def list_all_iff)
qed

text \<open>The two header lines leave the parser ready to add to a fresh builder.\<close>

lemma parse_header_lines:
  assumes ser: "encodable b" and ex: "spec_expressible (frozen_fabric b)" and fits: "spec_fits limits (frozen_fabric b)"
    and lim: "sl_builder limits = fb_limits b" "lim_max_name_bytes (fb_limits b) \<le> sl_max_name_bytes limits"
  shows "spec_lines limits (line_text ''fabric'' (fabric_line (frozen_fabric b)) @ CHR 0x0A
       # line_text ''option'' (options_line (fb_options b)) @ CHR 0x0A # rest) 0 initial_spec_state
     = spec_lines limits rest 2 (header_state (frozen_fabric b))"
proof -
  let ?f = "frozen_fabric b" and ?v = "fb_options b"
  note names = expressible_names [OF ser ex lim(2)]
  have okf: "\<forall>x\<in>set (fabric_line ?f). field_ok x"
    using names(1,2) by (auto simp: fabric_line_def printable_name_def field_words)
  have oko: "\<forall>x\<in>set (options_line ?v). field_ok x" by (auto simp: options_line_def field_words)
  have many: "2 < unat (sl_max_lines limits)" using fits by (auto simp: spec_fits_def spec_text_lines_def)
  then have n: "1 \<le> sl_max_lines limits" "2 \<le> sl_max_lines limits" by (simp_all add: word_le_nat_alt)
  have lf: "line_fits limits (line_text ''fabric'' (fabric_line ?f))" "line_fits limits (line_text ''option'' (options_line ?v))"
    using fits by (simp_all add: spec_fits_def spec_text_lines_def)
  have df: "distinct (map field_key (fabric_line ?f))" "distinct (map field_key (options_line ?v))"
    by (simp_all add: fabric_line_def options_line_def)
  obtain a where a: "args_hold a (fabric_line ?f)" "spec_line limits (line_text ''fabric'' (fabric_line ?f)) 1 initial_spec_state
      = spec_directive limits ''fabric'' a initial_spec_state"
    using spec_line_fields [OF directive_words(8) okf df(1) n(1) lf(1)] by blast
  have one: "spec_line limits (line_text ''fabric'' (fabric_line ?f)) 1 initial_spec_state
      = Inr ((header_state ?f)\<lparr>ss_options := default_fabric_options\<rparr>)"
    using spec_fabric_parsed [OF a(1)] names(1,2) ex a(2) by (simp add: spec_directive_def spec_expressible_def)
  let ?st = "(header_state ?f)\<lparr>ss_options := default_fabric_options\<rparr>"
  obtain a' where a': "args_hold a' (options_line ?v)" "spec_line limits (line_text ''option'' (options_line ?v)) 2 ?st
      = spec_directive limits ''option'' a' ?st"
    using spec_line_fields [OF directive_words(9) oko df(2) n(2) lf(2)] by blast
  have two: "spec_line limits (line_text ''option'' (options_line ?v)) 2 ?st = Inr (header_state ?f)"
    using spec_option_parsed [of a' ?f] a' by (simp add: spec_directive_def header_state_def)
  have "\<forall>c\<in>set (line_text ''fabric'' (fabric_line ?f)). c \<noteq> CHR 0x0A \<and> c \<noteq> CHR 0x0D"
    "\<forall>c\<in>set (line_text ''option'' (options_line ?v)). c \<noteq> CHR 0x0A \<and> c \<noteq> CHR 0x0D"
    using line_text_chars [OF directive_words(8) okf] line_text_chars [OF directive_words(9) oko] by blast+
  from spec_lines_step [OF this(1)] spec_lines_step [OF this(2)] one two show ?thesis by simp
qed

lemma spec_lines_end:
  assumes "n + 1 \<le> sl_max_lines limits"
  shows "spec_lines limits [] n st = Inr st"
proof -
  have "spec_line limits [] (n + 1) st = Inr st"
    using leD [OF assms] by (simp add: spec_line_def tokenize_line_def)
  then show ?thesis by (simp add: spec_lines.simps [of limits "[]"] strip_cr_def)
qed

text \<open>The record lines, table by table.\<close>

lemma parse_record_lines:
  assumes ser: "encodable b" and disj: "history_disjoint b" and ex: "spec_expressible (frozen_fabric b)"
    and fits: "spec_fits limits (frozen_fabric b)"
    and lim: "sl_builder limits = fb_limits b" "lim_max_name_bytes (fb_limits b) \<le> sl_max_name_bytes limits"
  shows "\<exists>st d. spec_lines limits (concat (map (\<lambda>t. t @ [CHR 0x0A]) (drop 2 (spec_text_lines (frozen_fabric b))))) 2
       (header_state (frozen_fabric b)) = Inr st \<and> parsing limits st d
     \<and> rebuilt d (b\<lparr>fb_evidence := std_sort evidence_less (fb_evidence b)\<rparr>)"
proof -
  let ?es = "std_sort evidence_less (fb_evidence b)" and ?max = "unat (sl_max_lines limits)"
  note names = expressible_names [OF ser ex lim(2)]
  have inv: "builder_inv b" "\<not> fb_frozen b" using ser by (simp_all add: encodable_def client_inv_def)
  have all: "\<forall>d\<in>set (map snd (fb_domains b)). line_fits limits (line_text ''domain'' (domain_line d))"
    "\<forall>l\<in>set (map snd (fb_leaves b)). line_fits limits (line_text ''leaf'' (leaf_line l))"
    "\<forall>s\<in>set (map snd (fb_spines b)). line_fits limits (line_text ''spine'' (spine_line s))"
    "\<forall>p\<in>set (map snd (fb_ports b)). line_fits limits (line_text ''port'' (port_line p))"
    "\<forall>k\<in>set (map snd (fb_links b)). line_fits limits (line_text ''link'' (link_line k))"
    "\<forall>k\<in>set (map snd (fb_history_links b)). line_fits limits (line_text ''history-link'' (link_line k))"
    "\<forall>e\<in>set ?es. line_fits limits (line_text ''evidence'' (evidence_line e))"
    using fits by (simp_all add: spec_fits_def spec_text_lines_def list_all_iff)
  have total_lines: "2 + length (fb_domains b) + length (fb_leaves b) + length (fb_spines b) + length (fb_ports b)
      + length (fb_links b) + length (fb_history_links b) + length (fb_evidence b) < ?max"
    using fits by (simp add: spec_fits_def spec_text_lines_def)
  obtain c0 where c0: "parsing limits (header_state (frozen_fabric b)) c0" "rebuilt c0 (bare_builder b)"
    using header_state_parsing [OF ser lim(1)] by blast
  note s1 = stage_domain [OF inv c0(2)]
  note s2 = stage_leaf [OF inv s1(2)]
  note s3 = stage_spine [OF inv s2(2)]
  note s4 = stage_port [OF inv s3(2)]
  note s5 = stage_link [OF inv s4(2)]
  note s6 = stage_history [OF inv disj s5(2)]
  have "(bare_builder b)\<lparr>fb_domains := fb_domains b, fb_leaves := fb_leaves b, fb_spines := fb_spines b,
      fb_ports := fb_ports b, fb_links := fb_links b, fb_history_links := fb_history_links b\<rparr> = b\<lparr>fb_evidence := []\<rparr>"
    by (cases b) (simp add: bare_builder_def)
  note s7 = stage_evidence [OF inv set_std_sort [of evidence_less] length_std_sort s6(2) [unfolded this]]
  let ?T1 = "concat (map (\<lambda>r. line_text ''domain'' (domain_line r) @ [CHR 0x0A]) (map snd (fb_domains b)))"
  let ?T2 = "concat (map (\<lambda>r. line_text ''leaf'' (leaf_line r) @ [CHR 0x0A]) (map snd (fb_leaves b)))"
  let ?T3 = "concat (map (\<lambda>r. line_text ''spine'' (spine_line r) @ [CHR 0x0A]) (map snd (fb_spines b)))"
  let ?T4 = "concat (map (\<lambda>r. line_text ''port'' (port_line r) @ [CHR 0x0A]) (map snd (fb_ports b)))"
  let ?T5 = "concat (map (\<lambda>r. line_text ''link'' (link_line r) @ [CHR 0x0A]) (map snd (fb_links b)))"
  let ?T6 = "concat (map (\<lambda>r. line_text ''history-link'' (link_line r) @ [CHR 0x0A]) (map snd (fb_history_links b)))"
  let ?T7 = "concat (map (\<lambda>r. line_text ''evidence'' (evidence_line r) @ [CHR 0x0A]) (?es))"
  let ?R6 = "?T7 @ []"
  let ?R5 = "?T6 @ ?R6"
  let ?R4 = "?T5 @ ?R5"
  let ?R3 = "?T4 @ ?R4"
  let ?R2 = "?T3 @ ?R3"
  let ?R1 = "?T2 @ ?R2"
  obtain t1 where t1: "spec_lines limits (?T1 @ ?R1) (of_nat (2)) (header_state (frozen_fabric b)) = spec_lines limits ?R1 (of_nat (2 + length (map snd (fb_domains b)))) t1"
      "parsing limits t1 (snd (add_all add_failure_domain (map snd (fb_domains b)) c0))"
    using domain_lines.parse_table [OF _ c0(1) s1(1), of "2" "?R1"] names(3) all(1) total_lines by auto
  let ?c1 = "snd (add_all add_failure_domain (map snd (fb_domains b)) c0)"
  obtain t2 where t2: "spec_lines limits (?T2 @ ?R2) (of_nat (2 + length (map snd (fb_domains b)))) t1 = spec_lines limits ?R2 (of_nat (2 + length (map snd (fb_domains b)) + length (map snd (fb_leaves b)))) t2"
      "parsing limits t2 (snd (add_all add_leaf (map snd (fb_leaves b)) ?c1))"
    using leaf_lines.parse_table [OF _ t1(2) s2(1), of "2 + length (map snd (fb_domains b))" "?R2"] names(4) all(2) total_lines by auto
  let ?c2 = "snd (add_all add_leaf (map snd (fb_leaves b)) ?c1)"
  obtain t3 where t3: "spec_lines limits (?T3 @ ?R3) (of_nat (2 + length (map snd (fb_domains b)) + length (map snd (fb_leaves b)))) t2 = spec_lines limits ?R3 (of_nat (2 + length (map snd (fb_domains b)) + length (map snd (fb_leaves b)) + length (map snd (fb_spines b)))) t3"
      "parsing limits t3 (snd (add_all add_spine (map snd (fb_spines b)) ?c2))"
    using spine_lines.parse_table [OF _ t2(2) s3(1), of "2 + length (map snd (fb_domains b)) + length (map snd (fb_leaves b))" "?R3"] names(5) all(3) total_lines by auto
  let ?c3 = "snd (add_all add_spine (map snd (fb_spines b)) ?c2)"
  obtain t4 where t4: "spec_lines limits (?T4 @ ?R4) (of_nat (2 + length (map snd (fb_domains b)) + length (map snd (fb_leaves b)) + length (map snd (fb_spines b)))) t3 = spec_lines limits ?R4 (of_nat (2 + length (map snd (fb_domains b)) + length (map snd (fb_leaves b)) + length (map snd (fb_spines b)) + length (map snd (fb_ports b)))) t4"
      "parsing limits t4 (snd (add_all add_port (map snd (fb_ports b)) ?c3))"
    using port_lines.parse_table [OF _ t3(2) s4(1), of "2 + length (map snd (fb_domains b)) + length (map snd (fb_leaves b)) + length (map snd (fb_spines b))" "?R4"] all(4) total_lines by auto
  let ?c4 = "snd (add_all add_port (map snd (fb_ports b)) ?c3)"
  obtain t5 where t5: "spec_lines limits (?T5 @ ?R5) (of_nat (2 + length (map snd (fb_domains b)) + length (map snd (fb_leaves b)) + length (map snd (fb_spines b)) + length (map snd (fb_ports b)))) t4 = spec_lines limits ?R5 (of_nat (2 + length (map snd (fb_domains b)) + length (map snd (fb_leaves b)) + length (map snd (fb_spines b)) + length (map snd (fb_ports b)) + length (map snd (fb_links b)))) t5"
      "parsing limits t5 (snd (add_all add_link (map snd (fb_links b)) ?c4))"
    using link_lines.parse_table [OF _ t4(2) s5(1), of "2 + length (map snd (fb_domains b)) + length (map snd (fb_leaves b)) + length (map snd (fb_spines b)) + length (map snd (fb_ports b))" "?R5"] all(5) total_lines by auto
  let ?c5 = "snd (add_all add_link (map snd (fb_links b)) ?c4)"
  obtain t6 where t6: "spec_lines limits (?T6 @ ?R6) (of_nat (2 + length (map snd (fb_domains b)) + length (map snd (fb_leaves b)) + length (map snd (fb_spines b)) + length (map snd (fb_ports b)) + length (map snd (fb_links b)))) t5 = spec_lines limits ?R6 (of_nat (2 + length (map snd (fb_domains b)) + length (map snd (fb_leaves b)) + length (map snd (fb_spines b)) + length (map snd (fb_ports b)) + length (map snd (fb_links b)) + length (map snd (fb_history_links b)))) t6"
      "parsing limits t6 (snd (add_all add_history_link (map snd (fb_history_links b)) ?c5))"
    using history_lines.parse_table [OF _ t5(2) s6(1), of "2 + length (map snd (fb_domains b)) + length (map snd (fb_leaves b)) + length (map snd (fb_spines b)) + length (map snd (fb_ports b)) + length (map snd (fb_links b))" "?R6"] all(6) total_lines by auto
  let ?c6 = "snd (add_all add_history_link (map snd (fb_history_links b)) ?c5)"
  obtain t7 where t7: "spec_lines limits (?T7 @ []) (of_nat (2 + length (map snd (fb_domains b)) + length (map snd (fb_leaves b)) + length (map snd (fb_spines b)) + length (map snd (fb_ports b)) + length (map snd (fb_links b)) + length (map snd (fb_history_links b)))) t6 = spec_lines limits [] (of_nat (2 + length (map snd (fb_domains b)) + length (map snd (fb_leaves b)) + length (map snd (fb_spines b)) + length (map snd (fb_ports b)) + length (map snd (fb_links b)) + length (map snd (fb_history_links b)) + length (?es))) t7"
      "parsing limits t7 (snd (add_all add_evidence (?es) ?c6))"
    using evidence_lines.parse_table [OF _ t6(2) s7(1), of "2 + length (map snd (fb_domains b)) + length (map snd (fb_leaves b)) + length (map snd (fb_spines b)) + length (map snd (fb_ports b)) + length (map snd (fb_links b)) + length (map snd (fb_history_links b))" "[]"] all(7) total_lines by auto
  let ?c7 = "snd (add_all add_evidence (?es) ?c6)"
  have "concat (map (\<lambda>t. t @ [CHR 0x0A]) (drop 2 (spec_text_lines (frozen_fabric b)))) = ?T1 @ ?R1"
    by (simp add: spec_text_lines_def comp_def)
  moreover have "spec_lines limits [] (of_nat (2 + length (map snd (fb_domains b)) + length (map snd (fb_leaves b)) + length (map snd (fb_spines b)) + length (map snd (fb_ports b)) + length (map snd (fb_links b)) + length (map snd (fb_history_links b)) + length (?es))) t7 = Inr t7"
    using total_lines by (intro spec_lines_end next_line_bound) simp
  ultimately have "spec_lines limits (concat (map (\<lambda>t. t @ [CHR 0x0A]) (drop 2 (spec_text_lines (frozen_fabric b))))) 2
       (header_state (frozen_fabric b)) = Inr t7"
    using t1(1) t2(1) t3(1) t4(1) t5(1) t6(1) t7(1) by simp
  with t7(2) s7(2) show ?thesis by blast
qed

lemma spec_text_ok:
  fixes limits :: spec_limits
  assumes ser: "encodable b" and ex: "spec_expressible (frozen_fabric b)"
    and lim: "lim_max_name_bytes (fb_limits b) \<le> sl_max_name_bytes limits"
    and "t \<in> set (spec_text_lines (frozen_fabric b))"
  shows "is_valid_utf8 (t @ [CHR 0x0A])" and "CHR 0x00 \<notin> set (t @ [CHR 0x0A])"
proof -
  note names = expressible_names [OF ser ex lim]
  have okf: "\<forall>x\<in>set (fabric_line (frozen_fabric b)). field_ok x"
    using names(1,2) by (auto simp: fabric_line_def printable_name_def field_words)
  have oko: "\<forall>x\<in>set (options_line (fb_options b)). field_ok x" by (auto simp: options_line_def field_words)
  define good where "good t \<longleftrightarrow> (\<exists>d fs. is_word d \<and> (\<forall>f\<in>set fs. field_ok f) \<and> t = line_text d fs)" for t
  have mk: "good (line_text d fs)" if "is_word d" "\<And>f. f \<in> set fs \<Longrightarrow> field_ok f" for d fs
    unfolding good_def using that by blast
  have "good (line_text ''domain'' (domain_line x))" if "x \<in> set (map snd (fb_domains b))" for x
    by (rule mk [OF directive_words(1) domain_lines.fields_ok [OF bspec [OF names(3) that]]])
  moreover have "good (line_text ''leaf'' (leaf_line x))" if "x \<in> set (map snd (fb_leaves b))" for x
    by (rule mk [OF directive_words(2) leaf_lines.fields_ok [OF bspec [OF names(4) that]]])
  moreover have "good (line_text ''spine'' (spine_line x))" if "x \<in> set (map snd (fb_spines b))" for x
    by (rule mk [OF directive_words(3) spine_lines.fields_ok [OF bspec [OF names(5) that]]])
  moreover have "good (line_text ''port'' (port_line p))" "good (line_text ''link'' (link_line k))"
    "good (line_text ''history-link'' (link_line k))" "good (line_text ''evidence'' (evidence_line e))" for p k e
    using mk [OF directive_words(4) port_lines.fields_ok [OF TrueI]] mk [OF directive_words(5) link_lines.fields_ok [OF TrueI]]
      mk [OF directive_words(6) link_lines.fields_ok [OF TrueI]] mk [OF directive_words(7) evidence_lines.fields_ok [OF TrueI]]
    by simp_all
  moreover have "good (line_text ''fabric'' (fabric_line (frozen_fabric b)))"
    "good (line_text ''option'' (options_line (fb_options b)))"
    using mk [OF directive_words(8) bspec [OF okf]] mk [OF directive_words(9) bspec [OF oko]] by simp_all
  ultimately have "list_all good (spec_text_lines (frozen_fabric b))"
    by (simp add: spec_text_lines_def list_all_iff ball_Un)
  then have "good t" using assms(4) by (simp add: list_all_iff)
  then obtain d fs where line: "is_word d" "\<forall>f\<in>set fs. field_ok f" "t = line_text d fs" unfolding good_def by blast
  show "is_valid_utf8 (t @ [CHR 0x0A])"
    using line by (intro valid_utf8_append) (simp_all add: line_text_utf8 ascii_valid_utf8)
  show "CHR 0x00 \<notin> set (t @ [CHR 0x0A])" using line_text_chars [OF line(1,2), of "CHR 0x00"] line(3) by auto
qed

lemma parse_format:
  assumes ser: "encodable b" and disj: "history_disjoint b" and ex: "spec_expressible (frozen_fabric b)"
    and fits: "spec_fits limits (frozen_fabric b)"
    and lim: "sl_builder limits = fb_limits b" "lim_max_name_bytes (fb_limits b) \<le> sl_max_name_bytes limits"
  shows "fst (parse_spec (format_spec (frozen_fabric b)) limits) = Inr (frozen_fabric b)"
proof -
  let ?f = "frozen_fabric b"
  obtain st d where st: "spec_lines limits (concat (map (\<lambda>t. t @ [CHR 0x0A]) (drop 2 (spec_text_lines ?f)))) 2
       (header_state ?f) = Inr st" and d: "parsing limits st d"
      "rebuilt d (b\<lparr>fb_evidence := std_sort evidence_less (fb_evidence b)\<rparr>)"
    using parse_record_lines [OF ser disj ex fits lim] by blast
  have "format_spec ?f = line_text ''fabric'' (fabric_line ?f) @ CHR 0x0A
      # line_text ''option'' (options_line (fb_options b)) @ CHR 0x0A
      # concat (map (\<lambda>t. t @ [CHR 0x0A]) (drop 2 (spec_text_lines ?f)))"
    by (simp add: format_spec_lines spec_text_lines_def)
  with parse_header_lines [OF ser ex fits lim] st
  have lines: "spec_lines limits (format_spec ?f) 0 initial_spec_state = Inr st" by simp
  have utf8: "is_valid_utf8 (format_spec ?f)"
    unfolding format_spec_lines using spec_text_ok(1) [OF ser ex lim(2)] by (intro valid_utf8_concat) auto
  have nul: "CHR 0x00 \<notin> set (format_spec ?f)"
    unfolding format_spec_lines using spec_text_ok(2) [OF ser ex lim(2)] by auto
  have "\<not> fb_frozen b" "graph_clean b" using ser by (simp_all add: encodable_def)
  from freeze_rebuilt [OF d(2) this] have "fst (freeze d) = Inr ?f" .
  with d(1) lines utf8 nul fits show ?thesis
    by (auto simp: parse_spec_def parsing_def spec_fits_def split_def)
qed

section \<open>Whatever is parsed is well formed\<close>

definition spec_sound :: "spec_limits \<Rightarrow> spec_state \<Rightarrow> bool" where
  "spec_sound limits st \<longleftrightarrow> (\<forall>b. ss_builder st = Some b \<longrightarrow> builder_reachable b \<and> fb_limits b = sl_builder limits)"

lemma add_limits:
  "fb_limits (snd (add_failure_domain d b)) = fb_limits b" "fb_limits (snd (add_leaf l b)) = fb_limits b"
  "fb_limits (snd (add_spine s b)) = fb_limits b" "fb_limits (snd (add_port p b)) = fb_limits b"
  "fb_limits (snd (add_link k b)) = fb_limits b" "fb_limits (snd (add_history_link k b)) = fb_limits b"
  "fb_limits (snd (add_evidence e b)) = fb_limits b"
  using builder_core_fields(8) [OF domains.add_core [of d b]] builder_core_fields(8) [OF leaves.add_core [of l b]]
    builder_core_fields(8) [OF spines.add_core [of s b]] builder_core_fields(8) [OF ports.add_core [of p b]]
    builder_core_fields(8) [OF links.add_core [of k b]] builder_core_fields(8) [OF history.add_core [of k b]]
    builder_core_fields(8) [OF evidence.add_core [of e b]]
  by (simp_all add: put_domain_def put_leaf_def put_spine_def put_port_def put_link_def put_history_def put_evidence_def)

lemma ensure_builder_sound: "spec_sound limits st \<Longrightarrow> spec_sound limits (snd (ensure_builder limits st))"
proof -
  have lim: "fb_limits (new_builder i n g e v lims) = lims" for i n g e v lims
    using arg_cong [OF core_new_builder, of fb_limits] by (simp add: builder_core_def)
  have site: "fb_limits (snd (set_site t b)) = fb_limits b" for t b
    by (auto simp: set_site_def note_issue_def split: name_verdict.splits)
  have state: "fb_limits (snd (set_state fs b)) = fb_limits b" for fs b by (simp add: set_state_def)
  assume "spec_sound limits st"
  then show ?thesis
    by (auto simp: ensure_builder_def spec_sound_def Let_def split_def lim site state
        intro: builder_reachable.construct builder_reachable.site builder_reachable.state)
qed

lemma add_directive_sound:
  assumes "\<And>r b. builder_reachable b \<Longrightarrow> builder_reachable (snd (add r b))"
    and "\<And>r b. fb_limits (snd (add r b)) = fb_limits b"
    and "spec_sound limits st" and "add_directive limits starts a allowed parse add st = Inr st'"
  shows "spec_sound limits st'"
  using assms(4) ensure_builder_sound [OF assms(3)] assms(1,2)
  by (auto simp: add_directive_def spec_sound_def Let_def split: prod.splits if_splits sum.splits option.splits)
    (metis snd_conv)+

lemma spec_directive_sound:
  assumes "spec_sound limits st" and "spec_directive limits d a st = Inr st'"
  shows "spec_sound limits st'"
proof -
  have fab: "ss_builder st' = ss_builder st" if "spec_fabric limits a st = Inr st'"
    using that by (auto simp: spec_fabric_def Let_def split: if_splits sum.splits option.splits)
  have opt: "ss_builder st' = ss_builder st" if "spec_option a st = Inr st'"
    using that by (auto simp: spec_option_def Let_def split: if_splits sum.splits option.splits)
  show ?thesis
    using assms(2) fab opt assms(1)
      add_directive_sound [OF builder_reachable.domain add_limits(1) assms(1)]
      add_directive_sound [OF builder_reachable.leaf add_limits(2) assms(1)]
      add_directive_sound [OF builder_reachable.spine add_limits(3) assms(1)]
      add_directive_sound [OF builder_reachable.port add_limits(4) assms(1)]
      add_directive_sound [OF builder_reachable.link add_limits(5) assms(1)]
      add_directive_sound [OF builder_reachable.history add_limits(6) assms(1)]
      add_directive_sound [OF builder_reachable.evidence add_limits(7) assms(1)]
    unfolding spec_directive_def by (simp add: spec_sound_def split: if_splits)
qed

lemma spec_lines_sound:
  "spec_sound limits st \<Longrightarrow> spec_lines limits t n st = Inr st' \<Longrightarrow> spec_sound limits st'"
proof (induction limits t n st rule: spec_lines.induct)
  case (1 limits t n st)
  let ?line = "strip_cr (takeWhile (\<lambda>c. c \<noteq> CHR 0x0A) t)" and ?more = "dropWhile (\<lambda>c. c \<noteq> CHR 0x0A) t"
  obtain st1 where st1: "spec_line limits ?line (n + 1) st = Inr st1"
    and rest: "if ?more = [] then st1 = st' else spec_lines limits (tl ?more) (n + 1) st1 = Inr st'"
    using "1.prems"(2) by (subst (asm) spec_lines.simps) (auto simp: Let_def split: sum.splits if_splits)
  have "st1 = st \<or> (\<exists>d a. spec_directive limits d a st = Inr st1)"
    using st1 by (auto simp: spec_line_def Let_def split: if_splits prod.splits list.splits)
  then have "spec_sound limits st1" using "1.prems"(1) spec_directive_sound by blast
  with rest "1.IH" [OF refl refl st1] show ?case by (auto split: if_splits)
qed

lemma parse_spec_wf:
  assumes "parse_spec t limits = (Inr f, Some rep)" and "length (rep_issues rep) < 2 ^ 32"
  shows "fabric_wf (sl_builder limits) f"
proof -
  obtain st b b' where st: "spec_lines limits t 0 initial_spec_state = Inr st"
    and b: "ss_builder (snd (ensure_builder limits st)) = Some b" and fr: "freeze b = (Inr f, b')" "rep = fb_report b'"
    using assms(1) by (auto simp: parse_spec_def split: if_splits sum.splits prod.splits option.splits)
  have "spec_sound limits initial_spec_state" by (simp add: spec_sound_def initial_spec_state_def)
  from ensure_builder_sound [OF spec_lines_sound [OF this st]] b
  have "builder_reachable b" "fb_limits b = sl_builder limits" by (auto simp: spec_sound_def)
  with freeze_fabric_wf [OF _ fr(1)] fr(2) assms(2) show ?thesis by simp
qed

section \<open>A comment sign inside a quoted name\<close>

lemma escape_prefix_unterminated:
  "scan_quoted v (concat (map escape_char t)) = Inl (Status SC_Invalid ''unterminated quoted value'')"
  by (induction t arbitrary: v) (auto simp: escape_char_def quote_char_def backslash_def)

lemma cut_escaped: "takeWhile (\<lambda>c. c \<noteq> CHR ''#'') (concat (map escape_char t) @ rest)
    = (if CHR ''#'' \<in> set t then concat (map escape_char (takeWhile (\<lambda>c. c \<noteq> CHR ''#'') t))
       else concat (map escape_char t) @ takeWhile (\<lambda>c. c \<noteq> CHR ''#'') rest)"
proof (induction t)
  case (Cons c t)
  have "takeWhile (\<lambda>c. c \<noteq> CHR ''#'') (escape_char c @ r)
      = (if c = CHR ''#'' then [] else escape_char c @ takeWhile (\<lambda>c. c \<noteq> CHR ''#'') r)" for r
    by (simp add: escape_char_def quote_char_def backslash_def)
  with Cons show ?case by simp
qed simp

lemma token_loop_unterminated:
  assumes "key_word k"
  shows "token_loop out (CHR '' '' # k @ CHR ''='' # quote_char # concat (map escape_char t))
    = (Status SC_Invalid ''unterminated quoted value'', out)"
  using assms takeWhile_key [OF assms, of "quote_char # concat (map escape_char t)"]
    key_starts [OF assms, of "CHR ''='' # quote_char # concat (map escape_char t)"]
    escape_prefix_unterminated [of "[]" t]
  by (simp add: Let_def token_loop.simps [of out "CHR '' '' # k @ CHR ''='' # quote_char # concat (map escape_char t)"])
    (auto simp: is_word_def key_word_def)

lemma fabric_line_cut:
  assumes "CHR ''#'' \<in> set (fab_name f)"
  shows "takeWhile (\<lambda>c. c \<noteq> CHR ''#'') (line_text ''fabric'' (fabric_line f))
    = ''fabric'' @ field_text (Plain ''id'' (u_string (fab_id f))) @ CHR '' '' # ''name'' @ CHR ''='' # quote_char
      # concat (map escape_char (takeWhile (\<lambda>c. c \<noteq> CHR ''#'') (fab_name f)))"
proof -
  have id: "takeWhile (\<lambda>c. c \<noteq> CHR ''#'') (u_string (fab_id f) @ r) = u_string (fab_id f) @ takeWhile (\<lambda>c. c \<noteq> CHR ''#'') r" for r
    using word_text_chars [OF u_string_word [of "fab_id f"]] by (auto simp: takeWhile_append)
  show ?thesis using assms
    by (simp add: line_text_def fabric_line_def quote_value_def id cut_escaped quote_char_def)
qed

lemma hash_line_refused:
  assumes "CHR ''#'' \<in> set (fab_name f)"
  shows "\<not> outcome_ok (spec_line limits (line_text ''fabric'' (fabric_line f)) n st)"
proof -
  let ?cut = "concat (map escape_char (takeWhile (\<lambda>c. c \<noteq> CHR ''#'') (fab_name f)))"
  let ?tail = "CHR '' '' # ''name'' @ CHR ''='' # quote_char # ?cut"
  let ?id = "Plain ''id'' (u_string (fab_id f))"
  have rest: "field_text ?id @ ?tail = [] \<or> is_space (hd (field_text ?id @ ?tail))" by (simp add: is_space_def)
  have ok: "field_ok ?id" and name: "key_word ''name''" by (simp_all add: field_words)
  have tail: "?tail = [] \<or> is_space (hd ?tail)" by (simp add: is_space_def)
  have "tokenize_line (''fabric'' @ field_text ?id @ ?tail)
      = (Status SC_Invalid ''unterminated quoted value'',
         [\<lparr>tk_key = ''fabric'', tk_value = [], tk_quoted = False\<rparr>, field_token ?id])"
    using takeWhile_word [OF directive_words(8) rest] token_loop_append [OF ok tail]
      token_loop_unterminated [OF name, of _ "takeWhile (\<lambda>c. c \<noteq> CHR ''#'') (fab_name f)"]
    by (simp add: tokenize_line_def Let_def is_space_def [of "CHR ''f''"])
  then show ?thesis unfolding spec_line_def fabric_line_cut [OF assms] by simp
qed

lemma hash_unparseable:
  assumes "CHR ''#'' \<in> set (fab_name f)"
  shows "\<not> outcome_ok (fst (parse_spec (format_spec f) limits))"
proof -
  let ?line = "line_text ''fabric'' (fabric_line f)"
  obtain rest where text_eq: "format_spec f = ?line @ CHR 0x0A # rest"
    by (simp add: format_spec_lines spec_text_lines_def)
  define unbroken where "unbroken t \<longleftrightarrow> (\<forall>c\<in>set t. c \<noteq> CHR 0x0A \<and> c \<noteq> CHR 0x0D)" for t
  have word: "unbroken t" if "is_word t" for t using word_text_chars [OF that] by (auto simp: unbroken_def)
  have quoted_ok: "unbroken (field_text (Quoted k v))" if "key_word k" for k v
    using word [of k] that escape_chars
    by (auto simp: unbroken_def key_word_def quote_value_def quote_char_def)
  have plain_ok: "unbroken (field_text (Plain k v))" if "key_word k" "is_word v" for k v
    using word [of k] word [of v] that by (auto simp: unbroken_def key_word_def)
  have "\<forall>x\<in>set (fabric_line f). unbroken (field_text x)"
    by (simp add: fabric_line_def quoted_ok plain_ok field_words del: field_text.simps)
  with word [OF directive_words(8)] have "\<forall>c\<in>set ?line. c \<noteq> CHR 0x0A \<and> c \<noteq> CHR 0x0D"
    by (auto simp: line_text_def unbroken_def)
  from spec_lines_step [OF this] hash_line_refused [OF assms]
  have "\<not> outcome_ok (spec_lines limits (format_spec f) 0 initial_spec_state)"
    unfolding text_eq by (auto simp: outcome_ok_iff split: sum.splits)
  then show ?thesis by (auto simp: parse_spec_def outcome_ok_iff split: sum.splits)
qed

section \<open>Properties\<close>


definition sample_spec_limits :: spec_limits where
  "sample_spec_limits = \<lparr>sl_max_file_bytes = 4096, sl_max_line_bytes = 256, sl_max_lines = 100,
     sl_max_name_bytes = 32, sl_builder = sample_limits\<rparr>"

lemma sample_spec_fits: "spec_fits sample_spec_limits (frozen_fabric sample_builder)"
  by (simp add: spec_fits_def format_spec_lines spec_text_lines_def sample_builder_eval sample_spec_limits_def
        line_fits_def line_text_def sample_domain_def sample_leaf_def sample_spine_def sample_port_def sample_link_def
        sample_evidence_def std_sort_Cons line_defs fabric_line_def options_line_def default_fabric_options_def
        u_string_def dec_string.simps quote_value_def escape_char_def quote_char_def backslash_def
        incarnation_string_def node_key_string_def leaf_id_string_def spine_id_string_def
        bool_text_def)


text \<open>
  C9. Whatever input \<open>parse_spec\<close> is given, the fabric it returns is well formed under the limits it was
  given: the parser cannot bypass a check of the builder.
\<close>

theorem parsed_fabric_wf:
  assumes "parse_spec t limits = (Inr f, Some rep)" and "length (rep_issues rep) < 2 ^ 32"
  shows "fabric_wf (sl_builder limits) f"
  using assms by (rule parse_spec_wf)

definition sample_text :: string where
  "sample_text = ''fabric id=7 name=dc1''"

definition sample_text_state :: spec_state where
  "sample_text_state = initial_spec_state\<lparr>ss_generation := 1, ss_id := 7, ss_name := ''dc1'', ss_epoch := 1,
     ss_have_fabric := True\<rparr>"

definition sample_text_builder :: fabric_builder where
  "sample_text_builder = \<lparr>fb_id = 7, fb_name = ''dc1'', fb_site = [], fb_fabric_state = FS_Operational,
     fb_generation = 1, fb_epoch = 1, fb_options = default_fabric_options, fb_limits = sample_limits,
     fb_domains = [], fb_leaves = [], fb_spines = [], fb_ports = [], fb_links = [], fb_history_links = [],
     fb_evidence = [], fb_report = empty_report, fb_frozen = False\<rparr>"

lemma sample_text_parses:
  "spec_lines sample_spec_limits sample_text 0 initial_spec_state = Inr sample_text_state"
  "ensure_builder sample_spec_limits sample_text_state
     = (status_success, sample_text_state\<lparr>ss_builder := Some sample_text_builder\<rparr>)"
  "rep_issues (fb_report (snd (finish_report (validated sample_text_builder)))) = []"
  "status_ok (fst (finish_report (validated sample_text_builder)))" "is_valid_utf8 sample_text"
  by code_simp+

lemma sample_text_parsed:
  "parse_spec sample_text sample_spec_limits
     = (Inr (with_digests (undigested_fabric sample_text_builder)),
        Some (fb_report (snd (finish_report (validated sample_text_builder)))))"
proof -
  have "\<not> fb_frozen sample_text_builder" by (simp add: sample_text_builder_def)
  then have "freeze sample_text_builder = (Inr (with_digests (undigested_fabric sample_text_builder)),
      snd (finish_report (validated sample_text_builder)))"
    using sample_text_parses(4) by (simp add: freeze_unfold)
  moreover have "\<not> length sample_text > unat (sl_max_file_bytes sample_spec_limits)" "CHR 0x00 \<notin> set sample_text"
    by (simp_all add: sample_text_def sample_spec_limits_def)
  ultimately show ?thesis using sample_text_parses(1,2,5) by (simp add: parse_spec_def)
qed

theorem parsed_fabric_wf_witness: "fabric_wf sample_limits (with_digests (undigested_fabric sample_text_builder))"
  using parsed_fabric_wf [OF sample_text_parsed] sample_text_parses(3) by (simp add: sample_spec_limits_def)

text \<open>
  C10. The comment sign is cut from a line before quotes are read, so a fabric whose name holds one is
  printed to a text that \<open>parse_spec\<close> always refuses.
\<close>

theorem hash_in_name_unparseable:
  assumes "CHR ''#'' \<in> set (fab_name f)"
  shows "\<not> outcome_ok (fst (parse_spec (format_spec f) limits))"
  using assms by (rule hash_unparseable)

definition hash_builder :: fabric_builder where
  "hash_builder = new_builder 7 ''dc#1'' 1 1 default_fabric_options sample_limits"

theorem hash_in_name_unparseable_witness:
  "\<not> outcome_ok (fst (parse_spec (format_spec (frozen_fabric hash_builder)) default_spec_limits))"
  by (rule hash_in_name_unparseable)
    (simp add: hash_builder_def arg_cong [OF core_new_builder, of fb_name, unfolded builder_core_def, simplified])

end
