(* ===== verification/SLF_Transport.thy ===== *)
theory SLF_Transport
  imports SLF_Journal
begin

text \<open>
  The framed transport (\<open>include/slf/transport.hpp\<close>, \<open>src/transport.cpp\<close>): endpoints, the 64 byte
  frame header with its digest, and a connection's bounded reads and writes. What the network does is
  part of a connection: the events its \<open>recv\<close> calls meet, in order, and the answers to its \<open>send\<close>
  calls. A call that blocks for ever, which needs a silent peer and no receive deadline, is \<open>None\<close>.
  The calls into the socket library that open a connection are arguments; of the two platforms the
  POSIX branches are modelled.
\<close>

section \<open>Frames\<close>

definition kProtocolVersion :: u16 where
  "kProtocolVersion = 1"

definition kMagic :: u32 where
  "kMagic = 0x534C4646"

definition kFrameHeaderBytes :: nat where
  "kFrameHeaderBytes = 64"

definition kDigestBytes :: nat where
  "kDigestBytes = 32"

definition kFlagReply :: u32 where
  "kFlagReply = 1"

record frame_header =
  fh_magic :: u32
  fh_version :: u16
  fh_type :: u16
  fh_flags :: u32
  fh_payload_len :: u32
  fh_request_id :: u64
  fh_reserved :: u64

definition default_frame_header :: frame_header where
  "default_frame_header = \<lparr>fh_magic = kMagic, fh_version = kProtocolVersion, fh_type = 0, fh_flags = 0,
     fh_payload_len = 0, fh_request_id = 0, fh_reserved = 0\<rparr>"

record transport_limits =
  tl_max_frame_payload :: u32
  tl_max_connections :: u32
  tl_max_in_flight :: u32
  tl_io_timeout_ms :: u64
  tl_max_retries :: u32
  tl_max_frames_per_connection :: u32

definition default_transport_limits :: transport_limits where
  "default_transport_limits = \<lparr>tl_max_frame_payload = 4 * 1024 * 1024, tl_max_connections = 32,
     tl_max_in_flight = 64, tl_io_timeout_ms = 5000, tl_max_retries = 2, tl_max_frames_per_connection = 100000\<rparr>"

definition frame_header_bytes :: "frame_header \<Rightarrow> bytes" where
  "frame_header_bytes h =
     copy_at 0 (bw_buffer (puts [bw_u32 (fh_magic h), bw_u16 (fh_version h), bw_u16 (fh_type h),
         bw_u32 (fh_flags h), bw_u32 (fh_payload_len h), bw_u64 (fh_request_id h), bw_u64 (fh_reserved h)]
         (new_writer kDefaultMaxBytes)))
       (replicate kFrameHeaderBytes 0)"

definition encode_frame :: "frame_header \<Rightarrow> bytes \<Rightarrow> transport_limits \<Rightarrow> bytes outcome" where
  "encode_frame header payload limits =
     (if length payload > unat (tl_max_frame_payload limits)
      then Inl (Status SC_Exhausted ''frame payload exceeds the configured bound'')
      else let local = header\<lparr>fh_magic := kMagic, fh_payload_len := of_nat (length payload)\<rparr>;
               bs = frame_header_bytes local;
               sha = sha_update payload (sha_update (take (kFrameHeaderBytes - kDigestBytes) bs) sha256_reset);
               bs = copy_at (kFrameHeaderBytes - kDigestBytes) (sha_finish sha) bs
           in Inr (bs @ payload))"

definition decode_frame_header :: "bytes \<Rightarrow> transport_limits \<Rightarrow> frame_header outcome" where
  "decode_frame_header header_bytes limits =
     (if length header_bytes \<noteq> kFrameHeaderBytes
      then Inl (Status SC_Invalid ''frame header must be exactly 64 bytes'')
      else case br_u32 (new_reader header_bytes kDefaultMaxString) of (magic, r1) \<Rightarrow>
           case br_u16 r1 of (version, r2) \<Rightarrow> case br_u16 r2 of (type, r3) \<Rightarrow>
           case br_u32 r3 of (flags, r4) \<Rightarrow> case br_u32 r4 of (payload_len, r5) \<Rightarrow>
           case br_u64 r5 of (request_id, r6) \<Rightarrow> case br_u64 r6 of (reserved, r7) \<Rightarrow>
           if \<not> outcome_ok magic \<or> \<not> outcome_ok version \<or> \<not> outcome_ok type \<or> \<not> outcome_ok flags
              \<or> \<not> outcome_ok payload_len \<or> \<not> outcome_ok request_id \<or> \<not> outcome_ok reserved
           then Inl (Status SC_Truncated ''frame header is incomplete'')
           else if projr magic \<noteq> kMagic then Inl (Status SC_Corrupt ''frame magic does not match'')
           else if projr version \<noteq> kProtocolVersion
           then Inl (Status SC_IncompatibleVersion
                  (''frame protocol version '' @ u_string (projr version) @ '' is not supported''))
           else if projr payload_len > tl_max_frame_payload limits
           then Inl (Status SC_Exhausted ''frame declares a payload larger than the configured bound'')
           else Inr \<lparr>fh_magic = projr magic, fh_version = projr version, fh_type = projr type,
                     fh_flags = projr flags, fh_payload_len = projr payload_len,
                     fh_request_id = projr request_id, fh_reserved = projr reserved\<rparr>)"

definition verify_frame :: "bytes \<Rightarrow> bytes \<Rightarrow> status" where
  "verify_frame header_bytes payload =
     (if length header_bytes \<noteq> kFrameHeaderBytes
      then Status SC_Invalid ''frame header must be exactly 64 bytes''
      else let stored = drop (kFrameHeaderBytes - kDigestBytes) header_bytes;
               sha = sha_update payload
                       (sha_update (take (kFrameHeaderBytes - kDigestBytes) header_bytes) sha256_reset)
           in if sha_finish sha \<noteq> stored
              then Status SC_IntegrityError ''frame digest does not match its contents''
              else status_success)"

section \<open>Endpoints\<close>

record endpoint =
  ep_host :: string
  ep_port :: u16

definition default_endpoint :: endpoint where
  "default_endpoint = \<lparr>ep_host = ''127.0.0.1'', ep_port = 0\<rparr>"

definition endpoint_string :: "endpoint \<Rightarrow> string" where
  "endpoint_string e = ep_host e @ '':'' @ u_string (ep_port e)"

text \<open>\<open>std::string_view::rfind\<close> of one character.\<close>

definition rfind :: "char \<Rightarrow> string \<Rightarrow> nat option" where
  "rfind c t = (if c \<notin> set t then None else Some (length t - 1 - length (takeWhile ((\<noteq>) c) (rev t))))"

definition parse_endpoint :: "string \<Rightarrow> endpoint outcome" where
  "parse_endpoint t =
     (case rfind CHR '':'' t of
        None \<Rightarrow> Inl (Status SC_Invalid ''endpoint must be host:port'')
      | Some colon \<Rightarrow>
          if colon = 0 \<or> colon + 1 \<ge> length t then Inl (Status SC_Invalid ''endpoint must be host:port'')
          else let host = take colon t in
            (case parse_u32 (drop (colon + 1) t) of
               None \<Rightarrow> Inl (Status SC_Invalid ''endpoint port must be in 1..65535'')
             | Some port \<Rightarrow>
                 if port = 0 \<or> port > 65535 then Inl (Status SC_Invalid ''endpoint port must be in 1..65535'')
                 else if \<not> is_valid_utf8 host \<or> length host > 255
                 then Inl (Status SC_Invalid ''endpoint host is not valid'')
                 else Inr \<lparr>ep_host = host, ep_port = ucast port\<rparr>))"

section \<open>Connections\<close>

text \<open>
  What a \<open>recv\<close> call can meet: bytes of the peer (delivered in as many calls as the caller's buffer
  needs), the peer's orderly close, or a failing call with whether \<open>errno\<close> names a timeout and the
  text of \<open>strerror\<close>. After the last event the peer is silent.
\<close>

datatype net_event = Arrives bytes | PeerCloses | RecvFails bool string

text \<open>
  The answer to a \<open>send\<close> call: at most \<open>n + 1\<close> bytes are taken, or the call does not return a
  positive count. After the last answer every call takes all it is offered.
\<close>

datatype send_answer = SendAccepts nat | SendFails bool string

record connection =
  cn_socket :: "int"
  cn_rx :: "net_event list"
  cn_sends :: "send_answer list"
  cn_tx :: bytes
  cn_deadline :: u64

definition kInvalidSocket :: int where
  "kInvalidSocket = -1"

definition cn_valid :: "connection \<Rightarrow> bool" where
  "cn_valid c = (cn_socket c \<noteq> kInvalidSocket)"

definition socket_error :: "bool \<Rightarrow> string \<Rightarrow> string \<Rightarrow> status" where
  "socket_error timed_out strerror what =
     (if timed_out then Status SC_DeadlineExpired (what @ '' exceeded the configured deadline'')
      else Status SC_IoError (what @ '' failed: '' @ strerror))"

text \<open>
  \<open>recv\<close> with a buffer of \<open>n\<close> bytes and a receive deadline \<open>d\<close> (0 for none): the bytes received,
  none for an orderly close, or the failure.
\<close>

fun net_recv :: "nat \<Rightarrow> u64 \<Rightarrow> net_event list \<Rightarrow> (((bool \<times> string) + bytes) \<times> net_event list) option" where
  "net_recv n d [] = (if d = 0 then None else Some (Inl (True, []), []))"
| "net_recv n d (Arrives bs # es) =
     (if bs = [] then net_recv n d es else Some (Inr (take n bs), Arrives (drop n bs) # es))"
| "net_recv n d (PeerCloses # es) = Some (Inr [], PeerCloses # es)"
| "net_recv n d (RecvFails timed_out strerror # es) = Some (Inl (timed_out, strerror), es)"

fun net_send :: "bytes \<Rightarrow> send_answer list \<Rightarrow> ((bool \<times> string) + nat) \<times> send_answer list" where
  "net_send bs [] = (Inr (length bs), [])"
| "net_send bs (SendAccepts n # as) = (Inr (min (Suc n) (length bs)), as)"
| "net_send bs (SendFails timed_out strerror # as) = (Inl (timed_out, strerror), as)"

lemma net_send_bounds: "net_send bs as = (Inr n, as') \<Longrightarrow> bs \<noteq> [] \<Longrightarrow> 0 < n \<and> n \<le> length bs"
  by (cases "(bs, as)" rule: net_send.cases) auto

definition chunk_size :: "nat \<Rightarrow> nat" where
  "chunk_size remaining = (if remaining > 2 ^ 20 then 2 ^ 20 else remaining)"

text \<open>The loop of \<open>read_all\<close>; \<open>got\<close> is the filled part of the caller's span of \<open>n\<close> bytes.\<close>

function read_loop :: "nat \<Rightarrow> bytes \<Rightarrow> connection \<Rightarrow> (status \<times> bytes \<times> connection) option" where
  "read_loop n got c =
     (if length got < n
      then (case net_recv (chunk_size (n - length got)) (cn_deadline c) (cn_rx c) of
              None \<Rightarrow> None
            | Some (Inl (timed_out, strerror), es) \<Rightarrow>
                Some (socket_error timed_out strerror ''recv'', got, c\<lparr>cn_rx := es\<rparr>)
            | Some (Inr bs, es) \<Rightarrow>
                if bs = []
                then Some (Status SC_Truncated ''peer closed the connection mid-frame'', got, c\<lparr>cn_rx := es\<rparr>)
                else read_loop n (got @ bs) (c\<lparr>cn_rx := es\<rparr>))
      else Some (status_success, got, c))"
  by pat_completeness auto
termination
  by (relation "measure (\<lambda>(n, got, c). n - length got)") (auto simp: length_greater_0_conv [symmetric] simp del: length_greater_0_conv)

declare read_loop.simps [simp del]

definition read_all :: "nat \<Rightarrow> connection \<Rightarrow> (status \<times> bytes \<times> connection) option" where
  "read_all n c = (if \<not> cn_valid c then Some (Status SC_Closed ''connection is closed'', [], c) else read_loop n [] c)"

text \<open>The loop of \<open>write_all\<close> over the bytes not yet sent.\<close>

function write_loop :: "bytes \<Rightarrow> connection \<Rightarrow> status \<times> connection" where
  "write_loop rest c =
     (if rest = [] then (status_success, c)
      else (case net_send (take (chunk_size (length rest)) rest) (cn_sends c) of
              (Inl (timed_out, strerror), as) \<Rightarrow> (socket_error timed_out strerror ''send'', c\<lparr>cn_sends := as\<rparr>)
            | (Inr n, as) \<Rightarrow> write_loop (drop n rest) (c\<lparr>cn_sends := as, cn_tx := cn_tx c @ take n rest\<rparr>)))"
  by pat_completeness auto
termination
proof (relation "measure (\<lambda>(rest, c). length rest)")
  fix rest c r as n
  assume "rest \<noteq> []" and "(r, as) = net_send (take (chunk_size (length rest)) rest) (cn_sends c)" and "r = Inr n"
  then have "0 < n" using net_send_bounds [of "take (chunk_size (length rest)) rest" "cn_sends c" n as]
    by (simp add: chunk_size_def)
  with \<open>rest \<noteq> []\<close>
  show "((drop n rest, c\<lparr>cn_sends := as, cn_tx := cn_tx c @ take n rest\<rparr>), rest, c) \<in> measure (\<lambda>(rest, c). length rest)"
    by simp
qed simp

declare write_loop.simps [simp del]

definition conn_write_all :: "bytes \<Rightarrow> connection \<Rightarrow> status \<times> connection" where
  "conn_write_all data c =
     (if \<not> cn_valid c then (Status SC_Closed ''connection is closed'', c) else write_loop data c)"

definition write_frame :: "frame_header \<Rightarrow> bytes \<Rightarrow> transport_limits \<Rightarrow> connection \<Rightarrow> status \<times> connection" where
  "write_frame header payload limits c =
     (case encode_frame header payload limits of
        Inl s \<Rightarrow> (s, c)
      | Inr encoded \<Rightarrow> conn_write_all encoded c)"

text \<open>
  \<open>read_frame\<close>: the result is the outcome and, on success, the header stored through \<open>header_out\<close>.
\<close>

definition read_frame ::
    "transport_limits \<Rightarrow> connection \<Rightarrow> ((bytes \<times> frame_header) outcome \<times> connection) option" where
  "read_frame limits c =
     (case read_all kFrameHeaderBytes c of
        None \<Rightarrow> None
      | Some (status, header_bytes, c1) \<Rightarrow>
          if \<not> status_ok status then Some (Inl status, c1)
          else (case decode_frame_header header_bytes limits of
                  Inl s \<Rightarrow> Some (Inl s, c1)
                | Inr header \<Rightarrow>
                    (case (if fh_payload_len header = 0 then Some (status_success, [], c1)
                           else read_all (unat (fh_payload_len header)) c1) of
                       None \<Rightarrow> None
                     | Some (status, payload, c2) \<Rightarrow>
                         if \<not> status_ok status then Some (Inl status, c2)
                         else let verified = verify_frame header_bytes payload in
                              if \<not> status_ok verified then Some (Inl verified, c2)
                              else Some (Inr (payload, header), c2))))"

definition conn_close :: "connection \<Rightarrow> connection" where
  "conn_close c = (if cn_valid c then c\<lparr>cn_socket := kInvalidSocket\<rparr> else c)"

text \<open>
  \<open>setsockopt\<close> answers for the two deadlines: \<open>None\<close> on success, else the failure.
\<close>

type_synonym sock_answer = "(bool \<times> string) option"

definition set_timeouts :: "sock_answer \<Rightarrow> sock_answer \<Rightarrow> u64 \<Rightarrow> connection \<Rightarrow> status \<times> connection" where
  "set_timeouts rcv snd_ans timeout_ms c =
     (if timeout_ms = 0 then (status_success, c)
      else case rcv of
        Some (timed_out, strerror) \<Rightarrow> (socket_error timed_out strerror ''setsockopt(SO_RCVTIMEO)'', c)
      | None \<Rightarrow>
          (case snd_ans of
             Some (timed_out, strerror) \<Rightarrow>
               (socket_error timed_out strerror ''setsockopt(SO_SNDTIMEO)'', c\<lparr>cn_deadline := timeout_ms\<rparr>)
           | None \<Rightarrow> (status_success, c\<lparr>cn_deadline := timeout_ms\<rparr>)))"

definition set_deadlines :: "sock_answer \<Rightarrow> sock_answer \<Rightarrow> u64 \<Rightarrow> connection \<Rightarrow> status \<times> connection" where
  "set_deadlines rcv snd_ans timeout_ms c =
     (if \<not> cn_valid c then (Status SC_Closed ''connection is closed'', c) else set_timeouts rcv snd_ans timeout_ms c)"

section \<open>Opening connections\<close>

text \<open>
  The answers of the socket library while a connection or a listener is opened: \<open>inet_pton\<close> and the
  calls on the address it gives are functions. \<open>fst\<close> of a result is the outcome, \<open>snd\<close> the sockets
  that \<open>close_socket\<close> was called on.
\<close>

record socket_os =
  so_ensure :: status
  so_socket :: "(bool \<times> string) + int"
  so_inet_pton :: "string \<Rightarrow> u32 option"
  so_connect :: "u32 \<Rightarrow> u16 \<Rightarrow> sock_answer"
  so_bind :: "u32 \<Rightarrow> u16 \<Rightarrow> sock_answer"
  so_listen :: sock_answer
  so_getsockname :: "(bool \<times> string) + u16"
  so_rcvtimeo :: sock_answer
  so_sndtimeo :: sock_answer
  so_rx :: "net_event list"
  so_sends :: "send_answer list"

definition kLoopback :: u32 where
  "kLoopback = 0x7F000001"

definition endpoint_address :: "socket_os \<Rightarrow> endpoint \<Rightarrow> u32 option" where
  "endpoint_address os e =
     (if ep_host e = [] \<or> ep_host e = ''localhost'' then Some kLoopback else so_inet_pton os (ep_host e))"

definition error_of :: "string \<Rightarrow> bool \<times> string \<Rightarrow> status" where
  "error_of what f = socket_error (fst f) (snd f) what"

definition new_connection :: "socket_os \<Rightarrow> int \<Rightarrow> connection" where
  "new_connection os s = \<lparr>cn_socket = s, cn_rx = so_rx os, cn_sends = so_sends os, cn_tx = [], cn_deadline = 0\<rparr>"

definition conn_connect :: "endpoint \<Rightarrow> transport_limits \<Rightarrow> socket_os \<Rightarrow> connection outcome \<times> int list" where
  "conn_connect e limits os =
     (if \<not> status_ok (so_ensure os) then (Inl (so_ensure os), [])
      else case so_socket os of
        Inl f \<Rightarrow> (Inl (error_of ''socket'' f), [])
      | Inr s \<Rightarrow>
          (case endpoint_address os e of
             None \<Rightarrow> (Inl (Status SC_Invalid ''client host must be an IPv4 literal or localhost''), [s])
           | Some address \<Rightarrow>
               (case so_connect os address (ep_port e) of
                  Some f \<Rightarrow> (Inl (error_of ''connect'' f), [s])
                | None \<Rightarrow>
                    (case set_deadlines (so_rcvtimeo os) (so_sndtimeo os) (tl_io_timeout_ms limits) (new_connection os s) of
                       (deadlines, c) \<Rightarrow> if \<not> status_ok deadlines then (Inl deadlines, [s]) else (Inr c, [])))))"

record tcp_listener =
  ls_socket :: int
  ls_port :: u16

definition listener_bind :: "endpoint \<Rightarrow> socket_os \<Rightarrow> tcp_listener outcome \<times> int list" where
  "listener_bind e os =
     (if \<not> status_ok (so_ensure os) then (Inl (so_ensure os), [])
      else case so_socket os of
        Inl f \<Rightarrow> (Inl (error_of ''socket'' f), [])
      | Inr s \<Rightarrow>
          (case endpoint_address os e of
             None \<Rightarrow> (Inl (Status SC_Invalid ''listener host must be an IPv4 literal or localhost''), [s])
           | Some address \<Rightarrow>
               (case so_bind os address (ep_port e) of
                  Some f \<Rightarrow> (Inl (error_of ''bind'' f), [s])
                | None \<Rightarrow>
                    (case so_listen os of
                       Some f \<Rightarrow> (Inl (error_of ''listen'' f), [s])
                     | None \<Rightarrow>
                         (case so_getsockname os of
                            Inl f \<Rightarrow> (Inl (error_of ''getsockname'' f), [s])
                          | Inr port \<Rightarrow> (Inr \<lparr>ls_socket = s, ls_port = port\<rparr>, []))))))"

text \<open>
  \<open>accept\<close>: the answer of \<open>select\<close> (whether it failed, or the number of ready sockets; with
  \<open>timeout_ms = 0\<close> it has no deadline) and the answer of \<open>::accept\<close>.
\<close>

definition listener_accept :: "tcp_listener \<Rightarrow> (bool \<times> string) + nat \<Rightarrow> (bool \<times> string) + connection \<Rightarrow> connection outcome" where
  "listener_accept l selected accepted =
     (if ls_socket l = kInvalidSocket then Inl (Status SC_Closed ''listener is closed'')
      else case selected of
        Inr 0 \<Rightarrow> Inl (Status SC_DeadlineExpired ''no connection arrived before the accept deadline'')
      | Inl f \<Rightarrow> Inl (error_of ''select'' f)
      | Inr _ \<Rightarrow>
          (case accepted of
             Inl f \<Rightarrow> Inl (error_of ''accept'' f)
           | Inr c \<Rightarrow> Inr c))"

definition listener_close :: "tcp_listener \<Rightarrow> tcp_listener" where
  "listener_close l = (if ls_socket l \<noteq> kInvalidSocket then l\<lparr>ls_socket := kInvalidSocket\<rparr> else l)"

section \<open>Frames encode and decode exactly\<close>

lemma le_bytes_le_load:
  assumes "off + n \<le> length data" and "8 * n = LENGTH('a)"
  shows "le_bytes n (le_load n data off :: 'a::len word) = take n (drop off data)"
proof (rule nth_equalityI)
  fix i assume "i < length (le_bytes n (le_load n data off :: 'a word))"
  then have i: "i < n" by simp
  have "ucast (drop_bit (8 * i) (le_load n data off :: 'a word) AND mask 8) = data ! (off + i)"
  proof (rule bit_word_eqI)
    fix k assume k: "k < LENGTH(8)"
    moreover from k i assms(2) have "8 * i + k < LENGTH('a)" by simp
    moreover from k have "(8 * i + k) div 8 = i" "(8 * i + k) mod 8 = k" by simp_all
    moreover from k i have "8 * i + k < 8 * n" by simp
    ultimately show "bit (ucast (drop_bit (8 * i) (le_load n data off :: 'a word) AND mask 8) :: u8) k
        = bit (data ! (off + i)) k"
      unfolding le_load_def by (simp add: bit_simps bit_le_load [where f = "\<lambda>i. data ! (off + i)"])
  qed
  with i assms(1) show "le_bytes n (le_load n data off :: 'a word) ! i = take n (drop off data) ! i"
    by (simp add: le_bytes_def byte_mask)
qed (use assms in simp)

text \<open>The first half of a frame header: its fields, which the digest covers.\<close>

definition head_fields :: "frame_header \<Rightarrow> bytes" where
  "head_fields h = le_bytes 4 (fh_magic h) @ le_bytes 2 (fh_version h) @ le_bytes 2 (fh_type h)
     @ le_bytes 4 (fh_flags h) @ le_bytes 4 (fh_payload_len h) @ le_bytes 8 (fh_request_id h) @ le_bytes 8 (fh_reserved h)"

definition frame_of :: "frame_header \<Rightarrow> bytes \<Rightarrow> bytes" where
  "frame_of h payload = head_fields h @ digest_of (head_fields h @ payload) @ payload"

lemma length_head_fields [simp]: "length (head_fields h) = 32"
  by (simp add: head_fields_def)

lemma frame_header_bytes_exact: "frame_header_bytes h = head_fields h @ replicate 32 0"
proof -
  let ?bss = "[le_bytes 4 (fh_magic h), le_bytes 2 (fh_version h), le_bytes 2 (fh_type h), le_bytes 4 (fh_flags h),
     le_bytes 4 (fh_payload_len h), le_bytes 8 (fh_request_id h), le_bytes 8 (fh_reserved h)]"
  have "bw_buffer (puts [bw_u32 (fh_magic h), bw_u16 (fh_version h), bw_u16 (fh_type h), bw_u32 (fh_flags h),
      bw_u32 (fh_payload_len h), bw_u64 (fh_request_id h), bw_u64 (fh_reserved h)] (new_writer kDefaultMaxBytes))
      = concat ?bss"
    by (intro buffer_puts) (simp_all add: emits_intros kDefaultMaxBytes_def)
  also have "concat ?bss = head_fields h" by (simp add: head_fields_def)
  finally show ?thesis by (simp add: frame_header_bytes_def copy_at_def kFrameHeaderBytes_def)
qed

lemma encode_frame_exact:
  "encode_frame h payload limits =
     (if length payload > unat (tl_max_frame_payload limits)
      then Inl (Status SC_Exhausted ''frame payload exceeds the configured bound'')
      else Inr (frame_of (h\<lparr>fh_magic := kMagic, fh_payload_len := of_nat (length payload)\<rparr>) payload))"
  by (simp add: encode_frame_def Let_def frame_header_bytes_exact kFrameHeaderBytes_def kDigestBytes_def
      sha_two_updates copy_at_def frame_of_def)

text \<open>What the header decoder reads, as loads at fixed offsets.\<close>

definition header_of :: "bytes \<Rightarrow> frame_header" where
  "header_of bs = \<lparr>fh_magic = le_load 4 bs 0, fh_version = le_load 2 bs 4, fh_type = le_load 2 bs 6,
     fh_flags = le_load 4 bs 8, fh_payload_len = le_load 4 bs 12, fh_request_id = le_load 8 bs 16,
     fh_reserved = le_load 8 bs 24\<rparr>"

lemma decode_frame_header_exact:
  assumes "length bs = 64"
  shows "decode_frame_header bs limits =
     (if fh_magic (header_of bs) \<noteq> kMagic then Inl (Status SC_Corrupt ''frame magic does not match'')
      else if fh_version (header_of bs) \<noteq> kProtocolVersion
      then Inl (Status SC_IncompatibleVersion
             (''frame protocol version '' @ u_string (fh_version (header_of bs)) @ '' is not supported''))
      else if fh_payload_len (header_of bs) > tl_max_frame_payload limits
      then Inl (Status SC_Exhausted ''frame declares a payload larger than the configured bound'')
      else Inr (header_of bs))"
  using assms
  by (simp add: decode_frame_header_def kFrameHeaderBytes_def br_u32_def br_u16_def br_u64_def br_remaining_def
      new_reader_def header_of_def)

lemma head_fields_header_of:
  assumes "32 \<le> length bs"
  shows "head_fields (header_of bs) = take 32 bs"
  using assms
  by (simp add: head_fields_def header_of_def le_bytes_le_load add.commute
      take_add [of 4 28, simplified] take_add [of 2 26, simplified] take_add [of 2 24, simplified]
      take_add [of 4 20, simplified] take_add [of 4 16, simplified] take_add [of 8 8, simplified])

lemma header_of_head_fields: "header_of (head_fields h @ rest) = h"
proof -
  have "le_load 4 (head_fields h @ rest) 0 = fh_magic h" "le_load 2 (head_fields h @ rest) 4 = fh_version h"
    "le_load 2 (head_fields h @ rest) 6 = fh_type h" "le_load 4 (head_fields h @ rest) 8 = fh_flags h"
    "le_load 4 (head_fields h @ rest) 12 = fh_payload_len h" "le_load 8 (head_fields h @ rest) 16 = fh_request_id h"
    "le_load 8 (head_fields h @ rest) 24 = fh_reserved h"
    using le_load_le_bytes [of "[]" 0 4 "fh_magic h"]
      le_load_le_bytes [of "le_bytes 4 (fh_magic h)" 4 2 "fh_version h"]
      le_load_le_bytes [of "le_bytes 4 (fh_magic h) @ le_bytes 2 (fh_version h)" 6 2 "fh_type h"]
      le_load_le_bytes [of "le_bytes 4 (fh_magic h) @ le_bytes 2 (fh_version h) @ le_bytes 2 (fh_type h)" 8 4 "fh_flags h"]
      le_load_le_bytes [of "le_bytes 4 (fh_magic h) @ le_bytes 2 (fh_version h) @ le_bytes 2 (fh_type h)
        @ le_bytes 4 (fh_flags h)" 12 4 "fh_payload_len h"]
      le_load_le_bytes [of "le_bytes 4 (fh_magic h) @ le_bytes 2 (fh_version h) @ le_bytes 2 (fh_type h)
        @ le_bytes 4 (fh_flags h) @ le_bytes 4 (fh_payload_len h)" 16 8 "fh_request_id h"]
      le_load_le_bytes [of "le_bytes 4 (fh_magic h) @ le_bytes 2 (fh_version h) @ le_bytes 2 (fh_type h)
        @ le_bytes 4 (fh_flags h) @ le_bytes 4 (fh_payload_len h) @ le_bytes 8 (fh_request_id h)" 24 8 "fh_reserved h"]
    by (simp_all add: head_fields_def)
  then show ?thesis by (simp add: header_of_def)
qed

lemma verify_frame_exact:
  "length bs = 64 \<Longrightarrow> status_ok (verify_frame bs payload) \<longleftrightarrow> drop 32 bs = digest_of (take 32 bs @ payload)"
  by (auto simp: verify_frame_def kFrameHeaderBytes_def kDigestBytes_def Let_def sha_two_updates)

section \<open>Reads are never short\<close>

text \<open>The bytes a connection can still receive before its peer closes, a call fails, or the peer falls silent.\<close>

fun rx_bytes :: "net_event list \<Rightarrow> bytes" where
  "rx_bytes (Arrives bs # es) = bs @ rx_bytes es"
| "rx_bytes _ = []"

lemma net_recv_bytes:
  assumes "net_recv n d es = Some (Inr bs, es')" and "0 < n"
  shows "rx_bytes es = bs @ rx_bytes es'" and "length bs \<le> n"
  using assms by (induction es) (auto split: if_splits elim!: net_recv.elims)

lemma net_recv_available:
  assumes "rx_bytes es \<noteq> []" and "0 < n"
  shows "\<exists>bs es'. net_recv n d es = Some (Inr bs, es') \<and> bs \<noteq> []"
  using assms by (induction es rule: rx_bytes.induct) auto

lemma net_recv_returns: "d \<noteq> 0 \<Longrightarrow> net_recv n d es \<noteq> None"
  by (induction n d es rule: net_recv.induct) auto

lemma chunk_size_bounds: "0 < k \<Longrightarrow> 0 < chunk_size k \<and> chunk_size k \<le> k"
  by (simp add: chunk_size_def)

lemma read_loop_ok:
  assumes "read_loop n got c = Some (st, out, c')" and "status_ok st" and "length got \<le> n"
  shows "\<exists>bs. out = got @ bs \<and> length out = n \<and> rx_bytes (cn_rx c) = bs @ rx_bytes (cn_rx c')
    \<and> c' = c\<lparr>cn_rx := cn_rx c'\<rparr>"
  using assms
proof (induction n got c rule: read_loop.induct)
  case (1 n got c)
  show ?case
  proof (cases "length got < n")
    case True
    let ?m = "chunk_size (n - length got)"
    from True have m: "0 < ?m" "?m \<le> n - length got" using chunk_size_bounds [of "n - length got"] by simp_all
    from "1.prems"(1,2) True obtain bs es where recv: "net_recv ?m (cn_deadline c) (cn_rx c) = Some (Inr bs, es)"
      and ne: "bs \<noteq> []" and rest: "read_loop n (got @ bs) (c\<lparr>cn_rx := es\<rparr>) = Some (st, out, c')"
      by (subst (asm) read_loop.simps)
        (auto simp: socket_error_def split: option.splits sum.splits prod.splits if_splits)
    note got = net_recv_bytes [OF recv m(1)]
    from got(2) m(2) True have "length (got @ bs) \<le> n" by simp
    from "1.IH" [OF True recv refl refl ne rest "1.prems"(2) this] obtain more
      where "out = (got @ bs) @ more" "length out = n" "rx_bytes es = more @ rx_bytes (cn_rx c')"
        "c' = c\<lparr>cn_rx := es\<rparr>\<lparr>cn_rx := cn_rx c'\<rparr>" by auto
    with got(1) show ?thesis by (intro exI [of _ "bs @ more"]) simp
  next
    case False
    with "1.prems" show ?thesis by (subst (asm) read_loop.simps) auto
  qed
qed

lemma read_loop_available:
  assumes "length got \<le> n" and "n - length got \<le> length (rx_bytes (cn_rx c))"
  shows "\<exists>out c'. read_loop n got c = Some (status_success, out, c')"
  using assms
proof (induction n got c rule: read_loop.induct)
  case (1 n got c)
  show ?case
  proof (cases "length got < n")
    case True
    let ?m = "chunk_size (n - length got)"
    from True have m: "0 < ?m" "?m \<le> n - length got" using chunk_size_bounds [of "n - length got"] by simp_all
    from True "1.prems" have "rx_bytes (cn_rx c) \<noteq> []" by auto
    from net_recv_available [OF this m(1)] obtain bs es
      where recv: "net_recv ?m (cn_deadline c) (cn_rx c) = Some (Inr bs, es)" and ne: "bs \<noteq> []" by blast
    note got = net_recv_bytes [OF recv m(1)]
    have "\<exists>out c'. read_loop n (got @ bs) (c\<lparr>cn_rx := es\<rparr>) = Some (status_success, out, c')"
      using got m(2) "1.prems" True by (intro "1.IH" [OF True recv refl refl ne]) auto
    moreover have "read_loop n got c = read_loop n (got @ bs) (c\<lparr>cn_rx := es\<rparr>)"
      using True recv ne by (simp add: read_loop.simps [of n got c])
    ultimately show ?thesis by simp
  next
    case False
    then show ?thesis by (simp add: read_loop.simps [of n got c])
  qed
qed

lemma read_loop_returns: "cn_deadline c \<noteq> 0 \<Longrightarrow> read_loop n got c \<noteq> None"
proof (induction n got c rule: read_loop.induct)
  case (1 n got c)
  show ?case
  proof (cases "length got < n")
    case True
    let ?recv = "net_recv (chunk_size (n - length got)) (cn_deadline c) (cn_rx c)"
    have "?recv \<noteq> None" using "1.prems" by (rule net_recv_returns)
    then obtain r es where recv: "?recv = Some (r, es)" by auto
    show ?thesis
    proof (cases r)
      case (Inl f)
      with True recv show ?thesis by (cases f) (simp add: read_loop.simps [of n got c])
    next
      case (Inr bs)
      with True recv "1.IH" [OF True recv refl Inr] "1.prems" show ?thesis
        by (simp add: read_loop.simps [of n got c])
    qed
  qed (simp add: read_loop.simps [of n got c])
qed

lemma read_loop_deadline:
  "read_loop n got c = Some (st, out, c') \<Longrightarrow> cn_deadline c' = cn_deadline c \<and> cn_socket c' = cn_socket c"
proof (induction n got c rule: read_loop.induct)
  case (1 n got c)
  show ?case
  proof (cases "length got < n")
    case True
    with "1.prems" "1.IH" [OF True] show ?thesis
      by (subst (asm) read_loop.simps) (auto split: option.splits sum.splits prod.splits if_splits)
  next
    case False
    with "1.prems" show ?thesis by (subst (asm) read_loop.simps) auto
  qed
qed

lemma read_all_ok:
  assumes "read_all n c = Some (st, out, c')" and "status_ok st"
  shows "cn_valid c \<and> length out = n \<and> rx_bytes (cn_rx c) = out @ rx_bytes (cn_rx c') \<and> cn_valid c'"
  using assms read_loop_ok [of n "[]" c st out c'] read_loop_deadline [of n "[]" c st out c']
  by (auto simp: read_all_def cn_valid_def split: if_splits)

lemma read_all_available:
  assumes "cn_valid c" and "rx_bytes (cn_rx c) = bs @ rest" and "length bs = n"
  shows "\<exists>c'. read_all n c = Some (status_success, bs, c') \<and> rx_bytes (cn_rx c') = rest \<and> cn_valid c'"
proof -
  have "\<exists>out c'. read_loop n [] c = Some (status_success, out, c')"
    using assms(2,3) by (intro read_loop_available) simp_all
  then obtain out c' where r: "read_all n c = Some (status_success, out, c')"
    using assms(1) by (auto simp: read_all_def)
  have "length out = length bs" "out @ rx_bytes (cn_rx c') = bs @ rest" and v: "cn_valid c'"
    using read_all_ok [OF r] assms(2,3) by simp_all
  then have "out = bs" "rx_bytes (cn_rx c') = rest" by simp_all
  with r v show ?thesis by blast
qed

lemma read_all_returns: "cn_deadline c \<noteq> 0 \<Longrightarrow> read_all n c \<noteq> None"
  by (simp add: read_all_def read_loop_returns del: not_None_eq)

lemma read_all_deadline: "read_all n c = Some (st, out, c') \<Longrightarrow> cn_deadline c' = cn_deadline c"
  using read_loop_deadline [of n "[]" c st out c'] by (auto simp: read_all_def split: if_splits)

lemma frame_of_self:
  assumes "fh_magic h = kMagic" and "unat (fh_payload_len h) = length payload"
  shows "h\<lparr>fh_magic := kMagic, fh_payload_len := of_nat (length payload)\<rparr> = h"
  using assms by (cases h) (simp flip: assms(2))

text \<open>The frames \<open>read_frame\<close> accepts under \<open>limits\<close>.\<close>

definition frame_ok :: "transport_limits \<Rightarrow> frame_header \<Rightarrow> bytes \<Rightarrow> bool" where
  "frame_ok limits h payload \<longleftrightarrow> fh_magic h = kMagic \<and> fh_version h = kProtocolVersion
     \<and> unat (fh_payload_len h) = length payload \<and> length payload \<le> unat (tl_max_frame_payload limits)"

lemma read_frame_accepts:
  assumes ok: "frame_ok limits h payload" and "cn_valid c" and "rx_bytes (cn_rx c) = frame_of h payload @ rest"
  shows "\<exists>c'. read_frame limits c = Some (Inr (payload, h), c') \<and> rx_bytes (cn_rx c') = rest"
proof -
  let ?hb = "head_fields h @ digest_of (head_fields h @ payload)"
  have rx: "rx_bytes (cn_rx c) = ?hb @ payload @ rest" using assms(3) by (simp add: frame_of_def)
  obtain c1 where c1: "read_all 64 c = Some (status_success, ?hb, c1)" "rx_bytes (cn_rx c1) = payload @ rest" "cn_valid c1"
    using read_all_available [OF assms(2) rx] by auto
  have dec: "decode_frame_header ?hb limits = Inr h"
    using ok by (simp add: decode_frame_header_exact header_of_head_fields frame_ok_def word_le_nat_alt flip: not_le)
  obtain c2 where c2: "read_all (unat (fh_payload_len h)) c1 = Some (status_success, payload, c2)"
      "rx_bytes (cn_rx c2) = rest"
    using read_all_available [OF c1(3,2)] ok by (auto simp: frame_ok_def)
  have empty: "fh_payload_len h = 0 \<longleftrightarrow> payload = []" using ok by (auto simp: frame_ok_def unat_eq_0)
  have ver: "status_ok (verify_frame ?hb payload)" by (simp add: verify_frame_exact)
  show ?thesis
  proof (cases "payload = []")
    case True
    with c1 dec ver empty show ?thesis by (simp add: read_frame_def kFrameHeaderBytes_def)
  next
    case False
    with c1 c2 dec ver empty show ?thesis by (simp add: read_frame_def kFrameHeaderBytes_def)
  qed
qed

lemma read_frame_genuine:
  assumes "read_frame limits c = Some (Inr (payload, h), c')"
  shows "cn_valid c \<and> frame_ok limits h payload \<and> rx_bytes (cn_rx c) = frame_of h payload @ rx_bytes (cn_rx c')"
proof -
  obtain st hb c1 st' where r1: "read_all 64 c = Some (st, hb, c1)" and st: "status_ok st"
    and dec: "decode_frame_header hb limits = Inr h" and ver: "status_ok (verify_frame hb payload)"
    and more: "(if fh_payload_len h = 0 then Some (status_success, [], c1)
           else read_all (unat (fh_payload_len h)) c1) = Some (st', payload, c')" "status_ok st'"
    using assms unfolding read_frame_def kFrameHeaderBytes_def
    by (auto simp: Let_def split: option.splits sum.splits if_splits)
  note h1 = read_all_ok [OF r1 st]
  have h: "h = header_of hb" "fh_magic h = kMagic" "fh_version h = kProtocolVersion"
    "fh_payload_len h \<le> tl_max_frame_payload limits"
    using dec h1 by (auto simp: decode_frame_header_exact split: if_splits)
  have body: "length payload = unat (fh_payload_len h) \<and> rx_bytes (cn_rx c1) = payload @ rx_bytes (cn_rx c')"
    using more read_all_ok [of "unat (fh_payload_len h)" c1] by (auto split: if_splits)
  have "hb = head_fields h @ digest_of (head_fields h @ payload)"
    using ver h1 head_fields_header_of [of hb] append_take_drop_id [of 32 hb]
    by (simp add: verify_frame_exact h(1))
  with h h1 body show ?thesis by (auto simp: frame_ok_def frame_of_def word_le_nat_alt)
qed

lemma encode_frame_ok_iff:
  "encode_frame h payload limits = Inr frame \<and> frame_ok limits h payload
     \<longleftrightarrow> frame_ok limits h payload \<and> frame = frame_of h payload"
  using frame_of_self [of h payload] by (auto simp: encode_frame_exact frame_ok_def)

lemma read_frame_returns: "cn_deadline c \<noteq> 0 \<Longrightarrow> read_frame limits c \<noteq> None"
  using read_all_returns [of c kFrameHeaderBytes] read_all_deadline [of kFrameHeaderBytes c]
  by (auto simp: read_frame_def Let_def read_all_returns split: option.splits sum.splits
      dest!: read_all_deadline simp del: not_None_eq)

section \<open>Writes deliver everything or fail\<close>

lemma write_loop_exact:
  "\<exists>k. k \<le> length rest \<and> cn_tx (snd (write_loop rest c)) = cn_tx c @ take k rest
     \<and> (status_ok (fst (write_loop rest c)) \<longleftrightarrow> k = length rest)"
proof (induction rest c rule: write_loop.induct)
  case (1 rest c)
  show ?case
  proof (cases "rest = []")
    case False
    let ?send = "net_send (take (chunk_size (length rest)) rest) (cn_sends c)"
    obtain r as where send: "?send = (r, as)" by fastforce
    show ?thesis
    proof (cases r)
      case (Inl f)
      with False send show ?thesis
        by (cases f) (auto simp: write_loop.simps [of rest c] socket_error_def)
    next
      case (Inr n)
      let ?c = "c\<lparr>cn_sends := as, cn_tx := cn_tx c @ take n rest\<rparr>"
      have n: "n \<le> length rest"
        using net_send_bounds [of "take (chunk_size (length rest)) rest" "cn_sends c" n as] send Inr False
        by (simp add: chunk_size_def split: if_splits)
      from "1.IH" [OF False send [symmetric] Inr] obtain k where k: "k \<le> length (drop n rest)"
        "cn_tx (snd (write_loop (drop n rest) ?c)) = cn_tx ?c @ take k (drop n rest)"
        "status_ok (fst (write_loop (drop n rest) ?c)) \<longleftrightarrow> k = length (drop n rest)" by blast
      moreover have "write_loop rest c = write_loop (drop n rest) ?c"
        using False send Inr by (simp add: write_loop.simps [of rest c])
      ultimately show ?thesis using n by (intro exI [of _ "n + k"]) (auto simp: take_add)
    qed
  qed (simp add: write_loop.simps [of "[]" c])
qed

lemma write_frame_exact:
  assumes "cn_valid c" and "encode_frame h payload limits = Inr frame"
  shows "\<exists>k. k \<le> length frame \<and> cn_tx (snd (write_frame h payload limits c)) = cn_tx c @ take k frame
     \<and> (status_ok (fst (write_frame h payload limits c)) \<longleftrightarrow> k = length frame)"
  using assms write_loop_exact [of frame c] by (simp add: write_frame_def conn_write_all_def)

section \<open>Endpoints read back\<close>

lemma rfind_append: "c \<notin> set y \<Longrightarrow> rfind c (x @ c # y) = Some (length x)"
proof -
  assume "c \<notin> set y"
  then have "takeWhile ((\<noteq>) c) (rev y) = rev y" by (auto simp: takeWhile_eq_all_conv)
  then show ?thesis by (simp add: rfind_def takeWhile_append)
qed

lemma parse_u32_u16: "parse_u32 (u_string (p :: u16)) = Some (ucast p)"
proof -
  have "unat (ucast p :: u32) = unat p"
    using unsigned_less [of p, where ?'a = nat] by (simp add: unsigned_ucast_eq take_bit_nat_eq_self_iff)
  then have "u_string p = u_string (ucast p :: u32)" by (simp add: u_string_def)
  then show ?thesis using parse_u32_u_string [of "ucast p"] by simp
qed

lemma parse_endpoint_string:
  assumes "ep_host e \<noteq> []" and "length (ep_host e) \<le> 255" and "is_valid_utf8 (ep_host e)" and "ep_port e \<noteq> 0"
  shows "parse_endpoint (endpoint_string e) = Inr e"
proof -
  let ?p = "u_string (ep_port e)"
  have "CHR '':'' \<notin> set ?p" using dec_string_digits by (force simp: u_string_def is_digit_def)
  then have colon: "rfind CHR '':'' (ep_host e @ CHR '':'' # ?p) = Some (length (ep_host e))"
    by (rule rfind_append)
  have up: "unat (ucast (ep_port e) :: u32) = unat (ep_port e)"
    using unsigned_less [of "ep_port e", where ?'a = nat] by (simp add: unsigned_ucast_eq take_bit_nat_eq_self_iff)
  have "(ucast (ep_port e) :: u32) \<noteq> 0" "\<not> (ucast (ep_port e) :: u32) > 65535"
    using assms(4) up unsigned_less [of "ep_port e", where ?'a = nat]
    by (auto simp: word_less_nat_alt unat_eq_0 simp flip: unat_eq_0)
  moreover have "(ucast (ucast (ep_port e) :: u32) :: u16) = ep_port e"
    by (rule bit_word_eqI) (simp add: bit_simps)
  moreover have "?p \<noteq> []" by (simp add: u_string_def)
  ultimately show ?thesis
    using assms by (simp add: parse_endpoint_def colon endpoint_string_def Let_def parse_u32_u16)
qed

section \<open>Properties\<close>

text \<open>
  C11. \<open>read_frame\<close> returns a payload and a header exactly when the bytes that arrive, however the
  network cuts them, start with the frame \<open>encode_frame\<close> makes of them: right magic, supported version, a
  payload of the declared length within the bound, matching digest. It then consumes that frame and
  nothing more. A frame cut short, altered or too large is never handed up.
\<close>

theorem read_frame_exact:
  assumes "cn_valid c"
  shows "(\<exists>c'. read_frame limits c = Some (Inr (payload, h), c') \<and> rx_bytes (cn_rx c') = rest)
    \<longleftrightarrow> (\<exists>frame. encode_frame h payload limits = Inr frame \<and> frame_ok limits h payload
          \<and> rx_bytes (cn_rx c) = frame @ rest)"
proof -
  have "(\<exists>frame. encode_frame h payload limits = Inr frame \<and> frame_ok limits h payload \<and> rx_bytes (cn_rx c) = frame @ rest)
    \<longleftrightarrow> frame_ok limits h payload \<and> rx_bytes (cn_rx c) = frame_of h payload @ rest"
    using encode_frame_ok_iff [of h payload limits] by metis
  moreover have "(\<exists>c'. read_frame limits c = Some (Inr (payload, h), c') \<and> rx_bytes (cn_rx c') = rest)
    \<longleftrightarrow> frame_ok limits h payload \<and> rx_bytes (cn_rx c) = frame_of h payload @ rest"
    using read_frame_accepts [OF _ assms, of limits h payload rest] read_frame_genuine [of limits c payload h] by metis
  ultimately show ?thesis by simp
qed

definition sample_header :: frame_header where
  "sample_header = default_frame_header\<lparr>fh_type := 11, fh_payload_len := 3, fh_request_id := 7\<rparr>"

definition sample_arrivals :: "bytes \<Rightarrow> connection" where
  "sample_arrivals frame = \<lparr>cn_socket = 3, cn_rx = [Arrives (take 10 frame), Arrives (drop 10 frame), PeerCloses],
     cn_sends = [], cn_tx = [], cn_deadline = 0\<rparr>"

lemma sample_frame:
  "frame_ok default_transport_limits sample_header [1, 2, 3]"
  "encode_frame sample_header [1, 2, 3] default_transport_limits = Inr (frame_of sample_header [1, 2, 3])"
proof -
  show ok: "frame_ok default_transport_limits sample_header [1, 2, 3]"
    by (simp add: frame_ok_def sample_header_def default_frame_header_def default_transport_limits_def)
  then show "encode_frame sample_header [1, 2, 3] default_transport_limits = Inr (frame_of sample_header [1, 2, 3])"
    using encode_frame_ok_iff by blast
qed

lemma sample_arrivals_rx: "rx_bytes (cn_rx (sample_arrivals frame)) = frame" "cn_valid (sample_arrivals frame)"
  by (simp_all add: sample_arrivals_def cn_valid_def kInvalidSocket_def)

theorem read_frame_exact_witness:
  "\<exists>c'. read_frame default_transport_limits (sample_arrivals (frame_of sample_header [1, 2, 3]))
      = Some (Inr ([1, 2, 3], sample_header), c') \<and> rx_bytes (cn_rx c') = []"
  using read_frame_exact [where c = "sample_arrivals (frame_of sample_header [1, 2, 3])" and payload = "[1, 2, 3]"
      and h = sample_header and limits = default_transport_limits and rest = "[]"]
    sample_frame sample_arrivals_rx [of "frame_of sample_header [1, 2, 3]"]
  by simp

text \<open>
  C12. A frame one side reports as written reaches the other side whole: when \<open>write_frame\<close> succeeds, a
  peer that receives the bytes sent reads the same payload under the same header (with the magic and
  the length filled in), and what follows the frame is left for the next read. When it fails, only a
  proper prefix of the frame was sent.
\<close>

theorem frame_delivered_whole:
  assumes "cn_valid c" and "cn_tx c = []" and "fh_version h = kProtocolVersion"
    and "length payload \<le> unat (tl_max_frame_payload limits)"
    and "cn_valid peer" and "rx_bytes (cn_rx peer) = cn_tx (snd (write_frame h payload limits c)) @ rest"
  shows "if status_ok (fst (write_frame h payload limits c))
    then \<exists>peer'. read_frame limits peer
        = Some (Inr (payload, h\<lparr>fh_magic := kMagic, fh_payload_len := of_nat (length payload)\<rparr>), peer')
        \<and> rx_bytes (cn_rx peer') = rest
    else \<exists>k frame. encode_frame h payload limits = Inr frame \<and> k < length frame
        \<and> cn_tx (snd (write_frame h payload limits c)) = take k frame"
proof -
  let ?h = "h\<lparr>fh_magic := kMagic, fh_payload_len := of_nat (length payload)\<rparr>"
  have len: "unat (of_nat (length payload) :: u32) = length payload"
    using assms(4) unsigned_less [of "tl_max_frame_payload limits", where ?'a = nat]
    by (simp add: unat_of_nat take_bit_nat_eq_self_iff unsigned_of_nat)
  have enc: "encode_frame h payload limits = Inr (frame_of ?h payload)" using assms(4) by (simp add: encode_frame_exact)
  from write_frame_exact [OF assms(1) enc] obtain k where k: "k \<le> length (frame_of ?h payload)"
    "cn_tx (snd (write_frame h payload limits c)) = take k (frame_of ?h payload)"
    "status_ok (fst (write_frame h payload limits c)) \<longleftrightarrow> k = length (frame_of ?h payload)"
    using assms(2) by auto
  have "frame_ok limits ?h payload" using assms(3,4) len by (simp add: frame_ok_def)
  from read_frame_accepts [OF this assms(5)] k assms(6) have "k = length (frame_of ?h payload) \<Longrightarrow>
      \<exists>peer'. read_frame limits peer = Some (Inr (payload, ?h), peer') \<and> rx_bytes (cn_rx peer') = rest" by simp
  moreover have "k \<noteq> length (frame_of ?h payload) \<Longrightarrow> k < length (frame_of ?h payload)" using k(1) by simp
  ultimately show ?thesis
    using k(2,3) enc by (cases "k = length (frame_of ?h payload)") (simp_all only: if_True if_False simp_thms, blast+)
qed

theorem frame_delivered_whole_witness:
  "\<exists>peer'. read_frame default_transport_limits (sample_arrivals (frame_of sample_header [1, 2, 3]))
      = Some (Inr ([1, 2, 3], sample_header), peer') \<and> rx_bytes (cn_rx peer') = []"
proof -
  let ?c = "sample_arrivals []"
  let ?w = "write_frame sample_header [1, 2, 3] default_transport_limits ?c"
  have "\<exists>k. cn_tx (snd ?w) = take k (frame_of sample_header [1, 2, 3])
      \<and> (status_ok (fst ?w) \<longleftrightarrow> k = length (frame_of sample_header [1, 2, 3]))"
    using write_frame_exact [OF sample_arrivals_rx(2) sample_frame(2), of "[]"]
    by (auto simp: sample_arrivals_def [of "[]"])
  moreover have ok: "status_ok (fst ?w)"
    by (simp add: write_frame_def sample_frame(2) conn_write_all_def sample_arrivals_rx(2) write_loop.simps chunk_size_def
        frame_of_def sample_arrivals_def kInvalidSocket_def cn_valid_def)
  ultimately have tx: "cn_tx (snd ?w) = frame_of sample_header [1, 2, 3]" by auto
  have self: "sample_header\<lparr>fh_magic := kMagic, fh_payload_len := of_nat (length [1, 2, 3 :: u8])\<rparr> = sample_header"
    by (simp add: sample_header_def default_frame_header_def)
  have "fh_version sample_header = kProtocolVersion" "cn_tx ?c = []"
      "length [1, 2, 3 :: u8] \<le> unat (tl_max_frame_payload default_transport_limits)"
    by (simp_all add: sample_arrivals_def sample_header_def default_frame_header_def default_transport_limits_def)
  from frame_delivered_whole [OF sample_arrivals_rx(2) this(2,1,3) sample_arrivals_rx(2),
      of "frame_of sample_header [1, 2, 3]" "[]"] ok
  show ?thesis unfolding tx self by (simp add: sample_arrivals_rx(1))
qed


definition sample_socket_os :: socket_os where
  "sample_socket_os = \<lparr>so_ensure = status_success, so_socket = Inr 3, so_inet_pton = (\<lambda>_. None),
     so_connect = (\<lambda>_ _. None), so_bind = (\<lambda>_ _. None), so_listen = None, so_getsockname = Inr 4000,
     so_rcvtimeo = None, so_sndtimeo = None, so_rx = [], so_sends = []\<rparr>"


text \<open>
  Opening a connection or a listener never leaks a socket: once \<open>socket\<close> has given one, it is
  closed, once, exactly when the operation fails.
\<close>

theorem open_never_leaks:
  assumes "status_ok (so_ensure os)" and "so_socket os = Inr s" and "s \<noteq> kInvalidSocket"
  shows "snd (conn_connect e limits os) = (if outcome_ok (fst (conn_connect e limits os)) then [] else [s])
    \<and> snd (listener_bind e os) = (if outcome_ok (fst (listener_bind e os)) then [] else [s])"
  using assms by (simp add: conn_connect_def listener_bind_def split: option.splits sum.splits prod.splits)

text \<open>
  An endpoint that a client may name, with a host of 1 to 255 bytes of UTF-8 and a non-zero port, is
  read back from its text.
\<close>

theorem endpoint_text_roundtrip:
  assumes "ep_host e \<noteq> []" and "length (ep_host e) \<le> 255" and "is_valid_utf8 (ep_host e)" and "ep_port e \<noteq> 0"
  shows "parse_endpoint (endpoint_string e) = Inr e"
  using assms by (rule parse_endpoint_string)

theorem endpoint_text_roundtrip_witness:
  "parse_endpoint (endpoint_string \<lparr>ep_host = ''127.0.0.1'', ep_port = 4000\<rparr>)
     = Inr \<lparr>ep_host = ''127.0.0.1'', ep_port = 4000\<rparr>"
proof -
  have "is_valid_utf8 ''127.0.0.1''" by code_simp
  then show ?thesis by (intro endpoint_text_roundtrip) simp_all
qed

end
