(* ===== verification/SLF_Wire.thy ===== *)
theory SLF_Wire
  imports SLF_Runtime SLF_Transport
begin

text \<open>
  The shared structures of the request protocol (first half of \<open>src/service.cpp\<close>): path constraints,
  node references, digests, capacity summaries, eligibility entries, assessments, health reports,
  runtime status, tokens and command results. An encoder chains its writes and stops at the first
  that fails; a decoder reads a group of fields before it tests any of them. A status code with no
  enumerator, which a cast lets through, is an unspecified code of the model.
\<close>

section \<open>Bounds and combinators\<close>

definition kMaxDetailBytes :: nat where
  "kMaxDetailBytes = 4096"

definition kMaxNameBytes :: nat where
  "kMaxNameBytes = 256"

definition kMaxWireSpines :: nat where
  "kMaxWireSpines = 4096"

definition kMaxWireSets :: nat where
  "kMaxWireSets = 64"

definition kMaxWireExplanations :: nat where
  "kMaxWireExplanations = 64"

definition kMaxWireReasons :: nat where
  "kMaxWireReasons = 64"

definition kMaxBlockBytes :: nat where
  "kMaxBlockBytes = 4 * 1024 * 1024"

definition clamp_detail :: "string \<Rightarrow> nat \<Rightarrow> string" where
  "clamp_detail t limit = (if length t \<le> limit then t else take limit t)"

text \<open>\<open>status = status.ok() ? writer.f(x) : status\<close>, repeated.\<close>

fun chain :: "put list \<Rightarrow> put" where
  "chain [] w = (status_success, w)"
| "chain (p # ps) w = (case p w of (s, w') \<Rightarrow> if status_ok s then chain ps w' else (s, w'))"

definition truncated :: "string \<Rightarrow> status" where
  "truncated what = Status SC_Truncated what"

text \<open>\<open>n\<close> elements read one after another, each failure reported as \<open>Truncated\<close> with a fixed detail.\<close>

fun read_n :: "string \<Rightarrow> (byte_reader \<Rightarrow> 'a outcome \<times> byte_reader) \<Rightarrow> nat \<Rightarrow> byte_reader \<Rightarrow> 'a list outcome \<times> byte_reader" where
  "read_n what dec 0 r = (Inr [], r)"
| "read_n what dec (Suc n) r =
     (case dec r of
        (Inl s, r1) \<Rightarrow> (Inl (truncated what), r1)
      | (Inr x, r1) \<Rightarrow>
          (case read_n what dec n r1 of
             (Inl s, r2) \<Rightarrow> (Inl s, r2)
           | (Inr xs, r2) \<Rightarrow> (Inr (x # xs), r2)))"

definition status_code_cast :: "u16 \<Rightarrow> status_code" where
  "status_code_cast v = all_status_codes ! unat v"

fun oversubscription_class_u8 :: "oversubscription_class \<Rightarrow> u8" where
  "oversubscription_class_u8 OC_Unprovisioned = 0"
| "oversubscription_class_u8 OC_Subscribed = 1"
| "oversubscription_class_u8 OC_Oversubscribed = 2"
| "oversubscription_class_u8 OC_Indeterminate = 3"

definition oversubscription_class_of_u8 :: "u8 \<Rightarrow> oversubscription_class" where
  "oversubscription_class_of_u8 v = (if v = 0 then OC_Unprovisioned else if v = 1 then OC_Subscribed
     else if v = 2 then OC_Oversubscribed else OC_Indeterminate)"

fun freshness_u8 :: "evidence_freshness \<Rightarrow> u8" where
  "freshness_u8 EF_Fresh = 0"
| "freshness_u8 EF_Historical = 1"
| "freshness_u8 EF_Absent = 2"

definition freshness_of_u8 :: "u8 \<Rightarrow> evidence_freshness" where
  "freshness_of_u8 v = (if v = 0 then EF_Fresh else if v = 1 then EF_Historical else EF_Absent)"

definition fabric_health_of_u8 :: "u8 \<Rightarrow> fabric_health" where
  "fabric_health_of_u8 v = (if v = 0 then FH_Operational else if v = 1 then FH_Degraded else if v = 2 then FH_Draining
     else if v = 3 then FH_Unformed else if v = 4 then FH_Retired else FH_Indeterminate)"

definition fault_point_of_u8 :: "u8 \<Rightarrow> fault_point" where
  "fault_point_of_u8 v = (if v = 0 then FP_None else if v = 1 then FP_BeforeCommit
     else if v = 2 then FP_AfterCommitBeforeAck else FP_AfterAckBeforeSnapshot)"

definition recovery_status_of_u8 :: "u16 \<Rightarrow> recovery_status" where
  "recovery_status_of_u8 v = (if v = 0 then RS_Missing else if v = 1 then RS_Empty else if v = 2 then RS_Clean
     else if v = 3 then RS_CrashWithoutTrailer else if v = 4 then RS_TruncatedTail else if v = 5 then RS_ChainBroken
     else if v = 6 then RS_Corrupt else if v = 7 then RS_IncompatibleVersion else RS_IoError)"

section \<open>Constraints, nodes and digests\<close>

definition encode_constraints :: "path_constraints \<Rightarrow> put" where
  "encode_constraints c =
     (let ratio = (case pc_max_oversubscription c of None \<Rightarrow> \<lparr>rt_num = 0, rt_den = 1\<rparr> | Some r \<Rightarrow> r) in
      chain [bw_u8 (bool_u8 (pc_require_domain_diversity c)), bw_u32 (pc_min_eligible_spines c),
        bw_u64 (pc_min_total_capacity_mbps c), bw_u8 (bool_u8 (pc_max_oversubscription c \<noteq> None)),
        bw_u64 (rt_num ratio), bw_u64 (rt_den ratio), bw_u8 (bool_u8 (pc_allow_peer_paths c)),
        bw_u8 (bool_u8 (pc_require_evidence c)), bw_u32 (pc_max_sets c), bw_u32 (pc_max_explanations c)])"

definition decode_constraints :: "byte_reader \<Rightarrow> path_constraints outcome \<times> byte_reader" where
  "decode_constraints r0 =
     (let (diversity, r1) = br_u8 r0; (min_spines, r2) = br_u32 r1; (min_capacity, r3) = br_u64 r2;
          (has_ratio, r4) = br_u8 r3; (ratio_num, r5) = br_u64 r4; (ratio_den, r6) = br_u64 r5; (peer, r7) = br_u8 r6;
          (ev, r8) = br_u8 r7; (max_sets, r9) = br_u32 r8; (max_explanations, r10) = br_u32 r9
      in if \<not> outcome_ok diversity \<or> \<not> outcome_ok min_spines \<or> \<not> outcome_ok min_capacity \<or> \<not> outcome_ok has_ratio
            \<or> \<not> outcome_ok ratio_num \<or> \<not> outcome_ok ratio_den \<or> \<not> outcome_ok peer \<or> \<not> outcome_ok ev
            \<or> \<not> outcome_ok max_sets \<or> \<not> outcome_ok max_explanations
         then (Inl (truncated ''path constraints are incomplete''), r10)
         else if projr max_sets > 4096 \<or> projr max_explanations > 1024
         then (Inl (Status SC_Exhausted ''path constraint bounds exceed the accepted maximum''), r10)
         else let c = \<lparr>pc_require_domain_diversity = (projr diversity \<noteq> 0), pc_min_eligible_spines = projr min_spines,
                      pc_min_total_capacity_mbps = projr min_capacity, pc_max_oversubscription = None,
                      pc_allow_peer_paths = (projr peer \<noteq> 0), pc_require_evidence = (projr ev \<noteq> 0),
                      pc_max_sets = projr max_sets, pc_max_explanations = projr max_explanations\<rparr>
              in if projr has_ratio \<noteq> 0
                 then (case rational_make (projr ratio_num) (projr ratio_den) of
                         Inl s \<Rightarrow> (Inl s, r10)
                       | Inr ratio \<Rightarrow> (Inr (c\<lparr>pc_max_oversubscription := Some ratio\<rparr>), r10))
                 else (Inr c, r10))"

definition encode_node :: "node_key \<Rightarrow> put" where
  "encode_node k = chain [bw_u8 (tier_u8 (nk_tier k)), bw_u32 (nk_index k)]"

definition decode_node :: "byte_reader \<Rightarrow> node_key outcome \<times> byte_reader" where
  "decode_node r0 =
     (let (tier, r1) = br_u8 r0; (index, r2) = br_u32 r1
      in if \<not> outcome_ok tier \<or> \<not> outcome_ok index then (Inl (truncated ''node reference is incomplete''), r2)
         else if projr tier > 1 then (Inl (Status SC_Invalid ''node reference carries an unknown tier''), r2)
         else (Inr (NodeKey (tier_of_u8 (projr tier)) (projr index)), r2))"

definition encode_digest :: "digest \<Rightarrow> put" where
  "encode_digest d = bw_bytes d"

definition decode_digest :: "byte_reader \<Rightarrow> digest outcome \<times> byte_reader" where
  "decode_digest r0 =
     (let (bs, r1) = br_bytes 32 r0
      in if \<not> outcome_ok bs then (Inl (truncated ''digest is incomplete''), r1) else (Inr (projr bs), r1))"

section \<open>Capacity and eligibility entries\<close>

definition encode_capacity :: "capacity_summary \<Rightarrow> put" where
  "encode_capacity c =
     chain [bw_u64 (cs_uplink_capacity_mbps c), bw_u32 (cs_uplink_count c), bw_u64 (cs_downlink_capacity_mbps c),
       bw_u32 (cs_downlink_count c), bw_u64 (cs_access_capacity_mbps c), bw_u64 (cs_min_uplink_mbps c),
       bw_u64 (cs_max_uplink_mbps c), bw_u64 (cs_spine_capacity_mbps c), bw_u32 (cs_spine_count c),
       bw_u64 (rt_num (cs_oversubscription c)), bw_u64 (rt_den (cs_oversubscription c)),
       bw_u8 (oversubscription_class_u8 (cs_classification c)), bw_u16 (status_code_u16 (cs_code c)),
       bw_string (clamp_detail (cs_detail c) kMaxDetailBytes)]"

definition decode_capacity :: "byte_reader \<Rightarrow> capacity_summary outcome \<times> byte_reader" where
  "decode_capacity r0 =
     (let (uplink, r1) = br_u64 r0; (uplink_count, r2) = br_u32 r1; (downlink, r3) = br_u64 r2;
          (downlink_count, r4) = br_u32 r3; (access, r5) = br_u64 r4; (min_uplink, r6) = br_u64 r5;
          (max_uplink, r7) = br_u64 r6; (spine_capacity, r8) = br_u64 r7; (spine_count, r9) = br_u32 r8;
          (ratio_num, r10) = br_u64 r9; (ratio_den, r11) = br_u64 r10; (classification, r12) = br_u8 r11;
          (code, r13) = br_u16 r12; (detail, r14) = br_string r13
      in if \<not> outcome_ok uplink \<or> \<not> outcome_ok uplink_count \<or> \<not> outcome_ok downlink \<or> \<not> outcome_ok downlink_count
            \<or> \<not> outcome_ok access \<or> \<not> outcome_ok min_uplink \<or> \<not> outcome_ok max_uplink \<or> \<not> outcome_ok spine_capacity
            \<or> \<not> outcome_ok spine_count \<or> \<not> outcome_ok ratio_num \<or> \<not> outcome_ok ratio_den
            \<or> \<not> outcome_ok classification \<or> \<not> outcome_ok code \<or> \<not> outcome_ok detail
         then (Inl (truncated ''capacity summary is incomplete''), r14)
         else if projr classification > 3
         then (Inl (Status SC_Invalid ''capacity summary carries an unknown classification''), r14)
         else (case rational_make (projr ratio_num) (projr ratio_den) of
                 Inl s \<Rightarrow> (Inl s, r14)
               | Inr ratio \<Rightarrow>
                   (Inr \<lparr>cs_uplink_capacity_mbps = projr uplink, cs_uplink_count = projr uplink_count,
                      cs_downlink_capacity_mbps = projr downlink, cs_downlink_count = projr downlink_count,
                      cs_access_capacity_mbps = projr access, cs_min_uplink_mbps = projr min_uplink,
                      cs_max_uplink_mbps = projr max_uplink, cs_spine_capacity_mbps = projr spine_capacity,
                      cs_spine_count = projr spine_count, cs_oversubscription = ratio,
                      cs_classification = oversubscription_class_of_u8 (projr classification),
                      cs_code = status_code_cast (projr code), cs_detail = projr detail\<rparr>, r14)))"

definition encode_spine_eligibility :: "spine_eligibility \<Rightarrow> put" where
  "encode_spine_eligibility e =
     chain [bw_u32 (se_spine e), bw_u8 (verdict_u8 (se_verdict e)), bw_u16 (status_code_u16 (se_code e)),
       bw_u8 (bool_u8 (se_structural_ok e)), bw_u8 (freshness_u8 (se_freshness e)), bw_u64 (se_capacity_mbps e),
       bw_u32 (se_domain e), bw_string (clamp_detail (se_detail e) kMaxDetailBytes)]"

definition decode_spine_eligibility :: "byte_reader \<Rightarrow> spine_eligibility outcome \<times> byte_reader" where
  "decode_spine_eligibility r0 =
     (let (spine, r1) = br_u32 r0; (verdict, r2) = br_u8 r1; (code, r3) = br_u16 r2; (structural, r4) = br_u8 r3;
          (freshness, r5) = br_u8 r4; (capacity, r6) = br_u64 r5; (domain, r7) = br_u32 r6; (detail, r8) = br_string r7
      in if \<not> outcome_ok spine \<or> \<not> outcome_ok verdict \<or> \<not> outcome_ok code \<or> \<not> outcome_ok structural
            \<or> \<not> outcome_ok freshness \<or> \<not> outcome_ok capacity \<or> \<not> outcome_ok domain \<or> \<not> outcome_ok detail
         then (Inl (truncated ''spine eligibility entry is incomplete''), r8)
         else if projr verdict > 2 \<or> projr freshness > 2
         then (Inl (Status SC_Invalid ''spine eligibility entry carries an unknown enumeration value''), r8)
         else (Inr \<lparr>se_spine = projr spine, se_verdict = verdict_of_u8 (projr verdict),
                 se_code = status_code_cast (projr code), se_structural_ok = (projr structural \<noteq> 0),
                 se_freshness = freshness_of_u8 (projr freshness), se_capacity_mbps = projr capacity,
                 se_domain = projr domain, se_detail = projr detail\<rparr>, r8))"

section \<open>Assessments\<close>

definition encode_spine_set :: "eligible_spine_set \<Rightarrow> put list" where
  "encode_spine_set st =
     [bw_u64 (ss_total_capacity_mbps st), bw_u32 (ss_distinct_domains st), bw_u32 (of_nat (length (ss_spines st)))]
     @ map bw_u32 (ss_spines st) @ [bw_u32 (of_nat (length (ss_domains st)))] @ map bw_u32 (ss_domains st)"

definition encode_assessment :: "path_assessment \<Rightarrow> put" where
  "encode_assessment a =
     chain ([encode_node (pa_from a), encode_node (pa_to a), bw_u8 (reachability_class_u8 (pa_cls a)),
        bw_u8 (verdict_u8 (pa_verdict a)), bw_u16 (status_code_u16 (pa_code a)), bw_u64 (pa_generation a),
        bw_u64 (pa_epoch a), bw_u64 (inc_hi (pa_controller a)), bw_u64 (inc_lo (pa_controller a)),
        encode_digest (pa_topology_digest a), bw_u8 (bool_u8 (pa_evidence_required a)), bw_u64 (pa_links_examined a),
        bw_u32 (pa_max_domain_loss_tolerance a), bw_u32 (of_nat (length (pa_eligible_spines a)))]
      @ map bw_u32 (pa_eligible_spines a)
      @ [bw_u32 (of_nat (length (pa_covered_domains a)))] @ map bw_u32 (pa_covered_domains a)
      @ [bw_u8 (bool_u8 (sets_truncated (pa_spine_sets a))), bw_u64 (sets_candidate_combinations (pa_spine_sets a)),
         bw_u32 (of_nat (length (sets_list (pa_spine_sets a))))]
      @ concat (map encode_spine_set (sets_list (pa_spine_sets a)))
      @ [encode_capacity (pa_capacity a), bw_u32 (of_nat (length (pa_explanation a)))]
      @ map (\<lambda>line. bw_string (clamp_detail line kMaxDetailBytes)) (pa_explanation a))"

text \<open>A count followed by that many \<open>u32\<close> values, the count checked against a bound first.\<close>

definition read_ids :: "string \<Rightarrow> string \<Rightarrow> byte_reader \<Rightarrow> u32 list outcome \<times> byte_reader" where
  "read_ids incomplete exceeds r0 =
     (case br_u32 r0 of
        (Inl s, r1) \<Rightarrow> (Inl (truncated incomplete), r1)
      | (Inr n, r1) \<Rightarrow>
          if unat n > kMaxWireSpines then (Inl (Status SC_Exhausted exceeds), r1)
          else read_n incomplete br_u32 (unat n) r1)"

definition decode_spine_set :: "byte_reader \<Rightarrow> eligible_spine_set outcome \<times> byte_reader" where
  "decode_spine_set r0 =
     (let (capacity, r1) = br_u64 r0; (distinct_domains, r2) = br_u32 r1; (spine_count_in_set, r3) = br_u32 r2
      in if \<not> outcome_ok capacity \<or> \<not> outcome_ok distinct_domains \<or> \<not> outcome_ok spine_count_in_set
         then (Inl (truncated ''spine set is incomplete''), r3)
         else if unat (projr spine_count_in_set) > kMaxWireSpines \<or> unat (projr distinct_domains) > kMaxWireSpines
         then (Inl (Status SC_Exhausted ''spine set exceeds the accepted bound''), r3)
         else (case read_n ''spine set spine list is incomplete'' br_u32 (unat (projr spine_count_in_set)) r3 of
                 (Inl s, r4) \<Rightarrow> (Inl s, r4)
               | (Inr spines, r4) \<Rightarrow>
                   (case read_ids ''spine set domain list is incomplete'' ''spine set domain list exceeds the accepted bound'' r4 of
                      (Inl s, r5) \<Rightarrow> (Inl s, r5)
                    | (Inr domains, r5) \<Rightarrow>
                        (Inr \<lparr>ss_spines = spines, ss_domains = domains, ss_total_capacity_mbps = projr capacity,
                              ss_distinct_domains = projr distinct_domains\<rparr>, r5))))"

text \<open>Elements whose decoder already reports the status to return.\<close>

fun decode_n :: "(byte_reader \<Rightarrow> 'a outcome \<times> byte_reader) \<Rightarrow> nat \<Rightarrow> byte_reader \<Rightarrow> 'a list outcome \<times> byte_reader" where
  "decode_n dec 0 r = (Inr [], r)"
| "decode_n dec (Suc n) r =
     (case dec r of
        (Inl s, r1) \<Rightarrow> (Inl s, r1)
      | (Inr x, r1) \<Rightarrow>
          (case decode_n dec n r1 of
             (Inl s, r2) \<Rightarrow> (Inl s, r2)
           | (Inr xs, r2) \<Rightarrow> (Inr (x # xs), r2)))"

definition decode_spine_sets :: "byte_reader \<Rightarrow> eligible_spine_sets outcome \<times> byte_reader" where
  "decode_spine_sets r0 =
     (let (cut, r1) = br_u8 r0; (combinations, r2) = br_u64 r1; (set_count, r3) = br_u32 r2
      in if \<not> outcome_ok cut \<or> \<not> outcome_ok combinations \<or> \<not> outcome_ok set_count
         then (Inl (truncated ''path assessment spine set summary is incomplete''), r3)
         else if unat (projr set_count) > kMaxWireSets
         then (Inl (Status SC_Exhausted ''path assessment spine set count exceeds the accepted bound''), r3)
         else (case decode_n decode_spine_set (unat (projr set_count)) r3 of
                 (Inl s, r4) \<Rightarrow> (Inl s, r4)
               | (Inr sets, r4) \<Rightarrow>
                   (Inr \<lparr>sets_list = sets, sets_truncated = (projr cut \<noteq> 0),
                         sets_candidate_combinations = projr combinations\<rparr>, r4)))"

text \<open>The fields before the spine list, read together; the lists and the capacity are filled in later.\<close>

definition decode_assessment_head :: "byte_reader \<Rightarrow> (path_assessment \<times> u32) outcome \<times> byte_reader" where
  "decode_assessment_head r0 =
     (let (fro, r1) = decode_node r0; (to, r2) = decode_node r1; (cls, r3) = br_u8 r2; (verdict, r4) = br_u8 r3;
          (code, r5) = br_u16 r4; (gen, r6) = br_u64 r5; (ep, r7) = br_u64 r6; (hi, r8) = br_u64 r7; (lo, r9) = br_u64 r8;
          (dg, r10) = decode_digest r9; (evidence_required, r11) = br_u8 r10; (links_examined, r12) = br_u64 r11;
          (tolerance, r13) = br_u32 r12; (spine_count, r14) = br_u32 r13
      in if \<not> outcome_ok fro \<or> \<not> outcome_ok to \<or> \<not> outcome_ok cls \<or> \<not> outcome_ok verdict \<or> \<not> outcome_ok code
            \<or> \<not> outcome_ok gen \<or> \<not> outcome_ok ep \<or> \<not> outcome_ok hi \<or> \<not> outcome_ok lo \<or> \<not> outcome_ok dg
            \<or> \<not> outcome_ok evidence_required \<or> \<not> outcome_ok links_examined \<or> \<not> outcome_ok tolerance
            \<or> \<not> outcome_ok spine_count
         then (Inl (truncated ''path assessment is incomplete''), r14)
         else if projr cls > 8 \<or> projr verdict > 2
         then (Inl (Status SC_Invalid ''path assessment carries an unknown enumeration value''), r14)
         else if unat (projr spine_count) > kMaxWireSpines
         then (Inl (Status SC_Exhausted ''path assessment spine list exceeds the accepted bound''), r14)
         else (Inr (\<lparr>pa_from = projr fro, pa_to = projr to, pa_cls = reachability_class_of_u8 (projr cls),
                 pa_verdict = verdict_of_u8 (projr verdict), pa_code = status_code_cast (projr code),
                 pa_generation = projr gen, pa_epoch = projr ep, pa_controller = Incarnation (projr hi) (projr lo),
                 pa_topology_digest = projr dg, pa_eligible_spines = [], pa_covered_domains = [],
                 pa_max_domain_loss_tolerance = projr tolerance, pa_spine_sets = empty_spine_sets,
                 pa_capacity = empty_capacity, pa_explanation = [], pa_links_examined = projr links_examined,
                 pa_evidence_required = (projr evidence_required \<noteq> 0)\<rparr>, projr spine_count), r14))"

definition decode_explanation :: "byte_reader \<Rightarrow> string list outcome \<times> byte_reader" where
  "decode_explanation r0 =
     (case br_u32 r0 of
        (Inl s, r1) \<Rightarrow> (Inl (truncated ''path assessment explanation list is incomplete''), r1)
      | (Inr n, r1) \<Rightarrow>
          if unat n > kMaxWireExplanations
          then (Inl (Status SC_Exhausted ''path assessment explanation count exceeds the accepted bound''), r1)
          else read_n ''path assessment explanation line is incomplete'' br_string (unat n) r1)"

definition decode_assessment :: "byte_reader \<Rightarrow> path_assessment outcome \<times> byte_reader" where
  "decode_assessment r0 =
     (case decode_assessment_head r0 of
        (Inl s, r1) \<Rightarrow> (Inl s, r1)
      | (Inr (a, spine_count), r1) \<Rightarrow>
     (case read_n ''path assessment spine list is incomplete'' br_u32 (unat spine_count) r1 of
        (Inl s, r2) \<Rightarrow> (Inl s, r2)
      | (Inr spines, r2) \<Rightarrow>
     (case read_ids ''path assessment domain list is incomplete'' ''path assessment domain list exceeds the accepted bound'' r2 of
        (Inl s, r3) \<Rightarrow> (Inl s, r3)
      | (Inr domains, r3) \<Rightarrow>
     (case decode_spine_sets r3 of
        (Inl s, r4) \<Rightarrow> (Inl s, r4)
      | (Inr sets, r4) \<Rightarrow>
     (case decode_capacity r4 of
        (Inl s, r5) \<Rightarrow> (Inl s, r5)
      | (Inr capacity, r5) \<Rightarrow>
     (case decode_explanation r5 of
        (Inl s, r6) \<Rightarrow> (Inl s, r6)
      | (Inr explanation, r6) \<Rightarrow>
          (Inr (a\<lparr>pa_eligible_spines := spines, pa_covered_domains := domains, pa_spine_sets := sets,
                 pa_capacity := capacity, pa_explanation := explanation\<rparr>), r6)))))))"

section \<open>Health reports\<close>

definition encode_health :: "fabric_health_report \<Rightarrow> put" where
  "encode_health h =
     chain ([bw_u8 (fabric_health_u8 (hr_health h)), bw_u16 (status_code_u16 (hr_code h)),
        bw_string (clamp_detail (hr_summary h) kMaxDetailBytes), bw_u32 (of_nat (length (hr_reasons h)))]
      @ map (\<lambda>reason. bw_string (clamp_detail reason 512)) (hr_reasons h)
      @ map bw_u32 [hr_leaves_total h, hr_leaves_serving h, hr_leaves_isolated h, hr_leaves_indeterminate h,
          hr_spines_total h, hr_spines_serving h, hr_spines_failed h, hr_spines_draining h, hr_disabled_link_count h]
      @ [bw_u64 (hr_generation h), bw_u64 (hr_epoch h), bw_u64 (inc_hi (hr_controller h)),
         bw_u64 (inc_lo (hr_controller h)), encode_digest (hr_topology_digest h)])"

definition decode_health :: "byte_reader \<Rightarrow> fabric_health_report outcome \<times> byte_reader" where
  "decode_health r0 =
     (let (health, r1) = br_u8 r0; (code, r2) = br_u16 r1; (summary, r3) = br_string r2; (reason_count, r4) = br_u32 r3
      in if \<not> outcome_ok health \<or> \<not> outcome_ok code \<or> \<not> outcome_ok summary \<or> \<not> outcome_ok reason_count
         then (Inl (truncated ''health report is incomplete''), r4)
         else if projr health > 5
         then (Inl (Status SC_Invalid ''health report carries an unknown classification''), r4)
         else if unat (projr reason_count) > kMaxWireReasons
         then (Inl (Status SC_Exhausted ''health report reason count exceeds the accepted bound''), r4)
         else (case read_n ''health report reason is incomplete'' br_string (unat (projr reason_count)) r4 of
           (Inl s, r5) \<Rightarrow> (Inl s, r5)
         | (Inr reasons, r5) \<Rightarrow>
             (case read_n ''health report counter is incomplete'' br_u32 9 r5 of
                (Inl s, r6) \<Rightarrow> (Inl s, r6)
              | (Inr counts, r6) \<Rightarrow>
                  let (gen, r7) = br_u64 r6; (ep, r8) = br_u64 r7; (hi, r9) = br_u64 r8; (lo, r10) = br_u64 r9;
                      (dg, r11) = decode_digest r10
                  in if \<not> outcome_ok gen \<or> \<not> outcome_ok ep \<or> \<not> outcome_ok hi \<or> \<not> outcome_ok lo \<or> \<not> outcome_ok dg
                     then (Inl (truncated ''health report coordinate is incomplete''), r11)
                     else (Inr \<lparr>hr_health = fabric_health_of_u8 (projr health), hr_code = status_code_cast (projr code),
                             hr_summary = projr summary, hr_reasons = reasons, hr_leaves_total = counts ! 0,
                             hr_leaves_serving = counts ! 1, hr_leaves_isolated = counts ! 2,
                             hr_leaves_indeterminate = counts ! 3, hr_spines_total = counts ! 4,
                             hr_spines_serving = counts ! 5, hr_spines_failed = counts ! 6,
                             hr_spines_draining = counts ! 7, hr_disabled_link_count = counts ! 8,
                             hr_generation = projr gen, hr_epoch = projr ep,
                             hr_controller = Incarnation (projr hi) (projr lo), hr_topology_digest = projr dg\<rparr>, r11))))"

section \<open>Runtime status\<close>

definition encode_status :: "runtime_status \<Rightarrow> put" where
  "encode_status s =
     chain ([bw_u8 (bool_u8 (st_started s)), bw_u64 (st_fabric_id s), bw_string (st_name s), bw_string (st_site s),
        bw_u8 (fabric_state_u8 (st_fabric_state s)), bw_u64 (inc_hi (st_controller s)), bw_u64 (inc_lo (st_controller s)),
        bw_u64 (st_epoch s), bw_u64 (st_generation s), encode_digest (st_topology_digest s),
        encode_digest (st_evidence_digest s), bw_u8 (fabric_health_u8 (st_health s))]
      @ map bw_u32 [st_leaf_count s, st_spine_count s, st_port_count s, st_link_count s, st_history_link_count s,
          st_evidence_count s]
      @ map bw_u64 [st_commands_applied s, st_commands_refused s, st_commands_fenced s, st_commands_duplicated s,
          st_queries_served s]
      @ [bw_u32 (st_worker_threads s), bw_u8 (bool_u8 (st_persistence_enabled s)), bw_u64 (st_active_lease s),
         bw_u64 (st_lease_expires_at_unix_ms s), bw_u64 (st_uptime_ms s), bw_u8 (fault_point_u8 (st_fault_point s)),
         bw_u16 (ucast (recovery_status_u8 (rpt_status (st_recovery s)))),
         bw_u16 (status_code_u16 (rpt_code (st_recovery s))),
         bw_string (clamp_detail (rpt_detail (st_recovery s)) kMaxDetailBytes),
         bw_u64 (rpt_records_valid (st_recovery s)), bw_u64 (rpt_bytes_dropped (st_recovery s)),
         bw_u8 (bool_u8 (rpt_snapshot_used (st_recovery s))),
         bw_u8 (bool_u8 (rpt_dynamic_evidence_recovered (st_recovery s))),
         bw_u8 (bool_u8 (rpt_requires_reobservation (st_recovery s)))])"

definition decode_status_trailer :: "runtime_status \<Rightarrow> byte_reader \<Rightarrow> runtime_status outcome \<times> byte_reader" where
  "decode_status_trailer s r0 =
     (let (workers, r1) = br_u32 r0; (persistence, r2) = br_u8 r1; (lease, r3) = br_u64 r2; (lease_expiry, r4) = br_u64 r3;
          (uptime, r5) = br_u64 r4; (fault, r6) = br_u8 r5; (recovery, r7) = br_u16 r6; (recovery_code, r8) = br_u16 r7;
          (recovery_detail, r9) = br_string r8; (records_valid, r10) = br_u64 r9; (bytes_dropped, r11) = br_u64 r10;
          (snapshot_used, r12) = br_u8 r11; (evidence_recovered, r13) = br_u8 r12; (needs_reobservation, r14) = br_u8 r13
      in if \<not> outcome_ok workers \<or> \<not> outcome_ok persistence \<or> \<not> outcome_ok lease \<or> \<not> outcome_ok lease_expiry
            \<or> \<not> outcome_ok uptime \<or> \<not> outcome_ok fault \<or> \<not> outcome_ok recovery \<or> \<not> outcome_ok recovery_code
            \<or> \<not> outcome_ok recovery_detail \<or> \<not> outcome_ok records_valid \<or> \<not> outcome_ok bytes_dropped
            \<or> \<not> outcome_ok snapshot_used \<or> \<not> outcome_ok evidence_recovered \<or> \<not> outcome_ok needs_reobservation
         then (Inl (truncated ''runtime status trailer is incomplete''), r14)
         else if projr fault > 3 \<or> projr recovery > 8
         then (Inl (Status SC_Invalid ''runtime status carries an unknown enumeration value''), r14)
         else (Inr (s\<lparr>st_worker_threads := projr workers, st_persistence_enabled := (projr persistence \<noteq> 0),
                 st_active_lease := projr lease, st_lease_expires_at_unix_ms := projr lease_expiry,
                 st_uptime_ms := projr uptime, st_fault_point := fault_point_of_u8 (projr fault),
                 st_recovery := (st_recovery s)\<lparr>rpt_status := recovery_status_of_u8 (projr recovery),
                   rpt_code := status_code_cast (projr recovery_code), rpt_detail := projr recovery_detail,
                   rpt_records_valid := projr records_valid, rpt_bytes_dropped := projr bytes_dropped,
                   rpt_snapshot_used := (projr snapshot_used \<noteq> 0),
                   rpt_dynamic_evidence_recovered := (projr evidence_recovered \<noteq> 0),
                   rpt_requires_reobservation := (projr needs_reobservation \<noteq> 0)\<rparr>\<rparr>), r14))"

text \<open>\<open>RuntimeStatus\<close> as it is default constructed.\<close>

definition blank_status :: runtime_status where
  "blank_status = \<lparr>st_started = False, st_fabric_id = 0, st_name = [], st_site = [], st_fabric_state = FS_Unformed,
     st_controller = Incarnation 0 0, st_epoch = 0, st_generation = 0, st_topology_digest = zero_digest,
     st_evidence_digest = zero_digest, st_health = FH_Unformed, st_leaf_count = 0, st_spine_count = 0, st_port_count = 0,
     st_link_count = 0, st_history_link_count = 0, st_evidence_count = 0, st_commands_applied = 0,
     st_commands_refused = 0, st_commands_fenced = 0, st_commands_duplicated = 0, st_queries_served = 0,
     st_worker_threads = 0, st_persistence_enabled = False, st_recovery = empty_recovery, st_active_lease = 0,
     st_lease_expires_at_unix_ms = 0, st_uptime_ms = 0, st_fault_point = FP_None\<rparr>"

definition decode_status_head :: "byte_reader \<Rightarrow> runtime_status outcome \<times> byte_reader" where
  "decode_status_head r0 =
     (let (started, r1) = br_u8 r0; (fabric_id, r2) = br_u64 r1; (name, r3) = br_string r2; (site, r4) = br_string r3;
          (state, r5) = br_u8 r4; (hi, r6) = br_u64 r5; (lo, r7) = br_u64 r6; (ep, r8) = br_u64 r7; (gen, r9) = br_u64 r8;
          (topology_digest, r10) = decode_digest r9; (evidence_digest, r11) = decode_digest r10; (health, r12) = br_u8 r11
      in if \<not> outcome_ok started \<or> \<not> outcome_ok fabric_id \<or> \<not> outcome_ok name \<or> \<not> outcome_ok site
            \<or> \<not> outcome_ok state \<or> \<not> outcome_ok hi \<or> \<not> outcome_ok lo \<or> \<not> outcome_ok ep \<or> \<not> outcome_ok gen
            \<or> \<not> outcome_ok topology_digest \<or> \<not> outcome_ok evidence_digest \<or> \<not> outcome_ok health
         then (Inl (truncated ''runtime status is incomplete''), r12)
         else if projr state > 4 \<or> projr health > 5
         then (Inl (Status SC_Invalid ''runtime status carries an unknown enumeration value''), r12)
         else (Inr (blank_status\<lparr>st_started := (projr started \<noteq> 0), st_fabric_id := projr fabric_id,
                 st_name := projr name, st_site := projr site, st_fabric_state := fabric_state_of_u8 (projr state),
                 st_controller := Incarnation (projr hi) (projr lo), st_epoch := projr ep, st_generation := projr gen,
                 st_topology_digest := projr topology_digest, st_evidence_digest := projr evidence_digest,
                 st_health := fabric_health_of_u8 (projr health)\<rparr>), r12))"

definition with_counts :: "u32 list \<Rightarrow> u64 list \<Rightarrow> runtime_status \<Rightarrow> runtime_status" where
  "with_counts counts counters s =
     s\<lparr>st_leaf_count := counts ! 0, st_spine_count := counts ! 1, st_port_count := counts ! 2, st_link_count := counts ! 3,
       st_history_link_count := counts ! 4, st_evidence_count := counts ! 5, st_commands_applied := counters ! 0,
       st_commands_refused := counters ! 1, st_commands_fenced := counters ! 2, st_commands_duplicated := counters ! 3,
       st_queries_served := counters ! 4\<rparr>"

definition decode_status :: "byte_reader \<Rightarrow> runtime_status outcome \<times> byte_reader" where
  "decode_status r0 =
     (case decode_status_head r0 of
        (Inl s, r1) \<Rightarrow> (Inl s, r1)
      | (Inr status, r1) \<Rightarrow>
     (case read_n ''runtime status counter is incomplete'' br_u32 6 r1 of
        (Inl s, r2) \<Rightarrow> (Inl s, r2)
      | (Inr counts, r2) \<Rightarrow>
     (case read_n ''runtime status counter is incomplete'' br_u64 5 r2 of
        (Inl s, r3) \<Rightarrow> (Inl s, r3)
      | (Inr counters, r3) \<Rightarrow> decode_status_trailer (with_counts counts counters status) r3)))"

section \<open>Tokens and command results\<close>

definition encode_token :: "authority_token \<Rightarrow> put" where
  "encode_token t =
     chain [bw_u64 (inc_hi (tk_controller t)), bw_u64 (inc_lo (tk_controller t)), bw_u64 (tk_epoch t),
       bw_u64 (tk_generation t), bw_u64 (tk_lease t), encode_digest (tk_topology_digest t),
       bw_u64 (tk_issued_at_unix_ms t), bw_u64 (tk_expires_at_unix_ms t)]"

definition decode_token :: "byte_reader \<Rightarrow> authority_token outcome \<times> byte_reader" where
  "decode_token r0 =
     (let (hi, r1) = br_u64 r0; (lo, r2) = br_u64 r1; (ep, r3) = br_u64 r2; (gen, r4) = br_u64 r3; (lease, r5) = br_u64 r4;
          (dg, r6) = decode_digest r5; (issued, r7) = br_u64 r6; (expires, r8) = br_u64 r7
      in if \<not> outcome_ok hi \<or> \<not> outcome_ok lo \<or> \<not> outcome_ok ep \<or> \<not> outcome_ok gen \<or> \<not> outcome_ok lease
            \<or> \<not> outcome_ok dg \<or> \<not> outcome_ok issued \<or> \<not> outcome_ok expires
         then (Inl (truncated ''authority token is incomplete''), r8)
         else (Inr \<lparr>tk_controller = Incarnation (projr hi) (projr lo), tk_epoch = projr ep, tk_generation = projr gen,
                 tk_lease = projr lease, tk_topology_digest = projr dg, tk_issued_at_unix_ms = projr issued,
                 tk_expires_at_unix_ms = projr expires\<rparr>, r8))"

definition encode_command_result :: "command_result \<Rightarrow> put" where
  "encode_command_result r =
     chain [bw_u16 (cr_code r), bw_string (clamp_detail (cr_detail r) kMaxDetailBytes), bw_u64 (cr_request_id r),
       bw_u64 (cr_generation r), bw_u64 (cr_epoch r), encode_digest (cr_topology_digest r),
       bw_u8 (bool_u8 (cr_deduplicated r)), bw_u8 (bool_u8 (cr_mutated r)), encode_token (cr_refreshed_token r)]"

definition decode_command_result :: "byte_reader \<Rightarrow> command_result outcome \<times> byte_reader" where
  "decode_command_result r0 =
     (let (code, r1) = br_u16 r0; (detail, r2) = br_string r1; (request, r3) = br_u64 r2; (gen, r4) = br_u64 r3;
          (ep, r5) = br_u64 r4; (dg, r6) = decode_digest r5; (dedup, r7) = br_u8 r6; (mutd, r8) = br_u8 r7;
          (token, r9) = decode_token r8
      in if \<not> outcome_ok code \<or> \<not> outcome_ok detail \<or> \<not> outcome_ok request \<or> \<not> outcome_ok gen \<or> \<not> outcome_ok ep
            \<or> \<not> outcome_ok dg \<or> \<not> outcome_ok dedup \<or> \<not> outcome_ok mutd \<or> \<not> outcome_ok token
         then (Inl (truncated ''command result is incomplete''), r9)
         else (Inr \<lparr>cr_code = projr code, cr_detail = projr detail, cr_request_id = projr request,
                 cr_generation = projr gen, cr_epoch = projr ep, cr_topology_digest = projr dg,
                 cr_deduplicated = (projr dedup \<noteq> 0), cr_mutated = (projr mutd \<noteq> 0),
                 cr_refreshed_token = projr token\<rparr>, r9))"

end
