(* ===== verification/SLF_Service.thy ===== *)
theory SLF_Service
  imports SLF_Wire
begin

text \<open>
  The request protocol (\<open>src/service.cpp\<close>): requests and responses with their encodings, the
  translation of a request into a call of the runtime, the framed server and the client.

  A response keeps the value of its status code as it travels, a 16-bit number. \<open>handle\<close> gives no
  response when the call it makes ends the process at a fault point. The server's handler is an
  argument, as in the source; what one worker does with one frame is one step of the server, and the
  workers' steps interleave. A loop that reads the flag \<open>running\<close> takes the values it reads as an
  argument.
\<close>

section \<open>Requests\<close>

definition kRequestDomain :: string where
  "kRequestDomain = ''slf.request.v1''"

definition kResponseDomain :: string where
  "kResponseDomain = ''slf.response.v1''"

datatype request_kind = RK_Hello | RK_Status | RK_Paths | RK_EligibleSpines | RK_Health | RK_Command | RK_AuthorizePath
  | RK_ValidateAuthority | RK_Compact | RK_Lease | RK_Ping | RK_Bye

fun request_kind_u16 :: "request_kind \<Rightarrow> u16" where
  "request_kind_u16 RK_Hello = 1"
| "request_kind_u16 RK_Status = 2"
| "request_kind_u16 RK_Paths = 3"
| "request_kind_u16 RK_EligibleSpines = 4"
| "request_kind_u16 RK_Health = 5"
| "request_kind_u16 RK_Command = 6"
| "request_kind_u16 RK_AuthorizePath = 7"
| "request_kind_u16 RK_ValidateAuthority = 8"
| "request_kind_u16 RK_Compact = 9"
| "request_kind_u16 RK_Lease = 10"
| "request_kind_u16 RK_Ping = 11"
| "request_kind_u16 RK_Bye = 12"

definition request_kind_of_u16 :: "u16 \<Rightarrow> request_kind" where
  "request_kind_of_u16 v =
     (if v = 1 then RK_Hello else if v = 2 then RK_Status else if v = 3 then RK_Paths else if v = 4 then RK_EligibleSpines
      else if v = 5 then RK_Health else if v = 6 then RK_Command else if v = 7 then RK_AuthorizePath
      else if v = 8 then RK_ValidateAuthority else if v = 9 then RK_Compact else if v = 10 then RK_Lease
      else if v = 11 then RK_Ping else RK_Bye)"

fun request_kind_string :: "request_kind \<Rightarrow> string" where
  "request_kind_string RK_Hello = ''hello''"
| "request_kind_string RK_Status = ''status''"
| "request_kind_string RK_Paths = ''paths''"
| "request_kind_string RK_EligibleSpines = ''eligible_spines''"
| "request_kind_string RK_Health = ''health''"
| "request_kind_string RK_Command = ''command''"
| "request_kind_string RK_AuthorizePath = ''authorize_path''"
| "request_kind_string RK_ValidateAuthority = ''validate_authority''"
| "request_kind_string RK_Compact = ''compact''"
| "request_kind_string RK_Lease = ''lease''"
| "request_kind_string RK_Ping = ''ping''"
| "request_kind_string RK_Bye = ''bye''"

definition parse_request_kind :: "string \<Rightarrow> request_kind option" where
  "parse_request_kind t =
     (if t = ''hello'' then Some RK_Hello else if t = ''status'' then Some RK_Status
      else if t = ''paths'' then Some RK_Paths else if t = ''eligible_spines'' then Some RK_EligibleSpines
      else if t = ''health'' then Some RK_Health else if t = ''command'' then Some RK_Command
      else if t = ''authorize_path'' then Some RK_AuthorizePath
      else if t = ''validate_authority'' then Some RK_ValidateAuthority
      else if t = ''compact'' then Some RK_Compact else if t = ''lease'' then Some RK_Lease
      else if t = ''ping'' then Some RK_Ping else if t = ''bye'' then Some RK_Bye else None)"

record request =
  rq_request_id :: request_id
  rq_kind :: request_kind
  rq_protocol_version :: u16
  rq_client_name :: string
  rq_from :: node_key
  rq_to :: node_key
  rq_constraints :: path_constraints
  rq_command :: command
  rq_authority :: path_authority
  rq_token :: authority_token
  rq_ttl_ms :: u64

definition blank_command :: command where
  "blank_command = \<lparr>cm_request_id = 0, cm_token = blank_token, cm_expected_generation = 0, cm_expected_epoch = 0,
     cm_kind = CK_SetFabricState, cm_fabric_state = FS_Operational, cm_node = NodeKey Leaf 0, cm_node_state = NS_Active,
     cm_port = 0, cm_port_admin = PA_Enabled, cm_link = 0, cm_link_admin = LA_Enabled,
     cm_new_link = \<lparr>wl_id = 0, wl_a_tier = 0, wl_a_index = 0, wl_port_a = 0, wl_b_tier = 0, wl_b_index = 0, wl_port_b = 0,
       wl_cls = LC_LeafSpine, wl_admin = 0, wl_declared_speed_mbps = 0, wl_generation = 0\<rparr>,
     cm_evidence = \<lparr>ev_link = 0, ev_observed = LO_Unknown, ev_generation = 0, ev_observer = Incarnation 0 0, ev_epoch = 0,
       ev_observed_seq = 0, ev_observed_at_unix_ms = 0\<rparr>, cm_options = default_fabric_options\<rparr>"

definition blank_authority :: path_authority where
  "blank_authority = \<lparr>au_controller = Incarnation 0 0, au_epoch = 0, au_generation = 0, au_topology_digest = zero_digest,
     au_lease = 0, au_from = NodeKey Leaf 0, au_to = NodeKey Leaf 0, au_cls = RC_Unreachable, au_verdict = EV_Ineligible,
     au_spines = [], au_issued_at_unix_ms = 0, au_expires_at_unix_ms = 0, au_authority_digest = zero_digest\<rparr>"

definition default_request :: request where
  "default_request = \<lparr>rq_request_id = 0, rq_kind = RK_Ping, rq_protocol_version = kProtocolVersion, rq_client_name = [],
     rq_from = NodeKey Leaf 0, rq_to = NodeKey Leaf 0, rq_constraints = default_path_constraints,
     rq_command = blank_command, rq_authority = blank_authority, rq_token = blank_token, rq_ttl_ms = 0\<rparr>"

definition encode_request :: "request \<Rightarrow> bytes" where
  "encode_request q =
     bw_buffer (puts [bw_string kRequestDomain, bw_u64 (rq_request_id q), bw_u16 (request_kind_u16 (rq_kind q)),
       bw_u16 (rq_protocol_version q), bw_string (clamp_detail (rq_client_name q) kMaxNameBytes),
       encode_node (rq_from q), encode_node (rq_to q), encode_constraints (rq_constraints q),
       bw_block (serialize_command (rq_command q)), bw_block (serialize_path_authority (rq_authority q)),
       encode_token (rq_token q), bw_u64 (rq_ttl_ms q)] (new_writer kMaxBlockBytes))"

definition decode_request :: "bytes \<Rightarrow> transport_limits \<Rightarrow> request outcome" where
  "decode_request payload limits =
     (let (tag, r1) = br_string (new_reader payload kMaxDetailBytes); (request_id, r2) = br_u64 r1; (kind, r3) = br_u16 r2;
          (version, r4) = br_u16 r3; (client_name, r5) = br_string r4; (fro, r6) = decode_node r5; (to, r7) = decode_node r6;
          (constraints, r8) = decode_constraints r7;
          (command_bytes, r9) = br_block (unat (tl_max_frame_payload limits)) r8;
          (authority_bytes, r10) = br_block (unat (tl_max_frame_payload limits)) r9;
          (token, r11) = decode_token r10; (ttl, r12) = br_u64 r11
      in if \<not> outcome_ok tag \<or> \<not> outcome_ok request_id \<or> \<not> outcome_ok kind \<or> \<not> outcome_ok version
            \<or> \<not> outcome_ok client_name \<or> \<not> outcome_ok fro \<or> \<not> outcome_ok to \<or> \<not> outcome_ok constraints
            \<or> \<not> outcome_ok command_bytes \<or> \<not> outcome_ok authority_bytes \<or> \<not> outcome_ok token \<or> \<not> outcome_ok ttl
         then Inl (truncated ''request payload is incomplete'')
         else if projr tag \<noteq> kRequestDomain
         then Inl (Status SC_Invalid ''request payload has an unexpected domain tag'')
         else if projr kind < request_kind_u16 RK_Hello \<or> projr kind > request_kind_u16 RK_Bye
         then Inl (Status SC_Invalid ''request carries an unknown request kind'')
         else if \<not> status_ok (br_expect_end r12) then Inl (br_expect_end r12)
         else (case deserialize_command (projr command_bytes) of
                 Inl s \<Rightarrow> Inl s
               | Inr cmd \<Rightarrow>
                   (case deserialize_path_authority (projr authority_bytes) of
                      Inl s \<Rightarrow> Inl s
                    | Inr authority \<Rightarrow>
                        Inr \<lparr>rq_request_id = projr request_id, rq_kind = request_kind_of_u16 (projr kind),
                             rq_protocol_version = projr version, rq_client_name = projr client_name,
                             rq_from = projr fro, rq_to = projr to, rq_constraints = projr constraints,
                             rq_command = cmd, rq_authority = authority, rq_token = projr token,
                             rq_ttl_ms = projr ttl\<rparr>)))"

section \<open>Responses\<close>

record response =
  rs_request_id :: request_id
  rs_code :: u16
  rs_detail :: string
  rs_protocol_version :: u16
  rs_controller :: controller_incarnation
  rs_epoch :: epoch
  rs_generation :: topology_generation
  rs_topology_digest :: digest
  rs_max_frame_payload :: u32
  rs_server_name :: string
  rs_server_uptime_ms :: u64
  rs_status :: runtime_status
  rs_assessment :: path_assessment
  rs_spines :: "spine_eligibility list"
  rs_health :: fabric_health_report
  rs_command_result :: command_result
  rs_path_authority :: path_authority
  rs_authority_check :: authority_check
  rs_lease_token :: authority_token
  rs_lease_requester :: string

definition blank_assessment :: path_assessment where
  "blank_assessment = \<lparr>pa_from = NodeKey Leaf 0, pa_to = NodeKey Leaf 0, pa_cls = RC_Unreachable,
     pa_verdict = EV_Ineligible, pa_code = SC_Ok, pa_generation = 0, pa_epoch = 0, pa_controller = Incarnation 0 0,
     pa_topology_digest = zero_digest, pa_eligible_spines = [], pa_covered_domains = [], pa_max_domain_loss_tolerance = 0,
     pa_spine_sets = empty_spine_sets, pa_capacity = empty_capacity, pa_explanation = [], pa_links_examined = 0,
     pa_evidence_required = False\<rparr>"

definition blank_health :: fabric_health_report where
  "blank_health = \<lparr>hr_health = FH_Unformed, hr_code = SC_Ok, hr_summary = [], hr_reasons = [], hr_leaves_total = 0,
     hr_leaves_serving = 0, hr_leaves_isolated = 0, hr_leaves_indeterminate = 0, hr_spines_total = 0,
     hr_spines_serving = 0, hr_spines_failed = 0, hr_spines_draining = 0, hr_disabled_link_count = 0, hr_generation = 0,
     hr_epoch = 0, hr_controller = Incarnation 0 0, hr_topology_digest = zero_digest\<rparr>"

definition default_response :: response where
  "default_response = \<lparr>rs_request_id = 0, rs_code = status_code_u16 SC_Ok, rs_detail = [],
     rs_protocol_version = kProtocolVersion, rs_controller = Incarnation 0 0, rs_epoch = 0, rs_generation = 0,
     rs_topology_digest = zero_digest, rs_max_frame_payload = 0, rs_server_name = [], rs_server_uptime_ms = 0,
     rs_status = blank_status, rs_assessment = blank_assessment, rs_spines = [], rs_health = blank_health,
     rs_command_result = blank_result, rs_path_authority = blank_authority,
     rs_authority_check = \<lparr>ck_code = SC_Ok, ck_detail = []\<rparr>, rs_lease_token = blank_token, rs_lease_requester = []\<rparr>"

definition encode_response :: "response \<Rightarrow> bytes" where
  "encode_response p =
     bw_buffer (puts ([bw_string kResponseDomain, bw_u64 (rs_request_id p), bw_u16 (rs_code p),
         bw_string (clamp_detail (rs_detail p) kMaxDetailBytes), bw_u16 (rs_protocol_version p),
         bw_u64 (inc_hi (rs_controller p)), bw_u64 (inc_lo (rs_controller p)), bw_u64 (rs_epoch p),
         bw_u64 (rs_generation p), encode_digest (rs_topology_digest p), bw_u32 (rs_max_frame_payload p),
         bw_string (clamp_detail (rs_server_name p) kMaxNameBytes), bw_u64 (rs_server_uptime_ms p),
         encode_status (rs_status p), encode_assessment (rs_assessment p), bw_u32 (of_nat (length (rs_spines p)))]
       @ map encode_spine_eligibility (rs_spines p)
       @ [encode_health (rs_health p), encode_command_result (rs_command_result p),
          bw_block (serialize_path_authority (rs_path_authority p)),
          bw_u16 (status_code_u16 (ck_code (rs_authority_check p))),
          bw_string (clamp_detail (ck_detail (rs_authority_check p)) kMaxDetailBytes), encode_token (rs_lease_token p),
          bw_string (clamp_detail (rs_lease_requester p) kMaxNameBytes)]) (new_writer kMaxBlockBytes))"

text \<open>The fields of a response up to its runtime status.\<close>

definition decode_response_head :: "byte_reader \<Rightarrow> response outcome \<times> byte_reader" where
  "decode_response_head r0 =
     (let (tag, r1) = br_string r0; (request_id, r2) = br_u64 r1; (code, r3) = br_u16 r2; (detail, r4) = br_string r3;
          (version, r5) = br_u16 r4; (hi, r6) = br_u64 r5; (lo, r7) = br_u64 r6; (ep, r8) = br_u64 r7; (gen, r9) = br_u64 r8;
          (dg, r10) = decode_digest r9; (max_payload, r11) = br_u32 r10; (server_name, r12) = br_string r11;
          (uptime, r13) = br_u64 r12
      in if \<not> outcome_ok tag \<or> \<not> outcome_ok request_id \<or> \<not> outcome_ok code \<or> \<not> outcome_ok detail
            \<or> \<not> outcome_ok version \<or> \<not> outcome_ok hi \<or> \<not> outcome_ok lo \<or> \<not> outcome_ok ep \<or> \<not> outcome_ok gen
            \<or> \<not> outcome_ok dg \<or> \<not> outcome_ok max_payload \<or> \<not> outcome_ok server_name \<or> \<not> outcome_ok uptime
         then (Inl (truncated ''response header is incomplete''), r13)
         else if projr tag \<noteq> kResponseDomain
         then (Inl (Status SC_Invalid ''response payload has an unexpected domain tag''), r13)
         else (Inr (default_response\<lparr>rs_request_id := projr request_id, rs_code := projr code, rs_detail := projr detail,
                 rs_protocol_version := projr version, rs_controller := Incarnation (projr hi) (projr lo),
                 rs_epoch := projr ep, rs_generation := projr gen, rs_topology_digest := projr dg,
                 rs_max_frame_payload := projr max_payload, rs_server_name := projr server_name,
                 rs_server_uptime_ms := projr uptime\<rparr>), r13))"

definition decode_spine_list :: "byte_reader \<Rightarrow> spine_eligibility list outcome \<times> byte_reader" where
  "decode_spine_list r0 =
     (case br_u32 r0 of
        (Inl s, r1) \<Rightarrow> (Inl (truncated ''response spine list is incomplete''), r1)
      | (Inr n, r1) \<Rightarrow>
          if unat n > kMaxWireSpines
          then (Inl (Status SC_Exhausted ''response spine list exceeds the accepted bound''), r1)
          else decode_n decode_spine_eligibility (unat n) r1)"

definition decode_response_tail :: "response \<Rightarrow> byte_reader \<Rightarrow> response outcome" where
  "decode_response_tail p r0 =
     (let (check_code, r1) = br_u16 r0; (check_detail, r2) = br_string r1; (lease_token, r3) = decode_token r2;
          (lease_requester, r4) = br_string r3
      in if \<not> outcome_ok check_code \<or> \<not> outcome_ok check_detail \<or> \<not> outcome_ok lease_token \<or> \<not> outcome_ok lease_requester
         then Inl (truncated ''response authority check is incomplete'')
         else if \<not> status_ok (br_expect_end r4) then Inl (br_expect_end r4)
         else Inr (p\<lparr>rs_authority_check := \<lparr>ck_code = status_code_cast (projr check_code), ck_detail = projr check_detail\<rparr>,
                rs_lease_token := projr lease_token, rs_lease_requester := projr lease_requester\<rparr>))"

definition decode_response :: "bytes \<Rightarrow> transport_limits \<Rightarrow> response outcome" where
  "decode_response payload limits =
     (case decode_response_head (new_reader payload kMaxDetailBytes) of
        (Inl s, r1) \<Rightarrow> Inl s
      | (Inr p, r1) \<Rightarrow>
     (case decode_status r1 of
        (Inl s, r2) \<Rightarrow> Inl s
      | (Inr status, r2) \<Rightarrow>
     (case decode_assessment r2 of
        (Inl s, r3) \<Rightarrow> Inl s
      | (Inr assessment, r3) \<Rightarrow>
     (case decode_spine_list r3 of
        (Inl s, r4) \<Rightarrow> Inl s
      | (Inr spines, r4) \<Rightarrow>
     (case decode_health r4 of
        (Inl s, r5) \<Rightarrow> Inl s
      | (Inr hlth, r5) \<Rightarrow>
     (case decode_command_result r5 of
        (Inl s, r6) \<Rightarrow> Inl s
      | (Inr result, r6) \<Rightarrow>
     (case br_block (unat (tl_max_frame_payload limits)) r6 of
        (Inl s, r7) \<Rightarrow> Inl s
      | (Inr authority_bytes, r7) \<Rightarrow>
     (case deserialize_path_authority authority_bytes of
        Inl s \<Rightarrow> Inl s
      | Inr authority \<Rightarrow>
          decode_response_tail (p\<lparr>rs_status := status, rs_assessment := assessment, rs_spines := spines,
              rs_health := hlth, rs_command_result := result, rs_path_authority := authority\<rparr>) r7))))))))"

section \<open>The service over the runtime\<close>

text \<open>What the machine answers during one request: the two clocks and the disk.\<close>

record service_env =
  se_unix_ms :: u64
  se_monotonic_ms :: u64
  se_journal_io :: write_io
  se_snapshot_io :: snapshot_io

definition answer :: "status_code \<Rightarrow> string \<Rightarrow> response \<Rightarrow> response" where
  "answer code detail p = p\<lparr>rs_code := status_code_u16 code, rs_detail := detail\<rparr>"

definition response_for :: "request \<Rightarrow> runtime_status \<Rightarrow> response" where
  "response_for q status =
     default_response\<lparr>rs_request_id := rq_request_id q, rs_protocol_version := kProtocolVersion,
       rs_max_frame_payload := 4 * 1024 * 1024, rs_server_name := ''slf-controller'', rs_controller := st_controller status,
       rs_epoch := st_epoch status, rs_generation := st_generation status, rs_topology_digest := st_topology_digest status,
       rs_status := status, rs_server_uptime_ms := st_uptime_ms status\<rparr>"

definition spines_detail :: "node_key \<Rightarrow> spine_eligibility list \<Rightarrow> string" where
  "spines_detail leaf spines =
     ''eligible spines for '' @ node_key_string leaf @ '': ''
       @ u_string (of_nat (length (filter (\<lambda>e. se_verdict e = EV_Eligible) spines)) :: u32)
       @ '' of '' @ dec_string (length spines)"

definition handle :: "service_env \<Rightarrow> request \<Rightarrow> runtime \<Rightarrow> response option \<times> runtime" where
  "handle env q rt =
     (let p = response_for q (runtime_status_of (se_monotonic_ms env) rt);
          failed = (\<lambda>s rt. (Some (answer (st_code s) (st_detail s) p), rt))
      in case rq_kind q of
        RK_Hello \<Rightarrow> (Some (answer SC_Ok ''hello accepted'' p), rt)
      | RK_Ping \<Rightarrow> (Some (answer SC_Ok ''pong'' p), rt)
      | RK_Status \<Rightarrow> (Some (p\<lparr>rs_code := status_code_u16 SC_Ok\<rparr>), rt)
      | RK_Paths \<Rightarrow>
          (case assess_paths (rq_from q) (rq_to q) (rq_constraints q) idle_token rt of
             (Inl s, rt) \<Rightarrow> failed s rt
           | (Inr a, rt) \<Rightarrow> (Some (answer (pa_code a) (assessment_summary a) (p\<lparr>rs_assessment := a\<rparr>)), rt))
      | RK_EligibleSpines \<Rightarrow>
          (case eligible_spines (rq_from q) (rq_constraints q) idle_token rt of
             (Inl s, rt) \<Rightarrow> failed s rt
           | (Inr spines, rt) \<Rightarrow>
               (Some (answer SC_Ok (spines_detail (rq_from q) spines) (p\<lparr>rs_spines := spines\<rparr>)), rt))
      | RK_Health \<Rightarrow>
          (case runtime_health (rq_constraints q) rt of
             (Inl s, rt) \<Rightarrow> failed s rt
           | (Inr h, rt) \<Rightarrow> (Some (answer (hr_code h) (hr_summary h) (p\<lparr>rs_health := h\<rparr>)), rt))
      | RK_Command \<Rightarrow>
          (case apply_locked (rq_command q) (se_unix_ms env) (se_journal_io env) rt of
             (None, rt) \<Rightarrow> (None, rt)
           | (Some r, rt) \<Rightarrow>
               (Some (p\<lparr>rs_command_result := r, rs_code := cr_code r, rs_detail := cr_detail r,
                        rs_generation := cr_generation r, rs_topology_digest := cr_topology_digest r\<rparr>), rt))
      | RK_AuthorizePath \<Rightarrow>
          (case authorize_path (rq_from q) (rq_to q) (rq_constraints q) (rq_ttl_ms q) (se_unix_ms env) rt of
             (Inl s, rt) \<Rightarrow> failed s rt
           | (Inr au, rt) \<Rightarrow> (Some (answer SC_Ok ''path authority minted'' (p\<lparr>rs_path_authority := au\<rparr>)), rt))
      | RK_ValidateAuthority \<Rightarrow>
          (let chk = validate_path_authority_ref (rq_authority q) (se_unix_ms env) rt
           in (Some (answer (ck_code chk) (ck_detail chk) (p\<lparr>rs_authority_check := chk\<rparr>)), rt))
      | RK_Lease \<Rightarrow>
          (case acquire_authority ''protocol-client'' (rq_ttl_ms q) (se_unix_ms env) (se_journal_io env) rt of
             (Inl s, rt) \<Rightarrow> failed s rt
           | (Inr l, rt) \<Rightarrow>
               (Some (answer SC_Ok ''lease minted''
                        (p\<lparr>rs_lease_token := al_token l, rs_lease_requester := al_requester l\<rparr>)), rt))
      | RK_Compact \<Rightarrow>
          (case compact (se_snapshot_io env) rt of
             (st, rt) \<Rightarrow>
               (Some (answer (st_code st) (if status_ok st then ''snapshot written'' else st_detail st) p), rt))
      | RK_Bye \<Rightarrow> (Some (answer SC_Ok ''bye'' p), rt))"

section \<open>The server\<close>

record server_stats =
  ss_accepted_connections :: u64
  ss_rejected_connections :: u64
  ss_frames_read :: u64
  ss_frames_written :: u64
  ss_protocol_errors :: u64
  ss_handler_errors :: u64
  ss_bytes_in :: u64
  ss_bytes_out :: u64
  ss_active_connections :: u32

definition no_stats :: server_stats where
  "no_stats = \<lparr>ss_accepted_connections = 0, ss_rejected_connections = 0, ss_frames_read = 0, ss_frames_written = 0,
     ss_protocol_errors = 0, ss_handler_errors = 0, ss_bytes_in = 0, ss_bytes_out = 0, ss_active_connections = 0\<rparr>"

record server_config =
  sc_endpoint :: endpoint
  sc_limits :: transport_limits
  sc_server_name :: string
  sc_trace :: bool

text \<open>A \<open>RequestHandler\<close> with state \<open>'h\<close>; without a response the call does not return.\<close>

type_synonym 'h handler = "request \<Rightarrow> 'h \<Rightarrow> response option \<times> 'h"

text \<open>\<open>RuntimeService\<close> as a handler: the \<open>n\<close>-th request it serves meets the machine \<open>envs n\<close>.\<close>

definition runtime_handler :: "(nat \<Rightarrow> service_env) \<Rightarrow> (nat \<times> runtime) handler" where
  "runtime_handler envs q h =
     (case h of (n, rt) \<Rightarrow> case handle (envs n) q rt of (p, rt) \<Rightarrow> (p, (Suc n, rt)))"

text \<open>What is sent back when a frame could not be read; \<open>header\<close> was not stored then.\<close>

definition error_response :: "request_id \<Rightarrow> status \<Rightarrow> response" where
  "error_response request_id s =
     default_response\<lparr>rs_request_id := request_id, rs_code := status_code_u16 (st_code s), rs_detail := st_detail s\<rparr>"

definition reply_header :: "request_kind \<Rightarrow> request_id \<Rightarrow> frame_header" where
  "reply_header kind request_id =
     default_frame_header\<lparr>fh_type := request_kind_u16 kind, fh_flags := kFlagReply, fh_request_id := request_id\<rparr>"

definition protocol_error :: "server_stats \<Rightarrow> server_stats" where
  "protocol_error st = st\<lparr>ss_protocol_errors := ss_protocol_errors st + 1\<rparr>"

text \<open>The branch of the frame loop on a failed read; the loop ends after it.\<close>

definition frame_rejected :: "transport_limits \<Rightarrow> status \<Rightarrow> connection \<Rightarrow> server_stats \<Rightarrow> connection \<times> server_stats" where
  "frame_rejected limits s c st =
     (if st_code s = SC_IncompatibleVersion \<or> st_code s = SC_Corrupt \<or> st_code s = SC_IntegrityError
      then (let header = default_frame_header;
                encoded = encode_response (error_response (fh_request_id header) s)
            in (snd (write_frame (reply_header RK_Bye (fh_request_id header)) encoded limits c), protocol_error st))
      else (c, st))"

text \<open>The answer to a frame that was read: a refusal of the server's own, or the handler's response.\<close>

definition answer_request ::
    "'h handler \<Rightarrow> request outcome \<Rightarrow> frame_header \<Rightarrow> server_stats \<Rightarrow> 'h \<Rightarrow> response option \<times> server_stats \<times> 'h" where
  "answer_request handler decoded header st h =
     (case decoded of
        Inl s \<Rightarrow> (Some (error_response (fh_request_id header) s), protocol_error st, h)
      | Inr q \<Rightarrow>
          if rq_protocol_version q \<noteq> kProtocolVersion
          then (Some (error_response (rq_request_id q)
                  (Status SC_IncompatibleVersion ''client protocol version is not supported'')), protocol_error st, h)
          else (case handler q h of (p, h) \<Rightarrow> (p, st, h)))"

text \<open>The reply to it; the first component says whether the loop goes on.\<close>

definition send_reply ::
    "transport_limits \<Rightarrow> request outcome \<Rightarrow> response \<Rightarrow> connection \<Rightarrow> server_stats \<Rightarrow> bool \<times> connection \<times> server_stats" where
  "send_reply limits decoded p c st =
     (let encoded = encode_response p;
          kind = (case decoded of Inl _ \<Rightarrow> RK_Bye | Inr q \<Rightarrow> rq_kind q)
      in case write_frame (reply_header kind (rs_request_id p)) encoded limits c of (written, c) \<Rightarrow>
         (status_ok written \<and> \<not> (outcome_ok decoded \<and> kind = RK_Bye), c,
          if status_ok written
          then st\<lparr>ss_frames_written := ss_frames_written st + 1,
                  ss_bytes_out := ss_bytes_out st + of_nat (length encoded + kFrameHeaderBytes)\<rparr>
          else protocol_error st))"

text \<open>
  One pass of the frame loop: whether the loop goes on, the connection, the counters and the handler's
  state. No result: the read or the handler does not return.
\<close>

definition serve_frame ::
    "transport_limits \<Rightarrow> 'h handler \<Rightarrow> connection \<Rightarrow> server_stats \<Rightarrow> 'h \<Rightarrow> (bool \<times> connection \<times> server_stats \<times> 'h) option" where
  "serve_frame limits handler c st h =
     (case read_frame limits c of
        None \<Rightarrow> None
      | Some (Inl s, c) \<Rightarrow> (case frame_rejected limits s c st of (c, st) \<Rightarrow> Some (False, c, st, h))
      | Some (Inr (payload, header), c) \<Rightarrow>
          (let st = st\<lparr>ss_frames_read := ss_frames_read st + 1,
                       ss_bytes_in := ss_bytes_in st + of_nat (length payload + kFrameHeaderBytes)\<rparr>;
               decoded = decode_request payload limits
           in case answer_request handler decoded header st h of
                (None, _) \<Rightarrow> None
              | (Some p, st, h) \<Rightarrow>
                  (case send_reply limits decoded p c st of (goes_on, c, st) \<Rightarrow> Some (goes_on, c, st, h))))"

text \<open>The frame loop of one connection; \<open>running n\<close> is the flag as the loop reads it before frame \<open>n\<close>.\<close>

function serve_loop ::
    "transport_limits \<Rightarrow> 'h handler \<Rightarrow> (u32 \<Rightarrow> bool) \<Rightarrow> u32 \<Rightarrow> connection \<Rightarrow> server_stats \<Rightarrow> 'h
       \<Rightarrow> (connection \<times> server_stats \<times> 'h) option" where
  "serve_loop limits handler running frames c st h =
     (if running frames \<and> frames < tl_max_frames_per_connection limits
      then (case serve_frame limits handler c st h of
              None \<Rightarrow> None
            | Some (goes_on, c, st, h) \<Rightarrow>
                if goes_on then serve_loop limits handler running (frames + 1) c st h else Some (c, st, h))
      else Some (c, st, h))"
  by pat_completeness auto
termination
proof (relation "measure (\<lambda>(limits, handler, running, frames, c, st, h).
    unat (tl_max_frames_per_connection limits) - unat frames)", goal_cases)
  case (2 limits handler running frames)
  then have less: "frames < tl_max_frames_per_connection limits" by simp
  then have "frames + 1 \<noteq> 0" by (metis max_word_wrap word_order.extremum_strict)
  then have "unat (frames + 1) = Suc (unat frames)" using unatSuc [of frames] by (simp add: add.commute)
  then show ?case using less by (simp add: word_less_nat_alt)
qed simp

declare serve_loop.simps [simp del]

text \<open>What a worker does with a connection it took from the queue, up to its \<open>close\<close>.\<close>

definition serve_connection ::
    "transport_limits \<Rightarrow> 'h handler \<Rightarrow> sock_answer \<Rightarrow> sock_answer \<Rightarrow> (u32 \<Rightarrow> bool) \<Rightarrow> connection \<Rightarrow> server_stats \<Rightarrow> 'h
       \<Rightarrow> (connection \<times> server_stats \<times> 'h) option" where
  "serve_connection limits handler rcv snd_ans running c st h =
     (case serve_loop limits handler running 0 (snd (set_deadlines rcv snd_ans (tl_io_timeout_ms limits) c)) st h of
        None \<Rightarrow> None
      | Some (c, st, h) \<Rightarrow> Some (conn_close c, st, h))"

text \<open>
  \<open>FabricServer::Impl\<close>. A worker holds the connection it serves with the number of frames it has
  served; \<open>active_sockets\<close> is the list of their handles.
\<close>

record fabric_server =
  sv_config :: server_config
  sv_running :: bool
  sv_lifecycle_started :: bool
  sv_listener :: tcp_listener
  sv_port :: u16
  sv_workers :: nat
  sv_queue :: "connection list"
  sv_active :: "(connection \<times> u32) list"
  sv_stats :: server_stats

definition server_create :: "server_config \<Rightarrow> bool \<Rightarrow> fabric_server outcome" where
  "server_create config has_handler =
     (if \<not> has_handler then Inl (Status SC_Invalid ''server requires a request handler'')
      else if tl_max_connections (sc_limits config) = 0 \<or> tl_max_connections (sc_limits config) > 4096
      then Inl (Status SC_Invalid ''max_connections must be in 1..4096'')
      else Inr \<lparr>sv_config = config, sv_running = False, sv_lifecycle_started = False,
             sv_listener = \<lparr>ls_socket = kInvalidSocket, ls_port = 0\<rparr>, sv_port = 0, sv_workers = 0, sv_queue = [],
             sv_active = [], sv_stats = no_stats\<rparr>)"

definition worker_count :: "transport_limits \<Rightarrow> nat" where
  "worker_count limits = max 1 (min (unat (tl_max_connections limits)) 16)"

definition server_start :: "socket_os \<Rightarrow> fabric_server \<Rightarrow> status \<times> fabric_server" where
  "server_start os s =
     (if sv_running s then (status_success, s)
      else case fst (listener_bind (sc_endpoint (sv_config s)) os) of
        Inl e \<Rightarrow> (e, s)
      | Inr l \<Rightarrow>
          (status_success,
           s\<lparr>sv_listener := l, sv_port := ls_port l, sv_running := True, sv_lifecycle_started := True,
             sv_workers := sv_workers s + worker_count (sc_limits (sv_config s))\<rparr>))"

text \<open>The accept thread with a connection in hand: it is queued, or closed when the queue is full.\<close>

definition server_accepts :: "connection \<Rightarrow> fabric_server \<Rightarrow> fabric_server" where
  "server_accepts c s =
     (let st = sv_stats s in
      if length (sv_queue s) < unat (tl_max_connections (sc_limits (sv_config s)))
      then s\<lparr>sv_queue := sv_queue s @ [c], sv_stats := st\<lparr>ss_accepted_connections := ss_accepted_connections st + 1\<rparr>\<rparr>
      else s\<lparr>sv_stats := st\<lparr>ss_rejected_connections := ss_rejected_connections st + 1\<rparr>\<rparr>)"

text \<open>An idle worker takes the connection at the head of the queue, if it is valid, and sets its deadlines.\<close>

definition worker_takes :: "sock_answer \<Rightarrow> sock_answer \<Rightarrow> fabric_server \<Rightarrow> fabric_server" where
  "worker_takes rcv snd_ans s =
     (case sv_queue s of
        [] \<Rightarrow> s
      | c # cs \<Rightarrow>
          if \<not> cn_valid c then s\<lparr>sv_queue := cs\<rparr>
          else s\<lparr>sv_queue := cs,
                 sv_active := sv_active s
                   @ [(snd (set_deadlines rcv snd_ans (tl_io_timeout_ms (sc_limits (sv_config s))) c), 0)]\<rparr>)"

text \<open>
  The worker of active connection \<open>i\<close> runs its loop once more: it ends (the connection is
  unregistered and closed) or serves one frame.
\<close>

definition worker_serves :: "'h handler \<Rightarrow> nat \<Rightarrow> fabric_server \<Rightarrow> 'h \<Rightarrow> (fabric_server \<times> 'h) option" where
  "worker_serves handler i s h =
     (case sv_active s ! i of (c, frames) \<Rightarrow>
      let limits = sc_limits (sv_config s);
          ended = (\<lambda>s. s\<lparr>sv_active := take i (sv_active s) @ drop (Suc i) (sv_active s)\<rparr>)
      in if \<not> (sv_running s \<and> frames < tl_max_frames_per_connection limits) then Some (ended s, h)
         else case serve_frame limits handler c (sv_stats s) h of
                None \<Rightarrow> None
              | Some (goes_on, c, st, h) \<Rightarrow>
                  (let s = s\<lparr>sv_stats := st\<rparr>
                   in Some (if goes_on then s\<lparr>sv_active := (sv_active s)[i := (c, frames + 1)]\<rparr> else ended s, h)))"

definition server_stats_of :: "fabric_server \<Rightarrow> server_stats" where
  "server_stats_of s = (sv_stats s)\<lparr>ss_active_connections := of_nat (length (sv_active s))\<rparr>"

text \<open>
  \<open>stop\<close>, in two parts: the flags and the listener, then, once the accept thread and every worker have
  been joined, the worker pool and the queue.
\<close>

definition server_stop_begin :: "fabric_server \<Rightarrow> fabric_server" where
  "server_stop_begin s =
     (if \<not> sv_lifecycle_started s then s
      else s\<lparr>sv_lifecycle_started := False, sv_running := False, sv_listener := listener_close (sv_listener s)\<rparr>)"

definition server_stop_end :: "fabric_server \<Rightarrow> fabric_server" where
  "server_stop_end s = s\<lparr>sv_workers := 0, sv_queue := []\<rparr>"

section \<open>The client\<close>

record client_config =
  cc_endpoint :: endpoint
  cc_limits :: transport_limits
  cc_client_name :: string

record fabric_client =
  fc_config :: client_config
  fc_connection :: connection
  fc_next_request_id :: u64

definition client_connect :: "client_config \<Rightarrow> socket_os \<Rightarrow> fabric_client outcome" where
  "client_connect config os =
     (case fst (conn_connect (cc_endpoint config) (cc_limits config) os) of
        Inl s \<Rightarrow> Inl s
      | Inr c \<Rightarrow> Inr \<lparr>fc_config = config, fc_connection = c, fc_next_request_id = 1\<rparr>)"

definition request_header :: "request \<Rightarrow> frame_header" where
  "request_header q = default_frame_header\<lparr>fh_type := request_kind_u16 (rq_kind q), fh_request_id := rq_request_id q\<rparr>"

text \<open>\<open>call\<close>; no result when its read blocks for ever.\<close>

definition client_call ::
    "sock_answer \<Rightarrow> sock_answer \<Rightarrow> request \<Rightarrow> u64 \<Rightarrow> fabric_client \<Rightarrow> (response outcome \<times> fabric_client) option" where
  "client_call rcv snd_ans q timeout_ms cl =
     (let limits = cc_limits (fc_config cl);
          (deadlines, c) = (if timeout_ms \<noteq> 0 then set_deadlines rcv snd_ans timeout_ms (fc_connection cl)
                            else (status_success, fc_connection cl))
      in if \<not> status_ok deadlines then Some (Inl deadlines, cl\<lparr>fc_connection := c\<rparr>)
         else case write_frame (request_header q) (encode_request q) limits c of (written, c) \<Rightarrow>
           if \<not> status_ok written then Some (Inl written, cl\<lparr>fc_connection := c\<rparr>)
           else (case read_frame limits c of
                   None \<Rightarrow> None
                 | Some (Inl s, c) \<Rightarrow> Some (Inl s, cl\<lparr>fc_connection := c\<rparr>)
                 | Some (Inr (payload, reply), c) \<Rightarrow>
                     Some (if fh_flags reply AND kFlagReply = 0
                           then Inl (Status SC_Invalid ''server sent a request frame where a reply was expected'')
                           else decode_response payload limits, cl\<lparr>fc_connection := c\<rparr>)))"

definition client_close :: "fabric_client \<Rightarrow> (status \<times> fabric_client) option" where
  "client_close cl =
     (let c = fc_connection cl; limits = cc_limits (fc_config cl) in
      if cn_valid c
      then (let bye = default_request\<lparr>rq_kind := RK_Bye, rq_request_id := fc_next_request_id cl\<rparr>
            in case write_frame (request_header bye) (encode_request bye) limits c of (written, c) \<Rightarrow>
               (case read_frame limits c of
                  None \<Rightarrow> None
                | Some (reply, c) \<Rightarrow>
                    Some (if \<not> status_ok written then written
                          else (case reply of Inl s \<Rightarrow> s | Inr _ \<Rightarrow> status_success),
                          cl\<lparr>fc_connection := conn_close c, fc_next_request_id := fc_next_request_id cl + 1\<rparr>)))
      else Some (status_success, cl\<lparr>fc_connection := conn_close c\<rparr>))"

definition client_connected :: "fabric_client \<Rightarrow> bool" where
  "client_connected cl = cn_valid (fc_connection cl)"

definition handshake :: "string \<Rightarrow> fabric_client \<Rightarrow> (response outcome \<times> fabric_client) option" where
  "handshake client_name cl =
     (case client_call None None (default_request\<lparr>rq_kind := RK_Hello, rq_protocol_version := kProtocolVersion,
             rq_client_name := client_name, rq_request_id := 1\<rparr>) 0 cl of
        None \<Rightarrow> None
      | Some (Inl s, cl) \<Rightarrow> Some (Inl s, cl)
      | Some (Inr p, cl) \<Rightarrow>
          Some (if rs_code p \<noteq> status_code_u16 SC_Ok then Inl (Status (status_code_cast (rs_code p)) (rs_detail p))
                else if rs_protocol_version p \<noteq> kProtocolVersion
                then Inl (Status SC_IncompatibleVersion ''server protocol version is not supported'')
                else Inr p, cl))"

end
