(* ===== verification/SLF_WireRound.thy ===== *)
theory SLF_WireRound
  imports SLF_Service
begin

text \<open>
  Requests and responses survive the wire. Every structure of the protocol has a reference encoding;
  the locale \<open>wire_codec\<close> says that its encoder writes exactly those bytes and its decoder reads them
  back, and gives the same for sequences. The decoders read with strings bounded by
  \<open>kMaxDetailBytes\<close>.
\<close>

section \<open>Chained writers\<close>

lemma emits_chain:
  assumes "list_all2 emits ps bss"
  shows "emits (chain ps) (concat bss)"
  using assms
proof (induction rule: list_all2_induct)
  case Nil
  then show ?case by (simp add: emits_def bw_append_def)
next
  case (Cons p ps bs bss)
  show ?case
    unfolding emits_def
  proof (intro allI impI)
    fix w assume fits: "bw_fits (length (concat (bs # bss))) w"
    then have "bw_fits (length bs) w" and rest: "bw_fits (length (concat bss)) (bw_append bs w)"
      by (auto simp: bw_fits_def bw_append_def)
    then have "p w = (status_success, bw_append bs w)" using Cons.hyps(1) by (simp add: emits_def)
    moreover have "chain ps (bw_append bs w) = (status_success, bw_append (concat bss) (bw_append bs w))"
      using Cons.IH rest by (simp add: emits_def)
    ultimately show "chain (p # ps) w = (status_success, bw_append (concat (bs # bss)) w)"
      by (simp add: bw_append_def)
  qed
qed

lemma clamp_id [simp]: "length t \<le> n \<Longrightarrow> clamp_detail t n = t"
  by (simp add: clamp_detail_def)

abbreviation wrd :: "bytes \<Rightarrow> bytes \<Rightarrow> byte_reader" where
  "wrd \<equiv> rd kMaxDetailBytes"

locale wire_codec =
  fixes enc :: "'a \<Rightarrow> bytes"
    and wr :: "'a \<Rightarrow> put"
    and dec :: "byte_reader \<Rightarrow> 'a outcome \<times> byte_reader"
    and carried :: "'a \<Rightarrow> bool"
  assumes writes: "carried x \<Longrightarrow> emits (wr x) (enc x)"
    and reads: "carried x \<Longrightarrow> dec (wrd pre (enc x @ rest)) = (Inr x, wrd (pre @ enc x) rest)"
begin

lemma writes_all: "list_all carried xs \<Longrightarrow> list_all2 emits (map wr xs) (map enc xs)"
  by (induction xs) (simp_all add: writes)

lemma reads_n:
  "list_all carried xs \<Longrightarrow> read_n what dec (length xs) (wrd pre (concat (map enc xs) @ rest))
     = (Inr xs, wrd (pre @ concat (map enc xs)) rest)"
  by (induction xs arbitrary: pre) (simp_all add: reads)

lemma decodes_n:
  "list_all carried xs \<Longrightarrow> decode_n dec (length xs) (wrd pre (concat (map enc xs) @ rest))
     = (Inr xs, wrd (pre @ concat (map enc xs)) rest)"
  by (induction xs arbitrary: pre) (simp_all add: reads)

end

section \<open>Fields\<close>

lemma list_all_True [simp]: "list_all (\<lambda>_. True) xs"
  by (simp add: list_all_iff)

lemma status_code_cast_u16 [simp]: "status_code_cast (status_code_u16 c) = c"
  by (cases c) (simp_all add: status_code_cast_def status_code_u16_def all_status_codes_def)

lemma wire_enums [simp]:
  "oversubscription_class_of_u8 (oversubscription_class_u8 oc) = oc" "freshness_of_u8 (freshness_u8 fr) = fr"
  "fabric_health_of_u8 (fabric_health_u8 fh) = fh" "fault_point_of_u8 (fault_point_u8 fp) = fp"
  "recovery_status_of_u8 (ucast (recovery_status_u8 rs)) = rs" "request_kind_of_u16 (request_kind_u16 rk) = rk"
  subgoal by (cases oc) (simp_all add: oversubscription_class_of_u8_def)
  subgoal by (cases fr) (simp_all add: freshness_of_u8_def)
  subgoal by (cases fh) (simp_all add: fabric_health_of_u8_def)
  subgoal by (cases fp) (simp_all add: fault_point_of_u8_def)
  subgoal by (cases rs) (simp_all add: recovery_status_of_u8_def)
  subgoal by (cases rk) (simp_all add: request_kind_of_u16_def)
  done

lemma wire_enum_bounds:
  "\<not> oversubscription_class_u8 oc > 3" "\<not> freshness_u8 fr > 2" "\<not> fabric_health_u8 fh > 5" "\<not> fault_point_u8 fp > 3"
  "\<not> (ucast (recovery_status_u8 rs) :: u16) > 8" "\<not> request_kind_u16 rk < 1" "\<not> request_kind_u16 rk > 12"
  "\<not> fabric_state_u8 fs > 4" "\<not> tier_u8 t > 1" "request_kind_u16 rk \<noteq> 0"
  subgoal by (cases oc) simp_all
  subgoal by (cases fr) simp_all
  subgoal by (cases fh) simp_all
  subgoal by (cases fp) simp_all
  subgoal by (cases rs) simp_all
  subgoal by (cases rk) simp_all
  subgoal by (cases rk) simp_all
  subgoal by (cases fs) simp_all
  subgoal by (cases t) simp_all
  subgoal by (cases rk) simp_all
  done

definition wire_text :: "string \<Rightarrow> bool" where
  "wire_text t = string_ok kMaxDetailBytes t"

lemma wire_text_ok:
  "wire_text t \<Longrightarrow> text_ok t" "wire_text t \<Longrightarrow> string_ok kMaxDetailBytes t" "wire_text t \<Longrightarrow> length t \<le> kMaxDetailBytes"
  by (simp_all add: wire_text_def string_ok_def text_ok_def)

interpretation u32_wire: wire_codec "le_bytes 4" bw_u32 br_u32 "\<lambda>_. True"
  by unfold_locales (simp_all add: emits_intros codec_simps)

interpretation u64_wire: wire_codec "le_bytes 8" bw_u64 br_u64 "\<lambda>_. True"
  by unfold_locales (simp_all add: emits_intros codec_simps)

interpretation text_wire: wire_codec string_enc "\<lambda>t. bw_string (clamp_detail t kMaxDetailBytes)" br_string wire_text
  by unfold_locales (simp_all add: emits_intros codec_simps wire_text_ok)

interpretation reason_wire: wire_codec string_enc "\<lambda>t. bw_string (clamp_detail t 512)" br_string
  "\<lambda>t. wire_text t \<and> length t \<le> 512"
  by unfold_locales (simp_all add: emits_intros codec_simps wire_text_ok)

interpretation digest_wire: wire_codec "\<lambda>d. d" encode_digest decode_digest "\<lambda>d. length d = 32"
  by unfold_locales (simp_all add: encode_digest_def decode_digest_def emits_intros codec_simps)

definition node_enc :: "node_key \<Rightarrow> bytes" where
  "node_enc k = concat [[tier_u8 (nk_tier k)], le_bytes 4 (nk_index k)]"

interpretation node_wire: wire_codec node_enc encode_node decode_node "\<lambda>_. True"
proof unfold_locales
  show "emits (encode_node x) (node_enc x)" for x
    unfolding encode_node_def node_enc_def by (rule emits_chain) (simp add: emits_intros)
  show "decode_node (wrd pre (node_enc x @ rest)) = (Inr x, wrd (pre @ node_enc x) rest)" for x pre rest
    by (cases x) (simp add: decode_node_def node_enc_def codec_simps wire_enum_bounds)
qed

definition token_enc :: "authority_token \<Rightarrow> bytes" where
  "token_enc t = concat (token_fields t)"

interpretation token_wire: wire_codec token_enc encode_token decode_token "\<lambda>t. length (tk_topology_digest t) = 32"
proof unfold_locales
  fix t :: authority_token assume len: "length (tk_topology_digest t) = 32"
  show "emits (encode_token t) (token_enc t)"
    unfolding encode_token_def token_enc_def token_fields_def
    by (rule emits_chain) (simp add: emits_intros digest_wire.writes len)
  show "decode_token (wrd pre (token_enc t @ rest)) = (Inr t, wrd (pre @ token_enc t) rest)" for pre rest
    by (simp add: decode_token_def token_enc_def token_fields_def codec_simps digest_wire.reads len)
qed

section \<open>Constraints, capacity and eligibility entries\<close>

lemma rational_make_reduced:
  assumes "rational_wf r"
  shows "rational_make (rt_num r) (rt_den r) = Inr r"
proof -
  from assms have "rt_den r \<noteq> 0" by (simp add: rational_wf_def)
  from rational_make_exact [OF this, of "rt_num r"] obtain q where
    q: "rational_make (rt_num r) (rt_den r) = Inr q" "rational_wf q"
      "unat (rt_num q) * unat (rt_den r) = unat (rt_num r) * unat (rt_den q)" by blast
  have "unat (rt_num q) = unat (rt_num r) \<and> unat (rt_den r) = unat (rt_den q)"
    using q(2,3) assms coprime_crossproduct_nat [of "unat (rt_num q)" "unat (rt_den q)" "unat (rt_num r)" "unat (rt_den r)"]
    by (simp add: rational_wf_def)
  then have "q = r" by (cases q, cases r) (simp add: word_unat_eq_iff)
  with q(1) show ?thesis by simp
qed

definition constraints_carried :: "path_constraints \<Rightarrow> bool" where
  "constraints_carried c \<longleftrightarrow> (case pc_max_oversubscription c of None \<Rightarrow> True | Some r \<Rightarrow> rational_wf r)
     \<and> pc_max_sets c \<le> 4096 \<and> pc_max_explanations c \<le> 1024"

definition constraints_ratio :: "path_constraints \<Rightarrow> rational" where
  "constraints_ratio c = (case pc_max_oversubscription c of None \<Rightarrow> \<lparr>rt_num = 0, rt_den = 1\<rparr> | Some r \<Rightarrow> r)"

definition constraints_enc :: "path_constraints \<Rightarrow> bytes" where
  "constraints_enc c = concat [[bool_u8 (pc_require_domain_diversity c)], le_bytes 4 (pc_min_eligible_spines c),
     le_bytes 8 (pc_min_total_capacity_mbps c), [bool_u8 (pc_max_oversubscription c \<noteq> None)],
     le_bytes 8 (rt_num (constraints_ratio c)), le_bytes 8 (rt_den (constraints_ratio c)),
     [bool_u8 (pc_allow_peer_paths c)], [bool_u8 (pc_require_evidence c)], le_bytes 4 (pc_max_sets c),
     le_bytes 4 (pc_max_explanations c)]"

interpretation constraints_wire: wire_codec constraints_enc encode_constraints decode_constraints constraints_carried
proof unfold_locales
  fix c :: path_constraints assume ok: "constraints_carried c"
  show "emits (encode_constraints c) (constraints_enc c)"
    unfolding encode_constraints_def constraints_enc_def Let_def constraints_ratio_def [symmetric]
    by (rule emits_chain) (simp add: emits_intros)
  have "\<not> pc_max_sets c > 4096" "\<not> pc_max_explanations c > 1024" using ok by (simp_all add: constraints_carried_def not_less)
  moreover have "(case pc_max_oversubscription c of None \<Rightarrow> True | Some r \<Rightarrow> rational_make (rt_num r) (rt_den r) = Inr r)"
    using ok rational_make_reduced by (simp add: constraints_carried_def split: option.splits)
  ultimately show "decode_constraints (wrd pre (constraints_enc c @ rest)) = (Inr c, wrd (pre @ constraints_enc c) rest)"
    for pre rest
    by (cases c; cases "pc_max_oversubscription c")
      (simp_all add: decode_constraints_def constraints_enc_def codec_simps constraints_ratio_def)
qed

definition capacity_enc :: "capacity_summary \<Rightarrow> bytes" where
  "capacity_enc c = concat [le_bytes 8 (cs_uplink_capacity_mbps c), le_bytes 4 (cs_uplink_count c),
     le_bytes 8 (cs_downlink_capacity_mbps c), le_bytes 4 (cs_downlink_count c), le_bytes 8 (cs_access_capacity_mbps c),
     le_bytes 8 (cs_min_uplink_mbps c), le_bytes 8 (cs_max_uplink_mbps c), le_bytes 8 (cs_spine_capacity_mbps c),
     le_bytes 4 (cs_spine_count c), le_bytes 8 (rt_num (cs_oversubscription c)), le_bytes 8 (rt_den (cs_oversubscription c)),
     [oversubscription_class_u8 (cs_classification c)], le_bytes 2 (status_code_u16 (cs_code c)), string_enc (cs_detail c)]"

interpretation capacity_wire: wire_codec capacity_enc encode_capacity decode_capacity
  "\<lambda>c. rational_wf (cs_oversubscription c) \<and> wire_text (cs_detail c)"
proof unfold_locales
  fix c :: capacity_summary assume ok: "rational_wf (cs_oversubscription c) \<and> wire_text (cs_detail c)"
  show "emits (encode_capacity c) (capacity_enc c)"
    unfolding encode_capacity_def capacity_enc_def using ok
    by (intro emits_chain) (simp add: emits_intros wire_text_ok)
  show "decode_capacity (wrd pre (capacity_enc c @ rest)) = (Inr c, wrd (pre @ capacity_enc c) rest)" for pre rest
    using ok by (simp add: decode_capacity_def capacity_enc_def codec_simps wire_enum_bounds wire_text_ok rational_make_reduced)
qed

definition spine_eligibility_enc :: "spine_eligibility \<Rightarrow> bytes" where
  "spine_eligibility_enc e = concat [le_bytes 4 (se_spine e), [verdict_u8 (se_verdict e)],
     le_bytes 2 (status_code_u16 (se_code e)), [bool_u8 (se_structural_ok e)], [freshness_u8 (se_freshness e)],
     le_bytes 8 (se_capacity_mbps e), le_bytes 4 (se_domain e), string_enc (se_detail e)]"

interpretation entry_wire: wire_codec spine_eligibility_enc encode_spine_eligibility decode_spine_eligibility
  "\<lambda>e. wire_text (se_detail e)"
proof unfold_locales
  fix e :: spine_eligibility assume ok: "wire_text (se_detail e)"
  show "emits (encode_spine_eligibility e) (spine_eligibility_enc e)"
    unfolding encode_spine_eligibility_def spine_eligibility_enc_def using ok
    by (intro emits_chain) (simp add: emits_intros wire_text_ok)
  show "decode_spine_eligibility (wrd pre (spine_eligibility_enc e @ rest)) = (Inr e, wrd (pre @ spine_eligibility_enc e) rest)"
    for pre rest
    using ok by (simp add: decode_spine_eligibility_def spine_eligibility_enc_def codec_simps wire_enum_bounds class_u8_bound
        wire_text_ok)
qed

definition result_enc :: "command_result \<Rightarrow> bytes" where
  "result_enc r = concat [le_bytes 2 (cr_code r), string_enc (cr_detail r), le_bytes 8 (cr_request_id r),
     le_bytes 8 (cr_generation r), le_bytes 8 (cr_epoch r), cr_topology_digest r, [bool_u8 (cr_deduplicated r)],
     [bool_u8 (cr_mutated r)], token_enc (cr_refreshed_token r)]"

definition result_carried :: "command_result \<Rightarrow> bool" where
  "result_carried r \<longleftrightarrow> wire_text (cr_detail r) \<and> length (cr_topology_digest r) = 32
     \<and> length (tk_topology_digest (cr_refreshed_token r)) = 32"

interpretation result_wire: wire_codec result_enc encode_command_result decode_command_result result_carried
proof unfold_locales
  fix r :: command_result assume ok: "result_carried r"
  show "emits (encode_command_result r) (result_enc r)"
    unfolding encode_command_result_def result_enc_def using ok
    by (intro emits_chain)
      (simp add: result_carried_def emits_intros wire_text_ok digest_wire.writes token_wire.writes)
  show "decode_command_result (wrd pre (result_enc r @ rest)) = (Inr r, wrd (pre @ result_enc r) rest)" for pre rest
    using ok by (simp add: decode_command_result_def result_enc_def result_carried_def codec_simps wire_text_ok
        digest_wire.reads token_wire.reads)
qed

section \<open>Assessments\<close>

definition ids_enc :: "u32 list \<Rightarrow> bytes" where
  "ids_enc xs = le_bytes 4 (of_nat (length xs) :: u32) @ concat (map (le_bytes 4) xs)"

lemma small_count: "length xs \<le> 4096 \<Longrightarrow> unat (of_nat (length xs) :: u32) = length xs"
  by (simp add: unat_of_nat)

lemma read_ids_enc:
  "length xs \<le> kMaxWireSpines \<Longrightarrow>
     read_ids incomplete exceeds (wrd pre (ids_enc xs @ rest)) = (Inr xs, wrd (pre @ ids_enc xs) rest)"
  using u32_wire.reads_n [of xs incomplete]
  by (simp add: read_ids_def ids_enc_def codec_simps small_count kMaxWireSpines_def)

lemma emits_ids:
  "list_all2 emits (bw_u32 (of_nat (length xs)) # map bw_u32 xs) (le_bytes 4 (of_nat (length xs) :: u32) # map (le_bytes 4) xs)"
  using u32_wire.writes_all [of xs] by (simp add: emits_intros)

definition spine_set_carried :: "eligible_spine_set \<Rightarrow> bool" where
  "spine_set_carried s \<longleftrightarrow> length (ss_spines s) \<le> kMaxWireSpines \<and> length (ss_domains s) \<le> kMaxWireSpines
     \<and> unat (ss_distinct_domains s) \<le> kMaxWireSpines"

definition spine_set_fields :: "eligible_spine_set \<Rightarrow> bytes list" where
  "spine_set_fields s = [le_bytes 8 (ss_total_capacity_mbps s), le_bytes 4 (ss_distinct_domains s)]
     @ (le_bytes 4 (of_nat (length (ss_spines s)) :: u32) # map (le_bytes 4) (ss_spines s))
     @ (le_bytes 4 (of_nat (length (ss_domains s)) :: u32) # map (le_bytes 4) (ss_domains s))"

lemma emits_spine_set: "list_all2 emits (encode_spine_set s) (spine_set_fields s)"
proof -
  have "list_all2 emits [bw_u64 (ss_total_capacity_mbps s), bw_u32 (ss_distinct_domains s)]
      [le_bytes 8 (ss_total_capacity_mbps s), le_bytes 4 (ss_distinct_domains s)]" by (simp add: emits_intros)
  from list_all2_appendI [OF this list_all2_appendI [OF emits_ids [of "ss_spines s"] emits_ids [of "ss_domains s"]]]
  show ?thesis by (simp add: encode_spine_set_def spine_set_fields_def)
qed

interpretation spine_set_wire: wire_codec "\<lambda>s. concat (spine_set_fields s)" "\<lambda>s. chain (encode_spine_set s)"
  decode_spine_set spine_set_carried
proof unfold_locales
  fix s :: eligible_spine_set assume ok: "spine_set_carried s"
  show "emits (chain (encode_spine_set s)) (concat (spine_set_fields s))" by (rule emits_chain [OF emits_spine_set])
  have bytes: "concat (spine_set_fields s) = le_bytes 8 (ss_total_capacity_mbps s) @ le_bytes 4 (ss_distinct_domains s)
      @ le_bytes 4 (of_nat (length (ss_spines s)) :: u32) @ concat (map (le_bytes 4) (ss_spines s)) @ ids_enc (ss_domains s)"
    by (simp add: spine_set_fields_def ids_enc_def)
  have n: "unat (of_nat (length (ss_spines s)) :: u32) = length (ss_spines s)"
    using ok by (simp add: spine_set_carried_def kMaxWireSpines_def small_count)
  have bounds: "length (ss_domains s) \<le> kMaxWireSpines" "length (ss_spines s) \<le> kMaxWireSpines"
    "unat (ss_distinct_domains s) \<le> kMaxWireSpines" using ok by (simp_all add: spine_set_carried_def)
  show "decode_spine_set (wrd pre (concat (spine_set_fields s) @ rest))
      = (Inr s, wrd (pre @ concat (spine_set_fields s)) rest)" for pre rest
    unfolding bytes using bounds
    by (simp add: decode_spine_set_def codec_simps n u32_wire.reads_n read_ids_enc not_less)
qed

definition assessment_head_fields :: "path_assessment \<Rightarrow> bytes list" where
  "assessment_head_fields a = [node_enc (pa_from a), node_enc (pa_to a), [reachability_class_u8 (pa_cls a)],
     [verdict_u8 (pa_verdict a)], le_bytes 2 (status_code_u16 (pa_code a)), le_bytes 8 (pa_generation a),
     le_bytes 8 (pa_epoch a), le_bytes 8 (inc_hi (pa_controller a)), le_bytes 8 (inc_lo (pa_controller a)),
     pa_topology_digest a, [bool_u8 (pa_evidence_required a)], le_bytes 8 (pa_links_examined a),
     le_bytes 4 (pa_max_domain_loss_tolerance a)]"

definition assessment_fields :: "path_assessment \<Rightarrow> bytes list" where
  "assessment_fields a = assessment_head_fields a
     @ (le_bytes 4 (of_nat (length (pa_eligible_spines a)) :: u32) # map (le_bytes 4) (pa_eligible_spines a))
     @ (le_bytes 4 (of_nat (length (pa_covered_domains a)) :: u32) # map (le_bytes 4) (pa_covered_domains a))
     @ [[bool_u8 (sets_truncated (pa_spine_sets a))], le_bytes 8 (sets_candidate_combinations (pa_spine_sets a)),
        le_bytes 4 (of_nat (length (sets_list (pa_spine_sets a))) :: u32)]
     @ concat (map spine_set_fields (sets_list (pa_spine_sets a)))
     @ [capacity_enc (pa_capacity a), le_bytes 4 (of_nat (length (pa_explanation a)) :: u32)]
     @ map string_enc (pa_explanation a)"

definition assessment_writable :: "path_assessment \<Rightarrow> bool" where
  "assessment_writable a \<longleftrightarrow> length (pa_topology_digest a) = 32 \<and> rational_wf (cs_oversubscription (pa_capacity a))
     \<and> wire_text (cs_detail (pa_capacity a)) \<and> list_all wire_text (pa_explanation a)"

definition assessment_carried :: "path_assessment \<Rightarrow> bool" where
  "assessment_carried a \<longleftrightarrow> assessment_writable a \<and> length (pa_eligible_spines a) \<le> kMaxWireSpines
     \<and> length (pa_covered_domains a) \<le> kMaxWireSpines \<and> length (sets_list (pa_spine_sets a)) \<le> kMaxWireSets
     \<and> list_all spine_set_carried (sets_list (pa_spine_sets a)) \<and> length (pa_explanation a) \<le> kMaxWireExplanations"

lemma emits_assessment:
  assumes "assessment_writable a"
  shows "emits (encode_assessment a) (concat (assessment_fields a))"
proof -
  have head: "list_all2 emits [encode_node (pa_from a), encode_node (pa_to a), bw_u8 (reachability_class_u8 (pa_cls a)),
        bw_u8 (verdict_u8 (pa_verdict a)), bw_u16 (status_code_u16 (pa_code a)), bw_u64 (pa_generation a),
        bw_u64 (pa_epoch a), bw_u64 (inc_hi (pa_controller a)), bw_u64 (inc_lo (pa_controller a)),
        encode_digest (pa_topology_digest a), bw_u8 (bool_u8 (pa_evidence_required a)), bw_u64 (pa_links_examined a),
        bw_u32 (pa_max_domain_loss_tolerance a)] (assessment_head_fields a)"
    using assms by (simp add: assessment_head_fields_def assessment_writable_def emits_intros node_wire.writes digest_wire.writes)
  have sets: "list_all2 emits (concat (map encode_spine_set xs)) (concat (map spine_set_fields xs))" for xs
    by (induction xs) (simp_all add: list_all2_appendI emits_spine_set)
  have sum: "list_all2 emits [bw_u8 (bool_u8 (sets_truncated (pa_spine_sets a))),
        bw_u64 (sets_candidate_combinations (pa_spine_sets a)), bw_u32 (of_nat (length (sets_list (pa_spine_sets a))))]
      [[bool_u8 (sets_truncated (pa_spine_sets a))], le_bytes 8 (sets_candidate_combinations (pa_spine_sets a)),
        le_bytes 4 (of_nat (length (sets_list (pa_spine_sets a))) :: u32)]" by (simp add: emits_intros)
  have cap: "list_all2 emits [encode_capacity (pa_capacity a), bw_u32 (of_nat (length (pa_explanation a)))]
      [capacity_enc (pa_capacity a), le_bytes 4 (of_nat (length (pa_explanation a)) :: u32)]"
    using assms by (simp add: assessment_writable_def capacity_wire.writes emits_intros)
  have expl: "list_all2 emits (map (\<lambda>line. bw_string (clamp_detail line kMaxDetailBytes)) (pa_explanation a))
      (map string_enc (pa_explanation a))"
    using assms text_wire.writes_all [of "pa_explanation a"] by (simp add: assessment_writable_def)
  note all = list_all2_appendI [OF head list_all2_appendI [OF emits_ids list_all2_appendI [OF emits_ids
        list_all2_appendI [OF sum list_all2_appendI [OF sets list_all2_appendI [OF cap expl]]]]]]
  show ?thesis
    using emits_chain [OF all [of "pa_eligible_spines a" "pa_covered_domains a" "sets_list (pa_spine_sets a)"]]
    by (simp add: encode_assessment_def assessment_fields_def)
qed

lemma decode_assessment_head_enc:
  assumes "assessment_writable a" and "length (pa_eligible_spines a) \<le> kMaxWireSpines"
  shows "decode_assessment_head (wrd pre (concat (assessment_head_fields a)
      @ le_bytes 4 (of_nat (length (pa_eligible_spines a)) :: u32) @ rest))
    = (Inr (a\<lparr>pa_eligible_spines := [], pa_covered_domains := [], pa_spine_sets := empty_spine_sets,
              pa_capacity := empty_capacity, pa_explanation := []\<rparr>, of_nat (length (pa_eligible_spines a))),
       wrd (pre @ concat (assessment_head_fields a) @ le_bytes 4 (of_nat (length (pa_eligible_spines a)) :: u32)) rest)"
  using assms
  by (simp add: decode_assessment_head_def assessment_head_fields_def assessment_writable_def codec_simps node_wire.reads
      digest_wire.reads class_u8_bound small_count kMaxWireSpines_def not_less)

lemma decode_spine_sets_enc:
  assumes "length (sets_list s) \<le> kMaxWireSets" and "list_all spine_set_carried (sets_list s)"
  shows "decode_spine_sets (wrd pre (bool_u8 (sets_truncated s) # le_bytes 8 (sets_candidate_combinations s)
      @ le_bytes 4 (of_nat (length (sets_list s)) :: u32) @ concat (map (\<lambda>s. concat (spine_set_fields s)) (sets_list s)) @ rest))
    = (Inr s, wrd (pre @ bool_u8 (sets_truncated s) # le_bytes 8 (sets_candidate_combinations s)
      @ le_bytes 4 (of_nat (length (sets_list s)) :: u32) @ concat (map (\<lambda>s. concat (spine_set_fields s)) (sets_list s))) rest)"
  using assms small_count [of "sets_list s"]
  by (simp add: decode_spine_sets_def codec_simps kMaxWireSets_def spine_set_wire.decodes_n not_less)

lemma decode_explanation_enc:
  assumes "length xs \<le> kMaxWireExplanations" and "list_all wire_text xs"
  shows "decode_explanation (wrd pre (le_bytes 4 (of_nat (length xs) :: u32) @ concat (map string_enc xs) @ rest))
    = (Inr xs, wrd (pre @ le_bytes 4 (of_nat (length xs) :: u32) @ concat (map string_enc xs)) rest)"
  using assms small_count [of xs]
  by (simp add: decode_explanation_def codec_simps kMaxWireExplanations_def text_wire.reads_n not_less)

interpretation assessment_wire: wire_codec "\<lambda>a. concat (assessment_fields a)" encode_assessment decode_assessment
  assessment_carried
proof unfold_locales
  fix a :: path_assessment assume ok: "assessment_carried a"
  show "emits (encode_assessment a) (concat (assessment_fields a))" using ok by (simp add: assessment_carried_def emits_assessment)
  have flat: "concat (concat (map spine_set_fields xs)) = concat (map (\<lambda>s. concat (spine_set_fields s)) xs)" for xs
    by (induction xs) simp_all
  have bytes: "concat (assessment_fields a) = concat (assessment_head_fields a)
      @ le_bytes 4 (of_nat (length (pa_eligible_spines a)) :: u32) @ concat (map (le_bytes 4) (pa_eligible_spines a))
      @ ids_enc (pa_covered_domains a)
      @ (bool_u8 (sets_truncated (pa_spine_sets a)) # le_bytes 8 (sets_candidate_combinations (pa_spine_sets a))
      @ le_bytes 4 (of_nat (length (sets_list (pa_spine_sets a))) :: u32)
      @ concat (map (\<lambda>s. concat (spine_set_fields s)) (sets_list (pa_spine_sets a))))
      @ capacity_enc (pa_capacity a)
      @ le_bytes 4 (of_nat (length (pa_explanation a)) :: u32) @ concat (map string_enc (pa_explanation a))"
    by (simp add: assessment_fields_def ids_enc_def flat)
  have n: "unat (of_nat (length (pa_eligible_spines a)) :: u32) = length (pa_eligible_spines a)"
    using ok by (simp add: assessment_carried_def kMaxWireSpines_def small_count)
  show "decode_assessment (wrd pre (concat (assessment_fields a) @ rest))
      = (Inr a, wrd (pre @ concat (assessment_fields a)) rest)" for pre rest
    unfolding bytes decode_assessment_def append_assoc append_Cons
    using ok
    by (simp add: assessment_carried_def decode_assessment_head_enc assessment_writable_def n u32_wire.reads_n read_ids_enc decode_spine_sets_enc capacity_wire.reads
        decode_explanation_enc)
qed

section \<open>Health and status\<close>

definition health_fields :: "fabric_health_report \<Rightarrow> bytes list" where
  "health_fields h = [[fabric_health_u8 (hr_health h)], le_bytes 2 (status_code_u16 (hr_code h)), string_enc (hr_summary h),
       le_bytes 4 (of_nat (length (hr_reasons h)) :: u32)]
     @ map string_enc (hr_reasons h)
     @ map (le_bytes 4) [hr_leaves_total h, hr_leaves_serving h, hr_leaves_isolated h, hr_leaves_indeterminate h,
          hr_spines_total h, hr_spines_serving h, hr_spines_failed h, hr_spines_draining h, hr_disabled_link_count h]
     @ [le_bytes 8 (hr_generation h), le_bytes 8 (hr_epoch h), le_bytes 8 (inc_hi (hr_controller h)),
        le_bytes 8 (inc_lo (hr_controller h)), hr_topology_digest h]"

definition health_carried :: "fabric_health_report \<Rightarrow> bool" where
  "health_carried h \<longleftrightarrow> wire_text (hr_summary h) \<and> length (hr_reasons h) \<le> kMaxWireReasons
     \<and> list_all (\<lambda>t. wire_text t \<and> length t \<le> 512) (hr_reasons h) \<and> length (hr_topology_digest h) = 32"

lemma read_nine:
  fixes xs :: "u32 list"
  assumes "length xs = 9"
  shows "read_n what br_u32 9 (wrd pre (concat (map (le_bytes 4) xs) @ rest)) = (Inr xs, wrd (pre @ concat (map (le_bytes 4) xs)) rest)"
  using u32_wire.reads_n [of xs what pre rest] assms by simp

interpretation health_wire: wire_codec "\<lambda>h. concat (health_fields h)" encode_health decode_health health_carried
proof unfold_locales
  fix h :: fabric_health_report assume ok: "health_carried h"
  let ?counts = "[hr_leaves_total h, hr_leaves_serving h, hr_leaves_isolated h, hr_leaves_indeterminate h,
    hr_spines_total h, hr_spines_serving h, hr_spines_failed h, hr_spines_draining h, hr_disabled_link_count h]"
  have reasons: "list_all2 emits (map (\<lambda>t. bw_string (clamp_detail t 512)) (hr_reasons h)) (map string_enc (hr_reasons h))"
    using ok reason_wire.writes_all by (simp add: health_carried_def)
  show "emits (encode_health h) (concat (health_fields h))"
    unfolding encode_health_def health_fields_def using ok
    by (intro emits_chain list_all2_appendI reasons u32_wire.writes_all)
      (simp_all add: health_carried_def emits_intros wire_text_ok digest_wire.writes)
  have n: "unat (of_nat (length (hr_reasons h)) :: u32) = length (hr_reasons h)"
    using ok by (simp add: health_carried_def kMaxWireReasons_def small_count)
  have bytes: "concat (health_fields h) = fabric_health_u8 (hr_health h) # le_bytes 2 (status_code_u16 (hr_code h))
      @ string_enc (hr_summary h) @ le_bytes 4 (of_nat (length (hr_reasons h)) :: u32)
      @ concat (map string_enc (hr_reasons h)) @ concat (map (le_bytes 4) ?counts)
      @ le_bytes 8 (hr_generation h) @ le_bytes 8 (hr_epoch h) @ le_bytes 8 (inc_hi (hr_controller h))
      @ le_bytes 8 (inc_lo (hr_controller h)) @ hr_topology_digest h"
    by (simp add: health_fields_def)
  show "decode_health (wrd pre (concat (health_fields h) @ rest)) = (Inr h, wrd (pre @ concat (health_fields h)) rest)"
    for pre rest
    unfolding bytes append_assoc append_Cons
    using ok
    by (simp add: decode_health_def health_carried_def codec_simps wire_enum_bounds wire_text_ok n not_less
        reason_wire.reads_n read_nine digest_wire.reads del: list.map concat.simps)
qed

text \<open>Of a runtime status, only these fields of the recovery report travel.\<close>

definition wire_status :: "runtime_status \<Rightarrow> runtime_status" where
  "wire_status s = s\<lparr>st_recovery := empty_recovery\<lparr>rpt_status := rpt_status (st_recovery s), rpt_code := rpt_code (st_recovery s),
     rpt_detail := rpt_detail (st_recovery s), rpt_records_valid := rpt_records_valid (st_recovery s),
     rpt_bytes_dropped := rpt_bytes_dropped (st_recovery s), rpt_snapshot_used := rpt_snapshot_used (st_recovery s),
     rpt_dynamic_evidence_recovered := rpt_dynamic_evidence_recovered (st_recovery s),
     rpt_requires_reobservation := rpt_requires_reobservation (st_recovery s)\<rparr>\<rparr>"

lemma encode_wire_status: "encode_status (wire_status s) = encode_status s"
  by (simp add: encode_status_def wire_status_def)

lemma wire_status_idem: "wire_status (wire_status s) = wire_status s"
  by (simp add: wire_status_def)

definition status_head_fields :: "runtime_status \<Rightarrow> bytes list" where
  "status_head_fields s = [[bool_u8 (st_started s)], le_bytes 8 (st_fabric_id s), string_enc (st_name s),
     string_enc (st_site s), [fabric_state_u8 (st_fabric_state s)], le_bytes 8 (inc_hi (st_controller s)),
     le_bytes 8 (inc_lo (st_controller s)), le_bytes 8 (st_epoch s), le_bytes 8 (st_generation s), st_topology_digest s,
     st_evidence_digest s, [fabric_health_u8 (st_health s)]]"

definition status_counts :: "runtime_status \<Rightarrow> u32 list" where
  "status_counts s = [st_leaf_count s, st_spine_count s, st_port_count s, st_link_count s, st_history_link_count s,
     st_evidence_count s]"

definition status_counters :: "runtime_status \<Rightarrow> u64 list" where
  "status_counters s = [st_commands_applied s, st_commands_refused s, st_commands_fenced s, st_commands_duplicated s,
     st_queries_served s]"

definition status_tail_fields :: "runtime_status \<Rightarrow> bytes list" where
  "status_tail_fields s = [le_bytes 4 (st_worker_threads s), [bool_u8 (st_persistence_enabled s)],
     le_bytes 8 (st_active_lease s), le_bytes 8 (st_lease_expires_at_unix_ms s), le_bytes 8 (st_uptime_ms s),
     [fault_point_u8 (st_fault_point s)], le_bytes 2 (ucast (recovery_status_u8 (rpt_status (st_recovery s))) :: u16),
     le_bytes 2 (status_code_u16 (rpt_code (st_recovery s))), string_enc (rpt_detail (st_recovery s)),
     le_bytes 8 (rpt_records_valid (st_recovery s)), le_bytes 8 (rpt_bytes_dropped (st_recovery s)),
     [bool_u8 (rpt_snapshot_used (st_recovery s))], [bool_u8 (rpt_dynamic_evidence_recovered (st_recovery s))],
     [bool_u8 (rpt_requires_reobservation (st_recovery s))]]"

definition status_fields :: "runtime_status \<Rightarrow> bytes list" where
  "status_fields s = status_head_fields s @ map (le_bytes 4) (status_counts s) @ map (le_bytes 8) (status_counters s)
     @ status_tail_fields s"

definition status_carried :: "runtime_status \<Rightarrow> bool" where
  "status_carried s \<longleftrightarrow> wire_text (st_name s) \<and> wire_text (st_site s) \<and> wire_text (rpt_detail (st_recovery s))
     \<and> length (st_topology_digest s) = 32 \<and> length (st_evidence_digest s) = 32"

lemma emits_status: "status_carried s \<Longrightarrow> emits (encode_status s) (concat (status_fields s))"
  unfolding encode_status_def status_fields_def status_counts_def [symmetric] status_counters_def [symmetric]
  by (intro emits_chain list_all2_appendI u32_wire.writes_all u64_wire.writes_all)
    (simp_all add: status_head_fields_def status_tail_fields_def status_carried_def emits_intros wire_text_ok
      digest_wire.writes)

lemma read_counts:
  "read_n what br_u32 6 (wrd pre (concat (map (le_bytes 4) (status_counts s)) @ rest))
     = (Inr (status_counts s), wrd (pre @ concat (map (le_bytes 4) (status_counts s))) rest)"
  "read_n what br_u64 5 (wrd pre (concat (map (le_bytes 8) (status_counters s)) @ rest))
     = (Inr (status_counters s), wrd (pre @ concat (map (le_bytes 8) (status_counters s))) rest)"
proof -
  have len: "length (status_counts s) = 6" "length (status_counters s) = 5"
    by (simp_all add: status_counts_def status_counters_def)
  show "read_n what br_u32 6 (wrd pre (concat (map (le_bytes 4) (status_counts s)) @ rest))
      = (Inr (status_counts s), wrd (pre @ concat (map (le_bytes 4) (status_counts s))) rest)"
    using u32_wire.reads_n [of "status_counts s" what pre rest] unfolding len by simp
  show "read_n what br_u64 5 (wrd pre (concat (map (le_bytes 8) (status_counters s)) @ rest))
      = (Inr (status_counters s), wrd (pre @ concat (map (le_bytes 8) (status_counters s))) rest)"
    using u64_wire.reads_n [of "status_counters s" what pre rest] unfolding len by simp
qed

lemma decode_status_head_enc:
  assumes "status_carried s"
  shows "decode_status_head (wrd pre (concat (status_head_fields s) @ rest))
    = (Inr (blank_status\<lparr>st_started := st_started s, st_fabric_id := st_fabric_id s, st_name := st_name s,
          st_site := st_site s, st_fabric_state := st_fabric_state s, st_controller := st_controller s,
          st_epoch := st_epoch s, st_generation := st_generation s, st_topology_digest := st_topology_digest s,
          st_evidence_digest := st_evidence_digest s, st_health := st_health s\<rparr>),
       wrd (pre @ concat (status_head_fields s)) rest)"
  using assms
  by (simp add: decode_status_head_def status_head_fields_def status_carried_def codec_simps wire_enum_bounds wire_text_ok
      digest_wire.reads)

lemma decode_status_tail_enc:
  assumes "status_carried s" and "wire_status s = s"
  shows "decode_status_trailer (s\<lparr>st_worker_threads := w, st_persistence_enabled := b, st_active_lease := l,
      st_lease_expires_at_unix_ms := e, st_uptime_ms := u, st_fault_point := f, st_recovery := empty_recovery\<rparr>)
      (wrd pre (concat (status_tail_fields s) @ rest)) = (Inr s, wrd (pre @ concat (status_tail_fields s)) rest)"
proof -
  have "s\<lparr>st_recovery := st_recovery (wire_status s)\<rparr> = s" using assms(2) by simp
  then show ?thesis
    using assms(1)
    by (simp add: decode_status_trailer_def status_tail_fields_def status_carried_def codec_simps wire_enum_bounds
        wire_text_ok wire_status_def)
qed

interpretation status_wire: wire_codec "\<lambda>s. concat (status_fields s)" encode_status decode_status
  "\<lambda>s. status_carried s \<and> wire_status s = s"
proof unfold_locales
  fix s :: runtime_status assume ok: "status_carried s \<and> wire_status s = s"
  then show "emits (encode_status s) (concat (status_fields s))" by (simp add: emits_status)
  have bytes: "concat (status_fields s) = concat (status_head_fields s) @ concat (map (le_bytes 4) (status_counts s))
      @ concat (map (le_bytes 8) (status_counters s)) @ concat (status_tail_fields s)"
    by (simp add: status_fields_def)
  have filled: "with_counts (status_counts s) (status_counters s) (blank_status\<lparr>st_started := st_started s,
      st_fabric_id := st_fabric_id s, st_name := st_name s, st_site := st_site s, st_fabric_state := st_fabric_state s,
      st_controller := st_controller s, st_epoch := st_epoch s, st_generation := st_generation s,
      st_topology_digest := st_topology_digest s, st_evidence_digest := st_evidence_digest s, st_health := st_health s\<rparr>)
    = s\<lparr>st_worker_threads := 0, st_persistence_enabled := False, st_active_lease := 0, st_lease_expires_at_unix_ms := 0,
      st_uptime_ms := 0, st_fault_point := FP_None, st_recovery := empty_recovery\<rparr>"
    by (simp add: with_counts_def status_counts_def status_counters_def blank_status_def)
  show "decode_status (wrd pre (concat (status_fields s) @ rest)) = (Inr s, wrd (pre @ concat (status_fields s)) rest)"
    for pre rest
    unfolding bytes decode_status_def append_assoc using ok
    by (simp add: decode_status_head_enc read_counts filled decode_status_tail_enc)
qed

section \<open>Payloads stay within the frame bound\<close>

definition bounded_put :: "put \<Rightarrow> bool" where
  "bounded_put p \<longleftrightarrow> (\<forall>w. length (bw_buffer w) \<le> bw_max_bytes w \<longrightarrow>
     length (bw_buffer (snd (p w))) \<le> bw_max_bytes w \<and> bw_max_bytes (snd (p w)) = bw_max_bytes w)"

lemma bounded_primitives:
  "bounded_put (bw_u8 v8)" "bounded_put (bw_u16 v16)" "bounded_put (bw_u32 v32)" "bounded_put (bw_u64 v64)"
  "bounded_put (bw_bytes d)" "bounded_put (bw_block d)" "bounded_put (bw_string t)"
  unfolding bounded_put_def
  using emit_u8.put_bound emit_u16.put_bound emit_u32.put_bound emit_u64.put_bound emit_bytes.put_bound
    emit_block.put_bound emit_string.put_bound
  by (auto simp: emit_u8.put_max emit_u16.put_max emit_u32.put_max emit_u64.put_max emit_bytes.put_max
      emit_block.put_max emit_string.put_max)

lemma bounded_chain:
  assumes "list_all bounded_put ps"
  shows "bounded_put (chain ps)"
  using assms
proof (induction ps)
  case Nil
  then show ?case by (simp add: bounded_put_def)
next
  case (Cons p ps)
  have p: "bounded_put p" and ps: "bounded_put (chain ps)" using Cons by simp_all
  show ?case
    unfolding bounded_put_def
  proof (intro allI impI)
    fix w :: byte_writer assume w: "length (bw_buffer w) \<le> bw_max_bytes w"
    obtain s w1 where w1: "p w = (s, w1)" by (cases "p w")
    with p w have b: "length (bw_buffer w1) \<le> bw_max_bytes w" "bw_max_bytes w1 = bw_max_bytes w"
      unfolding bounded_put_def by (metis snd_conv)+
    with ps have "length (bw_buffer (snd (chain ps w1))) \<le> bw_max_bytes w \<and> bw_max_bytes (snd (chain ps w1)) = bw_max_bytes w"
      unfolding bounded_put_def by metis
    with w1 b show "length (bw_buffer (snd (chain (p # ps) w))) \<le> bw_max_bytes w
        \<and> bw_max_bytes (snd (chain (p # ps) w)) = bw_max_bytes w" by simp
  qed
qed

lemma bounded_puts:
  "list_all bounded_put ps \<Longrightarrow> length (bw_buffer w) \<le> bw_max_bytes w \<Longrightarrow> length (bw_buffer (puts ps w)) \<le> bw_max_bytes w"
proof (induction ps arbitrary: w)
  case (Cons p ps)
  then have "length (bw_buffer (snd (p w))) \<le> bw_max_bytes w" "bw_max_bytes (snd (p w)) = bw_max_bytes w"
    by (auto simp: bounded_put_def)
  then show ?case using Cons.IH [of "snd (p w)"] Cons.prems by (simp add: puts_def)
qed (simp add: puts_def)

lemma buffer_bounded: "list_all bounded_put ps \<Longrightarrow> length (bw_buffer (puts ps (new_writer m))) \<le> m"
  using bounded_puts [of ps "new_writer m"] by (simp add: new_writer_def)

lemma bounded_lists:
  "list_all bounded_put (map bw_u32 xs)" "list_all bounded_put (map bw_u64 ys)"
  "list_all bounded_put (map (\<lambda>t. bw_string (clamp_detail t n)) ts)"
  by (simp_all add: list_all_iff bounded_primitives)

lemma bounded_structures:
  "bounded_put (encode_node k)" "bounded_put (encode_digest d)" "bounded_put (encode_constraints c)"
  "bounded_put (encode_token t)" "bounded_put (encode_capacity cs)" "bounded_put (encode_spine_eligibility e)"
  unfolding encode_node_def encode_digest_def encode_constraints_def encode_token_def encode_capacity_def
    encode_spine_eligibility_def Let_def
  by (intro bounded_chain bounded_primitives, simp add: bounded_primitives encode_digest_def)+

lemma bounded_reports:
  "bounded_put (encode_command_result r)" "bounded_put (encode_assessment a)" "bounded_put (encode_health h)"
  "bounded_put (encode_status s)"
proof -
  have sets: "list_all bounded_put (concat (map encode_spine_set xs))" for xs
    by (induction xs) (simp_all add: encode_spine_set_def bounded_primitives bounded_lists)
  show "bounded_put (encode_command_result r)"
    unfolding encode_command_result_def
    by (rule bounded_chain) (simp add: bounded_primitives bounded_structures)
  show "bounded_put (encode_assessment a)"
    unfolding encode_assessment_def
    by (rule bounded_chain) (simp add: bounded_primitives bounded_structures bounded_lists sets)
  show "bounded_put (encode_health h)" "bounded_put (encode_status s)"
    unfolding encode_health_def encode_status_def
    by (rule bounded_chain, simp add: bounded_primitives bounded_structures bounded_lists)+
qed

lemma encodings_bounded:
  "length (serialize_command c) \<le> 1024 * 1024" "length (serialize_path_authority au) \<le> 1024 * 1024"
  "length (encode_request q) \<le> kMaxBlockBytes" "length (encode_response p) \<le> kMaxBlockBytes"
proof -
  show "length (serialize_command c) \<le> 1024 * 1024" "length (serialize_path_authority au) \<le> 1024 * 1024"
    unfolding serialize_command_def serialize_path_authority_def
    by (rule buffer_bounded, simp add: command_puts_def token_puts_def wire_link_puts_def evidence_puts_def options_puts_def
        authority_puts_def bounded_primitives bounded_lists)+
  show "length (encode_request q) \<le> kMaxBlockBytes" "length (encode_response p) \<le> kMaxBlockBytes"
    unfolding encode_request_def encode_response_def
    by (rule buffer_bounded, simp add: bounded_primitives bounded_structures bounded_reports bounded_lists list_all_iff)+
qed

section \<open>Requests and responses\<close>

lemma protocol_tags:
  "wire_text kRequestDomain" "wire_text kResponseDomain"
  by (simp_all add: wire_text_def string_ok_def kRequestDomain_def kResponseDomain_def kMaxDetailBytes_def ascii_valid_utf8)

lemma read_block_enc:
  "length d < 2 ^ 32 \<Longrightarrow> length d \<le> n \<Longrightarrow> br_block n (rd m pre (block_enc d @ rest)) = (Inr d, rd m (pre @ block_enc d) rest)"
  using br_block_at [where r = "rd m pre (block_enc d @ rest)" and xs = d and rest = rest and m = n] rd_advance [of "block_enc d" _ m pre rest] by simp

definition authority_carried :: "path_authority \<Rightarrow> bool" where
  "authority_carried au \<longleftrightarrow> length (au_topology_digest au) = 32 \<and> length (au_authority_digest au) = 32
     \<and> length (au_spines au) \<le> 4096"

definition request_carried :: "request \<Rightarrow> bool" where
  "request_carried q \<longleftrightarrow> wire_text (rq_client_name q) \<and> length (rq_client_name q) \<le> kMaxNameBytes
     \<and> constraints_carried (rq_constraints q) \<and> length (tk_topology_digest (cm_token (rq_command q))) = 32
     \<and> authority_carried (rq_authority q) \<and> length (tk_topology_digest (rq_token q)) = 32"

definition request_fields :: "request \<Rightarrow> bytes list" where
  "request_fields q = [string_enc kRequestDomain, le_bytes 8 (rq_request_id q), le_bytes 2 (request_kind_u16 (rq_kind q)),
     le_bytes 2 (rq_protocol_version q), string_enc (rq_client_name q), node_enc (rq_from q), node_enc (rq_to q),
     constraints_enc (rq_constraints q), block_enc (serialize_command (rq_command q)),
     block_enc (serialize_path_authority (rq_authority q)), token_enc (rq_token q), le_bytes 8 (rq_ttl_ms q)]"

lemma encode_request_exact:
  assumes "request_carried q"
  shows "encode_request q = concat (request_fields q)"
  unfolding encode_request_def
proof (rule buffer_puts)
  have blocks: "length (serialize_command (rq_command q)) < 2 ^ 32" "length (serialize_path_authority (rq_authority q)) < 2 ^ 32"
    using encodings_bounded(1) [of "rq_command q"] encodings_bounded(2) [of "rq_authority q"] by simp_all
  show "list_all2 emits [bw_string kRequestDomain, bw_u64 (rq_request_id q), bw_u16 (request_kind_u16 (rq_kind q)),
       bw_u16 (rq_protocol_version q), bw_string (clamp_detail (rq_client_name q) kMaxNameBytes),
       encode_node (rq_from q), encode_node (rq_to q), encode_constraints (rq_constraints q),
       bw_block (serialize_command (rq_command q)), bw_block (serialize_path_authority (rq_authority q)),
       encode_token (rq_token q), bw_u64 (rq_ttl_ms q)] (request_fields q)"
    using assms blocks
    by (simp add: request_fields_def request_carried_def emits_intros wire_text_ok protocol_tags node_wire.writes
        constraints_wire.writes token_wire.writes)
  show "length (concat (request_fields q)) \<le> kMaxBlockBytes"
    using assms encodings_bounded(1) [of "rq_command q"] encodings_bounded(2) [of "rq_authority q"]
    by (simp add: request_fields_def request_carried_def string_enc_def block_enc_def node_enc_def constraints_enc_def
        token_enc_def token_fields_def kMaxBlockBytes_def kMaxNameBytes_def kRequestDomain_def)
qed

lemma request_roundtrip:
  assumes "request_carried q" and "length (encode_request q) \<le> unat (tl_max_frame_payload limits)"
  shows "decode_request (encode_request q) limits = Inr q"
proof -
  let ?cmd = "serialize_command (rq_command q)" and ?au = "serialize_path_authority (rq_authority q)"
  have "length ?cmd + length ?au \<le> length (encode_request q)"
    unfolding encode_request_exact [OF assms(1)] by (simp add: request_fields_def block_enc_def)
  then have blocks: "length ?cmd < 2 ^ 32" "length ?au < 2 ^ 32" "length ?cmd \<le> unat (tl_max_frame_payload limits)"
      "length ?au \<le> unat (tl_max_frame_payload limits)"
    using assms(2) encodings_bounded(1) [of "rq_command q"] encodings_bounded(2) [of "rq_authority q"] by simp_all
  have inner: "deserialize_command ?cmd = Inr (rq_command q)" "deserialize_path_authority ?au = Inr (rq_authority q)"
    using assms(1) command_roundtrip authority_roundtrip by (simp_all add: request_carried_def authority_carried_def)
  show ?thesis
    unfolding decode_request_def encode_request_exact [OF assms(1)] new_reader_rd request_fields_def
    using assms(1) blocks
    by (simp add: request_carried_def codec_simps wire_text_ok protocol_tags node_wire.reads constraints_wire.reads
        token_wire.reads read_block_enc wire_enum_bounds rd_end inner)
qed

definition response_writable :: "response \<Rightarrow> bool" where
  "response_writable p \<longleftrightarrow> wire_text (rs_detail p) \<and> length (rs_topology_digest p) = 32 \<and> wire_text (rs_server_name p)
     \<and> length (rs_server_name p) \<le> kMaxNameBytes \<and> status_carried (rs_status p) \<and> assessment_writable (rs_assessment p)
     \<and> length (rs_spines p) \<le> kMaxWireSpines \<and> list_all (\<lambda>e. wire_text (se_detail e)) (rs_spines p)
     \<and> health_carried (rs_health p) \<and> result_carried (rs_command_result p) \<and> authority_carried (rs_path_authority p)
     \<and> wire_text (ck_detail (rs_authority_check p)) \<and> length (tk_topology_digest (rs_lease_token p)) = 32
     \<and> wire_text (rs_lease_requester p) \<and> length (rs_lease_requester p) \<le> kMaxNameBytes"

definition response_carried :: "response \<Rightarrow> bool" where
  "response_carried p \<longleftrightarrow> response_writable p \<and> assessment_carried (rs_assessment p)"

definition response_head_fields :: "response \<Rightarrow> bytes list" where
  "response_head_fields p = [string_enc kResponseDomain, le_bytes 8 (rs_request_id p), le_bytes 2 (rs_code p),
     string_enc (rs_detail p), le_bytes 2 (rs_protocol_version p), le_bytes 8 (inc_hi (rs_controller p)),
     le_bytes 8 (inc_lo (rs_controller p)), le_bytes 8 (rs_epoch p), le_bytes 8 (rs_generation p), rs_topology_digest p,
     le_bytes 4 (rs_max_frame_payload p), string_enc (rs_server_name p), le_bytes 8 (rs_server_uptime_ms p)]"

definition response_tail_fields :: "response \<Rightarrow> bytes list" where
  "response_tail_fields p = [le_bytes 2 (status_code_u16 (ck_code (rs_authority_check p))),
     string_enc (ck_detail (rs_authority_check p)), token_enc (rs_lease_token p), string_enc (rs_lease_requester p)]"

definition response_fields :: "response \<Rightarrow> bytes list" where
  "response_fields p = response_head_fields p
     @ [concat (status_fields (rs_status p)), concat (assessment_fields (rs_assessment p)),
        le_bytes 4 (of_nat (length (rs_spines p)) :: u32)]
     @ map spine_eligibility_enc (rs_spines p)
     @ [concat (health_fields (rs_health p)), result_enc (rs_command_result p),
        block_enc (serialize_path_authority (rs_path_authority p))]
     @ response_tail_fields p"

definition response_size :: "response \<Rightarrow> nat" where
  "response_size p = length (concat (response_fields p))"

text \<open>What of a response travels.\<close>

definition wire_response :: "response \<Rightarrow> response" where
  "wire_response p = p\<lparr>rs_status := wire_status (rs_status p)\<rparr>"

lemma encode_response_exact:
  assumes "response_writable p" and "response_size p \<le> kMaxBlockBytes"
  shows "encode_response p = concat (response_fields p)"
  unfolding encode_response_def
proof (rule buffer_puts)
  have block: "length (serialize_path_authority (rs_path_authority p)) < 2 ^ 32"
    using encodings_bounded(2) [of "rs_path_authority p"] by simp
  have entries: "list_all2 emits (map encode_spine_eligibility (rs_spines p)) (map spine_eligibility_enc (rs_spines p))"
    using assms(1) entry_wire.writes_all by (simp add: response_writable_def)
  have head: "list_all2 emits [bw_string kResponseDomain, bw_u64 (rs_request_id p), bw_u16 (rs_code p),
         bw_string (clamp_detail (rs_detail p) kMaxDetailBytes), bw_u16 (rs_protocol_version p),
         bw_u64 (inc_hi (rs_controller p)), bw_u64 (inc_lo (rs_controller p)), bw_u64 (rs_epoch p),
         bw_u64 (rs_generation p), encode_digest (rs_topology_digest p), bw_u32 (rs_max_frame_payload p),
         bw_string (clamp_detail (rs_server_name p) kMaxNameBytes), bw_u64 (rs_server_uptime_ms p)] (response_head_fields p)"
    using assms(1) by (simp add: response_head_fields_def response_writable_def emits_intros wire_text_ok protocol_tags
        digest_wire.writes)
  have mid: "list_all2 emits [encode_status (rs_status p), encode_assessment (rs_assessment p),
        bw_u32 (of_nat (length (rs_spines p)))]
      [concat (status_fields (rs_status p)), concat (assessment_fields (rs_assessment p)),
        le_bytes 4 (of_nat (length (rs_spines p)) :: u32)]"
    using assms(1) by (simp add: response_writable_def emits_status emits_assessment emits_intros)
  have late: "list_all2 emits [encode_health (rs_health p), encode_command_result (rs_command_result p),
        bw_block (serialize_path_authority (rs_path_authority p))]
      [concat (health_fields (rs_health p)), result_enc (rs_command_result p),
        block_enc (serialize_path_authority (rs_path_authority p))]"
    using assms(1) block by (simp add: response_writable_def health_wire.writes result_wire.writes emits_intros)
  have tail: "list_all2 emits [bw_u16 (status_code_u16 (ck_code (rs_authority_check p))),
          bw_string (clamp_detail (ck_detail (rs_authority_check p)) kMaxDetailBytes), encode_token (rs_lease_token p),
          bw_string (clamp_detail (rs_lease_requester p) kMaxNameBytes)] (response_tail_fields p)"
    using assms(1) by (simp add: response_tail_fields_def response_writable_def emits_intros wire_text_ok token_wire.writes)
  show "list_all2 emits ([bw_string kResponseDomain, bw_u64 (rs_request_id p), bw_u16 (rs_code p),
         bw_string (clamp_detail (rs_detail p) kMaxDetailBytes), bw_u16 (rs_protocol_version p),
         bw_u64 (inc_hi (rs_controller p)), bw_u64 (inc_lo (rs_controller p)), bw_u64 (rs_epoch p),
         bw_u64 (rs_generation p), encode_digest (rs_topology_digest p), bw_u32 (rs_max_frame_payload p),
         bw_string (clamp_detail (rs_server_name p) kMaxNameBytes), bw_u64 (rs_server_uptime_ms p),
         encode_status (rs_status p), encode_assessment (rs_assessment p), bw_u32 (of_nat (length (rs_spines p)))]
       @ map encode_spine_eligibility (rs_spines p)
       @ [encode_health (rs_health p), encode_command_result (rs_command_result p),
          bw_block (serialize_path_authority (rs_path_authority p)),
          bw_u16 (status_code_u16 (ck_code (rs_authority_check p))),
          bw_string (clamp_detail (ck_detail (rs_authority_check p)) kMaxDetailBytes), encode_token (rs_lease_token p),
          bw_string (clamp_detail (rs_lease_requester p) kMaxNameBytes)]) (response_fields p)"
    using list_all2_appendI [OF head list_all2_appendI [OF mid list_all2_appendI [OF entries
          list_all2_appendI [OF late tail]]]]
    by (simp add: response_fields_def)
  show "length (concat (response_fields p)) \<le> kMaxBlockBytes" using assms(2) by (simp add: response_size_def)
qed

lemma decode_response_head_enc:
  assumes "response_writable p"
  shows "decode_response_head (wrd pre (concat (response_head_fields p) @ rest))
    = (Inr (default_response\<lparr>rs_request_id := rs_request_id p, rs_code := rs_code p, rs_detail := rs_detail p,
           rs_protocol_version := rs_protocol_version p, rs_controller := rs_controller p, rs_epoch := rs_epoch p,
           rs_generation := rs_generation p, rs_topology_digest := rs_topology_digest p,
           rs_max_frame_payload := rs_max_frame_payload p, rs_server_name := rs_server_name p,
           rs_server_uptime_ms := rs_server_uptime_ms p\<rparr>), wrd (pre @ concat (response_head_fields p)) rest)"
  using assms
  by (simp add: decode_response_head_def response_head_fields_def response_writable_def codec_simps wire_text_ok protocol_tags
      digest_wire.reads)

lemma decode_spine_list_enc:
  assumes "length xs \<le> kMaxWireSpines" and "list_all (\<lambda>e. wire_text (se_detail e)) xs"
  shows "decode_spine_list (wrd pre (le_bytes 4 (of_nat (length xs) :: u32) @ concat (map spine_eligibility_enc xs) @ rest))
    = (Inr xs, wrd (pre @ le_bytes 4 (of_nat (length xs) :: u32) @ concat (map spine_eligibility_enc xs)) rest)"
  using assms small_count [of xs]
  by (simp add: decode_spine_list_def codec_simps kMaxWireSpines_def entry_wire.decodes_n not_less)

lemma decode_response_tail_enc:
  assumes "response_writable p"
  shows "decode_response_tail q (wrd pre (concat (response_tail_fields p)))
    = Inr (q\<lparr>rs_authority_check := rs_authority_check p, rs_lease_token := rs_lease_token p,
             rs_lease_requester := rs_lease_requester p\<rparr>)"
  using assms text_wire.reads [of "rs_lease_requester p" _ "[]"]
  by (simp add: decode_response_tail_def response_tail_fields_def response_writable_def codec_simps wire_text_ok
      token_wire.reads rd_end)

lemma response_roundtrip:
  assumes "response_carried p" and "response_size p \<le> kMaxBlockBytes"
    and "response_size p \<le> unat (tl_max_frame_payload limits)"
  shows "decode_response (encode_response p) limits = Inr (wire_response p)"
proof -
  let ?p = "wire_response p" and ?au = "serialize_path_authority (rs_path_authority p)"
  have ok: "response_writable ?p" and st: "status_carried (wire_status (rs_status p))"
    using assms(1) by (simp_all add: wire_response_def response_carried_def response_writable_def status_carried_def wire_status_def)
  have same: "encode_response ?p = encode_response p"
    by (simp add: wire_response_def encode_response_def encode_wire_status)
  have fields: "response_fields ?p = response_fields p"
    by (simp add: wire_response_def response_fields_def response_head_fields_def response_tail_fields_def status_fields_def
        status_head_fields_def status_tail_fields_def status_counts_def status_counters_def wire_status_def)
  have "length ?au \<le> response_size p"
    by (simp add: response_size_def response_fields_def block_enc_def)
  then have au: "length ?au < 2 ^ 32" "length ?au \<le> unat (tl_max_frame_payload limits)"
      "deserialize_path_authority ?au = Inr (rs_path_authority p)"
    using assms encodings_bounded(2) [of "rs_path_authority p"] authority_roundtrip
    by (simp_all add: response_carried_def response_writable_def authority_carried_def)
  have "response_size ?p \<le> kMaxBlockBytes" using assms(2) unfolding response_size_def fields .
  from encode_response_exact [OF ok this] have exact: "encode_response p = concat (response_fields ?p)"
    unfolding same .
  have bytes: "encode_response p = concat (response_head_fields ?p) @ concat (status_fields (rs_status ?p))
      @ concat (assessment_fields (rs_assessment p)) @ le_bytes 4 (of_nat (length (rs_spines p)) :: u32)
      @ concat (map spine_eligibility_enc (rs_spines p)) @ concat (health_fields (rs_health p))
      @ result_enc (rs_command_result p) @ block_enc ?au @ concat (response_tail_fields p)"
    unfolding exact response_fields_def by (simp add: wire_response_def response_tail_fields_def)
  show ?thesis
    unfolding decode_response_def bytes new_reader_rd decode_response_head_enc [OF ok]
    using assms(1) st au(1,2) wire_status_idem [of "rs_status p"]
    by (simp add: status_wire.reads assessment_wire.reads decode_spine_list_enc health_wire.reads result_wire.reads
        read_block_enc au(3) decode_response_tail_enc response_carried_def response_writable_def wire_response_def
        default_response_def)
qed

end
