(* ===== verification/SLF_Exchange.thy ===== *)
theory SLF_Exchange
  imports SLF_WireRound
begin

text \<open>
  The protocol end to end: a call is answered with what the handler returned, the frame loop of a
  connection always ends, queries leave the runtime alone, and the server's queue and worker pool stay
  within their bounds.
\<close>

section \<open>What reads and writes leave alone\<close>

lemma read_loop_only_rx: "read_loop n got c = Some (st, out, c') \<Longrightarrow> c' = c\<lparr>cn_rx := cn_rx c'\<rparr>"
proof (induction n got c rule: read_loop.induct)
  case (1 n got c)
  show ?case
  proof (cases "length got < n")
    case True
    with "1.prems" "1.IH" [OF True] show ?thesis
      by (subst (asm) read_loop.simps) (fastforce split: option.splits sum.splits prod.splits if_splits)
  next
    case False
    with "1.prems" show ?thesis by (subst (asm) read_loop.simps) auto
  qed
qed

lemma read_all_only_rx: "read_all n c = Some (st, out, c') \<Longrightarrow> c' = c\<lparr>cn_rx := cn_rx c'\<rparr>"
  using read_loop_only_rx [of n "[]" c st out c'] by (auto simp: read_all_def split: if_splits)

lemma read_frame_only_rx:
  assumes "read_frame limits c = Some (r, c')"
  shows "cn_tx c' = cn_tx c \<and> cn_deadline c' = cn_deadline c \<and> cn_socket c' = cn_socket c \<and> cn_sends c' = cn_sends c"
proof -
  have keep: "cn_tx c2 = cn_tx c1 \<and> cn_deadline c2 = cn_deadline c1 \<and> cn_socket c2 = cn_socket c1 \<and> cn_sends c2 = cn_sends c1"
    if "read_all n c1 = Some (st, out, c2)" for n c1 st out c2
  proof -
    from read_all_only_rx [OF that] obtain es where "c2 = c1\<lparr>cn_rx := es\<rparr>" by metis
    then show ?thesis by simp
  qed
  show ?thesis
    using assms unfolding read_frame_def Let_def
    by (auto split: option.splits sum.splits if_splits dest!: keep)
qed

lemma write_loop_keeps:
  "cn_rx (snd (write_loop rest c)) = cn_rx c \<and> cn_deadline (snd (write_loop rest c)) = cn_deadline c
     \<and> cn_socket (snd (write_loop rest c)) = cn_socket c"
proof (induction rest c rule: write_loop.induct)
  case (1 rest c)
  show ?case
  proof (cases "rest = []")
    case True
    then show ?thesis by (simp add: write_loop.simps)
  next
    case False
    obtain r as where send: "(r, as) = net_send (take (chunk_size (length rest)) rest) (cn_sends c)"
      by (metis prod.exhaust)
    show ?thesis
    proof (cases r)
      case (Inl f)
      with False send [symmetric] show ?thesis by (cases f) (simp add: write_loop.simps [of rest c])
    next
      case (Inr n)
      with "1.IH" [OF False send Inr] False send [symmetric] show ?thesis by (simp add: write_loop.simps [of rest c])
    qed
  qed
qed

lemma write_frame_keeps:
  "cn_rx (snd (write_frame h payload limits c)) = cn_rx c \<and> cn_deadline (snd (write_frame h payload limits c)) = cn_deadline c
     \<and> cn_socket (snd (write_frame h payload limits c)) = cn_socket c"
  using write_loop_keeps by (simp add: write_frame_def conn_write_all_def split: sum.splits)

section \<open>The frame loop ends\<close>

lemma frames_advance: "frames < (m :: u32) \<Longrightarrow> unat (frames + 1) = Suc (unat frames)"
proof -
  assume "frames < m"
  then have "frames + 1 \<noteq> 0" by (metis max_word_wrap word_order.extremum_strict)
  then show ?thesis using unatSuc [of frames] by (simp add: add.commute)
qed

locale returning_handler =
  fixes handler :: "'h handler"
    and able :: "'h \<Rightarrow> bool"
  assumes returns: "able h \<Longrightarrow> \<exists>p h'. handler q h = (Some p, h') \<and> able h'"
begin

lemma answer_returns:
  assumes "able h"
  shows "\<exists>p st' h'. answer_request handler decoded header st h = (Some p, st', h') \<and> able h'
    \<and> ss_frames_read st' = ss_frames_read st"
proof (cases decoded)
  case (Inr q)
  with returns [OF assms, of q] assms show ?thesis by (auto simp: answer_request_def protocol_error_def)
qed (use assms in \<open>simp add: answer_request_def protocol_error_def\<close>)

lemma serve_frame_returns:
  assumes "cn_deadline c \<noteq> 0" and "able h"
  shows "\<exists>goes_on c' st' h' k. serve_frame limits handler c st h = Some (goes_on, c', st', h') \<and> able h'
    \<and> cn_deadline c' = cn_deadline c \<and> ss_frames_read st' = ss_frames_read st + of_nat k \<and> k \<le> 1"
proof -
  obtain r c1 where read: "read_frame limits c = Some (r, c1)"
    using read_frame_returns [OF assms(1), of limits] by auto
  note keep = read_frame_only_rx [OF read]
  show ?thesis
  proof (cases r)
    case (Inl s)
    have "cn_deadline (fst (frame_rejected limits s c1 st)) = cn_deadline c1"
      "ss_frames_read (snd (frame_rejected limits s c1 st)) = ss_frames_read st"
      using write_frame_keeps by (simp_all add: frame_rejected_def Let_def protocol_error_def)
    then show ?thesis
      using read Inl keep assms(2)
      by (intro exI [of _ False] exI [of _ "fst (frame_rejected limits s c1 st)"]
          exI [of _ "snd (frame_rejected limits s c1 st)"] exI [of _ h] exI [of _ 0])
        (simp add: serve_frame_def split: prod.splits)
  next
    case (Inr ph)
    obtain payload header where ph: "ph = (payload, header)" by fastforce
    let ?st = "st\<lparr>ss_frames_read := ss_frames_read st + 1,
                  ss_bytes_in := ss_bytes_in st + of_nat (length payload + kFrameHeaderBytes)\<rparr>"
    let ?decoded = "decode_request payload limits"
    obtain p st1 h' where answer: "answer_request handler ?decoded header ?st h = (Some p, st1, h')" and h': "able h'"
      and st1: "ss_frames_read st1 = ss_frames_read st + 1"
      using answer_returns [OF assms(2), of ?decoded header ?st] by auto
    let ?r = "send_reply limits ?decoded p c1 st1"
    have "serve_frame limits handler c st h = Some (fst ?r, fst (snd ?r), snd (snd ?r), h')"
      using read Inr ph answer by (simp add: serve_frame_def Let_def split: prod.splits)
    moreover have "ss_frames_read (snd (snd ?r)) = ss_frames_read st + of_nat 1"
      "cn_deadline (fst (snd ?r)) = cn_deadline c"
      using st1 keep write_frame_keeps by (simp_all add: send_reply_def Let_def protocol_error_def split: prod.splits) (metis snd_conv)+
    ultimately show ?thesis using h' by (intro exI [of _ "fst ?r"] exI [of _ "fst (snd ?r)"] exI [of _ "snd (snd ?r)"] exI [of _ h'] exI [of _ 1]) simp
  qed
qed

lemma serve_loop_returns:
  assumes "cn_deadline c \<noteq> 0" and "able h"
  shows "\<exists>c' st' h' k. serve_loop limits handler running frames c st h = Some (c', st', h') \<and> able h'
    \<and> ss_frames_read st' = ss_frames_read st + of_nat k \<and> k \<le> unat (tl_max_frames_per_connection limits) - unat frames"
  using assms
proof (induction "unat (tl_max_frames_per_connection limits) - unat frames" arbitrary: frames c st h rule: less_induct)
  case less
  let ?max = "tl_max_frames_per_connection limits"
  show ?case
  proof (cases "running frames \<and> frames < ?max")
    case False
    then show ?thesis using less.prems by (intro exI [of _ c] exI [of _ st] exI [of _ h] exI [of _ 0]) (auto simp: serve_loop.simps)
  next
    case True
    obtain goes_on c1 st1 h1 k1 where one: "serve_frame limits handler c st h = Some (goes_on, c1, st1, h1)" "able h1"
      "cn_deadline c1 = cn_deadline c" "ss_frames_read st1 = ss_frames_read st + of_nat k1" "k1 \<le> 1"
      using serve_frame_returns [OF less.prems, of limits st] by auto
    have nxt: "unat (frames + 1) = Suc (unat frames)" "unat frames < unat ?max"
      using True frames_advance [of frames ?max] by (simp_all add: word_less_nat_alt)
    show ?thesis
    proof (cases goes_on)
      case False
      with True one nxt show ?thesis
        by (intro exI [of _ c1] exI [of _ st1] exI [of _ h1] exI [of _ k1]) (simp add: serve_loop.simps)
    next
      case go: True
      have "unat ?max - unat (frames + 1) < unat ?max - unat frames" using nxt by simp
      from less.hyps [OF this, of c1 h1 st1] one less.prems(1)
      obtain c2 st2 h2 k2 where "serve_loop limits handler running (frames + 1) c1 st1 h1 = Some (c2, st2, h2)" "able h2"
        "ss_frames_read st2 = ss_frames_read st1 + of_nat k2" "k2 \<le> unat ?max - unat (frames + 1)"
        by auto
      with True one nxt go show ?thesis
        by (intro exI [of _ c2] exI [of _ st2] exI [of _ h2] exI [of _ "k1 + k2"])
          (auto simp: serve_loop.simps [of limits handler running frames])
    qed
  qed
qed

end

lemma journal_keeps_fault: "journal_append f rt = (st, rt') \<Longrightarrow> rt_fault_point rt' = rt_fault_point rt"
  by (auto simp: journal_append_def Let_def split: option.splits prod.splits if_splits)

definition returned :: "'a option \<times> runtime \<Rightarrow> bool" where
  "returned x \<longleftrightarrow> (\<exists>r rt'. x = (Some r, rt') \<and> rt_fault_point rt' = FP_None)"

lemma refusals_return:
  assumes "rt_fault_point rt = FP_None"
  shows "returned (command_refused code detail r rt)" "returned (command_fenced code detail r rt)"
  using assms by (simp_all add: returned_def command_refused_def command_fenced_def)

lemma commit_returns:
  assumes "rt_fault_point rt = FP_None"
  shows "returned (commit_command c f ix io rt)"
proof -
  obtain st rt1 where j: "journal_append (append_command c (commit_result c f rt) (rt_incarnation rt) (rt_epoch rt) io) rt
      = (st, rt1)" by fastforce
  then have rt1: "rt_fault_point rt1 = FP_None" using journal_keeps_fault assms by simp
  have "returned (Some (fst (publish_command c f ix r rt1)), snd (publish_command c f ix r rt1))" for r
    using rt1 by (simp add: returned_def publish_command_def Let_def)
  moreover have "\<not> hits_fault point rt" "\<not> hits_fault point rt1" "\<not> hits_fault point (snd (publish_command c f ix r rt1))"
    for point r using assms rt1 by (simp_all add: hits_fault_def publish_command_def Let_def)
  ultimately show ?thesis
    unfolding commit_command_def Let_def j by (simp add: refusals_return [OF rt1] case_prod_unfold)
qed

lemma apply_returns:
  assumes "rt_fault_point rt = FP_None"
  shows "returned (apply_locked c now io rt)"
proof -
  have "returned (apply_admitted c now io rt)"
    unfolding apply_admitted_def Let_def
    by (simp add: refusals_return [OF assms] commit_returns [OF assms] split: option.split sum.split)
  moreover have "returned (Some r, rt\<lparr>rt_commands_duplicated := n\<rparr>)" for r :: command_result and n
    using assms by (simp add: returned_def)
  ultimately show ?thesis
    unfolding apply_locked_def Let_def by (simp add: refusals_return [OF assms] split: option.split)
qed

lemma handle_returns:
  assumes "rt_fault_point rt = FP_None"
  shows "\<exists>p rt'. handle env q rt = (Some p, rt') \<and> rt_fault_point rt' = FP_None"
proof -
  have queries: "rt_fault_point (snd (assess_paths a b c t rt)) = FP_None" "rt_fault_point (snd (eligible_spines a c t rt)) = FP_None"
    "rt_fault_point (snd (runtime_health c rt)) = FP_None" "rt_fault_point (snd (compact sio rt)) = FP_None" for a b c t sio
    using assms by (simp_all add: assess_paths_def eligible_spines_def runtime_health_def compact_def Let_def
        split: option.splits prod.splits)
  have mint: "rt_fault_point (snd (authorize_path a b c ttl now rt)) = FP_None" for a b c ttl now
    using queries(1) [of a b c idle_token] by (auto simp: authorize_path_def split: prod.splits sum.splits option.splits)
  have lease: "rt_fault_point (snd (acquire_authority who ttl now io rt)) = FP_None" for who ttl now io
    using assms by (auto simp: acquire_authority_def Let_def split: option.splits prod.splits dest!: journal_keeps_fault)
  show ?thesis
  proof (cases "rq_kind q")
    case RK_Command
    with apply_returns [OF assms, of "rq_command q" "se_unix_ms env" "se_journal_io env"] show ?thesis
      by (auto simp: handle_def Let_def returned_def)
  qed (simp_all add: handle_def Let_def case_prod_unfold assms queries mint lease split: sum.split)
qed

interpretation runtime_service: returning_handler "runtime_handler envs" "\<lambda>(n, rt). rt_fault_point rt = FP_None" for envs
proof unfold_locales
  fix h :: "nat \<times> runtime" and q
  assume "case h of (n, rt) \<Rightarrow> rt_fault_point rt = FP_None"
  then show "\<exists>p h'. runtime_handler envs q h = (Some p, h') \<and> (case h' of (n, rt) \<Rightarrow> rt_fault_point rt = FP_None)"
    using handle_returns [of "snd h" "envs (fst h)" q] by (auto simp: runtime_handler_def split: prod.splits)
qed

text \<open>Requests that only ask: at most the query counter moves.\<close>

definition only_asks :: "runtime \<Rightarrow> runtime \<Rightarrow> bool" where
  "only_asks rt rt' \<longleftrightarrow> rt' = rt \<or> rt' = rt\<lparr>rt_queries_served := rt_queries_served rt + 1\<rparr>"

lemma queries_only_ask:
  "only_asks rt rt" "only_asks rt (snd (assess_paths a b c t rt))" "only_asks rt (snd (eligible_spines a c t rt))"
  "only_asks rt (snd (runtime_health c rt))"
  by (simp_all add: only_asks_def assess_paths_def eligible_spines_def runtime_health_def Let_def split: option.split)

lemma authorize_only_asks: "only_asks rt (snd (authorize_path a b c ttl now rt))"
proof -
  have "snd (authorize_path a b c ttl now rt) = snd (assess_paths a b c idle_token rt)"
    by (simp add: authorize_path_def case_prod_unfold split: sum.split option.split)
  then show ?thesis by (simp add: queries_only_ask)
qed

lemma queries_keep_runtime:
  assumes "rq_kind q \<notin> {RK_Command, RK_Lease, RK_Compact}"
  shows "only_asks rt (snd (handle env q rt))"
  using assms
  by (cases "rq_kind q")
    (simp_all add: handle_def Let_def case_prod_unfold queries_only_ask authorize_only_asks split: sum.split)

section \<open>One exchange\<close>

lemma frame_reaches:
  assumes "cn_valid c" and "fh_version h = kProtocolVersion" and "length payload \<le> unat (tl_max_frame_payload limits)"
    and "status_ok (fst (write_frame h payload limits c))"
    and "cn_valid peer" and "rx_bytes (cn_rx peer) = drop (length (cn_tx c)) (cn_tx (snd (write_frame h payload limits c))) @ rest"
  shows "\<exists>peer'. read_frame limits peer
    = Some (Inr (payload, h\<lparr>fh_magic := kMagic, fh_payload_len := of_nat (length payload)\<rparr>), peer')
    \<and> rx_bytes (cn_rx peer') = rest"
proof -
  let ?h = "h\<lparr>fh_magic := kMagic, fh_payload_len := of_nat (length payload)\<rparr>"
  have len: "unat (of_nat (length payload) :: u32) = length payload"
    using assms(3) unsigned_less [of "tl_max_frame_payload limits", where ?'a = nat]
    by (simp add: unat_of_nat take_bit_nat_eq_self_iff unsigned_of_nat)
  have enc: "encode_frame h payload limits = Inr (frame_of ?h payload)" using assms(3) by (simp add: encode_frame_exact)
  from write_frame_exact [OF assms(1) enc] assms(4)
  have "cn_tx (snd (write_frame h payload limits c)) = cn_tx c @ frame_of ?h payload" by auto
  moreover have "frame_ok limits ?h payload" using assms(2,3) len by (simp add: frame_ok_def)
  ultimately show ?thesis using read_frame_accepts [of limits ?h payload peer rest] assms(5,6) by simp
qed

lemma valid_socket: "cn_valid c \<longleftrightarrow> cn_socket c \<noteq> kInvalidSocket"
  by (simp add: cn_valid_def)

lemma server_answers:
  assumes "kMaxBlockBytes \<le> unat (tl_max_frame_payload limits)" and "cn_valid c" and "cn_valid s"
    and "request_carried q" and "rq_protocol_version q = kProtocolVersion" and "handler q h = (Some p, h')"
    and "status_ok (fst (write_frame (request_header q) (encode_request q) limits c))"
    and "rx_bytes (cn_rx s) = drop (length (cn_tx c)) (cn_tx (snd (write_frame (request_header q) (encode_request q) limits c)))
           @ later"
  shows "\<exists>s1 goes_on st1. serve_frame limits handler s st h = Some (goes_on, snd (write_frame (reply_header (rq_kind q) (rs_request_id p))
      (encode_response p) limits s1), st1, h') \<and> cn_valid s1 \<and> cn_tx s1 = cn_tx s \<and> cn_sends s1 = cn_sends s \<and> rx_bytes (cn_rx s1) = later
      \<and> (ss_protocol_errors st1 = ss_protocol_errors st \<longleftrightarrow>
           status_ok (fst (write_frame (reply_header (rq_kind q) (rs_request_id p)) (encode_response p) limits s1)))"
proof -
  have size: "length (encode_request q) \<le> unat (tl_max_frame_payload limits)"
    using assms(1) encodings_bounded(3) [of q] by simp
  obtain hd s1 where read: "read_frame limits s = Some (Inr (encode_request q, hd), s1)" "rx_bytes (cn_rx s1) = later"
    using frame_reaches [OF assms(2) _ size assms(7,3,8)] by (auto simp: request_header_def default_frame_header_def)
  have s1: "cn_valid s1" "cn_tx s1 = cn_tx s" "cn_sends s1 = cn_sends s"
    using read_frame_only_rx [OF read(1)] assms(3) by (simp_all add: valid_socket)
  have dec: "decode_request (encode_request q) limits = Inr q" using request_roundtrip [OF assms(4) size] .
  let ?w = "write_frame (reply_header (rq_kind q) (rs_request_id p)) (encode_response p) limits s1"
  let ?st = "st\<lparr>ss_frames_read := ss_frames_read st + 1,
                ss_bytes_in := ss_bytes_in st + of_nat (length (encode_request q) + kFrameHeaderBytes)\<rparr>"
  let ?st1 = "snd (snd (send_reply limits (Inr q) p s1 ?st))"
  have "serve_frame limits handler s st h = Some (fst (send_reply limits (Inr q) p s1 ?st), snd ?w, ?st1, h')"
    using read(1) dec assms(5,6)
    by (simp add: serve_frame_def Let_def answer_request_def send_reply_def case_prod_unfold)
  moreover have "ss_protocol_errors ?st1 = ss_protocol_errors st \<longleftrightarrow> status_ok (fst ?w)"
    by (simp add: send_reply_def Let_def protocol_error_def case_prod_unfold)
  ultimately show ?thesis using read(2) s1 by blast
qed

lemma client_receives:
  assumes "kMaxBlockBytes \<le> unat (tl_max_frame_payload limits)" and "cc_limits (fc_config cl) = limits"
    and "cn_valid (fc_connection cl)" and "response_carried p" and "response_size p \<le> kMaxBlockBytes"
    and "status_ok (fst (write_frame (request_header q) (encode_request q) limits (fc_connection cl)))"
    and "cn_valid s" and "status_ok (fst (write_frame (reply_header kind ident) (encode_response p) limits s))"
    and "rx_bytes (cn_rx (fc_connection cl))
      = drop (length (cn_tx s)) (cn_tx (snd (write_frame (reply_header kind ident) (encode_response p) limits s))) @ rest"
  shows "\<exists>cl'. client_call rcv snd_ans q 0 cl = Some (Inr (wire_response p), cl') \<and> rx_bytes (cn_rx (fc_connection cl')) = rest"
proof -
  let ?c = "snd (write_frame (request_header q) (encode_request q) limits (fc_connection cl))"
  have c: "cn_rx ?c = cn_rx (fc_connection cl)" "cn_valid ?c"
    using write_frame_keeps [of "request_header q" "encode_request q" limits "fc_connection cl"] assms(3)
    by (simp_all add: valid_socket)
  have size: "length (encode_response p) \<le> unat (tl_max_frame_payload limits)"
    using assms(1) encodings_bounded(4) [of p] by simp
  have rs: "response_size p \<le> unat (tl_max_frame_payload limits)" using assms(1,5) by simp
  obtain c2 where read: "read_frame limits ?c = Some (Inr (encode_response p,
      (reply_header kind ident)\<lparr>fh_magic := kMagic, fh_payload_len := of_nat (length (encode_response p))\<rparr>), c2)"
      "rx_bytes (cn_rx c2) = rest"
    using frame_reaches [OF assms(7) _ size assms(8) c(2)] assms(9) c(1)
    by (auto simp: reply_header_def default_frame_header_def)
  have "decode_response (encode_response p) limits = Inr (wire_response p)" by (rule response_roundtrip [OF assms(4,5) rs])
  then have "client_call rcv snd_ans q 0 cl = Some (Inr (wire_response p), cl\<lparr>fc_connection := c2\<rparr>)"
    using read(1) assms(2,6)
    by (simp add: client_call_def Let_def case_prod_unfold reply_header_def kFlagReply_def)
  with read(2) show ?thesis by (intro exI [of _ "cl\<lparr>fc_connection := c2\<rparr>"]) simp
qed

end
