(* ===== verification/SLF_Server.thy ===== *)
theory SLF_Server
  imports SLF_Exchange SLF_Boot
begin

text \<open>
  The server as a state machine over its accept thread, its workers and the calls of \<open>start\<close> and
  \<open>stop\<close>, and the properties of the protocol. \<open>start\<close> is called on a server that is not running, as
  its callers do; a worker handles one frame in one step.
\<close>

section \<open>Accept thread and workers\<close>

inductive server_step :: "'h handler \<Rightarrow> fabric_server \<times> 'h \<Rightarrow> fabric_server \<times> 'h \<Rightarrow> bool" for handler where
  starts: "\<not> sv_lifecycle_started s \<Longrightarrow> sv_workers s = 0 \<Longrightarrow> server_step handler (s, h) (snd (server_start os s), h)"
| accepts: "0 < sv_workers s \<Longrightarrow> server_step handler (s, h) (server_accepts c s, h)"
| takes: "length (sv_active s) < sv_workers s \<Longrightarrow> server_step handler (s, h) (worker_takes rcv snd_ans s, h)"
| serves: "i < length (sv_active s) \<Longrightarrow> worker_serves handler i s h = Some (s', h') \<Longrightarrow> server_step handler (s, h) (s', h')"
| stops: "server_step handler (s, h) (server_stop_begin s, h)"
| stopped: "\<not> sv_running s \<Longrightarrow> sv_active s = [] \<Longrightarrow> server_step handler (s, h) (server_stop_end s, h)"

inductive_cases server_stepE: "server_step handler (s, h) (s', h')"

definition server_inv :: "server_config \<Rightarrow> fabric_server \<Rightarrow> bool" where
  "server_inv config s \<longleftrightarrow> sv_config s = config
     \<and> length (sv_queue s) \<le> unat (tl_max_connections (sc_limits config))
     \<and> length (sv_active s) \<le> sv_workers s \<and> sv_workers s \<le> worker_count (sc_limits config)
     \<and> list_all (\<lambda>(c, frames). frames \<le> tl_max_frames_per_connection (sc_limits config)) (sv_active s)"

lemma inv_created: "server_create config has_handler = Inr s \<Longrightarrow> server_inv config s"
  by (auto simp: server_create_def server_inv_def split: if_splits)

lemma inv_start:
  "server_inv config s \<Longrightarrow> sv_workers s = 0 \<Longrightarrow> server_inv config (snd (server_start os s))"
  by (auto simp: server_start_def server_inv_def split: sum.split)

lemma inv_accepts: "server_inv config s \<Longrightarrow> server_inv config (server_accepts c s)"
  by (auto simp: server_accepts_def server_inv_def Let_def)

lemma inv_takes:
  "server_inv config s \<Longrightarrow> length (sv_active s) < sv_workers s \<Longrightarrow> server_inv config (worker_takes rcv snd_ans s)"
  by (auto simp: worker_takes_def server_inv_def split: list.split)

lemma inv_serves:
  assumes "server_inv config s" and "i < length (sv_active s)" and "worker_serves handler i s h = Some (s', h')"
  shows "server_inv config s'"
proof -
  obtain c frames where at: "sv_active s ! i = (c, frames)" by fastforce
  let ?max = "tl_max_frames_per_connection (sc_limits config)"
  have all: "list_all (\<lambda>(c, frames). frames \<le> ?max) (sv_active s)" and cfg: "sv_config s = config"
    using assms(1) by (simp_all add: server_inv_def)
  have ended: "server_inv config (s\<lparr>sv_stats := st, sv_active := take i (sv_active s) @ drop (Suc i) (sv_active s)\<rparr>)" for st
    using assms(1,2) all by (auto simp: server_inv_def list_all_iff dest: in_set_takeD in_set_dropD)
  have kept: "server_inv config (s\<lparr>sv_stats := st, sv_active := (sv_active s)[i := (c', frames + 1)]\<rparr>)"
    if "frames < ?max" for st c'
  proof -
    have "frames + 1 \<le> ?max" using that frames_advance [OF that] by (simp add: word_le_nat_alt word_less_nat_alt)
    then show ?thesis
      using assms(1) all by (auto simp: server_inv_def list_all_iff dest!: set_update_subset_insert [THEN subsetD])
  qed
  show ?thesis
    using assms(3) at cfg ended [of "sv_stats s"] ended kept
    by (auto simp: worker_serves_def Let_def split: if_splits option.splits)
qed

lemma inv_stop: "server_inv config s \<Longrightarrow> server_inv config (server_stop_begin s)"
  "server_inv config s \<Longrightarrow> sv_active s = [] \<Longrightarrow> server_inv config (server_stop_end s)"
  by (simp_all add: server_inv_def server_stop_begin_def server_stop_end_def)

lemma inv_step: "server_step handler x y \<Longrightarrow> server_inv config (fst x) \<Longrightarrow> server_inv config (fst y)"
  by (induction rule: server_step.induct) (simp_all add: inv_start inv_accepts inv_takes inv_serves inv_stop)

lemma inv_steps:
  "(server_step handler)\<^sup>*\<^sup>* x y \<Longrightarrow> server_inv config (fst x) \<Longrightarrow> server_inv config (fst y)"
  by (induction rule: rtranclp_induct) (simp_all add: inv_step)

section \<open>A concrete exchange\<close>

definition ping :: request where
  "ping = default_request\<lparr>rq_request_id := 7\<rparr>"

definition quiet_env :: service_env where
  "quiet_env = \<lparr>se_unix_ms = 5000, se_monotonic_ms = 0, se_journal_io = boot_io, 
     se_snapshot_io = \<lparr>sw_open = True, sw_write = boot_io, sw_rename = True, sw_remove = True\<rparr>\<rparr>"

definition pong :: response where
  "pong = answer SC_Ok ''pong'' (response_for ping (runtime_status_of 0 mem_runtime))"

lemma ping_handled: "runtime_handler (\<lambda>_. quiet_env) ping (0, mem_runtime) = (Some pong, (1, mem_runtime))"
  by (simp add: runtime_handler_def handle_def ping_def default_request_def Let_def pong_def quiet_env_def)

lemma short_text: "list_all (\<lambda>c. char_code c < 128) t \<Longrightarrow> length t \<le> 256 \<Longrightarrow> wire_text t"
  by (simp add: wire_text_def string_ok_def ascii_valid_utf8 kMaxDetailBytes_def)

lemma zero_digest_length [simp]: "length zero_digest = 32"
  by (simp add: zero_digest_def)

lemma ping_carried: "request_carried ping" "rq_protocol_version ping = kProtocolVersion"
proof -
  show "request_carried ping"
    by (simp add: request_carried_def ping_def default_request_def kMaxNameBytes_def short_text constraints_carried_def
        default_path_constraints_def blank_command_def blank_token_def authority_carried_def blank_authority_def)
qed (simp add: ping_def default_request_def)

lemmas pong_eval = pong_def answer_def response_for_def default_response_def runtime_status_of_def mem_runtime_def
  new_runtime_def boot_config_def ping_def default_request_def

lemma pong_status:
  "rs_status pong = blank_status\<lparr>st_fabric_id := 7, st_name := ''dc1''\<rparr>"
  by (simp add: pong_eval blank_status_def persistent_def absent_dir_def)

lemma pong_fields:
  "rs_assessment pong = blank_assessment" "rs_health pong = blank_health" "rs_command_result pong = blank_result"
  "rs_path_authority pong = blank_authority" "rs_spines pong = []" "rs_detail pong = ''pong''"
  "rs_server_name pong = ''slf-controller''" "rs_topology_digest pong = zero_digest"
  "rs_lease_token pong = blank_token" "rs_lease_requester pong = []" "ck_detail (rs_authority_check pong) = []"
  by (simp_all add: pong_eval)

lemma exchange_ids: "rs_request_id pong = 7" "rq_request_id ping = 7"
  by (simp_all add: pong_eval)

lemma pong_carried: "response_carried pong"
proof -
  have status: "status_carried (rs_status pong)"
    by (simp add: pong_status status_carried_def blank_status_def empty_recovery_def short_text)
  have reports: "assessment_carried blank_assessment" "assessment_writable blank_assessment" "health_carried blank_health" "result_carried blank_result"
    "authority_carried blank_authority"
    by (simp_all add: assessment_carried_def assessment_writable_def blank_assessment_def empty_spine_sets_def empty_capacity_def rational_wf_def
        short_text health_carried_def blank_health_def result_carried_def blank_result_def blank_token_def
        authority_carried_def blank_authority_def)
  show ?thesis
    using status reports by (simp add: response_carried_def response_writable_def pong_fields short_text kMaxNameBytes_def blank_token_def)
qed

lemma pong_size: "response_size pong \<le> kMaxBlockBytes"
  using encodings_bounded(2) [of blank_authority]
  by (simp add: response_size_def response_fields_def response_head_fields_def response_tail_fields_def pong_fields pong_status
      string_enc_def block_enc_def status_fields_def status_head_fields_def status_counts_def status_counters_def
      status_tail_fields_def blank_status_def empty_recovery_def assessment_fields_def assessment_head_fields_def
      blank_assessment_def empty_spine_sets_def node_enc_def capacity_enc_def empty_capacity_def health_fields_def
      blank_health_def result_enc_def blank_result_def token_enc_def token_fields_def blank_token_def kResponseDomain_def
      kMaxBlockBytes_def)

text \<open>A connection on which every send is taken whole.\<close>

definition easy_connection :: "bytes \<Rightarrow> connection" where
  "easy_connection incoming = \<lparr>cn_socket = 3, cn_rx = [Arrives incoming], cn_sends = [], cn_tx = [], cn_deadline = 5000\<rparr>"

lemma easy_valid: "cn_valid (easy_connection bs)" "cn_sends (easy_connection bs) = []" "rx_bytes (cn_rx (easy_connection bs)) = bs" "cn_tx (easy_connection bs) = []"
  by (simp_all add: easy_connection_def cn_valid_def kInvalidSocket_def)

lemma write_loop_easy: "cn_sends c = [] \<Longrightarrow> write_loop data c = (status_success, c\<lparr>cn_tx := cn_tx c @ data\<rparr>)"
proof (induction data c rule: write_loop.induct)
  case (1 data c)
  show ?case
  proof (cases "data = []")
    case True
    then show ?thesis by (simp add: write_loop.simps)
  next
    case False
    let ?chunk = "take (chunk_size (length data)) data"
    have send: "net_send ?chunk (cn_sends c) = (Inr (length ?chunk), [])" using "1.prems" by simp
    have len: "length ?chunk = chunk_size (length data)" by (simp add: chunk_size_def)
    show ?thesis
      using False "1.prems" "1.IH" [OF False send [symmetric] HOL.refl] send
      by (simp add: write_loop.simps [of data c] len)
  qed
qed

lemma write_frame_easy:
  assumes "cn_valid c" and "cn_sends c = []" and "length payload \<le> unat (tl_max_frame_payload limits)"
  shows "write_frame h payload limits c = (status_success, c\<lparr>cn_tx := cn_tx c
    @ frame_of (h\<lparr>fh_magic := kMagic, fh_payload_len := of_nat (length payload)\<rparr>) payload\<rparr>)"
  using assms by (simp add: write_frame_def encode_frame_exact conn_write_all_def write_loop_easy)

lemma default_payload: "kMaxBlockBytes \<le> unat (tl_max_frame_payload default_transport_limits)"
  by (simp add: kMaxBlockBytes_def default_transport_limits_def)

definition sample_client :: "bytes \<Rightarrow> fabric_client" where
  "sample_client incoming = \<lparr>fc_config = \<lparr>cc_endpoint = default_endpoint, cc_limits = default_transport_limits,
     cc_client_name = ''slf-client''\<rparr>, fc_connection = easy_connection incoming, fc_next_request_id = 1\<rparr>"

lemma sample_client_simps: "cc_limits (fc_config (sample_client bs)) = default_transport_limits"
  "fc_connection (sample_client bs) = easy_connection bs"
  by (simp_all add: sample_client_def)

section \<open>Properties\<close>

text \<open>
  C1. Requests and responses survive their encoding: a request whose texts, constraints and digests are
  within the bounds of the protocol decodes to itself, a response to itself except for the fields of the
  recovery report that the protocol does not carry.
\<close>

theorem protocol_roundtrip:
  assumes "request_carried q" and "length (encode_request q) \<le> unat (tl_max_frame_payload limits)"
    and "response_carried p" and "response_size p \<le> kMaxBlockBytes"
    and "response_size p \<le> unat (tl_max_frame_payload limits)"
  shows "decode_request (encode_request q) limits = Inr q"
    and "decode_response (encode_response p) limits = Inr (wire_response p)"
  using request_roundtrip [OF assms(1,2)] response_roundtrip [OF assms(3-5)] by simp_all

theorem protocol_roundtrip_witness:
  "decode_request (encode_request ping) default_transport_limits = Inr ping
   \<and> decode_response (encode_response pong) default_transport_limits = Inr (wire_response pong)"
  using protocol_roundtrip [OF ping_carried(1) _ pong_carried pong_size, of default_transport_limits]
    encodings_bounded(3) [of ping] pong_size default_payload by simp

text \<open>
  C2. A call is answered with what the handler returned. When a client's request has gone out and
  reached the server, however the network cut it, the server hands exactly that request to the handler
  and, unless its reply fails to go out, the client's call returns the handler's response; bytes behind
  the two frames stay for the next exchange.
\<close>

theorem call_answered:
  assumes "kMaxBlockBytes \<le> unat (tl_max_frame_payload limits)" and "cc_limits (fc_config cl) = limits"
    and "cn_valid (fc_connection cl)" and "cn_valid s"
    and "request_carried q" and "rq_protocol_version q = kProtocolVersion"
    and "handler q h = (Some p, h')" and "response_carried p" and "response_size p \<le> kMaxBlockBytes"
    and "write_frame (request_header q) (encode_request q) limits (fc_connection cl) = (written, c1)" and "status_ok written"
    and "rx_bytes (cn_rx s) = drop (length (cn_tx (fc_connection cl))) (cn_tx c1) @ later"
  shows "\<exists>goes_on s1 st1. serve_frame limits handler s st h = Some (goes_on, s1, st1, h') \<and> rx_bytes (cn_rx s1) = later
    \<and> (ss_protocol_errors st1 = ss_protocol_errors st
         \<and> rx_bytes (cn_rx (fc_connection cl)) = drop (length (cn_tx s)) (cn_tx s1) @ rest
       \<longrightarrow> (\<exists>cl'. client_call rcv snd_ans q 0 cl = Some (Inr (wire_response p), cl')
                \<and> rx_bytes (cn_rx (fc_connection cl')) = rest))"
proof -
  let ?reply = "write_frame (reply_header (rq_kind q) (rs_request_id p)) (encode_response p) limits"
  have sent: "status_ok (fst (write_frame (request_header q) (encode_request q) limits (fc_connection cl)))"
    and arrived: "rx_bytes (cn_rx s) = drop (length (cn_tx (fc_connection cl)))
      (cn_tx (snd (write_frame (request_header q) (encode_request q) limits (fc_connection cl)))) @ later"
    using assms(10-12) by simp_all
  obtain s1 goes_on st1 where served: "serve_frame limits handler s st h = Some (goes_on, snd (?reply s1), st1, h')"
      "cn_valid s1" "cn_tx s1 = cn_tx s" "rx_bytes (cn_rx s1) = later"
      "ss_protocol_errors st1 = ss_protocol_errors st \<longleftrightarrow> status_ok (fst (?reply s1))"
    using server_answers [where handler = handler and q = q and h = h and st = st, OF assms(1,3,4,5,6,7) sent arrived] by blast
  have "rx_bytes (cn_rx (snd (?reply s1))) = later" using write_frame_keeps served(4) by metis
  then show ?thesis
    using served client_receives [OF assms(1,2,3,8,9) sent served(2), of "rq_kind q" "rs_request_id p" rest] by fastforce
qed

theorem call_answered_witness:
  "\<exists>incoming cl'. client_call None None ping 0 (sample_client incoming) = Some (Inr (wire_response pong), cl')"
proof -
  let ?L = default_transport_limits and ?H = "runtime_handler (\<lambda>_. quiet_env)" and ?h = "(0, mem_runtime)"
  let ?reply = "write_frame (reply_header (rq_kind ping) (rs_request_id pong)) (encode_response pong) ?L"
  let ?req = "frame_of ((request_header ping)\<lparr>fh_magic := kMagic, fh_payload_len := of_nat (length (encode_request ping))\<rparr>)
    (encode_request ping)"
  let ?in = "frame_of ((reply_header (rq_kind ping) (rs_request_id pong))
    \<lparr>fh_magic := kMagic, fh_payload_len := of_nat (length (encode_response pong))\<rparr>) (encode_response pong)"
  let ?cl = "sample_client ?in" and ?s = "easy_connection ?req"
  have size: "length (encode_request ping) \<le> unat (tl_max_frame_payload ?L)"
    "length (encode_response pong) \<le> unat (tl_max_frame_payload ?L)"
    using encodings_bounded(3) [of ping] encodings_bounded(4) [of pong] default_payload by simp_all
  have cl: "cc_limits (fc_config ?cl) = ?L" "fc_connection ?cl = easy_connection ?in" by (simp_all add: sample_client_simps)
  have w: "write_frame (request_header ping) (encode_request ping) ?L (fc_connection ?cl)
      = (status_success, (easy_connection ?in)\<lparr>cn_tx := ?req\<rparr>)"
    using write_frame_easy [OF easy_valid(1,2) size(1)] by (simp add: cl easy_valid)
  have v: "cn_valid (fc_connection ?cl)" by (simp add: cl easy_valid)
  have rx: "rx_bytes (cn_rx ?s) = drop (length (cn_tx (fc_connection ?cl))) (cn_tx ((easy_connection ?in)\<lparr>cn_tx := ?req\<rparr>)) @ []"
    by (simp add: cl easy_valid)
  obtain s1 goes_on st1 where s1: "serve_frame ?L ?H ?s no_stats ?h = Some (goes_on, snd (?reply s1), st1, 1, mem_runtime)"
      "cn_valid s1" "cn_tx s1 = []" "cn_sends s1 = []"
      "ss_protocol_errors st1 = ss_protocol_errors no_stats \<longleftrightarrow> status_ok (fst (?reply s1))"
    using server_answers [where handler = ?H and q = ping and h = ?h and st = no_stats and later = "[]",
        OF default_payload v easy_valid(1) ping_carried ping_handled] w rx
    by (auto simp: easy_valid)
  have reply: "?reply s1 = (status_success, s1\<lparr>cn_tx := ?in\<rparr>)"
    using write_frame_easy [OF s1(2,4) size(2)] s1(3) by simp
  from call_answered [where handler = ?H and q = ping and h = ?h and st = no_stats and rest = "[]" and rcv = None
        and snd_ans = None, OF default_payload cl(1) v easy_valid(1) ping_carried ping_handled pong_carried pong_size w _ rx]
  have "\<exists>cl'. client_call None None ping 0 ?cl = Some (Inr (wire_response pong), cl')"
    using s1(1,5) reply by (auto simp: cl easy_valid)
  then show ?thesis by blast
qed

text \<open>
  C3. Serving a connection always ends. With a non-zero deadline on the socket and no fault point armed,
  the frame loop returns whatever the peer sends, withholds or breaks off, and it reads no more frames
  than \<open>max_frames_per_connection\<close>.
\<close>

theorem served_connection_returns:
  assumes "tl_io_timeout_ms limits \<noteq> 0" and "cn_valid c" and "rt_fault_point rt = FP_None"
  shows "\<exists>c' st' h' k. serve_connection limits (runtime_handler envs) None None running c st (n, rt) = Some (c', st', h')
    \<and> \<not> cn_valid c' \<and> ss_frames_read st' = ss_frames_read st + of_nat k
    \<and> k \<le> unat (tl_max_frames_per_connection limits)"
proof -
  let ?c = "snd (set_deadlines None None (tl_io_timeout_ms limits) c)"
  have "cn_deadline ?c \<noteq> 0" using assms(1,2) by (simp add: set_deadlines_def set_timeouts_def)
  from runtime_service.serve_loop_returns [OF this, of "(n, rt)" limits envs running 0 st] assms(3)
  obtain c' st' h' k where "serve_loop limits (runtime_handler envs) running 0 ?c st (n, rt) = Some (c', st', h')"
    "ss_frames_read st' = ss_frames_read st + of_nat k" "k \<le> unat (tl_max_frames_per_connection limits)" by auto
  then show ?thesis
    by (intro exI [of _ "conn_close c'"] exI [of _ st'] exI [of _ h'] exI [of _ k])
      (simp add: serve_connection_def conn_close_def cn_valid_def)
qed

theorem served_connection_returns_witness:
  "\<exists>c' st' h' k. serve_connection default_transport_limits (runtime_handler (\<lambda>_. quiet_env)) None None (\<lambda>_. True)
      (easy_connection []) no_stats (0, mem_runtime) = Some (c', st', h') \<and> \<not> cn_valid c'
    \<and> ss_frames_read st' = ss_frames_read no_stats + of_nat k
    \<and> k \<le> unat (tl_max_frames_per_connection default_transport_limits)"
  by (rule served_connection_returns)
    (simp_all add: default_transport_limits_def easy_valid mem_runtime_def new_runtime_def)

definition tiny_config :: server_config where
  "tiny_config = \<lparr>sc_endpoint = \<lparr>ep_host = ''localhost'', ep_port = 0\<rparr>, sc_limits = default_transport_limits\<lparr>tl_max_connections := 1\<rparr>,
     sc_server_name = ''slf-controller'', sc_trace = False\<rparr>"

definition tiny_new :: fabric_server where
  "tiny_new = \<lparr>sv_config = tiny_config, sv_running = False, sv_lifecycle_started = False,
     sv_listener = \<lparr>ls_socket = kInvalidSocket, ls_port = 0\<rparr>, sv_port = 0, sv_workers = 0, sv_queue = [],
     sv_active = [], sv_stats = no_stats\<rparr>"

definition tiny_started :: fabric_server where
  "tiny_started = \<lparr>sv_config = tiny_config, sv_running = True, sv_lifecycle_started = True,
     sv_listener = \<lparr>ls_socket = 3, ls_port = 4000\<rparr>, sv_port = 4000, sv_workers = 1, sv_queue = [], sv_active = [],
     sv_stats = no_stats\<rparr>"

definition tiny_full :: fabric_server where
  "tiny_full = server_accepts (easy_connection []) (worker_takes None None (server_accepts (easy_connection []) tiny_started))"


lemma tiny_created: "server_create tiny_config True = Inr tiny_new"
  by (simp add: server_create_def tiny_new_def tiny_config_def)

lemma tiny_starts: "snd (server_start sample_socket_os tiny_new) = tiny_started"
  by (simp add: tiny_new_def server_start_def listener_bind_def sample_socket_os_def endpoint_address_def tiny_started_def
      worker_count_def tiny_config_def)

lemma tiny_reached: "(server_step handler)\<^sup>*\<^sup>* (tiny_new, h) (tiny_full, h)"
proof -
  let ?one = "server_accepts (easy_connection []) tiny_started"
  let ?two = "worker_takes None None ?one"
  have "server_step handler (tiny_new, h) (tiny_started, h)"
    using server_step.starts [of tiny_new handler h sample_socket_os] unfolding tiny_starts by (simp add: tiny_new_def)
  moreover have "server_step handler (tiny_started, h) (?one, h)" by (rule server_step.accepts) (simp add: tiny_started_def)
  moreover have "server_step handler (?one, h) (?two, h)"
    by (rule server_step.takes) (simp add: server_accepts_def tiny_started_def Let_def)
  moreover have "server_step handler (?two, h) (tiny_full, h)"
    unfolding tiny_full_def
    by (rule server_step.accepts) (simp add: server_accepts_def tiny_started_def Let_def worker_takes_def split: list.split)
  ultimately show ?thesis by (meson converse_rtranclp_into_rtranclp r_into_rtranclp)
qed

lemma tiny_full_counts: "length (sv_queue tiny_full) = 1" "length (sv_active tiny_full) = 1"
  by (simp_all add: tiny_full_def server_accepts_def worker_takes_def tiny_started_def Let_def tiny_config_def easy_valid)

text \<open>
  C4. Whatever the accept thread, the workers and \<open>start\<close> and \<open>stop\<close> do, in whatever order, the queue of
  a server holds at most \<open>max_connections\<close> connections, at most \<open>min(max_connections, 16)\<close> are being
  served, and no connection has been served more than \<open>max_frames_per_connection\<close> frames.
\<close>

theorem server_stays_bounded:
  assumes "server_create config True = Inr s0" and "(server_step handler)\<^sup>*\<^sup>* (s0, h0) (s, h)"
  shows "length (sv_queue s) \<le> unat (tl_max_connections (sc_limits config))"
    and "length (sv_active s) \<le> min (unat (tl_max_connections (sc_limits config))) 16"
    and "list_all (\<lambda>(c, frames). frames \<le> tl_max_frames_per_connection (sc_limits config)) (sv_active s)"
proof -
  have inv: "server_inv config s" using inv_steps [OF assms(2)] inv_created [OF assms(1)] by simp
  have "tl_max_connections (sc_limits config) \<noteq> 0" using assms(1) by (auto simp: server_create_def split: if_splits)
  then have "worker_count (sc_limits config) \<le> min (unat (tl_max_connections (sc_limits config))) 16"
    by (simp add: worker_count_def unat_gt_0 Suc_le_eq)
  then show "length (sv_active s) \<le> min (unat (tl_max_connections (sc_limits config))) 16"
    using inv by (simp add: server_inv_def)
qed (use inv_steps [OF assms(2)] inv_created [OF assms(1)] in \<open>simp_all add: server_inv_def\<close>)

theorem server_stays_bounded_witness:
  "length (sv_queue tiny_full) \<le> 1 \<and> length (sv_active tiny_full) \<le> 1"
  using server_stays_bounded(1,2) [OF tiny_created tiny_reached [of "\<lambda>q h. (None, h)" "()"]] by (simp add: tiny_config_def)

text \<open>
  C5. \<open>max_connections\<close> does not bound the connections a server holds: with \<open>max_connections = 1\<close> it
  can serve one and keep another one waiting.
\<close>

theorem connections_exceed_limit:
  "\<exists>s0 s. server_create tiny_config True = Inr s0 \<and> (server_step handler)\<^sup>*\<^sup>* (s0, h) (s, h)
     \<and> length (sv_queue s) + length (sv_active s) > unat (tl_max_connections (sc_limits tiny_config))"
proof -
  have "length (sv_queue tiny_full) + length (sv_active tiny_full) > unat (tl_max_connections (sc_limits tiny_config))"
    unfolding tiny_full_counts by (simp add: tiny_config_def)
  with tiny_created tiny_reached [of handler h] show ?thesis by blast
qed

text \<open>
  C6. A request that is not a command, a lease or a compaction leaves the runtime as it was: at most the
  counter of served queries moves, and there is always a response, under the request's id.
\<close>

theorem queries_change_nothing:
  assumes "rq_kind q \<notin> {RK_Command, RK_Lease, RK_Compact}"
  shows "snd (handle env q rt) \<in> {rt, rt\<lparr>rt_queries_served := rt_queries_served rt + 1\<rparr>}"
    and "\<exists>p. fst (handle env q rt) = Some p \<and> rs_request_id p = rq_request_id q"
proof -
  show "snd (handle env q rt) \<in> {rt, rt\<lparr>rt_queries_served := rt_queries_served rt + 1\<rparr>}"
    using queries_keep_runtime [OF assms, of rt env] by (auto simp: only_asks_def)
  show "\<exists>p. fst (handle env q rt) = Some p \<and> rs_request_id p = rq_request_id q"
    using assms
    by (cases "rq_kind q") (simp_all add: handle_def Let_def case_prod_unfold answer_def response_for_def split: sum.split)
qed

theorem queries_change_nothing_witness:
  "snd (handle quiet_env ping mem_runtime) \<in> {mem_runtime, mem_runtime\<lparr>rt_queries_served := 1\<rparr>}"
  using queries_change_nothing(1) [of ping quiet_env mem_runtime]
  by (simp add: ping_def default_request_def mem_runtime_def new_runtime_def)

text \<open>
  C7. A client does not compare the id of a reply with the id of its request: whatever response the next
  frame holds, also a late one to an earlier call that timed out, the call returns it as its own.
\<close>

theorem reply_id_unchecked:
  assumes "kMaxBlockBytes \<le> unat (tl_max_frame_payload limits)" and "cc_limits (fc_config cl) = limits"
    and "cn_valid (fc_connection cl)" and "response_carried p" and "response_size p \<le> kMaxBlockBytes"
    and "status_ok (fst (write_frame (request_header q) (encode_request q) limits (fc_connection cl)))"
    and "cn_valid s" and "status_ok (fst (write_frame (reply_header kind (rs_request_id p)) (encode_response p) limits s))"
    and "rx_bytes (cn_rx (fc_connection cl)) = drop (length (cn_tx s))
      (cn_tx (snd (write_frame (reply_header kind (rs_request_id p)) (encode_response p) limits s))) @ rest"
    and "rs_request_id p \<noteq> rq_request_id q"
  shows "\<exists>p' cl'. client_call rcv snd_ans q 0 cl = Some (Inr p', cl') \<and> rs_request_id p' \<noteq> rq_request_id q"
  using client_receives [OF assms(1-9)] assms(10) by (fastforce simp: wire_response_def)

theorem reply_id_unchecked_witness:
  "\<exists>incoming p' cl'. client_call None None (ping\<lparr>rq_request_id := 8\<rparr>) 0 (sample_client incoming) = Some (Inr p', cl')
     \<and> rs_request_id p' \<noteq> rq_request_id (ping\<lparr>rq_request_id := 8\<rparr>)"
proof -
  let ?L = default_transport_limits and ?q = "ping\<lparr>rq_request_id := 8\<rparr>"
  let ?in = "frame_of ((reply_header RK_Ping (rs_request_id pong))
    \<lparr>fh_magic := kMagic, fh_payload_len := of_nat (length (encode_response pong))\<rparr>) (encode_response pong)"
  let ?cl = "sample_client ?in"
  have size: "length (encode_request ?q) \<le> unat (tl_max_frame_payload ?L)"
    "length (encode_response pong) \<le> unat (tl_max_frame_payload ?L)"
    using encodings_bounded(3) [of ?q] encodings_bounded(4) [of pong] default_payload by simp_all
  have cl: "cc_limits (fc_config ?cl) = ?L" "fc_connection ?cl = easy_connection ?in" by (simp_all add: sample_client_def)
  have "\<exists>p' cl'. client_call None None ?q 0 ?cl = Some (Inr p', cl') \<and> rs_request_id p' \<noteq> rq_request_id ?q"
    by (rule reply_id_unchecked [OF default_payload cl(1) _ pong_carried pong_size _ easy_valid(1) [of "[]"],
          where kind = RK_Ping and rest = "[]"])
      (simp_all add: sample_client_simps easy_valid write_frame_easy size exchange_ids)
  then show ?thesis by blast
qed

end
