(* ===== verification/Spec2Isabelle.thy ===== *)
theory Spec2Isabelle
  imports SLF_Boot SLF_SpecRound SLF_Server
begin

text \<open>
  Verification of the spine-leaf fabric runtime.
\<close>

section \<open>The builder\<close>

text \<open>
  C14. Whatever calls a client makes on a \<open>FabricBuilder\<close>, in whatever order, the fabric that
  \<open>freeze\<close> returns is well formed: its tables are strictly sorted by identifier, every port has an
  owner, every link joins two distinct existing nodes through ports those nodes own, has a non-zero
  effective speed no port bound exceeds, is a same-tier peering exactly when its ends share a tier
  (and then only if the options allow it and both leaves are peer capable), no two live links join
  the same endpoints, history belongs to older generations, evidence refers to a known link, and the
  two digests are those of the canonical encodings.
\<close>

theorem freeze_yields_wf:
  assumes "builder_reachable b" and "freeze b = (Inr f, b')"
    and "length (rep_issues (fb_report b')) < 2 ^ 32"
  shows "fabric_wf (fb_limits b) f"
  using assms by (rule freeze_fabric_wf)

theorem freeze_yields_wf_witness: "fabric_wf sample_limits (frozen_fabric sample_builder)"
  using freeze_yields_wf [OF sample_reachable, of "frozen_fabric sample_builder" "snd (freeze sample_builder)"]
    sample_freeze sample_freeze_issues sample_builder_ok(4)
  by (simp add: prod_eq_iff)


text \<open>
  The same contract for the other six operations that add a record.
\<close>

theorem add_record_decides:
  "status_ok (fst (add_failure_domain d b)) = domain_accept d b
     \<and> builder_core (snd (add_failure_domain d b)) = builder_core (if domain_accept d b then put_domain d b else b)
     \<and> status_ok (fst (add_leaf l b)) = leaf_accept l b
     \<and> builder_core (snd (add_leaf l b)) = builder_core (if leaf_accept l b then put_leaf l b else b)
     \<and> status_ok (fst (add_spine s b)) = spine_accept s b
     \<and> builder_core (snd (add_spine s b)) = builder_core (if spine_accept s b then put_spine s b else b)
     \<and> status_ok (fst (add_port p b)) = port_accept p b
     \<and> builder_core (snd (add_port p b)) = builder_core (if port_accept p b then put_port p b else b)
     \<and> status_ok (fst (add_history_link k b)) = history_accept k b
     \<and> builder_core (snd (add_history_link k b)) = builder_core (if history_accept k b then put_history k b else b)
     \<and> status_ok (fst (add_evidence e b)) = evidence_accept e b
     \<and> builder_core (snd (add_evidence e b)) = builder_core (if evidence_accept e b then put_evidence e b else b)"
  by (intro conjI domains.add_ok_iff domains.add_core leaves.add_ok_iff leaves.add_core spines.add_ok_iff
      spines.add_core ports.add_ok_iff ports.add_core history.add_ok_iff history.add_core
      evidence.add_ok_iff evidence.add_core)

text \<open>
  \<open>freeze\<close> succeeds exactly when no call recorded an error and the accumulated graph is clean:
  every link still resolves to a usable speed and no evidence is from a future generation.
\<close>

theorem freeze_decides:
  assumes "builder_reachable b" and "\<not> fb_frozen b"
    and "length (rep_issues (fb_report (snd (freeze b)))) < 2 ^ 32"
  shows "outcome_ok (fst (freeze b)) \<longleftrightarrow> report_errors (fb_report b) = [] \<and> graph_clean b"
  using freeze_success_iff [OF assms(2) _ assms(3)] reachable_client_inv [OF assms(1)]
  by (auto simp: client_inv_def outcome_ok_iff)

theorem freeze_decides_witness: "outcome_ok (fst (freeze sample_builder))"
  using freeze_decides [OF sample_reachable] sample_builder_ok sample_freeze_issues by simp

section \<open>Canonical encoding\<close>



text \<open>
  C17. A frozen fabric in which a retired link and a live link share an identifier serializes to a
  payload that \<open>deserialize_fabric\<close> refuses: such a fabric cannot be recovered.
\<close>

theorem shared_link_id_undecodable:
  assumes "encodable b" and "(i, k) \<in> set (fb_history_links b)" and "map_of (fb_links b) i \<noteq> None"
  shows "\<not> outcome_ok (deserialize_fabric (serialize_fabric (frozen_fabric b)) (fb_limits b))"
  using assms by (rule overlap_undecodable)

theorem shared_link_id_undecodable_witness:
  "\<not> outcome_ok (deserialize_fabric (serialize_fabric (frozen_fabric overlap_builder)) sample_limits)"
  using shared_link_id_undecodable [OF overlap_encodable, of 9]
  by (simp add: overlap_builder_eval sample_builder_eval)

section \<open>The topology index\<close>

text \<open>
  C18. Building the index of a fabric the builder froze succeeds (unless the digest is the all-zero
  one), and the compressed rows are a refinement of the link table: the adjacencies of a node are
  exactly the sorted enabled edges at that node, split into leaf-spine and peer rows.
\<close>

theorem index_build_refines:
  assumes "builder_reachable b" and "freeze b = (Inr f, b')"
    and "length (rep_issues (fb_report b')) < 2 ^ 32"
    and "length (fab_leaves f) + length (fab_spines f) < 2 ^ 32" and "2 * length (fab_links f) < 2 ^ 32"
  shows "digest_is_zero (fab_topology_digest f)
     \<or> (\<exists>ix. index_build (Some f) = Inr ix \<and> ti_fabric ix = f \<and> index_view ix)"
  using index_build_total [OF wf_indexable [OF freeze_fabric_wf [OF assms(1-3)] _ assms(4,5)]] by blast

theorem index_build_refines_witness:
  "digest_is_zero (fab_topology_digest (frozen_fabric sample_builder))
     \<or> (\<exists>ix. index_build (Some (frozen_fabric sample_builder)) = Inr ix
           \<and> ti_fabric ix = frozen_fabric sample_builder \<and> index_view ix)"
  by (rule index_build_refines [OF sample_reachable, of _ "snd (freeze sample_builder)"])
    (use sample_freeze sample_freeze_issues in \<open>simp_all add: prod_eq_iff\<close>, simp_all add: sample_builder_eval)

text \<open>
  Adjacency and structural reachability do not depend on the direction they are asked in.
\<close>

theorem structural_class_symmetric:
  assumes "indexable f" and "class_consistent f" and "index_build (Some f) = Inr ix"
  shows "adjacent ix a b = adjacent ix b a \<and> structural_class ix a b = structural_class ix b a"
  using built_view [OF assms(1,3)] assms(2) adjacent_sym [of ix a b] structural_class_sym [of ix a b] by auto

theorem structural_class_symmetric_witness:
  "structural_class sample_index (leaf_key 1) (spine_key 2) = structural_class sample_index (spine_key 2) (leaf_key 1)"
  using structural_class_symmetric [OF sample_indexable sample_class_consistent sample_index(1)] by blast

text \<open>
  \<open>common_spines\<close> of two leaves is the strictly increasing list of the spines both have an enabled
  uplink to.
\<close>

theorem common_spines_exact:
  "sorted_wrt (<) (common_spines ix a b)
     \<and> set (common_spines ix a b) = (if a = b then {} else {i. spine_of_both ix a b i})"
  by (simp add: common_spines_sorted common_spines_set)

text \<open>
  C19. Two distinct leaves that are not directly linked are classified as reachable through one or
  several spines exactly when some spine has enabled links to both.
\<close>

theorem leaf_pair_class:
  assumes "indexable f" and "class_consistent f" and "index_build (Some f) = Inr ix" and "i \<noteq> j"
    and "\<not> adjacent ix (leaf_key i) (leaf_key j)"
  shows "structural_class ix (leaf_key i) (leaf_key j) \<in> {RC_LeafLeafSingleSpine, RC_LeafLeafMultiSpine}
     \<longleftrightarrow> (\<exists>s. adjacent ix (leaf_key i) (spine_key s) \<and> adjacent ix (leaf_key j) (spine_key s))"
proof -
  have v: "index_view ix" and t: "ti_fabric ix = f" using built_view [OF assms(1,3)] by auto
  then have c: "class_consistent (ti_fabric ix)" using assms(2) by simp
  have "spine_key s \<in> aj_peer ` set (uplinks ix k) \<longleftrightarrow> adjacent ix (leaf_key k) (spine_key s)" for k s
    using edge_class [OF c] unfolding image_iff Bex_def view_leaf_spine(1) [OF v] adjacent_iff [OF v]
    by (metis node_key.sel(1) tier.distinct(1))
  then show ?thesis using unreachable_iff [OF v c, of "leaf_key i" "leaf_key j"] assms(4,5)
    by (simp add: spine_of_both_def)
qed

theorem leaf_pair_class_witness:
  "structural_class sample_index (leaf_key 1) (leaf_key 2) \<in> {RC_LeafLeafSingleSpine, RC_LeafLeafMultiSpine}"
  using leaf_pair_class [OF sample_indexable sample_class_consistent sample_index(1), of 1 2] sample_paths
  by auto

text \<open>
  C20. \<open>enumerate_paths\<close> ends and returns at most \<open>max_paths\<close> paths; each is a simple path of adjacent
  nodes from \<open>a\<close> to \<open>b\<close> within the hop bound.
\<close>

theorem enumerate_paths_valid:
  "length (enumerate_paths ix a b H P) \<le> unat P
     \<and> (\<forall>p\<in>set (enumerate_paths ix a b H P). simple_path ix a b (unat H) p)"
  by (rule enumerate_paths_sound)

theorem enumerate_paths_valid_witness:
  "simple_path sample_index (leaf_key 1) (leaf_key 2) 2 [leaf_key 1, spine_key 2, leaf_key 2]"
  using enumerate_paths_valid [of sample_index "leaf_key 1" "leaf_key 2" 2 8] by (simp add: sample_paths(1))

text \<open>
  C21. The enumeration is complete: unless the path bound was reached, every simple path within the
  hop bound that meets \<open>b\<close> only at its end is returned.
\<close>

theorem enumerate_paths_all:
  assumes "H \<noteq> 0" and "length (enumerate_paths ix a b H P) < unat P"
    and "simple_path ix a b (unat H) p" and "b \<notin> set (butlast p)"
  shows "p \<in> set (enumerate_paths ix a b H P)"
  using assms by (rule enumerate_paths_complete)

theorem enumerate_paths_all_witness:
  "[leaf_key 1, spine_key 1, leaf_key 2] \<in> set (enumerate_paths sample_index (leaf_key 1) (leaf_key 2) 2 8)"
  using enumerate_paths_all [of 2 sample_index "leaf_key 1" "leaf_key 2" 8] by (simp add: sample_paths)

section \<open>Capacity\<close>

text \<open>
  C22. Aggregating uplink speeds never wraps: when the sum fits 64 bits the summary carries exactly
  that sum and the number of uplinks, with code \<open>Ok\<close>; when it does not, the code is \<open>Overflow\<close>.
\<close>

theorem uplink_aggregate_exact:
  "if sum_list (map unat speeds) < 2 ^ 64
   then cs_code (add_uplinks speeds empty_capacity) = SC_Ok
     \<and> unat (cs_uplink_capacity_mbps (add_uplinks speeds empty_capacity)) = sum_list (map unat speeds)
     \<and> cs_uplink_count (add_uplinks speeds empty_capacity) = of_nat (length speeds)
     \<and> cs_max_uplink_mbps (add_uplinks speeds empty_capacity) = foldl max 0 speeds
   else cs_code (add_uplinks speeds empty_capacity) = SC_Overflow"
  using add_uplinks_exact [of empty_capacity speeds] add_uplinks_overflow [of empty_capacity speeds]
    unat_sum_list [of speeds]
  by (auto simp: empty_capacity_def)

text \<open>
  C23. Finalizing a summary with uplink capacity classifies the leaf as subscribed exactly when its
  access capacity does not exceed the uplink capacity, and stores the ratio access / uplink as a
  fraction in lowest terms.
\<close>

theorem oversubscription_exact:
  assumes "cs_uplink_count s \<noteq> 0" and "cs_uplink_capacity_mbps s \<noteq> 0"
  shows "cs_classification (capacity_finalize s)
      = (if cs_access_capacity_mbps s \<le> cs_uplink_capacity_mbps s then OC_Subscribed else OC_Oversubscribed)
    \<and> rational_wf (cs_oversubscription (capacity_finalize s))
    \<and> unat (rt_num (cs_oversubscription (capacity_finalize s))) * unat (cs_uplink_capacity_mbps s)
      = unat (cs_access_capacity_mbps s) * unat (rt_den (cs_oversubscription (capacity_finalize s)))
    \<and> cs_code (capacity_finalize s) = cs_code s"
  by (intro conjI capacity_finalize_class assms)

theorem oversubscription_exact_witness:
  "cs_classification (capacity_finalize (empty_capacity\<lparr>cs_uplink_count := 1, cs_uplink_capacity_mbps := 40,
     cs_access_capacity_mbps := 60\<rparr>)) = OC_Oversubscribed"
  using oversubscription_exact [of "empty_capacity\<lparr>cs_uplink_count := 1, cs_uplink_capacity_mbps := 40,
     cs_access_capacity_mbps := 60\<rparr>"] by simp

section \<open>Eligibility\<close>


text \<open>
  Evaluating the uplinks of a leaf is all or nothing: either every spine uplink is reported, in
  index order, or a read of the token was set and the result is \<open>Cancelled\<close>.
\<close>

theorem evaluate_uplinks_complete:
  "fst (evaluate_uplinks en leaf c token reads) = Inr (uplink_entries en leaf c)
   \<or> fst (evaluate_uplinks en leaf c token reads) = Inl (Status SC_Cancelled ''eligibility evaluation was cancelled'')
     \<and> (\<exists>k\<ge>reads. token k)"
  using uplinks_loop_cases [of en leaf c token reads 0 "uplinks (en_index en) leaf" "[]"]
  by (auto simp: evaluate_uplinks_def uplink_entries_def)



text \<open>
  C26. Evidence does not survive a restart: when evidence is required and no record was observed by
  the live controller, no leaf pair is assessed as eligible.
\<close>

theorem stale_evidence_never_eligible:
  assumes "requires_evidence en c" and "\<forall>e\<in>set (fab_evidence (en_fabric en)). ev_observer e \<noteq> en_controller en"
    and "fst (assess_leaf_pair en i j c token reads) = Inr a"
  shows "pa_verdict a \<noteq> EV_Eligible"
  using assms by (rule stale_never_eligible)

theorem stale_evidence_never_eligible_witness:
  "\<not> (\<exists>a. fst (assess_leaf_pair (sample_engine\<lparr>en_controller := Incarnation 9 9\<rparr>) 1 2
      (default_path_constraints\<lparr>pc_require_evidence := True\<rparr>) idle_token 0) = Inr a \<and> pa_verdict a = EV_Eligible)"
proof (intro notI, elim exE conjE, erule notE [rotated], rule stale_evidence_never_eligible)
  show "requires_evidence (sample_engine\<lparr>en_controller := Incarnation 9 9\<rparr>)
      (default_path_constraints\<lparr>pc_require_evidence := True\<rparr>)"
    by (simp add: requires_evidence_def)
  show "\<forall>e\<in>set (fab_evidence (en_fabric (sample_engine\<lparr>en_controller := Incarnation 9 9\<rparr>))).
      ev_observer e \<noteq> en_controller (sample_engine\<lparr>en_controller := Incarnation 9 9\<rparr>)"
    by (simp add: en_fabric_def sample_engine_def sample_index(3) sample_fabric_eval sample_evidence_def)
qed

text \<open>
  C27. When domain diversity is required, the enumeration is not truncated and the token latches, the
  reported spine sets are all the choices of one eligible spine per failure domain, best capacity
  first; and whenever sets are reported, each covers every failure domain of the eligible spines once.
\<close>

theorem diverse_sets_exact:
  assumes "latching token" and "pc_require_domain_diversity c" and "eligible_pool es \<noteq> []"
  shows "(sets_truncated (fst (select_spine_sets es c token reads))
        \<or> sets_list (fst (select_spine_sets es c token reads)) = std_sort set_is_better (all_combinations es))
    \<and> sorted_wrt (\<lambda>s t. \<not> set_is_better t s) (sets_list (fst (select_spine_sets es c token reads)))
    \<and> (\<forall>s\<in>set (sets_list (fst (select_spine_sets es c token reads))).
         ss_domains s = map fst (group_by_domain (eligible_pool es)))"
  using select_diverse(1) [OF assms] selected_sorted [OF assms(2)] selected_domains [OF assms(1,2)] by blast

theorem diverse_sets_exact_witness:
  "sets_list (fst (select_spine_sets (ps_pair (sample_pairs diverse_query)) diverse_query idle_token 0))
     = std_sort set_is_better (all_combinations (ps_pair (sample_pairs diverse_query)))"
proof -
  have "latching idle_token" "pc_require_domain_diversity diverse_query"
    by (simp_all add: latching_def idle_token_def diverse_query_def)
  moreover have "eligible_pool (ps_pair (sample_pairs diverse_query)) \<noteq> []" using diverse_pairs(4) by auto
  ultimately show ?thesis
    using diverse_sets_exact [of idle_token diverse_query "ps_pair (sample_pairs diverse_query)" 0] idle_selection
    by blast
qed

text \<open>
  A cancellation that arrives while the spine sets are enumerated is not reported as
  \<open>Cancelled\<close>: the assessment returns normally, with an \<open>Eligible\<close> verdict and no spine sets.
\<close>

theorem late_cancellation_unreported:
  "\<exists>a. fst (assess_leaf_pair sample_engine 1 2 diverse_query late_token 0) = Inr a
     \<and> pa_verdict a = EV_Eligible \<and> sets_list (pa_spine_sets a) = [] \<and> sets_truncated (pa_spine_sets a)"
proof -
  have "structural_class (en_index sample_engine) (leaf_key 1) (leaf_key 2) \<in> {RC_LeafLeafSingleSpine, RC_LeafLeafMultiSpine}"
    by (simp add: sample_engine_def sample_class)
  from assess_spine_pair [OF _ _ _ this late_reads, folded sample_pairs_def] obtain a
    where "fst (assess_leaf_pair sample_engine 1 2 diverse_query late_token 0) = Inr a"
      "pa_verdict a = EV_Eligible"
      "pa_spine_sets a = fst (select_spine_sets (ps_pair (sample_pairs diverse_query)) diverse_query late_token 2)"
    using diverse_pairs sample_leaves
    by (auto simp: sample_engine_fabric diverse_query_def default_path_constraints_def required_spines_def
        std_sort_def std_unique_def)
  then show ?thesis by (auto simp: late_selection)
qed

text \<open>
  Two parallel links to the same spine count as two eligible spines: a query that asks for two
  spines is granted, and the pair is classified as multi-spine, although the only spine involved is
  spine 1 and the structural class is single-spine.
\<close>

theorem parallel_links_count_twice:
  "structural_class (en_index parallel_engine) (leaf_key 1) (leaf_key 2) = RC_LeafLeafSingleSpine
   \<and> (\<exists>a. fst (assess_leaf_pair parallel_engine 1 2 two_spines idle_token 0) = Inr a
        \<and> pa_verdict a = EV_Eligible \<and> pa_eligible_spines a = [1, 1] \<and> pa_cls a = RC_LeafLeafMultiSpine)"
proof -
  let ?st = "pair_spines (uplink_entries parallel_engine 1 two_spines) (uplink_entries parallel_engine 2 two_spines) two_spines"
  have n: "length (ps_pair ?st) = 2" using parallel_facts(4) by (metis length_map length_Cons list.size(3) numeral_2_eq_2)
  have cls: "structural_class (en_index parallel_engine) (leaf_key 1) (leaf_key 2)
      \<in> {RC_LeafLeafSingleSpine, RC_LeafLeafMultiSpine}" using parallel_facts(3) by simp
  obtain r1 r2 where ev: "evaluate_uplinks parallel_engine 1 two_spines idle_token 0
      = (Inr (uplink_entries parallel_engine 1 two_spines), r1)"
    "evaluate_uplinks parallel_engine 2 two_spines idle_token r1
      = (Inr (uplink_entries parallel_engine 2 two_spines), r2)" using idle_uplinks by metis
  from assess_spine_pair [OF parallel_facts(1,2) _ cls ev] obtain a
    where a: "fst (assess_leaf_pair parallel_engine 1 2 two_spines idle_token 0) = Inr a"
      "pa_eligible_spines a = std_sort (<) (map se_spine (ps_pair ?st))"
      "pa_cls a = eligible_class (of_nat (length (ps_pair ?st))) RC_LeafLeafSingleSpine"
      "pa_verdict a = EV_Eligible"
    using parallel_facts(3,5) n by (auto simp: two_spines_def default_path_constraints_def required_spines_def)
  then show ?thesis using parallel_facts(3)
    unfolding parallel_facts(4) n by (auto simp: std_sort_less eligible_class_def)
qed



section \<open>Authority\<close>

text \<open>
  C29. A write token is valid exactly at the coordinate it was minted for (controller incarnation,
  epoch, generation, topology digest and lease) and before its expiry; a path authority likewise, and
  only if its digest matches its body. Any restart, recovery, mutation or change of lease fences both.
\<close>

theorem authority_valid_iff:
  "(ck_code (validate_token t cx) = SC_Ok \<longleftrightarrow>
      (\<not> incarnation_is_zero (tk_controller t) \<and> tk_lease t \<noteq> 0)
      \<and> token_coordinate t = live_coordinate cx \<and> cx_now_unix_ms cx < tk_expires_at_unix_ms t)
   \<and> (ck_code (validate_path_authority au cx) = SC_Ok \<longleftrightarrow>
      compute_path_authority_digest au = au_authority_digest au
      \<and> authority_coordinate au = live_coordinate cx \<and> cx_now_unix_ms cx < au_expires_at_unix_ms au)"
  by (intro conjI token_grant.validate_iff path_grant.validate_iff)



text \<open>
  A path authority minted with an explicit lifetime is not capped by the token it derives from:
  it stays valid after the token itself has expired.
\<close>

theorem authority_outlives_token:
  "\<exists>au. mint_path_authority proven_assessment sample_token 5 100 = Inr au
     \<and> ck_code (validate_path_authority au (sample_context\<lparr>cx_now_unix_ms := 50\<rparr>)) = SC_Ok
     \<and> ck_code (validate_token sample_token (sample_context\<lparr>cx_now_unix_ms := 50\<rparr>)) = SC_DeadlineExpired"
proof -
  obtain au where au: "mint_path_authority proven_assessment sample_token 5 100 = Inr au" using sample_mint(2) by blast
  have "ck_code (validate_path_authority au (sample_context\<lparr>cx_now_unix_ms := 50\<rparr>)) = SC_Ok"
    using mint_exact [OF au] path_grant.validate_iff [of au "sample_context\<lparr>cx_now_unix_ms := 50\<rparr>"]
    by (simp add: sample_token_def sample_context_def token_coordinate_def live_coordinate_def)
  moreover have "ck_code (validate_token sample_token (sample_context\<lparr>cx_now_unix_ms := 50\<rparr>)) = SC_DeadlineExpired"
    by (simp add: validate_token_def sample_token_def sample_context_def incarnation_is_zero_def expired_at_def)
  ultimately show ?thesis using au by blast
qed

text \<open>
  C31. Commands, command results and path authorities are decoded from their encodings as they were:
  a command with a 32-byte digest, a result whose detail is valid UTF-8 of at most 64 KiB (all but the
  refreshed token, which is not encoded), an authority with two 32-byte digests and at most 4096 spines.
\<close>

theorem governance_roundtrip:
  assumes "length (tk_topology_digest (cm_token c)) = 32"
    and "length (cr_topology_digest r) = 32" and "length (cr_detail r) \<le> 65536" and "is_valid_utf8 (cr_detail r)"
    and "length (au_topology_digest au) = 32" and "length (au_authority_digest au) = 32"
    and "length (au_spines au) \<le> 4096"
  shows "deserialize_command (serialize_command c) = Inr c
    \<and> deserialize_command_result (serialize_command_result r) = Inr (r\<lparr>cr_refreshed_token := blank_token\<rparr>)
    \<and> deserialize_path_authority (serialize_path_authority au) = Inr au"
  by (intro conjI command_roundtrip result_roundtrip authority_roundtrip assms)

theorem governance_roundtrip_witness:
  "deserialize_command (serialize_command sample_command) = Inr sample_command
   \<and> deserialize_command_result (serialize_command_result (blank_result\<lparr>cr_detail := ''ok''\<rparr>))
       = Inr (blank_result\<lparr>cr_detail := ''ok''\<rparr>)"
  using governance_roundtrip [of sample_command "blank_result\<lparr>cr_detail := ''ok''\<rparr>" sample_authority]
  by (simp add: sample_command_def sample_token_def blank_result_def zero_digest_def sample_authority_def
      is_valid_utf8_ok)

text \<open>
  The command decoder accepts a link whose administrative state is no enumerator: a command that
  carries the byte 9 there is decoded as it is, although no \<open>LinkRecord\<close> can hold that value.
\<close>

theorem command_decoder_accepts_unknown_admin:
  "deserialize_command (serialize_command (sample_command\<lparr>cm_new_link := unknown_admin_link\<rparr>))
     = Inr (sample_command\<lparr>cm_new_link := unknown_admin_link\<rparr>)
   \<and> link_of_wire unknown_admin_link = None"
  using command_roundtrip [of "sample_command\<lparr>cm_new_link := unknown_admin_link\<rparr>"]
  by (simp add: sample_command_def sample_token_def link_of_wire_def unknown_admin_link_def)

section \<open>The journal\<close>

text \<open>
  C37. Durability: whatever the operating system does with the writes of a client that appends
  records one after the other to a fresh segment, recovering the bytes on disk is possible and
  returns every record the client was told was written, in order, followed by at most one record
  whose append was reported as failed.
\<close>

theorem acknowledged_records_survive:
  assumes "open_segment cfg inc seg first_seq now io0 = Inr s0" and "first_seq \<noteq> 0"
    and "\<forall>(e, io)\<in>set ops. length (je_payload e) < 2 ^ 32" and "run_appends inc ops s0 = (acked, s)"
    and "length acked < kReplayBound" and "length (fs_disk s) \<le> unat (cfg_max_recovery_bytes cfg)"
  shows "\<exists>r extra. length extra \<le> 1 \<and> recovery_usable r
    \<and> recover_bytes cfg (fs_disk s) True = (r, Some (segment_records inc seg now first_seq (acked @ extra)))"
  by (rule appends_durable [OF assms])

theorem acknowledged_records_survive_witness:
  "\<exists>r extra. length extra \<le> 1 \<and> recovery_usable r
    \<and> recover_bytes default_store_config (fs_disk torn_segment) True
      = (r, Some (segment_records (Incarnation 1 2) 0 5 1 ([sample_entry] @ extra)))"
  by (rule acknowledged_records_survive [OF sample_segment(1) _ _ sample_run])
    (simp_all add: sample_fields kReplayBound_def torn_segment default_store_config_def)

text \<open>
  C38. Crash recovery: cut the bytes of a segment anywhere behind its header, and recovery returns
  exactly the records that are still complete; the report is one \<open>start\<close> accepts.
\<close>

theorem cut_segment_recovers:
  assumes "first_seq \<noteq> 0" and "list_all (entry_fits cfg) es" and "length es \<le> kReplayBound"
    and "length (segment_image inc seg created first_seq es) \<le> unat (cfg_max_recovery_bytes cfg)" and "kHeaderBytes \<le> n"
  shows "\<exists>r k. k \<le> length es \<and> recovery_usable r
    \<and> recover_bytes cfg (take n (segment_image inc seg created first_seq es)) True
      = (r, Some (segment_records inc seg created first_seq (take k es)))
    \<and> length (segment_image inc seg created first_seq (take k es)) \<le> n
    \<and> (k = length es \<or> n < length (segment_image inc seg created first_seq (take (Suc k) es)))"
  by (rule prefix_recovers [OF assms])

theorem cut_segment_recovers_witness:
  "\<exists>r. recovery_usable r
    \<and> recover_bytes default_store_config (take 200 (segment_image (Incarnation 1 2) 0 5 1 [sample_entry])) True
      = (r, Some (segment_records (Incarnation 1 2) 0 5 1 []))"
proof -
  have len: "length (segment_image (Incarnation 1 2) 0 5 1 [sample_entry]) = 243"
    by (simp add: segment_image_def Let_def length_entry_enc sample_fields kHeaderBytes_def)
  have "\<exists>r k. k \<le> length [sample_entry] \<and> recovery_usable r
    \<and> recover_bytes default_store_config (take 200 (segment_image (Incarnation 1 2) 0 5 1 [sample_entry])) True
      = (r, Some (segment_records (Incarnation 1 2) 0 5 1 (take k [sample_entry])))
    \<and> length (segment_image (Incarnation 1 2) 0 5 1 (take k [sample_entry])) \<le> 200
    \<and> (k = length [sample_entry] \<or> 200 < length (segment_image (Incarnation 1 2) 0 5 1 (take (Suc k) [sample_entry])))"
    by (rule cut_segment_recovers)
      (simp_all add: len entry_fits_def sample_fields kReplayBound_def kHeaderBytes_def default_store_config_def)
  then obtain r k where k: "k \<le> 1" "recovery_usable r" "length (segment_image (Incarnation 1 2) 0 5 1 (take k [sample_entry])) \<le> 200"
    "recover_bytes default_store_config (take 200 (segment_image (Incarnation 1 2) 0 5 1 [sample_entry])) True
      = (r, Some (segment_records (Incarnation 1 2) 0 5 1 (take k [sample_entry])))" by auto
  have "k \<noteq> 1" using k(3) len by auto
  with k show ?thesis by (auto simp: le_Suc_eq)
qed

text \<open>
  C39. A trailer does not vouch for the records before it: recovery calls a segment clean whatever
  record count, sequence range and chain value its trailer carries, as long as the trailer's own
  digest matches.
\<close>

theorem trailer_not_compared:
  assumes "first_seq \<noteq> 0" and "list_all (entry_fits cfg) es" and "length es \<le> kReplayBound" and "length c = 32"
    and "length (segment_image inc seg created first_seq es) + 96 \<le> unat (cfg_max_recovery_bytes cfg)"
  shows "\<exists>r. recover_bytes cfg (segment_image inc seg created first_seq es @ trailer_bytes n l f c) True
      = (r, Some (segment_records inc seg created first_seq es)) \<and> rpt_status r = RS_Clean"
  by (rule recover_closed [OF assms])

theorem trailer_not_compared_witness:
  "\<exists>r. recover_bytes default_store_config
        (segment_image (Incarnation 1 2) 0 5 1 [] @ trailer_bytes 99 77 55 (replicate 32 0)) True
      = (r, Some (segment_records (Incarnation 1 2) 0 5 1 [])) \<and> rpt_status r = RS_Clean"
  by (rule trailer_not_compared)
    (simp_all add: kReplayBound_def segment_image_def Let_def kHeaderBytes_def default_store_config_def)

text \<open>
  C40. Closing a store after a short write destroys the segment: when the write of a record header
  stops after 20 bytes, \<open>append\<close> fails and poisons the store; \<open>close_clean\<close>, which ignores that
  mark, then writes its trailer behind the torn bytes, and recovery reports corruption, although
  without the close the same bytes are recovered.
\<close>

theorem poisoned_close_corrupts:
  fixes created :: u64 and s :: fabric_store and e :: journal_entry and io :: write_io and es
  defines "torn \<equiv> snd (append_record (je_type e) (je_payload e) (fs_incarnation s) (je_epoch e) (je_generation e) io s)"
  assumes "store_holds created s es" and "\<not> append_refused (je_payload e) (fs_incarnation s) s es"
    and "length (je_payload e) < 2 ^ 32" and "wi_header io = 20" and "kTrailerBytes \<le> wi_header io2"
    and "length es \<le> kReplayBound" and "unat (cfg_max_record_bytes (fs_config s)) < 0x3130444E"
    and "length (fs_disk s) + 116 \<le> unat (cfg_max_recovery_bytes (fs_config s))"
  shows "rpt_status (fst (recover_bytes (fs_config s) (fs_disk (snd (close_clean io2 torn))) True)) = RS_Corrupt
    \<and> recovery_usable (fst (recover_bytes (fs_config s) (fs_disk torn) True))"
proof -
  have s: "fs_open s" "\<not> fs_closed s" "fs_first_sequence s \<noteq> 0" "list_all (entry_fits (fs_config s)) es"
    "fs_disk s = store_image created s es" "fs_chain s = segment_chain created s es"
    using assms(2) by (simp_all add: store_holds_def store_base_def)
  have fits: "entry_fits (fs_config s) e" using assms(3,4) by (simp add: append_refused_def entry_fits_def)
  have torn: "torn = s\<lparr>fs_disk := fs_disk s @ take 20 (entry_enc (segment_chain created s es)
      (fs_first_sequence s + of_nat (length es)) e), fs_poisoned := True\<rparr>"
    using short_write_poisons [OF assms(2,3), of io] assms(5) by (simp add: torn_def)
  have size: "length (segment_image (fs_incarnation s) (fs_segment_index s) created (fs_first_sequence s) es) + 116
      \<le> unat (cfg_max_recovery_bytes (fs_config s))"
    using assms(9) by (simp add: s(5) store_image_def)
  have "fs_disk (snd (close_clean io2 torn)) = fs_disk torn
      @ trailer_bytes (fs_records s) (fs_last_sequence s) (fs_first_sequence s) (fs_chain s)"
    using close_writes_trailer [of torn io2] s assms(6) by (simp add: torn)
  moreover have "recovery_usable (fst (recover_bytes (fs_config s) (fs_disk torn) True))"
    using recover_torn [OF s(3,4) assms(7) fits, of 20 "fs_incarnation s" "fs_segment_index s" created] size
    by (auto simp: torn s(5) store_image_def segment_chain_def length_entry_enc recovery_usable_def)
  ultimately show ?thesis
    using recover_poisoned_close [OF s(3,4) assms(7) length_segment_chain assms(8) size] s(5,6)
    by (simp add: torn store_image_def segment_chain_def)
qed

theorem poisoned_close_corrupts_witness:
  "rpt_status (fst (recover_bytes default_store_config (fs_disk (snd (close_clean good_io torn_segment))) True)) = RS_Corrupt"
proof -
  have disk: "length (fs_disk appended_segment) = 243" using appended_segment_holds by (simp add: store_holds_def)
  show ?thesis
    using poisoned_close_corrupts [OF appended_segment_holds, of sample_entry short_io good_io] appended_not_refused
    unfolding appended_incarnation sample_fields appended_segment(3) torn_segment(1) snd_conv
    by (simp add: disk kTrailerBytes_def kReplayBound_def default_store_config_def short_io_def good_io_def)
qed

section \<open>Digests\<close>


section \<open>The state directory\<close>

text \<open>
  Segment file names are read back: \<open>parse_segment_index\<close> recognises the name that
  \<open>default_journal_path\<close> gives to every index of at most eight digits, and only to those; a
  segment with a longer index is created under a name that the directory listing ignores.
\<close>

theorem segment_names_read_back:
  "parse_segment_index (default_journal_path i) = (if unat i < 10 ^ 8 then Some i else None)"
  by (rule parse_default_path)



section \<open>The runtime\<close>

text \<open>
  C2. The published state is coherent at every moment: from a successful \<open>start\<close> on, through any
  sequence of commands, leases, installs, compactions, sweeps and queries, whatever the disk does,
  the runtime holds a fabric, the index is the index of that fabric, the generation is the fabric's
  and an active lease carries the incarnation and epoch of the process.
\<close>

theorem runtime_stays_consistent:
  assumes "start env rt0 = (st, rt1)" and "rt_started rt1" and "\<not> rt_started rt0" and "live_run installs rt1 rt"
  shows "runtime_consistent rt"
  using start_consistent [OF assms(1-3)] live_run_kept [OF assms(4)] by (simp add: kept_def)

theorem runtime_stays_consistent_witness: "runtime_consistent (snd drained)"
proof -
  have "live_run (\<lambda>_. True) mem_started mem_leased"
    using live_run.step [OF live_run.refl live_step.acquire, of "\<lambda>_. True" mem_started "''op''" 1000 5000 boot_io] mem_leased by simp
  moreover obtain r where "drained = (Some r, snd drained)" by (rule drained)
  ultimately have "live_run (\<lambda>_. True) mem_started (snd drained)"
    using live_run.step [OF _ live_step.applied, of "\<lambda>_. True" mem_started mem_leased drain_command 5500 boot_io]
    unfolding drained_def by (metis fst_conv option.distinct(1))
  from runtime_stays_consistent [OF mem_started(1) _ _ this] show ?thesis
    by (simp add: mem_started(2) mem_runtime_def new_runtime_def)
qed

text \<open>
  C4. A command is all or nothing. When \<open>apply\<close> answers, either every admission check passed, the
  fabric the command yields is published with its index and generation, and the answer is recorded
  under the request identifier; or the published fabric, index, generation and the exactly-once
  table are untouched and the answer is a refusal or the recorded answer of the same request.
\<close>

theorem command_all_or_nothing:
  assumes "apply_locked c now io rt = (Some r, rt')"
  shows "(\<exists>f ix. admitted c now rt f ix \<and> cr_mutated r \<and> rt_fabric rt' = Some f \<and> rt_index rt' = Some ix
            \<and> rt_generation rt' = fab_generation f \<and> rt_dedup rt' = rt_dedup rt @ [(cm_request_id c, r)])
       \<or> (same_view rt rt' \<and> (\<not> cr_mutated r
            \<or> (\<exists>rec. map_of (rt_dedup rt) (cm_request_id c) = Some rec \<and> r = rec\<lparr>cr_deduplicated := True\<rparr>)))"
  by (rule apply_outcome [OF assms])

theorem command_all_or_nothing_witness:
  "\<exists>r. drained = (Some r, snd drained) \<and> rt_fabric (snd drained) = Some next_fabric
     \<and> rt_dedup (snd drained) = [(cm_request_id drain_command, r)]"
proof -
  obtain r where r: "drained = (Some r, snd drained)" "rt_fabric (snd drained) = Some next_fabric" by (rule drained)
  have "rt_fabric mem_leased = Some boot_fabric" "rt_dedup mem_leased = []"
    by (simp_all add: mem_leased_def mem_started(2) mem_runtime_def new_runtime_def)
  then show ?thesis
    using command_all_or_nothing [OF r(1) [unfolded drained_def]] r fabrics_differ by (auto simp: same_view_def drained_def)
qed



text \<open>
  C6. A runtime whose state directory is empty and whose disk takes the writes starts: \<open>start\<close>
  reports success and publishes the initial fabric with its index, in epoch 1 and with no lease.
\<close>

theorem first_boot_starts:
  assumes "fresh_runtime rt" and "initial_fabric (start_reset env rt) = Inr f" and "index_build (Some f) = Inr ix"
    and "disk_works env f" and "roomy (rc_store (rt_config rt)) f"
  shows "\<exists>rt'. start env rt = (status_success, rt') \<and> rt_started rt' \<and> rt_fabric rt' = Some f \<and> rt_index rt' = Some ix
    \<and> rt_epoch rt' = 1 \<and> rt_lease rt' = None"
  by (rule first_boot_works [OF assms])

theorem first_boot_starts_witness:
  "\<exists>rt'. start boot_env boot_runtime = (status_success, rt') \<and> rt_started rt' \<and> rt_fabric rt' = Some boot_fabric"
  using first_boot_starts [OF boot_fresh(1) boot_initial indexes(1) boot_disk(1)] boot_fresh(3) boot_disk(2)
  by (auto simp: boot_config_def)

text \<open>
  C5. No authority outlives the process that granted it: once a later process has recovered epoch
  \<open>e\<close> and started, no token of epoch \<open>e\<close> is accepted, at any later moment of its run.
\<close>

theorem restart_fences_authority:
  assumes "start env rt0 = (st, rt1)" and "rt_started rt1" and "\<not> rt_started rt0"
    and "start_recover env (start_reset env rt0) = (Inr rs, rt3)" and "live_run installs rt1 rt"
    and "tk_epoch t = rc_recovered_epoch rs"
  shows "ck_code (validate_authority t now rt) \<noteq> SC_Ok"
  by (rule fenced_after_start [OF assms])

theorem restart_fences_authority_witness:
  "ck_code (validate_authority ((al_token mem_lease)\<lparr>tk_epoch := 0\<rparr>) 5500 mem_leased) \<noteq> SC_Ok"
proof -
  have "live_run (\<lambda>_. True) mem_started mem_leased"
    using live_run.step [OF live_run.refl live_step.acquire, of "\<lambda>_. True" mem_started "''op''" 1000 5000 boot_io] mem_leased by simp
  moreover obtain rep where "start_recover boot_env (start_reset boot_env mem_runtime) =
    (Inr \<lparr>rc_recovered_fabric = None, rc_next_sequence = 1, rc_next_segment = 1, rc_recovered_epoch = 0\<rparr>,
     (start_reset boot_env mem_runtime)\<lparr>rt_recovery := rep\<rparr>)"
    by (rule first_boot_recover [OF mem_fresh])
  ultimately show ?thesis
    using restart_fences_authority [OF mem_started(1)] by (simp add: mem_started(2) mem_runtime_def new_runtime_def)
qed

text \<open>
  C1. A crash loses nothing that was published. A process boots in an empty directory and goes
  through any sequence of operations; it is lost at any moment at which its journal is not poisoned
  and no snapshot has been written. The next process, which finds the bytes that were on disk and
  can read them, recovers exactly the fabric that was published, the exactly-once table (without the
  refreshed tokens, which are not written) and the epoch. Fabrics that clients install are assumed to
  be ones that the serializer reproduces.
\<close>

theorem crash_loses_nothing:
  assumes "start env rt0 = (st, rt1)" and "rt_started rt1" and "fresh_runtime rt0" and "persistent rt0"
    and "recoverable (rc_limits (rt_config rt0)) (the (rt_fabric rt1))"
    and "unat (cfg_max_record_bytes (rc_store (rt_config rt0))) < 2 ^ 32"
    and "live_run (recoverable (rc_limits (rt_config rt0))) rt1 rt"
    and "rt_store rt = Some s" and "\<not> fs_poisoned s" and "dir_get (rt_dir rt) default_snapshot_path = None"
    and "rt_config rt2 = rt_config rt" and "rt_store rt2 = None" and "rt_dir rt2 = visible_dir rt" and "readable env2 rt s"
  shows "\<exists>rs rt3. start_recover env2 (start_reset env2 rt2) = (Inr rs, rt3) \<and> rc_recovered_fabric rs = rt_fabric rt
    \<and> rt_dedup rt3 = forget_tokens (rt_dedup rt) \<and> rc_recovered_epoch rs = rt_epoch rt"
  by (rule crash_recovery [OF assms])

theorem crash_loses_nothing_witness:
  "\<exists>rs rt3. start_recover boot_env (start_reset boot_env (new_runtime boot_config (visible_dir (sweep 9 boot_started)))) = (Inr rs, rt3)
    \<and> rc_recovered_fabric rs = Some boot_fabric \<and> rc_recovered_epoch rs = 1"
proof -
  have run: "live_run (recoverable (rc_limits (rt_config boot_runtime))) boot_started (sweep 9 boot_started)"
    by (rule live_run.step [OF live_run.refl live_step.sweep])
  obtain s where s: "rt_store (sweep 9 boot_started) = Some s" "\<not> fs_poisoned s" "readable boot_env (sweep 9 boot_started) s"
    and d: "dir_get (rt_dir (sweep 9 boot_started)) default_snapshot_path = None" "rt_config (sweep 9 boot_started) = boot_config"
      "rt_fabric (sweep 9 boot_started) = Some boot_fabric" "rt_epoch (sweep 9 boot_started) = 1"
    by (rule swept_boot)
  have rec: "recoverable (rc_limits (rt_config boot_runtime)) (the (rt_fabric boot_started))"
    using boot_recoverable(1) boot_started(3) boot_fresh(3) by (simp add: boot_config_def)
  have small: "unat (cfg_max_record_bytes (rc_store (rt_config boot_runtime))) < 2 ^ 32"
    using boot_fresh(3) by (simp add: boot_config_def default_store_config_def)
  show ?thesis
    using crash_loses_nothing [OF boot_started(1,2) boot_fresh(1,2) rec small run s(1,2) d(1), of
        "new_runtime boot_config (visible_dir (sweep 9 boot_started))" boot_env] s(3) d
    by (auto simp: new_runtime_def)
qed

end
